(* ===== verification/Prelude.thy ===== *)
theory Prelude
  imports "HOL-Library.Word"
begin

text \<open>
  Shared vocabulary of the development: fixed-width integers, the outcome of a C++ function
  (a normal value, a thrown \<open>common::Error\<close> or undefined behaviour), checked accesses to byte
  buffers, and the generic facts on lists, words and outcomes that the component theories use.

  Every array or vector access that C++ leaves undefined when it is out of range is modelled
  by an explicit \<open>UB\<close> outcome, so that "the handler returns a normal value" is a memory-safety
  statement and not a convention of the model.
\<close>

unbundle bit_operations_syntax

section \<open>Collections of rules\<close>

named_theorems ensures_simps \<open>rules that push \<open>ensures\<close> through the outcome combinators\<close>

named_theorems frame_simps \<open>projections of updated machine states\<close>

section \<open>Machine integers\<close>

type_synonym u8 = "8 word"
type_synonym u16 = "16 word"
type_synonym u32 = "32 word"
type_synonym u64 = "64 word"
type_synonym u256 = "256 word"

text \<open>\<open>int64_t\<close> and \<open>int32_t\<close> values are kept as words and read with \<open>sint\<close> and \<open><s\<close>.\<close>

type_synonym i16 = "16 word"
type_synonym i32 = "32 word"
type_synonym i64 = "64 word"

text \<open>\<open>static_cast<uint32_t>\<close> of a \<open>size_t\<close>, on natural numbers.\<close>

definition u32_cast :: "nat \<Rightarrow> nat" where
  "u32_cast n = n mod 2 ^ 32"

definition UINT32_MAX :: nat where
  "UINT32_MAX = 2 ^ 32 - 1"

lemma u32_cast_id [simp]: "n < 4294967296 \<Longrightarrow> u32_cast n = n"
  by (simp add: u32_cast_def)

section \<open>Outcomes of C++ functions\<close>

text \<open>The error codes of \<open>common/errors\<close> that the modelled code sets or throws; \<open>Named\<close> stands for those of the WebAssembly part, by name.\<close>

datatype ErrorCode =
    NoError
  | InstanceExit
  | EVMStackOverflow
  | EVMStackUnderflow
  | EVMFrameNotFound
  | EVMInvalidInstruction
  | GasLimitExceeded
  | InvalidRawData
  | ModuleSizeTooLarge
  | RegAllocFailed
  | Named string

text \<open>\<open>Abort\<close> is the failure of a \<open>ZEN_ASSERT\<close>.\<close>

datatype cpp_error = UB | Abort | Throw ErrorCode

type_synonym 'a res = "cpp_error + 'a"

fun bindE :: "'a res \<Rightarrow> ('a \<Rightarrow> 'b res) \<Rightarrow> 'b res" where
  "bindE (Inl e) f = Inl e"
| "bindE (Inr x) f = f x"

text \<open>\<open>ensures r Q\<close>: the call returns normally and its value satisfies \<open>Q\<close>.\<close>

definition ensures :: "'a res \<Rightarrow> ('a \<Rightarrow> bool) \<Rightarrow> bool" where
  "ensures r Q \<longleftrightarrow> (case r of Inl _ \<Rightarrow> False | Inr x \<Rightarrow> Q x)"

lemma ensures_Inr [simp, ensures_simps]: "ensures (Inr x) Q \<longleftrightarrow> Q x"
  by (simp add: ensures_def)

lemma ensures_Inl [simp, ensures_simps]: "ensures (Inl e) Q \<longleftrightarrow> False"
  by (simp add: ensures_def)

lemma ensures_bindE [ensures_simps]:
  "ensures (bindE r f) Q \<longleftrightarrow> ensures r (\<lambda>x. ensures (f x) Q)"
  by (cases r) (auto simp: ensures_def)

lemma ensures_if [ensures_simps]:
  "ensures (if b then r else s) Q \<longleftrightarrow> (b \<longrightarrow> ensures r Q) \<and> (\<not> b \<longrightarrow> ensures s Q)"
  by simp

lemma ensures_mono: "ensures r P \<Longrightarrow> (\<And>x. P x \<Longrightarrow> Q x) \<Longrightarrow> ensures r Q"
  by (cases r) (auto simp: ensures_def)

lemma ensures_conj: "ensures r P \<Longrightarrow> ensures r Q \<Longrightarrow> ensures r (\<lambda>x. P x \<and> Q x)"
  by (cases r) (auto simp: ensures_def)

lemma ensuresE: "ensures r Q \<Longrightarrow> (\<And>x. r = Inr x \<Longrightarrow> Q x \<Longrightarrow> P) \<Longrightarrow> P"
  by (cases r) (auto simp: ensures_def)

lemma ensuresD: "ensures r Q \<Longrightarrow> r = Inr x \<Longrightarrow> Q x"
  by (auto simp: ensures_def)

lemma ensures_iff: "ensures r Q \<longleftrightarrow> (\<exists>x. r = Inr x \<and> Q x)"
  by (cases r) (auto simp: ensures_def)

lemma bindE_Inr_iff: "bindE r f = Inr y \<longleftrightarrow> (\<exists>x. r = Inr x \<and> f x = Inr y)"
  by (cases r) auto

section \<open>Checked byte buffers\<close>

text \<open>
  \<open>memcpy\<close>, \<open>memmove\<close> and \<open>memset\<close> on a buffer: undefined when a byte outside the buffer is
  read or written; a call with size zero touches no byte.
\<close>

definition mem_read :: "u8 list \<Rightarrow> nat \<Rightarrow> nat \<Rightarrow> u8 list res" where
  "mem_read m off n =
     (if n = 0 then Inr []
      else if off + n \<le> length m then Inr (take n (drop off m)) else Inl UB)"

definition mem_write :: "u8 list \<Rightarrow> nat \<Rightarrow> u8 list \<Rightarrow> u8 list res" where
  "mem_write m off bs =
     (if bs = [] then Inr m
      else if off + length bs \<le> length m
      then Inr (take off m @ bs @ drop (off + length bs) m) else Inl UB)"

definition mem_zero :: "u8 list \<Rightarrow> nat \<Rightarrow> nat \<Rightarrow> u8 list res" where
  "mem_zero m off n = mem_write m off (replicate n 0)"

lemma mem_read_ok [ensures_simps]:
  "ensures (mem_read m off n) Q \<longleftrightarrow>
     (n = 0 \<longrightarrow> Q []) \<and> (n \<noteq> 0 \<longrightarrow> off + n \<le> length m \<and> Q (take n (drop off m)))"
  by (auto simp: mem_read_def)

lemma mem_write_ok [ensures_simps]:
  "ensures (mem_write m off bs) Q \<longleftrightarrow>
     (bs = [] \<longrightarrow> Q m) \<and>
     (bs \<noteq> [] \<longrightarrow> off + length bs \<le> length m \<and>
        Q (take off m @ bs @ drop (off + length bs) m))"
  by (auto simp: mem_write_def)

lemma mem_zero_ok [ensures_simps]:
  "ensures (mem_zero m off n) Q \<longleftrightarrow>
     (n = 0 \<longrightarrow> Q m) \<and>
     (n \<noteq> 0 \<longrightarrow> off + n \<le> length m \<and>
        Q (take off m @ replicate n 0 @ drop (off + n) m))"
  by (auto simp: mem_zero_def mem_write_def)

lemma mem_write_length: "mem_write m off bs = Inr m' \<Longrightarrow> length m' = length m"
  by (auto simp: mem_write_def split: if_splits)

lemma mem_write_read_same:
  "mem_write m off bs = Inr m' \<Longrightarrow> mem_read m' off (length bs) = Inr bs"
  by (auto simp: mem_write_def mem_read_def split: if_splits)

lemma mem_write_nth:
  assumes "mem_write m off bs = Inr m'" and "i < length m"
  shows "m' ! i = (if off \<le> i \<and> i < off + length bs then bs ! (i - off) else m ! i)"
  using assms by (auto simp: mem_write_def nth_append split: if_splits)

section \<open>Checked vectors\<close>

definition vec_at :: "'a list \<Rightarrow> nat \<Rightarrow> 'a res" where
  "vec_at xs i = (if i < length xs then Inr (xs ! i) else Inl UB)"

definition vec_put :: "nat \<Rightarrow> 'a \<Rightarrow> 'a list \<Rightarrow> 'a list res" where
  "vec_put i v xs = (if i < length xs then Inr (xs[i := v]) else Inl UB)"

lemma vec_at_ok [ensures_simps]: "ensures (vec_at xs i) Q \<longleftrightarrow> i < length xs \<and> Q (xs ! i)"
  by (simp add: vec_at_def)

lemma vec_put_ok [ensures_simps]: "ensures (vec_put i v xs) Q \<longleftrightarrow> i < length xs \<and> Q (xs[i := v])"
  by (simp add: vec_put_def)

lemma vec_at_Inr: "i < length xs \<Longrightarrow> vec_at xs i = Inr (xs ! i)"
  by (simp add: vec_at_def)

lemma vec_put_Inr: "i < length xs \<Longrightarrow> vec_put i v xs = Inr (xs[i := v])"
  by (simp add: vec_put_def)

section \<open>Big-endian byte strings\<close>

definition be_val :: "u8 list \<Rightarrow> nat" where
  "be_val bs = foldl (\<lambda>acc b. acc * 256 + unat b) 0 bs"

fun be_bytes :: "nat \<Rightarrow> nat \<Rightarrow> u8 list" where
  "be_bytes 0 x = []"
| "be_bytes (Suc n) x = be_bytes n (x div 256) @ [of_nat x]"

lemma be_val_Nil [simp]: "be_val [] = 0"
  by (simp add: be_val_def)

lemma be_val_snoc [simp]: "be_val (bs @ [b]) = be_val bs * 256 + unat b"
  by (simp add: be_val_def)

lemma length_be_bytes [simp]: "length (be_bytes n x) = n"
  by (induction n arbitrary: x) auto

lemma unat_less_byte [simp]: "unat (b::u8) < 256"
  using unsigned_less [of b] by simp

lemma be_val_less: "be_val bs < 256 ^ length bs"
proof (induction bs rule: rev_induct)
  case (snoc b bs)
  then have "be_val bs + 1 \<le> 256 ^ length bs" by simp
  then have "(be_val bs + 1) * 256 \<le> 256 ^ length bs * 256" by (rule mult_le_mono1)
  moreover have "be_val bs * 256 + unat b < (be_val bs + 1) * 256" by simp
  ultimately have "be_val bs * 256 + unat b < 256 ^ length bs * 256" by (rule less_le_trans [rotated])
  then show ?case by (simp add: mult.commute)
qed simp

lemma be_val_append: "be_val (as @ bs) = be_val as * 256 ^ length bs + be_val bs"
  by (induction bs rule: rev_induct) (auto simp: algebra_simps simp flip: append_assoc)

lemma be_val_be_bytes: "be_val (be_bytes n x) = x mod 256 ^ n"
proof (induction n arbitrary: x)
  case (Suc n)
  have "x mod (256 * 256 ^ n) = 256 * (x div 256 mod 256 ^ n) + x mod 256"
    by (rule mod_mult2_eq)
  then show ?case by (simp add: Suc unat_of_nat mult.commute)
qed simp

lemma be_bytes_be_val: "be_bytes (length bs) (be_val bs) = bs"
proof (induction bs rule: rev_induct)
  case (snoc b bs)
  have "(of_nat (be_val bs * 256 + unat b) :: u8) = of_nat (be_val bs) * of_nat 256 + b"
    by simp
  also have "(of_nat 256 :: u8) = 0" by simp
  finally have "(of_nat (be_val bs * 256 + unat b) :: u8) = b" by simp
  then show ?case using snoc by (simp del: of_nat_add of_nat_mult)
qed simp

lemma be_bytes_nth: "i < n \<Longrightarrow> be_bytes n x ! i = of_nat (x div 256 ^ (n - 1 - i))"
proof (induction n arbitrary: x)
  case (Suc n)
  show ?case
  proof (cases "i < n")
    case True
    then have "n - i = Suc (n - 1 - i)" by simp
    then show ?thesis using Suc.IH [OF True, of "x div 256"] True
      by (simp add: nth_append div_mult2_eq mult.commute)
  next
    case False
    then show ?thesis using Suc.prems by (simp add: nth_append)
  qed
qed simp

lemma be_val_replicate_zero [simp]: "be_val (replicate n 0) = 0"
  by (induction n) (simp_all add: be_val_def)

section \<open>Word facts\<close>

lemma unat_less_64 [simp]: "unat (x::u64) < 18446744073709551616"
  using unsigned_less [of x] by simp

lemma unat_less_256 [simp]:
  "unat (x::u256) < 115792089237316195423570985008687907853269984665640564039457584007913129639936"
  using unsigned_less [of x] by simp

lemma unat_of_nat_64: "n < 18446744073709551616 \<Longrightarrow> unat (of_nat n :: u64) = n"
  by (simp add: unat_of_nat)

lemma unat_sub_64: "b \<le> a \<Longrightarrow> unat (a - b) = unat (a::u64) - unat b"
  by (rule unat_sub)

lemma sint_nonneg_64: "unat (g :: i64) < 9223372036854775808 \<Longrightarrow> sint g = int (unat g)"
proof -
  assume "unat g < 9223372036854775808"
  then have "int (unat g) < 9223372036854775808" by linarith
  then have "uint g < 9223372036854775808" by simp
  then show ?thesis
    using int_word_sint [of "uint g", where 'a = 64] by (simp add: mod_pos_pos_trivial)
qed

lemma word_less_nat_64: "(a::u64) < b \<longleftrightarrow> unat a < unat b"
  by (rule word_less_nat_alt)

end
