(* ===== verification/Evmc.thy ===== *)
theory Evmc
  imports Prelude
begin

text \<open>
  What the EVM code takes from outside the repository: the EVMC interface (enumerations,
  \<open>evmc_message\<close>, \<open>evmc_result\<close>, \<open>evmc_tx_context\<close>, the instruction tables and the methods of
  \<open>evmc::Host\<close>) and the functions of the \<open>intx\<close> 256-bit integer library. The types are the
  names the sources use; every \<^emph>\<open>function\<close> is a field of the record \<open>ext\<close>, which is an argument
  of the definitions that call it. What the code relies on is stated by the predicates at the
  end of the theory (\<open>intx_ok\<close>, \<open>host_ok\<close>, \<open>metrics_ok\<close>), which the properties that need them
  name as hypotheses.

  The constants of \<open>src/evm/evm.h\<close> and \<open>src/evm/gas_storage_cost.h\<close> are here too.
\<close>

section \<open>Enumerations\<close>

datatype evmc_revision =
    EVMC_FRONTIER | EVMC_HOMESTEAD | EVMC_TANGERINE_WHISTLE | EVMC_SPURIOUS_DRAGON
  | EVMC_BYZANTIUM | EVMC_CONSTANTINOPLE | EVMC_PETERSBURG | EVMC_ISTANBUL | EVMC_BERLIN
  | EVMC_LONDON | EVMC_PARIS | EVMC_SHANGHAI | EVMC_CANCUN | EVMC_PRAGUE | EVMC_OSAKA
  | EVMC_EXPERIMENTAL

text \<open>The revisions are compared with \<open><\<close> and \<open>>=\<close>: they are ordered as EVMC enumerates them.\<close>

fun rev_index :: "evmc_revision \<Rightarrow> nat" where
  "rev_index EVMC_FRONTIER = 0"
| "rev_index EVMC_HOMESTEAD = 1"
| "rev_index EVMC_TANGERINE_WHISTLE = 2"
| "rev_index EVMC_SPURIOUS_DRAGON = 3"
| "rev_index EVMC_BYZANTIUM = 4"
| "rev_index EVMC_CONSTANTINOPLE = 5"
| "rev_index EVMC_PETERSBURG = 6"
| "rev_index EVMC_ISTANBUL = 7"
| "rev_index EVMC_BERLIN = 8"
| "rev_index EVMC_LONDON = 9"
| "rev_index EVMC_PARIS = 10"
| "rev_index EVMC_SHANGHAI = 11"
| "rev_index EVMC_CANCUN = 12"
| "rev_index EVMC_PRAGUE = 13"
| "rev_index EVMC_OSAKA = 14"
| "rev_index EVMC_EXPERIMENTAL = 15"

lemma rev_index_inject: "rev_index a = rev_index b \<Longrightarrow> a = b"
  by (cases a; cases b) simp_all

instantiation evmc_revision :: linorder
begin

definition less_eq_evmc_revision :: "evmc_revision \<Rightarrow> evmc_revision \<Rightarrow> bool" where
  "less_eq_evmc_revision a b \<longleftrightarrow> rev_index a \<le> rev_index b"

definition less_evmc_revision :: "evmc_revision \<Rightarrow> evmc_revision \<Rightarrow> bool" where
  "less_evmc_revision a b \<longleftrightarrow> rev_index a < rev_index b"

instance
  by standard (auto simp: less_eq_evmc_revision_def less_evmc_revision_def dest: rev_index_inject)

end

lemmas rev_order [simp] = less_eq_evmc_revision_def less_evmc_revision_def

datatype evmc_status_code =
    EVMC_SUCCESS | EVMC_FAILURE | EVMC_REVERT | EVMC_OUT_OF_GAS | EVMC_INVALID_INSTRUCTION
  | EVMC_UNDEFINED_INSTRUCTION | EVMC_STACK_OVERFLOW | EVMC_STACK_UNDERFLOW
  | EVMC_BAD_JUMP_DESTINATION | EVMC_INVALID_MEMORY_ACCESS | EVMC_CALL_DEPTH_EXCEEDED
  | EVMC_STATIC_MODE_VIOLATION | EVMC_INSUFFICIENT_BALANCE | EVMC_INTERNAL_ERROR

datatype evmc_access_status = EVMC_ACCESS_COLD | EVMC_ACCESS_WARM

datatype evmc_storage_status =
    EVMC_STORAGE_ASSIGNED | EVMC_STORAGE_ADDED | EVMC_STORAGE_DELETED | EVMC_STORAGE_MODIFIED
  | EVMC_STORAGE_DELETED_ADDED | EVMC_STORAGE_MODIFIED_DELETED | EVMC_STORAGE_DELETED_RESTORED
  | EVMC_STORAGE_ADDED_DELETED | EVMC_STORAGE_MODIFIED_RESTORED

datatype evmc_call_kind =
    EVMC_CALL | EVMC_DELEGATECALL | EVMC_CALLCODE | EVMC_CREATE | EVMC_CREATE2

section \<open>Messages, results, transaction context\<close>

text \<open>\<open>evmc::address\<close> (20 bytes) and \<open>evmc::bytes32\<close> (32 bytes) are byte arrays.\<close>

type_synonym address = "u8 list"
type_synonym bytes32 = "u8 list"

definition zero_bytes32 :: bytes32 where
  "zero_bytes32 = replicate 32 0"

definition zero_address :: address where
  "zero_address = replicate 20 0"

text \<open>\<open>input_data\<close> with \<open>input_size\<close> is one byte list.\<close>

record evmc_message =
  m_kind :: evmc_call_kind
  m_flags :: u32
  m_depth :: i32
  m_gas :: i64
  m_recipient :: address
  m_sender :: address
  m_input :: "u8 list"
  m_value :: bytes32
  m_salt :: bytes32
  m_code_address :: address

record evmc_result =
  r_status :: evmc_status_code
  r_gas_left :: i64
  r_gas_refund :: i64
  r_output :: "u8 list"
  r_create_address :: address

record evmc_tx_context =
  tx_gas_price :: bytes32
  tx_origin :: address
  block_coinbase :: address
  block_number :: i64
  block_timestamp :: i64
  block_gas_limit :: i64
  block_prev_randao :: bytes32
  chain_id :: bytes32
  block_base_fee :: bytes32
  blob_base_fee :: bytes32
  blob_hashes :: "bytes32 list"

text \<open>The value-initialised context \<open>evmc_tx_context{}\<close>.\<close>

definition empty_tx_context :: evmc_tx_context where
  "empty_tx_context = \<lparr>tx_gas_price = zero_bytes32, tx_origin = zero_address,
     block_coinbase = zero_address, block_number = 0, block_timestamp = 0, block_gas_limit = 0,
     block_prev_randao = zero_bytes32, chain_id = zero_bytes32, block_base_fee = zero_bytes32,
     blob_base_fee = zero_bytes32, blob_hashes = []\<rparr>"

definition evmc_Result ::
  "evmc_status_code \<Rightarrow> i64 \<Rightarrow> i64 \<Rightarrow> u8 list \<Rightarrow> evmc_result" where
  "evmc_Result st left refund out = \<lparr>r_status = st, r_gas_left = left, r_gas_refund = refund,
     r_output = out, r_create_address = zero_address\<rparr>"

section \<open>External functions\<close>

text \<open>
  \<open>metrics rv op\<close> and \<open>op_defined rv op\<close> are the \<open>gas_cost\<close> entry (an \<open>int16_t\<close>) and the
  non-null test of the EVMC instruction tables of revision \<open>rv\<close>. The \<open>x_\<close> fields are functions
  of \<open>intx\<close>, \<open>x_keccak\<close> is the installed \<open>CryptoInterface\<close>, and the \<open>h_\<close> fields are the methods
  of \<open>evmc::Host\<close> over an unspecified world state \<open>'h\<close>: the \<open>const\<close> methods read it, the others
  return it updated. \<open>h_copy_code h a off n\<close> is the list of bytes the host copies when it is
  given a buffer of \<open>n\<close> bytes.
\<close>

record evmc_tables =
  metrics :: "evmc_revision \<Rightarrow> u8 \<Rightarrow> i16"
  op_defined :: "evmc_revision \<Rightarrow> u8 \<Rightarrow> bool"
  flag_static :: u32
  flag_delegated :: u32

record intx = evmc_tables +
  x_sdiv :: "u256 \<Rightarrow> u256 \<Rightarrow> u256"
  x_srem :: "u256 \<Rightarrow> u256 \<Rightarrow> u256"
  x_addmod :: "u256 \<Rightarrow> u256 \<Rightarrow> u256 \<Rightarrow> u256"
  x_mulmod :: "u256 \<Rightarrow> u256 \<Rightarrow> u256 \<Rightarrow> u256"
  x_exp :: "u256 \<Rightarrow> u256 \<Rightarrow> u256"
  x_clz :: "u256 \<Rightarrow> u256"
  x_slt :: "u256 \<Rightarrow> u256 \<Rightarrow> bool"
  x_count_significant_bytes :: "u256 \<Rightarrow> u64"
  x_to_big_endian :: "u64 \<Rightarrow> u64"
  x_be_load :: "u8 list \<Rightarrow> u256"
  x_be_store32 :: "u256 \<Rightarrow> bytes32"
  x_be_trunc_address :: "u256 \<Rightarrow> address"
  x_keccak :: "u8 list \<Rightarrow> bytes32"

record 'h ext = intx +
  h_account_exists :: "'h \<Rightarrow> address \<Rightarrow> bool"
  h_get_storage :: "'h \<Rightarrow> address \<Rightarrow> bytes32 \<Rightarrow> bytes32"
  h_set_storage :: "'h \<Rightarrow> address \<Rightarrow> bytes32 \<Rightarrow> bytes32 \<Rightarrow> evmc_storage_status \<times> 'h"
  h_get_balance :: "'h \<Rightarrow> address \<Rightarrow> bytes32"
  h_get_code_size :: "'h \<Rightarrow> address \<Rightarrow> u64"
  h_get_code_hash :: "'h \<Rightarrow> address \<Rightarrow> bytes32"
  h_copy_code :: "'h \<Rightarrow> address \<Rightarrow> u64 \<Rightarrow> u64 \<Rightarrow> u8 list"
  h_selfdestruct :: "'h \<Rightarrow> address \<Rightarrow> address \<Rightarrow> bool \<times> 'h"
  h_call :: "'h \<Rightarrow> evmc_message \<Rightarrow> evmc_result \<times> 'h"
  h_get_tx_context :: "'h \<Rightarrow> evmc_tx_context"
  h_get_block_hash :: "'h \<Rightarrow> i64 \<Rightarrow> bytes32"
  h_emit_log :: "'h \<Rightarrow> address \<Rightarrow> u8 list \<Rightarrow> bytes32 list \<Rightarrow> 'h"
  h_access_account :: "'h \<Rightarrow> address \<Rightarrow> evmc_access_status \<times> 'h"
  h_access_storage :: "'h \<Rightarrow> address \<Rightarrow> bytes32 \<Rightarrow> evmc_access_status \<times> 'h"
  h_get_transient :: "'h \<Rightarrow> address \<Rightarrow> bytes32 \<Rightarrow> bytes32"
  h_set_transient :: "'h \<Rightarrow> address \<Rightarrow> bytes32 \<Rightarrow> bytes32 \<Rightarrow> 'h"

text \<open>The implicit conversion of the \<open>int16_t\<close> table entry to \<open>uint64_t\<close> sign-extends.\<close>

definition gas_cost :: "'h ext \<Rightarrow> evmc_revision \<Rightarrow> u8 \<Rightarrow> u64" where
  "gas_cost E rv op = scast (metrics E rv op)"

section \<open>Constants of evm.h and gas\_storage\_cost.h\<close>

definition MAXSTACK :: nat where "MAXSTACK = 1024"

definition MAX_REQUIRED_MEMORY_SIZE :: u64 where
  "MAX_REQUIRED_MEMORY_SIZE = 16 * 1024 * 1024"

definition DEFAULT_REVISION :: evmc_revision where
  "DEFAULT_REVISION = EVMC_CANCUN"

definition COLD_ACCOUNT_ACCESS_COST :: u64 where "COLD_ACCOUNT_ACCESS_COST = 2600"
definition WARM_ACCOUNT_ACCESS_COST :: u64 where "WARM_ACCOUNT_ACCESS_COST = 100"

definition ADDITIONAL_COLD_ACCOUNT_ACCESS_COST :: u64 where
  "ADDITIONAL_COLD_ACCOUNT_ACCESS_COST = COLD_ACCOUNT_ACCESS_COST - WARM_ACCOUNT_ACCESS_COST"

definition CALL_VALUE_COST :: u64 where "CALL_VALUE_COST = 9000"
definition ACCOUNT_CREATION_COST :: u64 where "ACCOUNT_CREATION_COST = 25000"
definition EXTRA_REFUND_BEFORE_LONDON :: i64 where "EXTRA_REFUND_BEFORE_LONDON = 24000"
definition CALL_GAS_STIPEND :: u64 where "CALL_GAS_STIPEND = 2300"
definition EXP_BYTE_GAS :: u64 where "EXP_BYTE_GAS = 50"

definition EXP_BYTE_GAS_PRE_SPURIOUS_DRAGON :: u64 where
  "EXP_BYTE_GAS_PRE_SPURIOUS_DRAGON = 10"

definition MAX_SIZE_OF_INITCODE :: u256 where "MAX_SIZE_OF_INITCODE = 0xC000"

definition COLD_SLOAD_COST :: int where "COLD_SLOAD_COST = 2100"
definition WARM_STORAGE_READ_COST :: int where "WARM_STORAGE_READ_COST = 100"

definition ADDITIONAL_COLD_SLOAD_COST :: int where
  "ADDITIONAL_COLD_SLOAD_COST = COLD_SLOAD_COST - WARM_STORAGE_READ_COST"

definition WORD_COPY_COST :: u64 where "WORD_COPY_COST = 3"
definition SSTORE_REQUIRED_ISTANBUL :: int where "SSTORE_REQUIRED_ISTANBUL = 2300"

lemmas evm_constants [simp] = MAXSTACK_def MAX_REQUIRED_MEMORY_SIZE_def DEFAULT_REVISION_def
  COLD_ACCOUNT_ACCESS_COST_def WARM_ACCOUNT_ACCESS_COST_def
  ADDITIONAL_COLD_ACCOUNT_ACCESS_COST_def CALL_VALUE_COST_def ACCOUNT_CREATION_COST_def
  EXTRA_REFUND_BEFORE_LONDON_def CALL_GAS_STIPEND_def EXP_BYTE_GAS_def
  EXP_BYTE_GAS_PRE_SPURIOUS_DRAGON_def MAX_SIZE_OF_INITCODE_def COLD_SLOAD_COST_def
  WARM_STORAGE_READ_COST_def ADDITIONAL_COLD_SLOAD_COST_def WORD_COPY_COST_def
  SSTORE_REQUIRED_ISTANBUL_def

section \<open>What the code relies on\<close>

text \<open>
  Documented behaviour of \<open>intx\<close>: \<open>to_big_endian\<close> reverses the bytes of a 64-bit word on the
  little-endian machines the code runs on, big-endian load and store of 256-bit values, signed division
  truncating towards zero, modular addition and multiplication without intermediate overflow,
  modular exponentiation, leading zeros, signed comparison.
\<close>

definition intx_ok :: "'h ext \<Rightarrow> bool" where
  "intx_ok E \<longleftrightarrow>
     (\<forall>bs. length bs = 8 \<longrightarrow> x_to_big_endian E (of_nat (be_val (rev bs))) = of_nat (be_val bs)) \<and>
     (\<forall>x. x_be_store32 E x = be_bytes 32 (unat x)) \<and>
     (\<forall>bs. length bs \<le> 32 \<longrightarrow> x_be_load E bs = of_nat (be_val bs)) \<and>
     (\<forall>x. x_be_trunc_address E x = be_bytes 20 (unat x)) \<and>
     (\<forall>a b. x_slt E a b \<longleftrightarrow> a <s b) \<and>
     (\<forall>a b. b \<noteq> 0 \<longrightarrow>
        x_sdiv E a b = word_of_int (sgn (sint a) * sgn (sint b) * (\<bar>sint a\<bar> div \<bar>sint b\<bar>))) \<and>
     (\<forall>a b. b \<noteq> 0 \<longrightarrow> x_srem E a b = word_of_int (sgn (sint a) * (\<bar>sint a\<bar> mod \<bar>sint b\<bar>))) \<and>
     (\<forall>a b m. m \<noteq> 0 \<longrightarrow> x_addmod E a b m = of_nat ((unat a + unat b) mod unat m)) \<and>
     (\<forall>a b m. m \<noteq> 0 \<longrightarrow> x_mulmod E a b m = of_nat ((unat a * unat b) mod unat m)) \<and>
     (\<forall>a b. x_exp E a b = a ^ unat b) \<and>
     (\<forall>x. unat (x_clz E x) \<le> 256 \<and> unat x < 2 ^ (256 - unat (x_clz E x)) \<and>
        (x \<noteq> 0 \<longrightarrow> 2 ^ (255 - unat (x_clz E x)) \<le> unat x)) \<and>
     (\<forall>x. unat (x_count_significant_bytes E x) \<le> 32 \<and>
        unat x < 256 ^ unat (x_count_significant_bytes E x) \<and>
        (x \<noteq> 0 \<longrightarrow> 256 ^ (unat (x_count_significant_bytes E x) - 1) \<le> unat x))"

text \<open>
  Documented behaviour of the host: \<open>copy_code\<close> never writes more bytes than the buffer holds; a
  call never returns more gas than its message carried, and the size of its output is a \<open>size_t\<close>.
\<close>

definition host_ok :: "'h ext \<Rightarrow> bool" where
  "host_ok E \<longleftrightarrow>
     (\<forall>h a off n. length (h_copy_code E h a off n) \<le> unat n) \<and>
     (\<forall>h m. m_gas m < 2 ^ 63 \<longrightarrow> r_gas_left (fst (h_call E h m)) \<le> m_gas m) \<and>
     (\<forall>h m. length (r_output (fst (h_call E h m))) < 2 ^ 64)"

text \<open>
  The EVMC instruction tables: the price of an instruction that exists is not negative, the others
  have the price \<open>-1\<close>; \<open>JUMP\<close> and \<open>JUMPI\<close> are never free, and \<open>PUSH0\<close> exists since Shanghai. The two
  message flags differ.
\<close>

definition metrics_ok :: "'h ext \<Rightarrow> bool" where
  "metrics_ok E \<longleftrightarrow>
     (\<forall>rv op. op_defined E rv op \<longrightarrow> 0 \<le> sint (metrics E rv op)) \<and>
     (\<forall>rv op. \<not> op_defined E rv op \<longrightarrow> metrics E rv op = -1) \<and>
     (\<forall>rv. 0 < sint (metrics E rv 0x56) \<and> 0 < sint (metrics E rv 0x57)) \<and>
     (\<forall>rv. op_defined E rv 0x5f \<longrightarrow> EVMC_SHANGHAI \<le> rv) \<and>
     flag_static E \<noteq> 0 \<and> flag_static E AND flag_delegated E = 0"

end
