(* ===== verification/Memory_Cost.thy ===== *)
theory Memory_Cost
  imports Evmc
begin

text \<open>
  The price of growing memory. The repository computes it twice, in
  \<open>EVMInstance::calculateMemoryExpansionCost\<close> and in \<open>opcode_handlers.cpp\<close>; both are clients of the
  arithmetic below. The locale \<open>memory_cost\<close> is the contract their callers rely on, and it is
  interpreted on both functions in the theories that define them.
\<close>

section \<open>The fee of the Yellow Paper\<close>

definition mem_words :: "nat \<Rightarrow> nat" where
  "mem_words n = (n + 31) div 32"

definition mem_fee :: "nat \<Rightarrow> nat" where
  "mem_fee w = w * w div 512 + 3 * w"

lemma mem_words_mono: "a \<le> b \<Longrightarrow> mem_words a \<le> mem_words b"
  by (simp add: mem_words_def div_le_mono)

lemma mem_fee_mono: "a \<le> b \<Longrightarrow> mem_fee a \<le> mem_fee b"
  unfolding mem_fee_def by (intro add_mono div_le_mono mult_le_mono) simp_all

lemma mem_words_bound: "n \<le> 2 ^ 32 \<Longrightarrow> mem_words n \<le> 2 ^ 27"
  by (simp add: mem_words_def)

lemma mem_fee_bound: "n \<le> 2 ^ 32 \<Longrightarrow> mem_fee (mem_words n) \<le> 2 ^ 46"
proof -
  assume "n \<le> 2 ^ 32"
  then have "mem_fee (mem_words n) \<le> mem_fee (2 ^ 27)"
    by (intro mem_fee_mono mem_words_bound)
  then show ?thesis by (simp add: mem_fee_def)
qed

section \<open>The 64-bit computation\<close>

text \<open>The lambda \<open>MemoryCost\<close>: computed in \<open>__int128\<close> and cast to \<open>uint64_t\<close>.\<close>

definition MemoryCost :: "u64 \<Rightarrow> u64" where
  "MemoryCost Words = word_of_int (uint Words * uint Words div 512 + 3 * uint Words)"

lemma unat_add_31_div: "unat n \<le> 2 ^ 32 \<Longrightarrow> unat ((n + 31) div 32 :: u64) = mem_words (unat n)"
  by (simp add: mem_words_def unat_div unat_word_ariths)

lemma unat_align_32: "unat n \<le> 2 ^ 32 \<Longrightarrow> unat ((n + 31) div 32 * 32 :: u64) = mem_words (unat n) * 32"
proof -
  assume n: "unat n \<le> 2 ^ 32"
  then have "unat ((n + 31) div 32 :: u64) \<le> 2 ^ 27"
    using unat_add_31_div [OF n] mem_words_bound [OF n] by simp
  then show ?thesis by (simp add: unat_word_ariths flip: unat_add_31_div [OF n])
qed

lemma MemoryCost_fee: "unat w \<le> 2 ^ 27 \<Longrightarrow> unat (MemoryCost w) = mem_fee (unat w)"
proof -
  assume w: "unat w \<le> 2 ^ 27"
  have "mem_fee (unat w) \<le> mem_fee (2 ^ 27)" using w by (rule mem_fee_mono)
  then have "mem_fee (unat w) < 2 ^ 64" by (simp add: mem_fee_def)
  moreover have "uint w * uint w div 512 + 3 * uint w = int (mem_fee (unat w))"
    by (simp add: mem_fee_def zdiv_int)
  ultimately show ?thesis
    by (simp add: MemoryCost_def unat_of_nat)
qed

section \<open>The contract\<close>

locale memory_cost =
  fixes cost :: "u64 \<Rightarrow> u64 \<Rightarrow> u64"
  assumes cost_none: "new \<le> cur \<Longrightarrow> cost cur new = 0"
    and cost_grow: "cur < new \<Longrightarrow> unat new \<le> 2 ^ 32 \<Longrightarrow>
      unat (cost cur new) = mem_fee (mem_words (unat new)) - mem_fee (mem_words (unat cur))"
begin

lemma cost_fee:
  assumes "cur \<le> new" and "unat new \<le> 2 ^ 32"
  shows "mem_fee (mem_words (unat cur)) + unat (cost cur new) = mem_fee (mem_words (unat new))"
proof (cases "cur = new")
  case False
  with assms(1) have "cur < new" by simp
  moreover have "mem_fee (mem_words (unat cur)) \<le> mem_fee (mem_words (unat new))"
    using assms(1) by (intro mem_fee_mono mem_words_mono) (simp add: word_le_nat_alt)
  ultimately show ?thesis using cost_grow [of cur new] assms(2) by simp
qed (simp add: cost_none)

lemma cost_bound: "unat new \<le> 2 ^ 32 \<Longrightarrow> unat (cost cur new) \<le> 2 ^ 46"
  using cost_grow [of cur new] cost_none [of new cur] mem_fee_bound [of "unat new"]
  by (cases "cur < new") auto

lemma cost_additive:
  assumes "a \<le> b" and "b \<le> c" and "unat c \<le> 2 ^ 32"
  shows "cost a c = cost a b + cost b c"
proof -
  have b: "unat b \<le> 2 ^ 32" using assms(2,3) by (simp add: word_le_nat_alt)
  have "unat (cost a c) = unat (cost a b) + unat (cost b c)"
    using cost_fee [of a b] cost_fee [of b c] cost_fee [of a c] assms b order_trans [of a b c]
    by simp
  then have "(of_nat (unat (cost a c)) :: u64) = of_nat (unat (cost a b)) + of_nat (unat (cost b c))"
    by simp
  then show ?thesis by simp
qed

lemma cost_mono:
  assumes "b \<le> c" and "unat c \<le> 2 ^ 32"
  shows "cost a b \<le> cost a c"
proof (cases "a \<le> b")
  case True
  have "unat b \<le> 2 ^ 32" using assms by (simp add: word_le_nat_alt)
  moreover have "mem_fee (mem_words (unat b)) \<le> mem_fee (mem_words (unat c))"
    using assms(1) by (intro mem_fee_mono mem_words_mono) (simp add: word_le_nat_alt)
  ultimately show ?thesis
    using cost_fee [of a b] cost_fee [of a c] True assms by (simp add: word_le_nat_alt)
qed (simp add: cost_none)

end

lemma memory_cost_formula:
  assumes "\<And>cur new. cost cur new =
    (if new \<le> cur then 0 else MemoryCost ((new + 31) div 32) - MemoryCost ((cur + 31) div 32))"
  shows "memory_cost cost"
proof
  fix cur new :: u64
  show "new \<le> cur \<Longrightarrow> cost cur new = 0" by (simp add: assms)
  assume less: "cur < new" and new: "unat new \<le> 2 ^ 32"
  then have cur: "unat cur \<le> 2 ^ 32" by (simp add: word_less_nat_alt)
  have fees: "unat (MemoryCost ((n + 31) div 32)) = mem_fee (mem_words (unat n))"
    if "unat n \<le> 2 ^ 32" for n
    using MemoryCost_fee [of "(n + 31) div 32"] mem_words_bound [OF that] unat_add_31_div [OF that]
    by simp
  have "mem_fee (mem_words (unat cur)) \<le> mem_fee (mem_words (unat new))"
    using less by (intro mem_fee_mono mem_words_mono) (simp add: word_less_nat_alt)
  then have "MemoryCost ((cur + 31) div 32) \<le> MemoryCost ((new + 31) div 32)"
    by (simp add: word_le_nat_alt fees [OF cur] fees [OF new])
  then show "unat (cost cur new) = mem_fee (mem_words (unat new)) - mem_fee (mem_words (unat cur))"
    using less by (simp add: assms unat_sub fees [OF cur] fees [OF new])
qed

end
