(* ===== verification/Evm_Module.thy ===== *)
theory Evm_Module
  imports Evmc
begin

text \<open>
  The data of a loaded contract: \<open>EVMBytecodeCache\<close> (\<open>src/evm/evm_cache.h\<close>) and the interpreter's
  view of \<open>EVMModule\<close> (\<open>src/runtime/evm_module.h\<close>), and the opcode numbers the sources name. The
  cache is built in \<open>Bytecode_Cache\<close> and the theories it imports.
\<close>

section \<open>Opcode numbers\<close>

abbreviation OP_STOP :: u8 where "OP_STOP \<equiv> 0x00"
abbreviation OP_SSTORE :: u8 where "OP_SSTORE \<equiv> 0x55"
abbreviation OP_JUMP :: u8 where "OP_JUMP \<equiv> 0x56"
abbreviation OP_JUMPI :: u8 where "OP_JUMPI \<equiv> 0x57"
abbreviation OP_GAS :: u8 where "OP_GAS \<equiv> 0x5a"
abbreviation OP_JUMPDEST :: u8 where "OP_JUMPDEST \<equiv> 0x5b"
abbreviation OP_PUSH1 :: u8 where "OP_PUSH1 \<equiv> 0x60"
abbreviation OP_PUSH32 :: u8 where "OP_PUSH32 \<equiv> 0x7f"
abbreviation OP_DUP1 :: u8 where "OP_DUP1 \<equiv> 0x80"
abbreviation OP_DUP16 :: u8 where "OP_DUP16 \<equiv> 0x8f"
abbreviation OP_SWAP1 :: u8 where "OP_SWAP1 \<equiv> 0x90"
abbreviation OP_SWAP16 :: u8 where "OP_SWAP16 \<equiv> 0x9f"
abbreviation OP_LOG0 :: u8 where "OP_LOG0 \<equiv> 0xa0"
abbreviation OP_LOG4 :: u8 where "OP_LOG4 \<equiv> 0xa4"
abbreviation OP_CREATE :: u8 where "OP_CREATE \<equiv> 0xf0"
abbreviation OP_CALL :: u8 where "OP_CALL \<equiv> 0xf1"
abbreviation OP_CALLCODE :: u8 where "OP_CALLCODE \<equiv> 0xf2"
abbreviation OP_RETURN :: u8 where "OP_RETURN \<equiv> 0xf3"
abbreviation OP_DELEGATECALL :: u8 where "OP_DELEGATECALL \<equiv> 0xf4"
abbreviation OP_CREATE2 :: u8 where "OP_CREATE2 \<equiv> 0xf5"
abbreviation OP_STATICCALL :: u8 where "OP_STATICCALL \<equiv> 0xfa"
abbreviation OP_REVERT :: u8 where "OP_REVERT \<equiv> 0xfd"
abbreviation OP_INVALID :: u8 where "OP_INVALID \<equiv> 0xfe"
abbreviation OP_SELFDESTRUCT :: u8 where "OP_SELFDESTRUCT \<equiv> 0xff"

section \<open>Modules and their caches\<close>

text \<open>
  The four vectors are indexed by the program counter. \<open>GasChunkEnd\<close> holds \<open>uint32_t\<close> values,
  kept as natural numbers below \<open>2 ^ 32\<close>.
\<close>

record EVMBytecodeCache =
  JumpDestMap :: "u8 list"
  PushValueMap :: "u256 list"
  GasChunkEnd :: "nat list"
  GasChunkCost :: "u64 list"

text \<open>\<open>Code\<close> with \<open>CodeSize\<close> is one byte list.\<close>

record EVMModule =
  Code :: "u8 list"
  BytecodeCacheInitialized :: bool
  BytecodeCache :: EVMBytecodeCache
  Revision :: evmc_revision

abbreviation CodeSize :: "EVMModule \<Rightarrow> nat" where
  "CodeSize M \<equiv> length (Code M)"

definition empty_cache :: EVMBytecodeCache where
  "empty_cache = \<lparr>JumpDestMap = [], PushValueMap = [], GasChunkEnd = [], GasChunkCost = []\<rparr>"

end
