(* ===== verification/Evm_Instance.thy ===== *)
theory Evm_Instance
  imports Memory_Cost Evm_Module
begin

text \<open>
  \<open>src/runtime/evm_instance.h\<close> and \<open>.cpp\<close>: the \<open>EVMInstance\<close> an execution runs on, with its gas and
  refund counters, the stack of messages, the lazily allocated linear memory shared with compiled
  code, and the reset between calls.

  A pointer to an \<open>evmc_message\<close> is a number, \<open>None\<close> is \<open>nullptr\<close>, and the messages live in an
  explicit store that the operations reading or writing through such a pointer take as an
  argument; dereferencing an address the store does not hold is undefined. The backing buffer of
  \<open>MAX_REQUIRED_MEMORY_SIZE\<close> bytes is a function; a new buffer has indeterminate contents, the
  argument \<open>fresh\<close>. \<open>MemoryBase\<close> is either \<open>nullptr\<close> or \<open>Memory.get()\<close>, so it is a flag.

  \<open>chargeGas\<close> and \<open>addGas\<close> are those of a build without CPU exceptions, which throws where the other
  build raises a trap.
\<close>

section \<open>State\<close>

type_synonym msg_ptr = "nat option"
type_synonym msg_store = "nat \<rightharpoonup> evmc_message"
type_synonym mem_buf = "nat \<Rightarrow> u8"

record ExecutionCache =
  TxContext :: evmc_tx_context
  BlockHashes :: "i64 \<rightharpoonup> bytes32"
  BlobHashes :: "u64 \<rightharpoonup> bytes32"
  CalldataLoads :: "msg_ptr \<times> u64 \<rightharpoonup> bytes32"
  ExtcodeHashes :: "bytes32 list"
  Keccak256Results :: "bytes32 list"
  CreateAddresses :: "bytes32 list"
  TxContextCached :: bool

record EVMInstance =
  Mod :: EVMModule
  Err :: ErrorCode
  Gas :: u64
  InstanceExitCode :: i32
  GasRefund :: i64
  MemoryBase :: bool
  MemorySize :: u64
  InstMemory :: "mem_buf option"
  MemoryStack :: "(mem_buf option \<times> u64) list"
  InstReturnData :: "u8 list"
  InstReturnDataSize :: u64
  InstExeResult :: evmc_result
  CurrentMessage :: msg_ptr
  MessageStack :: "msg_ptr list"
  GasRefundStack :: "u64 list"
  Rev :: evmc_revision
  InstanceExecutionCache :: ExecutionCache
  EVMStack :: "nat \<Rightarrow> u8"
  EVMStackSize :: u64
  JITStackSize :: u64
  JITStackBoundary :: "nat option"
  CustomData :: "nat option"
  VirtualStacks :: "nat list"
  HostArgScratch :: "nat \<Rightarrow> u8"

text \<open>Vectors that grow at the back are lists with the back at the head.\<close>

definition deref :: "msg_store \<Rightarrow> nat \<Rightarrow> evmc_message res" where
  "deref S p = (case S p of None \<Rightarrow> Inl UB | Some m \<Rightarrow> Inr m)"

section \<open>Accessors\<close>

definition setGas :: "u64 \<Rightarrow> EVMInstance \<Rightarrow> EVMInstance" where
  "setGas NewGas I = I\<lparr>Gas := NewGas\<rparr>"

definition addGasRefund :: "i64 \<Rightarrow> EVMInstance \<Rightarrow> EVMInstance" where
  "addGasRefund Amount I = I\<lparr>GasRefund := GasRefund I + Amount\<rparr>"

definition setGasRefund :: "i64 \<Rightarrow> EVMInstance \<Rightarrow> EVMInstance" where
  "setGasRefund Amount I = I\<lparr>GasRefund := Amount\<rparr>"

definition restoreGasRefundSnapshot :: "EVMInstance \<Rightarrow> EVMInstance" where
  "restoreGasRefundSnapshot I =
     (case GasRefundStack I of [] \<Rightarrow> I | g # _ \<Rightarrow> I\<lparr>GasRefund := g\<rparr>)"

definition getParentMessage :: "EVMInstance \<Rightarrow> msg_ptr" where
  "getParentMessage I = (case MessageStack I of _ # p # _ \<Rightarrow> p | _ \<Rightarrow> None)"

definition isStaticMode :: "'h ext \<Rightarrow> msg_store \<Rightarrow> EVMInstance \<Rightarrow> bool res" where
  "isStaticMode E S I = (case CurrentMessage I of None \<Rightarrow> Inr False
     | Some p \<Rightarrow> bindE (deref S p) (\<lambda>m. Inr (m_flags m AND flag_static E \<noteq> 0)))"

definition clear_cache :: "ExecutionCache \<Rightarrow> ExecutionCache" where
  "clear_cache K = K\<lparr>TxContext := empty_tx_context, TxContextCached := False,
     BlockHashes := Map.empty, BlobHashes := Map.empty, CalldataLoads := Map.empty,
     ExtcodeHashes := [], Keccak256Results := [], CreateAddresses := []\<rparr>"

definition clearMessageCache :: "EVMInstance \<Rightarrow> EVMInstance" where
  "clearMessageCache I = I\<lparr>InstanceExecutionCache := clear_cache (InstanceExecutionCache I)\<rparr>"

definition inst_setReturnData :: "u8 list \<Rightarrow> EVMInstance \<Rightarrow> EVMInstance" where
  "inst_setReturnData Data I =
     I\<lparr>InstReturnDataSize := of_nat (length Data), InstReturnData := Data\<rparr>"

text \<open>\<open>clearReturnDataBuffer\<close> empties the vector whether or not it also releases its storage.\<close>

definition clearReturnDataBuffer :: "u8 list \<Rightarrow> u8 list" where
  "clearReturnDataBuffer Buffer = []"

definition inst_clearReturnData :: "EVMInstance \<Rightarrow> EVMInstance" where
  "inst_clearReturnData I =
     I\<lparr>InstReturnData := clearReturnDataBuffer (InstReturnData I), InstReturnDataSize := 0\<rparr>"

section \<open>Creation and reset\<close>

text \<open>\<open>resetForNewCall\<close> clears the caches one by one; \<open>TxContext\<close> and \<open>CreateAddresses\<close> stay.\<close>

definition resetForNewCall :: "evmc_revision \<Rightarrow> EVMInstance \<Rightarrow> EVMInstance" where
  "resetForNewCall NewRev I =
     (let K = InstanceExecutionCache I in
      inst_clearReturnData
        (I\<lparr>Gas := 0, GasRefund := 0, Rev := NewRev, InstanceExitCode := 0, Err := NoError,
          CurrentMessage := None, MessageStack := [], GasRefundStack := [],
          MemoryBase := False, MemorySize := 0, MemoryStack := []\<rparr>)
        \<lparr>InstExeResult := evmc_Result EVMC_SUCCESS 0 0 [],
         InstanceExecutionCache := K\<lparr>BlockHashes := Map.empty, BlobHashes := Map.empty,
           CalldataLoads := Map.empty, ExtcodeHashes := [], Keccak256Results := [],
           TxContextCached := False\<rparr>,
         EVMStackSize := 0\<rparr>)"

definition resetForNewCallModule :: "evmc_revision \<Rightarrow> EVMModule \<Rightarrow> EVMInstance \<Rightarrow> EVMInstance" where
  "resetForNewCallModule NewRev M I = (resetForNewCall NewRev I)\<lparr>Mod := M\<rparr>"

text \<open>The member initialisers; \<open>stack\<close> is the indeterminate content of the array \<open>EVMStack\<close>.\<close>

definition newEVMInstance :: "(nat \<Rightarrow> u8) \<Rightarrow> EVMModule \<Rightarrow> u64 \<Rightarrow> EVMInstance" where
  "newEVMInstance stack M GasLimit = setGas GasLimit
     \<lparr>Mod = M, Err = NoError, Gas = 0, InstanceExitCode = 0, GasRefund = 0,
      MemoryBase = False, MemorySize = 0, InstMemory = None, MemoryStack = [],
      InstReturnData = [], InstReturnDataSize = 0,
      InstExeResult = evmc_Result EVMC_SUCCESS 0 0 [],
      CurrentMessage = None, MessageStack = [], GasRefundStack = [], Rev = DEFAULT_REVISION,
      InstanceExecutionCache = \<lparr>TxContext = empty_tx_context, BlockHashes = Map.empty,
        BlobHashes = Map.empty, CalldataLoads = Map.empty, ExtcodeHashes = [],
        Keccak256Results = [], CreateAddresses = [], TxContextCached = False\<rparr>,
      EVMStack = stack, EVMStackSize = 0, JITStackSize = 0, JITStackBoundary = None, CustomData = None,
      VirtualStacks = [], HostArgScratch = (\<lambda>_. 0)\<rparr>"

section \<open>Messages\<close>

definition initMemoryFrame :: "EVMInstance \<Rightarrow> EVMInstance" where
  "initMemoryFrame I = I\<lparr>MemoryBase := (InstMemory I \<noteq> None), MemorySize := 0\<rparr>"

definition message_gas :: "msg_store \<Rightarrow> msg_ptr \<Rightarrow> u64 res" where
  "message_gas S p = (case p of None \<Rightarrow> Inr 0 | Some a \<Rightarrow> bindE (deref S a) (\<lambda>m. Inr (m_gas m)))"

definition pushMessage :: "msg_store \<Rightarrow> msg_ptr \<Rightarrow> EVMInstance \<Rightarrow> EVMInstance res" where
  "pushMessage S p I =
     (let I1 = (if MessageStack I = [] then I\<lparr>MemoryStack := []\<rparr>
                else I\<lparr>MemoryStack := (InstMemory I, MemorySize I) # MemoryStack I,
                       InstMemory := None\<rparr>);
          I2 = initMemoryFrame I1
      in bindE (message_gas S p) (\<lambda>g. Inr
           (I2\<lparr>MessageStack := p # MessageStack I2, CurrentMessage := p,
               GasRefundStack := GasRefund I2 # GasRefundStack I2, Gas := g\<rparr>)))"

definition popMessage :: "msg_store \<Rightarrow> EVMInstance \<Rightarrow> EVMInstance res" where
  "popMessage S I =
     (let ms = tl (MessageStack I);
          cur = (case ms of [] \<Rightarrow> None | p # _ \<Rightarrow> p);
          I1 = I\<lparr>MessageStack := ms, CurrentMessage := cur, GasRefundStack := tl (GasRefundStack I)\<rparr>;
          I2 = (case MemoryStack I1 of
                  (b, sz) # rest \<Rightarrow> I1\<lparr>InstMemory := b, MemorySize := sz, MemoryStack := rest,
                                     MemoryBase := (b \<noteq> None)\<rparr>
                | [] \<Rightarrow> I1\<lparr>MemoryBase := (InstMemory I1 \<noteq> None), MemorySize := 0\<rparr>)
      in bindE (message_gas S cur) (\<lambda>g. Inr (I2\<lparr>Gas := g\<rparr>)))"

section \<open>Errors\<close>

definition setExecutionError :: "ErrorCode \<Rightarrow> EVMInstance \<Rightarrow> EVMInstance" where
  "setExecutionError NewErr I =
     (let I1 = I\<lparr>Err := NewErr\<rparr>;
          I2 = (if NewErr \<noteq> NoError \<and> NewErr \<noteq> InstanceExit
                then restoreGasRefundSnapshot I1 else I1)
      in if NewErr = GasLimitExceeded then setGas 0 I2 else I2)"

definition exit_instance :: "i32 \<Rightarrow> EVMInstance \<Rightarrow> EVMInstance" where
  "exit_instance ExitCode I =
     setExecutionError InstanceExit (I\<lparr>InstanceExitCode := ExitCode\<rparr>)"

section \<open>Gas and memory\<close>

definition inst_calculateMemoryExpansionCost :: "u64 \<Rightarrow> u64 \<Rightarrow> u64" where
  "inst_calculateMemoryExpansionCost CurrentSize NewSize =
     (if NewSize \<le> CurrentSize then 0
      else let CurrentWords = (CurrentSize + 31) div 32;
               NewWords = (NewSize + 31) div 32
           in MemoryCost NewWords - MemoryCost CurrentWords)"

type_synonym inst_state = "msg_store \<times> EVMInstance"

text \<open>The assertion that there is a current message is checked in debug builds only.\<close>

definition inst_chargeGas :: "u64 \<Rightarrow> inst_state \<Rightarrow> inst_state res" where
  "inst_chargeGas GasCost = (\<lambda>(S, I).
     if Gas I < GasCost then Inl (Throw GasLimitExceeded)
     else let NewGas = Gas I - GasCost in
       case CurrentMessage I of None \<Rightarrow> Inl UB
       | Some p \<Rightarrow> bindE (deref S p) (\<lambda>m. Inr (S(p \<mapsto> m\<lparr>m_gas := NewGas\<rparr>), setGas NewGas I)))"

definition inst_addGas :: "u64 \<Rightarrow> inst_state \<Rightarrow> inst_state res" where
  "inst_addGas GasAmount = (\<lambda>(S, I).
     if Gas I > - 1 - GasAmount then Inl (Throw GasLimitExceeded)
     else let NewGas = Gas I + GasAmount in
       case CurrentMessage I of None \<Rightarrow> Inl UB
       | Some p \<Rightarrow> bindE (deref S p) (\<lambda>m. Inr (S(p \<mapsto> m\<lparr>m_gas := NewGas\<rparr>), setGas NewGas I)))"

definition ensureMemoryBuffer :: "mem_buf \<Rightarrow> EVMInstance \<Rightarrow> EVMInstance" where
  "ensureMemoryBuffer fresh I =
     I\<lparr>InstMemory := Some (case InstMemory I of None \<Rightarrow> fresh | Some b \<Rightarrow> b), MemoryBase := True\<rparr>"

text \<open>\<open>memset(MemoryBase + from, 0, until - from)\<close> on the buffer.\<close>

definition buf_zero :: "mem_buf \<Rightarrow> nat \<Rightarrow> nat \<Rightarrow> mem_buf res" where
  "buf_zero b from until =
     (if until \<le> unat MAX_REQUIRED_MEMORY_SIZE
      then Inr (\<lambda>i. if from \<le> i \<and> i < until then 0 else b i) else Inl UB)"

definition expandMemoryNoGas :: "mem_buf \<Rightarrow> u64 \<Rightarrow> EVMInstance \<Rightarrow> EVMInstance res" where
  "expandMemoryNoGas fresh RequiredSize I =
     (let NewSize = (RequiredSize + 31) div 32 * 32 in
      if NewSize > MemorySize I then
        let I1 = (if \<not> MemoryBase I then ensureMemoryBuffer fresh I else I) in
        case InstMemory I1 of None \<Rightarrow> Inl UB
        | Some b \<Rightarrow> bindE (buf_zero b (unat (MemorySize I1)) (unat NewSize)) (\<lambda>b'.
            Inr (I1\<lparr>InstMemory := Some b', MemorySize := NewSize\<rparr>))
      else Inr I)"

text \<open>The second half of \<open>expandMemory\<close> is \<open>expandMemoryNoGas\<close> word for word.\<close>

definition expandMemory :: "mem_buf \<Rightarrow> u64 \<Rightarrow> inst_state \<Rightarrow> inst_state res" where
  "expandMemory fresh RequiredSize = (\<lambda>(S, I).
     let NewSize = (RequiredSize + 31) div 32 * 32;
         ExpansionCost = inst_calculateMemoryExpansionCost (MemorySize I) NewSize
     in bindE (inst_chargeGas ExpansionCost (S, I)) (\<lambda>(S, I).
          bindE (expandMemoryNoGas fresh RequiredSize I) (\<lambda>I. Inr (S, I))))"

definition calcRequiredMemorySize :: "u64 \<Rightarrow> u64 \<Rightarrow> u64 option" where
  "calcRequiredMemorySize Offset Size =
     (if Offset > - 1 - Size then None else Some (Offset + Size))"

definition expandMemoryChecked ::
  "mem_buf \<Rightarrow> u64 \<Rightarrow> u64 \<Rightarrow> inst_state \<Rightarrow> (bool \<times> inst_state) res" where
  "expandMemoryChecked fresh Offset Size = (\<lambda>(S, I).
     if Size = 0 then Inr (True, (S, I))
     else case calcRequiredMemorySize Offset Size of
       None \<Rightarrow> bindE (inst_chargeGas (Gas I + 1) (S, I)) (\<lambda>st. Inr (False, st))
     | Some RequiredSize \<Rightarrow>
         if RequiredSize > MAX_REQUIRED_MEMORY_SIZE
         then bindE (inst_chargeGas (Gas I + 1) (S, I)) (\<lambda>st. Inr (False, st))
         else bindE (expandMemory fresh RequiredSize (S, I)) (\<lambda>st. Inr (True, st)))"

definition expandMemoryChecked2 ::
  "mem_buf \<Rightarrow> u64 \<Rightarrow> u64 \<Rightarrow> u64 \<Rightarrow> u64 \<Rightarrow> inst_state \<Rightarrow> (bool \<times> inst_state) res" where
  "expandMemoryChecked2 fresh OffsetA SizeA OffsetB SizeB = (\<lambda>(S, I).
     let NeedA = SizeA > 0; NeedB = SizeB > 0 in
     if \<not> NeedA \<and> \<not> NeedB then Inr (True, (S, I))
     else if NeedA \<and> \<not> NeedB then expandMemoryChecked fresh OffsetA SizeA (S, I)
     else if \<not> NeedA \<and> NeedB then expandMemoryChecked fresh OffsetB SizeB (S, I)
     else case (calcRequiredMemorySize OffsetA SizeA, calcRequiredMemorySize OffsetB SizeB) of
       (Some RequiredSizeA, Some RequiredSizeB) \<Rightarrow>
         let RequiredSize = max RequiredSizeA RequiredSizeB in
         if RequiredSize > MAX_REQUIRED_MEMORY_SIZE
         then bindE (inst_chargeGas (Gas I + 1) (S, I)) (\<lambda>st. Inr (False, st))
         else bindE (expandMemory fresh RequiredSize (S, I)) (\<lambda>st. Inr (True, st))
     | _ \<Rightarrow> bindE (inst_chargeGas (Gas I + 1) (S, I)) (\<lambda>st. Inr (False, st)))"

section \<open>The memory the instance shows\<close>

interpretation inst_cost: memory_cost inst_calculateMemoryExpansionCost
  by (rule memory_cost_formula) (simp add: inst_calculateMemoryExpansionCost_def)

text \<open>The bytes compiled code may access: the first \<open>MemorySize\<close> bytes behind \<open>MemoryBase\<close>.\<close>

definition shown :: "mem_buf option \<Rightarrow> u64 \<Rightarrow> u8 list" where
  "shown b sz = (case b of None \<Rightarrow> [] | Some f \<Rightarrow> map f [0..<unat sz])"

definition inst_bytes :: "EVMInstance \<Rightarrow> u8 list" where
  "inst_bytes I = shown (InstMemory I) (MemorySize I)"

definition frame_size_ok :: "mem_buf option \<Rightarrow> u64 \<Rightarrow> bool" where
  "frame_size_ok b sz \<longleftrightarrow> 32 dvd unat sz \<and> unat sz \<le> unat MAX_REQUIRED_MEMORY_SIZE \<and>
     (b = None \<longrightarrow> sz = 0)"

definition inst_ok :: "EVMInstance \<Rightarrow> bool" where
  "inst_ok I \<longleftrightarrow> frame_size_ok (InstMemory I) (MemorySize I) \<and>
     (MemoryBase I \<longrightarrow> InstMemory I \<noteq> None) \<and> (\<not> MemoryBase I \<longrightarrow> MemorySize I = 0) \<and>
     (\<forall>(b, sz) \<in> set (MemoryStack I). frame_size_ok b sz)"

lemma length_inst_bytes: "inst_ok I \<Longrightarrow> length (inst_bytes I) = unat (MemorySize I)"
  by (auto simp: inst_ok_def frame_size_ok_def inst_bytes_def shown_def split: option.splits)

lemma new_instance_ok: "inst_ok (newEVMInstance stk M g)"
  by (simp add: inst_ok_def newEVMInstance_def setGas_def frame_size_ok_def)

lemma reset_ok: "inst_ok (resetForNewCall rv I)"
  by (simp add: inst_ok_def resetForNewCall_def inst_clearReturnData_def frame_size_ok_def Let_def)

lemma MAX_unat [simp]: "unat MAX_REQUIRED_MEMORY_SIZE = 16777216"
  by simp

text \<open>The size after growing to hold \<open>n\<close> bytes.\<close>

definition grown :: "nat \<Rightarrow> nat \<Rightarrow> nat" where
  "grown cur n = max cur (mem_words n * 32)"

lemma mem_words_32: "n \<le> 16777216 \<Longrightarrow> mem_words n * 32 \<le> 16777216"
  by (simp add: mem_words_def)

lemma mem_words_ge: "n \<le> mem_words n * 32"
  by (simp add: mem_words_def)

text \<open>Everything but the current memory.\<close>

definition inst_rest :: "EVMInstance \<Rightarrow> EVMInstance" where
  "inst_rest I = I\<lparr>InstMemory := None, MemoryBase := False, MemorySize := 0\<rparr>"

lemma expandMemoryNoGas_spec:
  assumes ok: "inst_ok I" and n: "unat n \<le> 16777216"
  shows "ensures (expandMemoryNoGas fresh n I) (\<lambda>I'.
     inst_ok I' \<and> unat (MemorySize I') = grown (unat (MemorySize I)) (unat n) \<and>
     inst_bytes I' = inst_bytes I
       @ replicate (grown (unat (MemorySize I)) (unat n) - unat (MemorySize I)) 0 \<and>
     inst_rest I' = inst_rest I)"
proof (cases "(n + 31) div 32 * 32 > MemorySize I")
  case True
  define N where "N = (n + 31) div 32 * 32"
  define I1 where "I1 = (if \<not> MemoryBase I then ensureMemoryBuffer fresh I else I)"
  obtain b where b: "InstMemory I1 = Some b" and sz: "MemorySize I1 = MemorySize I"
    using ok by (cases "MemoryBase I") (auto simp: I1_def inst_ok_def ensureMemoryBuffer_def)
  have N: "unat N = mem_words (unat n) * 32" using n by (simp add: N_def unat_align_32)
  have less: "unat (MemorySize I) < unat N" using True by (simp add: N_def word_less_nat_alt)
  have same: "MemorySize I = 0 \<or> InstMemory I = Some b"
    using ok b by (cases "MemoryBase I") (auto simp: I1_def inst_ok_def)
  have grown: "grown (unat (MemorySize I)) (unat n) = unat N" using less N by (simp add: grown_def)
  have bound: "unat N \<le> 16777216" using n N mem_words_32 by simp
  have eq: "expandMemoryNoGas fresh n I = Inr (I1\<lparr>InstMemory :=
        Some (\<lambda>i. if unat (MemorySize I) \<le> i \<and> i < unat N then 0 else b i), MemorySize := N\<rparr>)"
    using True bound
    by (simp add: expandMemoryNoGas_def Let_def b sz buf_zero_def N_def [symmetric] I1_def [symmetric])
  have base: "MemoryBase I1" by (simp add: I1_def ensureMemoryBuffer_def)
  have list: "[0..<unat N] = [0..<unat (MemorySize I)] @ [unat (MemorySize I)..<unat N]"
    using less upt_add_eq_append [of 0 "unat (MemorySize I)" "unat N - unat (MemorySize I)"] by simp
  define f where "f = (\<lambda>i. if unat (MemorySize I) \<le> i \<and> i < unat N then 0 else b i)"
  have "map f [0..<unat (MemorySize I)] = inst_bytes I"
    using same by (auto simp: f_def inst_bytes_def shown_def split: option.split)
  moreover have "map f [unat (MemorySize I)..<unat N] = replicate (unat N - unat (MemorySize I)) 0"
    by (rule nth_equalityI) (auto simp: f_def)
  ultimately have shown: "shown (Some f) N = inst_bytes I @ replicate (unat N - unat (MemorySize I)) 0"
    by (simp add: shown_def list)
  have I1: "I1 = I\<lparr>InstMemory := Some b, MemoryBase := True\<rparr>"
    using b ok by (cases "MemoryBase I") (auto simp: I1_def ensureMemoryBuffer_def inst_ok_def)
  have "inst_ok (I1\<lparr>InstMemory := Some f, MemorySize := N\<rparr>)"
    using ok base bound N by (simp add: inst_ok_def frame_size_ok_def I1)
  then show ?thesis
    unfolding eq f_def [symmetric] I1
    by (simp add: grown inst_bytes_def [of "_\<lparr>MemorySize := _\<rparr>"] shown inst_rest_def)
next
  case False
  then have "grown (unat (MemorySize I)) (unat n) = unat (MemorySize I)"
    using n by (simp add: grown_def word_less_nat_alt unat_align_32)
  moreover have "expandMemoryNoGas fresh n I = Inr I"
    using False by (simp add: expandMemoryNoGas_def Let_def)
  ultimately show ?thesis using ok by simp
qed

lemma inst_chargeGas_ok:
  assumes "CurrentMessage I = Some p" and "S p = Some m"
  shows "inst_chargeGas c (S, I) =
     (if Gas I < c then Inl (Throw GasLimitExceeded)
      else Inr (S(p \<mapsto> m\<lparr>m_gas := Gas I - c\<rparr>), I\<lparr>Gas := Gas I - c\<rparr>))"
  using assms by (simp add: inst_chargeGas_def Let_def deref_def setGas_def)

lemma inst_bytes_Gas [simp]: "inst_bytes (I\<lparr>Gas := g\<rparr>) = inst_bytes I"
  by (simp add: inst_bytes_def)

lemma inst_ok_Gas [simp]: "inst_ok (I\<lparr>Gas := g\<rparr>) = inst_ok I"
  by (simp add: inst_ok_def)

text \<open>The price of growing the memory of \<open>I\<close> to hold \<open>n\<close> bytes.\<close>

definition growth_cost :: "EVMInstance \<Rightarrow> u64 \<Rightarrow> u64" where
  "growth_cost I n = inst_calculateMemoryExpansionCost (MemorySize I) ((n + 31) div 32 * 32)"

lemma expandMemory_spec:
  assumes ok: "inst_ok I" and n: "unat n \<le> 16777216"
    and msg: "CurrentMessage I = Some p" "S p = Some m"
  shows "if Gas I < growth_cost I n then expandMemory fresh n (S, I) = Inl (Throw GasLimitExceeded)
     else ensures (expandMemory fresh n (S, I)) (\<lambda>(S', I').
       inst_ok I' \<and> unat (MemorySize I') = grown (unat (MemorySize I)) (unat n) \<and>
       inst_bytes I' = inst_bytes I
         @ replicate (grown (unat (MemorySize I)) (unat n) - unat (MemorySize I)) 0 \<and>
       inst_rest I' = inst_rest (I\<lparr>Gas := Gas I - growth_cost I n\<rparr>) \<and>
       S' = S(p \<mapsto> m\<lparr>m_gas := Gas I - growth_cost I n\<rparr>))"
  using expandMemoryNoGas_spec [of "I\<lparr>Gas := Gas I - growth_cost I n\<rparr>" n fresh] ok n
  by (simp add: expandMemory_def Let_def growth_cost_def [symmetric] inst_chargeGas_ok [of I p S m] msg
      ensures_bindE)

lemma inst_rest_gas: "inst_rest I' = inst_rest (I\<lparr>Gas := g\<rparr>) \<Longrightarrow> Gas I' = g"
  by (drule arg_cong [where f = Gas]) (simp add: inst_rest_def)

lemma calcRequiredMemorySize_nat:
  "calcRequiredMemorySize a b =
     (if unat a + unat b < 2 ^ 64 then Some (a + b) else None)"
proof -
  have "unat (- 1 - b) = 2 ^ 64 - 1 - unat b"
    using unat_sub [of b "- 1"] by (simp add: unsigned_minus_1_eq_mask mask_eq_exp_minus_1)
  moreover have "unat b \<le> 18446744073709551615"
    using unat_less_64 [of b] by linarith
  ultimately show ?thesis
    by (auto simp: calcRequiredMemorySize_def word_less_nat_alt)
qed

lemma unat_add_64: "unat a + unat b < 2 ^ 64 \<Longrightarrow> unat (a + b :: u64) = unat a + unat b"
  by (simp add: unat_word_ariths)

section \<open>Balanced use of the message stack\<close>

text \<open>
  What may happen to an instance while a message is current: gas, refund and memory operations,
  stores into the memory shown, and complete sub-calls between a \<open>pushMessage\<close> and the matching
  \<open>popMessage\<close>.
\<close>

definition store_byte :: "nat \<Rightarrow> u8 \<Rightarrow> EVMInstance \<Rightarrow> EVMInstance" where
  "store_byte i v I = I\<lparr>InstMemory := map_option (\<lambda>f. f(i := v)) (InstMemory I)\<rparr>"

inductive runs :: "inst_state \<Rightarrow> inst_state \<Rightarrow> bool" where
  runs_refl: "runs st st"
| runs_charge: "inst_chargeGas c st = Inr st' \<Longrightarrow> runs st' st'' \<Longrightarrow> runs st st''"
| runs_add: "inst_addGas c st = Inr st' \<Longrightarrow> runs st' st'' \<Longrightarrow> runs st st''"
| runs_refund: "runs (S, addGasRefund r I) st'' \<Longrightarrow> runs (S, I) st''"
| runs_expand: "unat n \<le> 16777216 \<Longrightarrow> expandMemory fresh n st = Inr st' \<Longrightarrow> runs st' st'' \<Longrightarrow> runs st st''"
| runs_store: "i < unat (MemorySize I) \<Longrightarrow> runs (S, store_byte i v I) st'' \<Longrightarrow> runs (S, I) st''"
| runs_output: "runs (S, inst_setReturnData d I) st'' \<Longrightarrow> runs (S, I) st''"
| runs_call: "pushMessage S p I = Inr I1 \<Longrightarrow> runs (S, I1) (S2, I2) \<Longrightarrow> popMessage S2 I2 = Inr I3 \<Longrightarrow>
     runs (S2, I3) st'' \<Longrightarrow> runs (S, I) st''"

text \<open>The call stacks and the saved memories of the callers.\<close>

definition saved :: "EVMInstance \<Rightarrow> msg_ptr list \<times> u64 list \<times> (mem_buf option \<times> u64) list \<times> msg_ptr" where
  "saved I = (MessageStack I, GasRefundStack I, MemoryStack I, CurrentMessage I)"

lemma saved_of_rest: "inst_rest I' = inst_rest I \<Longrightarrow> saved I' = saved I"
proof -
  assume "inst_rest I' = inst_rest I"
  then have "saved (inst_rest I') = saved (inst_rest I)" by simp
  then show ?thesis by (simp add: saved_def inst_rest_def)
qed

lemma charge_frame:
  assumes "inst_chargeGas c (S, I) = Inr (S', I')"
  shows "saved I' = saved I" "inst_bytes I' = inst_bytes I" "inst_ok I' = inst_ok I"
  using assms by (auto simp: inst_chargeGas_def Let_def setGas_def saved_def bindE_Inr_iff
      split: if_splits option.splits)

lemma add_frame:
  assumes "inst_addGas c (S, I) = Inr (S', I')"
  shows "saved I' = saved I" "inst_bytes I' = inst_bytes I" "inst_ok I' = inst_ok I"
  using assms by (auto simp: inst_addGas_def Let_def setGas_def saved_def bindE_Inr_iff
      split: if_splits option.splits)

lemma expand_frame:
  assumes "expandMemory fresh n (S, I) = Inr (S', I')" and "inst_ok I" and "unat n \<le> 16777216"
  shows "saved I' = saved I" "inst_ok I'"
proof -
  from assms(1) obtain S1 I1 where c: "inst_chargeGas (growth_cost I n) (S, I) = Inr (S1, I1)"
    and e: "expandMemoryNoGas fresh n I1 = Inr I'"
    by (auto simp: expandMemory_def Let_def bindE_Inr_iff growth_cost_def)
  note f = charge_frame [OF c]
  with expandMemoryNoGas_spec [of I1 n fresh] assms(2,3) e
  show "inst_ok I'" and "saved I' = saved I" by (auto simp: dest: saved_of_rest)
qed

lemma push_frame:
  assumes "pushMessage S p I = Inr I1" and "inst_ok I"
  shows "inst_ok I1"
    and "saved I1 = (p # MessageStack I, GasRefund I # GasRefundStack I,
      (if MessageStack I = [] then [] else (InstMemory I, MemorySize I) # MemoryStack I), p)"
    and "inst_bytes I1 = []"
proof -
  from assms(1) obtain g where "message_gas S p = Inr g"
    by (auto simp: pushMessage_def Let_def bindE_Inr_iff)
  note eq = assms(1) [unfolded pushMessage_def Let_def this bindE.simps sum.inject, symmetric]
  show "inst_ok I1" using assms(2)
    by (simp add: eq initMemoryFrame_def inst_ok_def frame_size_ok_def)
  show "saved I1 = (p # MessageStack I, GasRefund I # GasRefundStack I,
      (if MessageStack I = [] then [] else (InstMemory I, MemorySize I) # MemoryStack I), p)"
    by (simp add: eq initMemoryFrame_def saved_def)
  show "inst_bytes I1 = []"
    by (simp add: eq initMemoryFrame_def inst_bytes_def shown_def split: option.split)
qed

lemma pop_frame:
  assumes "popMessage S I = Inr I1" and "inst_ok I"
  shows "inst_ok I1"
    and "saved I1 = (tl (MessageStack I), tl (GasRefundStack I), tl (MemoryStack I),
      (case tl (MessageStack I) of [] \<Rightarrow> None | q # _ \<Rightarrow> q))"
    and "(InstMemory I1, MemorySize I1) =
      (case MemoryStack I of [] \<Rightarrow> (InstMemory I, 0) | e # _ \<Rightarrow> e)"
proof -
  from assms(1) obtain g
    where "message_gas S (case tl (MessageStack I) of [] \<Rightarrow> None | q # _ \<Rightarrow> q) = Inr g"
    by (auto simp: popMessage_def Let_def bindE_Inr_iff)
  note eq = assms(1) [unfolded popMessage_def Let_def this bindE.simps sum.inject, symmetric]
  show "inst_ok I1" using assms(2)
    by (cases "MemoryStack I") (auto simp: eq inst_ok_def frame_size_ok_def)
  show "saved I1 = (tl (MessageStack I), tl (GasRefundStack I), tl (MemoryStack I),
      (case tl (MessageStack I) of [] \<Rightarrow> None | q # _ \<Rightarrow> q))"
    by (cases "MemoryStack I") (simp_all add: eq saved_def split: prod.split)
  show "(InstMemory I1, MemorySize I1) = (case MemoryStack I of [] \<Rightarrow> (InstMemory I, 0) | e # _ \<Rightarrow> e)"
    by (cases "MemoryStack I") (simp_all add: eq split: prod.split)
qed

definition call_ok :: "EVMInstance \<Rightarrow> bool" where
  "call_ok I \<longleftrightarrow> MessageStack I \<noteq> [] \<and> CurrentMessage I = hd (MessageStack I)"

lemma call_ok_saved: "saved I' = saved I \<Longrightarrow> call_ok I' = call_ok I"
  by (simp add: saved_def call_ok_def)

lemma call_ok_push: "pushMessage S p I = Inr I1 \<Longrightarrow> inst_ok I \<Longrightarrow> call_ok I1"
  using push_frame(2) [of S p I I1] by (simp add: saved_def call_ok_def)

lemma saved_pop_push:
  assumes "saved I2 = (p # MessageStack I, g # GasRefundStack I, e # MemoryStack I, p)"
    and "popMessage S I2 = Inr I3" and "inst_ok I2" and "call_ok I"
  shows "saved I3 = saved I" and "(InstMemory I3, MemorySize I3) = e"
  using pop_frame [OF assms(2,3)] assms(1,4)
  by (auto simp: saved_def call_ok_def split: list.splits)

lemma runs_frame:
  assumes "runs st st'"
  shows "inst_ok (snd st) \<Longrightarrow> call_ok (snd st) \<Longrightarrow>
    saved (snd st') = saved (snd st) \<and> inst_ok (snd st')"
  using assms
proof (induction rule: runs.induct)
  case (runs_charge c st st' st'')
  then show ?case
    using charge_frame [of c "fst st" "snd st" "fst st'" "snd st'"] call_ok_saved [of "snd st'" "snd st"]
    by simp
next
  case (runs_add c st st' st'')
  then show ?case
    using add_frame [of c "fst st" "snd st" "fst st'" "snd st'"] call_ok_saved [of "snd st'" "snd st"]
    by simp
next
  case (runs_refund S r I st'')
  then show ?case by (simp add: addGasRefund_def inst_ok_def call_ok_def saved_def)
next
  case (runs_expand n fresh st st' st'')
  then show ?case
    using expand_frame [of fresh n "fst st" "snd st" "fst st'" "snd st'"]
      call_ok_saved [of "snd st'" "snd st"] by simp
next
  case (runs_store i I S v st'')
  then show ?case by (simp add: store_byte_def inst_ok_def frame_size_ok_def call_ok_def saved_def)
next
  case (runs_output S d I st'')
  then show ?case by (simp add: inst_setReturnData_def inst_ok_def call_ok_def saved_def)
next
  case (runs_call S p I I1 S2 I2 I3 st'')
  from runs_call have I1: "inst_ok I1" "call_ok I1" "saved I2 = saved I1" "inst_ok I2"
    using push_frame [of S p I I1] call_ok_push [of S p I I1] by auto
  with runs_call have "saved I3 = saved I" "inst_ok I3"
    using saved_pop_push [of I2 p I _ "(InstMemory I, MemorySize I)" S2 I3] push_frame(2) [of S p I I1]
      pop_frame(1) [of S2 I2 I3] by (auto simp: call_ok_def)
  with runs_call show ?case using call_ok_saved [of I3 I] by simp
qed simp_all

section \<open>Properties\<close>

text \<open>The price of the Yellow Paper for a memory of \<open>cur\<close> bytes that has to hold \<open>n\<close> bytes.\<close>

definition expansion_price :: "nat \<Rightarrow> nat \<Rightarrow> nat" where
  "expansion_price cur n = mem_fee (mem_words (grown cur n)) - mem_fee (mem_words cur)"

lemma growth_price:
  assumes "unat n \<le> 16777216"
  shows "unat (growth_cost I n) = expansion_price (unat (MemorySize I)) (unat n)"
proof -
  let ?new = "(n + 31) div 32 * 32 :: u64"
  have new: "unat ?new = mem_words (unat n) * 32" using assms by (intro unat_align_32) simp
  show ?thesis
  proof (cases "?new \<le> MemorySize I")
    case True
    then have "grown (unat (MemorySize I)) (unat n) = unat (MemorySize I)" using new by (simp add: grown_def word_le_nat_alt)
    then show ?thesis using inst_cost.cost_none [OF True] by (simp add: growth_cost_def expansion_price_def)
  next
    case False
    then have "grown (unat (MemorySize I)) (unat n) = unat ?new" using new by (simp add: grown_def word_le_nat_alt)
    moreover have "unat ?new \<le> 2 ^ 32" using new mem_words_32 [OF assms] by simp
    ultimately show ?thesis using inst_cost.cost_grow [of "MemorySize I" ?new] False
      by (simp add: growth_cost_def expansion_price_def)
  qed
qed

text \<open>
  C28. Growing the shared memory for an access of \<open>Size\<close> bytes at \<open>Offset\<close>. An empty access changes nothing. Otherwise
  the call throws \<open>GasLimitExceeded\<close> exactly when the range exceeds the 16 MB limit or the price exceeds the gas left;
  if not, the memory is afterwards the old bytes followed by zeros, whatever the recycled buffer held, up to the range
  rounded up to words or the old size if that is larger. The price is the difference of the quadratic fees of the
  Yellow Paper, \<open>w * w div 512 + 3 * w\<close> for \<open>w\<close> words; it is taken from the instance and from the current message
  alike, and nothing else of the instance changes. The gas is assumed not to be the largest 64-bit number.
\<close>

theorem expandMemoryChecked_correct:
  assumes "inst_ok I" and "CurrentMessage I = Some p" and "S p = Some m" and "unat (Gas I) + 1 < 2 ^ 64"
  shows "case expandMemoryChecked fresh Offset Size (S, I) of
      Inl e \<Rightarrow> e = Throw GasLimitExceeded \<and> Size \<noteq> 0 \<and>
        (unat Offset + unat Size > 16777216 \<or>
         unat (Gas I) < expansion_price (length (inst_bytes I)) (unat Offset + unat Size))
    | Inr (ok, S', I') \<Rightarrow> ok \<and> inst_ok I' \<and>
        (if Size = 0 then S' = S \<and> I' = I
         else unat Offset + unat Size \<le> 16777216 \<and>
           inst_bytes I' = inst_bytes I @
             replicate (grown (length (inst_bytes I)) (unat Offset + unat Size) - length (inst_bytes I)) 0 \<and>
           unat (Gas I') + expansion_price (length (inst_bytes I)) (unat Offset + unat Size) = unat (Gas I) \<and>
           inst_rest I' = inst_rest (I\<lparr>Gas := Gas I'\<rparr>) \<and> S' = S(p \<mapsto> m\<lparr>m_gas := Gas I'\<rparr>))"
proof (cases "Size = 0")
  case True
  then show ?thesis using assms(1) by (simp add: expandMemoryChecked_def)
next
  case size: False
  note len = length_inst_bytes [OF assms(1)]
  show ?thesis
  proof (cases "unat Offset + unat Size \<le> 16777216")
    case True
    then have sum: "unat (Offset + Size) = unat Offset + unat Size" by (intro unat_add_64) simp
    have step: "expandMemoryChecked fresh Offset Size (S, I) =
        bindE (expandMemory fresh (Offset + Size) (S, I)) (\<lambda>st. Inr (True, st))"
      using True size sum by (simp add: expandMemoryChecked_def calcRequiredMemorySize_nat word_less_nat_alt)
    have price: "unat (growth_cost I (Offset + Size)) = expansion_price (length (inst_bytes I)) (unat Offset + unat Size)"
      using growth_price [of "Offset + Size" I] True sum len by simp
    have spec: "if Gas I < growth_cost I (Offset + Size) then expandMemory fresh (Offset + Size) (S, I) = Inl (Throw GasLimitExceeded)
      else ensures (expandMemory fresh (Offset + Size) (S, I)) (\<lambda>(S', I').
       inst_ok I' \<and> unat (MemorySize I') = grown (unat (MemorySize I)) (unat (Offset + Size)) \<and>
       inst_bytes I' = inst_bytes I @ replicate (grown (unat (MemorySize I)) (unat (Offset + Size)) - unat (MemorySize I)) 0 \<and>
       inst_rest I' = inst_rest (I\<lparr>Gas := Gas I - growth_cost I (Offset + Size)\<rparr>) \<and>
       S' = S(p \<mapsto> m\<lparr>m_gas := Gas I - growth_cost I (Offset + Size)\<rparr>))"
      by (rule expandMemory_spec [where S = S]) (use assms True sum in simp_all)
    show ?thesis
    proof (cases "Gas I < growth_cost I (Offset + Size)")
      case True
      then show ?thesis using spec size price by (simp add: step word_less_nat_alt)
    next
      case False
      then obtain S' I' where r: "expandMemory fresh (Offset + Size) (S, I) = Inr (S', I')" and ok: "inst_ok I'"
        and bytes: "inst_bytes I' = inst_bytes I @ replicate (grown (unat (MemorySize I)) (unat (Offset + Size)) - unat (MemorySize I)) 0"
        and rest: "inst_rest I' = inst_rest (I\<lparr>Gas := Gas I - growth_cost I (Offset + Size)\<rparr>)"
        and S': "S' = S(p \<mapsto> m\<lparr>m_gas := Gas I - growth_cost I (Offset + Size)\<rparr>)"
        using spec by (auto elim!: ensuresE)
      have gas: "Gas I' = Gas I - growth_cost I (Offset + Size)" by (rule inst_rest_gas [OF rest])
      then have "unat (Gas I') + unat (growth_cost I (Offset + Size)) = unat (Gas I)"
        using False by (simp add: unat_sub not_less word_le_nat_alt)
      then show ?thesis using ok bytes rest S' size True by (simp add: step r gas price len sum)
    qed
  next
    case False
    have "Gas I < Gas I + 1" using assms(4) unat_add_64 [of "Gas I" 1] by (simp add: word_less_nat_alt)
    moreover have "unat Offset + unat Size < 2 ^ 64 \<Longrightarrow> \<not> Offset + Size \<le> MAX_REQUIRED_MEMORY_SIZE"
      using False unat_add_64 [of Offset Size] by (simp add: word_le_nat_alt)
    ultimately show ?thesis using False size
      by (auto simp: expandMemoryChecked_def calcRequiredMemorySize_nat inst_chargeGas_ok [OF assms(2), of S m] assms(3))
  qed
qed

text \<open>An instance in the middle of a call, for the examples.\<close>

definition demo_message :: "i64 \<Rightarrow> evmc_message" where
  "demo_message g = \<lparr>m_kind = EVMC_CALL, m_flags = 0, m_depth = 0, m_gas = g,
     m_recipient = zero_address, m_sender = zero_address, m_input = [], m_value = zero_bytes32,
     m_salt = zero_bytes32, m_code_address = zero_address\<rparr>"

definition demo_module :: "u8 list \<Rightarrow> EVMModule" where
  "demo_module code = \<lparr>Code = code, BytecodeCacheInitialized = False, BytecodeCache = empty_cache,
     Revision = DEFAULT_REVISION\<rparr>"

definition demo_instance :: EVMInstance where
  "demo_instance = (newEVMInstance (\<lambda>_. 0) (demo_module []) 100)
     \<lparr>CurrentMessage := Some 0, MessageStack := [Some 0], GasRefundStack := [0]\<rparr>"

definition demo_store :: msg_store where
  "demo_store = [0 \<mapsto> demo_message 100]"

lemma demo_instance_ok: "inst_ok demo_instance" "call_ok demo_instance"
  by (simp_all add: inst_ok_def call_ok_def demo_instance_def newEVMInstance_def setGas_def
      frame_size_ok_def)

theorem expandMemoryChecked_correct_witness:
  "case expandMemoryChecked (\<lambda>_. 9) 10 32 (demo_store, demo_instance) of
     Inl e \<Rightarrow> False
   | Inr (ok, S', I') \<Rightarrow> inst_bytes I' = replicate 64 0 \<and> Gas I' = 94"
proof -
  have b: "inst_bytes demo_instance = []" "Gas demo_instance = 100" "CurrentMessage demo_instance = Some 0"
    by (simp_all add: inst_bytes_def shown_def demo_instance_def newEVMInstance_def setGas_def)
  have p: "expansion_price 0 42 = 6" "grown 0 42 = 64"
    by (simp_all add: expansion_price_def grown_def mem_words_def mem_fee_def)
  have "unat g + 6 = unat (100 :: u64) \<longleftrightarrow> g = 94" for g :: u64
  proof
    assume "unat g + 6 = unat (100 :: u64)"
    then have "unat g = unat (94 :: u64)" by simp
    then show "g = 94" by (simp only: word_unat_eq_iff)
  qed simp
  then show ?thesis
    using expandMemoryChecked_correct
      [where p = 0 and S = demo_store and m = "demo_message 100" and Size = 32 and fresh = "\<lambda>_. 9"
         and Offset = 10, OF demo_instance_ok(1)] b p
    by (simp add: demo_store_def split: sum.splits prod.splits)
qed

text \<open>
  C24. A sub-call cannot disturb its caller: between \<open>pushMessage\<close> and the matching \<open>popMessage\<close>
  the callee may grow and overwrite its memory, spend gas, set output and make further complete
  sub-calls; afterwards the caller finds its message, its refund snapshots and every byte of its
  memory as before.
\<close>

theorem subcall_restores_caller:
  assumes "inst_ok I" and "call_ok I"
    and "pushMessage S p I = Inr I1" and "runs (S, I1) (S2, I2)" and "popMessage S2 I2 = Inr I3"
  shows "MessageStack I3 = MessageStack I \<and> CurrentMessage I3 = CurrentMessage I \<and>
    GasRefundStack I3 = GasRefundStack I \<and> MemoryStack I3 = MemoryStack I \<and>
    MemorySize I3 = MemorySize I \<and> inst_bytes I3 = inst_bytes I"
proof -
  have "saved I2 = saved I1" "inst_ok I2"
    using runs_frame [OF assms(4)] push_frame(1) [OF assms(3,1)] call_ok_push [OF assms(3,1)] by auto
  then have "saved I3 = saved I" "(InstMemory I3, MemorySize I3) = (InstMemory I, MemorySize I)"
    using saved_pop_push [of I2 p I _ "(InstMemory I, MemorySize I)" S2 I3] assms(2,5)
      push_frame(2) [OF assms(3,1)] by (auto simp: call_ok_def)
  then show ?thesis by (simp add: saved_def inst_bytes_def)
qed

theorem subcall_restores_caller_witness:
  "\<exists>I1 I3. pushMessage demo_store (Some 0) demo_instance = Inr I1 \<and>
     popMessage demo_store (inst_setReturnData [1] I1) = Inr I3 \<and> inst_bytes I3 = inst_bytes demo_instance"
proof -
  obtain I1 where push: "pushMessage demo_store (Some 0) demo_instance = Inr I1"
    by (simp add: pushMessage_def message_gas_def deref_def demo_store_def Let_def)
  obtain I3 where pop: "popMessage demo_store (inst_setReturnData [1] I1) = Inr I3"
    using push_frame(2) [OF push demo_instance_ok(1)]
    by (simp add: popMessage_def message_gas_def deref_def demo_store_def Let_def saved_def
        inst_setReturnData_def demo_instance_def newEVMInstance_def setGas_def)
  have "runs (demo_store, I1) (demo_store, inst_setReturnData [1] I1)"
    by (rule runs_output) (rule runs_refl)
  from subcall_restores_caller [OF demo_instance_ok push this pop] push pop
  show ?thesis by blast
qed

text \<open>
  \<open>resetForNewCall\<close> makes a newly created instance for the module and revision, but for the recycled buffer and stack
  array, the cached transaction context (marked as absent), the list \<open>CreateAddresses\<close>, and the fields of the compiled
  code and of the client.
\<close>

lemma reset_isolates_calls:
  "resetForNewCallModule NewRev M I =
     (newEVMInstance (EVMStack I) M 0)
       \<lparr>Rev := NewRev, InstMemory := InstMemory I,
        InstanceExecutionCache := (InstanceExecutionCache (newEVMInstance (EVMStack I) M 0))
          \<lparr>TxContext := TxContext (InstanceExecutionCache I),
           CreateAddresses := CreateAddresses (InstanceExecutionCache I)\<rparr>,
        JITStackSize := JITStackSize I, JITStackBoundary := JITStackBoundary I, CustomData := CustomData I,
        VirtualStacks := VirtualStacks I, HostArgScratch := HostArgScratch I\<rparr>"
  by (simp add: resetForNewCallModule_def resetForNewCall_def newEVMInstance_def setGas_def
      inst_clearReturnData_def clearReturnDataBuffer_def Let_def)

end
