(* ===== verification/Evm_Frame.thy ===== *)
theory Evm_Frame
  imports Evm_Instance
begin

text \<open>
  \<open>src/evm/interpreter.h\<close>: the interpreter's \<open>EVMFrame\<close> and \<open>InterpreterExecContext\<close>, with the context
  operations of \<open>src/evm/interpreter.cpp\<close> and the thread-local \<open>EVMResource\<close> of
  \<open>src/evm/opcode_handlers.h\<close> through which the opcode handlers find the current frame.

  The stack array is a function on indices; only indices below \<open>MAXSTACK\<close> exist, and the accessors
  give \<open>UB\<close> for the others. Frame pointers are indices into \<open>FrameStack\<close>, message pointers are
  the indices of the frames that hold the messages. The \<open>Host\<close> pointer of a frame is null or the
  host of the runtime; the state of the host is the last field of the context.
\<close>

section \<open>Frames\<close>

record EVMFrame =
  Stack :: "nat \<Rightarrow> u256"
  Memory :: "u8 list"
  CallData :: "u8 list"
  Msg :: evmc_message
  HostSet :: bool
  MTx :: evmc_tx_context
  GasRefundSnapshot :: i64
  Sp :: nat
  Pc :: nat
  FrameValue :: u256

definition frame_push :: "u256 \<Rightarrow> EVMFrame \<Rightarrow> EVMFrame res" where
  "frame_push V F =
     (if Sp F \<ge> MAXSTACK then Inl (Throw EVMStackOverflow)
      else Inr (F\<lparr>Stack := (Stack F)(Sp F := V), Sp := Sp F + 1\<rparr>))"

definition frame_pop :: "EVMFrame \<Rightarrow> (u256 \<times> EVMFrame) res" where
  "frame_pop F =
     (if Sp F \<le> 0 then Inl (Throw EVMStackUnderflow)
      else if Sp F - 1 < MAXSTACK then Inr (Stack F (Sp F - 1), F\<lparr>Sp := Sp F - 1\<rparr>)
      else Inl UB)"

definition frame_peek :: "nat \<Rightarrow> EVMFrame \<Rightarrow> u256 res" where
  "frame_peek Index F =
     (if Index \<ge> Sp F then Inl (Throw EVMStackUnderflow)
      else if Sp F - 1 - Index < MAXSTACK then Inr (Stack F (Sp F - 1 - Index))
      else Inl UB)"

text \<open>
  Reading and writing \<open>Stack[Sp - k]\<close> directly: the index wraps when \<open>k\<close> exceeds \<open>Sp\<close>, which is
  out of range.
\<close>

definition stack_get :: "nat \<Rightarrow> EVMFrame \<Rightarrow> u256 res" where
  "stack_get k F =
     (if k \<le> Sp F \<and> Sp F - k < MAXSTACK then Inr (Stack F (Sp F - k)) else Inl UB)"

definition stack_set :: "nat \<Rightarrow> u256 \<Rightarrow> EVMFrame \<Rightarrow> EVMFrame res" where
  "stack_set k v F =
     (if k \<le> Sp F \<and> Sp F - k < MAXSTACK then Inr (F\<lparr>Stack := (Stack F)(Sp F - k := v)\<rparr>)
      else Inl UB)"

definition getTxContext :: "'h ext \<Rightarrow> 'h \<Rightarrow> EVMFrame \<Rightarrow> (evmc_tx_context \<times> EVMFrame) res" where
  "getTxContext E h F =
     (if block_timestamp (MTx F) = 0
      then (if HostSet F
            then let T = h_get_tx_context E h in Inr (T, F\<lparr>MTx := T\<rparr>)
            else Inl UB)
      else Inr (MTx F, F))"

definition frame_isStaticMode :: "'h ext \<Rightarrow> EVMFrame \<Rightarrow> bool" where
  "frame_isStaticMode E F \<longleftrightarrow> m_flags (Msg F) AND flag_static E \<noteq> 0"

text \<open>The default member initialisers; \<open>intx::uint256\<close> is zero by default.\<close>

definition empty_message :: evmc_message where
  "empty_message = \<lparr>m_kind = EVMC_CALL, m_flags = 0, m_depth = 0, m_gas = 0,
     m_recipient = zero_address, m_sender = zero_address, m_input = [], m_value = zero_bytes32,
     m_salt = zero_bytes32, m_code_address = zero_address\<rparr>"

definition new_frame :: EVMFrame where
  "new_frame = \<lparr>Stack = (\<lambda>_. 0), Memory = [], CallData = [], Msg = empty_message, HostSet = False,
     MTx = empty_tx_context, GasRefundSnapshot = 0, Sp = 0, Pc = 0, FrameValue = 0\<rparr>"

abbreviation gas_of :: "EVMFrame \<Rightarrow> i64" where
  "gas_of F \<equiv> m_gas (Msg F)"

abbreviation set_gas :: "i64 \<Rightarrow> EVMFrame \<Rightarrow> EVMFrame" where
  "set_gas g F \<equiv> F\<lparr>Msg := (Msg F)\<lparr>m_gas := g\<rparr>\<rparr>"

section \<open>Execution contexts\<close>

record 'h InterpreterExecContext =
  Inst :: EVMInstance
  FrameStack :: "EVMFrame list"
  FrameCount :: nat
  Status :: evmc_status_code
  ReturnData :: "u8 list"
  ExeResult :: evmc_result
  IsJump :: bool
  CurrentFrame :: "nat option"
  CurrentMetricsTable :: "evmc_revision option"
  HostState :: 'h

type_synonym 'h ctx = "'h InterpreterExecContext"

definition frame_store :: "EVMFrame list \<Rightarrow> msg_store" where
  "frame_store fs i = (if i < length fs then Some (Msg (fs ! i)) else None)"

definition put_frame :: "nat \<Rightarrow> EVMFrame \<Rightarrow> 'h ctx \<Rightarrow> 'h ctx" where
  "put_frame i F C = C\<lparr>FrameStack := (FrameStack C)[i := F]\<rparr>"

definition getCurFrame :: "'h ctx \<Rightarrow> nat option" where
  "getCurFrame C = (if FrameCount C = 0 then None else Some (FrameCount C - 1))"

definition clearFrameTransientBuffers :: "EVMFrame \<Rightarrow> EVMFrame" where
  "clearFrameTransientBuffers F = F\<lparr>Memory := [], CallData := []\<rparr>"

definition ctx_resetForNewCall :: "EVMInstance \<Rightarrow> 'h ctx \<Rightarrow> 'h ctx" where
  "ctx_resetForNewCall NewInst C =
     C\<lparr>Inst := NewInst, FrameCount := 0,
       FrameStack := map clearFrameTransientBuffers (FrameStack C),
       Status := EVMC_SUCCESS, ReturnData := [], IsJump := False,
       ExeResult := evmc_Result EVMC_SUCCESS 0 0 []\<rparr>"

definition allocTopFrame :: "evmc_message \<Rightarrow> 'h ctx \<Rightarrow> 'h ctx res" where
  "allocTopFrame M C =
     (let Reuse = FrameCount C < length (FrameStack C);
          frames = (if Reuse then FrameStack C else FrameStack C @ [new_frame]);
          i = FrameCount C
      in if i < length frames then
           let F = frames ! i;
               F1 = (if Reuse
                     then (clearFrameTransientBuffers (F\<lparr>Sp := 0, Pc := 0, HostSet := False\<rparr>))
                            \<lparr>MTx := empty_tx_context, FrameValue := 0\<rparr>
                     else F);
               F2 = F1\<lparr>Msg := M\<rparr>;
               frames2 = frames[i := F2]
           in bindE (pushMessage (frame_store frames2) (Some i) (Inst C)) (\<lambda>I.
                Inr (C\<lparr>FrameStack := frames2[i := F2\<lparr>GasRefundSnapshot := GasRefund I\<rparr>],
                       FrameCount := i + 1, Inst := I\<rparr>))
         else Inl UB)"

definition freeBackFrame :: "'h ctx \<Rightarrow> 'h ctx res" where
  "freeBackFrame C =
     (if FrameCount C = 0 then Inr C
      else if FrameCount C - 1 < length (FrameStack C) then
        let F = FrameStack C ! (FrameCount C - 1);
            I = setGas (gas_of F) (Inst C)
        in bindE (if FrameCount C > 1 then popMessage (frame_store (FrameStack C)) I else Inr I) (\<lambda>I.
             Inr (C\<lparr>Inst := I, FrameCount := FrameCount C - 1\<rparr>))
      else Inl UB)"

text \<open>\<open>EVM_FRAME_CHECK(getCurFrame())\<close> followed by an update of the current frame.\<close>

definition update_cur_frame :: "(EVMFrame \<Rightarrow> EVMFrame) \<Rightarrow> 'h ctx \<Rightarrow> 'h ctx res" where
  "update_cur_frame f C =
     (case getCurFrame C of None \<Rightarrow> Inl (Throw EVMFrameNotFound)
      | Some i \<Rightarrow> if i < length (FrameStack C) then Inr (put_frame i (f (FrameStack C ! i)) C)
                 else Inl UB)"

definition setCallData :: "u8 list \<Rightarrow> 'h ctx \<Rightarrow> 'h ctx res" where
  "setCallData Data = update_cur_frame (\<lambda>F. F\<lparr>CallData := Data, Msg := (Msg F)\<lparr>m_input := Data\<rparr>\<rparr>)"

definition setTxContext :: "evmc_tx_context \<Rightarrow> 'h ctx \<Rightarrow> 'h ctx res" where
  "setTxContext T = update_cur_frame (\<lambda>F. F\<lparr>MTx := T\<rparr>)"

definition setResource :: "'h ctx \<Rightarrow> 'h ctx" where
  "setResource C = C\<lparr>CurrentFrame := getCurFrame C, CurrentMetricsTable := Some (Rev (Inst C))\<rparr>"

definition setExecutionContext :: "nat option \<Rightarrow> 'h ctx \<Rightarrow> 'h ctx" where
  "setExecutionContext i C = C\<lparr>CurrentFrame := i\<rparr>"

abbreviation setStatus :: "evmc_status_code \<Rightarrow> 'h ctx \<Rightarrow> 'h ctx" where
  "setStatus s C \<equiv> C\<lparr>Status := s\<rparr>"

abbreviation setReturnData :: "u8 list \<Rightarrow> 'h ctx \<Rightarrow> 'h ctx" where
  "setReturnData d C \<equiv> C\<lparr>ReturnData := d\<rparr>"

definition clearReturnData :: "'h ctx \<Rightarrow> 'h ctx" where
  "clearReturnData C = C\<lparr>ReturnData := clearReturnDataBuffer (ReturnData C)\<rparr>"

text \<open>\<open>currentRevision()\<close>: the context and its instance are never null while a handler runs.\<close>

definition currentRevision :: "'h ctx \<Rightarrow> evmc_revision" where
  "currentRevision C = Rev (Inst C)"

section \<open>Well-formed frames\<close>

definition mem_ok :: "u8 list \<Rightarrow> bool" where
  "mem_ok m \<longleftrightarrow> 32 dvd length m \<and> length m \<le> unat MAX_REQUIRED_MEMORY_SIZE"

text \<open>Gas is an \<open>int64_t\<close> that is never negative.\<close>

definition frame_ok :: "EVMFrame \<Rightarrow> bool" where
  "frame_ok F \<longleftrightarrow> Sp F \<le> MAXSTACK \<and> mem_ok (Memory F) \<and> gas_of F < 2 ^ 63 \<and> HostSet F"

lemma mem_ok_Nil [simp]: "mem_ok []"
  by (simp add: mem_ok_def)

section \<open>Rules for the stack operations\<close>

lemma frame_pop_ok [ensures_simps]:
  "ensures (frame_pop F) Q \<longleftrightarrow>
     0 < Sp F \<and> Sp F \<le> 1024 \<and> Q (Stack F (Sp F - 1), F\<lparr>Sp := Sp F - 1\<rparr>)"
  by (auto simp: frame_pop_def)

lemma frame_push_ok [ensures_simps]:
  "ensures (frame_push v F) Q \<longleftrightarrow>
     Sp F < 1024 \<and> Q (F\<lparr>Stack := (Stack F)(Sp F := v), Sp := Sp F + 1\<rparr>)"
  by (auto simp: frame_push_def)

lemma stack_get_ok [ensures_simps]:
  "ensures (stack_get k F) Q \<longleftrightarrow> k \<le> Sp F \<and> Sp F - k < 1024 \<and> Q (Stack F (Sp F - k))"
  by (auto simp: stack_get_def)

lemma stack_set_ok [ensures_simps]:
  "ensures (stack_set k v F) Q \<longleftrightarrow>
     k \<le> Sp F \<and> Sp F - k < 1024 \<and> Q (F\<lparr>Stack := (Stack F)(Sp F - k := v)\<rparr>)"
  by (auto simp: stack_set_def)

lemma frame_push_pop: "frame_push v F = Inr F' \<Longrightarrow> \<exists>F''. frame_pop F' = Inr (v, F'') \<and> Sp F'' = Sp F"
  by (auto simp: frame_push_def frame_pop_def split: if_splits)

end
