(* ===== verification/Memory_Gas.thy ===== *)
theory Memory_Gas
  imports Evm_Frame
begin

text \<open>
  The utility functions of \<open>src/evm/opcode_handlers.cpp\<close>: gas charging on a frame, memory expansion
  with its price, the word count of copies and the conversion of 256-bit operands. A function that
  returns \<open>false\<close> without touching the frame is \<open>None\<close> here, and \<open>true\<close> is \<open>Some\<close> updated frame.
\<close>

section \<open>Definitions\<close>

definition calculateMemoryExpansionCost :: "u64 \<Rightarrow> u64 \<Rightarrow> u64" where
  "calculateMemoryExpansionCost CurrentSize NewSize =
     (if NewSize \<le> CurrentSize then 0
      else let CurrentWords = (CurrentSize + 31) div 32;
               NewWords = (NewSize + 31) div 32;
               CurrentCost = MemoryCost CurrentWords;
               NewCost = MemoryCost NewWords
           in NewCost - CurrentCost)"

definition chargeGas :: "EVMFrame \<Rightarrow> u64 \<Rightarrow> EVMFrame option" where
  "chargeGas F GasCost =
     (if gas_of F < GasCost then None else Some (set_gas (gas_of F - GasCost) F))"

definition numWords :: "u64 \<Rightarrow> i64" where
  "numWords Size = (Size + (32 - 1)) div 32"

definition copyCodeAndChargeGas :: "EVMFrame \<Rightarrow> u64 \<Rightarrow> EVMFrame option" where
  "copyCodeAndChargeGas F Size = chargeGas F (numWords Size * WORD_COPY_COST)"

text \<open>\<open>Memory.resize(n, 0)\<close>.\<close>

definition resize :: "nat \<Rightarrow> u8 list \<Rightarrow> u8 list" where
  "resize n m = take n m @ replicate (n - length m) 0"

definition expandMemoryAndChargeGas :: "EVMFrame \<Rightarrow> u64 \<Rightarrow> EVMFrame option" where
  "expandMemoryAndChargeGas F RequiredSize =
     (if RequiredSize > MAX_REQUIRED_MEMORY_SIZE then None
      else let CurrentSize = of_nat (length (Memory F));
               RequiredSize = (RequiredSize + 31) div 32 * 32;
               MemoryExpansionCost = calculateMemoryExpansionCost CurrentSize RequiredSize
           in case chargeGas F MemoryExpansionCost of
                None \<Rightarrow> None
              | Some F \<Rightarrow> Some (if RequiredSize > CurrentSize
                                then F\<lparr>Memory := resize (unat RequiredSize) (Memory F)\<rparr> else F))"

definition checkMemoryExpandAndChargeGas64 :: "EVMFrame \<Rightarrow> u256 \<Rightarrow> u64 \<Rightarrow> EVMFrame option" where
  "checkMemoryExpandAndChargeGas64 F Offset Size =
     (if Offset > ucast (- 1 :: u64) then None
      else let Offset64 = ucast Offset :: u64 in
        if Offset64 > - 1 - Size then None
        else expandMemoryAndChargeGas F (Offset64 + Size))"

definition checkMemoryExpandAndChargeGas :: "EVMFrame \<Rightarrow> u256 \<Rightarrow> u256 \<Rightarrow> EVMFrame option" where
  "checkMemoryExpandAndChargeGas F Offset Size =
     (if Size = 0 then Some F
      else if Size > ucast (- 1 :: u64) then None
      else checkMemoryExpandAndChargeGas64 F Offset (ucast Size))"

text \<open>The 64-bit limbs \<open>Value[i]\<close> of a 256-bit value, lowest first.\<close>

definition limb :: "u256 \<Rightarrow> nat \<Rightarrow> u64" where
  "limb V i = ucast (drop_bit (64 * i) V)"

definition uint256ToUint64 :: "u256 \<Rightarrow> u64" where
  "uint256ToUint64 V =
     (if (limb V 3 OR limb V 2 OR limb V 1) \<noteq> 0 then - 1 else limb V 0)"

section \<open>Conversions\<close>

lemma unat_max_64: "unat (- 1 :: u64) = 18446744073709551615"
  by (simp add: unsigned_minus_1_eq_mask mask_eq_exp_minus_1)

lemma unat_le_max_64: "unat (x :: u64) \<le> 18446744073709551615"
  using unat_less_64 [of x] by linarith

lemma unat_ucast_64_256 [simp]: "unat (ucast (x :: u64) :: u256) = unat x"
  by (simp add: unsigned_ucast_eq take_bit_nat_eq_self less_trans [OF unat_less_64])

lemma unat_ucast_256_64: "unat (V :: u256) < 18446744073709551616 \<Longrightarrow> unat (ucast V :: u64) = unat V"
  by (simp add: unsigned_ucast_eq take_bit_nat_eq_self)

lemma u256_le_max_64: "V > ucast (- 1 :: u64) \<longleftrightarrow> \<not> unat (V :: u256) < 18446744073709551616"
  by (simp add: word_less_nat_alt unat_max_64) linarith

lemma unat_drop_bit_256: "unat (drop_bit n (V :: u256)) = unat V div 2 ^ n"
  by (simp only: unsigned_drop_bit_eq) (simp add: drop_bit_eq_div take_bit_nat_eq_self)

lemma limb_zero_bits: "limb V i = 0 \<longleftrightarrow> (\<forall>n < 64. \<not> bit V (64 * i + n))"
  by (auto simp: limb_def bit_eq_iff bit_simps dest: bit_imp_le_length)

lemma limbs_zero_iff:
  "limb V 3 OR limb V 2 OR limb V 1 = 0 \<longleftrightarrow> unat V < 18446744073709551616"
proof
  assume "limb V 3 OR limb V 2 OR limb V 1 = 0"
  then have z: "limb V 3 = 0" "limb V 2 = 0" "limb V 1 = 0" by (simp_all add: or_eq_0_iff)
  have "drop_bit 64 V = 0"
  proof (rule bit_word_eqI)
    fix n :: nat
    assume "n < LENGTH(256)"
    then consider "n < 64" | "64 \<le> n" "n < 128" | "128 \<le> n" "n < 192" | "192 \<le> n" by linarith
    then have "\<not> bit V (64 + n)"
    proof cases
      case 1
      then show ?thesis using z(3) by (simp add: limb_zero_bits)
    next
      case 2
      then show ?thesis using z(2) limb_zero_bits [of V 2] by (auto dest: spec [of _ "n - 64"])
    next
      case 3
      then show ?thesis using z(1) limb_zero_bits [of V 3] by (auto dest: spec [of _ "n - 128"])
    next
      case 4
      then show ?thesis by (auto dest: bit_imp_le_length)
    qed
    then show "bit (drop_bit 64 V) n = bit (0 :: u256) n" by (simp add: bit_simps)
  qed
  then have "unat V div 2 ^ 64 = 0" using unat_drop_bit_256 [of 64 V] by simp
  then show "unat V < 18446744073709551616" by (simp add: div_eq_0_iff)
next
  assume V: "unat V < 18446744073709551616"
  have "drop_bit (64 * i) V = 0" if "0 < i" for i
  proof -
    have "(2 :: nat) ^ 64 \<le> 2 ^ (64 * i)" using that by (intro power_increasing) simp_all
    then have "unat (drop_bit (64 * i) V) = 0" using V by (simp add: unat_drop_bit_256)
    then show ?thesis by (simp add: unat_eq_0)
  qed
  from this [of 1] this [of 2] this [of 3] show "limb V 3 OR limb V 2 OR limb V 1 = 0"
    by (simp add: limb_def)
qed

lemma uint256ToUint64_nat:
  "uint256ToUint64 V = (if unat V < 18446744073709551616 then ucast V else - 1)"
  using limbs_zero_iff [of V] by (simp add: uint256ToUint64_def limb_def)

lemma unat_uint256ToUint64:
  "unat (uint256ToUint64 V) = min (unat V) 18446744073709551615"
  by (auto simp: uint256ToUint64_nat unat_ucast_256_64 unat_max_64)

section \<open>Memory growth\<close>

interpretation frame_cost: memory_cost calculateMemoryExpansionCost
  by (rule memory_cost_formula) (simp add: calculateMemoryExpansionCost_def Let_def)

lemma unat_length_mem: "mem_ok m \<Longrightarrow> unat (of_nat (length m) :: u64) = length m"
  by (intro unat_of_nat_64) (simp add: mem_ok_def)

text \<open>The bytes that are missing from \<open>m\<close> to hold \<open>n\<close> bytes in whole words.\<close>

definition missing :: "u8 list \<Rightarrow> nat \<Rightarrow> nat" where
  "missing m n = mem_words n * 32 - length m"

lemma mem_ok_grow: "mem_ok m \<Longrightarrow> n \<le> 16777216 \<Longrightarrow> mem_ok (m @ replicate (missing m n) 0)"
  by (cases "length m \<le> mem_words n * 32") (auto simp: mem_ok_def missing_def mem_words_32 not_le)

lemma missing_enough: "n \<le> length m + missing m n"
  using mem_words_ge [of n] by (simp add: missing_def)

lemma mem_words_32_multiple [simp]: "mem_words (mem_words n * 32) = mem_words n"
  by (simp add: mem_words_def)

text \<open>The fee that remains to be paid to own \<open>n\<close> bytes when the memory is \<open>m\<close>.\<close>

definition growth_fee :: "u8 list \<Rightarrow> nat \<Rightarrow> nat" where
  "growth_fee m n = mem_fee (mem_words (length m) + missing m n div 32) - mem_fee (mem_words (length m))"

lemma mem_ok_words: "mem_ok m \<Longrightarrow> mem_words (length m) * 32 = length m"
  by (auto simp: mem_ok_def mem_words_def dvd_def)

lemma expansion_cost_nat:
  assumes m: "mem_ok m" and n: "unat n \<le> 16777216"
  shows "unat (calculateMemoryExpansionCost (of_nat (length m)) ((n + 31) div 32 * 32))
       = growth_fee m (unat n)"
proof -
  let ?new = "(n + 31) div 32 * 32 :: u64" and ?cur = "of_nat (length m) :: u64"
  have len: "unat ?cur = length m" using m by (rule unat_length_mem)
  have new: "unat ?new = mem_words (unat n) * 32" using n by (intro unat_align_32) simp
  note words = mem_ok_words [OF m]
  show ?thesis
  proof (cases "?cur < ?new")
    case True
    then have less: "length m < mem_words (unat n) * 32" by (simp add: word_less_nat_alt len new)
    then have "mem_words (length m) + missing m (unat n) div 32 = mem_words (unat n)"
      using words by (simp add: missing_def)
    then show ?thesis
      using frame_cost.cost_grow [OF True] n new len mem_words_32 [of "unat n"]
      by (simp add: growth_fee_def)
  next
    case False
    then have "\<not> length m < mem_words (unat n) * 32" by (simp add: word_less_nat_alt len new)
    then show ?thesis
      using frame_cost.cost_none [of ?new ?cur] False by (simp add: growth_fee_def missing_def)
  qed
qed

text \<open>Expansion succeeds exactly when the size is allowed and the fee can be paid.\<close>

lemma expandMemoryAndChargeGas_nat:
  assumes "mem_ok (Memory F)"
  shows "expandMemoryAndChargeGas F n =
    (if unat n \<le> 16777216 \<and> growth_fee (Memory F) (unat n) \<le> unat (gas_of F)
     then Some ((set_gas (gas_of F - of_nat (growth_fee (Memory F) (unat n))) F)
       \<lparr>Memory := Memory F @ replicate (missing (Memory F) (unat n)) 0\<rparr>)
     else None)"
proof (cases "unat n \<le> 16777216")
  case True
  note cost = expansion_cost_nat [OF assms True]
  have new: "unat ((n + 31) div 32 * 32 :: u64) = mem_words (unat n) * 32"
    using True by (intro unat_align_32) simp
  have cost': "calculateMemoryExpansionCost (of_nat (length (Memory F))) ((n + 31) div 32 * 32)
      = of_nat (growth_fee (Memory F) (unat n))"
    by (simp flip: cost)
  have le: "\<not> gas_of F < calculateMemoryExpansionCost (of_nat (length (Memory F))) ((n + 31) div 32 * 32)
      \<longleftrightarrow> growth_fee (Memory F) (unat n) \<le> unat (gas_of F)"
    by (simp add: word_less_nat_alt cost not_less)
  show ?thesis
    using True le
    by (auto simp: expandMemoryAndChargeGas_def Let_def chargeGas_def word_less_nat_alt [of _ "_ div _ * _"]
        unat_length_mem [OF assms] new resize_def missing_def word_less_nat_alt [of MAX_REQUIRED_MEMORY_SIZE]
        cost' word_less_nat_alt [of "16777216"])
next
  case False
  then show ?thesis by (simp add: expandMemoryAndChargeGas_def word_less_nat_alt)
qed

text \<open>The frame after a paid expansion to \<open>n\<close> bytes.\<close>

definition grow_mem :: "EVMFrame \<Rightarrow> nat \<Rightarrow> EVMFrame" where
  "grow_mem F n = (set_gas (gas_of F - of_nat (growth_fee (Memory F) n)) F)
     \<lparr>Memory := Memory F @ replicate (missing (Memory F) n) 0\<rparr>"

definition can_grow :: "EVMFrame \<Rightarrow> nat \<Rightarrow> bool" where
  "can_grow F n \<longleftrightarrow> n \<le> 16777216 \<and> growth_fee (Memory F) n \<le> unat (gas_of F)"

lemma check64_nat:
  assumes "mem_ok (Memory F)"
  shows "checkMemoryExpandAndChargeGas64 F Offset Size =
    (if can_grow F (unat Offset + unat Size) then Some (grow_mem F (unat Offset + unat Size)) else None)"
proof (cases "unat Offset + unat Size < 18446744073709551616")
  case True
  then have o64: "unat (ucast Offset :: u64) = unat Offset"
    by (intro unat_ucast_256_64) linarith
  have "unat (- 1 - Size) = 18446744073709551615 - unat Size"
    using unat_sub [of Size "- 1"] by (simp add: unat_max_64)
  then have "\<not> (ucast Offset :: u64) > - 1 - Size"
    using True by (simp add: word_less_nat_alt o64)
  moreover have "\<not> Offset > ucast (- 1 :: u64)" using True u256_le_max_64 [of Offset] by simp
  moreover have "unat (ucast Offset + Size :: u64) = unat Offset + unat Size"
    using True unat_add_64 [of "ucast Offset" Size] o64 by simp
  ultimately show ?thesis
    using expandMemoryAndChargeGas_nat [OF assms, of "ucast Offset + Size"]
    by (simp add: checkMemoryExpandAndChargeGas64_def Let_def can_grow_def grow_mem_def)
next
  case False
  then have "\<not> can_grow F (unat Offset + unat Size)" by (simp add: can_grow_def)
  moreover have "(ucast Offset :: u64) > - 1 - Size" if "unat Offset < 18446744073709551616"
    using that False unat_sub [of Size "- 1"] unat_le_max_64 [of Size]
    by (simp add: word_less_nat_alt unat_max_64 unat_ucast_256_64)
  ultimately show ?thesis
    using u256_le_max_64 [of Offset] by (auto simp: checkMemoryExpandAndChargeGas64_def Let_def)
qed

lemma check_nat:
  assumes "mem_ok (Memory F)"
  shows "checkMemoryExpandAndChargeGas F Offset Size =
    (if Size = 0 then Some F
     else if can_grow F (unat Offset + unat Size) then Some (grow_mem F (unat Offset + unat Size))
     else None)"
proof (cases "unat Size < 18446744073709551616")
  case True
  then have "\<not> Size > ucast (- 1 :: u64)" using u256_le_max_64 [of Size] by simp
  then show ?thesis
    using check64_nat [OF assms, of Offset "ucast Size"] True
    by (simp add: checkMemoryExpandAndChargeGas_def unat_ucast_256_64)
next
  case False
  then have "Size > ucast (- 1 :: u64)" using u256_le_max_64 [of Size] by simp
  moreover have "\<not> can_grow F (unat Offset + unat Size)" using False by (simp add: can_grow_def)
  ultimately show ?thesis by (simp add: checkMemoryExpandAndChargeGas_def)
qed

lemma grow_mem_simps [simp, frame_simps]:
  "Stack (grow_mem F n) = Stack F" "Sp (grow_mem F n) = Sp F" "Pc (grow_mem F n) = Pc F"
  "HostSet (grow_mem F n) = HostSet F" "MTx (grow_mem F n) = MTx F"
  "CallData (grow_mem F n) = CallData F" "GasRefundSnapshot (grow_mem F n) = GasRefundSnapshot F"
  "(Msg (grow_mem F n))\<lparr>m_gas := g\<rparr> = (Msg F)\<lparr>m_gas := g\<rparr>"
  "m_recipient (Msg (grow_mem F n)) = m_recipient (Msg F)"
  "m_sender (Msg (grow_mem F n)) = m_sender (Msg F)"
  "m_input (Msg (grow_mem F n)) = m_input (Msg F)" "m_value (Msg (grow_mem F n)) = m_value (Msg F)"
  "m_depth (Msg (grow_mem F n)) = m_depth (Msg F)" "m_flags (Msg (grow_mem F n)) = m_flags (Msg F)"
  by (simp_all add: grow_mem_def)

lemma mem_ok_grow_mem [simp]: "mem_ok (Memory F) \<Longrightarrow> can_grow F n \<Longrightarrow> mem_ok (Memory (grow_mem F n))"
  by (simp add: grow_mem_def can_grow_def mem_ok_grow)

lemma length_grow_mem [simp]: "a \<le> n \<Longrightarrow> a \<le> length (Memory (grow_mem F n))"
  using missing_enough [of n "Memory F"] by (simp add: grow_mem_def)

lemma length_grow_mem_old [simp]: "a \<le> length (Memory F) \<Longrightarrow> a \<le> length (Memory (grow_mem F n))"
  by (simp add: grow_mem_def)

lemma gas_sub_le [simp]: "(c :: u64) \<le> x \<Longrightarrow> x \<le> g \<Longrightarrow> x - c \<le> g"
  by (simp add: word_le_nat_alt unat_sub)

lemma unat_of_nat_le: "unat (of_nat k :: u64) \<le> k"
  by (simp only: unat_of_nat mod_less_eq_dividend)

lemma gas_grow_mem [simp]: "can_grow F n \<Longrightarrow> gas_of F \<le> g \<Longrightarrow> gas_of (grow_mem F n) \<le> g"
proof -
  assume "can_grow F n" and le: "gas_of F \<le> g"
  then have "unat (of_nat (growth_fee (Memory F) n) :: u64) \<le> unat (gas_of F)"
    using unat_of_nat_le [of "growth_fee (Memory F) n"] by (simp add: can_grow_def)
  then show ?thesis using le by (simp add: grow_mem_def word_le_nat_alt [symmetric])
qed

lemma gas_grow_mem_nat:
  assumes "can_grow F n"
  shows "unat (gas_of (grow_mem F n)) = unat (gas_of F) - growth_fee (Memory F) n"
proof -
  have "growth_fee (Memory F) n \<le> unat (gas_of F)" using assms by (simp add: can_grow_def)
  then have "unat (of_nat (growth_fee (Memory F) n) :: u64) = growth_fee (Memory F) n"
    by (intro unat_of_nat_64) (rule le_less_trans [OF _ unat_less_64])
  then show ?thesis using assms by (simp add: grow_mem_def can_grow_def unat_sub word_le_nat_alt)
qed

section \<open>Properties\<close>

lemma growth_fee_max:
  assumes "mem_ok m"
  shows "growth_fee m n = mem_fee (max (mem_words (length m)) (mem_words n)) - mem_fee (mem_words (length m))"
proof -
  obtain k where k: "length m = 32 * k" using assms by (auto simp: mem_ok_def dvd_def)
  have "mem_words (32 * k) = k" by (simp add: mem_words_def)
  then have "mem_words (length m) + missing m n div 32 = max (mem_words (length m)) (mem_words n)"
    using div_mult_self1_is_m [of 32 "mem_words n - k"]
    by (auto simp: missing_def k max_def mult.commute simp flip: diff_mult_distrib2)
  then show ?thesis by (simp add: growth_fee_def)
qed

lemma length_grown:
  assumes "mem_ok m"
  shows "mem_words (length m + missing m n) = max (mem_words (length m)) (mem_words n)"
proof (cases "mem_words (length m) \<le> mem_words n")
  case True
  then have "length m + missing m n = mem_words n * 32"
    using mem_ok_words [OF assms] mult_le_mono1 [OF True, of 32] by (simp add: missing_def)
  then show ?thesis using True by (simp add: max_def)
next
  case False
  then have "missing m n = 0"
    using mem_ok_words [OF assms] mult_le_mono1 [of "mem_words n" "mem_words (length m)" 32]
    by (simp add: missing_def)
  then show ?thesis using False by (simp add: max_def)
qed

text \<open>
  C39. Expanding memory step by step costs the same as expanding it at once: if an access to
  \<open>[O1, O1 + S1)\<close> and then one to the larger end \<open>O2 + S2\<close> are both paid for, the second access
  alone from the initial frame gives the very same memory and the very same remaining gas.
\<close>

theorem memory_expansion_path_independent:
  assumes ok: "mem_ok (Memory F)" and sizes: "S1 \<noteq> 0" "S2 \<noteq> 0"
    and first: "checkMemoryExpandAndChargeGas F O1 S1 = Some F1"
    and second: "checkMemoryExpandAndChargeGas F1 O2 S2 = Some F2"
    and grows: "unat O1 + unat S1 \<le> unat O2 + unat S2"
  shows "checkMemoryExpandAndChargeGas F O2 S2 = Some F2"
proof -
  let ?n1 = "unat O1 + unat S1" and ?n2 = "unat O2 + unat S2"
  let ?w = "mem_words (length (Memory F))"
  from first sizes have c1: "can_grow F ?n1" and F1: "F1 = grow_mem F ?n1"
    by (auto simp: check_nat [OF ok] split: if_splits)
  have ok1: "mem_ok (Memory F1)" using ok c1 by (simp add: F1)
  from second sizes have c2: "can_grow F1 ?n2" and F2: "F2 = grow_mem F1 ?n2"
    by (auto simp: check_nat [OF ok1] split: if_splits)
  have words: "mem_words ?n1 \<le> mem_words ?n2" using grows by (rule mem_words_mono)
  have w1: "mem_words (length (Memory F1)) = max ?w (mem_words ?n1)"
    by (simp add: F1 grow_mem_def length_grown [OF ok])
  have max: "max (max ?w (mem_words ?n1)) (mem_words ?n2) = max ?w (mem_words ?n2)"
    using words by (simp add: max_def)
  have "mem_fee ?w \<le> mem_fee (max ?w (mem_words ?n1))"
    "mem_fee (max ?w (mem_words ?n1)) \<le> mem_fee (max ?w (mem_words ?n2))"
    using words by (auto intro!: mem_fee_mono)
  then have fee: "growth_fee (Memory F) ?n2 = growth_fee (Memory F) ?n1 + growth_fee (Memory F1) ?n2"
    by (simp add: growth_fee_max [OF ok] growth_fee_max [OF ok1] w1 max)
  have gas1: "unat (gas_of F1) = unat (gas_of F) - growth_fee (Memory F) ?n1"
    using c1 by (simp add: F1 gas_grow_mem_nat)
  have can: "can_grow F ?n2" using c1 c2 fee gas1 unfolding can_grow_def by linarith
  have "missing (Memory F) ?n2 = missing (Memory F) ?n1 + missing (Memory F1) ?n2"
    using mult_le_mono1 [OF words, of 32] by (simp add: F1 grow_mem_def missing_def)
  then have "grow_mem F ?n2 = F2"
    by (simp add: F2 F1 grow_mem_def fee [unfolded F1 grow_mem_def] replicate_add)
  then show ?thesis using can sizes by (simp add: check_nat [OF ok])
qed

text \<open>A frame with some gas, for the examples.\<close>

definition demo_frame :: "i64 \<Rightarrow> EVMFrame" where
  "demo_frame g = new_frame\<lparr>Msg := demo_message g, HostSet := True\<rparr>"

lemma demo_frame_ok: "g < 2 ^ 63 \<Longrightarrow> frame_ok (demo_frame g)"
  by (simp add: frame_ok_def demo_frame_def new_frame_def demo_message_def)

theorem memory_expansion_path_independent_witness:
  "checkMemoryExpandAndChargeGas (demo_frame 100) 32 32
     = Some (grow_mem (grow_mem (demo_frame 100) 32) 64)"
proof -
  have F: "mem_ok (Memory (demo_frame 100))" "Memory (demo_frame 100) = []" "gas_of (demo_frame 100) = 100"
    by (simp_all add: demo_frame_def new_frame_def demo_message_def)
  have "can_grow (demo_frame 100) 32"
    by (simp add: can_grow_def F growth_fee_def missing_def mem_words_def mem_fee_def)
  moreover have "can_grow (grow_mem (demo_frame 100) 32) 64"
    by (simp add: can_grow_def grow_mem_def F growth_fee_def missing_def mem_words_def mem_fee_def)
  ultimately show ?thesis
    using memory_expansion_path_independent [of "demo_frame 100" 32 32 0 "grow_mem (demo_frame 100) 32" 32
        "grow_mem (grow_mem (demo_frame 100) 32) 64"] F(1)
    by (simp add: check_nat)
qed

end
