(* ===== verification/Handlers_Base.thy ===== *)
theory Handlers_Base
  imports Memory_Gas
begin

text \<open>
  The frame work of the opcode handlers (\<open>src/evm/opcode_handlers.h\<close>): the check macros, the
  \<open>execute\<close> of \<open>EVMOpcodeHandlerBase\<close> that charges the table price before \<open>doExecute\<close>, and the
  contract every handler is shown to satisfy.

  A handler works on the frame that \<open>EVMResource::CurrentFrame\<close> points to and on the context. It
  is a function of the two that returns both updated; \<open>run_handler\<close> fetches the frame and writes it
  back. No handler of this form touches \<open>FrameStack\<close> otherwise. A macro that sets the status and
  returns takes the rest of the handler as its continuation.
\<close>

section \<open>Check macros\<close>

type_synonym 'h hdl = "EVMFrame \<Rightarrow> 'h ctx \<Rightarrow> (EVMFrame \<times> 'h ctx) res"

definition EVM_SET_EXCEPTION_UNLESS ::
  "bool \<Rightarrow> evmc_status_code \<Rightarrow> EVMFrame \<Rightarrow> 'h ctx \<Rightarrow> (EVMFrame \<times> 'h ctx) res \<Rightarrow> (EVMFrame \<times> 'h ctx) res" where
  "EVM_SET_EXCEPTION_UNLESS b errorStatus F C k = (if \<not> b then Inr (F, setStatus errorStatus C) else k)"

definition EVM_STACK_CHECK ::
  "EVMFrame \<Rightarrow> 'h ctx \<Rightarrow> nat \<Rightarrow> (EVMFrame \<times> 'h ctx) res \<Rightarrow> (EVMFrame \<times> 'h ctx) res" where
  "EVM_STACK_CHECK F C N k = (if Sp F < N then Inr (F, setStatus EVMC_STACK_UNDERFLOW C) else k)"

definition EVM_REQUIRE_STACK_SPACE ::
  "EVMFrame \<Rightarrow> 'h ctx \<Rightarrow> nat \<Rightarrow> (EVMFrame \<times> 'h ctx) res \<Rightarrow> (EVMFrame \<times> 'h ctx) res" where
  "EVM_REQUIRE_STACK_SPACE F C n k =
     (if Sp F + n > 1024 then Inr (F, setStatus EVMC_STACK_OVERFLOW C) else k)"

text \<open>\<open>if (!chargeGas(Frame, GasCost)) { setStatus(EVMC_OUT_OF_GAS); return; }\<close> and the same for a
  memory expansion and for the price of a copy.\<close>

definition charge_or_oog ::
  "EVMFrame \<Rightarrow> 'h ctx \<Rightarrow> u64 \<Rightarrow> (EVMFrame \<Rightarrow> (EVMFrame \<times> 'h ctx) res) \<Rightarrow> (EVMFrame \<times> 'h ctx) res" where
  "charge_or_oog F C GasCost k =
     (case chargeGas F GasCost of
        None \<Rightarrow> Inr (F, setStatus EVMC_OUT_OF_GAS C) | Some F \<Rightarrow> k F)"

definition copy_or_oog ::
  "EVMFrame \<Rightarrow> 'h ctx \<Rightarrow> u64 \<Rightarrow> (EVMFrame \<Rightarrow> (EVMFrame \<times> 'h ctx) res) \<Rightarrow> (EVMFrame \<times> 'h ctx) res" where
  "copy_or_oog F C Size k =
     (case copyCodeAndChargeGas F Size of
        None \<Rightarrow> Inr (F, setStatus EVMC_OUT_OF_GAS C) | Some F \<Rightarrow> k F)"

definition memory_or_oog ::
  "EVMFrame \<Rightarrow> 'h ctx \<Rightarrow> u256 \<Rightarrow> u256 \<Rightarrow> (EVMFrame \<Rightarrow> (EVMFrame \<times> 'h ctx) res) \<Rightarrow> (EVMFrame \<times> 'h ctx) res" where
  "memory_or_oog F C Offset Size k =
     (case checkMemoryExpandAndChargeGas F Offset Size of
        None \<Rightarrow> Inr (F, setStatus EVMC_OUT_OF_GAS C) | Some F \<Rightarrow> k F)"

definition memory64_or_oog ::
  "EVMFrame \<Rightarrow> 'h ctx \<Rightarrow> u256 \<Rightarrow> u64 \<Rightarrow> (EVMFrame \<Rightarrow> (EVMFrame \<times> 'h ctx) res) \<Rightarrow> (EVMFrame \<times> 'h ctx) res" where
  "memory64_or_oog F C Offset Size k =
     (case checkMemoryExpandAndChargeGas64 F Offset Size of
        None \<Rightarrow> Inr (F, setStatus EVMC_OUT_OF_GAS C) | Some F \<Rightarrow> k F)"

text \<open>A call through \<open>Frame->Host\<close>.\<close>

definition via_host :: "EVMFrame \<Rightarrow> 'a res \<Rightarrow> 'a res" where
  "via_host F k = (if HostSet F then k else Inl UB)"

section \<open>Running a handler\<close>

text \<open>
  A null frame pointer is an \<open>EVMFrameNotFound\<close> exception in the handlers that check it and
  undefined in the others.
\<close>

definition run_handler :: "cpp_error \<Rightarrow> 'h hdl \<Rightarrow> 'h ctx \<Rightarrow> 'h ctx res" where
  "run_handler null h C =
     (case CurrentFrame C of
        None \<Rightarrow> Inl null
      | Some i \<Rightarrow>
          if i < length (FrameStack C)
          then bindE (h (FrameStack C ! i) C) (\<lambda>(F, C). Inr (put_frame i F C))
          else Inl UB)"

text \<open>\<open>EVMOpcodeHandlerBase::execute\<close> of the handler for \<open>op\<close>.\<close>

definition handler_execute :: "'h ext \<Rightarrow> u8 \<Rightarrow> 'h hdl \<Rightarrow> 'h hdl" where
  "handler_execute E op doExecute F C =
     (case CurrentMetricsTable C of None \<Rightarrow> Inl UB
      | Some rv \<Rightarrow> charge_or_oog F C (gas_cost E rv op) (\<lambda>F. doExecute F C))"

section \<open>Rules\<close>

lemma EVM_SET_EXCEPTION_UNLESS_ok [ensures_simps]:
  "ensures (EVM_SET_EXCEPTION_UNLESS b s F C k) Q \<longleftrightarrow>
     (\<not> b \<longrightarrow> Q (F, setStatus s C)) \<and> (b \<longrightarrow> ensures k Q)"
  by (simp add: EVM_SET_EXCEPTION_UNLESS_def)

lemma EVM_STACK_CHECK_ok [ensures_simps]:
  "ensures (EVM_STACK_CHECK F C N k) Q \<longleftrightarrow>
     (Sp F < N \<longrightarrow> Q (F, setStatus EVMC_STACK_UNDERFLOW C)) \<and> (N \<le> Sp F \<longrightarrow> ensures k Q)"
  by (auto simp: EVM_STACK_CHECK_def)

lemma EVM_REQUIRE_STACK_SPACE_ok [ensures_simps]:
  "ensures (EVM_REQUIRE_STACK_SPACE F C n k) Q \<longleftrightarrow>
     (Sp F + n > 1024 \<longrightarrow> Q (F, setStatus EVMC_STACK_OVERFLOW C)) \<and>
     (Sp F + n \<le> 1024 \<longrightarrow> ensures k Q)"
  by (auto simp: EVM_REQUIRE_STACK_SPACE_def)

lemma charge_or_oog_ok [ensures_simps]:
  "ensures (charge_or_oog F C c k) Q \<longleftrightarrow>
     (\<not> c \<le> gas_of F \<longrightarrow> Q (F, setStatus EVMC_OUT_OF_GAS C)) \<and>
     (c \<le> gas_of F \<longrightarrow> ensures (k (set_gas (gas_of F - c) F)) Q)"
  by (auto simp: charge_or_oog_def chargeGas_def)

lemma copy_or_oog_ok [ensures_simps]:
  "ensures (copy_or_oog F C n k) Q \<longleftrightarrow>
     (\<not> numWords n * 3 \<le> gas_of F \<longrightarrow> Q (F, setStatus EVMC_OUT_OF_GAS C)) \<and>
     (numWords n * 3 \<le> gas_of F \<longrightarrow> ensures (k (set_gas (gas_of F - numWords n * 3) F)) Q)"
  by (auto simp: copy_or_oog_def copyCodeAndChargeGas_def chargeGas_def)

lemma memory_or_oog_ok [ensures_simps]:
  "mem_ok (Memory F) \<Longrightarrow> ensures (memory_or_oog F C a n k) Q \<longleftrightarrow>
     (n = 0 \<longrightarrow> ensures (k F) Q) \<and>
     (n \<noteq> 0 \<longrightarrow> (\<not> can_grow F (unat a + unat n) \<longrightarrow> Q (F, setStatus EVMC_OUT_OF_GAS C)) \<and>
        (can_grow F (unat a + unat n) \<longrightarrow> ensures (k (grow_mem F (unat a + unat n))) Q))"
  by (auto simp: memory_or_oog_def check_nat)

lemma memory64_or_oog_ok [ensures_simps]:
  "mem_ok (Memory F) \<Longrightarrow> ensures (memory64_or_oog F C a n k) Q \<longleftrightarrow>
     (\<not> can_grow F (unat a + unat n) \<longrightarrow> Q (F, setStatus EVMC_OUT_OF_GAS C)) \<and>
     (can_grow F (unat a + unat n) \<longrightarrow> ensures (k (grow_mem F (unat a + unat n))) Q)"
  by (auto simp: memory64_or_oog_def check64_nat)

lemma via_host_ok [ensures_simps]: "ensures (via_host F k) Q \<longleftrightarrow> HostSet F \<and> ensures k Q"
  by (simp add: via_host_def)

lemma getTxContext_ok [ensures_simps]:
  "HostSet F \<Longrightarrow> ensures (getTxContext E h F) Q \<longleftrightarrow>
     (block_timestamp (MTx F) = 0 \<longrightarrow> Q (h_get_tx_context E h, F\<lparr>MTx := h_get_tx_context E h\<rparr>)) \<and>
     (block_timestamp (MTx F) \<noteq> 0 \<longrightarrow> Q (MTx F, F))"
  by (simp add: getTxContext_def Let_def)

section \<open>The handler contract\<close>

text \<open>
  What no handler changes of the frame: the program counter, the refund snapshot, the call data and
  the message apart from its gas. The frame stays well formed, its gas does not grow and its memory
  does not shrink.
\<close>

definition frame_step :: "EVMFrame \<Rightarrow> EVMFrame \<Rightarrow> bool" where
  "frame_step F F' \<longleftrightarrow> Sp F' \<le> 1024 \<and> mem_ok (Memory F') \<and> HostSet F' \<and> gas_of F' \<le> gas_of F \<and>
     Pc F' = Pc F \<and> GasRefundSnapshot F' = GasRefundSnapshot F \<and> CallData F' = CallData F \<and>
     (Msg F')\<lparr>m_gas := 0\<rparr> = (Msg F)\<lparr>m_gas := 0\<rparr> \<and> length (Memory F) \<le> length (Memory F')"

text \<open>What no handler of this form changes of the context: the frames, the resource pointers, and the
  instance apart from its refund counter. The status \<open>EVMC_REVERT\<close> is left to \<open>REVERT\<close>.\<close>

definition ctx_step :: "'h ctx \<Rightarrow> 'h ctx \<Rightarrow> bool" where
  "ctx_step C C' \<longleftrightarrow> FrameStack C' = FrameStack C \<and> FrameCount C' = FrameCount C \<and>
     CurrentFrame C' = CurrentFrame C \<and> CurrentMetricsTable C' = CurrentMetricsTable C \<and>
     (length (ReturnData C) < 2 ^ 64 \<longrightarrow> length (ReturnData C') < 2 ^ 64) \<and>
     (Status C \<noteq> EVMC_REVERT \<longrightarrow> Status C' \<noteq> EVMC_REVERT) \<and>
     (Inst C')\<lparr>GasRefund := 0\<rparr> = (Inst C)\<lparr>GasRefund := 0\<rparr>"

text \<open>The resource pointers are those that \<open>setResource\<close> would set, and the size of the return
  data is a \<open>size_t\<close>.\<close>

definition res_ok :: "'h ctx \<Rightarrow> bool" where
  "res_ok C \<longleftrightarrow> CurrentFrame C = getCurFrame C \<and> CurrentMetricsTable C = Some (Rev (Inst C)) \<and>
     length (ReturnData C) < 2 ^ 64"

definition handler_ok :: "'h hdl \<Rightarrow> bool" where
  "handler_ok h \<longleftrightarrow> (\<forall>F C. frame_ok F \<longrightarrow> res_ok C \<longrightarrow>
     ensures (h F C) (\<lambda>(F', C'). frame_step F F' \<and> ctx_step C C'))"

lemmas step_defs = frame_step_def ctx_step_def Let_def

lemma handler_okI:
  "(\<And>F C. Sp F \<le> 1024 \<Longrightarrow> mem_ok (Memory F) \<Longrightarrow> HostSet F \<Longrightarrow> gas_of F < 2 ^ 63 \<Longrightarrow> res_ok C \<Longrightarrow>
      ensures (h F C) (\<lambda>(F', C'). frame_step F F' \<and> ctx_step C C')) \<Longrightarrow> handler_ok h"
  by (auto simp: handler_ok_def frame_ok_def)

lemma handler_okD:
  "handler_ok h \<Longrightarrow> frame_ok F \<Longrightarrow> res_ok C \<Longrightarrow>
     ensures (h F C) (\<lambda>(F', C'). frame_step F F' \<and> ctx_step C C')"
  by (simp add: handler_ok_def)

lemma frame_step_refl: "frame_ok F \<Longrightarrow> frame_step F F"
  by (simp add: frame_step_def frame_ok_def)

lemma frame_step_trans: "frame_step F G \<Longrightarrow> frame_step G H \<Longrightarrow> frame_step F H"
  by (auto simp: frame_step_def)

lemma frame_step_ok: "frame_step F G \<Longrightarrow> frame_ok F \<Longrightarrow> frame_ok G"
  by (auto simp: frame_step_def frame_ok_def)

lemma ctx_step_refl [simp]: "ctx_step C C"
  by (simp add: ctx_step_def)

lemma ctx_step_trans: "ctx_step C D \<Longrightarrow> ctx_step D E \<Longrightarrow> ctx_step C E"
  by (simp add: ctx_step_def)

lemma inst_refund_same:
  "I'\<lparr>GasRefund := 0\<rparr> = I\<lparr>GasRefund := 0\<rparr> \<Longrightarrow>
     Mod I' = Mod I \<and> Rev I' = Rev I \<and> saved I' = saved I \<and> Gas I' = Gas I"
proof -
  assume eq: "I'\<lparr>GasRefund := 0\<rparr> = I\<lparr>GasRefund := 0\<rparr>"
  have "Mod (I'\<lparr>GasRefund := 0\<rparr>) = Mod (I\<lparr>GasRefund := 0\<rparr>) \<and>
      Rev (I'\<lparr>GasRefund := 0\<rparr>) = Rev (I\<lparr>GasRefund := 0\<rparr>) \<and>
      saved (I'\<lparr>GasRefund := 0\<rparr>) = saved (I\<lparr>GasRefund := 0\<rparr>) \<and>
      Gas (I'\<lparr>GasRefund := 0\<rparr>) = Gas (I\<lparr>GasRefund := 0\<rparr>)"
    by (simp only: eq)
  then show ?thesis by (simp add: saved_def)
qed

lemma ctx_step_res_ok: "ctx_step C D \<Longrightarrow> res_ok C \<Longrightarrow> res_ok D"
  by (auto simp: ctx_step_def res_ok_def getCurFrame_def dest: inst_refund_same)

lemma handler_execute_ok: "handler_ok h \<Longrightarrow> handler_ok (handler_execute E op h)"
proof (rule handler_okI)
  fix F and C :: "'a ctx"
  assume h: "handler_ok h" and F: "Sp F \<le> 1024" "mem_ok (Memory F)" "HostSet F" "gas_of F < 2 ^ 63"
    and C: "res_ok C"
  let ?c = "gas_cost E (Rev (Inst C)) op"
  let ?G = "set_gas (gas_of F - ?c) F"
  have G: "frame_ok ?G" "frame_step F ?G" if "?c \<le> gas_of F"
    using that F le_less_trans [of "gas_of F - ?c" "gas_of F" "2 ^ 63"]
    by (simp_all add: frame_ok_def frame_step_def)
  have "ensures (h ?G C) (\<lambda>(F', C'). frame_step F F' \<and> ctx_step C C')" if "?c \<le> gas_of F"
    by (rule ensures_mono [OF handler_okD [OF h G(1) [OF that] C]])
      (auto intro: frame_step_trans [OF G(2) [OF that]])
  then show "ensures (handler_execute E op h F C) (\<lambda>(F', C'). frame_step F F' \<and> ctx_step C C')"
    using F C
    by (simp add: handler_execute_def res_ok_def charge_or_oog_ok frame_step_def ctx_step_def)
qed

section \<open>Proving the contract\<close>

text \<open>
  \<open>good F0 C0 r\<close>: the rest \<open>r\<close> of a handler that was entered with \<open>F0\<close> and \<open>C0\<close> meets the contract.
  The rules follow the handler from statement to statement; each hands on the facts the next
  statements need about the current frame.
\<close>

definition good :: "EVMFrame \<Rightarrow> 'h ctx \<Rightarrow> (EVMFrame \<times> 'h ctx) res \<Rightarrow> bool" where
  "good F0 C0 r \<longleftrightarrow> ensures r (\<lambda>(F', C'). frame_step F0 F' \<and> ctx_step C0 C')"

text \<open>\<open>G\<close> is a later version of the frame \<open>F\<close> with the same message apart from the gas.\<close>

definition same_msg :: "EVMFrame \<Rightarrow> EVMFrame \<Rightarrow> bool" where
  "same_msg F G \<longleftrightarrow> (Msg G)\<lparr>m_gas := 0\<rparr> = (Msg F)\<lparr>m_gas := 0\<rparr>"

lemma same_msgD:
  assumes "same_msg F G"
  shows "m_input (Msg G) = m_input (Msg F)" "m_flags (Msg G) = m_flags (Msg F)"
    "m_depth (Msg G) = m_depth (Msg F)" "m_recipient (Msg G) = m_recipient (Msg F)"
proof -
  note eq = assms [unfolded same_msg_def]
  have "m_input ((Msg G)\<lparr>m_gas := 0\<rparr>) = m_input ((Msg F)\<lparr>m_gas := 0\<rparr>)"
    "m_flags ((Msg G)\<lparr>m_gas := 0\<rparr>) = m_flags ((Msg F)\<lparr>m_gas := 0\<rparr>)"
    "m_depth ((Msg G)\<lparr>m_gas := 0\<rparr>) = m_depth ((Msg F)\<lparr>m_gas := 0\<rparr>)"
    "m_recipient ((Msg G)\<lparr>m_gas := 0\<rparr>) = m_recipient ((Msg F)\<lparr>m_gas := 0\<rparr>)"
    by (simp_all only: eq)
  then show "m_input (Msg G) = m_input (Msg F)" "m_flags (Msg G) = m_flags (Msg F)"
    "m_depth (Msg G) = m_depth (Msg F)" "m_recipient (Msg G) = m_recipient (Msg F)" by simp_all
qed

lemma handler_ok_goodI:
  "(\<And>F C. frame_step F F \<Longrightarrow> ctx_step C C \<Longrightarrow> frame_ok F \<Longrightarrow> Sp F \<le> 1024 \<Longrightarrow> res_ok C \<Longrightarrow>
      good F C (h F C)) \<Longrightarrow> handler_ok h"
  by (auto simp: handler_ok_def good_def frame_step_refl frame_ok_def)

lemma good_ret: "frame_step F0 F \<Longrightarrow> ctx_step C0 C \<Longrightarrow> good F0 C0 (Inr (F, C))"
  by (simp add: good_def)

lemma ctx_step_status [intro]: "ctx_step C0 C \<Longrightarrow> s \<noteq> EVMC_REVERT \<Longrightarrow> ctx_step C0 (C\<lparr>Status := s\<rparr>)"
  by (simp add: ctx_step_def)

lemma ctx_step_host [intro]: "ctx_step C0 C \<Longrightarrow> ctx_step C0 (C\<lparr>HostState := h\<rparr>)"
  by (simp add: ctx_step_def)

lemma ctx_step_return_data [intro]:
  "ctx_step C0 C \<Longrightarrow> length d < 2 ^ 64 \<Longrightarrow> ctx_step C0 (C\<lparr>ReturnData := d\<rparr>)"
  by (simp add: ctx_step_def)

lemma ctx_step_refund [intro]: "ctx_step C0 C \<Longrightarrow> ctx_step C0 (C\<lparr>Inst := addGasRefund r (Inst C)\<rparr>)"
  by (simp add: ctx_step_def addGasRefund_def)

lemma good_unless:
  "frame_step F0 F \<Longrightarrow> ctx_step C0 C \<Longrightarrow> s \<noteq> EVMC_REVERT \<Longrightarrow> (b \<Longrightarrow> good F0 C0 k) \<Longrightarrow>
     good F0 C0 (EVM_SET_EXCEPTION_UNLESS b s F C k)"
  by (auto simp: EVM_SET_EXCEPTION_UNLESS_def intro: good_ret)

lemma good_check:
  "frame_step F0 F \<Longrightarrow> ctx_step C0 C \<Longrightarrow> (n \<le> Sp F \<Longrightarrow> good F0 C0 k) \<Longrightarrow>
     good F0 C0 (EVM_STACK_CHECK F C n k)"
  by (auto simp: EVM_STACK_CHECK_def intro: good_ret)

lemma good_space:
  "frame_step F0 F \<Longrightarrow> ctx_step C0 C \<Longrightarrow> (Sp F + n \<le> 1024 \<Longrightarrow> good F0 C0 k) \<Longrightarrow>
     good F0 C0 (EVM_REQUIRE_STACK_SPACE F C n k)"
  by (auto simp: EVM_REQUIRE_STACK_SPACE_def intro: good_ret)

lemma good_pop:
  assumes "frame_step F0 F" and "0 < Sp F"
    and "\<And>v G. frame_step F0 G \<Longrightarrow> Sp G = Sp F - 1 \<Longrightarrow> Memory G = Memory F \<Longrightarrow> Msg G = Msg F \<Longrightarrow>
      good F0 C0 (k (v, G))"
  shows "good F0 C0 (bindE (frame_pop F) k)"
proof -
  have "frame_step F0 (F\<lparr>Sp := Sp F - 1\<rparr>)" using assms(1) by (auto simp: frame_step_def)
  then show ?thesis using assms(3) [of "F\<lparr>Sp := Sp F - 1\<rparr>"] assms(1,2)
    by (auto simp: frame_pop_def frame_step_def)
qed

lemma good_charge:
  assumes "frame_step F0 F" and "ctx_step C0 C"
    and "\<And>G. frame_step F0 G \<Longrightarrow> Sp G = Sp F \<Longrightarrow> Memory G = Memory F \<Longrightarrow> same_msg F G \<Longrightarrow>
      gas_of G \<le> gas_of F \<Longrightarrow> c \<le> gas_of F \<Longrightarrow> gas_of G = gas_of F - c \<Longrightarrow> good F0 C0 (k G)"
  shows "good F0 C0 (charge_or_oog F C c k)"
proof (cases "c \<le> gas_of F")
  case True
  have "frame_step F0 (set_gas (gas_of F - c) F)" using assms(1) True by (simp add: frame_step_def)
  then show ?thesis using assms(3) [of "set_gas (gas_of F - c) F"] True
    by (auto simp: charge_or_oog_def chargeGas_def same_msg_def)
next
  case False
  then show ?thesis using assms(1,2) by (auto simp: charge_or_oog_def chargeGas_def intro: good_ret)
qed

lemma good_copy:
  assumes "frame_step F0 F" and "ctx_step C0 C"
    and "\<And>G. frame_step F0 G \<Longrightarrow> Sp G = Sp F \<Longrightarrow> Memory G = Memory F \<Longrightarrow> same_msg F G \<Longrightarrow> good F0 C0 (k G)"
  shows "good F0 C0 (copy_or_oog F C s k)"
  using good_charge [OF assms(1,2), of "numWords s * WORD_COPY_COST" k] assms(3)
  by (simp add: copy_or_oog_def copyCodeAndChargeGas_def charge_or_oog_def)

lemma good_grow:
  assumes "frame_step F0 F" and "can_grow F n"
    and "\<And>G. frame_step F0 G \<Longrightarrow> Sp G = Sp F \<Longrightarrow> n \<le> length (Memory G) \<Longrightarrow> n \<le> 16777216 \<Longrightarrow>
      length (Memory F) \<le> length (Memory G) \<Longrightarrow> same_msg F G \<Longrightarrow> gas_of G \<le> gas_of F \<Longrightarrow> good F0 C0 (k G)"
  shows "good F0 C0 (k (grow_mem F n))"
proof (rule assms(3))
  show "frame_step F0 (grow_mem F n)" using assms(1,2) by (auto simp: frame_step_def)
  show "n \<le> 16777216" using assms(2) by (simp add: can_grow_def)
qed (use assms(2) in \<open>simp_all add: same_msg_def\<close>)

text \<open>What a successful memory check says about the operands once they are converted to 64 bits.\<close>

definition in_memory :: "u256 \<Rightarrow> u256 \<Rightarrow> EVMFrame \<Rightarrow> bool" where
  "in_memory a n G \<longleftrightarrow> (n \<noteq> 0 \<longrightarrow> unat a + unat n \<le> length (Memory G) \<and> unat a + unat n \<le> 16777216)"

lemma to64_small: "unat (v :: u256) \<le> 16777216 \<Longrightarrow> unat (uint256ToUint64 v) = unat v"
  by (simp add: unat_uint256ToUint64)

lemma ucast_small: "unat (v :: u256) \<le> 16777216 \<Longrightarrow> unat (ucast v :: u64) = unat v"
  by (intro unat_ucast_256_64) simp

lemma to64_zero [simp]: "uint256ToUint64 0 = 0"
  by (simp add: uint256ToUint64_nat)

lemma in_memory_to64:
  assumes "in_memory a n G" and "b \<le> unat (uint256ToUint64 n)" and "0 < b"
  shows "unat (uint256ToUint64 a) + b \<le> length (Memory G)"
  using assms by (cases "n = 0") (auto simp: in_memory_def to64_small)

lemma in_memory_ucast:
  assumes "in_memory a n G" and "b \<le> unat (ucast n :: u64)" and "0 < b"
  shows "unat (ucast a :: u64) + b \<le> length (Memory G)"
  using assms by (cases "n = 0") (auto simp: in_memory_def ucast_small)

lemma good_memory:
  assumes "frame_step F0 F" and "ctx_step C0 C"
    and "\<And>G. frame_step F0 G \<Longrightarrow> Sp G = Sp F \<Longrightarrow> in_memory a n G \<Longrightarrow>
      length (Memory F) \<le> length (Memory G) \<Longrightarrow> same_msg F G \<Longrightarrow> gas_of G \<le> gas_of F \<Longrightarrow> good F0 C0 (k G)"
  shows "good F0 C0 (memory_or_oog F C a n k)"
proof -
  have ok: "mem_ok (Memory F)" using assms(1) by (simp add: frame_step_def)
  consider "n = 0" | "n \<noteq> 0" "can_grow F (unat a + unat n)" | "n \<noteq> 0" "\<not> can_grow F (unat a + unat n)"
    by blast
  then show ?thesis
  proof cases
    case 1
    then show ?thesis using assms(3) [of F] assms(1)
      by (simp add: memory_or_oog_def check_nat [OF ok] same_msg_def in_memory_def)
  next
    case 2
    then show ?thesis using good_grow [OF assms(1) 2(2), of C0 k] assms(3)
      by (simp add: memory_or_oog_def check_nat [OF ok] in_memory_def)
  next
    case 3
    then show ?thesis using assms(1,2) by (auto simp: memory_or_oog_def check_nat [OF ok] intro: good_ret)
  qed
qed

lemma good_memory64:
  assumes "frame_step F0 F" and "ctx_step C0 C"
    and "\<And>G. frame_step F0 G \<Longrightarrow> Sp G = Sp F \<Longrightarrow>
      unat a + unat n \<le> length (Memory G) \<Longrightarrow> unat a + unat n \<le> 16777216 \<Longrightarrow>
      length (Memory F) \<le> length (Memory G) \<Longrightarrow> same_msg F G \<Longrightarrow> gas_of G \<le> gas_of F \<Longrightarrow> good F0 C0 (k G)"
  shows "good F0 C0 (memory64_or_oog F C a n k)"
proof -
  have ok: "mem_ok (Memory F)" using assms(1) by (simp add: frame_step_def)
  show ?thesis
    using good_grow [OF assms(1), of "unat a + unat n" C0 k] assms
    by (auto simp: memory64_or_oog_def check64_nat [OF ok] intro: good_ret)
qed

lemma good_if: "(b \<Longrightarrow> good F0 C0 r) \<Longrightarrow> (\<not> b \<Longrightarrow> good F0 C0 s) \<Longrightarrow> good F0 C0 (if b then r else s)"
  by simp

lemma good_Let: "(\<And>x. x = t \<Longrightarrow> good F0 C0 (f x)) \<Longrightarrow> good F0 C0 (Let t f)"
  by simp

lemma good_bind_if:
  "(b \<Longrightarrow> good F0 C0 (bindE r k)) \<Longrightarrow> (\<not> b \<Longrightarrow> good F0 C0 (bindE s k)) \<Longrightarrow>
     good F0 C0 (bindE (if b then r else s) k)"
  by simp

lemma good_bind_Inr: "good F0 C0 (k x) \<Longrightarrow> good F0 C0 (bindE (Inr x) k)"
  by simp

lemma bindE_assoc: "bindE (bindE r f) k = bindE r (\<lambda>x. bindE (f x) k)"
  by (cases r) simp_all

lemma good_bind_bind: "good F0 C0 (bindE r (\<lambda>x. bindE (f x) k)) \<Longrightarrow> good F0 C0 (bindE (bindE r f) k)"
  by (simp add: bindE_assoc)

lemma good_pair: "good F0 C0 (f a b) \<Longrightarrow> good F0 C0 (case (a, b) of (x, y) \<Rightarrow> f x y)"
  by simp

lemma good_split: "(\<And>a b. p = (a, b) \<Longrightarrow> good F0 C0 (f a b)) \<Longrightarrow> good F0 C0 (case p of (x, y) \<Rightarrow> f x y)"
  by (cases p) simp

lemma good_host: "frame_step F0 F \<Longrightarrow> good F0 C0 k \<Longrightarrow> good F0 C0 (via_host F k)"
  by (simp add: via_host_def frame_step_def)

lemma good_read:
  "(n \<noteq> 0 \<Longrightarrow> off + n \<le> length m) \<Longrightarrow> (\<And>bs. length bs = n \<Longrightarrow> good F0 C0 (k bs)) \<Longrightarrow>
     good F0 C0 (bindE (mem_read m off n) k)"
  by (auto simp: mem_read_def)

lemma good_push:
  assumes "frame_step F0 F" and "Sp F < 1024"
    and "\<And>G. frame_step F0 G \<Longrightarrow> Sp G = Sp F + 1 \<Longrightarrow> Memory G = Memory F \<Longrightarrow> Msg G = Msg F \<Longrightarrow> good F0 C0 (k G)"
  shows "good F0 C0 (bindE (frame_push v F) k)"
proof -
  have "frame_step F0 (F\<lparr>Stack := (Stack F)(Sp F := v), Sp := Sp F + 1\<rparr>)"
    using assms(1,2) by (simp add: frame_step_def)
  then show ?thesis using assms(2,3) by (simp add: frame_push_def)
qed

lemmas good_basic = good_ret good_unless good_check good_space good_pop good_charge good_copy
  good_memory good_memory64 good_if good_Let good_bind_if good_bind_Inr good_bind_bind good_pair
  good_host good_read good_push

text \<open>A context with one frame and a host without state, for the examples.\<close>

definition demo_ctx :: "unit ctx" where
  "demo_ctx = \<lparr>Inst = demo_instance, FrameStack = [demo_frame 100], FrameCount = 1,
     Status = EVMC_SUCCESS, ReturnData = [], ExeResult = evmc_Result EVMC_SUCCESS 0 0 [],
     IsJump = False, CurrentFrame = Some 0, CurrentMetricsTable = Some DEFAULT_REVISION,
     HostState = ()\<rparr>"

end
