(* ===== verification/Env_Handlers.thy ===== *)
theory Env_Handlers
  imports Handlers_Base
begin

text \<open>
  Handlers of \<open>opcode_handlers.cpp\<close> that read the environment: the message, the code size, the
  transaction and block context, other accounts, and the machine's own counters. Lengths of byte
  vectors are natural numbers; a conversion to \<open>intx::uint256\<close> takes the 64-bit pattern, so a
  signed value is zero-extended.
\<close>

section \<open>Pushing one value\<close>

definition push_result :: "u256 \<Rightarrow> 'h hdl" where
  "push_result v F C = bindE (frame_push v F) (\<lambda>F. Inr (F, C))"

definition doGas :: "'h hdl" where
  "doGas F C = EVM_REQUIRE_STACK_SPACE F C 1 (push_result (ucast (gas_of F)) F C)"

definition doAddress :: "'h ext \<Rightarrow> 'h hdl" where
  "doAddress E F C = EVM_REQUIRE_STACK_SPACE F C 1 (push_result (x_be_load E (m_recipient (Msg F))) F C)"

definition doCaller :: "'h ext \<Rightarrow> 'h hdl" where
  "doCaller E F C = EVM_REQUIRE_STACK_SPACE F C 1 (push_result (x_be_load E (m_sender (Msg F))) F C)"

definition doCallValue :: "'h ext \<Rightarrow> 'h hdl" where
  "doCallValue E F C = EVM_REQUIRE_STACK_SPACE F C 1 (push_result (x_be_load E (m_value (Msg F))) F C)"

definition doCallDataSize :: "'h hdl" where
  "doCallDataSize F C =
     EVM_REQUIRE_STACK_SPACE F C 1 (push_result (of_nat (length (m_input (Msg F)))) F C)"

definition doCodeSize :: "'h hdl" where
  "doCodeSize F C =
     (let CodeSize = CodeSize (Mod (Inst C))
      in EVM_REQUIRE_STACK_SPACE F C 1 (push_result (of_nat CodeSize) F C))"

definition doReturnDataSize :: "'h hdl" where
  "doReturnDataSize F C =
     EVM_REQUIRE_STACK_SPACE F C 1 (push_result (of_nat (length (ReturnData C))) F C)"

definition doPC :: "'h hdl" where
  "doPC F C = EVM_REQUIRE_STACK_SPACE F C 1 (push_result (of_nat (Pc F)) F C)"

definition doMSize :: "'h hdl" where
  "doMSize F C =
     (let MemSize = of_nat (length (Memory F))
      in EVM_REQUIRE_STACK_SPACE F C 1 (push_result MemSize F C))"

definition doSelfBalance :: "'h ext \<Rightarrow> 'h hdl" where
  "doSelfBalance E F C =
     EVM_REQUIRE_STACK_SPACE F C 1
       (via_host F (push_result (x_be_load E (h_get_balance E (HostState C) (m_recipient (Msg F)))) F C))"

section \<open>The transaction context\<close>

definition push_tx :: "'h ext \<Rightarrow> (evmc_tx_context \<Rightarrow> u256) \<Rightarrow> 'h hdl" where
  "push_tx E get F C =
     EVM_REQUIRE_STACK_SPACE F C 1
       (bindE (getTxContext E (HostState C) F) (\<lambda>(T, F). push_result (get T) F C))"

definition doOrigin :: "'h ext \<Rightarrow> 'h hdl" where
  "doOrigin E = push_tx E (\<lambda>T. x_be_load E (tx_origin T))"

definition doGasPrice :: "'h ext \<Rightarrow> 'h hdl" where
  "doGasPrice E = push_tx E (\<lambda>T. x_be_load E (tx_gas_price T))"

definition doCoinBase :: "'h ext \<Rightarrow> 'h hdl" where
  "doCoinBase E = push_tx E (\<lambda>T. x_be_load E (block_coinbase T))"

definition doTimeStamp :: "'h ext \<Rightarrow> 'h hdl" where
  "doTimeStamp E = push_tx E (\<lambda>T. ucast (block_timestamp T))"

definition doNumber :: "'h ext \<Rightarrow> 'h hdl" where
  "doNumber E = push_tx E (\<lambda>T. ucast (block_number T))"

definition doPrevRanDao :: "'h ext \<Rightarrow> 'h hdl" where
  "doPrevRanDao E = push_tx E (\<lambda>T. x_be_load E (block_prev_randao T))"

definition doChainId :: "'h ext \<Rightarrow> 'h hdl" where
  "doChainId E = push_tx E (\<lambda>T. x_be_load E (chain_id T))"

definition doBaseFee :: "'h ext \<Rightarrow> 'h hdl" where
  "doBaseFee E = push_tx E (\<lambda>T. x_be_load E (block_base_fee T))"

definition doBlobBaseFee :: "'h ext \<Rightarrow> 'h hdl" where
  "doBlobBaseFee E = push_tx E (\<lambda>T. x_be_load E (blob_base_fee T))"

definition doGasLimit :: "'h ext \<Rightarrow> 'h hdl" where
  "doGasLimit E = push_tx E (\<lambda>T. ucast (block_gas_limit T))"

definition doBlockHash :: "'h ext \<Rightarrow> 'h hdl" where
  "doBlockHash E F C =
     EVM_STACK_CHECK F C 1
       (bindE (frame_pop F) (\<lambda>(BlockNumberVal, F).
        bindE (getTxContext E (HostState C) F) (\<lambda>(T, F).
        let UpperBound = block_number T;
            LowerBound = max (sint UpperBound - 256) 0;
            BlockNumber = ucast BlockNumberVal :: i64
        in if BlockNumberVal < ucast UpperBound \<and> sint BlockNumber \<ge> LowerBound
           then via_host F (push_result (x_be_load E (h_get_block_hash E (HostState C) BlockNumber)) F C)
           else push_result (x_be_load E zero_bytes32) F C)))"

text \<open>\<open>blob_hashes\<close> with \<open>blob_hashes_count\<close> is one list.\<close>

definition doBlobHash :: "'h ext \<Rightarrow> 'h hdl" where
  "doBlobHash E F C =
     EVM_STACK_CHECK F C 1
       (bindE (frame_pop F) (\<lambda>(IndexVal, F).
        let Index = uint256ToUint64 IndexVal in
        bindE (getTxContext E (HostState C) F) (\<lambda>(T, F).
        if unat IndexVal \<ge> length (blob_hashes T) then push_result 0 F C
        else if unat Index < length (blob_hashes T)
        then EVM_REQUIRE_STACK_SPACE F C 1 (push_result (x_be_load E (blob_hashes T ! unat Index)) F C)
        else Inl UB)))"

section \<open>Call data\<close>

definition doCallDataLoad :: "'h ext \<Rightarrow> 'h hdl" where
  "doCallDataLoad E F C =
     EVM_STACK_CHECK F C 1
       (bindE (frame_pop F) (\<lambda>(OffsetVal, F).
        let Offset = uint256ToUint64 OffsetVal; input = m_input (Msg F) in
        if unat OffsetVal > length input then push_result 0 F C
        else bindE (mem_read input (unat Offset) (min 32 (length input - unat Offset))) (\<lambda>bs.
             let DataBytes = bs @ replicate (32 - length bs) 0
             in push_result (x_be_load E DataBytes) F C)))"

section \<open>Other accounts\<close>

text \<open>The cold-access surcharge of the handlers that compare the gas as a signed number.\<close>

definition cold_account_surcharge ::
  "'h ext \<Rightarrow> address \<Rightarrow> EVMFrame \<Rightarrow> 'h ctx \<Rightarrow> (EVMFrame \<Rightarrow> 'h ctx \<Rightarrow> (EVMFrame \<times> 'h ctx) res) \<Rightarrow>
   (EVMFrame \<times> 'h ctx) res" where
  "cold_account_surcharge E Addr F C k =
     (if currentRevision C \<ge> EVMC_BERLIN then
        via_host F
          (let (st, h) = h_access_account E (HostState C) Addr; C = C\<lparr>HostState := h\<rparr> in
           if st = EVMC_ACCESS_COLD then
             (if sint (gas_of F) < sint ADDITIONAL_COLD_ACCOUNT_ACCESS_COST
              then Inr (F, setStatus EVMC_OUT_OF_GAS C)
              else k (set_gas (gas_of F - ADDITIONAL_COLD_ACCOUNT_ACCESS_COST) F) C)
           else k F C)
      else k F C)"

definition doBalance :: "'h ext \<Rightarrow> 'h hdl" where
  "doBalance E F C =
     EVM_STACK_CHECK F C 1
       (bindE (frame_pop F) (\<lambda>(X, F).
        let Addr = x_be_trunc_address E X;
            finish = (\<lambda>F C. via_host F (push_result (x_be_load E (h_get_balance E (HostState C) Addr)) F C))
        in if currentRevision C \<ge> EVMC_BERLIN then
             via_host F
               (let (st, h) = h_access_account E (HostState C) Addr; C = C\<lparr>HostState := h\<rparr> in
                if st = EVMC_ACCESS_COLD
                then charge_or_oog F C ADDITIONAL_COLD_ACCOUNT_ACCESS_COST (\<lambda>F. finish F C)
                else finish F C)
           else finish F C))"

definition doExtCodeSize :: "'h ext \<Rightarrow> 'h hdl" where
  "doExtCodeSize E F C =
     EVM_STACK_CHECK F C 1
       (bindE (frame_pop F) (\<lambda>(X, F).
        let Addr = x_be_trunc_address E X in
        cold_account_surcharge E Addr F C (\<lambda>F C.
        via_host F
          (let CodeSize = h_get_code_size E (HostState C) Addr
           in EVM_REQUIRE_STACK_SPACE F C 1 (push_result (ucast CodeSize) F C)))))"

definition doExtCodeHash :: "'h ext \<Rightarrow> 'h hdl" where
  "doExtCodeHash E F C =
     EVM_STACK_CHECK F C 1
       (bindE (frame_pop F) (\<lambda>(X, F).
        let Addr = x_be_trunc_address E X in
        cold_account_surcharge E Addr F C (\<lambda>F C.
        EVM_REQUIRE_STACK_SPACE F C 1
          (via_host F (push_result (x_be_load E (h_get_code_hash E (HostState C) Addr)) F C)))))"

section \<open>The contract\<close>

lemma push_result_wp [ensures_simps]:
  "ensures (push_result v F C) Q \<longleftrightarrow>
     Sp F < 1024 \<and> Q (F\<lparr>Stack := (Stack F)(Sp F := v), Sp := Sp F + 1\<rparr>, C)"
  by (simp add: push_result_def ensures_simps)

lemma signed_gas_less:
  "(g :: i64) < 2 ^ 63 \<Longrightarrow> c < 2 ^ 63 \<Longrightarrow> sint g < sint c \<longleftrightarrow> \<not> c \<le> g"
  using sint_nonneg_64 [of g] sint_nonneg_64 [of c]
  by (simp add: word_less_nat_alt [of _ "9223372036854775808"] not_le word_less_alt [of g c])

lemma cold_account_surcharge_wp:
  assumes "gas_of F < 2 ^ 63"
  shows "ensures (cold_account_surcharge E a F C k) Q \<longleftrightarrow>
    (if currentRevision C \<ge> EVMC_BERLIN then HostSet F \<and>
       (case h_access_account E (HostState C) a of (st, h) \<Rightarrow>
          if st = EVMC_ACCESS_COLD then
            (\<not> 2500 \<le> gas_of F \<longrightarrow> Q (F, setStatus EVMC_OUT_OF_GAS (C\<lparr>HostState := h\<rparr>))) \<and>
            (2500 \<le> gas_of F \<longrightarrow> ensures (k (set_gas (gas_of F - 2500) F) (C\<lparr>HostState := h\<rparr>)) Q)
          else ensures (k F (C\<lparr>HostState := h\<rparr>)) Q)
     else ensures (k F C) Q)"
  using signed_gas_less [OF assms, of 2500]
  by (auto simp: cold_account_surcharge_def via_host_ok Let_def split: prod.splits)

lemma push_ok:
  "handler_ok doGas" "handler_ok (doAddress E)" "handler_ok (doCaller E)" "handler_ok (doCallValue E)"
  "handler_ok doCallDataSize" "handler_ok doCodeSize" "handler_ok doReturnDataSize"
  "handler_ok doPC" "handler_ok doMSize" "handler_ok (doSelfBalance E)"
  by (auto intro!: handler_okI simp: ensures_simps step_defs doGas_def doAddress_def doCaller_def
      doCallValue_def doCallDataSize_def doCodeSize_def doReturnDataSize_def doPC_def doMSize_def
      doSelfBalance_def)

lemma push_tx_ok: "handler_ok (push_tx E get)"
  by (rule handler_okI) (auto simp: push_tx_def ensures_simps step_defs)

lemma tx_ok:
  "handler_ok (doOrigin E)" "handler_ok (doGasPrice E)" "handler_ok (doCoinBase E)" "handler_ok (doTimeStamp E)"
  "handler_ok (doNumber E)" "handler_ok (doPrevRanDao E)" "handler_ok (doChainId E)" "handler_ok (doBaseFee E)"
  "handler_ok (doBlobBaseFee E)" "handler_ok (doGasLimit E)"
  by (simp_all add: push_tx_ok doOrigin_def doGasPrice_def doCoinBase_def doTimeStamp_def doNumber_def
      doPrevRanDao_def doChainId_def doBaseFee_def doBlobBaseFee_def doGasLimit_def)

lemma doBlockHash_ok: "handler_ok (doBlockHash E)"
  by (rule handler_okI) (auto simp: doBlockHash_def ensures_simps step_defs)

lemma index_in_range: "\<not> n \<le> unat v \<Longrightarrow> unat (uint256ToUint64 v) < n"
  by (simp add: unat_uint256ToUint64 min_def)

lemma doBlobHash_ok: "handler_ok (doBlobHash E)"
  by (rule handler_okI) (auto simp: doBlobHash_def ensures_simps step_defs index_in_range)

lemma offset_in_range: "\<not> n < unat v \<Longrightarrow> unat (uint256ToUint64 v) \<le> n"
  by (simp add: unat_uint256ToUint64 min_def)

lemma doCallDataLoad_ok: "handler_ok (doCallDataLoad E)"
  by (rule handler_okI) (auto simp: doCallDataLoad_def ensures_simps step_defs dest: offset_in_range)

lemma doBalance_ok: "handler_ok (doBalance E)"
  by (rule handler_okI) (auto simp: doBalance_def ensures_simps step_defs split: prod.splits)

lemma doExtCodeSize_ok: "handler_ok (doExtCodeSize E)"
  by (rule handler_okI)
    (auto simp: doExtCodeSize_def ensures_simps step_defs cold_account_surcharge_wp split: prod.splits)

lemma doExtCodeHash_ok: "handler_ok (doExtCodeHash E)"
  by (rule handler_okI)
    (auto simp: doExtCodeHash_def ensures_simps step_defs cold_account_surcharge_wp split: prod.splits)

lemmas env_ok = push_ok tx_ok doBlockHash_ok doBlobHash_ok doCallDataLoad_ok doBalance_ok
  doExtCodeSize_ok doExtCodeHash_ok

end
