(* ===== verification/Mem_Handlers.thy ===== *)
theory Mem_Handlers
  imports Env_Handlers
begin

text \<open>
  Handlers of \<open>opcode_handlers.cpp\<close> that read and write the linear memory of a frame: loads, stores,
  the copy instructions and \<open>KECCAK256\<close>. \<open>memcpy\<close>, \<open>memmove\<close> and \<open>memset\<close> are the checked buffer
  operations of the prelude, so a handler that returns normally has stayed inside the buffers.
\<close>

section \<open>Loads and stores\<close>

definition write_memory :: "nat \<Rightarrow> u8 list \<Rightarrow> EVMFrame \<Rightarrow> EVMFrame res" where
  "write_memory off bs F = bindE (mem_write (Memory F) off bs) (\<lambda>m. Inr (F\<lparr>Memory := m\<rparr>))"

definition zero_memory :: "nat \<Rightarrow> nat \<Rightarrow> EVMFrame \<Rightarrow> EVMFrame res" where
  "zero_memory off n F = bindE (mem_zero (Memory F) off n) (\<lambda>m. Inr (F\<lparr>Memory := m\<rparr>))"

definition doMStore :: "'h ext \<Rightarrow> 'h hdl" where
  "doMStore E F C =
     EVM_STACK_CHECK F C 2
       (bindE (frame_pop F) (\<lambda>(OffsetVal, F).
        bindE (frame_pop F) (\<lambda>(V, F).
        memory64_or_oog F C OffsetVal 32 (\<lambda>F.
        let Offset = ucast OffsetVal :: u64;
            ValueBytes = x_be_store32 E V
        in bindE (write_memory (unat Offset) ValueBytes F) (\<lambda>F. Inr (F, C))))))"

definition doMStore8 :: "'h hdl" where
  "doMStore8 F C =
     EVM_STACK_CHECK F C 2
       (bindE (frame_pop F) (\<lambda>(OffsetVal, F).
        bindE (frame_pop F) (\<lambda>(V, F).
        memory64_or_oog F C OffsetVal 1 (\<lambda>F.
        let Offset = ucast OffsetVal :: u64;
            ByteValue = ucast (V AND 0xFF) :: u8
        in bindE (write_memory (unat Offset) [ByteValue] F) (\<lambda>F. Inr (F, C))))))"

definition doMLoad :: "'h ext \<Rightarrow> 'h hdl" where
  "doMLoad E F C =
     EVM_STACK_CHECK F C 1
       (bindE (frame_pop F) (\<lambda>(OffsetVal, F).
        memory64_or_oog F C OffsetVal 32 (\<lambda>F.
        let Offset = ucast OffsetVal :: u64 in
        bindE (mem_read (Memory F) (unat Offset) 32) (\<lambda>ValueBytes.
        push_result (x_be_load E ValueBytes) F C))))"

section \<open>Copies\<close>

definition doCallDataCopy :: "'h hdl" where
  "doCallDataCopy F C =
     EVM_STACK_CHECK F C 3
       (bindE (frame_pop F) (\<lambda>(DestOffsetVal, F).
        bindE (frame_pop F) (\<lambda>(OffsetVal, F).
        bindE (frame_pop F) (\<lambda>(SizeVal, F).
        memory_or_oog F C DestOffsetVal SizeVal (\<lambda>F.
        let DestOffset = unat (uint256ToUint64 DestOffsetVal);
            Offset = unat (uint256ToUint64 OffsetVal);
            Size = uint256ToUint64 SizeVal;
            input = m_input (Msg F);
            Src = (if length input < Offset then length input else Offset);
            CopySize = min (unat Size) (length input - Src)
        in copy_or_oog F C Size (\<lambda>F.
           bindE (if CopySize > 0
                  then bindE (mem_read input Src CopySize) (\<lambda>bs. write_memory DestOffset bs F)
                  else Inr F) (\<lambda>F.
           bindE (if unat Size > CopySize
                  then zero_memory (DestOffset + CopySize) (unat Size - CopySize) F
                  else Inr F) (\<lambda>F. Inr (F, C)))))))))"

definition doCodeCopy :: "'h hdl" where
  "doCodeCopy F C =
     EVM_STACK_CHECK F C 3
       (let code = Code (Mod (Inst C)); CodeSize = length code in
        bindE (frame_pop F) (\<lambda>(DestOffsetVal, F).
        bindE (frame_pop F) (\<lambda>(OffsetVal, F).
        bindE (frame_pop F) (\<lambda>(SizeVal, F).
        memory_or_oog F C DestOffsetVal SizeVal (\<lambda>F.
        let DestOffset = unat (uint256ToUint64 DestOffsetVal);
            Offset = unat (uint256ToUint64 OffsetVal);
            Size = uint256ToUint64 SizeVal
        in copy_or_oog F C Size (\<lambda>F.
           if Offset < CodeSize then
             let CopySize = min (unat Size) (CodeSize - Offset) in
             bindE (mem_read code Offset CopySize) (\<lambda>bs.
             bindE (write_memory DestOffset bs F) (\<lambda>F.
             bindE (if unat Size > CopySize
                    then zero_memory (DestOffset + CopySize) (unat Size - CopySize) F
                    else Inr F) (\<lambda>F. Inr (F, C))))
           else
             bindE (if unat Size > 0 then zero_memory DestOffset (unat Size) F else Inr F) (\<lambda>F.
             Inr (F, C))))))))"

text \<open>\<open>copy_code\<close> writes into a buffer that holds \<open>Size\<close> bytes from \<open>DestOffset\<close> on.\<close>

definition doExtCodeCopy :: "'h ext \<Rightarrow> 'h hdl" where
  "doExtCodeCopy E F C =
     EVM_STACK_CHECK F C 4
       (bindE (frame_pop F) (\<lambda>(X, F).
        bindE (frame_pop F) (\<lambda>(DestOffsetVal, F).
        bindE (frame_pop F) (\<lambda>(OffsetVal, F).
        bindE (frame_pop F) (\<lambda>(SizeVal, F).
        let Addr = x_be_trunc_address E X in
        memory_or_oog F C DestOffsetVal SizeVal (\<lambda>F.
        let DestOffset = unat (uint256ToUint64 DestOffsetVal);
            Offset = uint256ToUint64 OffsetVal;
            Size = uint256ToUint64 SizeVal
        in copy_or_oog F C Size (\<lambda>F.
           cold_account_surcharge E Addr F C (\<lambda>F C.
           if unat Size > 0 then
             via_host F
               (let bs = h_copy_code E (HostState C) Addr Offset Size; CopiedSize = length bs in
                bindE (write_memory DestOffset bs F) (\<lambda>F.
                bindE (if CopiedSize < unat Size
                       then zero_memory (DestOffset + CopiedSize) (unat Size - CopiedSize) F
                       else Inr F) (\<lambda>F. Inr (F, C))))
           else Inr (F, C)))))))))"

definition doReturnDataCopy :: "'h hdl" where
  "doReturnDataCopy F C =
     EVM_STACK_CHECK F C 3
       (bindE (frame_pop F) (\<lambda>(DestOffsetVal, F).
        bindE (frame_pop F) (\<lambda>(OffsetVal, F).
        bindE (frame_pop F) (\<lambda>(SizeVal, F).
        let size = length (ReturnData C) in
        if unat OffsetVal > size \<or> unat SizeVal > size \<or> unat (OffsetVal + SizeVal) > size
        then Inr (F, setStatus EVMC_INVALID_MEMORY_ACCESS C)
        else
        memory_or_oog F C DestOffsetVal SizeVal (\<lambda>F.
        let DestOffset = unat (uint256ToUint64 DestOffsetVal);
            Offset = unat (uint256ToUint64 OffsetVal);
            Size = uint256ToUint64 SizeVal
        in copy_or_oog F C Size (\<lambda>F.
           if unat Size > 0 then
             bindE (mem_read (ReturnData C) Offset (unat Size)) (\<lambda>bs.
             bindE (write_memory DestOffset bs F) (\<lambda>F. Inr (F, C)))
           else Inr (F, C)))))))"

definition doMCopy :: "'h hdl" where
  "doMCopy F C =
     EVM_STACK_CHECK F C 3
       (bindE (frame_pop F) (\<lambda>(DestOffsetVal, F).
        bindE (frame_pop F) (\<lambda>(OffsetVal, F).
        bindE (frame_pop F) (\<lambda>(SizeVal, F).
        if SizeVal = 0 then Inr (F, C)
        else
        memory_or_oog F C (max DestOffsetVal OffsetVal) SizeVal (\<lambda>F.
        let DestOffset = unat (ucast DestOffsetVal :: u64);
            Offset = unat (ucast OffsetVal :: u64);
            Size = uint256ToUint64 SizeVal
        in copy_or_oog F C Size (\<lambda>F.
           if unat Size > 0 then
             bindE (mem_read (Memory F) Offset (unat Size)) (\<lambda>bs.
             bindE (write_memory DestOffset bs F) (\<lambda>F. Inr (F, C)))
           else Inr (F, C)))))))"

definition doKeccak256 :: "'h ext \<Rightarrow> 'h hdl" where
  "doKeccak256 E F C =
     EVM_STACK_CHECK F C 2
       (bindE (frame_pop F) (\<lambda>(Offset, F).
        bindE (frame_pop F) (\<lambda>(Length, F).
        memory_or_oog F C Offset Length (\<lambda>F.
        let DataLength = ucast Length :: u64;
            MemOffset = (if DataLength = 0 then 0 else ucast Offset) :: u64;
            ExtraGas = numWords DataLength * 6
        in charge_or_oog F C ExtraGas (\<lambda>F.
           bindE (mem_read (Memory F) (unat MemOffset) (unat DataLength)) (\<lambda>InputData.
           push_result (x_be_load E (x_keccak E InputData)) F C))))))"

section \<open>The contract\<close>

lemma frame_step_memory:
  assumes "frame_step F0 F" and "length m = length (Memory F)"
  shows "frame_step F0 (F\<lparr>Memory := m\<rparr>)"
  using assms by (simp add: frame_step_def mem_ok_def)

lemma good_write:
  assumes "frame_step F0 F" and "bs \<noteq> [] \<Longrightarrow> off + length bs \<le> length (Memory F)"
    and "\<And>G. frame_step F0 G \<Longrightarrow> Sp G = Sp F \<Longrightarrow> length (Memory G) = length (Memory F) \<Longrightarrow>
      same_msg F G \<Longrightarrow> gas_of G = gas_of F \<Longrightarrow> good F0 C0 (k G)"
  shows "good F0 C0 (bindE (write_memory off bs F) k)"
proof -
  obtain m where "mem_write (Memory F) off bs = Inr m" and len: "length m = length (Memory F)"
    using assms(2) by (cases "bs = []") (auto simp: mem_write_def)
  then show ?thesis
    using assms(3) [OF frame_step_memory [OF assms(1) len]] len
    by (simp add: write_memory_def same_msg_def)
qed

lemma good_zero:
  assumes "frame_step F0 F" and "0 < n \<Longrightarrow> off + n \<le> length (Memory F)"
    and "\<And>G. frame_step F0 G \<Longrightarrow> Sp G = Sp F \<Longrightarrow> length (Memory G) = length (Memory F) \<Longrightarrow>
      same_msg F G \<Longrightarrow> gas_of G = gas_of F \<Longrightarrow> good F0 C0 (k G)"
  shows "good F0 C0 (bindE (zero_memory off n F) k)"
  using good_write [OF assms(1), of "replicate n 0" off C0 k] assms(2,3)
  by (simp add: zero_memory_def write_memory_def mem_zero_def)

lemma good_push_result:
  "frame_step F0 F \<Longrightarrow> ctx_step C0 C \<Longrightarrow> Sp F < 1024 \<Longrightarrow> good F0 C0 (push_result v F C)"
  unfolding push_result_def by (intro good_push good_ret)

lemma good_surcharge:
  assumes "frame_step F0 F" and "ctx_step C0 C" and "frame_ok F0"
    and "\<And>G D. frame_step F0 G \<Longrightarrow> ctx_step C0 D \<Longrightarrow> Sp G = Sp F \<Longrightarrow> Memory G = Memory F \<Longrightarrow>
      same_msg F G \<Longrightarrow> good F0 C0 (k G D)"
  shows "good F0 C0 (cold_account_surcharge E a F C k)"
proof -
  have gas: "gas_of F < 2 ^ 63" using assms(1,3) by (auto simp: frame_step_def frame_ok_def)
  have "frame_step F0 (set_gas (gas_of F - 2500) F)" if "2500 \<le> gas_of F"
    using assms(1) that by (simp add: frame_step_def)
  then show ?thesis
    using assms(4) [of F] assms(4) [of "set_gas (gas_of F - 2500) F"] assms(1,2)
      signed_gas_less [OF gas, of 2500]
    by (auto simp: cold_account_surcharge_def via_host_def frame_step_def [of F0 F] same_msg_def
        Let_def split: prod.splits intro!: good_ret)
qed

lemmas good_rules = good_basic good_write good_zero good_push_result good_surcharge

lemma length_be_store32 [simp]: "intx_ok E \<Longrightarrow> length (x_be_store32 E v) = 32"
  by (simp add: intx_ok_def)

lemma doMStore_ok: "intx_ok E \<Longrightarrow> handler_ok (doMStore E)"
  unfolding doMStore_def
  by (intro handler_ok_goodI good_rules) (simp_all add: ucast_small ctx_step_status)

lemma doMStore8_ok: "handler_ok doMStore8"
  unfolding doMStore8_def
  by (intro handler_ok_goodI good_rules) (simp_all add: ucast_small ctx_step_status)

lemma doMLoad_ok: "handler_ok (doMLoad E)"
  unfolding doMLoad_def
  by (intro handler_ok_goodI good_rules) (simp_all add: ucast_small ctx_step_status)

text \<open>The ranges of the copy instructions, in the names the handlers give to the converted operands.\<close>

lemma copy_range:
  assumes "in_memory a n G" and "x = unat (uint256ToUint64 a)" and "y = uint256ToUint64 n"
    and "length (Memory G) \<le> length (Memory H)" and "l \<le> unat y" and "0 < l"
  shows "x + l \<le> length (Memory H)"
  using in_memory_to64 [OF assms(1)] assms by fastforce

lemma fill_range:
  assumes "in_memory a n G" and "x = unat (uint256ToUint64 a)" and "y = uint256ToUint64 n"
    and "length (Memory G) \<le> length (Memory H)" and "l < unat y"
  shows "x + l + (unat y - l) \<le> length (Memory H)"
  using copy_range [OF assms(1-4), of "unat y"] assms(5) by simp

lemma source_range: "e = min n (length s - d) \<Longrightarrow> 0 < e \<Longrightarrow> d + e \<le> length s"
  by (simp add: min_def split: if_splits)

lemma doCallDataCopy_ok: "handler_ok doCallDataCopy"
  unfolding doCallDataCopy_def
  by (intro handler_ok_goodI good_rules)
    (assumption | rule length_greater_0_conv [THEN iffD2] | (rule source_range, assumption, assumption)
      | (rule fill_range, assumption, assumption, assumption)
      | (rule copy_range, assumption, assumption, assumption) | (simp; fail))+

lemma doCodeCopy_ok: "handler_ok doCodeCopy"
  unfolding doCodeCopy_def
  by (intro handler_ok_goodI good_rules)
    (assumption | rule length_greater_0_conv [THEN iffD2] | (rule fill_range, assumption, assumption, assumption)
      | (rule copy_range, assumption, assumption, assumption) | (simp; fail))+

lemma return_data_bound:
  assumes "unat (a :: u256) \<le> len" and "unat n \<le> len" and "unat (a + n) \<le> len" and "len < 2 ^ 64"
  shows "unat (uint256ToUint64 a) + unat (uint256ToUint64 n) \<le> len"
proof -
  have "unat (a + n) = unat a + unat n"
    using assms by (intro unat_add_lem [THEN iffD1]) simp
  then show ?thesis using assms by (simp add: unat_uint256ToUint64)
qed

lemma doReturnDataCopy_ok: "handler_ok doReturnDataCopy"
  unfolding doReturnDataCopy_def
  by (intro handler_ok_goodI good_rules)
    (simp_all add: in_memory_to64 ctx_step_status return_data_bound res_ok_def)

text \<open>MCOPY checks the range from the larger of its two offsets, which covers both.\<close>

lemma in_memory_max:
  assumes "in_memory (max a b) n G" and "0 < unat (uint256ToUint64 n)"
  shows "unat (ucast a :: u64) + unat (uint256ToUint64 n) \<le> length (Memory G)"
    "unat (ucast b :: u64) + unat (uint256ToUint64 n) \<le> length (Memory G)"
proof -
  have n: "n \<noteq> 0" using assms(2) by auto
  moreover have "unat a \<le> unat (max a b)" "unat b \<le> unat (max a b)"
    by (simp_all flip: word_le_nat_alt)
  ultimately have "unat a + unat n \<le> length (Memory G) \<and> unat a + unat n \<le> 16777216"
    "unat b + unat n \<le> length (Memory G) \<and> unat b + unat n \<le> 16777216"
    using assms(1) by (simp_all add: in_memory_def)
  then show "unat (ucast a :: u64) + unat (uint256ToUint64 n) \<le> length (Memory G)"
    "unat (ucast b :: u64) + unat (uint256ToUint64 n) \<le> length (Memory G)"
    by (simp_all add: to64_small ucast_small)
qed

lemma doMCopy_ok: "handler_ok doMCopy"
  unfolding doMCopy_def
  by (intro handler_ok_goodI good_rules) (simp_all add: in_memory_max)

lemma keccak_range:
  assumes "in_memory a n G" and "m = Memory G" and "l = (ucast n :: u64)" and "o' = (if l = 0 then 0 else ucast a)"
    and "unat l \<noteq> 0"
  shows "unat (o' :: u64) + unat l \<le> length m"
  using assms in_memory_ucast [of a n G "unat l"] by auto

lemma doKeccak256_ok: "handler_ok (doKeccak256 E)"
  unfolding doKeccak256_def
  by (intro handler_ok_goodI good_rules) (assumption | rule keccak_range | (simp; fail))+

lemma copy_code_le: "host_ok E \<Longrightarrow> length (h_copy_code E h a off n) \<le> unat n"
  by (simp add: host_ok_def)

lemma in_memory_copied:
  assumes "in_memory a n G" and "l \<le> unat (uint256ToUint64 n)" and "0 < unat (uint256ToUint64 n)"
  shows "unat (uint256ToUint64 a) + l \<le> length (Memory G)"
  using in_memory_to64 [OF assms(1) order.refl assms(3)] assms(2) by linarith

lemma doExtCodeCopy_ok: "host_ok E \<Longrightarrow> handler_ok (doExtCodeCopy E)"
  unfolding doExtCodeCopy_def
  by (intro handler_ok_goodI good_rules)
    (assumption | (simp add: copy_code_le in_memory_copied; fail))+
end
