(* ===== verification/Reference_Ext.thy ===== *)
theory Reference_Ext
  imports Evmc
begin

text \<open>
  A concrete instance of the external functions that meets the hypotheses of the development: the
  \<open>intx\<close> functions by their mathematical definitions, a small instruction table, and a host that has
  no accounts. It shows that the hypotheses can hold together and serves the examples.
\<close>

section \<open>The number of digits\<close>

fun digit_len :: "nat \<Rightarrow> nat \<Rightarrow> nat" where
  "digit_len B n = (if n = 0 \<or> B < 2 then 0 else Suc (digit_len B (n div B)))"

declare digit_len.simps [simp del]

lemma digit_len_0 [simp]: "digit_len B 0 = 0"
  by (simp add: digit_len.simps)

lemma digit_len_pos: "n \<noteq> 0 \<Longrightarrow> 2 \<le> B \<Longrightarrow> digit_len B n = Suc (digit_len B (n div B))"
  by (subst digit_len.simps) simp

lemma digit_len_upper: "2 \<le> B \<Longrightarrow> n < B ^ digit_len B n"
proof (induction B n rule: digit_len.induct)
  case (1 B n)
  show ?case
  proof (cases "n = 0")
    case False
    have "n div B < B ^ digit_len B (n div B)" using 1 False by simp
    then have "n < B * B ^ digit_len B (n div B)" using 1(2) by (simp add: div_less_iff_less_mult mult.commute)
    then show ?thesis using digit_len_pos [OF False 1(2)] by simp
  qed (use 1 in simp)
qed

lemma digit_len_lower: "2 \<le> B \<Longrightarrow> n \<noteq> 0 \<Longrightarrow> B ^ (digit_len B n - 1) \<le> n"
proof (induction B n rule: digit_len.induct)
  case (1 B n)
  show ?case
  proof (cases "n div B = 0")
    case True
    then show ?thesis using 1 by (simp add: digit_len_pos)
  next
    case False
    have "digit_len B (n div B) = Suc (digit_len B (n div B) - 1)" using digit_len_pos [OF False 1(2)] by simp
    then have "B ^ digit_len B (n div B) = B * B ^ (digit_len B (n div B) - 1)" by (metis power_Suc)
    also have "\<dots> \<le> B * (n div B)" using 1 False by simp
    also have "\<dots> \<le> n" by simp
    finally show ?thesis using 1(2,3) by (simp add: digit_len_pos)
  qed
qed

lemma digit_len_le:
  assumes "n < B ^ k" and "2 \<le> B"
  shows "digit_len B n \<le> k"
proof (rule ccontr)
  assume "\<not> digit_len B n \<le> k"
  then have "k \<le> digit_len B n - 1" and "n \<noteq> 0" by (cases "n = 0"; simp)+
  then show False
    using digit_len_lower [of B n] assms power_increasing [of k "digit_len B n - 1" B] by linarith
qed

section \<open>The instance\<close>

text \<open>The table lacks \<open>0x0c\<close>, and \<open>PUSH0\<close> before Shanghai; it has the usual prices of the jumps and three
  for most other instructions.\<close>

definition ref_defined :: "evmc_revision \<Rightarrow> u8 \<Rightarrow> bool" where
  "ref_defined rv op \<longleftrightarrow> op \<noteq> 0x0c \<and> (op = 0x5f \<longrightarrow> EVMC_SHANGHAI \<le> rv)"

definition ref_metrics :: "evmc_revision \<Rightarrow> u8 \<Rightarrow> i16" where
  "ref_metrics rv op = (if \<not> ref_defined rv op then -1 else if op = 0x56 then 8 else if op = 0x57 then 10
     else if op = 0x5b then 1 else if op = 0x00 \<or> op = 0xf3 \<or> op = 0xfd \<or> op = 0xfe then 0 else 3)"

definition reference_host :: "'h ext" where
  "reference_host = \<lparr>metrics = ref_metrics, op_defined = ref_defined, flag_static = 1,
     flag_delegated = 2,
     x_sdiv = (\<lambda>a b. word_of_int (sgn (sint a) * sgn (sint b) * (\<bar>sint a\<bar> div \<bar>sint b\<bar>))),
     x_srem = (\<lambda>a b. word_of_int (sgn (sint a) * (\<bar>sint a\<bar> mod \<bar>sint b\<bar>))),
     x_addmod = (\<lambda>a b m. of_nat ((unat a + unat b) mod unat m)),
     x_mulmod = (\<lambda>a b m. of_nat ((unat a * unat b) mod unat m)),
     x_exp = (\<lambda>a b. a ^ unat b),
     x_clz = (\<lambda>x. of_nat (256 - digit_len 2 (unat x))),
     x_slt = (\<lambda>a b. a <s b),
     x_count_significant_bytes = (\<lambda>x. of_nat (digit_len 256 (unat x))),
     x_to_big_endian = (\<lambda>x. of_nat (be_val (rev (be_bytes 8 (unat x))))),
     x_be_load = (\<lambda>bs. of_nat (be_val bs)),
     x_be_store32 = (\<lambda>x. be_bytes 32 (unat x)),
     x_be_trunc_address = (\<lambda>x. be_bytes 20 (unat x)),
     x_keccak = (\<lambda>bs. replicate 32 0),
     h_account_exists = (\<lambda>h a. False),
     h_get_storage = (\<lambda>h a k. zero_bytes32),
     h_set_storage = (\<lambda>h a k v. (EVMC_STORAGE_ASSIGNED, h)),
     h_get_balance = (\<lambda>h a. zero_bytes32),
     h_get_code_size = (\<lambda>h a. 0),
     h_get_code_hash = (\<lambda>h a. zero_bytes32),
     h_copy_code = (\<lambda>h a off n. []),
     h_selfdestruct = (\<lambda>h a b. (True, h)),
     h_call = (\<lambda>h m. (evmc_Result EVMC_FAILURE 0 0 [], h)),
     h_get_tx_context = (\<lambda>h. empty_tx_context),
     h_get_block_hash = (\<lambda>h n. zero_bytes32),
     h_emit_log = (\<lambda>h a d ts. h),
     h_access_account = (\<lambda>h a. (EVMC_ACCESS_COLD, h)),
     h_access_storage = (\<lambda>h a k. (EVMC_ACCESS_COLD, h)),
     h_get_transient = (\<lambda>h a k. zero_bytes32),
     h_set_transient = (\<lambda>h a k v. h)\<rparr>"

abbreviation reference_ext :: "unit ext" where
  "reference_ext \<equiv> reference_host"

lemma digit_len_256 [simp]: "digit_len 2 (unat (x :: u256)) \<le> 256" "digit_len 256 (unat x) \<le> 32"
  by (rule digit_len_le; simp)+

lemma unat_clz: "unat (256 - of_nat (digit_len 2 (unat (x :: u256))) :: u256) = 256 - digit_len 2 (unat x)"
proof -
  have "(256 - of_nat (digit_len 2 (unat x)) :: u256) = of_nat (256 - digit_len 2 (unat x))"
    by (simp add: of_nat_diff)
  also have "unat \<dots> = 256 - digit_len 2 (unat x)" unfolding unat_of_nat by (rule mod_less) simp
  finally show ?thesis .
qed

lemma unat_count: "unat (of_nat (digit_len 256 (unat (x :: u256))) :: u64) = digit_len 256 (unat x)"
  using digit_len_256(2) [of x] by (simp add: unat_of_nat del: digit_len_256)

lemma ref_to_big_endian:
  assumes "length bs = 8"
  shows "be_val (rev (be_bytes 8 (unat (of_nat (be_val (rev bs)) :: u64)))) = be_val bs"
proof -
  have "be_val (rev bs) < 2 ^ 64" using be_val_less [of "rev bs"] assms by simp
  then have "unat (of_nat (be_val (rev bs)) :: u64) = be_val (rev bs)" by (simp add: unat_of_nat)
  then show ?thesis using be_bytes_be_val [of "rev bs"] assms by simp
qed

lemma reference_intx_ok [simp]: "intx_ok reference_host"
proof -
  have "unat x < 2 ^ (256 - (256 - digit_len 2 (unat x)))" for x :: u256
    using digit_len_upper [of 2 "unat x"] by simp
  moreover have "2 ^ (255 - (256 - digit_len 2 (unat x))) \<le> unat x" if "x \<noteq> 0" for x :: u256
    using digit_len_lower [of 2 "unat x"] that by (simp add: unat_eq_zero)
  moreover have "256 ^ (digit_len 256 (unat x) - 1) \<le> unat x" if "x \<noteq> 0" for x :: u256
    using digit_len_lower [of 256 "unat x"] that by (simp add: unat_eq_zero)
  ultimately show ?thesis
    using digit_len_upper [of 256]
    by (auto simp: intx_ok_def reference_host_def unat_clz unat_count ref_to_big_endian)
qed

lemma reference_host_ok [simp]: "host_ok reference_host"
  by (simp add: host_ok_def reference_host_def evmc_Result_def)

lemma reference_metrics_ok [simp]: "metrics_ok reference_host"
  by (auto simp: metrics_ok_def reference_host_def ref_metrics_def ref_defined_def)

end
