(* ===== verification/Memory_Spec.thy ===== *)
theory Memory_Spec
  imports Mem_Handlers Reference_Ext
begin

text \<open>
  The memory instructions against an abstract memory: every address holds a byte, initially zero. The
  handlers of \<open>Mem_Handlers\<close> refine the obvious stores, loads and copies on it, with the price of the
  growth charged first and out of gas as the only failure.
\<close>

section \<open>The memory as an infinite array of bytes\<close>

text \<open>
  The abstract memory of a frame: every address holds a byte, zero where the buffer does not reach.
\<close>

definition mem_at :: "EVMFrame \<Rightarrow> nat \<Rightarrow> u8" where
  "mem_at F i = (if i < length (Memory F) then Memory F ! i else 0)"

definition store_bytes :: "(nat \<Rightarrow> u8) \<Rightarrow> nat \<Rightarrow> u8 list \<Rightarrow> nat \<Rightarrow> u8" where
  "store_bytes m a bs i = (if a \<le> i \<and> i < a + length bs then bs ! (i - a) else m i)"

definition load_bytes :: "(nat \<Rightarrow> u8) \<Rightarrow> nat \<Rightarrow> nat \<Rightarrow> u8 list" where
  "load_bytes m a n = map (\<lambda>k. m (a + k)) [0..<n]"

lemma length_load_bytes [simp]: "length (load_bytes m a n) = n"
  by (simp add: load_bytes_def)

lemma store_bytes_Nil [simp]: "store_bytes m a [] = m"
  by (rule ext) (auto simp: store_bytes_def)

lemma load_store_bytes: "load_bytes (store_bytes m a bs) a (length bs) = bs"
  by (rule nth_equalityI) (simp_all add: load_bytes_def store_bytes_def)

lemma mem_at_grow [simp]: "mem_at (grow_mem F n) = mem_at F"
  by (rule ext) (auto simp: mem_at_def grow_mem_def nth_append)

lemma mem_at_simps [simp]:
  "mem_at (F\<lparr>Sp := s\<rparr>) = mem_at F" "mem_at (F\<lparr>Stack := st\<rparr>) = mem_at F"
  "mem_at (F\<lparr>Msg := m\<rparr>) = mem_at F"
  by (simp_all add: mem_at_def fun_eq_iff)

lemma can_grow_Sp [simp]: "can_grow (F\<lparr>Sp := s\<rparr>) n = can_grow F n"
  by (simp add: can_grow_def)

lemma grow_mem_Sp [simp]: "grow_mem (F\<lparr>Sp := s\<rparr>) n = (grow_mem F n)\<lparr>Sp := s\<rparr>"
  by (simp add: grow_mem_def)

lemma write_memory_at:
  assumes "off + length bs \<le> length (Memory F)"
  obtains m where "write_memory off bs F = Inr (F\<lparr>Memory := m\<rparr>)" and "length m = length (Memory F)"
    and "mem_at (F\<lparr>Memory := m\<rparr>) = store_bytes (mem_at F) off bs"
proof -
  obtain m where m: "mem_write (Memory F) off bs = Inr m" using assms by (cases "bs = []") (auto simp: mem_write_def)
  have "mem_at (F\<lparr>Memory := m\<rparr>) i = store_bytes (mem_at F) off bs i" for i
    using mem_write_nth [OF m, of i] mem_write_length [OF m] assms
    by (auto simp: mem_at_def store_bytes_def)
  then show ?thesis using that [of m] m mem_write_length [OF m] by (auto simp: write_memory_def)
qed

lemma mem_read_at:
  assumes "off + n \<le> length (Memory F)"
  shows "mem_read (Memory F) off n = Inr (load_bytes (mem_at F) off n)"
proof -
  have "take n (drop off (Memory F)) = load_bytes (mem_at F) off n"
    using assms by (intro nth_equalityI) (simp_all add: load_bytes_def mem_at_def)
  then show ?thesis using assms by (auto simp: mem_read_def load_bytes_def)
qed

text \<open>The converted operand of an access that the memory check has let through.\<close>

lemma can_grow_ucast: "can_grow F (unat a + k) \<Longrightarrow> unat (ucast (a :: u256) :: u64) = unat a"
  by (rule ucast_small) (simp add: can_grow_def)


lemma frame_pop_Suc: "Sp F = Suc n \<Longrightarrow> n < 1024 \<Longrightarrow> frame_pop F = Inr (Stack F n, F\<lparr>Sp := n\<rparr>)"
  by (simp add: frame_pop_def)

lemma frame_push_at: "Sp F = n \<Longrightarrow> n < 1024 \<Longrightarrow>
    frame_push v F = Inr (F\<lparr>Stack := (Stack F)(n := v), Sp := Suc n\<rparr>)"
  by (simp add: frame_push_def)

lemma intx_bytes:
  assumes "intx_ok E"
  shows "x_be_store32 E v = be_bytes 32 (unat v)"
    and "length bs \<le> 32 \<Longrightarrow> x_be_load E bs = of_nat (be_val bs)"
  using assms by (simp_all add: intx_ok_def)

lemma be_load_store [simp]: "(of_nat (be_val (be_bytes 32 (unat v))) :: u256) = v"
proof -
  have "unat v mod 256 ^ 32 = unat v" by (rule mod_less) simp
  then show ?thesis by (simp add: be_val_be_bytes)
qed

text \<open>The three outcomes of a store of \<open>bs\<close> at \<open>a\<close>.\<close>

definition stores_at :: "EVMFrame \<Rightarrow> 'h ctx \<Rightarrow> nat \<Rightarrow> nat \<Rightarrow> u8 list \<Rightarrow> (EVMFrame \<times> 'h ctx) res \<Rightarrow> bool" where
  "stores_at F C n a bs r \<longleftrightarrow>
     (if can_grow F (a + length bs)
      then \<exists>m. length m = length (Memory (grow_mem F (a + length bs))) \<and>
        r = Inr ((grow_mem F (a + length bs))\<lparr>Sp := n, Memory := m\<rparr>, C) \<and>
        mem_at ((grow_mem F (a + length bs))\<lparr>Sp := n, Memory := m\<rparr>) = store_bytes (mem_at F) a bs
      else r = Inr (F\<lparr>Sp := n\<rparr>, setStatus EVMC_OUT_OF_GAS C))"

lemma stores_atI:
  assumes "frame_ok F" and "unat a + length bs = unat a + unat l"
  shows "stores_at F C n (unat a) bs
    (memory64_or_oog (F\<lparr>Sp := n\<rparr>) C a l (\<lambda>F.
       bindE (write_memory (unat (ucast a :: u64)) bs F) (\<lambda>F. Inr (F, C))))"
proof (cases "can_grow F (unat a + length bs)")
  case True
  let ?G = "(grow_mem F (unat a + length bs))\<lparr>Sp := n\<rparr>"
  obtain m where "write_memory (unat a) bs ?G = Inr (?G\<lparr>Memory := m\<rparr>)"
    and "length m = length (Memory ?G)" and "mem_at (?G\<lparr>Memory := m\<rparr>) = store_bytes (mem_at ?G) (unat a) bs"
    by (rule write_memory_at [of "unat a" bs ?G]) simp
  then show ?thesis using True assms
    by (auto simp: stores_at_def memory64_or_oog_def frame_ok_def check64_nat can_grow_ucast)
next
  case False
  then show ?thesis using assms by (simp add: stores_at_def memory64_or_oog_def frame_ok_def check64_nat)
qed

lemma doMStore_stores:
  assumes "intx_ok E" and "frame_ok F" and "Sp F = Suc (Suc n)"
  shows "stores_at F C n (unat (Stack F (Suc n))) (be_bytes 32 (unat (Stack F n))) (doMStore E F C)"
  using stores_atI [OF assms(2), of "Stack F (Suc n)" "be_bytes 32 (unat (Stack F n))" 32 C n] assms
  by (simp add: doMStore_def EVM_STACK_CHECK_def frame_pop_Suc frame_ok_def intx_bytes Let_def)

lemma mask_numeral_8: "mask 8 = (255 :: u256)"
  by (simp add: mask_eq_exp_minus_1)

lemma doMStore8_stores:
  assumes "frame_ok F" and "Sp F = Suc (Suc n)"
  shows "stores_at F C n (unat (Stack F (Suc n))) [ucast (Stack F n)] (doMStore8 F C)"
proof -
  have "(ucast (Stack F n AND 255) :: u8) = ucast (Stack F n)"
    by (rule bit_word_eqI) (simp add: bit_simps flip: mask_numeral_8)
  then show ?thesis
    using stores_atI [OF assms(1), of "Stack F (Suc n)" "[ucast (Stack F n)]" 1 C n] assms
    by (simp add: doMStore8_def EVM_STACK_CHECK_def frame_pop_Suc frame_ok_def Let_def)
qed

lemma doMLoad_loads:
  assumes "intx_ok E" and "frame_ok F" and "Sp F = Suc n"
  shows "doMLoad E F C =
    (let a = unat (Stack F n) in
     if can_grow F (a + 32)
     then let v = of_nat (be_val (load_bytes (mem_at F) a 32)) in
       Inr ((grow_mem F (a + 32))\<lparr>Stack := (Stack F)(n := v), Sp := Suc n\<rparr>, C)
     else Inr (F\<lparr>Sp := n\<rparr>, setStatus EVMC_OUT_OF_GAS C))"
proof (cases "can_grow F (unat (Stack F n) + 32)")
  case True
  let ?a = "unat (Stack F n)"
  let ?G = "(grow_mem F (?a + 32))\<lparr>Sp := n\<rparr>"
  have "mem_read (Memory ?G) ?a 32 = Inr (load_bytes (mem_at F) ?a 32)"
    using mem_read_at [of ?a 32 ?G] by simp
  then show ?thesis using True assms
    by (simp add: doMLoad_def EVM_STACK_CHECK_def frame_pop_Suc frame_push_at frame_ok_def
        memory64_or_oog_def check64_nat can_grow_ucast intx_bytes push_result_def Let_def)
next
  case False
  then show ?thesis using assms
    by (simp add: doMLoad_def EVM_STACK_CHECK_def frame_pop_Suc frame_ok_def memory64_or_oog_def
        check64_nat Let_def)
qed

lemma grow_enough:
  assumes "mem_ok (Memory F)" and "n \<le> length (Memory F)"
  shows "can_grow F n" and "grow_mem F n = F"
proof -
  obtain k where k: "length (Memory F) = 32 * k" and small: "32 * k \<le> 16777216"
    using assms(1) by (auto simp: mem_ok_def)
  then have "missing (Memory F) n = 0" using assms(2) by (simp add: missing_def mem_words_def)
  moreover from this have "growth_fee (Memory F) n = 0" by (simp add: growth_fee_def)
  ultimately show "can_grow F n" "grow_mem F n = F"
    using assms(2) k small by (simp_all add: can_grow_def grow_mem_def)
qed

lemma mstore_mload:
  assumes E: "intx_ok E" and F: "frame_ok F" and sp: "Sp F = Suc (Suc n)"
    and g: "can_grow F (unat (Stack F (Suc n)) + 32)"
  shows "\<exists>G H. doMStore E F C = Inr (G, C) \<and>
    doMLoad E (G\<lparr>Stack := (Stack G)(n := Stack F (Suc n)), Sp := Suc n\<rparr>) C = Inr (H, C) \<and>
    Stack H n = Stack F n \<and> gas_of H = gas_of G"
proof -
  let ?a = "Stack F (Suc n)" and ?bs = "be_bytes 32 (unat (Stack F n))"
  let ?F1 = "grow_mem F (unat ?a + 32)"
  obtain m where len: "length m = length (Memory ?F1)"
    and st: "doMStore E F C = Inr (?F1\<lparr>Sp := n, Memory := m\<rparr>, C)"
    and mem: "mem_at (?F1\<lparr>Sp := n, Memory := m\<rparr>) = store_bytes (mem_at F) (unat ?a) ?bs"
    using doMStore_stores [OF E F sp, of C] g by (auto simp: stores_at_def)
  define G where "G = ?F1\<lparr>Sp := n, Memory := m\<rparr>"
  define G1 where "G1 = G\<lparr>Stack := (Stack G)(n := ?a), Sp := Suc n\<rparr>"
  have ok: "mem_ok (Memory ?F1)" "gas_of ?F1 \<le> gas_of F" using F g by (simp_all add: frame_ok_def)
  have G1: "frame_ok G1" "Sp G1 = Suc n" "Stack G1 n = ?a" "gas_of G1 = gas_of G"
      "unat ?a + 32 \<le> length (Memory G1)" "mem_ok (Memory G1)"
    using ok F sp len le_less_trans [OF ok(2), of "2 ^ 63"]
    by (simp_all add: G1_def G_def frame_ok_def mem_ok_def)
  have "mem_at G1 = store_bytes (mem_at F) (unat ?a) ?bs"
    using mem by (simp only: G1_def G_def mem_at_simps)
  then have "load_bytes (mem_at G1) (unat ?a) 32 = ?bs"
    using load_store_bytes [of "mem_at F" "unat ?a" ?bs] by simp
  then have "doMLoad E G1 C = Inr (G1\<lparr>Stack := (Stack G1)(n := Stack F n), Sp := Suc n\<rparr>, C)"
    using doMLoad_loads [OF E G1(1,2), of C] grow_enough [OF G1(6,5)] G1(3) by (simp add: Let_def)
  then show ?thesis using st G1(4) by (auto simp: G1_def G_def)
qed


text \<open>\<open>n\<close> bytes of a buffer from \<open>off\<close> on, zero beyond its end.\<close>

definition padded :: "u8 list \<Rightarrow> nat \<Rightarrow> nat \<Rightarrow> u8 list" where
  "padded s off n = map (\<lambda>k. if off + k < length s then s ! (off + k) else 0) [0..<n]"

lemma length_padded [simp]: "length (padded s off n) = n"
  by (simp add: padded_def)

lemma padded_split:
  "padded s off n = take (min n (length s - off)) (drop off s) @ replicate (n - min n (length s - off)) 0"
  by (rule nth_equalityI) (auto simp: padded_def nth_append)

lemma store_bytes_append:
  "store_bytes (store_bytes m a xs) (a + length xs) ys = store_bytes m a (xs @ ys)"
  by (rule ext) (auto simp: store_bytes_def nth_append)

lemma zero_memory_write: "zero_memory off n F = write_memory off (replicate n 0) F"
  by (simp add: zero_memory_def write_memory_def mem_zero_def)

lemma copy_padded:
  assumes "n \<noteq> 0 \<Longrightarrow> d + n \<le> length (Memory F)" and k: "k = min n (length s - off)"
  obtains m where "length m = length (Memory F)"
    and "bindE (write_memory d (take k (drop off s)) F) (\<lambda>F.
      bindE (if n > k then zero_memory (d + k) (n - k) F else Inr F) q) = q (F\<lparr>Memory := m\<rparr>)"
    and "mem_at (F\<lparr>Memory := m\<rparr>) = store_bytes (mem_at F) d (padded s off n)"
proof (cases "n = 0")
  case True
  then show ?thesis using that [of "Memory F"] k
    by (simp add: write_memory_def mem_write_def padded_def)
next
  case False
  let ?xs = "take k (drop off s)" and ?ys = "replicate (n - k) (0 :: u8)"
  have d: "d + n \<le> length (Memory F)" and len: "length ?xs = k" "k \<le> n"
    using assms False by (simp_all add: min_def)
  obtain m1 where m1: "write_memory d ?xs F = Inr (F\<lparr>Memory := m1\<rparr>)" "length m1 = length (Memory F)"
      "mem_at (F\<lparr>Memory := m1\<rparr>) = store_bytes (mem_at F) d ?xs"
    by (rule write_memory_at [of d ?xs F]) (use d len in simp_all)
  obtain m2 where m2: "write_memory (d + k) ?ys (F\<lparr>Memory := m1\<rparr>) = Inr (F\<lparr>Memory := m2\<rparr>)"
      "length m2 = length (Memory F)" "mem_at (F\<lparr>Memory := m2\<rparr>) = store_bytes (mem_at (F\<lparr>Memory := m1\<rparr>)) (d + k) ?ys"
    by (rule write_memory_at [of "d + k" ?ys "F\<lparr>Memory := m1\<rparr>"]) (use d len m1 in simp_all)
  have "mem_at (F\<lparr>Memory := m2\<rparr>) = store_bytes (mem_at F) d (padded s off n)"
    using store_bytes_append [of "mem_at F" d ?xs ?ys] len
    by (simp add: m2(3) m1(3) padded_split flip: k)
  moreover have "(if n > k then zero_memory (d + k) (n - k) (F\<lparr>Memory := m1\<rparr>) else Inr (F\<lparr>Memory := m1\<rparr>))
      = Inr (F\<lparr>Memory := m2\<rparr>)"
    using m2(1) len(2) by (cases "n > k") (simp_all add: zero_memory_write, simp add: write_memory_def mem_write_def)
  ultimately show ?thesis using that [of m2] m1 m2 by simp
qed


text \<open>
  The outcomes of a copy of \<open>bs\<close> to \<open>a\<close>: the memory cannot grow, the three gas per word cannot be
  paid, or the bytes are in place and everything outside the range is untouched.
\<close>

definition grown_to :: "EVMFrame \<Rightarrow> nat \<Rightarrow> nat \<Rightarrow> EVMFrame" where
  "grown_to F a l = (if l = 0 then F else grow_mem F (a + l))"

definition copies_to :: "EVMFrame \<Rightarrow> 'h ctx \<Rightarrow> nat \<Rightarrow> nat \<Rightarrow> u8 list \<Rightarrow> (EVMFrame \<times> 'h ctx) res \<Rightarrow> bool" where
  "copies_to F C n a bs r \<longleftrightarrow>
     (let G = grown_to F a (length bs); price = 3 * mem_words (length bs) in
      if bs \<noteq> [] \<and> \<not> can_grow F (a + length bs) then r = Inr (F\<lparr>Sp := n\<rparr>, setStatus EVMC_OUT_OF_GAS C)
      else if unat (gas_of G) < price then r = Inr (G\<lparr>Sp := n\<rparr>, setStatus EVMC_OUT_OF_GAS C)
      else \<exists>m. length m = length (Memory G) \<and>
        r = Inr ((set_gas (gas_of G - of_nat price) (G\<lparr>Sp := n\<rparr>))\<lparr>Memory := m\<rparr>, C) \<and>
        mem_at ((set_gas (gas_of G - of_nat price) (G\<lparr>Sp := n\<rparr>))\<lparr>Memory := m\<rparr>) = store_bytes (mem_at F) a bs)"

lemma numWords_price:
  assumes "unat (l :: u64) \<le> 16777216"
  shows "numWords l * WORD_COPY_COST = of_nat (3 * mem_words (unat l))"
    and "unat (numWords l * WORD_COPY_COST) = 3 * mem_words (unat l)"
proof -
  have "unat (numWords l) = mem_words (unat l)"
    using assms by (simp add: numWords_def unat_add_31_div)
  moreover have "numWords l = of_nat (unat (numWords l))" by simp
  ultimately have "numWords l = of_nat (mem_words (unat l))" by simp
  then show eq: "numWords l * WORD_COPY_COST = of_nat (3 * mem_words (unat l))" by simp
  have "3 * mem_words (unat l) < 18446744073709551616" using assms by (simp add: mem_words_def)
  then show "unat (numWords l * WORD_COPY_COST) = 3 * mem_words (unat l)"
    unfolding eq by (rule unat_of_nat_64)
qed

lemma copies_toI:
  assumes F: "frame_ok F" and len: "length bs = unat sz"
    and k: "\<And>G. in_memory d sz G \<Longrightarrow>
      \<exists>m. length m = length (Memory G) \<and> k G = Inr (G\<lparr>Memory := m\<rparr>, C) \<and>
        mem_at (G\<lparr>Memory := m\<rparr>) = store_bytes (mem_at G) (unat d) bs"
  shows "copies_to F C n (unat d) bs
    (memory_or_oog (F\<lparr>Sp := n\<rparr>) C d sz (\<lambda>F. copy_or_oog F C (uint256ToUint64 sz) k))"
proof (cases "sz = 0 \<or> can_grow F (unat d + unat sz)")
  case False
  moreover have "bs \<noteq> []" using False len by (auto simp: unat_eq_zero)
  ultimately show ?thesis using F len
    by (simp add: copies_to_def memory_or_oog_def frame_ok_def check_nat Let_def)
next
  case True
  let ?G = "grown_to F (unat d) (unat sz)" and ?p = "3 * mem_words (unat sz)"
  let ?H = "set_gas (gas_of ?G - of_nat ?p) (?G\<lparr>Sp := n\<rparr>)"
  have G: "memory_or_oog (F\<lparr>Sp := n\<rparr>) C d sz q = q (?G\<lparr>Sp := n\<rparr>)" for q
    using True F by (auto simp: memory_or_oog_def frame_ok_def check_nat grown_to_def unat_eq_zero)
  have small: "unat sz \<le> 16777216" "in_memory d sz ?H"
    using True by (auto simp: can_grow_def in_memory_def grown_to_def unat_eq_zero)
  have price: "numWords (uint256ToUint64 sz) * WORD_COPY_COST = of_nat ?p"
      "unat (of_nat ?p :: u64) = ?p"
    using numWords_price [of "uint256ToUint64 sz"] small(1) by (simp_all add: to64_small)
  obtain m where m: "length m = length (Memory ?H)" "k ?H = Inr (?H\<lparr>Memory := m\<rparr>, C)"
      "mem_at (?H\<lparr>Memory := m\<rparr>) = store_bytes (mem_at ?H) (unat d) bs"
    using k [OF small(2)] by blast
  have cut: "copy_or_oog (?G\<lparr>Sp := n\<rparr>) C (uint256ToUint64 sz) k =
      (if unat (gas_of ?G) < ?p then Inr (?G\<lparr>Sp := n\<rparr>, setStatus EVMC_OUT_OF_GAS C) else k ?H)"
    using price by (simp add: copy_or_oog_def copyCodeAndChargeGas_def chargeGas_def word_less_nat_alt
        del: evm_constants)
  moreover have "mem_at ?H = mem_at F" by (simp add: grown_to_def)
  ultimately have "\<exists>m'. length m' = length (Memory ?G) \<and> k ?H = Inr (?H\<lparr>Memory := m'\<rparr>, C) \<and>
      mem_at (?H\<lparr>Memory := m'\<rparr>) = store_bytes (mem_at F) (unat d) bs"
    using m by (intro exI [of _ m]) simp
  then show ?thesis using True len cut by (auto simp: copies_to_def G Let_def)
qed


text \<open>A saturated source offset lies beyond every buffer.\<close>

lemma padded_to64:
  assumes "length s < 2 ^ 64"
  shows "padded s (unat (uint256ToUint64 off)) n = padded s (unat off) n"
  using assms by (auto simp: padded_def unat_uint256ToUint64)

lemma in_memory_operands:
  assumes "in_memory d sz G" and "sz \<noteq> 0"
  shows "unat (uint256ToUint64 d) = unat d" and "unat (uint256ToUint64 sz) = unat sz"
    and "unat d + unat sz \<le> length (Memory G)"
  using assms by (simp_all add: in_memory_def to64_small)


lemma memory_or_oog_cong:
  assumes "mem_ok (Memory F)" and "m_input (Msg F) = s" and "\<And>G. m_input (Msg G) = s \<Longrightarrow> k G = k' G"
  shows "memory_or_oog F C a n k = memory_or_oog F C a n k'"
  using assms by (auto simp: memory_or_oog_def check_nat)

text \<open>Copying what the source has and filling up with zeros, as the handlers do it.\<close>

lemma copy_and_fill:
  assumes G: "in_memory d sz G" and s: "length s < 2 ^ 64" and c: "c = min (unat (uint256ToUint64 sz)) (length s - unat (uint256ToUint64 off))"
  shows "\<exists>m. length m = length (Memory G) \<and>
    bindE (write_memory (unat (uint256ToUint64 d)) (take c (drop (unat (uint256ToUint64 off)) s)) G) (\<lambda>F.
      bindE (if unat (uint256ToUint64 sz) > c then zero_memory (unat (uint256ToUint64 d) + c) (unat (uint256ToUint64 sz) - c) F
             else Inr F) (\<lambda>F. Inr (F, C))) = Inr (G\<lparr>Memory := m\<rparr>, C) \<and>
    mem_at (G\<lparr>Memory := m\<rparr>) = store_bytes (mem_at G) (unat d) (padded s (unat off) (unat sz))"
proof (cases "sz = 0")
  case True
  then show ?thesis using c by (intro exI [of _ "Memory G"]) (simp add: write_memory_def mem_write_def padded_def)
next
  case False
  note op = in_memory_operands [OF G False]
  obtain m where "length m = length (Memory G)"
    and "bindE (write_memory (unat d) (take c (drop (unat (uint256ToUint64 off)) s)) G) (\<lambda>F.
      bindE (if unat sz > c then zero_memory (unat d + c) (unat sz - c) F else Inr F) (\<lambda>F. Inr (F, C)))
      = Inr (G\<lparr>Memory := m\<rparr>, C)"
    and "mem_at (G\<lparr>Memory := m\<rparr>) = store_bytes (mem_at G) (unat d) (padded s (unat (uint256ToUint64 off)) (unat sz))"
    by (rule copy_padded [of "unat sz" "unat d" G c s "unat (uint256ToUint64 off)" "\<lambda>F. Inr (F, C)"])
      (use op c in simp_all)
  then show ?thesis using s by (intro exI [of _ m]) (simp add: op padded_to64 cong: if_cong)
qed

lemma mem_read_take: "off + n \<le> length s \<Longrightarrow> mem_read s off n = Inr (take n (drop off s))"
  by (simp add: mem_read_def)

lemma pop3:
  assumes "frame_ok F" and "Sp F = Suc (Suc (Suc n))"
  shows "EVM_STACK_CHECK F C 3 (bindE (frame_pop F) (\<lambda>(a, F). bindE (frame_pop F) (\<lambda>(b, F).
      bindE (frame_pop F) (\<lambda>(c, F). k a b c F))))
    = k (Stack F (Suc (Suc n))) (Stack F (Suc n)) (Stack F n) (F\<lparr>Sp := n\<rparr>)"
  using assms by (simp add: EVM_STACK_CHECK_def frame_pop_Suc frame_ok_def)

lemma clamp_size: "min n (length s - (if length s < off then length s else off)) = min n (length s - off)"
  by simp

lemma clamp_copy:
  assumes "c \<le> length s - off"
  shows "bindE (if c > 0
      then bindE (mem_read s (if length s < off then length s else off) c) (\<lambda>bs. write_memory d bs F)
      else Inr F) q = bindE (write_memory d (take c (drop off s)) F) q"
proof (cases "c > 0")
  case True
  then show ?thesis using assms by (simp add: mem_read_take)
next
  case False
  then show ?thesis by (simp add: write_memory_def mem_write_def)
qed

lemma doCallDataCopy_copies:
  assumes "frame_ok F" and "Sp F = Suc (Suc (Suc n))" and "length (m_input (Msg F)) < 2 ^ 64"
  shows "copies_to F C n (unat (Stack F (Suc (Suc n))))
    (padded (m_input (Msg F)) (unat (Stack F (Suc n))) (unat (Stack F n))) (doCallDataCopy F C)"
proof -
  let ?d = "Stack F (Suc (Suc n))" and ?o = "Stack F (Suc n)" and ?s = "Stack F n" and ?in = "m_input (Msg F)"
  let ?c = "min (unat (uint256ToUint64 ?s)) (length ?in - unat (uint256ToUint64 ?o))"
  define k where "k = (\<lambda>F.
      bindE (write_memory (unat (uint256ToUint64 ?d)) (take ?c (drop (unat (uint256ToUint64 ?o)) ?in)) F) (\<lambda>F.
      bindE (if unat (uint256ToUint64 ?s) > ?c then zero_memory (unat (uint256ToUint64 ?d) + ?c) (unat (uint256ToUint64 ?s) - ?c) F
             else Inr F) (\<lambda>F. Inr (F, C))))"
  have mem: "mem_ok (Memory (F\<lparr>Sp := n\<rparr>))" "m_input (Msg (F\<lparr>Sp := n\<rparr>)) = ?in"
    using assms(1) by (simp_all add: frame_ok_def)
  have "doCallDataCopy F C = memory_or_oog (F\<lparr>Sp := n\<rparr>) C ?d ?s (\<lambda>F. copy_or_oog F C (uint256ToUint64 ?s) k)"
    unfolding doCallDataCopy_def pop3 [OF assms(1,2)]
    by (rule memory_or_oog_cong [OF mem]) (simp only: Let_def clamp_size clamp_copy min.cobounded2 k_def)
  moreover have "copies_to F C n (unat ?d) (padded ?in (unat ?o) (unat ?s)) ..."
    by (rule copies_toI [OF assms(1)]) (auto simp: k_def intro: copy_and_fill [OF _ assms(3) refl])
  ultimately show ?thesis by simp
qed

lemma doCodeCopy_copies:
  assumes "frame_ok F" and "Sp F = Suc (Suc (Suc n))" and "length (Code (Mod (Inst C))) < 2 ^ 64"
  shows "copies_to F C n (unat (Stack F (Suc (Suc n))))
    (padded (Code (Mod (Inst C))) (unat (Stack F (Suc n))) (unat (Stack F n))) (doCodeCopy F C)"
proof -
  let ?d = "Stack F (Suc (Suc n))" and ?o = "Stack F (Suc n)" and ?s = "Stack F n"
  let ?code = "Code (Mod (Inst C))"
  let ?c = "min (unat (uint256ToUint64 ?s)) (length ?code - unat (uint256ToUint64 ?o))"
  define k where "k = (\<lambda>F.
      bindE (write_memory (unat (uint256ToUint64 ?d)) (take ?c (drop (unat (uint256ToUint64 ?o)) ?code)) F) (\<lambda>F.
      bindE (if unat (uint256ToUint64 ?s) > ?c then zero_memory (unat (uint256ToUint64 ?d) + ?c) (unat (uint256ToUint64 ?s) - ?c) F
             else Inr F) (\<lambda>F. Inr (F, C))))"
  have "(if unat (uint256ToUint64 ?o) < length ?code then
             bindE (mem_read ?code (unat (uint256ToUint64 ?o)) ?c) (\<lambda>bs.
             bindE (write_memory (unat (uint256ToUint64 ?d)) bs F) (\<lambda>F.
             bindE (if unat (uint256ToUint64 ?s) > ?c
                    then zero_memory (unat (uint256ToUint64 ?d) + ?c) (unat (uint256ToUint64 ?s) - ?c) F
                    else Inr F) (\<lambda>F. Inr (F, C))))
           else
             bindE (if unat (uint256ToUint64 ?s) > 0
                then zero_memory (unat (uint256ToUint64 ?d)) (unat (uint256ToUint64 ?s)) F else Inr F) (\<lambda>F.
             Inr (F, C))) = k F" for F
  proof (cases "unat (uint256ToUint64 ?o) < length ?code")
    case True
    then show ?thesis by (simp add: k_def mem_read_take)
  next
    case False
    then show ?thesis by (simp add: k_def write_memory_def mem_write_def)
  qed
  then have "doCodeCopy F C = memory_or_oog (F\<lparr>Sp := n\<rparr>) C ?d ?s (\<lambda>F. copy_or_oog F C (uint256ToUint64 ?s) k)"
    by (simp only: doCodeCopy_def pop3 [OF assms(1,2)] Let_def)
  moreover have "copies_to F C n (unat ?d) (padded ?code (unat ?o) (unat ?s)) ..."
    by (rule copies_toI [OF assms(1)]) (auto simp: k_def intro: copy_and_fill [OF _ assms(3) refl])
  ultimately show ?thesis by simp
qed


section \<open>Properties\<close>

text \<open>
  C29. On the abstract memory of a frame \<open>MSTORE\<close> writes the 32 big-endian bytes of its value,
  \<open>MSTORE8\<close> its lowest byte and \<open>MLOAD\<close> reads 32 bytes, each touching nothing else and charging the
  growth of the memory; when the growth cannot be paid the status is out of gas and the memory is
  untouched. A load after a store at the same offset returns the stored value and costs no growth.
\<close>

theorem memory_access_refines:
  fixes C :: "'h ctx"
  assumes E: "intx_ok E" and F: "frame_ok F" and sp: "Sp F = Suc (Suc n)"
  shows "stores_at F C n (unat (Stack F (Suc n))) (be_bytes 32 (unat (Stack F n))) (doMStore E F C) \<and>
    stores_at F C n (unat (Stack F (Suc n))) [ucast (Stack F n)] (doMStore8 F C) \<and>
    doMLoad E F C = (let a = unat (Stack F (Suc n)) in
      if can_grow F (a + 32)
      then Inr ((grow_mem F (a + 32))\<lparr>Stack := (Stack F)(Suc n := of_nat (be_val (load_bytes (mem_at F) a 32))),
        Sp := Suc (Suc n)\<rparr>, C)
      else Inr (F\<lparr>Sp := Suc n\<rparr>, setStatus EVMC_OUT_OF_GAS C)) \<and>
    (can_grow F (unat (Stack F (Suc n)) + 32) \<longrightarrow>
      (\<exists>G H. doMStore E F C = Inr (G, C) \<and>
        doMLoad E (G\<lparr>Stack := (Stack G)(n := Stack F (Suc n)), Sp := Suc n\<rparr>) C = Inr (H, C) \<and>
        Stack H n = Stack F n \<and> gas_of H = gas_of G))"
  using doMStore_stores [OF E F sp] doMStore8_stores [OF F sp] doMLoad_loads [OF E F sp]
    mstore_mload [OF E F sp]
  by (simp add: Let_def)

definition store_frame :: EVMFrame where
  "store_frame = (demo_frame 100)\<lparr>Stack := (\<lambda>_. 0)(0 := 42, 1 := 7), Sp := 2\<rparr>"

lemma store_frame_ok:
  "frame_ok store_frame" "Sp store_frame = Suc (Suc 0)" "can_grow store_frame (unat (Stack store_frame (Suc 0)) + 32)"
  by (simp_all add: store_frame_def frame_ok_def demo_frame_def new_frame_def demo_message_def can_grow_def
      growth_fee_def missing_def mem_words_def mem_fee_def)

theorem memory_access_refines_witness:
  "\<exists>G H. doMStore reference_ext store_frame demo_ctx = Inr (G, demo_ctx) \<and>
     doMLoad reference_ext (G\<lparr>Stack := (Stack G)(0 := 7), Sp := Suc 0\<rparr>) demo_ctx = Inr (H, demo_ctx) \<and>
     Stack H 0 = 42 \<and> gas_of H = gas_of G"
proof -
  have "Stack store_frame (Suc 0) = 7" "Stack store_frame 0 = 42" by (simp_all add: store_frame_def)
  then show ?thesis
    using memory_access_refines [OF reference_intx_ok store_frame_ok(1,2), of demo_ctx] store_frame_ok(3)
    by simp
qed

text \<open>
  C30. \<open>CALLDATACOPY\<close> and \<open>CODECOPY\<close> copy the requested bytes of the call data and of the code,
  zero where the source ends, into the abstract memory and touch nothing else, for every
  256-bit offset and size: a source offset that does not fit 64 bits reads zeros, a destination
  that cannot be paid for ends in out of gas, and the price is the growth of the memory plus three
  gas for each word.
\<close>

theorem copies_refine:
  assumes F: "frame_ok F" and sp: "Sp F = Suc (Suc (Suc n))"
    and s: "length (m_input (Msg F)) < 2 ^ 64" "length (Code (Mod (Inst C))) < 2 ^ 64"
  shows "copies_to F C n (unat (Stack F (Suc (Suc n))))
      (padded (m_input (Msg F)) (unat (Stack F (Suc n))) (unat (Stack F n))) (doCallDataCopy F C) \<and>
    copies_to F C n (unat (Stack F (Suc (Suc n))))
      (padded (Code (Mod (Inst C))) (unat (Stack F (Suc n))) (unat (Stack F n))) (doCodeCopy F C)"
  using doCallDataCopy_copies [OF F sp s(1)] doCodeCopy_copies [OF F sp s(2)] by simp

definition copy_frame :: EVMFrame where
  "copy_frame = (demo_frame 100)\<lparr>Stack := (\<lambda>_. 0)(0 := 2, 1 := 2 ^ 200, 2 := 0), Sp := 3\<rparr>"

lemma copy_frame_simps:
  "Stack copy_frame 0 = 2" "Stack copy_frame (Suc 0) = 2 ^ 200" "Stack copy_frame (Suc (Suc 0)) = 0"
  "Memory copy_frame = []" "m_input (Msg copy_frame) = []" "gas_of copy_frame = 100"
  by (simp_all add: copy_frame_def demo_frame_def new_frame_def demo_message_def)

theorem copies_refine_witness:
  "\<exists>G. doCallDataCopy copy_frame demo_ctx = Inr (G, demo_ctx) \<and>
     mem_at G = store_bytes (mem_at copy_frame) 0 [0, 0] \<and> gas_of G = 94"
proof -
  have "copies_to copy_frame demo_ctx 0 (unat (Stack copy_frame (Suc (Suc 0))))
      (padded (m_input (Msg copy_frame)) (unat (Stack copy_frame (Suc 0))) (unat (Stack copy_frame 0)))
      (doCallDataCopy copy_frame demo_ctx)"
    by (rule copies_refine [THEN conjunct1])
      (simp_all add: copy_frame_def demo_frame_def frame_ok_def demo_ctx_def demo_instance_def
        new_frame_def demo_message_def newEVMInstance_def demo_module_def setGas_def)
  moreover have "padded [] (2 ^ 200) 2 = [0, 0]" by (simp add: padded_def upt_rec)
  ultimately show ?thesis
    by (auto simp: copy_frame_simps copies_to_def can_grow_def growth_fee_def missing_def mem_words_def
        mem_fee_def grown_to_def grow_mem_def)
qed

end
