(* ===== verification/Gas_Storage_Cost.thy ===== *)
theory Gas_Storage_Cost
  imports Evmc
begin

text \<open>
  \<open>src/evm/gas_storage_cost.cpp\<close>: the per-revision storage cost schedule and the table of
  \<open>SSTORE\<close> costs and refunds indexed by the storage status the host reports. The schedule holds
  \<open>int16_t\<close> values; sums and differences are computed in \<open>int\<close> and narrowed by the casts the
  source writes.

  The theorems relate the table to the life of one storage slot: under net metering the charges
  of any sequence of writes telescope (only the original and the final value count), and under
  the legacy schedule the charge depends on the current and the new value alone.
\<close>

section \<open>The cost schedule\<close>

record StorageCostSpec =
  NetCost :: bool
  WarmAccess :: i16
  SetCost :: i16
  ReSet :: i16
  Clear :: i16

definition legacy_spec :: StorageCostSpec where
  "legacy_spec = \<lparr>NetCost = False, WarmAccess = 200, SetCost = 20000, ReSet = 5000,
     Clear = 15000\<rparr>"

definition london_spec :: StorageCostSpec where
  "london_spec = \<lparr>NetCost = True, WarmAccess = word_of_int WARM_STORAGE_READ_COST,
     SetCost = 20000, ReSet = word_of_int (5000 - COLD_SLOAD_COST), Clear = 4800\<rparr>"

fun STORAGE_COST_SPEC_TABLE :: "evmc_revision \<Rightarrow> StorageCostSpec" where
  "STORAGE_COST_SPEC_TABLE EVMC_FRONTIER = legacy_spec"
| "STORAGE_COST_SPEC_TABLE EVMC_HOMESTEAD = legacy_spec"
| "STORAGE_COST_SPEC_TABLE EVMC_TANGERINE_WHISTLE = legacy_spec"
| "STORAGE_COST_SPEC_TABLE EVMC_SPURIOUS_DRAGON = legacy_spec"
| "STORAGE_COST_SPEC_TABLE EVMC_BYZANTIUM = legacy_spec"
| "STORAGE_COST_SPEC_TABLE EVMC_PETERSBURG = legacy_spec"
| "STORAGE_COST_SPEC_TABLE EVMC_CONSTANTINOPLE =
     \<lparr>NetCost = True, WarmAccess = 200, SetCost = 20000, ReSet = 5000, Clear = 15000\<rparr>"
| "STORAGE_COST_SPEC_TABLE EVMC_ISTANBUL =
     \<lparr>NetCost = True, WarmAccess = 800, SetCost = 20000, ReSet = 5000, Clear = 15000\<rparr>"
| "STORAGE_COST_SPEC_TABLE EVMC_BERLIN =
     \<lparr>NetCost = True, WarmAccess = word_of_int WARM_STORAGE_READ_COST, SetCost = 20000,
      ReSet = word_of_int (5000 - COLD_SLOAD_COST), Clear = 15000\<rparr>"
| "STORAGE_COST_SPEC_TABLE EVMC_LONDON = london_spec"
| "STORAGE_COST_SPEC_TABLE EVMC_PARIS = london_spec"
| "STORAGE_COST_SPEC_TABLE EVMC_SHANGHAI = london_spec"
| "STORAGE_COST_SPEC_TABLE EVMC_CANCUN = london_spec"
| "STORAGE_COST_SPEC_TABLE EVMC_PRAGUE = london_spec"
| "STORAGE_COST_SPEC_TABLE EVMC_OSAKA = london_spec"
| "STORAGE_COST_SPEC_TABLE EVMC_EXPERIMENTAL = london_spec"

section \<open>The SSTORE table\<close>

record StorageStoreCost =
  GasCost :: i16
  GasReFund :: i16

abbreviation store_cost :: "i16 \<Rightarrow> i16 \<Rightarrow> StorageStoreCost" where
  "store_cost c r \<equiv> \<lparr>GasCost = c, GasReFund = r\<rparr>"

fun legacy_row :: "StorageCostSpec \<Rightarrow> evmc_storage_status \<Rightarrow> StorageStoreCost" where
  "legacy_row C EVMC_STORAGE_ADDED = store_cost (SetCost C) 0"
| "legacy_row C EVMC_STORAGE_DELETED = store_cost (ReSet C) (Clear C)"
| "legacy_row C EVMC_STORAGE_MODIFIED = store_cost (ReSet C) 0"
| "legacy_row C EVMC_STORAGE_ASSIGNED = store_cost (ReSet C) 0"
| "legacy_row C EVMC_STORAGE_DELETED_ADDED = store_cost (SetCost C) 0"
| "legacy_row C EVMC_STORAGE_MODIFIED_DELETED = store_cost (ReSet C) (Clear C)"
| "legacy_row C EVMC_STORAGE_DELETED_RESTORED = store_cost (SetCost C) 0"
| "legacy_row C EVMC_STORAGE_ADDED_DELETED = store_cost (ReSet C) (Clear C)"
| "legacy_row C EVMC_STORAGE_MODIFIED_RESTORED = store_cost (ReSet C) 0"

fun net_row :: "StorageCostSpec \<Rightarrow> evmc_storage_status \<Rightarrow> StorageStoreCost" where
  "net_row C EVMC_STORAGE_ASSIGNED = store_cost (WarmAccess C) 0"
| "net_row C EVMC_STORAGE_ADDED = store_cost (SetCost C) 0"
| "net_row C EVMC_STORAGE_DELETED = store_cost (ReSet C) (Clear C)"
| "net_row C EVMC_STORAGE_MODIFIED = store_cost (ReSet C) 0"
| "net_row C EVMC_STORAGE_DELETED_ADDED =
     store_cost (WarmAccess C) (word_of_int (- sint (Clear C)))"
| "net_row C EVMC_STORAGE_MODIFIED_DELETED = store_cost (WarmAccess C) (Clear C)"
| "net_row C EVMC_STORAGE_DELETED_RESTORED =
     store_cost (WarmAccess C)
       (word_of_int (sint (ReSet C) - sint (WarmAccess C) - sint (Clear C)))"
| "net_row C EVMC_STORAGE_ADDED_DELETED =
     store_cost (WarmAccess C) (word_of_int (sint (SetCost C) - sint (WarmAccess C)))"
| "net_row C EVMC_STORAGE_MODIFIED_RESTORED =
     store_cost (WarmAccess C) (word_of_int (sint (ReSet C) - sint (WarmAccess C)))"

definition SSTORE_COSTS :: "evmc_revision \<Rightarrow> evmc_storage_status \<Rightarrow> StorageStoreCost" where
  "SSTORE_COSTS rv st =
     (let C = STORAGE_COST_SPEC_TABLE rv
      in if \<not> NetCost C then legacy_row C st else net_row C st)"

section \<open>Well-formedness of the schedule\<close>

text \<open>
  The values are small enough that every narrowing cast of the table keeps its value, and the
  refunds of a slot never exceed what was charged for it.
\<close>

definition spec_ok :: "StorageCostSpec \<Rightarrow> bool" where
  "spec_ok C \<longleftrightarrow> 0 < sint (WarmAccess C) \<and> sint (WarmAccess C) \<le> sint (ReSet C) \<and>
     sint (ReSet C) \<le> sint (SetCost C) \<and> sint (SetCost C) \<le> 20000 \<and>
     0 \<le> sint (Clear C) \<and> sint (Clear C) \<le> 15000"

lemma spec_table_ok: "spec_ok (STORAGE_COST_SPEC_TABLE rv)"
  by (cases rv) (simp_all add: spec_ok_def legacy_spec_def london_spec_def)

lemma sint_word_of_int_16: "- 32768 \<le> k \<Longrightarrow> k < 32768 \<Longrightarrow> sint (word_of_int k :: i16) = k"
  by (simp add: int_word_sint mod_pos_pos_trivial)

lemma net_row_cost:
  "sint (GasCost (net_row C st)) =
     (case st of EVMC_STORAGE_ADDED \<Rightarrow> sint (SetCost C)
      | EVMC_STORAGE_DELETED \<Rightarrow> sint (ReSet C)
      | EVMC_STORAGE_MODIFIED \<Rightarrow> sint (ReSet C)
      | _ \<Rightarrow> sint (WarmAccess C))"
  by (cases st) simp_all

lemma net_row_refund:
  assumes "spec_ok C"
  shows "sint (GasReFund (net_row C st)) =
     (case st of EVMC_STORAGE_DELETED \<Rightarrow> sint (Clear C)
      | EVMC_STORAGE_MODIFIED_DELETED \<Rightarrow> sint (Clear C)
      | EVMC_STORAGE_DELETED_ADDED \<Rightarrow> - sint (Clear C)
      | EVMC_STORAGE_DELETED_RESTORED \<Rightarrow> sint (ReSet C) - sint (WarmAccess C) - sint (Clear C)
      | EVMC_STORAGE_ADDED_DELETED \<Rightarrow> sint (SetCost C) - sint (WarmAccess C)
      | EVMC_STORAGE_MODIFIED_RESTORED \<Rightarrow> sint (ReSet C) - sint (WarmAccess C)
      | _ \<Rightarrow> 0)"
  using assms by (cases st) (simp_all add: spec_ok_def sint_word_of_int_16 del: of_int_minus of_int_diff)

section \<open>One storage slot\<close>

text \<open>
  What EVMC documents of the status that \<open>set_storage\<close> reports for a slot whose value was \<open>o\<close>
  at the start of the transaction, is \<open>c\<close> now and becomes \<open>n\<close>; \<open>z\<close> is the zero value.
\<close>

definition status_documented ::
  "'v \<Rightarrow> ('v \<Rightarrow> 'v \<Rightarrow> 'v \<Rightarrow> evmc_storage_status) \<Rightarrow> bool" where
  "status_documented z status \<longleftrightarrow>
     (\<forall>og c. status og c c = EVMC_STORAGE_ASSIGNED) \<and>
     (\<forall>n. n \<noteq> z \<longrightarrow> status z z n = EVMC_STORAGE_ADDED) \<and>
     (\<forall>x. x \<noteq> z \<longrightarrow> status x x z = EVMC_STORAGE_DELETED) \<and>
     (\<forall>x n. x \<noteq> z \<and> n \<noteq> z \<and> x \<noteq> n \<longrightarrow> status x x n = EVMC_STORAGE_MODIFIED) \<and>
     (\<forall>x n. x \<noteq> z \<and> n \<noteq> z \<and> x \<noteq> n \<longrightarrow> status x z n = EVMC_STORAGE_DELETED_ADDED) \<and>
     (\<forall>x y. x \<noteq> z \<and> y \<noteq> z \<and> x \<noteq> y \<longrightarrow> status x y z = EVMC_STORAGE_MODIFIED_DELETED) \<and>
     (\<forall>x. x \<noteq> z \<longrightarrow> status x z x = EVMC_STORAGE_DELETED_RESTORED) \<and>
     (\<forall>y. y \<noteq> z \<longrightarrow> status z y z = EVMC_STORAGE_ADDED_DELETED) \<and>
     (\<forall>x y. x \<noteq> z \<and> y \<noteq> z \<and> x \<noteq> y \<longrightarrow> status x y x = EVMC_STORAGE_MODIFIED_RESTORED) \<and>
     (\<forall>og y n. y \<noteq> z \<and> n \<noteq> z \<and> og \<noteq> y \<and> og \<noteq> n \<and> y \<noteq> n \<longrightarrow>
        status og y n = EVMC_STORAGE_ASSIGNED)"

text \<open>Net charge (cost minus refund) of the writes \<open>ns\<close> to a slot.\<close>

fun slot_charges ::
  "evmc_revision \<Rightarrow> ('v \<Rightarrow> 'v \<Rightarrow> 'v \<Rightarrow> evmc_storage_status) \<Rightarrow> 'v \<Rightarrow> 'v \<Rightarrow> 'v list \<Rightarrow> int" where
  "slot_charges rv status og c [] = 0"
| "slot_charges rv status og c (n # ns) =
     (let e = SSTORE_COSTS rv (status og c n)
      in sint (GasCost e) - sint (GasReFund e) + slot_charges rv status og n ns)"

text \<open>What a net-metered slot with original value \<open>o\<close> owes for holding \<open>c\<close>.\<close>

definition slot_debt :: "'v \<Rightarrow> evmc_revision \<Rightarrow> 'v \<Rightarrow> 'v \<Rightarrow> int" where
  "slot_debt z rv og c =
     (let C = STORAGE_COST_SPEC_TABLE rv
      in if c = og then 0
         else if og = z then sint (SetCost C) - sint (WarmAccess C)
         else if c = z then sint (ReSet C) - sint (WarmAccess C) - sint (Clear C)
         else sint (ReSet C) - sint (WarmAccess C))"

text \<open>The documented status by cases on which of the three values are zero or equal.\<close>

lemma status_documentedD:
  assumes "status_documented z status"
  shows "status og c n =
    (if c = n then EVMC_STORAGE_ASSIGNED
     else if c = og then
       (if og = z then EVMC_STORAGE_ADDED
        else if n = z then EVMC_STORAGE_DELETED else EVMC_STORAGE_MODIFIED)
     else if n = og then
       (if og = z then EVMC_STORAGE_ADDED_DELETED
        else if c = z then EVMC_STORAGE_DELETED_RESTORED else EVMC_STORAGE_MODIFIED_RESTORED)
     else if c = z then EVMC_STORAGE_DELETED_ADDED
     else if n = z then EVMC_STORAGE_MODIFIED_DELETED
     else EVMC_STORAGE_ASSIGNED)"
  using assms unfolding status_documented_def by (auto split: if_splits)

lemma net_charge_step:
  assumes "status_documented z status" and "NetCost (STORAGE_COST_SPEC_TABLE rv)"
  shows "sint (GasCost (SSTORE_COSTS rv (status og c n)))
           - sint (GasReFund (SSTORE_COSTS rv (status og c n)))
         = sint (WarmAccess (STORAGE_COST_SPEC_TABLE rv))
           + slot_debt z rv og n - slot_debt z rv og c"
  using assms(2) spec_table_ok [of rv]
  by (auto simp: SSTORE_COSTS_def slot_debt_def Let_def net_row_cost net_row_refund
      status_documentedD [OF assms(1)])

text \<open>A status function as EVMC documents it, on natural-number values.\<close>

definition nat_status :: "nat \<Rightarrow> nat \<Rightarrow> nat \<Rightarrow> evmc_storage_status" where
  "nat_status og c n =
    (if c = n then EVMC_STORAGE_ASSIGNED
     else if c = og then
       (if og = 0 then EVMC_STORAGE_ADDED
        else if n = 0 then EVMC_STORAGE_DELETED else EVMC_STORAGE_MODIFIED)
     else if n = og then
       (if og = 0 then EVMC_STORAGE_ADDED_DELETED
        else if c = 0 then EVMC_STORAGE_DELETED_RESTORED else EVMC_STORAGE_MODIFIED_RESTORED)
     else if c = 0 then EVMC_STORAGE_DELETED_ADDED
     else if n = 0 then EVMC_STORAGE_MODIFIED_DELETED
     else EVMC_STORAGE_ASSIGNED)"

lemma nat_status_documented: "status_documented 0 nat_status"
  by (auto simp: status_documented_def nat_status_def)

section \<open>Properties\<close>

text \<open>
  C16. Net metering telescopes: whatever values are written to a slot in between, the sum of all
  charges minus all refunds of \<open>SSTORE_COSTS\<close> is one warm access per write plus the difference
  between the debt of the final and of the initial value. A slot that returns to its original
  value has cost nothing but warm accesses.
\<close>

theorem sstore_net_metering_telescopes:
  assumes "status_documented z status" and "NetCost (STORAGE_COST_SPEC_TABLE rv)"
  shows "slot_charges rv status og c ns =
           int (length ns) * sint (WarmAccess (STORAGE_COST_SPEC_TABLE rv))
           + slot_debt z rv og (last (c # ns)) - slot_debt z rv og c"
proof (induction ns arbitrary: c)
  case (Cons n ns)
  from Cons [of n] net_charge_step [OF assms, of og c n] show ?case
    by (cases ns) (simp_all add: Let_def algebra_simps)
qed simp

theorem sstore_net_metering_telescopes_witness:
  "slot_charges EVMC_LONDON nat_status 7 7 [0, 5, 9, 7] = 400"
  using sstore_net_metering_telescopes
          [OF nat_status_documented, of EVMC_LONDON "7" "7" "[0, 5, 9, 7]"]
  by (simp add: slot_debt_def london_spec_def)

text \<open>
  Before net metering the charge of an \<open>SSTORE\<close> depends on the current and the new value
  only: the full price for making a zero slot non-zero, the update price otherwise, and the
  clearing refund exactly when a non-zero slot becomes zero.
\<close>

theorem sstore_legacy_costs:
  assumes "status_documented z status" and "\<not> NetCost (STORAGE_COST_SPEC_TABLE rv)"
  shows "sint (GasCost (SSTORE_COSTS rv (status og c n))) = (if c = z \<and> n \<noteq> z then 20000 else 5000)
       \<and> sint (GasReFund (SSTORE_COSTS rv (status og c n))) = (if c \<noteq> z \<and> n = z then 15000 else 0)"
  using assms(2)
  by (cases rv) (auto simp: SSTORE_COSTS_def Let_def legacy_spec_def london_spec_def
      status_documentedD [OF assms(1)])

theorem sstore_legacy_costs_witness:
  "sint (GasCost (SSTORE_COSTS EVMC_PETERSBURG (nat_status 3 0 3))) = 20000"
  using sstore_legacy_costs [OF nat_status_documented, of EVMC_PETERSBURG "3" "0" "3"]
  by (simp add: legacy_spec_def)

end
