(* ===== verification/Storage_Handlers.thy ===== *)
theory Storage_Handlers
  imports Mem_Handlers Gas_Storage_Cost
begin

text \<open>
  Handlers of \<open>opcode_handlers.cpp\<close> for persistent and transient storage, logs, and the jump handlers.
  The interpreter resolves jumps itself with the jump-destination map; the three jump handlers are
  part of the file but are never dispatched, and their own check looks at the byte alone.
\<close>

section \<open>Storage\<close>

definition doSLoad :: "'h ext \<Rightarrow> 'h hdl" where
  "doSLoad E F C =
     EVM_STACK_CHECK F C 1
       (bindE (frame_pop F) (\<lambda>(Key, F).
        let KeyAddr = x_be_store32 E Key;
            finish = (\<lambda>F C. via_host F
              (push_result (x_be_load E (h_get_storage E (HostState C) (m_recipient (Msg F)) KeyAddr)) F C))
        in if currentRevision C \<ge> EVMC_BERLIN then
             via_host F
               (let (st, h) = h_access_storage E (HostState C) (m_recipient (Msg F)) KeyAddr;
                    C = C\<lparr>HostState := h\<rparr>
                in if st = EVMC_ACCESS_COLD then
                     if sint (gas_of F) < ADDITIONAL_COLD_SLOAD_COST
                     then Inr (F, setStatus EVMC_OUT_OF_GAS C)
                     else finish (set_gas (gas_of F - word_of_int ADDITIONAL_COLD_SLOAD_COST) F) C
                   else finish F C)
           else finish F C))"

definition doSStore :: "'h ext \<Rightarrow> 'h hdl" where
  "doSStore E F C =
     EVM_SET_EXCEPTION_UNLESS (\<not> frame_isStaticMode E F) EVMC_STATIC_MODE_VIOLATION F C
       (let Rv = currentRevision C in
        if Rv \<ge> EVMC_ISTANBUL \<and> sint (gas_of F) \<le> SSTORE_REQUIRED_ISTANBUL
        then Inr (F, setStatus EVMC_OUT_OF_GAS C)
        else
        EVM_STACK_CHECK F C 2
          (bindE (frame_pop F) (\<lambda>(k, F).
           bindE (frame_pop F) (\<lambda>(v, F).
           let Key = x_be_store32 E k; V = x_be_store32 E v in
           via_host F
             (let (cold, h1) =
                    (if Rv \<ge> EVMC_BERLIN
                     then let (st, h) = h_access_storage E (HostState C) (m_recipient (Msg F)) Key
                          in (st = EVMC_ACCESS_COLD, h)
                     else (False, HostState C));
                  GasCostCold = (if cold then COLD_SLOAD_COST else 0);
                  (Stat, h2) = h_set_storage E h1 (m_recipient (Msg F)) Key V;
                  C = C\<lparr>HostState := h2\<rparr>;
                  entry = SSTORE_COSTS Rv Stat;
                  cost = GasCostCold + sint (StorageStoreCost.GasCost entry)
              in charge_or_oog F C (word_of_int cost) (\<lambda>F.
                 Inr (F, C\<lparr>Inst := addGasRefund (scast (GasReFund entry)) (Inst C)\<rparr>)))))))"

definition doTLoad :: "'h ext \<Rightarrow> 'h hdl" where
  "doTLoad E F C =
     EVM_STACK_CHECK F C 1
       (bindE (frame_pop F) (\<lambda>(X, F).
        let Key = x_be_store32 E X in
        via_host F
          (push_result (x_be_load E (h_get_transient E (HostState C) (m_recipient (Msg F)) Key)) F C)))"

definition doTStore :: "'h ext \<Rightarrow> 'h hdl" where
  "doTStore E F C =
     EVM_SET_EXCEPTION_UNLESS (\<not> frame_isStaticMode E F) EVMC_STATIC_MODE_VIOLATION F C
       (EVM_STACK_CHECK F C 2
          (bindE (frame_pop F) (\<lambda>(k, F).
           bindE (frame_pop F) (\<lambda>(v, F).
           let Key = x_be_store32 E k; V = x_be_store32 E v in
           via_host F
             (Inr (F, C\<lparr>HostState := h_set_transient E (HostState C) (m_recipient (Msg F)) Key V\<rparr>))))))"

section \<open>Logs\<close>

text \<open>The loop that fills \<open>evmc::bytes32 Topics[4]\<close>.\<close>

fun pop_topics :: "'h ext \<Rightarrow> nat \<Rightarrow> bytes32 list \<Rightarrow> EVMFrame \<Rightarrow> (bytes32 list \<times> EVMFrame) res" where
  "pop_topics E 0 Topics F = Inr (Topics, F)"
| "pop_topics E (Suc n) Topics F =
     bindE (frame_pop F) (\<lambda>(Topic, F).
     if length Topics < 4 then pop_topics E n (Topics @ [x_be_store32 E Topic]) F else Inl UB)"

definition doLog :: "'h ext \<Rightarrow> u8 \<Rightarrow> 'h hdl" where
  "doLog E OpcodeByte F C =
     (if frame_isStaticMode E F then Inr (F, setStatus EVMC_STATIC_MODE_VIOLATION C)
      else
      let NumTopics = unat (OpcodeByte - OP_LOG0) in
      EVM_STACK_CHECK F C (NumTopics + 2)
        (bindE (frame_pop F) (\<lambda>(OffsetVal, F).
         bindE (frame_pop F) (\<lambda>(SizeVal, F).
         memory_or_oog F C OffsetVal SizeVal (\<lambda>F.
         let Size = ucast SizeVal :: u64;
             Offset = (if Size = 0 then 0 else ucast OffsetVal) :: u64;
             LogDataCost = 8 * Size
         in charge_or_oog F C LogDataCost (\<lambda>F.
            bindE (pop_topics E NumTopics [] F) (\<lambda>(Topics, F).
            via_host F
              (bindE (mem_read (Memory F) (unat Offset) (unat Size)) (\<lambda>bs.
               Inr (F, C\<lparr>HostState :=
                 h_emit_log E (HostState C) (m_recipient (Msg F)) bs Topics\<rparr>))))))))))"

section \<open>Jumps\<close>

definition doJump :: "'h hdl" where
  "doJump F C =
     EVM_STACK_CHECK F C 1
       (bindE (frame_pop F) (\<lambda>(D, F).
        let code = Code (Mod (Inst C)); Dest = unat (uint256ToUint64 D) in
        EVM_SET_EXCEPTION_UNLESS (Dest < length code) EVMC_BAD_JUMP_DESTINATION F C
          (EVM_SET_EXCEPTION_UNLESS (code ! Dest = OP_JUMPDEST) EVMC_BAD_JUMP_DESTINATION F C
            (Inr (F\<lparr>Pc := Dest\<rparr>, C\<lparr>IsJump := True\<rparr>)))))"

definition doJumpI :: "'h hdl" where
  "doJumpI F C =
     EVM_STACK_CHECK F C 2
       (bindE (frame_pop F) (\<lambda>(D, F).
        bindE (frame_pop F) (\<lambda>(Cond, F).
        let code = Code (Mod (Inst C)); Dest = unat (uint256ToUint64 D) in
        if Cond = 0 then Inr (F, C)
        else
        EVM_SET_EXCEPTION_UNLESS (Dest < length code) EVMC_BAD_JUMP_DESTINATION F C
          (EVM_SET_EXCEPTION_UNLESS (code ! Dest = OP_JUMPDEST) EVMC_BAD_JUMP_DESTINATION F C
            (Inr (F\<lparr>Pc := Dest\<rparr>, C\<lparr>IsJump := True\<rparr>))))))"

definition doJumpDest :: "'h hdl" where
  "doJumpDest F C = Inr (F, C)"

section \<open>The contract\<close>

lemma doSLoad_ok: "handler_ok (doSLoad E)"
proof (rule handler_okI)
  fix F and C :: "'a ctx"
  assume "Sp F \<le> 1024" "mem_ok (Memory F)" "HostSet F" "gas_of F < 2 ^ 63" "res_ok C"
  then show "ensures (doSLoad E F C) (\<lambda>(F', C'). frame_step F F' \<and> ctx_step C C')"
    using signed_gas_less [of "gas_of F" 2000]
    by (auto simp: doSLoad_def ensures_simps step_defs split: prod.splits)
qed

lemma doTLoad_ok: "handler_ok (doTLoad E)"
  by (rule handler_okI) (auto simp: doTLoad_def ensures_simps step_defs)

lemma doTStore_ok: "handler_ok (doTStore E)"
  by (rule handler_okI) (auto simp: doTStore_def ensures_simps step_defs)

lemma doJumpDest_ok: "handler_ok doJumpDest"
  by (rule handler_okI) (auto simp: doJumpDest_def ensures_simps step_defs)

lemma doSStore_ok: "handler_ok (doSStore E)"
  by (rule handler_okI)
    (auto simp: doSStore_def ensures_simps step_defs addGasRefund_def split: prod.splits)

lemma good_topics:
  assumes "frame_step F0 F" and "n \<le> Sp F" and "length ts + n \<le> 4"
    and "\<And>us G. frame_step F0 G \<Longrightarrow> Sp G = Sp F - n \<Longrightarrow> Memory G = Memory F \<Longrightarrow> Msg G = Msg F \<Longrightarrow>
      good F0 C0 (k (us, G))"
  shows "good F0 C0 (bindE (pop_topics E n ts F) k)"
  using assms
proof (induction n arbitrary: ts F)
  case (Suc n)
  show ?case unfolding pop_topics.simps
    by (rule good_bind_bind, rule good_pop [OF Suc.prems(1)], use Suc.prems in simp)
      (use Suc.prems in \<open>auto intro!: Suc.IH\<close>)
qed simp

lemma doLog_ok: "unat (op - OP_LOG0) \<le> 4 \<Longrightarrow> handler_ok (doLog E op)"
  unfolding doLog_def
  by (intro handler_ok_goodI good_rules good_topics)
    (assumption | rule ctx_step_status ctx_step_host | (rule keccak_range, assumption) | (simp; fail))+

end
