(* ===== verification/Call_Handlers.thy ===== *)
theory Call_Handlers
  imports Storage_Handlers
begin

text \<open>
  Handlers of \<open>opcode_handlers.cpp\<close> that leave the frame or call other contracts: \<open>CREATE\<close>, \<open>CREATE2\<close>,
  the four call instructions, \<open>RETURN\<close>, \<open>REVERT\<close> and \<open>SELFDESTRUCT\<close>. A sub-call is a call of the
  host; the handler builds the message, forwards gas and accounts for what comes back.
\<close>

section \<open>EIP-7702 delegation\<close>

definition DelegationMagicBytes :: "u8 list" where
  "DelegationMagicBytes = [0xef, 0x01, 0x00]"

text \<open>
  \<open>copy_code\<close> fills the buffer \<open>Designation\<close> of 23 bytes; the continuation gets the address whose code
  is to run.
\<close>

definition resolveDelegatedCallCodeAddress ::
  "'h ext \<Rightarrow> EVMFrame \<Rightarrow> 'h ctx \<Rightarrow> address \<Rightarrow> (EVMFrame \<Rightarrow> 'h ctx \<Rightarrow> address \<Rightarrow> (EVMFrame \<times> 'h ctx) res)
    \<Rightarrow> (EVMFrame \<times> 'h ctx) res" where
  "resolveDelegatedCallCodeAddress E F C Dest k =
     (if currentRevision C < EVMC_PRAGUE then k F C Dest
      else via_host F
        (let Designation = h_copy_code E (HostState C) Dest 0 23; Copied = length Designation in
         if Copied > 23 then Inl UB
         else if Copied < 3 \<or> take 3 Designation \<noteq> DelegationMagicBytes then k F C Dest
         else if Copied \<noteq> 23 then k F C Dest
         else
           let CodeAddress = drop 3 Designation;
               (st, h) = h_access_account E (HostState C) CodeAddress;
               C = C\<lparr>HostState := h\<rparr>;
               DelegateAccessCost = (if st = EVMC_ACCESS_COLD then COLD_ACCOUNT_ACCESS_COST
                                     else word_of_int WARM_STORAGE_READ_COST)
           in charge_or_oog F C DelegateAccessCost (\<lambda>F. k F C CodeAddress)))"

section \<open>Calls\<close>

record call_args =
  cGas :: u256
  cDest :: address
  cValue :: u256
  cInputOffset :: u256
  cInputSize :: u256
  cOutputOffset :: u256
  cOutputSize :: u256

fun CallKind :: "u8 \<Rightarrow> evmc_call_kind res" where
  "CallKind op =
     (if op = OP_CALL then Inr EVMC_CALL
      else if op = OP_CALLCODE then Inr EVMC_CALLCODE
      else if op = OP_DELEGATECALL then Inr EVMC_DELEGATECALL
      else if op = OP_STATICCALL then Inr EVMC_CALL
      else Inl (Throw EVMInvalidInstruction))"

text \<open>The message of the sub-call.\<close>

definition call_message ::
  "'h ext \<Rightarrow> u8 \<Rightarrow> evmc_call_kind \<Rightarrow> call_args \<Rightarrow> address \<Rightarrow> u64 \<Rightarrow> u8 list \<Rightarrow> evmc_message \<Rightarrow> evmc_message" where
  "call_message E op kind A CodeAddress CallGas input M =
     (let flags = (if op = OP_STATICCALL then flag_static E else m_flags M) in
      \<lparr>m_kind = kind,
       m_flags = (if cDest A \<noteq> CodeAddress then flags OR flag_delegated E
                  else flags AND NOT (flag_delegated E)),
       m_depth = m_depth M + 1,
       m_gas = CallGas,
       m_recipient = (if op = OP_CALL \<or> op = OP_STATICCALL then cDest A else m_recipient M),
       m_sender = (if op = OP_DELEGATECALL then m_sender M else m_recipient M),
       m_input = input,
       m_value = (if op = OP_DELEGATECALL then m_value M else x_be_store32 E (cValue A)),
       m_salt = zero_bytes32,
       m_code_address = CodeAddress\<rparr>)"

text \<open>
  The host may run another interpreter on the same thread, which overwrites the thread-local pointers of
  \<open>EVMResource\<close>; after the call they are of no use until \<open>setResource\<close>.
\<close>

definition host_returns :: "'h \<Rightarrow> 'h ctx \<Rightarrow> 'h ctx" where
  "host_returns h C = C\<lparr>HostState := h, CurrentFrame := None, CurrentMetricsTable := None\<rparr>"

lemma setResource_host_returns [simp]: "setResource (host_returns h C) = setResource (C\<lparr>HostState := h\<rparr>)"
  by (simp add: setResource_def host_returns_def getCurFrame_def)

text \<open>From \<open>Host->call\<close> on: the result word, the return data, the output copy and the gas.\<close>

definition call_run ::
  "'h ext \<Rightarrow> u8 \<Rightarrow> evmc_call_kind \<Rightarrow> call_args \<Rightarrow> address \<Rightarrow> u64 \<Rightarrow> 'h hdl" where
  "call_run E op kind A CodeAddress CallGas F C =
     (let InputSize64 = ucast (cInputSize A) :: u64;
          InputOffset64 = (if InputSize64 = 0 then 0 else ucast (cInputOffset A)) :: u64;
          OutputSize64 = ucast (cOutputSize A) :: u64;
          OutputOffset64 = (if OutputSize64 = 0 then 0 else ucast (cOutputOffset A)) :: u64
      in bindE (mem_read (Memory F) (unat InputOffset64) (unat InputSize64)) (\<lambda>input.
         via_host F
           (let NewMsg = call_message E op kind A CodeAddress CallGas input (Msg F);
                (Result, h) = h_call E (HostState C) NewMsg;
                C = setResource (host_returns h C)
            in bindE (if r_status Result = EVMC_SUCCESS
                      then bindE (frame_pop F) (\<lambda>(_, F). frame_push 1 F) else Inr F) (\<lambda>F.
               let C = setReturnData (r_output Result) C;
                   CopySize = min (unat OutputSize64) (length (r_output Result))
               in bindE (if CopySize > 0
                         then write_memory (unat OutputOffset64) (take CopySize (r_output Result)) F
                         else Inr F) (\<lambda>F.
                  let CallGas = (if sint (m_gas NewMsg) > 0 then m_gas NewMsg else 0);
                      GasLeft = (if sint (r_gas_left Result) > 0 then r_gas_left Result else 0);
                      GasUsed = (if CallGas > GasLeft then CallGas - GasLeft else 0)
                  in charge_or_oog F C GasUsed (\<lambda>F.
                     Inr (F, setStatus EVMC_SUCCESS
                               (C\<lparr>Inst := addGasRefund (r_gas_refund Result) (Inst C)\<rparr>))))))))"

text \<open>The depth check, after the stipend and the balance check.\<close>

definition call_depth ::
  "'h ext \<Rightarrow> u8 \<Rightarrow> evmc_call_kind \<Rightarrow> call_args \<Rightarrow> address \<Rightarrow> u64 \<Rightarrow> 'h hdl" where
  "call_depth E op kind A CodeAddress CallGas F C =
     (if sint (m_depth (Msg F)) \<ge> int MAXSTACK then Inr (F, setStatus EVMC_SUCCESS C)
      else call_run E op kind A CodeAddress CallGas F C)"

definition call_value ::
  "'h ext \<Rightarrow> u8 \<Rightarrow> evmc_call_kind \<Rightarrow> bool \<Rightarrow> call_args \<Rightarrow> address \<Rightarrow> u64 \<Rightarrow> 'h hdl" where
  "call_value E op kind HasValueArgs A CodeAddress CallGas F C =
     (if HasValueArgs \<and> cValue A \<noteq> 0 then
        let F = set_gas (gas_of F + CALL_GAS_STIPEND) F; CallGas = CallGas + CALL_GAS_STIPEND in
        via_host F
          (let CallerBalance = x_be_load E (h_get_balance E (HostState C) (m_recipient (Msg F))) in
           if \<not> CallerBalance \<ge> cValue A then Inr (F, setStatus EVMC_SUCCESS C)
           else call_depth E op kind A CodeAddress CallGas F C)
      else call_depth E op kind A CodeAddress CallGas F C)"

text \<open>The gas that is passed on (EIP-150).\<close>

definition call_gas ::
  "'h ext \<Rightarrow> u8 \<Rightarrow> evmc_call_kind \<Rightarrow> bool \<Rightarrow> call_args \<Rightarrow> address \<Rightarrow> 'h hdl" where
  "call_gas E op kind HasValueArgs A CodeAddress F C =
     (let CallGas = uint256ToUint64 (cGas A); GasLeft = gas_of F in
      if currentRevision C \<ge> EVMC_TANGERINE_WHISTLE then
        let GasCap = GasLeft - GasLeft div 64
        in call_value E op kind HasValueArgs A CodeAddress (min CallGas GasCap) F C
      else if CallGas > GasLeft then Inr (F, setStatus EVMC_OUT_OF_GAS C)
      else call_value E op kind HasValueArgs A CodeAddress CallGas F C)"

text \<open>The price of a value transfer and of a new account.\<close>

definition call_charges ::
  "'h ext \<Rightarrow> u8 \<Rightarrow> bool \<Rightarrow> call_args \<Rightarrow> address \<Rightarrow> 'h hdl" where
  "call_charges E op HasValueArgs A CodeAddress F C =
     bindE (CallKind op) (\<lambda>kind.
     if HasValueArgs then
       let HasValue = (cValue A \<noteq> 0);
           GasCost = (if HasValue then CALL_VALUE_COST else 0);
           asks = (kind = EVMC_CALL \<and> (HasValue \<or> currentRevision C < EVMC_SPURIOUS_DRAGON))
       in if asks then
            via_host F
              (let GasCost = (if \<not> h_account_exists E (HostState C) (cDest A)
                              then GasCost + ACCOUNT_CREATION_COST else GasCost)
               in charge_or_oog F C GasCost (\<lambda>F. call_gas E op kind HasValueArgs A CodeAddress F C))
          else charge_or_oog F C GasCost (\<lambda>F. call_gas E op kind HasValueArgs A CodeAddress F C)
     else call_gas E op kind HasValueArgs A CodeAddress F C)"

text \<open>The account access, the delegation, the static-mode check and the two memory ranges.\<close>

definition call_access :: "'h ext \<Rightarrow> u8 \<Rightarrow> bool \<Rightarrow> call_args \<Rightarrow> 'h hdl" where
  "call_access E op HasValueArgs A F C =
     (let rest = (\<lambda>F C.
        resolveDelegatedCallCodeAddress E F C (cDest A) (\<lambda>F C CodeAddress.
        if op = OP_CALL \<and> cValue A \<noteq> 0 \<and> frame_isStaticMode E F
        then Inr (F, setStatus EVMC_STATIC_MODE_VIOLATION C)
        else
        memory_or_oog F C (cInputOffset A) (cInputSize A) (\<lambda>F.
        memory_or_oog F C (cOutputOffset A) (cOutputSize A) (\<lambda>F.
        call_charges E op HasValueArgs A CodeAddress F C))))
      in if currentRevision C \<ge> EVMC_BERLIN then
           via_host F
             (let (st, h) = h_access_account E (HostState C) (cDest A); C = C\<lparr>HostState := h\<rparr> in
              if st = EVMC_ACCESS_COLD
              then charge_or_oog F C ADDITIONAL_COLD_ACCOUNT_ACCESS_COST (\<lambda>F. rest F C)
              else rest F C)
         else rest F C)"

definition call_operands :: "'h ext \<Rightarrow> u8 \<Rightarrow> bool \<Rightarrow> 'h hdl" where
  "call_operands E op HasValueArgs F C =
     bindE (frame_pop F) (\<lambda>(Gas, F).
     bindE (frame_pop F) (\<lambda>(D, F).
     bindE (if HasValueArgs then frame_pop F else Inr (0, F)) (\<lambda>(V, F).
     bindE (frame_pop F) (\<lambda>(InputOffset, F).
     bindE (frame_pop F) (\<lambda>(InputSize, F).
     bindE (frame_pop F) (\<lambda>(OutputOffset, F).
     bindE (frame_pop F) (\<lambda>(OutputSize, F).
     EVM_REQUIRE_STACK_SPACE F C 1
       (bindE (frame_push 0 F) (\<lambda>F.
        call_access E op HasValueArgs
          \<lparr>cGas = Gas, cDest = x_be_trunc_address E D, cValue = V, cInputOffset = InputOffset,
           cInputSize = InputSize, cOutputOffset = OutputOffset, cOutputSize = OutputSize\<rparr>
          F (clearReturnData C))))))))))"

definition doCall :: "'h ext \<Rightarrow> u8 \<Rightarrow> 'h hdl" where
  "doCall E OpCode F C =
     (if OpCode = OP_CALL \<or> OpCode = OP_CALLCODE
      then EVM_STACK_CHECK F C 7 (call_operands E OpCode True F C)
      else if OpCode = OP_DELEGATECALL \<or> OpCode = OP_STATICCALL
      then EVM_STACK_CHECK F C 6 (call_operands E OpCode False F C)
      else Inr (F, setStatus EVMC_INVALID_INSTRUCTION C))"

section \<open>Contract creation\<close>

text \<open>Division of an \<open>int64_t\<close> by 64, towards zero.\<close>

definition div64 :: "i64 \<Rightarrow> i64" where
  "div64 g = word_of_int (if sint g \<ge> 0 then sint g div 64 else - ((- sint g) div 64))"

definition create_message ::
  "'h ext \<Rightarrow> u8 \<Rightarrow> evmc_revision \<Rightarrow> u256 \<Rightarrow> u256 \<Rightarrow> u8 list \<Rightarrow> evmc_message \<Rightarrow> evmc_message" where
  "create_message E op Rv V Salt input M =
     \<lparr>m_kind = (if op = OP_CREATE2 then EVMC_CREATE2 else EVMC_CREATE),
      m_flags = 0,
      m_depth = m_depth M + 1,
      m_gas = (if Rv \<ge> EVMC_TANGERINE_WHISTLE then m_gas M - div64 (m_gas M) else m_gas M),
      m_recipient = zero_address,
      m_sender = m_recipient M,
      m_input = input,
      m_value = x_be_store32 E V,
      m_salt = x_be_store32 E Salt,
      m_code_address = zero_address\<rparr>"

definition create_run :: "'h ext \<Rightarrow> u8 \<Rightarrow> u256 \<Rightarrow> u256 \<Rightarrow> u256 \<Rightarrow> u256 \<Rightarrow> 'h hdl" where
  "create_run E op V CodeOffset CodeSizeVal Salt F C =
     (let CodeSize = ucast CodeSizeVal :: u64;
          CodeOffset64 = (if CodeSize = 0 then 0 else ucast CodeOffset) :: u64
      in bindE (mem_read (Memory F) (unat CodeOffset64) (unat CodeSize)) (\<lambda>input.
         via_host F
           (let NewMsg = create_message E op (currentRevision C) V Salt input (Msg F);
                (Result, h) = h_call E (HostState C) NewMsg;
                C = setResource (host_returns h C);
                CallGas = (if sint (m_gas NewMsg) > 0 then m_gas NewMsg else 0);
                GasLeft = (if sint (r_gas_left Result) > 0 then r_gas_left Result else 0);
                F = (if CallGas > GasLeft
                     then (case chargeGas F (CallGas - GasLeft) of None \<Rightarrow> F | Some F \<Rightarrow> F) else F);
                C = C\<lparr>Inst := addGasRefund (r_gas_refund Result) (Inst C)\<rparr>
            in if r_status Result = EVMC_SUCCESS then
                 bindE (frame_pop F) (\<lambda>(_, F).
                 bindE (frame_push (x_be_load E (r_create_address Result)) F) (\<lambda>F.
                 Inr (F, setStatus EVMC_SUCCESS (setReturnData [] C))))
               else Inr (F, setStatus EVMC_SUCCESS (setReturnData (r_output Result) C)))))"

definition create_checks :: "'h ext \<Rightarrow> u8 \<Rightarrow> u256 \<Rightarrow> u256 \<Rightarrow> u256 \<Rightarrow> u256 \<Rightarrow> 'h hdl" where
  "create_checks E op V CodeOffset CodeSizeVal Salt F C =
     (if frame_isStaticMode E F then Inr (F, setStatus EVMC_STATIC_MODE_VIOLATION C)
      else
      memory_or_oog F C CodeOffset CodeSizeVal (\<lambda>F.
      let Rv = currentRevision C in
      if Rv \<ge> EVMC_SHANGHAI \<and> CodeSizeVal > MAX_SIZE_OF_INITCODE
      then Inr (F, setStatus EVMC_OUT_OF_GAS C)
      else
      let InitCodeWordCost = (if op = OP_CREATE2 then 6 else 0) + (if Rv \<ge> EVMC_SHANGHAI then 2 else 0);
          InitCodeSize = uint256ToUint64 ((CodeSizeVal + 31) div 32)
      in charge_or_oog F C (InitCodeWordCost * InitCodeSize) (\<lambda>F.
         if sint (m_depth (Msg F)) \<ge> int MAXSTACK then Inr (F, setStatus EVMC_SUCCESS C)
         else if V \<noteq> 0 then
           via_host F
             (if x_be_load E (h_get_balance E (HostState C) (m_recipient (Msg F))) < V
              then Inr (F, setStatus EVMC_SUCCESS C)
              else create_run E op V CodeOffset CodeSizeVal Salt F C)
         else create_run E op V CodeOffset CodeSizeVal Salt F C)))"

definition create_operands :: "'h ext \<Rightarrow> u8 \<Rightarrow> 'h hdl" where
  "create_operands E op F C =
     bindE (frame_pop F) (\<lambda>(V, F).
     bindE (frame_pop F) (\<lambda>(CodeOffset, F).
     bindE (frame_pop F) (\<lambda>(CodeSizeVal, F).
     bindE (if op = OP_CREATE2 then frame_pop F else Inr (0, F)) (\<lambda>(Salt, F).
     EVM_REQUIRE_STACK_SPACE F C 1
       (bindE (frame_push 0 F) (\<lambda>F.
        create_checks E op V CodeOffset CodeSizeVal Salt F (clearReturnData C)))))))"

definition doCreate :: "'h ext \<Rightarrow> u8 \<Rightarrow> 'h hdl" where
  "doCreate E OpCode F C =
     (if OpCode = OP_CREATE then EVM_STACK_CHECK F C 3 (create_operands E OpCode F C)
      else if OpCode = OP_CREATE2 then EVM_STACK_CHECK F C 4 (create_operands E OpCode F C)
      else Inr (F, setStatus EVMC_INVALID_INSTRUCTION C))"

section \<open>Leaving a frame\<close>

text \<open>
  The common end of \<open>RETURN\<close>, \<open>REVERT\<close> and \<open>SELFDESTRUCT\<close>: \<open>freeBackFrame\<close> pops the frame, and the
  remaining gas goes to the frame below. The frame object itself stays in the vector.
\<close>

definition leave_frame :: "'h hdl" where
  "leave_frame F C =
     (case CurrentFrame C of
        None \<Rightarrow> Inl UB
      | Some i \<Rightarrow>
          bindE (freeBackFrame (put_frame i F C)) (\<lambda>C.
          case getCurFrame C of
            None \<Rightarrow> Inr (F, C)
          | Some j \<Rightarrow>
              if j < length (FrameStack C)
              then Inr (F, put_frame j (set_gas (gas_of (FrameStack C ! j) + gas_of F) (FrameStack C ! j)) C)
              else Inl UB))"

definition doReturn :: "'h hdl" where
  "doReturn F C =
     EVM_STACK_CHECK F C 2
       (bindE (frame_pop F) (\<lambda>(OffsetVal, F).
        bindE (frame_pop F) (\<lambda>(SizeVal, F).
        memory_or_oog F C OffsetVal SizeVal (\<lambda>F.
        let Size = ucast SizeVal :: u64;
            Offset = (if Size = 0 then 0 else ucast OffsetVal) :: u64
        in bindE (mem_read (Memory F) (unat Offset) (unat Size)) (\<lambda>Data.
           leave_frame F (setStatus EVMC_SUCCESS (setReturnData Data C)))))))"

definition doRevert :: "'h hdl" where
  "doRevert F C =
     EVM_STACK_CHECK F C 2
       (bindE (frame_pop F) (\<lambda>(OffsetVal, F).
        bindE (frame_pop F) (\<lambda>(SizeVal, F).
        memory_or_oog F C OffsetVal SizeVal (\<lambda>F.
        let Size = ucast SizeVal :: u64;
            Offset = (if Size = 0 then 0 else ucast OffsetVal) :: u64
        in bindE (mem_read (Memory F) (unat Offset) (unat Size)) (\<lambda>Data.
           let C = setReturnData Data (setStatus EVMC_REVERT C)
           in leave_frame F (C\<lparr>Inst := setGasRefund (GasRefundSnapshot F) (Inst C)\<rparr>))))))"

definition selfdestruct_run :: "'h ext \<Rightarrow> address \<Rightarrow> 'h hdl" where
  "selfdestruct_run E Beneficiary F C =
     via_host F
       (let (destroyed, h) = h_selfdestruct E (HostState C) (m_recipient (Msg F)) Beneficiary;
            C = C\<lparr>HostState := h\<rparr>;
            C = (if destroyed \<and> currentRevision C < EVMC_LONDON
                 then C\<lparr>Inst := addGasRefund EXTRA_REFUND_BEFORE_LONDON (Inst C)\<rparr> else C)
        in leave_frame F (setReturnData [] (setStatus EVMC_SUCCESS C)))"

definition selfdestruct_account :: "'h ext \<Rightarrow> address \<Rightarrow> 'h hdl" where
  "selfdestruct_account E Beneficiary F C =
     (if currentRevision C \<ge> EVMC_TANGERINE_WHISTLE then
        via_host F
          (if (currentRevision C = EVMC_TANGERINE_WHISTLE \<or>
               list_ex (\<lambda>b. b \<noteq> 0) (h_get_balance E (HostState C) (m_recipient (Msg F)))) \<and>
              \<not> h_account_exists E (HostState C) Beneficiary
           then charge_or_oog F C ACCOUNT_CREATION_COST (\<lambda>F. selfdestruct_run E Beneficiary F C)
           else selfdestruct_run E Beneficiary F C)
      else selfdestruct_run E Beneficiary F C)"

definition doSelfDestruct :: "'h ext \<Rightarrow> 'h hdl" where
  "doSelfDestruct E F C =
     (if frame_isStaticMode E F then Inr (F, setStatus EVMC_STATIC_MODE_VIOLATION C)
      else
      EVM_STACK_CHECK F C 1
        (bindE (frame_pop F) (\<lambda>(BeneficiaryAddr, F).
         let Beneficiary = x_be_trunc_address E BeneficiaryAddr in
         if currentRevision C \<ge> EVMC_BERLIN then
           via_host F
             (let (st, h) = h_access_account E (HostState C) Beneficiary; C = C\<lparr>HostState := h\<rparr> in
              if st = EVMC_ACCESS_COLD
              then charge_or_oog F C COLD_ACCOUNT_ACCESS_COST (\<lambda>F. selfdestruct_account E Beneficiary F C)
              else selfdestruct_account E Beneficiary F C)
         else selfdestruct_account E Beneficiary F C)))"

section \<open>The contract of calls\<close>

lemma ctx_step_setResource [intro]: "res_ok C0 \<Longrightarrow> ctx_step C0 C \<Longrightarrow> ctx_step C0 (setResource C)"
  using ctx_step_res_ok [of C0 C] by (auto simp: ctx_step_def res_ok_def setResource_def getCurFrame_def)

lemma ctx_step_host_returns: "res_ok C0 \<Longrightarrow> ctx_step C0 C \<Longrightarrow> ctx_step C0 (setResource (host_returns h C))"
  unfolding setResource_host_returns by (intro ctx_step_setResource ctx_step_host)

lemma ctx_step_clear [intro]: "ctx_step C0 C \<Longrightarrow> ctx_step C0 (clearReturnData C)"
  by (simp add: ctx_step_def clearReturnData_def clearReturnDataBuffer_def)

lemmas ctx_steps = ctx_step_status ctx_step_host ctx_step_return_data ctx_step_refund
  ctx_step_host_returns ctx_step_setResource ctx_step_clear

lemma good_h_call:
  "(\<And>R h'. length (r_output R) < 2 ^ 64 \<Longrightarrow> good F0 C0 (f R h')) \<Longrightarrow> host_ok E \<Longrightarrow>
     good F0 C0 (let (x, y) = h_call E h m in f x y)"
  by (cases "h_call E h m") (auto simp: host_ok_def, metis fst_conv)

lemma good_h_access:
  "(\<And>st h'. good F0 C0 (f st h')) \<Longrightarrow> good F0 C0 (let (x, y) = h_access_account E h a in f x y)"
  by (cases "h_access_account E h a") auto

lemma good_Let_ctx: "good F0 C0 (f C) \<Longrightarrow> good F0 C0 (Let (C :: 'h ctx) f)"
  by simp

lemma good_bind_pair: "good F0 C0 (bindE (f a b) k) \<Longrightarrow> good F0 C0 (bindE (case (a, b) of (x, y) \<Rightarrow> f x y) k)"
  by simp

lemma output_range:
  assumes "in_memory a n F" and "x = (ucast n :: u64)" and "y = (if x = 0 then 0 else ucast a :: u64)"
    and "length (Memory F) \<le> length (Memory H)" and "l \<le> unat x" and "0 < l"
  shows "unat y + l \<le> length (Memory H)"
proof -
  have "x \<noteq> 0" using assms(5,6) by auto
  then show ?thesis using in_memory_ucast [OF assms(1), of l] assms by simp
qed

lemmas call_rules = good_bind_pair good_Let_ctx good_h_call good_h_access good_basic good_write

text \<open>What holds from the memory checks of a call on.\<close>

definition call_ready :: "EVMFrame \<Rightarrow> 'h ctx \<Rightarrow> 'h ext \<Rightarrow> call_args \<Rightarrow> EVMFrame \<Rightarrow> 'h ctx \<Rightarrow> bool" where
  "call_ready F0 C0 E A F C \<longleftrightarrow> frame_step F0 F \<and> ctx_step C0 C \<and> res_ok C0 \<and> host_ok E \<and> frame_ok F0 \<and>
     in_memory (cInputOffset A) (cInputSize A) F \<and> in_memory (cOutputOffset A) (cOutputSize A) F \<and>
     0 < Sp F \<and> Sp F \<le> 1024"

lemma call_readyD:
  assumes "call_ready F0 C0 E A F C"
  shows "frame_step F0 F" "ctx_step C0 C" "res_ok C0" "host_ok E" "frame_ok F0"
    "in_memory (cInputOffset A) (cInputSize A) F" "in_memory (cOutputOffset A) (cOutputSize A) F"
    "0 < Sp F" "Sp F \<le> 1024"
  using assms by (simp_all add: call_ready_def)

lemma good_call_run:
  assumes "call_ready F0 C0 E A F C"
  shows "good F0 C0 (call_run E op kind A ca g F C)"
  unfolding call_run_def using call_readyD [OF assms]
  by (intro call_rules)
    (assumption | rule ctx_steps | (rule keccak_range, assumption, rule refl)
      | (rule output_range, assumption, assumption, assumption) | (simp; fail))+

lemma call_ready_gas:
  assumes "call_ready F0 C0 E A F C" and "g \<le> gas_of F0"
  shows "call_ready F0 C0 E A (set_gas g F) C"
  using assms by (simp add: call_ready_def frame_step_def in_memory_def)

lemma good_call_depth: "call_ready F0 C0 E A F C \<Longrightarrow> good F0 C0 (call_depth E op kind A ca g F C)"
  unfolding call_depth_def by (intro good_if good_call_run good_ret ctx_steps) (auto dest: call_readyD)

lemma good_call_value:
  assumes "call_ready F0 C0 E A F C"
    and "cValue A \<noteq> 0 \<Longrightarrow> HasValueArgs \<Longrightarrow> unat (gas_of F) + 9000 \<le> unat (gas_of F0)"
  shows "good F0 C0 (call_value E op kind HasValueArgs A ca g F C)"
proof (cases "HasValueArgs \<and> cValue A \<noteq> 0")
  case True
  have "unat (gas_of F) + 2300 < 2 ^ 64" "unat (gas_of F) + 2300 \<le> unat (gas_of F0)"
    using assms(2) True unat_le_max_64 [of "gas_of F0"] by auto
  then have "gas_of F + CALL_GAS_STIPEND \<le> gas_of F0"
    by (simp add: word_le_nat_alt unat_word_ariths)
  then have ready: "call_ready F0 C0 E A (set_gas (gas_of F + CALL_GAS_STIPEND) F) C"
    by (rule call_ready_gas [OF assms(1)])
  show ?thesis unfolding call_value_def Let_def using True ready
    by (auto intro!: good_host good_ret good_call_depth ctx_step_status dest: call_readyD)
next
  case False
  then show ?thesis using assms(1) by (auto simp: call_value_def intro: good_call_depth)
qed

lemma good_call_gas:
  assumes "call_ready F0 C0 E A F C"
    and "cValue A \<noteq> 0 \<Longrightarrow> HasValueArgs \<Longrightarrow> unat (gas_of F) + 9000 \<le> unat (gas_of F0)"
  shows "good F0 C0 (call_gas E op kind HasValueArgs A ca F C)"
  unfolding call_gas_def Let_def using assms
  by (intro good_if good_call_value good_ret ctx_steps) (auto dest: call_readyD)


lemma good_call_charge:
  assumes "call_ready F0 C0 E A F C" and "cValue A \<noteq> 0 \<Longrightarrow> HasValueArgs \<Longrightarrow> 9000 \<le> c"
  shows "good F0 C0 (charge_or_oog F C c (\<lambda>F. call_gas E op kind HasValueArgs A ca F C))"
proof (cases "c \<le> gas_of F")
  case True
  have le: "gas_of F \<le> gas_of F0" using call_readyD(1) [OF assms(1)] by (simp add: frame_step_def)
  have "gas_of F - c \<le> gas_of F0" using True le by (meson order.trans word_sub_le)
  then have ready: "call_ready F0 C0 E A (set_gas (gas_of F - c) F) C"
    by (rule call_ready_gas [OF assms(1)])
  have "good F0 C0 (call_gas E op kind HasValueArgs A ca (set_gas (gas_of F - c) F) C)"
  proof (rule good_call_gas [OF ready])
    assume "cValue A \<noteq> 0" HasValueArgs
    then have "9000 \<le> unat c" using assms(2) by (simp add: word_le_nat_alt)
    then show "unat (gas_of (set_gas (gas_of F - c) F)) + 9000 \<le> unat (gas_of F0)"
      using True le by (simp add: word_le_nat_alt unat_sub)
  qed
  then show ?thesis using True by (auto simp: charge_or_oog_def chargeGas_def)
next
  case False
  then show ?thesis using call_readyD(1,2) [OF assms(1)]
    by (auto simp: charge_or_oog_def chargeGas_def intro!: good_ret)
qed

lemma good_call_charges:
  assumes "call_ready F0 C0 E A F C" and "op \<in> {OP_CALL, OP_CALLCODE, OP_DELEGATECALL, OP_STATICCALL}"
  shows "good F0 C0 (call_charges E op HasValueArgs A ca F C)"
proof -
  obtain kind where kind: "CallKind op = Inr kind" using assms(2) by auto
  have "HostSet F" using call_readyD(1) [OF assms(1)] by (simp add: frame_step_def)
  then show ?thesis
    unfolding call_charges_def kind bindE.simps Let_def via_host_def
    using assms(1) by (auto intro!: good_if good_call_charge intro: good_call_gas)
qed

text \<open>The delegation lookup hands on a frame with the same memory.\<close>

lemma good_resolve:
  assumes "frame_step F0 F" and "ctx_step C0 C" and "host_ok E"
    and "\<And>G D a. frame_step F0 G \<Longrightarrow> ctx_step C0 D \<Longrightarrow> Sp G = Sp F \<Longrightarrow> Memory G = Memory F \<Longrightarrow>
      same_msg F G \<Longrightarrow> good F0 C0 (k G D a)"
  shows "good F0 C0 (resolveDelegatedCallCodeAddress E F C Dest k)"
proof -
  have len: "\<not> 23 < length (h_copy_code E (HostState C) Dest 0 23)"
    using copy_code_le [OF assms(3), of "HostState C" Dest 0 23] by simp
  have same: "same_msg F F" by (simp add: same_msg_def)
  show ?thesis
    unfolding resolveDelegatedCallCodeAddress_def using assms(1,2) len
    by (intro good_if good_host good_Let good_h_access good_Let_ctx good_charge)
      (auto intro!: assms(4) ctx_step_host intro: same)
qed


lemma in_memory_mono: "in_memory a n F \<Longrightarrow> length (Memory F) \<le> length (Memory G) \<Longrightarrow> in_memory a n G"
  by (auto simp: in_memory_def)

lemma good_call_access:
  assumes "frame_step F0 F" and "ctx_step C0 C" and "res_ok C0" and "host_ok E" and "frame_ok F0"
    and "0 < Sp F" and "Sp F \<le> 1024"
    and "op \<in> {OP_CALL, OP_CALLCODE, OP_DELEGATECALL, OP_STATICCALL}"
  shows "good F0 C0 (call_access E op HasValueArgs A F C)"
  unfolding call_access_def Let_def [of "\<lambda>F C. resolveDelegatedCallCodeAddress E F C (cDest A) _"]
  using assms
  by (intro good_if good_host good_h_access good_Let_ctx good_resolve good_charge good_memory
      good_call_charges good_ret)
    (assumption | rule ctx_steps | (simp add: call_ready_def; fail)
      | (auto simp: call_ready_def elim: in_memory_mono; fail))+

lemma good_call_operands:
  assumes "frame_step F0 F" and "ctx_step C0 C" and "res_ok C0" and "host_ok E" and "frame_ok F0"
    and "(if b then 7 else 6) \<le> Sp F" and "Sp F \<le> 1024"
    and "op \<in> {OP_CALL, OP_CALLCODE, OP_DELEGATECALL, OP_STATICCALL}"
  shows "good F0 C0 (call_operands E op b F C)"
  unfolding call_operands_def using assms
  by (intro good_basic good_call_access) (assumption | rule ctx_steps | (simp split: if_splits; fail))+

lemma doCall_ok: "host_ok E \<Longrightarrow> handler_ok (doCall E op)"
  unfolding doCall_def
  by (intro handler_ok_goodI good_basic good_call_operands)
    (assumption | rule ctx_steps | (simp; fail) | (blast; fail))+

section \<open>The contract of contract creation\<close>

lemma good_Let_charged:
  assumes "frame_step F0 F"
    and "\<And>G. frame_step F0 G \<Longrightarrow> Sp G = Sp F \<Longrightarrow> Memory G = Memory F \<Longrightarrow> good F0 C0 (f G)"
  shows "good F0 C0 (Let (if b then (case chargeGas F c of None \<Rightarrow> F | Some G \<Rightarrow> G) else F) f)"
proof -
  have "frame_step F0 (set_gas (gas_of F - c) F)" if "c \<le> gas_of F"
    using assms(1) that by (simp add: frame_step_def)
  then show ?thesis using assms by (auto simp: chargeGas_def Let_def)
qed

lemma good_create_run:
  assumes "frame_step F0 F" and "ctx_step C0 C" and "res_ok C0" and "host_ok E" and "frame_ok F0"
    and "in_memory CodeOffset CodeSizeVal F" and "0 < Sp F" and "Sp F \<le> 1024"
  shows "good F0 C0 (create_run E op V CodeOffset CodeSizeVal Salt F C)"
  unfolding create_run_def using assms
  by (intro good_Let_charged call_rules)
    (assumption | rule ctx_steps | (rule keccak_range, assumption, rule refl) | (simp; fail))+

lemma good_create_checks:
  assumes "frame_step F0 F" and "ctx_step C0 C" and "res_ok C0" and "host_ok E" and "frame_ok F0"
    and "0 < Sp F" and "Sp F \<le> 1024"
  shows "good F0 C0 (create_checks E op V CodeOffset CodeSizeVal Salt F C)"
  unfolding create_checks_def using assms
  by (intro call_rules good_create_run)
    (assumption | rule ctx_steps | (simp; fail) | (auto elim: in_memory_mono; fail))+

lemma good_create_operands:
  assumes "frame_step F0 F" and "ctx_step C0 C" and "res_ok C0" and "host_ok E" and "frame_ok F0"
    and "(if op = OP_CREATE2 then 4 else 3) \<le> Sp F" and "Sp F \<le> 1024"
  shows "good F0 C0 (create_operands E op F C)"
  unfolding create_operands_def using assms
  by (intro good_basic good_create_checks) (assumption | rule ctx_steps | (simp split: if_splits; fail))+

lemma doCreate_ok: "host_ok E \<Longrightarrow> handler_ok (doCreate E op)"
  unfolding doCreate_def
  by (intro handler_ok_goodI good_basic good_create_operands)
    (assumption | rule ctx_steps | (simp; fail))+

section \<open>The contract of the handlers that leave the frame\<close>

text \<open>
  The interpreter runs one frame; sub-calls go through the host. With one frame, \<open>leave_frame\<close> ends the
  run: it stores the remaining gas in the instance and pops the frame.
\<close>

definition single_frame :: "'h ctx \<Rightarrow> bool" where
  "single_frame C \<longleftrightarrow> FrameCount C = 1 \<and> FrameStack C \<noteq> [] \<and> res_ok C"

definition left_run :: "evmc_status_code \<Rightarrow> EVMFrame \<Rightarrow> 'h ctx \<Rightarrow> EVMFrame \<Rightarrow> 'h ctx \<Rightarrow> bool" where
  "left_run st F C F' C' \<longleftrightarrow> FrameCount C' = 0 \<and> Gas (Inst C') = gas_of F' \<and> Status C' = st \<and>
     (st = EVMC_REVERT \<longrightarrow> GasRefund (Inst C') = GasRefundSnapshot F) \<and>
     length (ReturnData C') \<le> 16777216 \<and>
     (Inst C')\<lparr>Gas := 0, GasRefund := 0\<rparr> = (Inst C)\<lparr>Gas := 0, GasRefund := 0\<rparr>"

definition leaves :: "evmc_status_code \<Rightarrow> 'h hdl \<Rightarrow> bool" where
  "leaves st h \<longleftrightarrow> (\<forall>F C. frame_ok F \<longrightarrow> single_frame C \<longrightarrow>
     ensures (h F C) (\<lambda>(F', C'). frame_step F F' \<and>
       (ctx_step C C' \<and> Status C' \<noteq> EVMC_SUCCESS \<or> left_run st F C F' C')))"

lemma single_frameD:
  "single_frame C \<Longrightarrow> CurrentFrame C = Some 0 \<and> FrameCount C = 1 \<and> 0 < length (FrameStack C)"
  by (simp add: single_frame_def res_ok_def getCurFrame_def)

lemma leave_frame_wp:
  assumes "FrameCount C = 1" and "CurrentFrame C = Some 0" and "0 < length (FrameStack C)"
  shows "ensures (leave_frame F C) Q \<longleftrightarrow>
    Q (F, C\<lparr>FrameStack := (FrameStack C)[0 := F], Inst := setGas (gas_of F) (Inst C), FrameCount := 0\<rparr>)"
  using assms by (simp add: leave_frame_def freeBackFrame_def put_frame_def getCurFrame_def)

lemma range_ok:
  assumes "can_grow F (unat a + unat n)" and "n \<noteq> 0"
  shows "unat (ucast (a :: u256) :: u64) + unat (ucast (n :: u256) :: u64) \<le> length (Memory (grow_mem F (unat a + unat n)))"
    and "unat (ucast n :: u64) \<le> 16777216"
  using assms by (auto simp: ucast_small can_grow_def)

lemma leavesI:
  "(\<And>F C. Sp F \<le> 1024 \<Longrightarrow> mem_ok (Memory F) \<Longrightarrow> HostSet F \<Longrightarrow> gas_of F < 2 ^ 63 \<Longrightarrow>
     FrameCount C = 1 \<Longrightarrow> CurrentFrame C = Some 0 \<Longrightarrow> 0 < length (FrameStack C) \<Longrightarrow>
     ensures (h F C) (\<lambda>(F', C'). frame_step F F' \<and>
       (ctx_step C C' \<and> Status C' \<noteq> EVMC_SUCCESS \<or> left_run st F C F' C'))) \<Longrightarrow> leaves st h"
  unfolding leaves_def by (auto simp: frame_ok_def dest!: single_frameD)

lemma doReturn_leaves: "leaves EVMC_SUCCESS doReturn"
  by (rule leavesI)
    (auto simp: doReturn_def ensures_simps leave_frame_wp step_defs left_run_def setGas_def range_ok
      intro!: min.coboundedI2 range_ok(2))

lemma doRevert_leaves: "leaves EVMC_REVERT doRevert"
  by (rule leavesI)
    (auto simp: doRevert_def ensures_simps leave_frame_wp step_defs left_run_def setGas_def setGasRefund_def range_ok
      intro!: min.coboundedI2 range_ok(2))

lemma two_charges: "2600 \<le> g \<Longrightarrow> 25000 \<le> g - 2600 \<Longrightarrow> g - 27600 \<le> (g :: i64)"
  using word_sub_le [of 27600 g] by (simp add: word_le_nat_alt unat_sub)

lemma doSelfDestruct_leaves: "leaves EVMC_SUCCESS (doSelfDestruct E)"
  by (rule leavesI)
    (auto simp: doSelfDestruct_def selfdestruct_account_def selfdestruct_run_def ensures_simps leave_frame_wp
      step_defs left_run_def setGas_def addGasRefund_def two_charges split: prod.splits)

end
