(* ===== verification/Alu_Handlers.thy ===== *)
theory Alu_Handlers
  imports Handlers_Base
begin

text \<open>
  Arithmetic, comparison and bit handlers: the unary, binary and ternary handler templates with the
  operations \<open>opcode_handlers.h\<close> instantiates them with, and \<open>SignExtend\<close>, \<open>Byte\<close>, \<open>Sar\<close> and \<open>Exp\<close>
  of \<open>opcode_handlers.cpp\<close>. The operators of \<open>intx::uint256\<close> are those of 256-bit words; its named
  functions are fields of \<open>ext\<close>.
\<close>

section \<open>Operations\<close>

definition AddOP :: "u256 \<Rightarrow> u256 \<Rightarrow> u256" where "AddOP A B = A + B"
definition SubOP :: "u256 \<Rightarrow> u256 \<Rightarrow> u256" where "SubOP A B = A - B"
definition MulOP :: "u256 \<Rightarrow> u256 \<Rightarrow> u256" where "MulOP A B = A * B"
definition DivOP :: "u256 \<Rightarrow> u256 \<Rightarrow> u256" where "DivOP A B = (if B = 0 then 0 else A div B)"
definition ModOP :: "u256 \<Rightarrow> u256 \<Rightarrow> u256" where "ModOP A B = (if B = 0 then 0 else A mod B)"

definition SDivOP :: "'h ext \<Rightarrow> u256 \<Rightarrow> u256 \<Rightarrow> u256" where
  "SDivOP E A B = (if B = 0 then 0 else x_sdiv E A B)"

definition SModOP :: "'h ext \<Rightarrow> u256 \<Rightarrow> u256 \<Rightarrow> u256" where
  "SModOP E A B = (if B = 0 then 0 else x_srem E A B)"

definition AddmodOP :: "'h ext \<Rightarrow> u256 \<Rightarrow> u256 \<Rightarrow> u256 \<Rightarrow> u256" where
  "AddmodOP E A B C = (if C = 0 then 0 else x_addmod E A B C)"

definition MulmodOP :: "'h ext \<Rightarrow> u256 \<Rightarrow> u256 \<Rightarrow> u256 \<Rightarrow> u256" where
  "MulmodOP E A B C = (if C = 0 then 0 else x_mulmod E A B C)"

definition NotOP :: "u256 \<Rightarrow> u256" where "NotOP A = NOT A"
definition IsZeroOP :: "u256 \<Rightarrow> u256" where "IsZeroOP A = of_bool (A = 0)"
definition ClzOP :: "'h ext \<Rightarrow> u256 \<Rightarrow> u256" where "ClzOP E A = x_clz E A"

definition AndOP :: "u256 \<Rightarrow> u256 \<Rightarrow> u256" where "AndOP A B = A AND B"
definition OrOP :: "u256 \<Rightarrow> u256 \<Rightarrow> u256" where "OrOP A B = A OR B"
definition XorOP :: "u256 \<Rightarrow> u256 \<Rightarrow> u256" where "XorOP A B = A XOR B"

definition ShlOP :: "u256 \<Rightarrow> u256 \<Rightarrow> u256" where
  "ShlOP A B = (if A < 256 then push_bit (unat A) B else 0)"

definition ShrOP :: "u256 \<Rightarrow> u256 \<Rightarrow> u256" where
  "ShrOP A B = (if A < 256 then drop_bit (unat A) B else 0)"

definition EqOP :: "u256 \<Rightarrow> u256 \<Rightarrow> u256" where "EqOP A B = of_bool (A = B)"
definition LtOP :: "u256 \<Rightarrow> u256 \<Rightarrow> u256" where "LtOP A B = of_bool (A < B)"
definition GtOP :: "u256 \<Rightarrow> u256 \<Rightarrow> u256" where "GtOP A B = of_bool (A > B)"
definition SltOP :: "'h ext \<Rightarrow> u256 \<Rightarrow> u256 \<Rightarrow> u256" where "SltOP E A B = of_bool (x_slt E A B)"
definition SgtOP :: "'h ext \<Rightarrow> u256 \<Rightarrow> u256 \<Rightarrow> u256" where "SgtOP E A B = of_bool (x_slt E B A)"

section \<open>Handlers\<close>

definition UnaryOpHandler :: "(u256 \<Rightarrow> u256) \<Rightarrow> 'h hdl" where
  "UnaryOpHandler UnaryOp F C =
     EVM_STACK_CHECK F C 1
       (bindE (stack_get 1 F) (\<lambda>A.
        bindE (stack_set 1 (UnaryOp A) F) (\<lambda>F. Inr (F, C))))"

definition BinaryOpHandler :: "(u256 \<Rightarrow> u256 \<Rightarrow> u256) \<Rightarrow> 'h hdl" where
  "BinaryOpHandler BinaryOp F C =
     EVM_STACK_CHECK F C 2
       (bindE (stack_get 1 F) (\<lambda>A.
        bindE (stack_get 2 F) (\<lambda>B.
        bindE (stack_set 2 (BinaryOp A B) F) (\<lambda>F.
        Inr (F\<lparr>Sp := Sp F - 1\<rparr>, C)))))"

definition TernaryOpHandler :: "(u256 \<Rightarrow> u256 \<Rightarrow> u256 \<Rightarrow> u256) \<Rightarrow> 'h hdl" where
  "TernaryOpHandler TernaryOp F C =
     EVM_STACK_CHECK F C 3
       (bindE (stack_get 1 F) (\<lambda>A.
        bindE (stack_get 2 F) (\<lambda>B.
        bindE (stack_get 3 F) (\<lambda>D.
        bindE (stack_set 3 (TernaryOp A B D) F) (\<lambda>F.
        Inr (F\<lparr>Sp := Sp F - 2\<rparr>, C))))))"

text \<open>Two operands are popped and the result \<open>f I V\<close> is pushed.\<close>

definition pop2_push :: "(u256 \<Rightarrow> u256 \<Rightarrow> u256) \<Rightarrow> 'h hdl" where
  "pop2_push f F C =
     EVM_STACK_CHECK F C 2
       (bindE (frame_pop F) (\<lambda>(I, F).
        bindE (frame_pop F) (\<lambda>(V, F).
        bindE (frame_push (f I V) F) (\<lambda>F. Inr (F, C)))))"

definition SignExtend_result :: "u256 \<Rightarrow> u256 \<Rightarrow> u256" where
  "SignExtend_result I V =
     (if I < 31 then
        let SignBitPosition = 8 * I + 7;
            SignBit = (V AND push_bit (unat SignBitPosition) 1 \<noteq> 0);
            Mask = push_bit (unat SignBitPosition) 1 - 1
        in if SignBit then V OR NOT Mask else V AND Mask
      else V)"

definition Byte_result :: "u256 \<Rightarrow> u256 \<Rightarrow> u256" where
  "Byte_result I Val =
     (if I < 32 then
        let ByteVal = ucast (drop_bit (unat (8 * (31 - I))) Val AND 0xFF) :: u8
        in ucast ByteVal
      else 0)"

definition Sar_result :: "u256 \<Rightarrow> u256 \<Rightarrow> u256" where
  "Sar_result Shift V =
     (if Shift < 256 then
        let IsNegative = drop_bit 255 V AND 1;
            Res = drop_bit (unat Shift) V
        in if IsNegative \<noteq> 0 \<and> Shift > 0 then
             let Mask = push_bit (unat (256 - Shift)) 1 - 1 in Res OR NOT Mask
           else Res
      else
        let IsNegative = drop_bit 255 V AND 1
        in if IsNegative \<noteq> 0 then NOT 0 else 0)"

definition doSignExtend :: "'h hdl" where "doSignExtend = pop2_push SignExtend_result"
definition doByte :: "'h hdl" where "doByte = pop2_push Byte_result"
definition doSar :: "'h hdl" where "doSar = pop2_push Sar_result"

definition doExp :: "'h ext \<Rightarrow> 'h hdl" where
  "doExp E F C =
     EVM_STACK_CHECK F C 2
       (bindE (stack_get 1 F) (\<lambda>A.
        bindE (stack_get 2 F) (\<lambda>B.
        let BytesNum = x_count_significant_bytes E B;
            ByteGas = (if currentRevision C < EVMC_SPURIOUS_DRAGON
                       then EXP_BYTE_GAS_PRE_SPURIOUS_DRAGON else EXP_BYTE_GAS)
        in charge_or_oog F C (BytesNum * ByteGas) (\<lambda>F.
           bindE (stack_set 2 (x_exp E A B) F) (\<lambda>F.
           Inr (F\<lparr>Sp := Sp F - 1\<rparr>, C))))))"

section \<open>The contract\<close>

lemma UnaryOpHandler_ok: "handler_ok (UnaryOpHandler f)"
  by (rule handler_okI) (auto simp: UnaryOpHandler_def ensures_simps step_defs)

lemma BinaryOpHandler_ok: "handler_ok (BinaryOpHandler f)"
  by (rule handler_okI) (auto simp: BinaryOpHandler_def ensures_simps step_defs)

lemma TernaryOpHandler_ok: "handler_ok (TernaryOpHandler f)"
  by (rule handler_okI) (auto simp: TernaryOpHandler_def ensures_simps step_defs)

lemma pop2_push_ok: "handler_ok (pop2_push f)"
  by (rule handler_okI) (auto simp: pop2_push_def ensures_simps step_defs)

lemma doExp_ok: "handler_ok (doExp E)"
  by (rule handler_okI) (auto simp: doExp_def ensures_simps step_defs)

lemmas alu_ok = UnaryOpHandler_ok BinaryOpHandler_ok TernaryOpHandler_ok doExp_ok
  pop2_push_ok [of SignExtend_result, folded doSignExtend_def]
  pop2_push_ok [of Byte_result, folded doByte_def] pop2_push_ok [of Sar_result, folded doSar_def]

section \<open>Functional behaviour\<close>

lemma less_256_unat: "(x :: u256) < 256 \<longleftrightarrow> unat x < 256"
  by (simp add: word_less_nat_alt)

lemma bit_mask_256: "bit (2 ^ k - 1 :: u256) n \<longleftrightarrow> n < k \<and> n < 256"
  by (simp add: mask_eq_exp_minus_1 [symmetric] bit_mask_iff conj_commute)

lemma bit_255: "bit (255 :: int) n \<longleftrightarrow> n < 8"
proof -
  have "(255 :: int) = mask 8" by (simp add: mask_eq_exp_minus_1)
  then show ?thesis by (simp only: bit_mask_iff possible_bit_int) simp
qed

lemma top_bit_256: "drop_bit 255 (V :: u256) AND 1 \<noteq> 0 \<longleftrightarrow> bit V 255"
  by (simp add: and_one_eq odd_iff_mod_2_eq_one [symmetric] bit_0 [symmetric] bit_drop_bit_eq)

lemma Sar_result_signed: "Sar_result Shift V = signed_drop_bit (unat Shift) V"
proof (rule bit_word_eqI)
  fix n
  assume n: "n < LENGTH(256)"
  have shift: "unat (256 - Shift) = 256 - unat Shift" if "unat Shift < 256"
    using that by (simp add: unat_sub word_le_nat_alt)
  show "bit (Sar_result Shift V) n \<longleftrightarrow> bit (signed_drop_bit (unat Shift) V) n"
    using n by (auto simp: Sar_result_def Let_def less_256_unat top_bit_256 bit_signed_drop_bit_iff
        bit_or_iff bit_not_iff bit_drop_bit_eq bit_mask_256 shift
        word_less_nat_alt [of 0 Shift] dest: bit_imp_le_length)
qed

lemma SignExtend_result_signed:
  "SignExtend_result I V = (if unat I < 31 then signed_take_bit (8 * unat I + 7) V else V)"
proof (cases "unat I < 31")
  case True
  have pos: "unat (8 * I + 7) = 8 * unat I + 7" using True by (simp add: unat_word_ariths)
  have I: "I < 31" using True by (simp add: word_less_nat_alt)
  have sign: "(V AND 2 ^ k \<noteq> 0) \<longleftrightarrow> bit V k" for k
    by (simp add: bit_iff_and_push_bit_not_eq_0)
  have "SignExtend_result I V = signed_take_bit (8 * unat I + 7) V"
  proof (rule bit_word_eqI)
    fix n
    assume "n < LENGTH(256)"
    then show "bit (SignExtend_result I V) n \<longleftrightarrow> bit (signed_take_bit (8 * unat I + 7) V) n"
      using True I by (auto simp: SignExtend_result_def Let_def pos sign bit_or_iff bit_and_iff
          bit_not_iff bit_mask_256 bit_signed_take_bit_iff min_def not_less
          le_less_Suc_eq dest: le_antisym)
  qed
  then show ?thesis using True by simp
next
  case False
  then show ?thesis by (simp add: SignExtend_result_def word_less_nat_alt)
qed

lemma Byte_result_nth:
  "Byte_result I V = (if unat I < 32 then ucast (be_bytes 32 (unat V) ! unat I) else 0)"
proof (cases "unat I < 32")
  case True
  have "unat (8 * I) = 8 * unat I" using True by (simp add: unat_word_ariths)
  then have pos: "unat (248 - 8 * I) = 8 * (31 - unat I)"
    using True by (simp add: unat_sub word_le_nat_alt)
  have "(256 :: nat) ^ k = 2 ^ (8 * k)" for k by (simp add: power_mult)
  then have "be_bytes 32 (unat V) ! unat I = of_nat (unat V div 2 ^ (8 * (31 - unat I)))"
    using be_bytes_nth [OF True, of "unat V"] by simp
  also have "\<dots> = ucast (drop_bit (8 * (31 - unat I)) V)"
    by (simp only: unat_drop_bit_256 [symmetric] of_nat_unat)
  also have "\<dots> = ucast (drop_bit (8 * (31 - unat I)) V AND 0xFF)"
    by (rule bit_word_eqI) (simp add: bit_ucast_iff bit_and_iff bit_255 bit_drop_bit_eq)
  finally show ?thesis
    using True by (simp add: Byte_result_def word_less_nat_alt Let_def pos)
next
  case False
  then show ?thesis by (simp add: Byte_result_def word_less_nat_alt)
qed

lemma Sar_result_div: "Sar_result S V = word_of_int (sint V div 2 ^ unat S)"
proof -
  have "sint (Sar_result S V) = sint V div 2 ^ unat S"
    by (simp add: Sar_result_signed sint_signed_drop_bit_eq drop_bit_eq_div)
  then have "word_of_int (sint (Sar_result S V)) = (word_of_int (sint V div 2 ^ unat S) :: u256)"
    by simp
  then show ?thesis by simp
qed

lemma pop2_push_eq:
  assumes "2 \<le> Sp F" and "Sp F \<le> 1024"
  shows "pop2_push f F C = Inr (F\<lparr>Stack := (Stack F)(Sp F - 2 :=
           f (Stack F (Sp F - 1)) (Stack F (Sp F - 2))), Sp := Sp F - 1\<rparr>, C)"
  using assms by (simp add: pop2_push_def EVM_STACK_CHECK_def frame_pop_def frame_push_def numeral_2_eq_2)
    (auto simp: Suc_diff_Suc)

section \<open>Properties\<close>

text \<open>
  C40. On a stack with \<open>A\<close> on top of \<open>V\<close>, \<open>SAR\<close> replaces both by the signed value of \<open>V\<close> divided by
  \<open>2 ^ A\<close> rounding down (for every shift, also beyond 255), \<open>SIGNEXTEND\<close> by \<open>V\<close> with every bit
  above bit \<open>8 A + 7\<close> a copy of that bit, and \<open>BYTE\<close> by the \<open>A\<close>-th byte of the big-endian
  representation of \<open>V\<close>, or zero beyond the 32nd.
\<close>

theorem shift_extend_byte_semantics:
  assumes "2 \<le> Sp F" and "Sp F \<le> 1024"
    and "A = Stack F (Sp F - 1)" and "V = Stack F (Sp F - 2)"
  shows "doSar F C = Inr (F\<lparr>Stack := (Stack F)(Sp F - 2 := word_of_int (sint V div 2 ^ unat A)),
           Sp := Sp F - 1\<rparr>, C)
    \<and> doSignExtend F C = Inr (F\<lparr>Stack := (Stack F)(Sp F - 2 :=
           (if unat A < 31 then signed_take_bit (8 * unat A + 7) V else V)), Sp := Sp F - 1\<rparr>, C)
    \<and> doByte F C = Inr (F\<lparr>Stack := (Stack F)(Sp F - 2 :=
           (if unat A < 32 then ucast (be_bytes 32 (unat V) ! unat A) else 0)), Sp := Sp F - 1\<rparr>, C)"
  using assms by (simp add: doSar_def doSignExtend_def doByte_def pop2_push_eq Sar_result_div
      SignExtend_result_signed Byte_result_nth)

theorem shift_extend_byte_semantics_witness:
  "doSar ((demo_frame 0)\<lparr>Stack := (\<lambda>_. 0)(1 := 1, 0 := - 5), Sp := 2\<rparr>) demo_ctx =
     Inr ((demo_frame 0)\<lparr>Stack := (\<lambda>_. 0)(1 := 1, 0 := - 3), Sp := 1\<rparr>, demo_ctx)"
  using shift_extend_byte_semantics
    [of "(demo_frame 0)\<lparr>Stack := (\<lambda>_. 0)(1 := 1, 0 := - 5), Sp := 2\<rparr>" 1 "- 5" demo_ctx]
  by simp

lemma signed_division_identity:
  assumes "intx_ok E"
  shows "SDivOP E A B * B + SModOP E A B = (if B = 0 then 0 else A)"
proof (cases "B = 0")
  case True
  then show ?thesis by (simp add: SDivOP_def SModOP_def)
next
  case False
  let ?a = "sint A" and ?b = "sint B"
  have q: "x_sdiv E A B = word_of_int (sgn ?a * sgn ?b * (\<bar>?a\<bar> div \<bar>?b\<bar>))"
    and r: "x_srem E A B = word_of_int (sgn ?a * (\<bar>?a\<bar> mod \<bar>?b\<bar>))"
    using assms False by (auto simp: intx_ok_def)
  have "sgn ?a * sgn ?b * (\<bar>?a\<bar> div \<bar>?b\<bar>) * ?b + sgn ?a * (\<bar>?a\<bar> mod \<bar>?b\<bar>)
      = sgn ?a * ((\<bar>?a\<bar> div \<bar>?b\<bar>) * \<bar>?b\<bar> + \<bar>?a\<bar> mod \<bar>?b\<bar>)"
    by (simp add: algebra_simps abs_sgn)
  also have "\<dots> = ?a" by (simp add: sgn_mult_abs)
  finally have "word_of_int (sgn ?a * sgn ?b * (\<bar>?a\<bar> div \<bar>?b\<bar>)) * word_of_int ?b
      + word_of_int (sgn ?a * (\<bar>?a\<bar> mod \<bar>?b\<bar>)) = (word_of_int ?a :: u256)"
    by (simp only: wi_hom_mult wi_hom_add)
  then show ?thesis using False by (simp add: SDivOP_def SModOP_def q r)
qed

end
