(* ===== verification/Interp_Steps.thy ===== *)
theory Interp_Steps
  imports Call_Handlers Alu_Handlers
begin

text \<open>
  The pieces of \<open>BaseInterpreter::interpret\<close> (\<open>src/evm/interpreter.cpp\<close>): the stack opcode helpers, the
  treatment of an error status, and the opcode targets of the two fast paths. The main loop is in
  \<open>Interpreter\<close>.

  \<open>Frame\<close> is the index of the frame in \<open>FrameStack\<close>. The computed-goto path keeps \<open>Pc\<close> and \<open>sp\<close> in
  local variables and writes them back at its exits and before it calls a handler; its targets
  therefore get the frame, \<open>Pc\<close> and \<open>sp\<close> as separate arguments.
\<close>

section \<open>The environment of a run\<close>

text \<open>The locals that \<open>interpret\<close> sets up once: the code, the cache vectors and the revision.\<close>

record interp_env =
  ICode :: "u8 list"
  ICache :: EVMBytecodeCache
  IRev :: evmc_revision

text \<open>\<open>Frame->Stack[i]\<close>.\<close>

definition stack_at :: "EVMFrame \<Rightarrow> nat \<Rightarrow> u256 res" where
  "stack_at F i = (if i < MAXSTACK then Inr (Stack F i) else Inl UB)"

definition stack_put :: "nat \<Rightarrow> u256 \<Rightarrow> EVMFrame \<Rightarrow> EVMFrame res" where
  "stack_put i v F = (if i < MAXSTACK then Inr (F\<lparr>Stack := (Stack F)(i := v)\<rparr>) else Inl UB)"

lemma stack_at_ok [ensures_simps]: "ensures (stack_at F i) Q \<longleftrightarrow> i < 1024 \<and> Q (Stack F i)"
  by (simp add: stack_at_def)

lemma stack_put_ok [ensures_simps]:
  "ensures (stack_put i v F) Q \<longleftrightarrow> i < 1024 \<and> Q (F\<lparr>Stack := (Stack F)(i := v)\<rparr>)"
  by (simp add: stack_put_def)

section \<open>Stack opcode helpers\<close>

text \<open>\<open>chargeGas\<close> of \<open>interpreter.cpp\<close>: on success the continuation runs with the charged frame.\<close>

definition interp_chargeGas ::
  "'h ext \<Rightarrow> evmc_revision \<Rightarrow> u8 \<Rightarrow> EVMFrame \<Rightarrow> 'h ctx \<Rightarrow> (EVMFrame \<Rightarrow> (EVMFrame \<times> 'h ctx) res)
    \<Rightarrow> (EVMFrame \<times> 'h ctx) res" where
  "interp_chargeGas E rv op F C k =
     (if gas_of F < gas_cost E rv op then Inr (F, setStatus EVMC_OUT_OF_GAS C)
      else k (set_gas (gas_of F - gas_cost E rv op) F))"

definition executePush0OpcodeNoGas :: "'h hdl" where
  "executePush0OpcodeNoGas F C =
     (if Sp F \<ge> MAXSTACK then Inr (F, setStatus EVMC_STACK_OVERFLOW C)
      else bindE (stack_put (Sp F) 0 F) (\<lambda>F. Inr (F\<lparr>Sp := Sp F + 1\<rparr>, C)))"

definition executePush0Opcode :: "'h ext \<Rightarrow> evmc_revision \<Rightarrow> u8 \<Rightarrow> 'h hdl" where
  "executePush0Opcode E rv op F C =
     interp_chargeGas E rv op F C (\<lambda>F.
     if Sp F \<ge> MAXSTACK then Inr (F, setStatus EVMC_STACK_OVERFLOW C)
     else bindE (stack_put (Sp F) 0 F) (\<lambda>F. Inr (F\<lparr>Sp := Sp F + 1\<rparr>, C)))"

definition executePushNOpcodeNoGas :: "u256 list \<Rightarrow> u8 \<Rightarrow> 'h hdl" where
  "executePushNOpcodeNoGas PVM op F C =
     (if Sp F \<ge> MAXSTACK then Inr (F, setStatus EVMC_STACK_OVERFLOW C)
      else bindE (vec_at PVM (Pc F)) (\<lambda>v.
           bindE (stack_put (Sp F) v F) (\<lambda>F.
           let NumBytes = op - OP_PUSH1 + 1
           in Inr (F\<lparr>Sp := Sp F + 1, Pc := Pc F + unat NumBytes\<rparr>, C))))"

definition executePushNOpcode :: "'h ext \<Rightarrow> evmc_revision \<Rightarrow> u256 list \<Rightarrow> u8 \<Rightarrow> 'h hdl" where
  "executePushNOpcode E rv PVM op F C =
     interp_chargeGas E rv op F C (\<lambda>F.
     if Sp F \<ge> MAXSTACK then Inr (F, setStatus EVMC_STACK_OVERFLOW C)
     else bindE (vec_at PVM (Pc F)) (\<lambda>v.
          bindE (stack_put (Sp F) v F) (\<lambda>F.
          let NumBytes = op - OP_PUSH1 + 1
          in Inr (F\<lparr>Sp := Sp F + 1, Pc := Pc F + unat NumBytes\<rparr>, C))))"

definition executePopOpcodeNoGas :: "'h hdl" where
  "executePopOpcodeNoGas F C =
     (if Sp F < 1 then Inr (F, setStatus EVMC_STACK_UNDERFLOW C) else Inr (F\<lparr>Sp := Sp F - 1\<rparr>, C))"

definition executePopOpcode :: "'h ext \<Rightarrow> evmc_revision \<Rightarrow> u8 \<Rightarrow> 'h hdl" where
  "executePopOpcode E rv op F C =
     interp_chargeGas E rv op F C (\<lambda>F.
     if Sp F < 1 then Inr (F, setStatus EVMC_STACK_UNDERFLOW C) else Inr (F\<lparr>Sp := Sp F - 1\<rparr>, C))"

definition executeDupOpcodeNoGas :: "u8 \<Rightarrow> 'h hdl" where
  "executeDupOpcodeNoGas op F C =
     (let N = unat (op - OP_DUP1 + 1) in
      if Sp F < N then Inr (F, setStatus EVMC_STACK_UNDERFLOW C)
      else if Sp F \<ge> MAXSTACK then Inr (F, setStatus EVMC_STACK_OVERFLOW C)
      else bindE (stack_at F (Sp F - N)) (\<lambda>v.
           bindE (stack_put (Sp F) v F) (\<lambda>F. Inr (F\<lparr>Sp := Sp F + 1\<rparr>, C))))"

definition executeDupOpcode :: "'h ext \<Rightarrow> evmc_revision \<Rightarrow> u8 \<Rightarrow> 'h hdl" where
  "executeDupOpcode E rv op F C =
     interp_chargeGas E rv op F C (\<lambda>F.
     let N = unat (op - OP_DUP1 + 1) in
     if Sp F < N then Inr (F, setStatus EVMC_STACK_UNDERFLOW C)
     else if Sp F \<ge> MAXSTACK then Inr (F, setStatus EVMC_STACK_OVERFLOW C)
     else bindE (stack_at F (Sp F - N)) (\<lambda>v.
          bindE (stack_put (Sp F) v F) (\<lambda>F. Inr (F\<lparr>Sp := Sp F + 1\<rparr>, C))))"

definition executeSwapOpcodeNoGas :: "u8 \<Rightarrow> 'h hdl" where
  "executeSwapOpcodeNoGas op F C =
     (let N = unat (op - OP_SWAP1 + 1) in
      if Sp F < N + 1 then Inr (F, setStatus EVMC_STACK_UNDERFLOW C)
      else
        let TopIndex = Sp F - 1; NthIndex = Sp F - 1 - N in
        bindE (stack_at F TopIndex) (\<lambda>Tmp.
        bindE (stack_at F NthIndex) (\<lambda>Nth.
        bindE (stack_put TopIndex Nth F) (\<lambda>F.
        bindE (stack_put NthIndex Tmp F) (\<lambda>F. Inr (F, C))))))"

definition executeSwapOpcode :: "'h ext \<Rightarrow> evmc_revision \<Rightarrow> u8 \<Rightarrow> 'h hdl" where
  "executeSwapOpcode E rv op F C =
     interp_chargeGas E rv op F C (\<lambda>F.
     let N = unat (op - OP_SWAP1 + 1) in
     if Sp F < N + 1 then Inr (F, setStatus EVMC_STACK_UNDERFLOW C)
     else
       let TopIndex = Sp F - 1; NthIndex = Sp F - 1 - N in
       bindE (stack_at F TopIndex) (\<lambda>Tmp.
       bindE (stack_at F NthIndex) (\<lambda>Nth.
       bindE (stack_put TopIndex Nth F) (\<lambda>F.
       bindE (stack_put NthIndex Tmp F) (\<lambda>F. Inr (F, C))))))"

section \<open>Results and errors\<close>

text \<open>\<open>Context.setExeResult(evmc::Result(st, GasLeft, refund, ReturnData))\<close>.\<close>

definition exe_result :: "evmc_status_code \<Rightarrow> i64 \<Rightarrow> 'h ctx \<Rightarrow> 'h ctx" where
  "exe_result st left C = C\<lparr>ExeResult := evmc_Result st left (GasRefund (Inst C)) (ReturnData C)\<rparr>"

text \<open>Both failure branches of the \<open>switch\<close> do the same; \<open>True\<close> means that \<open>interpret\<close> returns.\<close>

definition handleExecutionStatus :: "nat \<Rightarrow> 'h ctx \<Rightarrow> (bool \<times> 'h ctx) res" where
  "handleExecutionStatus i C =
     (if Status C = EVMC_SUCCESS then Inr (False, C)
      else if Status C = EVMC_REVERT then Inr (False, C)
      else if i < length (FrameStack C) then
        let F = set_gas 0 (FrameStack C ! i);
            C = put_frame i F C;
            C = C\<lparr>Inst := setGasRefund (GasRefundSnapshot F) (Inst C)\<rparr>;
            C = clearReturnData C
        in bindE (freeBackFrame C) (\<lambda>C.
             case getCurFrame C of
               None \<Rightarrow> Inr (True, exe_result (Status C) 0 C)
             | Some _ \<Rightarrow> Inr (False, C))
      else Inl UB)"

section \<open>The computed-goto fast path\<close>

text \<open>
  Where a target goes: \<open>Dispatch\<close> is \<open>DISPATCH_NEXT\<close> with the locals \<open>Pc\<close> (here \<open>pc\<close>) and \<open>sp\<close>, \<open>CgError\<close> is
  \<open>goto cgoto_error\<close>, \<open>CgRestart\<close> is \<open>goto cgoto_restart\<close> with the frame that is then current,
  \<open>CgBreak\<close> is \<open>goto cgoto_break_outer\<close> and \<open>CgReturn\<close> is \<open>return\<close>.
\<close>

datatype 'h cgoto =
    Dispatch EVMFrame nat nat "'h ctx"
  | CgError EVMFrame nat nat "'h ctx"
  | CgRestart nat "'h ctx"
  | CgBreak "'h ctx"
  | CgReturn "'h ctx"

type_synonym 'h target = "interp_env \<Rightarrow> nat \<Rightarrow> EVMFrame \<Rightarrow> nat \<Rightarrow> nat \<Rightarrow> 'h ctx \<Rightarrow> 'h cgoto res"

abbreviation cg_fail :: "evmc_status_code \<Rightarrow> EVMFrame \<Rightarrow> nat \<Rightarrow> nat \<Rightarrow> 'h ctx \<Rightarrow> 'h cgoto res" where
  "cg_fail st F pc sp C \<equiv> Inr (CgError F pc sp (setStatus st C))"

text \<open>\<open>TARGET_ADD\<close> to \<open>TARGET_SHR\<close>, \<open>TARGET_ADDMOD\<close>, \<open>TARGET_MULMOD\<close> and the unary targets.\<close>

definition TARGET_BINARY :: "(u256 \<Rightarrow> u256 \<Rightarrow> u256) \<Rightarrow> 'h target" where
  "TARGET_BINARY f N i F pc sp C =
     (if sp < 2 then cg_fail EVMC_STACK_UNDERFLOW F pc sp C
      else bindE (stack_at F (sp - 1)) (\<lambda>A.
           bindE (stack_at F (sp - 2)) (\<lambda>B.
           bindE (stack_put (sp - 2) (f A B) F) (\<lambda>F.
           Inr (Dispatch F (pc + 1) (sp - 1) C)))))"

definition TARGET_TERNARY :: "(u256 \<Rightarrow> u256 \<Rightarrow> u256 \<Rightarrow> u256) \<Rightarrow> 'h target" where
  "TARGET_TERNARY f N i F pc sp C =
     (if sp < 3 then cg_fail EVMC_STACK_UNDERFLOW F pc sp C
      else bindE (stack_at F (sp - 1)) (\<lambda>A.
           bindE (stack_at F (sp - 2)) (\<lambda>B.
           bindE (stack_at F (sp - 3)) (\<lambda>Cv.
           bindE (stack_put (sp - 3) (f A B Cv) F) (\<lambda>F.
           Inr (Dispatch F (pc + 1) (sp - 2) C))))))"

definition TARGET_UNARY :: "(u256 \<Rightarrow> u256) \<Rightarrow> 'h target" where
  "TARGET_UNARY f N i F pc sp C =
     (if sp < 1 then cg_fail EVMC_STACK_UNDERFLOW F pc sp C
      else bindE (stack_at F (sp - 1)) (\<lambda>A.
           bindE (stack_put (sp - 1) (f A) F) (\<lambda>F.
           Inr (Dispatch F (pc + 1) sp C))))"

definition TARGET_POP :: "'h target" where
  "TARGET_POP N i F pc sp C =
     (if sp < 1 then cg_fail EVMC_STACK_UNDERFLOW F pc sp C
      else Inr (Dispatch F (pc + 1) (sp - 1) C))"

definition TARGET_PUSH0 :: "'h target" where
  "TARGET_PUSH0 N i F pc sp C =
     (if IRev N < EVMC_SHANGHAI then cg_fail EVMC_UNDEFINED_INSTRUCTION F pc sp C
      else if sp \<ge> MAXSTACK then cg_fail EVMC_STACK_OVERFLOW F pc sp C
      else bindE (stack_put sp 0 F) (\<lambda>F. Inr (Dispatch F (pc + 1) (sp + 1) C)))"

definition TARGET_PUSHX :: "'h target" where
  "TARGET_PUSHX N i F pc sp C =
     (if sp \<ge> MAXSTACK then cg_fail EVMC_STACK_OVERFLOW F pc sp C
      else bindE (vec_at (PushValueMap (ICache N)) pc) (\<lambda>v.
           bindE (stack_put sp v F) (\<lambda>F.
           bindE (vec_at (ICode N) pc) (\<lambda>op.
           let NumBytes = op - OP_PUSH1 + 1
           in Inr (Dispatch F (pc + (1 + unat NumBytes)) (sp + 1) C)))))"

definition TARGET_DUPX :: "'h target" where
  "TARGET_DUPX N i F pc sp C =
     bindE (vec_at (ICode N) pc) (\<lambda>op.
     let n = unat (op - OP_DUP1 + 1) in
     if sp < n then cg_fail EVMC_STACK_UNDERFLOW F pc sp C
     else if sp \<ge> MAXSTACK then cg_fail EVMC_STACK_OVERFLOW F pc sp C
     else bindE (stack_at F (sp - n)) (\<lambda>v.
          bindE (stack_put sp v F) (\<lambda>F. Inr (Dispatch F (pc + 1) (sp + 1) C))))"

definition TARGET_SWAPX :: "'h target" where
  "TARGET_SWAPX N i F pc sp C =
     bindE (vec_at (ICode N) pc) (\<lambda>op.
     let n = unat (op - OP_SWAP1 + 1) in
     if sp < n + 1 then cg_fail EVMC_STACK_UNDERFLOW F pc sp C
     else
       let TopIdx = sp - 1; NthIdx = sp - 1 - n in
       bindE (stack_at F TopIdx) (\<lambda>Tmp.
       bindE (stack_at F NthIdx) (\<lambda>Nth.
       bindE (stack_put TopIdx Nth F) (\<lambda>F.
       bindE (stack_put NthIdx Tmp F) (\<lambda>F. Inr (Dispatch F (pc + 1) sp C))))))"

text \<open>The end of a taken jump: the destination is checked against the map, and the frame is written back.\<close>

definition cg_jump :: "u256 \<Rightarrow> 'h target" where
  "cg_jump D N i F pc sp C =
     (let Dest = unat (uint256ToUint64 D) in
      if Dest \<ge> length (ICode N) then cg_fail EVMC_BAD_JUMP_DESTINATION F pc sp C
      else bindE (vec_at (JumpDestMap (ICache N)) Dest) (\<lambda>b.
           if b = 0 then cg_fail EVMC_BAD_JUMP_DESTINATION F pc sp C
           else Inr (CgRestart i (put_frame i (F\<lparr>Sp := sp, Pc := Dest\<rparr>) C))))"

definition TARGET_JUMP :: "'h target" where
  "TARGET_JUMP N i F pc sp C =
     (if sp < 1 then cg_fail EVMC_STACK_UNDERFLOW F pc sp C
      else bindE (stack_at F (sp - 1)) (\<lambda>D. cg_jump D N i F pc (sp - 1) C))"

definition TARGET_JUMPI :: "'h target" where
  "TARGET_JUMPI N i F pc sp C =
     (if sp < 2 then cg_fail EVMC_STACK_UNDERFLOW F pc sp C
      else bindE (stack_at F (sp - 1)) (\<lambda>D.
           bindE (stack_at F (sp - 2)) (\<lambda>Cond.
           if Cond = 0 then Inr (Dispatch F (pc + 1) (sp - 2) C)
           else cg_jump D N i F pc (sp - 2) C)))"

definition TARGET_JUMPDEST :: "'h target" where
  "TARGET_JUMPDEST N i F pc sp C = Inr (Dispatch F (pc + 1) sp C)"

definition TARGET_STOP :: "'h target" where
  "TARGET_STOP N i F pc sp C =
     (let F = F\<lparr>Sp := sp, Pc := pc\<rparr>;
          RemainingGas = gas_of F;
          C = setReturnData [] (put_frame i F C)
      in bindE (freeBackFrame C) (\<lambda>C.
           case getCurFrame C of
             None \<Rightarrow> Inr (CgReturn (exe_result EVMC_SUCCESS (Gas (Inst C)) C))
           | Some j \<Rightarrow>
               if j < length (FrameStack C)
               then let G = FrameStack C ! j
                    in Inr (CgRestart j (put_frame j (set_gas (gas_of G + RemainingGas) G) C))
               else Inl UB))"

definition TARGET_INVALID :: "'h target" where
  "TARGET_INVALID N i F pc sp C = cg_fail EVMC_INVALID_INSTRUCTION F pc sp C"

definition TARGET_UNDEFINED :: "'h target" where
  "TARGET_UNDEFINED N i F pc sp C = cg_fail EVMC_UNDEFINED_INSTRUCTION F pc sp C"

text \<open>\<open>HANDLER_CALL\<close> and the targets of the multi-opcode handlers.\<close>

definition HANDLER_CALL :: "'h hdl \<Rightarrow> 'h target" where
  "HANDLER_CALL h N i F pc sp C =
     (let F = F\<lparr>Sp := sp, Pc := pc\<rparr>;
          C = setExecutionContext (Some i) (put_frame i F C)
      in bindE (h F C) (\<lambda>(F, C).
         if Status C \<noteq> EVMC_SUCCESS then Inr (CgError F (pc + 1) (Sp F) C)
         else Inr (Dispatch F (pc + 1) (Sp F) C)))"

definition TARGET_MULTI :: "(u8 \<Rightarrow> 'h hdl) \<Rightarrow> 'h target" where
  "TARGET_MULTI h N i F pc sp C =
     bindE (vec_at (ICode N) pc) (\<lambda>op. HANDLER_CALL (h op) N i F pc sp C)"

text \<open>\<open>TARGET_RETURN\<close>, \<open>TARGET_REVERT\<close> and \<open>TARGET_SELFDESTRUCT\<close> differ in the handler and in the status
  of the result.\<close>

definition TARGET_LEAVE :: "evmc_status_code \<Rightarrow> 'h hdl \<Rightarrow> 'h target" where
  "TARGET_LEAVE st h N i F pc sp C =
     (let F = F\<lparr>Sp := sp, Pc := pc\<rparr>;
          C = setExecutionContext (Some i) (put_frame i F C)
      in bindE (h F C) (\<lambda>(F, C).
         let C = put_frame i F C in
         case getCurFrame C of
           None \<Rightarrow> Inr (CgReturn (exe_result st (Gas (Inst C)) C))
         | Some j \<Rightarrow>
             if Status C \<noteq> EVMC_SUCCESS then
               bindE (handleExecutionStatus j C) (\<lambda>(done, C).
               if done then Inr (CgReturn C) else Inr (CgBreak C))
             else Inr (CgRestart j C)))"

end
