(* ===== verification/Dispatch.thy ===== *)
theory Dispatch
  imports Interp_Steps
begin

text \<open>
  The dispatch tables of \<open>interpret\<close>: the computed-goto table, the handlers of the portable \<open>switch\<close> and
  those of the slow path. Each is a list of opcode bytes with what the code runs for them.
\<close>

section \<open>The computed-goto table\<close>

text \<open>The targets with inlined arithmetic.\<close>

definition cg_inline_arith :: "'h ext \<Rightarrow> (u8 \<times> 'h target) list" where
  "cg_inline_arith E =
     [(0x01, TARGET_BINARY AddOP),
      (0x02, TARGET_BINARY MulOP),
      (0x03, TARGET_BINARY SubOP),
      (0x04, TARGET_BINARY DivOP),
      (0x05, TARGET_BINARY (SDivOP E)),
      (0x06, TARGET_BINARY ModOP),
      (0x07, TARGET_BINARY (SModOP E)),
      (0x10, TARGET_BINARY LtOP),
      (0x11, TARGET_BINARY GtOP),
      (0x12, TARGET_BINARY (SltOP E)),
      (0x13, TARGET_BINARY (SgtOP E)),
      (0x14, TARGET_BINARY EqOP)]"

definition cg_inline_bits :: "'h ext \<Rightarrow> (u8 \<times> 'h target) list" where
  "cg_inline_bits E =
     [(0x08, TARGET_TERNARY (AddmodOP E)),
      (0x09, TARGET_TERNARY (MulmodOP E)),
      (0x15, TARGET_UNARY IsZeroOP),
      (0x16, TARGET_BINARY AndOP),
      (0x17, TARGET_BINARY OrOP),
      (0x18, TARGET_BINARY XorOP),
      (0x19, TARGET_UNARY NotOP),
      (0x1b, TARGET_BINARY ShlOP),
      (0x1c, TARGET_BINARY ShrOP),
      (0x1e, TARGET_UNARY (ClzOP E))]"

text \<open>The targets that call \<open>doExecute\<close> of a handler.\<close>

definition cg_arith :: "'h ext \<Rightarrow> (u8 \<times> 'h target) list" where
  "cg_arith E =
     [(0x0a, HANDLER_CALL (doExp E)),
      (0x0b, HANDLER_CALL doSignExtend),
      (0x1a, HANDLER_CALL doByte),
      (0x1d, HANDLER_CALL doSar),
      (0x20, HANDLER_CALL (doKeccak256 E))]"

definition cg_env :: "'h ext \<Rightarrow> (u8 \<times> 'h target) list" where
  "cg_env E =
     [(0x30, HANDLER_CALL (doAddress E)),
      (0x31, HANDLER_CALL (doBalance E)),
      (0x32, HANDLER_CALL (doOrigin E)),
      (0x33, HANDLER_CALL (doCaller E)),
      (0x34, HANDLER_CALL (doCallValue E)),
      (0x35, HANDLER_CALL (doCallDataLoad E)),
      (0x36, HANDLER_CALL doCallDataSize),
      (0x37, HANDLER_CALL doCallDataCopy),
      (0x38, HANDLER_CALL doCodeSize),
      (0x39, HANDLER_CALL doCodeCopy),
      (0x3a, HANDLER_CALL (doGasPrice E)),
      (0x3b, HANDLER_CALL (doExtCodeSize E)),
      (0x3c, HANDLER_CALL (doExtCodeCopy E)),
      (0x3d, HANDLER_CALL doReturnDataSize),
      (0x3e, HANDLER_CALL doReturnDataCopy),
      (0x3f, HANDLER_CALL (doExtCodeHash E))]"

definition cg_block :: "'h ext \<Rightarrow> (u8 \<times> 'h target) list" where
  "cg_block E =
     [(0x40, HANDLER_CALL (doBlockHash E)),
      (0x41, HANDLER_CALL (doCoinBase E)),
      (0x42, HANDLER_CALL (doTimeStamp E)),
      (0x43, HANDLER_CALL (doNumber E)),
      (0x44, HANDLER_CALL (doPrevRanDao E)),
      (0x45, HANDLER_CALL (doGasLimit E)),
      (0x46, HANDLER_CALL (doChainId E)),
      (0x47, HANDLER_CALL (doSelfBalance E)),
      (0x48, HANDLER_CALL (doBaseFee E)),
      (0x49, HANDLER_CALL (doBlobHash E)),
      (0x4a, HANDLER_CALL (doBlobBaseFee E))]"

definition cg_memory :: "'h ext \<Rightarrow> (u8 \<times> 'h target) list" where
  "cg_memory E =
     [(0x51, HANDLER_CALL (doMLoad E)),
      (0x52, HANDLER_CALL (doMStore E)),
      (0x53, HANDLER_CALL doMStore8),
      (0x54, HANDLER_CALL (doSLoad E)),
      (0x55, HANDLER_CALL (doSStore E)),
      (0x58, HANDLER_CALL doPC),
      (0x59, HANDLER_CALL doMSize),
      (0x5a, HANDLER_CALL doGas),
      (0x5c, HANDLER_CALL (doTLoad E)),
      (0x5d, HANDLER_CALL (doTStore E)),
      (0x5e, HANDLER_CALL doMCopy)]"

text \<open>The inlined stack and control-flow targets and the terminating ones.\<close>

definition cg_control :: "'h ext \<Rightarrow> (u8 \<times> 'h target) list" where
  "cg_control E =
     [(0x00, TARGET_STOP), (0x50, TARGET_POP), (0x56, TARGET_JUMP), (0x57, TARGET_JUMPI),
      (0x5b, TARGET_JUMPDEST), (0x5f, TARGET_PUSH0),
      (0xf0, TARGET_MULTI (doCreate E)), (0xf1, TARGET_MULTI (doCall E)), (0xf2, TARGET_MULTI (doCall E)),
      (0xf3, TARGET_LEAVE EVMC_SUCCESS doReturn), (0xf4, TARGET_MULTI (doCall E)),
      (0xf5, TARGET_MULTI (doCreate E)), (0xfa, TARGET_MULTI (doCall E)),
      (0xfd, TARGET_LEAVE EVMC_REVERT doRevert), (0xfe, TARGET_INVALID),
      (0xff, TARGET_LEAVE EVMC_SUCCESS (doSelfDestruct E))]"

text \<open>The table \<open>base\<close>, and the table of a revision, which masks what the revision does not have.\<close>

definition cgoto_base :: "'h ext \<Rightarrow> u8 \<Rightarrow> 'h target" where
  "cgoto_base E op =
     (case map_of (cg_inline_arith E @ cg_inline_bits E @ cg_arith E @ cg_env E @ cg_block E @ cg_memory E @ cg_control E) op of
        Some t \<Rightarrow> t
      | None \<Rightarrow>
          if 0x60 \<le> op \<and> op \<le> 0x7f then TARGET_PUSHX
          else if 0x80 \<le> op \<and> op \<le> 0x8f then TARGET_DUPX
          else if 0x90 \<le> op \<and> op \<le> 0x9f then TARGET_SWAPX
          else if 0xa0 \<le> op \<and> op \<le> 0xa4 then TARGET_MULTI (doLog E)
          else TARGET_UNDEFINED)"

definition cgoto_table :: "'h ext \<Rightarrow> evmc_revision \<Rightarrow> u8 \<Rightarrow> 'h target" where
  "cgoto_table E rv op = (if op_defined E rv op then cgoto_base E op else TARGET_UNDEFINED)"

section \<open>The handlers of the switch statements\<close>

definition switch_arith :: "'h ext \<Rightarrow> (u8 \<times> 'h hdl) list" where
  "switch_arith E =
     [(0x01, BinaryOpHandler AddOP),
      (0x02, BinaryOpHandler MulOP),
      (0x03, BinaryOpHandler SubOP),
      (0x04, BinaryOpHandler DivOP),
      (0x05, BinaryOpHandler (SDivOP E)),
      (0x06, BinaryOpHandler ModOP),
      (0x07, BinaryOpHandler (SModOP E)),
      (0x08, TernaryOpHandler (AddmodOP E)),
      (0x09, TernaryOpHandler (MulmodOP E)),
      (0x0a, doExp E),
      (0x0b, doSignExtend),
      (0x10, BinaryOpHandler LtOP),
      (0x11, BinaryOpHandler GtOP),
      (0x12, BinaryOpHandler (SltOP E)),
      (0x13, BinaryOpHandler (SgtOP E)),
      (0x14, BinaryOpHandler EqOP),
      (0x15, UnaryOpHandler IsZeroOP),
      (0x16, BinaryOpHandler AndOP),
      (0x17, BinaryOpHandler OrOP),
      (0x18, BinaryOpHandler XorOP),
      (0x19, UnaryOpHandler NotOP),
      (0x1a, doByte),
      (0x1b, BinaryOpHandler ShlOP),
      (0x1c, BinaryOpHandler ShrOP),
      (0x1d, doSar),
      (0x1e, UnaryOpHandler (ClzOP E))]"

definition switch_env :: "'h ext \<Rightarrow> (u8 \<times> 'h hdl) list" where
  "switch_env E =
     [(0x20, doKeccak256 E),
      (0x30, doAddress E),
      (0x31, doBalance E),
      (0x32, doOrigin E),
      (0x33, doCaller E),
      (0x34, doCallValue E),
      (0x35, doCallDataLoad E),
      (0x36, doCallDataSize),
      (0x37, doCallDataCopy),
      (0x38, doCodeSize),
      (0x39, doCodeCopy),
      (0x3a, doGasPrice E),
      (0x3b, doExtCodeSize E),
      (0x3c, doExtCodeCopy E),
      (0x3d, doReturnDataSize),
      (0x3e, doReturnDataCopy),
      (0x3f, doExtCodeHash E)]"

definition switch_block :: "'h ext \<Rightarrow> (u8 \<times> 'h hdl) list" where
  "switch_block E =
     [(0x40, doBlockHash E),
      (0x41, doCoinBase E),
      (0x42, doTimeStamp E),
      (0x43, doNumber E),
      (0x44, doPrevRanDao E),
      (0x45, doGasLimit E),
      (0x46, doChainId E),
      (0x47, doSelfBalance E),
      (0x48, doBaseFee E),
      (0x49, doBlobHash E),
      (0x4a, doBlobBaseFee E)]"

definition switch_memory :: "'h ext \<Rightarrow> (u8 \<times> 'h hdl) list" where
  "switch_memory E =
     [(0x51, doMLoad E),
      (0x52, doMStore E),
      (0x53, doMStore8),
      (0x54, doSLoad E),
      (0x55, doSStore E)]"

definition switch_misc :: "'h ext \<Rightarrow> (u8 \<times> 'h hdl) list" where
  "switch_misc E =
     [(0x58, doPC),
      (0x59, doMSize),
      (0x5a, doGas),
      (0x5c, doTLoad E),
      (0x5d, doTStore E),
      (0x5e, doMCopy)]"

text \<open>The cases of the slow path call \<open>execute\<close> of the same handlers, which charges the table price.\<close>

definition executed :: "'h ext \<Rightarrow> (u8 \<times> 'h hdl) list \<Rightarrow> (u8 \<times> 'h hdl) list" where
  "executed E = map (\<lambda>(op, h). (op, handler_execute E op h))"

definition slow_arith :: "'h ext \<Rightarrow> (u8 \<times> 'h hdl) list" where
  "slow_arith E = executed E (switch_arith E)"

definition slow_env :: "'h ext \<Rightarrow> (u8 \<times> 'h hdl) list" where
  "slow_env E = executed E (switch_env E)"

definition slow_block :: "'h ext \<Rightarrow> (u8 \<times> 'h hdl) list" where
  "slow_block E = executed E (switch_block E)"

definition slow_memory :: "'h ext \<Rightarrow> (u8 \<times> 'h hdl) list" where
  "slow_memory E = executed E (switch_memory E)"

definition slow_misc :: "'h ext \<Rightarrow> (u8 \<times> 'h hdl) list" where
  "slow_misc E = executed E (switch_misc E)"

end
