(* ===== verification/Interp_Loop.thy ===== *)
theory Interp_Loop
  imports Dispatch
begin

text \<open>
  The loops of \<open>BaseInterpreter::interpret\<close>: the computed-goto fast path, the portable fast path that
  is compiled without the GNU extension, the slow path with one opcode per iteration, and the outer
  loop with the implicit stop at the end of the code.

  A loop takes a bound on its number of iterations and returns \<open>None\<close> when the bound is too small;
  \<open>Interp_Safety\<close> shows which bound is enough.
\<close>

section \<open>Flow of control\<close>

text \<open>How an iteration of the outer loop ends: \<open>continue\<close> with the current frame, \<open>break\<close> or \<open>return\<close>.\<close>

datatype 'h flow = Continue nat "'h ctx" | Break "'h ctx" | Return "'h ctx"

definition status_flow :: "nat \<Rightarrow> 'h ctx \<Rightarrow> 'h flow res" where
  "status_flow i C =
     bindE (handleExecutionStatus i C) (\<lambda>(ret, C). Inr (if ret then Return C else Break C))"

text \<open>An operation on the frame that the local variable \<open>Frame\<close> points to.\<close>

definition frame_op :: "nat \<Rightarrow> 'h hdl \<Rightarrow> 'h ctx \<Rightarrow> 'h ctx res" where
  "frame_op i h C =
     (if i < length (FrameStack C)
      then bindE (h (FrameStack C ! i) C) (\<lambda>(F, C). Inr (put_frame i F C))
      else Inl UB)"

definition next_pc :: "nat \<Rightarrow> 'h ctx \<Rightarrow> 'h ctx res" where
  "next_pc i = frame_op i (\<lambda>F C. Inr (F\<lparr>Pc := Pc F + 1\<rparr>, C))"

section \<open>The computed-goto path\<close>

fun cgoto_run ::
  "'h ext \<Rightarrow> interp_env \<Rightarrow> nat \<Rightarrow> nat \<Rightarrow> nat \<Rightarrow> EVMFrame \<Rightarrow> nat \<Rightarrow> nat \<Rightarrow> 'h ctx \<Rightarrow> 'h flow res option" where
  "cgoto_run E N i ChunkEnd 0 F pc sp C = None"
| "cgoto_run E N i ChunkEnd (Suc n) F pc sp C =
     (case bindE (vec_at (ICode N) pc) (\<lambda>op. cgoto_table E (IRev N) op N i F pc sp C) of
        Inl e \<Rightarrow> Some (Inl e)
      | Inr (Dispatch F pc sp C) \<Rightarrow>
          if pc \<ge> ChunkEnd then Some (Inr (Continue i (put_frame i (F\<lparr>Sp := sp, Pc := pc\<rparr>) C)))
          else cgoto_run E N i ChunkEnd n F pc sp C
      | Inr (CgError F pc sp C) \<Rightarrow> Some (status_flow i (put_frame i (F\<lparr>Sp := sp, Pc := pc\<rparr>) C))
      | Inr (CgRestart j C) \<Rightarrow> Some (Inr (Continue j C))
      | Inr (CgBreak C) \<Rightarrow> Some (Inr (Break C))
      | Inr (CgReturn C) \<Rightarrow> Some (Inr (Return C)))"

section \<open>Jumps of the switch statements\<close>

text \<open>The Boolean says whether \<open>Frame->Pc\<close> was set to the destination.\<close>

definition switch_goto :: "interp_env \<Rightarrow> u256 \<Rightarrow> EVMFrame \<Rightarrow> 'h ctx \<Rightarrow> (bool \<times> EVMFrame \<times> 'h ctx) res" where
  "switch_goto N D F C =
     (let Dest = unat (uint256ToUint64 D) in
      if Dest \<ge> length (ICode N) then Inr (False, F, setStatus EVMC_BAD_JUMP_DESTINATION C)
      else bindE (vec_at (JumpDestMap (ICache N)) Dest) (\<lambda>b.
           if b = 0 then Inr (False, F, setStatus EVMC_BAD_JUMP_DESTINATION C)
           else Inr (True, F\<lparr>Pc := Dest\<rparr>, C)))"

definition switch_JUMP :: "interp_env \<Rightarrow> EVMFrame \<Rightarrow> 'h ctx \<Rightarrow> (bool \<times> EVMFrame \<times> 'h ctx) res" where
  "switch_JUMP N F C =
     (if Sp F < 1 then Inr (False, F, setStatus EVMC_STACK_UNDERFLOW C)
      else let F = F\<lparr>Sp := Sp F - 1\<rparr> in
           bindE (stack_at F (Sp F)) (\<lambda>D. switch_goto N D F C))"

definition switch_JUMPI :: "interp_env \<Rightarrow> EVMFrame \<Rightarrow> 'h ctx \<Rightarrow> (bool \<times> EVMFrame \<times> 'h ctx) res" where
  "switch_JUMPI N F C =
     (if Sp F < 2 then Inr (False, F, setStatus EVMC_STACK_UNDERFLOW C)
      else let F = F\<lparr>Sp := Sp F - 1\<rparr> in
           bindE (stack_at F (Sp F)) (\<lambda>D.
           let F = F\<lparr>Sp := Sp F - 1\<rparr> in
           bindE (stack_at F (Sp F)) (\<lambda>Cond.
           if Cond = 0 then Inr (False, F, C) else switch_goto N D F C)))"

section \<open>The portable fast path\<close>

text \<open>How a case of the \<open>switch\<close> ends: \<open>break\<close> with \<open>RestartDispatch\<close> and the current frame, or \<open>return\<close>.\<close>

datatype 'h case_end = CaseBreak bool nat "'h ctx" | CaseReturn "'h ctx"

definition at_frame ::
  "nat \<Rightarrow> (EVMFrame \<Rightarrow> 'h ctx \<Rightarrow> (bool \<times> EVMFrame \<times> 'h ctx) res) \<Rightarrow> 'h ctx \<Rightarrow> 'h case_end res" where
  "at_frame i f C =
     (if i < length (FrameStack C)
      then bindE (f (FrameStack C ! i) C) (\<lambda>(taken, F, C). Inr (CaseBreak taken i (put_frame i F C)))
      else Inl UB)"

definition plain :: "nat \<Rightarrow> 'h ctx res \<Rightarrow> 'h case_end res" where
  "plain i r = bindE r (\<lambda>C. Inr (CaseBreak False i C))"

text \<open>\<open>RETURN\<close>, \<open>REVERT\<close> and \<open>SELFDESTRUCT\<close> after the handler.\<close>

definition leave_case :: "evmc_status_code \<Rightarrow> 'h ctx res \<Rightarrow> 'h case_end res" where
  "leave_case st r =
     bindE r (\<lambda>C.
     case getCurFrame C of
       None \<Rightarrow> Inr (CaseReturn (exe_result st (Gas (Inst C)) C))
     | Some j \<Rightarrow> Inr (CaseBreak True j C))"

definition portable_STOP :: "nat \<Rightarrow> 'h ctx \<Rightarrow> 'h case_end res" where
  "portable_STOP i C =
     (if i < length (FrameStack C) then
        let RemainingGas = gas_of (FrameStack C ! i) in
        bindE (freeBackFrame (clearReturnData C)) (\<lambda>C.
        case getCurFrame C of
          None \<Rightarrow> Inr (CaseReturn (exe_result EVMC_SUCCESS (Gas (Inst C)) C))
        | Some j \<Rightarrow>
            if j < length (FrameStack C)
            then let G = FrameStack C ! j
                 in Inr (CaseBreak True j (put_frame j (set_gas (gas_of G + RemainingGas) G) C))
            else Inl UB)
      else Inl UB)"

text \<open>The cases with their own code, and the \<open>default\<close> case.\<close>

definition portable_control :: "'h ext \<Rightarrow> interp_env \<Rightarrow> nat \<Rightarrow> u8 \<Rightarrow> 'h ctx \<Rightarrow> 'h case_end res" where
  "portable_control E N i op C =
     (if op = OP_STOP then portable_STOP i C
      else if op = 0x50 then plain i (frame_op i executePopOpcodeNoGas C)
      else if op = OP_JUMP then at_frame i (switch_JUMP N) C
      else if op = OP_JUMPI then at_frame i (switch_JUMPI N) C
      else if op = OP_JUMPDEST then Inr (CaseBreak False i C)
      else if op = 0x5f then plain i (frame_op i executePush0OpcodeNoGas C)
      else if OP_LOG0 \<le> op \<and> op \<le> OP_LOG4 then plain i (run_handler (Throw EVMFrameNotFound) (doLog E op) C)
      else if op = OP_RETURN then leave_case EVMC_SUCCESS (run_handler (Throw EVMFrameNotFound) doReturn C)
      else if op = OP_REVERT then leave_case EVMC_REVERT (run_handler (Throw EVMFrameNotFound) doRevert C)
      else if op = OP_INVALID then Inr (CaseBreak False i (setStatus EVMC_INVALID_INSTRUCTION C))
      else if op = OP_SELFDESTRUCT
      then leave_case EVMC_SUCCESS (run_handler (Throw EVMFrameNotFound) (doSelfDestruct E) C)
      else if OP_PUSH1 \<le> op \<and> op \<le> OP_PUSH32
      then plain i (frame_op i (executePushNOpcodeNoGas (PushValueMap (ICache N)) op) C)
      else if OP_DUP1 \<le> op \<and> op \<le> OP_DUP16 then plain i (frame_op i (executeDupOpcodeNoGas op) C)
      else if OP_SWAP1 \<le> op \<and> op \<le> OP_SWAP16 then plain i (frame_op i (executeSwapOpcodeNoGas op) C)
      else if op = OP_CREATE \<or> op = OP_CREATE2
      then plain i (run_handler (Throw EVMFrameNotFound) (doCreate E op) C)
      else if op = OP_CALL \<or> op = OP_CALLCODE \<or> op = OP_DELEGATECALL \<or> op = OP_STATICCALL
      then plain i (run_handler (Throw EVMFrameNotFound) (doCall E op) C)
      else Inr (CaseBreak False i (setStatus EVMC_UNDEFINED_INSTRUCTION C)))"

definition portable_op :: "'h ext \<Rightarrow> interp_env \<Rightarrow> nat \<Rightarrow> u8 \<Rightarrow> 'h ctx \<Rightarrow> 'h case_end res" where
  "portable_op E N i op C =
     (case map_of (switch_arith E @ switch_env E @ switch_block E @ switch_memory E @ switch_misc E) op of
        Some h \<Rightarrow> plain i (run_handler (Throw EVMFrameNotFound) h C)
      | None \<Rightarrow> portable_control E N i op C)"

fun portable_run ::
  "'h ext \<Rightarrow> interp_env \<Rightarrow> nat \<Rightarrow> nat \<Rightarrow> nat \<Rightarrow> 'h ctx \<Rightarrow> 'h flow res option" where
  "portable_run E N i ChunkEnd 0 C = None"
| "portable_run E N i ChunkEnd (Suc n) C =
     (if \<not> i < length (FrameStack C) then Some (Inl UB)
      else if Pc (FrameStack C ! i) < ChunkEnd then
        (case vec_at (ICode N) (Pc (FrameStack C ! i)) of
           Inl e \<Rightarrow> Some (Inl e)
         | Inr op \<Rightarrow>
             if \<not> op_defined E (IRev N) op then Some (status_flow i (setStatus EVMC_UNDEFINED_INSTRUCTION C))
             else
               (case portable_op E N i op C of
                  Inl e \<Rightarrow> Some (Inl e)
                | Inr (CaseReturn C) \<Rightarrow> Some (Inr (Return C))
                | Inr (CaseBreak RestartDispatch j C) \<Rightarrow>
                    if Status C \<noteq> EVMC_SUCCESS then Some (status_flow j C)
                    else if RestartDispatch then Some (Inr (Continue j C))
                    else (case next_pc j C of Inl e \<Rightarrow> Some (Inl e)
                          | Inr C \<Rightarrow> portable_run E N j ChunkEnd n C)))
      else if Status C \<noteq> EVMC_SUCCESS then Some (status_flow i C)
      else Some (Inr (Continue i C)))"

section \<open>The slow path\<close>

text \<open>How a case of the slow \<open>switch\<close> ends: \<open>break\<close>, \<open>continue\<close> of the outer loop, or \<open>return\<close>.\<close>

datatype 'h slow_end = SlowBreak nat "'h ctx" | SlowContinue nat "'h ctx" | SlowReturn "'h ctx"

definition slow_plain :: "nat \<Rightarrow> 'h ctx res \<Rightarrow> 'h slow_end res" where
  "slow_plain i r = bindE r (\<lambda>C. Inr (SlowBreak i C))"

definition slow_execute :: "'h ext \<Rightarrow> nat \<Rightarrow> u8 \<Rightarrow> 'h hdl \<Rightarrow> 'h ctx \<Rightarrow> 'h slow_end res" where
  "slow_execute E i op h C = slow_plain i (run_handler (Throw EVMFrameNotFound) (handler_execute E op h) C)"

definition slow_STOP :: "'h ctx \<Rightarrow> 'h slow_end res" where
  "slow_STOP C =
     bindE (freeBackFrame (clearReturnData C)) (\<lambda>C.
     case getCurFrame C of
       None \<Rightarrow> Inr (SlowReturn (exe_result EVMC_SUCCESS (Gas (Inst C)) C))
     | Some j \<Rightarrow> Inr (SlowContinue j C))"

definition slow_leave :: "'h ext \<Rightarrow> u8 \<Rightarrow> evmc_status_code \<Rightarrow> 'h hdl \<Rightarrow> 'h ctx \<Rightarrow> 'h slow_end res" where
  "slow_leave E op st h C =
     bindE (run_handler (Throw EVMFrameNotFound) (handler_execute E op h) C) (\<lambda>C.
     case getCurFrame C of
       None \<Rightarrow> Inr (SlowReturn (exe_result st (Gas (Inst C)) C))
     | Some j \<Rightarrow> Inr (SlowBreak j C))"

text \<open>\<open>JUMP\<close>, \<open>JUMPI\<close> and \<open>JUMPDEST\<close> charge through \<open>chargeGas\<close> first.\<close>

definition slow_jump ::
  "'h ext \<Rightarrow> interp_env \<Rightarrow> nat \<Rightarrow> u8 \<Rightarrow> (EVMFrame \<Rightarrow> 'h ctx \<Rightarrow> (bool \<times> EVMFrame \<times> 'h ctx) res)
    \<Rightarrow> 'h ctx \<Rightarrow> 'h slow_end res" where
  "slow_jump E N i op f C =
     (if i < length (FrameStack C) then
        let F = FrameStack C ! i in
        if gas_of F < gas_cost E (IRev N) op then Inr (SlowBreak i (setStatus EVMC_OUT_OF_GAS C))
        else bindE (f (set_gas (gas_of F - gas_cost E (IRev N) op) F) C) (\<lambda>(taken, F, C).
             Inr (if taken then SlowContinue i (put_frame i F C) else SlowBreak i (put_frame i F C)))
      else Inl UB)"

definition slow_control :: "'h ext \<Rightarrow> interp_env \<Rightarrow> nat \<Rightarrow> u8 \<Rightarrow> 'h ctx \<Rightarrow> 'h slow_end res" where
  "slow_control E N i op C =
     (if op = OP_STOP then slow_STOP C
      else if op = 0x50 then slow_plain i (frame_op i (executePopOpcode E (IRev N) op) C)
      else if op = OP_JUMP then slow_jump E N i op (switch_JUMP N) C
      else if op = OP_JUMPI then slow_jump E N i op (switch_JUMPI N) C
      else if op = OP_JUMPDEST
      then slow_plain i (frame_op i (\<lambda>F C. interp_chargeGas E (IRev N) op F C (\<lambda>F. Inr (F, C))) C)
      else if op = 0x5f then slow_plain i (frame_op i (executePush0Opcode E (IRev N) op) C)
      else if OP_LOG0 \<le> op \<and> op \<le> OP_LOG4 then slow_execute E i op (doLog E op) C
      else if op = OP_RETURN then slow_leave E op EVMC_SUCCESS doReturn C
      else if op = OP_REVERT then slow_leave E op EVMC_REVERT doRevert C
      else if op = OP_INVALID then Inr (SlowBreak i (setStatus EVMC_INVALID_INSTRUCTION C))
      else if op = OP_SELFDESTRUCT then slow_leave E op EVMC_SUCCESS (doSelfDestruct E) C
      else if OP_PUSH1 \<le> op \<and> op \<le> OP_PUSH32
      then slow_plain i (frame_op i (executePushNOpcode E (IRev N) (PushValueMap (ICache N)) op) C)
      else if OP_DUP1 \<le> op \<and> op \<le> OP_DUP16
      then slow_plain i (frame_op i (executeDupOpcode E (IRev N) op) C)
      else if OP_SWAP1 \<le> op \<and> op \<le> OP_SWAP16
      then slow_plain i (frame_op i (executeSwapOpcode E (IRev N) op) C)
      else if op = OP_CREATE \<or> op = OP_CREATE2 then slow_execute E i op (doCreate E op) C
      else if op = OP_CALL \<or> op = OP_CALLCODE \<or> op = OP_DELEGATECALL \<or> op = OP_STATICCALL
      then slow_execute E i op (doCall E op) C
      else Inr (SlowBreak i (setStatus EVMC_INVALID_INSTRUCTION C)))"

definition slow_op :: "'h ext \<Rightarrow> interp_env \<Rightarrow> nat \<Rightarrow> u8 \<Rightarrow> 'h ctx \<Rightarrow> 'h slow_end res" where
  "slow_op E N i op C =
     (case map_of (slow_arith E @ slow_env E @ slow_block E @ slow_memory E @ slow_misc E) op of
        Some h \<Rightarrow> slow_plain i (run_handler (Throw EVMFrameNotFound) h C)
      | None \<Rightarrow> slow_control E N i op C)"

definition slow_step :: "'h ext \<Rightarrow> interp_env \<Rightarrow> nat \<Rightarrow> nat \<Rightarrow> 'h ctx \<Rightarrow> 'h flow res" where
  "slow_step E N i pc C =
     bindE (vec_at (ICode N) pc) (\<lambda>op.
     if \<not> op_defined E (IRev N) op then status_flow i (setStatus EVMC_UNDEFINED_INSTRUCTION C)
     else bindE (slow_op E N i op C) (\<lambda>r.
       case r of
         SlowReturn C \<Rightarrow> Inr (Return C)
       | SlowContinue j C \<Rightarrow> Inr (Continue j C)
       | SlowBreak j C \<Rightarrow>
           if Status C \<noteq> EVMC_SUCCESS then status_flow j C
           else bindE (next_pc j C) (\<lambda>C. Inr (Continue j C))))"

section \<open>The outer loop\<close>

text \<open>
  The entry of a chunk: its end and the frame that has paid for it, or \<open>None\<close> when the opcode is run
  by the slow path.
\<close>

definition chunk_entry :: "interp_env \<Rightarrow> EVMFrame \<Rightarrow> (nat \<times> EVMFrame) option res" where
  "chunk_entry N F =
     bindE (vec_at (GasChunkEnd (ICache N)) (Pc F)) (\<lambda>ChunkEnd.
     if ChunkEnd > Pc F then
       bindE (vec_at (GasChunkCost (ICache N)) (Pc F)) (\<lambda>Cost.
       Inr (if gas_of F \<ge> Cost then Some (ChunkEnd, set_gas (gas_of F - Cost) F) else None))
     else Inr None)"

text \<open>The first argument selects the fast path that the build has.\<close>

fun interp_loop ::
  "bool \<Rightarrow> 'h ext \<Rightarrow> interp_env \<Rightarrow> nat \<Rightarrow> nat \<Rightarrow> 'h ctx \<Rightarrow> 'h flow res option" where
  "interp_loop gnu E N 0 i C = None"
| "interp_loop gnu E N (Suc n) i C =
     (if \<not> i < length (FrameStack C) then Some (Inl UB)
      else let F = FrameStack C ! i in
        if Pc F < length (ICode N) then
          (case (case chunk_entry N F of
                   Inl e \<Rightarrow> Some (Inl e)
                 | Inr None \<Rightarrow> Some (slow_step E N i (Pc F) C)
                 | Inr (Some (ChunkEnd, F)) \<Rightarrow>
                     if gnu then cgoto_run E N i ChunkEnd n F (Pc F) (Sp F) C
                     else portable_run E N i ChunkEnd n (put_frame i F C)) of
             None \<Rightarrow> None
           | Some (Inr (Continue j C)) \<Rightarrow> interp_loop gnu E N n j C
           | Some r \<Rightarrow> Some r)
        else Some (Inr (Break C)))"

definition implicit_stop :: "'h ctx \<Rightarrow> 'h ctx res" where
  "implicit_stop C =
     bindE (freeBackFrame (clearReturnData C)) (\<lambda>C.
     case getCurFrame C of
       None \<Rightarrow> Inr (exe_result (Status C) (Gas (Inst C)) C)
     | Some j \<Rightarrow>
         if j < length (FrameStack C) then Inr (exe_result (Status C) (gas_of (FrameStack C ! j)) C)
         else Inl UB)"

end
