(* ===== verification/Opcode_Class.thy ===== *)
theory Opcode_Class
  imports Evm_Module
begin

text \<open>
  The opcode predicates of \<open>src/evm/evm_cache.cpp\<close>, the instruction boundaries of a byte string, and the
  specification of a bytecode cache: what \<open>JumpDestMap\<close>, \<open>PushValueMap\<close>, \<open>GasChunkEnd\<close> and \<open>GasChunkCost\<close>
  have to contain for a given code. The interpreter relies on \<open>cache_ok\<close>; \<open>Bytecode_Cache\<close> shows that
  \<open>buildBytecodeCache\<close> establishes it.
\<close>

section \<open>Opcode predicates\<close>

definition opcodeLen :: "u8 \<Rightarrow> nat" where
  "opcodeLen OpcodeU8 =
     (if OP_PUSH1 \<le> OpcodeU8 \<and> OpcodeU8 \<le> OP_PUSH32 then unat (OpcodeU8 - OP_PUSH1 + 2) else 1)"

definition isGasChunkTerminator :: "u8 \<Rightarrow> bool" where
  "isGasChunkTerminator OpcodeU8 \<longleftrightarrow>
     OpcodeU8 \<in> {OP_STOP, OP_RETURN, OP_REVERT, OP_SELFDESTRUCT, OP_INVALID, OP_JUMP, OP_JUMPI,
       OP_GAS, OP_SSTORE, OP_CREATE, OP_CREATE2, OP_CALL, OP_CALLCODE, OP_DELEGATECALL,
       OP_STATICCALL}"

definition isControlFlowTerminator :: "u8 \<Rightarrow> bool" where
  "isControlFlowTerminator OpcodeU8 \<longleftrightarrow>
     OpcodeU8 \<in> {OP_STOP, OP_RETURN, OP_REVERT, OP_SELFDESTRUCT, OP_INVALID, OP_JUMP}"

definition isGasSensitiveTerminator :: "u8 \<Rightarrow> bool" where
  "isGasSensitiveTerminator OpcodeU8 \<longleftrightarrow>
     OpcodeU8 \<in> {OP_GAS, OP_CREATE, OP_CREATE2, OP_CALL, OP_CALLCODE, OP_DELEGATECALL, OP_STATICCALL}"

definition isJumpOpcode :: "u8 \<Rightarrow> bool" where
  "isJumpOpcode OpcodeU8 \<longleftrightarrow> OpcodeU8 = OP_JUMP \<or> OpcodeU8 = OP_JUMPI"

definition isPushOpcode :: "u8 \<Rightarrow> bool" where
  "isPushOpcode OpcodeU8 \<longleftrightarrow> OP_PUSH1 \<le> OpcodeU8 \<and> OpcodeU8 \<le> OP_PUSH32"

lemma push_len:
  assumes "OP_PUSH1 \<le> op" and "op \<le> OP_PUSH32"
  shows "unat (op - OP_PUSH1 + 1) = unat op - 95" and "unat (op - OP_PUSH1 + 2) = unat op - 94"
    and "96 \<le> unat op" and "unat op \<le> 127"
proof -
  have b: "96 \<le> unat op" "unat op \<le> 127" using assms by (simp_all add: word_le_nat_alt)
  have "unat (op - 95) = unat op - 95" "unat (op - 94) = unat op - 94"
    using b by (simp_all add: unat_sub word_le_nat_alt)
  then show "unat (op - OP_PUSH1 + 1) = unat op - 95" "unat (op - OP_PUSH1 + 2) = unat op - 94"
    by simp_all
qed (use assms in \<open>simp_all add: word_le_nat_alt\<close>)

lemma opcodeLen_push: "OP_PUSH1 \<le> op \<Longrightarrow> op \<le> OP_PUSH32 \<Longrightarrow> opcodeLen op = 1 + unat (op - OP_PUSH1 + 1)"
  using push_len [of op] by (simp add: opcodeLen_def)

lemma opcodeLen_bounds: "1 \<le> opcodeLen op" "opcodeLen op \<le> 33"
  using push_len [of op] by (auto simp: opcodeLen_def)

lemma opcodeLen_pos [simp]: "0 < opcodeLen op"
  using opcodeLen_bounds(1) [of op] by simp

section \<open>Instruction boundaries\<close>

text \<open>The instructions from \<open>s\<close> that start before \<open>e\<close>.\<close>

function instrs :: "u8 list \<Rightarrow> nat \<Rightarrow> nat \<Rightarrow> nat list" where
  "instrs code s e = (if s < e \<and> s < length code then s # instrs code (s + opcodeLen (code ! s)) e else [])"
  by auto
termination by (relation "measure (\<lambda>(code, s, e). e - s)") (use opcodeLen_pos in \<open>auto simp: diff_less_mono2\<close>)

declare instrs.simps [simp del]

text \<open>The walk from \<open>s\<close> ends exactly at \<open>e\<close>.\<close>

function ends_at :: "u8 list \<Rightarrow> nat \<Rightarrow> nat \<Rightarrow> bool" where
  "ends_at code s e = (if s < e then s < length code \<and> ends_at code (s + opcodeLen (code ! s)) e else s = e)"
  by auto
termination by (relation "measure (\<lambda>(code, s, e). e - s)") (use opcodeLen_pos in \<open>auto simp: diff_less_mono2\<close>)

declare ends_at.simps [simp del]

definition boundaries :: "u8 list \<Rightarrow> nat list" where
  "boundaries code = instrs code 0 (length code)"

lemma instrs_range: "pc \<in> set (instrs code s e) \<Longrightarrow> s \<le> pc \<and> pc < e \<and> pc < length code"
proof (induction code s e rule: instrs.induct)
  case (1 code s e)
  then show ?case by (subst (asm) instrs.simps) (auto split: if_splits)
qed

lemma instrs_distinct: "distinct (instrs code s e)"
proof (induction code s e rule: instrs.induct)
  case (1 code s e)
  have "s \<notin> set (instrs code (s + opcodeLen (code ! s)) e)"
    using instrs_range [of s code "s + opcodeLen (code ! s)" e] opcodeLen_pos [of "code ! s"] by linarith
  then show ?case using 1 by (subst instrs.simps) simp
qed

lemma instrs_length: "length (instrs code s e) \<le> length code"
proof -
  have "set (instrs code s e) \<subseteq> {..<length code}" using instrs_range [of _ code s e] by auto
  from card_mono [OF _ this] show ?thesis by (simp add: distinct_card [OF instrs_distinct])
qed

lemma ends_at_step:
  assumes "ends_at code s e" and "s < e"
  shows "s < length code" "ends_at code (s + opcodeLen (code ! s)) e" "s + opcodeLen (code ! s) \<le> e"
    "instrs code s e = s # instrs code (s + opcodeLen (code ! s)) e"
proof -
  show 1: "s < length code" and 2: "ends_at code (s + opcodeLen (code ! s)) e"
    using assms ends_at.simps [of code s e] by auto
  show "s + opcodeLen (code ! s) \<le> e" using 2 ends_at.simps [of code _ e] by (metis le_less_linear nat_less_le)
  show "instrs code s e = s # instrs code (s + opcodeLen (code ! s)) e"
    using assms(2) 1 instrs.simps [of code s e] by simp
qed

section \<open>Specification of the cache\<close>

text \<open>The immediate of a \<open>PUSH\<close>: the bytes after it, padded with zeros behind the end of the code.\<close>

definition push_bytes :: "u8 list \<Rightarrow> nat \<Rightarrow> u8 list" where
  "push_bytes code pc = take (opcodeLen (code ! pc) - 1) (drop (pc + 1) code @ replicate 32 0)"

definition dests_ok :: "u8 list \<Rightarrow> EVMBytecodeCache \<Rightarrow> bool" where
  "dests_ok code K \<longleftrightarrow> length (JumpDestMap K) = length code \<and>
     (\<forall>pc < length code. JumpDestMap K ! pc \<noteq> 0 \<longleftrightarrow> pc \<in> set (boundaries code) \<and> code ! pc = OP_JUMPDEST)"

definition pushes_ok :: "u8 list \<Rightarrow> EVMBytecodeCache \<Rightarrow> bool" where
  "pushes_ok code K \<longleftrightarrow> length (PushValueMap K) = length code \<and>
     (\<forall>pc \<in> set (boundaries code). isPushOpcode (code ! pc) \<longrightarrow>
        PushValueMap K ! pc = of_nat (be_val (push_bytes code pc)))"

text \<open>A chunk is a run of instructions of which only the last is a terminator, with the sum of their prices.\<close>

definition chunk_ok :: "(u8 \<Rightarrow> u64) \<Rightarrow> u8 list \<Rightarrow> nat \<Rightarrow> nat \<Rightarrow> u64 \<Rightarrow> bool" where
  "chunk_ok cost code s e c \<longleftrightarrow> ends_at code s e \<and>
     (\<forall>pc \<in> set (butlast (instrs code s e)). \<not> isGasChunkTerminator (code ! pc)) \<and>
     c = sum_list (map (\<lambda>pc. cost (code ! pc)) (instrs code s e))"

definition chunks_ok :: "(u8 \<Rightarrow> u64) \<Rightarrow> u8 list \<Rightarrow> EVMBytecodeCache \<Rightarrow> bool" where
  "chunks_ok cost code K \<longleftrightarrow>
     length (GasChunkEnd K) = length code \<and> length (GasChunkCost K) = length code \<and>
     (\<forall>s < length code. s < GasChunkEnd K ! s \<longrightarrow>
        chunk_ok cost code s (GasChunkEnd K ! s) (GasChunkCost K ! s))"

definition cache_ok :: "(u8 \<Rightarrow> u64) \<Rightarrow> u8 list \<Rightarrow> EVMBytecodeCache \<Rightarrow> bool" where
  "cache_ok cost code K \<longleftrightarrow> dests_ok code K \<and> pushes_ok code K \<and> chunks_ok cost code K"

end
