(* ===== verification/Interp_Inv.thy ===== *)
theory Interp_Inv
  imports Interp_Loop Opcode_Class
begin

text \<open>
  The invariant of a run of the interpreter and the contracts of its pieces. A context that runs has
  one frame, which is well formed, and the status \<open>EVMC_SUCCESS\<close>; every step keeps this or ends the run
  with a result.
\<close>

section \<open>The invariant\<close>

abbreviation cur :: "'h ctx \<Rightarrow> EVMFrame" where
  "cur C \<equiv> FrameStack C ! 0"

definition running :: "'h ctx \<Rightarrow> bool" where
  "running C \<longleftrightarrow> single_frame C \<and> frame_ok (cur C) \<and> Status C = EVMC_SUCCESS"

definition failing :: "'h ctx \<Rightarrow> bool" where
  "failing C \<longleftrightarrow> single_frame C \<and> frame_ok (cur C) \<and> Status C \<noteq> EVMC_SUCCESS \<and> Status C \<noteq> EVMC_REVERT"

text \<open>What a run keeps of its context.\<close>

definition run_step :: "'h ctx \<Rightarrow> 'h ctx \<Rightarrow> bool" where
  "run_step C C' \<longleftrightarrow> length (FrameStack C') = length (FrameStack C) \<and>
     (Inst C')\<lparr>GasRefund := 0\<rparr> = (Inst C)\<lparr>GasRefund := 0\<rparr> \<and>
     gas_of (cur C') \<le> gas_of (cur C) \<and> GasRefundSnapshot (cur C') = GasRefundSnapshot (cur C) \<and>
     CallData (cur C') = CallData (cur C) \<and> (Msg (cur C'))\<lparr>m_gas := 0\<rparr> = (Msg (cur C))\<lparr>m_gas := 0\<rparr> \<and>
     length (Memory (cur C)) \<le> length (Memory (cur C'))"

text \<open>
  How a run ends: the frame is gone and the result is set. A failure leaves no gas and no output; a
  failure and a revert restore the refund counter of the start.
\<close>

definition final :: "'h ctx \<Rightarrow> 'h ctx \<Rightarrow> bool" where
  "final C C' \<longleftrightarrow> FrameCount C' = 0 \<and>
     (Inst C')\<lparr>Gas := 0, GasRefund := 0\<rparr> = (Inst C)\<lparr>Gas := 0, GasRefund := 0\<rparr> \<and>
     Gas (Inst C') = r_gas_left (ExeResult C') \<and>
     r_gas_left (ExeResult C') \<le> gas_of (cur C) \<and>
     length (r_output (ExeResult C')) \<le> 16777216 \<and>
     (r_status (ExeResult C') \<noteq> EVMC_SUCCESS \<longrightarrow> r_gas_refund (ExeResult C') = GasRefundSnapshot (cur C)) \<and>
     (r_status (ExeResult C') \<notin> {EVMC_SUCCESS, EVMC_REVERT} \<longrightarrow>
        r_gas_left (ExeResult C') = 0 \<and> r_output (ExeResult C') = [])"

lemma run_step_refl [simp]: "run_step C C"
  by (simp add: run_step_def)

lemma run_step_trans: "run_step C D \<Longrightarrow> run_step D E \<Longrightarrow> run_step C E"
  by (auto simp: run_step_def)

lemma run_step_inst:
  assumes "run_step C D"
  shows "(Inst D)\<lparr>Gas := 0, GasRefund := 0\<rparr> = (Inst C)\<lparr>Gas := 0, GasRefund := 0\<rparr>"
proof -
  have "(Inst D)\<lparr>GasRefund := 0\<rparr> = (Inst C)\<lparr>GasRefund := 0\<rparr>" using assms by (simp add: run_step_def)
  then have "((Inst D)\<lparr>GasRefund := 0\<rparr>)\<lparr>Gas := 0\<rparr> = ((Inst C)\<lparr>GasRefund := 0\<rparr>)\<lparr>Gas := 0\<rparr>" by (rule arg_cong)
  then show ?thesis by (cases "Inst D"; cases "Inst C") simp
qed

lemma final_step: "run_step C D \<Longrightarrow> final D E \<Longrightarrow> final C E"
  using run_step_inst [of C D] by (auto simp: run_step_def final_def)

lemma running_frames: "running C \<Longrightarrow> 0 < length (FrameStack C)"
  by (simp add: running_def single_frame_def)

lemma failing_frames: "failing C \<Longrightarrow> 0 < length (FrameStack C)"
  by (simp add: failing_def single_frame_def)

text \<open>A handler's changes, written back.\<close>

lemma write_back:
  assumes "running C" and "frame_step (cur C) (F\<lparr>Pc := Pc (cur C)\<rparr>)" and "ctx_step C D"
  shows "run_step C (put_frame 0 F D)"
    and "Status D = EVMC_SUCCESS \<Longrightarrow> running (put_frame 0 F D)"
    and "Status D \<noteq> EVMC_SUCCESS \<Longrightarrow> failing (put_frame 0 F D)"
proof -
  have C: "single_frame C" "frame_ok (cur C)" "Status C = EVMC_SUCCESS" "0 < length (FrameStack C)"
    using assms(1) by (simp_all add: running_def single_frame_def)
  have F: "frame_ok F"
    using frame_step_ok [OF assms(2) C(2)] by (simp add: frame_ok_def)
  have fs: "FrameStack D = FrameStack C" using assms(3) by (simp add: ctx_step_def)
  have sf: "single_frame (put_frame 0 F D)"
    using C(1) ctx_step_res_ok [OF assms(3)] assms(3)
    by (auto simp: single_frame_def put_frame_def res_ok_def ctx_step_def getCurFrame_def)
  have cur: "cur (put_frame 0 F D) = F" using C(4) fs by (simp add: put_frame_def)
  show "run_step C (put_frame 0 F D)"
    using assms(2,3) C(4) fs by (simp add: run_step_def put_frame_def frame_step_def ctx_step_def)
  show "Status D = EVMC_SUCCESS \<Longrightarrow> running (put_frame 0 F D)"
    using sf cur F by (simp add: running_def put_frame_def)
  show "Status D \<noteq> EVMC_SUCCESS \<Longrightarrow> failing (put_frame 0 F D)"
    using sf cur F C(3) assms(3) by (simp add: failing_def put_frame_def ctx_step_def)
qed

definition settled :: "'h ctx \<Rightarrow> 'h ctx \<Rightarrow> bool" where
  "settled C D \<longleftrightarrow> run_step C D \<and> (running D \<or> failing D)"

lemma write_back_settled:
  "running C \<Longrightarrow> frame_step (cur C) (F\<lparr>Pc := Pc (cur C)\<rparr>) \<Longrightarrow> ctx_step C D \<Longrightarrow> settled C (put_frame 0 F D)"
  using write_back [of C F D] by (auto simp: settled_def)

lemma settled_failing: "settled C D \<Longrightarrow> Status D \<noteq> EVMC_SUCCESS \<Longrightarrow> run_step C D \<and> failing D"
  by (auto simp: settled_def running_def)

lemma settled_running: "settled C D \<Longrightarrow> Status D = EVMC_SUCCESS \<Longrightarrow> run_step C D \<and> running D"
  by (auto simp: settled_def failing_def)

section \<open>Handlers\<close>

lemma run_handler_settled:
  assumes "handler_ok h" and "running C"
  shows "ensures (run_handler null h C) (\<lambda>D. settled C D \<and> Pc (cur D) = Pc (cur C))"
proof -
  have C: "CurrentFrame C = Some 0" "0 < length (FrameStack C)" "frame_ok (cur C)" "res_ok C"
    using assms(2) single_frameD [of C] by (auto simp: running_def single_frame_def)
  have "ensures (h (cur C) C) (\<lambda>(F, D). frame_step (cur C) F \<and> ctx_step C D)"
    by (rule handler_okD [OF assms(1) C(3,4)])
  then have "ensures (h (cur C) C) (\<lambda>(F, D). settled C (put_frame 0 F D) \<and> Pc (cur (put_frame 0 F D)) = Pc (cur C))"
  proof (rule ensures_mono, clarify)
    fix F D
    assume s: "frame_step (cur C) F" "ctx_step C D"
    have "F\<lparr>Pc := Pc (cur C)\<rparr> = F" using s(1) by (simp add: frame_step_def)
    then have "settled C (put_frame 0 F D)" using write_back_settled [OF assms(2), of F D] s by simp
    then show "settled C (put_frame 0 F D) \<and> Pc (cur (put_frame 0 F D)) = Pc (cur C)"
      using s C(2) by (simp add: put_frame_def frame_step_def ctx_step_def)
  qed
  then show ?thesis using C by (simp add: run_handler_def ensures_simps split_def)
qed

text \<open>The stack helpers also move the program counter.\<close>

definition helper_ok :: "nat \<Rightarrow> 'h hdl \<Rightarrow> bool" where
  "helper_ok n h \<longleftrightarrow> (\<forall>F C. frame_ok F \<longrightarrow> Pc F < n \<longrightarrow>
     ensures (h F C) (\<lambda>(F', C'). frame_step F (F'\<lparr>Pc := Pc F\<rparr>) \<and> ctx_step C C' \<and> Pc F \<le> Pc F'))"

lemma frame_op_settled:
  assumes "helper_ok n h" and "running C" and "Pc (cur C) < n"
  shows "ensures (frame_op 0 h C) (\<lambda>D. settled C D \<and> Pc (cur C) \<le> Pc (cur D))"
proof -
  have C: "0 < length (FrameStack C)" "frame_ok (cur C)"
    using assms(2) by (auto simp: running_def single_frame_def)
  have "ensures (h (cur C) C)
      (\<lambda>(F, D). frame_step (cur C) (F\<lparr>Pc := Pc (cur C)\<rparr>) \<and> ctx_step C D \<and> Pc (cur C) \<le> Pc F)"
    using assms(1,3) C(2) by (simp add: helper_ok_def)
  then have "ensures (h (cur C) C) (\<lambda>(F, D). settled C (put_frame 0 F D) \<and> Pc (cur C) \<le> Pc (cur (put_frame 0 F D)))"
    by (rule ensures_mono)
      (use write_back_settled [OF assms(2)] C in \<open>auto simp: put_frame_def ctx_step_def\<close>)
  then show ?thesis using C by (simp add: frame_op_def ensures_simps split_def)
qed

lemma next_pc_running:
  assumes "running C"
  shows "ensures (next_pc 0 C) (\<lambda>D. run_step C D \<and> running D \<and> Pc (cur D) = Suc (Pc (cur C)))"
proof -
  have C: "0 < length (FrameStack C)" "frame_ok (cur C)" "Status C = EVMC_SUCCESS"
    using assms by (auto simp: running_def single_frame_def)
  have "frame_step (cur C) ((cur C\<lparr>Pc := Suc (Pc (cur C))\<rparr>)\<lparr>Pc := Pc (cur C)\<rparr>)"
    using frame_step_refl [OF C(2)] by simp
  from write_back [OF assms this ctx_step_refl] show ?thesis
    using C by (simp add: next_pc_def frame_op_def ensures_simps) (simp add: put_frame_def)
qed

lemma status_flow_failing:
  assumes "failing D" and "run_step C D"
  shows "ensures (status_flow 0 D) (\<lambda>r. \<exists>D'. r = Return D' \<and> final C D')"
proof -
  have "0 < length (FrameStack D)" "FrameCount D = 1" "Status D \<noteq> EVMC_SUCCESS" "Status D \<noteq> EVMC_REVERT"
    using assms(1) by (auto simp: failing_def single_frame_def)
  moreover have "GasRefundSnapshot (cur D) = GasRefundSnapshot (cur C)" using assms(2) by (simp add: run_step_def)
  ultimately show ?thesis using run_step_inst [OF assms(2)]
    by (simp add: status_flow_def handleExecutionStatus_def Let_def freeBackFrame_def put_frame_def
        clearReturnData_def clearReturnDataBuffer_def getCurFrame_def exe_result_def evmc_Result_def
        setGas_def setGasRefund_def ensures_simps final_def)
qed

end
