(* ===== verification/Interp_Safety.thy ===== *)
theory Interp_Safety
  imports Interp_Inv
begin

text \<open>
  Every iteration of the interpreter keeps the invariant of \<open>Interp_Inv\<close> and makes progress: the gas goes
  down or the program counter goes up. The slow path comes first, then the two fast paths, then the
  outer loop.
\<close>

section \<open>What is assumed of the external functions\<close>

definition ext_ok :: "'h ext \<Rightarrow> bool" where
  "ext_ok E \<longleftrightarrow> intx_ok E \<and> host_ok E \<and> metrics_ok E"

text \<open>
  The locals of a run: the cache describes the code under the prices of some revision, that of the module. It need not
  be the revision of the run; \<open>priced\<close> says that it is.
\<close>

definition run_env_ok :: "'h ext \<Rightarrow> interp_env \<Rightarrow> bool" where
  "run_env_ok E N \<longleftrightarrow> (\<exists>rv. cache_ok (gas_cost E rv) (ICode N) (ICache N)) \<and> length (ICode N) < 2 ^ 32"

definition priced :: "'h ext \<Rightarrow> interp_env \<Rightarrow> bool" where
  "priced E N \<longleftrightarrow> cache_ok (gas_cost E (IRev N)) (ICode N) (ICache N)"

lemma run_env_lengths:
  assumes "run_env_ok E N"
  shows "length (JumpDestMap (ICache N)) = length (ICode N)" "length (PushValueMap (ICache N)) = length (ICode N)"
    "length (GasChunkEnd (ICache N)) = length (ICode N)" "length (GasChunkCost (ICache N)) = length (ICode N)"
  using assms by (auto simp: run_env_ok_def cache_ok_def dests_ok_def pushes_ok_def chunks_ok_def)

section \<open>The handler tables\<close>

lemmas mem_ok_lemmas = doMStore_ok doMStore8_ok doMLoad_ok doCallDataCopy_ok doCodeCopy_ok doReturnDataCopy_ok
  doMCopy_ok doKeccak256_ok doExtCodeCopy_ok

lemmas storage_ok = doSLoad_ok doSStore_ok doTLoad_ok doTStore_ok

lemma map_of_all: "map_of xs k = Some v \<Longrightarrow> (\<And>k v. (k, v) \<in> set xs \<Longrightarrow> P v) \<Longrightarrow> P v"
  by (blast dest: map_of_SomeD)

lemma switch_tables_ok:
  assumes "ext_ok E"
    and "(op, h) \<in> set (switch_arith E @ switch_env E @ switch_block E @ switch_memory E @ switch_misc E)"
  shows "handler_ok h"
proof -
  have x: "intx_ok E" "host_ok E" using assms(1) by (simp_all add: ext_ok_def)
  have "\<forall>(op, h) \<in> set (switch_arith E). handler_ok h" by (simp add: switch_arith_def alu_ok)
  moreover have "\<forall>(op, h) \<in> set (switch_env E). handler_ok h"
    by (simp add: switch_env_def env_ok mem_ok_lemmas x)
  moreover have "\<forall>(op, h) \<in> set (switch_block E). handler_ok h" by (simp add: switch_block_def env_ok)
  moreover have "\<forall>(op, h) \<in> set (switch_memory E). handler_ok h"
    by (simp add: switch_memory_def storage_ok mem_ok_lemmas x)
  moreover have "\<forall>(op, h) \<in> set (switch_misc E). handler_ok h"
    by (simp add: switch_misc_def env_ok storage_ok mem_ok_lemmas)
  ultimately show ?thesis using assms(2) by fastforce
qed

lemma slow_tables_ok:
  assumes "ext_ok E"
    and "(op, h) \<in> set (slow_arith E @ slow_env E @ slow_block E @ slow_memory E @ slow_misc E)"
  shows "handler_ok h"
proof -
  have "(op, h) \<in> set (executed E (switch_arith E @ switch_env E @ switch_block E @ switch_memory E @ switch_misc E))"
    using assms(2) by (simp add: slow_arith_def slow_env_def slow_block_def slow_memory_def slow_misc_def executed_def)
  then obtain g where "(op, g) \<in> set (switch_arith E @ switch_env E @ switch_block E @ switch_memory E @ switch_misc E)"
    "h = handler_execute E op g"
    unfolding executed_def by auto
  then show ?thesis using switch_tables_ok [OF assms(1)] handler_execute_ok by blast
qed

section \<open>Stack helpers\<close>

lemma helper_okI:
  "(\<And>F C. Sp F \<le> 1024 \<Longrightarrow> mem_ok (Memory F) \<Longrightarrow> HostSet F \<Longrightarrow> gas_of F < 2 ^ 63 \<Longrightarrow> Pc F < n \<Longrightarrow>
      ensures (h F C) (\<lambda>(F', C'). frame_step F (F'\<lparr>Pc := Pc F\<rparr>) \<and> ctx_step C C' \<and> Pc F \<le> Pc F')) \<Longrightarrow> helper_ok n h"
  by (auto simp: helper_ok_def frame_ok_def)

lemma helpers_ok:
  "helper_ok n executePopOpcodeNoGas" "helper_ok n executePush0OpcodeNoGas"
  "n \<le> length PVM \<Longrightarrow> helper_ok n (executePushNOpcodeNoGas PVM op)"
  "helper_ok n (executeDupOpcodeNoGas op)" "helper_ok n (executeSwapOpcodeNoGas op)"
  by (auto intro!: helper_okI simp: ensures_simps step_defs executePopOpcodeNoGas_def
      executePush0OpcodeNoGas_def executePushNOpcodeNoGas_def executeDupOpcodeNoGas_def
      executeSwapOpcodeNoGas_def diff_less_Suc less_le_trans)

text \<open>The helpers that charge first do the same to the charged frame.\<close>

lemma charged_helper:
  assumes "helper_ok n h"
  shows "helper_ok n (\<lambda>F C. interp_chargeGas E rv op F C (\<lambda>F. h F C))"
proof -
  have "ensures (interp_chargeGas E rv op F C (\<lambda>F. h F C))
      (\<lambda>(F', C'). frame_step F (F'\<lparr>Pc := Pc F\<rparr>) \<and> ctx_step C C' \<and> Pc F \<le> Pc F')"
    if F: "frame_ok F" "Pc F < n" for F C
  proof (cases "gas_of F < gas_cost E rv op")
    case True
    then show ?thesis using frame_step_refl [OF F(1)] by (auto simp: interp_chargeGas_def)
  next
    case False
    let ?G = "set_gas (gas_of F - gas_cost E rv op) F"
    have le: "gas_of F - gas_cost E rv op \<le> gas_of F" using False by (simp add: word_sub_le)
    have G: "frame_ok ?G" "frame_step F ?G"
      using F le le_less_trans [OF le, of "2 ^ 63"] by (auto simp: frame_ok_def frame_step_def)
    have "ensures (h ?G C) (\<lambda>(F', C'). frame_step ?G (F'\<lparr>Pc := Pc ?G\<rparr>) \<and> ctx_step C C' \<and> Pc ?G \<le> Pc F')"
      using assms [unfolded helper_ok_def, rule_format, OF G(1), of C] F(2) by simp
    then have "ensures (h ?G C) (\<lambda>(F', C'). frame_step F (F'\<lparr>Pc := Pc F\<rparr>) \<and> ctx_step C C' \<and> Pc F \<le> Pc F')"
      by (rule ensures_mono) (auto intro: frame_step_trans [OF G(2)])
    then show ?thesis using False by (simp add: interp_chargeGas_def)
  qed
  then show ?thesis by (simp add: helper_ok_def)
qed

lemma charging_helpers:
  "executePopOpcode E rv op = (\<lambda>F C. interp_chargeGas E rv op F C (\<lambda>F. executePopOpcodeNoGas F C))"
  "executePush0Opcode E rv op = (\<lambda>F C. interp_chargeGas E rv op F C (\<lambda>F. executePush0OpcodeNoGas F C))"
  "executePushNOpcode E rv PVM op = (\<lambda>F C. interp_chargeGas E rv op F C (\<lambda>F. executePushNOpcodeNoGas PVM op F C))"
  "executeDupOpcode E rv op = (\<lambda>F C. interp_chargeGas E rv op F C (\<lambda>F. executeDupOpcodeNoGas op F C))"
  "executeSwapOpcode E rv op = (\<lambda>F C. interp_chargeGas E rv op F C (\<lambda>F. executeSwapOpcodeNoGas op F C))"
  by (intro ext, simp add: executePopOpcode_def executePopOpcodeNoGas_def executePush0Opcode_def
      executePush0OpcodeNoGas_def executePushNOpcode_def executePushNOpcodeNoGas_def executeDupOpcode_def
      executeDupOpcodeNoGas_def executeSwapOpcode_def executeSwapOpcodeNoGas_def)+

section \<open>The handlers that leave the frame\<close>

lemma leaves_execute:
  assumes "leaves st h"
  shows "leaves st (handler_execute E op h)"
proof -
  have "ensures (handler_execute E op h F C) (\<lambda>(F', C'). frame_step F F' \<and>
       (ctx_step C C' \<and> Status C' \<noteq> EVMC_SUCCESS \<or> left_run st F C F' C'))"
    if F: "frame_ok F" and C: "single_frame C" for F C
  proof -
    let ?c = "gas_cost E (Rev (Inst C)) op"
    let ?G = "set_gas (gas_of F - ?c) F"
    have m: "CurrentMetricsTable C = Some (Rev (Inst C))" using C by (simp add: single_frame_def res_ok_def)
    have "ensures (h ?G C) (\<lambda>(F', C'). frame_step F F' \<and>
       (ctx_step C C' \<and> Status C' \<noteq> EVMC_SUCCESS \<or> left_run st F C F' C'))" if "?c \<le> gas_of F"
    proof -
      have le: "gas_of F - ?c \<le> gas_of F" using that by (simp add: word_sub_le)
      have G: "frame_ok ?G" "frame_step F ?G"
        using F le le_less_trans [OF le, of "2 ^ 63"] by (auto simp: frame_ok_def frame_step_def)
      show ?thesis
        by (rule ensures_mono [OF assms [unfolded leaves_def, rule_format, OF G(1) C]])
          (auto simp: left_run_def intro: frame_step_trans [OF G(2)])
    qed
    then show ?thesis
      using m frame_step_refl [OF F] by (auto simp: handler_execute_def charge_or_oog_ok)
  qed
  then show ?thesis by (simp add: leaves_def)
qed

text \<open>After the handler either the frame is still there with an error status, or the run is over.\<close>

definition left_ok :: "evmc_status_code \<Rightarrow> 'h ctx \<Rightarrow> 'h ctx \<Rightarrow> bool" where
  "left_ok st C D \<longleftrightarrow> FrameCount D = 1 \<and> run_step C D \<and> failing D \<or>
     FrameCount D = 0 \<and> final C (exe_result st (Gas (Inst D)) D)"

lemma left_run_final:
  assumes "frame_step F F'" and "left_run st F C F' D" and "st \<in> {EVMC_SUCCESS, EVMC_REVERT}"
    and "gas_of F \<le> gas_of (cur C)" and "GasRefundSnapshot F = GasRefundSnapshot (cur C)"
  shows "final C (exe_result st (Gas (Inst D)) (put_frame i F' D))"
  using assms by (auto simp: final_def exe_result_def evmc_Result_def put_frame_def left_run_def frame_step_def)

lemma run_handler_left:
  assumes "leaves st h" and "running C" and "st \<in> {EVMC_SUCCESS, EVMC_REVERT}"
  shows "ensures (run_handler null h C) (left_ok st C)"
proof -
  have C: "CurrentFrame C = Some 0" "0 < length (FrameStack C)" "frame_ok (cur C)" "single_frame C"
    using assms(2) single_frameD [of C] by (auto simp: running_def)
  have "ensures (h (cur C) C) (\<lambda>(F', D). left_ok st C (put_frame 0 F' D))"
  proof (rule ensures_mono [OF assms(1) [unfolded leaves_def, rule_format, OF C(3,4)]], clarify)
    fix F' D
    assume s: "frame_step (cur C) F'"
      and o: "ctx_step C D \<and> Status D \<noteq> EVMC_SUCCESS \<or> left_run st (cur C) C F' D"
    have pc: "F'\<lparr>Pc := Pc (cur C)\<rparr> = F'" using s by (simp add: frame_step_def)
    from o show "left_ok st C (put_frame 0 F' D)"
    proof
      assume d: "ctx_step C D \<and> Status D \<noteq> EVMC_SUCCESS"
      have "FrameCount D = 1" using d C(4) by (simp add: ctx_step_def single_frame_def)
      then show ?thesis using write_back [OF assms(2), of F' D] pc s d
        by (simp add: left_ok_def put_frame_def)
    next
      assume l: "left_run st (cur C) C F' D"
      then show ?thesis using left_run_final [OF s l assms(3)] by (simp add: left_ok_def left_run_def put_frame_def)
    qed
  qed
  then show ?thesis using C by (simp add: run_handler_def ensures_simps split_def)
qed

section \<open>Jumps\<close>

text \<open>A jump that is taken lands inside the code; one that is not leaves an error or falls through.\<close>

definition jumped :: "interp_env \<Rightarrow> EVMFrame \<Rightarrow> 'h ctx \<Rightarrow> bool \<times> EVMFrame \<times> 'h ctx \<Rightarrow> bool" where
  "jumped N F C = (\<lambda>(taken, F', C'). frame_step F (F'\<lparr>Pc := Pc F\<rparr>) \<and> ctx_step C C' \<and>
     (if taken then Pc F' < length (ICode N) \<and> C' = C else Pc F' = Pc F))"

lemma switch_jumps:
  assumes "run_env_ok E N" and "frame_ok F"
  shows "ensures (switch_JUMP N F C) (jumped N F C)" "ensures (switch_JUMPI N F C) (jumped N F C)"
  using assms run_env_lengths(1) [OF assms(1)]
  by (auto simp: switch_JUMP_def switch_JUMPI_def switch_goto_def ensures_simps jumped_def step_defs frame_ok_def)

section \<open>The slow path\<close>

definition slow_ok :: "interp_env \<Rightarrow> 'h ctx \<Rightarrow> 'h slow_end \<Rightarrow> bool" where
  "slow_ok N C r = (case r of
     SlowBreak j D \<Rightarrow> j = 0 \<and> settled C D \<and> (running D \<longrightarrow> Pc (cur C) \<le> Pc (cur D))
   | SlowContinue j D \<Rightarrow> j = 0 \<and> run_step C D \<and> running D \<and> gas_of (cur D) < gas_of (cur C)
   | SlowReturn D \<Rightarrow> final C D)"

lemma slow_plain_ok:
  "ensures r (\<lambda>D. settled C D \<and> Pc (cur C) \<le> Pc (cur D)) \<Longrightarrow> ensures (slow_plain 0 r) (slow_ok N C)"
  by (auto simp: slow_plain_def ensures_simps slow_ok_def elim: ensures_mono)

lemma slow_handler_ok:
  assumes "handler_ok h" and "running C"
  shows "ensures (slow_plain 0 (run_handler null h C)) (slow_ok N C)"
  by (rule slow_plain_ok, rule ensures_mono [OF run_handler_settled [OF assms]]) simp

lemma slow_execute_ok: "handler_ok h \<Longrightarrow> running C \<Longrightarrow> ensures (slow_execute E 0 op h C) (slow_ok N C)"
  unfolding slow_execute_def by (rule slow_handler_ok [OF handler_execute_ok])

lemma slow_helper_ok:
  "helper_ok n h \<Longrightarrow> running C \<Longrightarrow> Pc (cur C) < n \<Longrightarrow> ensures (slow_plain 0 (frame_op 0 h C)) (slow_ok N C)"
  by (rule slow_plain_ok, rule frame_op_settled)

lemma slow_leave_ok:
  assumes "leaves st h" and "running C" and "st \<in> {EVMC_SUCCESS, EVMC_REVERT}"
  shows "ensures (slow_leave E op st h C) (slow_ok N C)"
  unfolding slow_leave_def ensures_bindE
  by (rule ensures_mono [OF run_handler_left [OF leaves_execute [OF assms(1)] assms(2,3)]])
    (auto simp: left_ok_def getCurFrame_def slow_ok_def settled_def failing_def running_def)

lemma slow_STOP_ok: "running C \<Longrightarrow> ensures (slow_STOP C) (slow_ok N C)"
  by (auto simp: slow_STOP_def clearReturnData_def clearReturnDataBuffer_def freeBackFrame_def ensures_simps getCurFrame_def
      running_def single_frame_def slow_ok_def final_def exe_result_def evmc_Result_def setGas_def)

lemma sint_pos_scast: "0 < sint (x :: i16) \<Longrightarrow> 0 < (scast x :: u64)"
proof -
  assume "0 < sint x"
  moreover have "sint x < 2 ^ 63" using sint_lt [of x] by simp
  ultimately have "sint (scast x :: u64) = sint x"
    using int_word_sint [of "sint x", where 'a = 64] by (simp add: mod_pos_pos_trivial)
  with \<open>0 < sint x\<close> have "(scast x :: u64) \<noteq> 0" by auto
  then show ?thesis by (simp add: word_neq_0_conv)
qed

lemma jump_costs:
  assumes "ext_ok E" and "op = OP_JUMP \<or> op = OP_JUMPI"
  shows "0 < gas_cost E rv op"
  using assms by (auto simp: ext_ok_def metrics_ok_def gas_cost_def intro: sint_pos_scast)

lemma slow_jump_ok:
  assumes "running C" and "0 < gas_cost E (IRev N) op"
    and "\<And>F. frame_ok F \<Longrightarrow> ensures (f F C) (jumped N F C)"
  shows "ensures (slow_jump E N 0 op f C) (slow_ok N C)"
proof -
  let ?F = "cur C" let ?c = "gas_cost E (IRev N) op"
  have C: "0 < length (FrameStack C)" "frame_ok ?F" "Status C = EVMC_SUCCESS"
    using assms(1) by (auto simp: running_def single_frame_def)
  show ?thesis
  proof (cases "gas_of ?F < ?c")
    case True
    have "settled C (put_frame 0 ?F (setStatus EVMC_OUT_OF_GAS C))"
      by (rule write_back_settled [OF assms(1)]) (use frame_step_refl [OF C(2)] in auto)
    moreover have "put_frame 0 ?F (setStatus EVMC_OUT_OF_GAS C) = setStatus EVMC_OUT_OF_GAS C"
      by (simp add: put_frame_def)
    ultimately show ?thesis using True C by (simp add: slow_jump_def Let_def slow_ok_def running_def)
  next
    case False
    let ?G = "set_gas (gas_of ?F - ?c) ?F"
    have le: "gas_of ?F - ?c < gas_of ?F"
      using False assms(2) by (simp add: word_less_nat_alt unat_sub word_le_nat_alt)
    have G: "frame_ok ?G" "frame_step ?F ?G"
      using C(2) le less_trans [OF le, of "2 ^ 63"] by (auto simp: frame_ok_def frame_step_def)
    have "ensures (f ?G C) (\<lambda>(taken, F', D). slow_ok N C
        (if taken then SlowContinue 0 (put_frame 0 F' D) else SlowBreak 0 (put_frame 0 F' D)))"
    proof (rule ensures_mono [OF assms(3) [OF G(1)]], clarify)
      fix taken F' D
      assume j: "jumped N ?G C (taken, F', D)"
      have st: "frame_step ?F (F'\<lparr>Pc := Pc ?F\<rparr>)" and cs: "ctx_step C D"
        using j frame_step_trans [OF G(2)] by (auto simp: jumped_def)
      have g: "gas_of F' < gas_of ?F" using j le by (auto simp: jumped_def frame_step_def)
      show "slow_ok N C (if taken then SlowContinue 0 (put_frame 0 F' D) else SlowBreak 0 (put_frame 0 F' D))"
        using write_back [OF assms(1) st cs] write_back_settled [OF assms(1) st cs] j g C cs
        by (auto simp: slow_ok_def jumped_def put_frame_def ctx_step_def)
    qed
    then show ?thesis using False C by (simp add: slow_jump_def Let_def ensures_simps split_def)
  qed
qed

lemma set_status_settled:
  "running C \<Longrightarrow> st \<noteq> EVMC_SUCCESS \<Longrightarrow> st \<noteq> EVMC_REVERT \<Longrightarrow> run_step C (setStatus st C) \<and> failing (setStatus st C)"
  by (simp add: running_def failing_def run_step_def single_frame_def res_ok_def getCurFrame_def)

lemma log_range: "OP_LOG0 \<le> op \<Longrightarrow> op \<le> OP_LOG4 \<Longrightarrow> unat (op - OP_LOG0) \<le> 4"
  by (simp add: word_le_nat_alt unat_sub)

lemma slow_control_ok:
  assumes "ext_ok E" and "run_env_ok E N" and "running C" and "Pc (cur C) < length (ICode N)"
  shows "ensures (slow_control E N 0 op C) (slow_ok N C)"
proof -
  have fo: "\<And>F. frame_ok F \<Longrightarrow> ensures (switch_JUMP N F C) (jumped N F C)"
    "\<And>F. frame_ok F \<Longrightarrow> ensures (switch_JUMPI N F C) (jumped N F C)"
    using switch_jumps [OF assms(2)] by blast+
  have inv: "ensures (Inr (SlowBreak 0 (setStatus EVMC_INVALID_INSTRUCTION C))) (slow_ok N C)"
    using set_status_settled [OF assms(3)] by (auto simp: slow_ok_def settled_def running_def)
  have x: "host_ok E" using assms(1) by (simp add: ext_ok_def)
  have dest: "helper_ok (length (ICode N)) (\<lambda>F C. interp_chargeGas E rv op F C (\<lambda>F. Inr (F, C)))" for rv
    by (rule charged_helper) (auto intro!: helper_okI simp: step_defs)
  note helper = slow_helper_ok [OF _ assms(3,4)] charged_helper helpers_ok dest
  show ?thesis
    unfolding slow_control_def charging_helpers ensures_if
    using assms run_env_lengths(2) [OF assms(2)]
    by (intro conjI impI slow_STOP_ok slow_jump_ok slow_leave_ok slow_execute_ok doReturn_leaves doRevert_leaves
        doSelfDestruct_leaves doLog_ok log_range doCreate_ok doCall_ok x inv helper fo jump_costs) simp_all
qed

lemma slow_op_ok:
  assumes "ext_ok E" and "run_env_ok E N" and "running C" and "Pc (cur C) < length (ICode N)"
  shows "ensures (slow_op E N 0 op C) (slow_ok N C)"
  unfolding slow_op_def
  by (auto split: option.split simp del: map_of_append set_append
      intro: slow_control_ok [OF assms] slow_handler_ok [OF _ assms(3)] slow_tables_ok [OF assms(1) map_of_SomeD])

section \<open>An iteration of the outer loop\<close>

definition flow_ok :: "interp_env \<Rightarrow> 'h ctx \<Rightarrow> 'h flow \<Rightarrow> bool" where
  "flow_ok N C r = (case r of
     Continue j D \<Rightarrow> j = 0 \<and> run_step C D \<and> running D \<and>
       (gas_of (cur D) < gas_of (cur C) \<or> Pc (cur C) < Pc (cur D))
   | Break D \<Rightarrow> False
   | Return D \<Rightarrow> final C D)"

text \<open>The part that does not depend on the prices.\<close>

definition flow_safe :: "'h ctx \<Rightarrow> 'h flow \<Rightarrow> bool" where
  "flow_safe C r = (case r of
     Continue j D \<Rightarrow> j = 0 \<and> run_step C D \<and> running D | Break D \<Rightarrow> False | Return D \<Rightarrow> final C D)"

lemma flow_ok_safe: "flow_ok N C r \<Longrightarrow> flow_safe C r"
  by (simp add: flow_ok_def flow_safe_def split: flow.splits)

lemma status_flow_ok: "failing D \<Longrightarrow> run_step C D \<Longrightarrow> ensures (status_flow 0 D) (flow_ok N C)"
  by (rule ensures_mono [OF status_flow_failing]) (auto simp: flow_ok_def)

lemma slow_step_ok:
  assumes "ext_ok E" and "run_env_ok E N" and "running C" and "Pc (cur C) < length (ICode N)"
  shows "ensures (slow_step E N 0 (Pc (cur C)) C) (flow_ok N C)"
proof -
  have next_ok: "ensures (next_pc 0 D) (\<lambda>D'. flow_ok N C (Continue 0 D'))"
    if D: "settled C D" "running D" "Pc (cur C) \<le> Pc (cur D)" for D
    by (rule ensures_mono [OF next_pc_running [OF D(2)]])
      (use D in \<open>auto simp: flow_ok_def settled_def intro: run_step_trans\<close>)
  have ends: "ensures (case r of SlowReturn C \<Rightarrow> Inr (Return C) | SlowContinue j C \<Rightarrow> Inr (Continue j C)
       | SlowBreak j C \<Rightarrow> if Status C \<noteq> EVMC_SUCCESS then status_flow j C
           else bindE (next_pc j C) (\<lambda>C. Inr (Continue j C))) (flow_ok N C)"
    if r: "slow_ok N C r" for r
  proof (cases r)
    case (SlowBreak j D)
    then show ?thesis
      using r next_ok [of D] settled_running [of C D] settled_failing [of C D] status_flow_ok [of D C]
      by (auto simp: slow_ok_def ensures_simps)
  qed (use r in \<open>auto simp: slow_ok_def flow_ok_def\<close>)
  show ?thesis
    using assms(4) set_status_settled [OF assms(3), of EVMC_UNDEFINED_INSTRUCTION]
    by (auto simp: slow_step_def ensures_simps intro: status_flow_ok ensures_mono [OF slow_op_ok [OF assms]] ends)
qed

end
