(* ===== verification/Cgoto_Safety.thy ===== *)
theory Cgoto_Safety
  imports Interp_Safety
begin

text \<open>
  The contract of the computed-goto targets. While the fast path runs, \<open>Pc\<close> and \<open>sp\<close> are locals; the
  state that the frame would have if they were written back is \<open>written F pc sp C\<close>.
\<close>

definition written :: "EVMFrame \<Rightarrow> nat \<Rightarrow> nat \<Rightarrow> 'h ctx \<Rightarrow> 'h ctx" where
  "written F pc sp C = put_frame 0 (F\<lparr>Sp := sp, Pc := pc\<rparr>) C"

lemma written_Inst [simp]: "Inst (written F pc sp C) = Inst C"
  by (simp add: written_def put_frame_def)

definition cg_ok :: "u8 \<Rightarrow> nat \<Rightarrow> 'h ctx \<Rightarrow> 'h cgoto \<Rightarrow> bool" where
  "cg_ok op pc D r = (case r of
     Dispatch F' pc' sp' C' \<Rightarrow> run_step D (written F' pc' sp' C') \<and> running (written F' pc' sp' C') \<and>
       pc' = pc + opcodeLen op
   | CgError F' pc' sp' C' \<Rightarrow> run_step D (written F' pc' sp' C') \<and> failing (written F' pc' sp' C')
   | CgRestart j C' \<Rightarrow> j = 0 \<and> isJumpOpcode op \<and> run_step D C' \<and> running C'
   | CgBreak C' \<Rightarrow> False
   | CgReturn C' \<Rightarrow> final D C')"

definition target_ok :: "interp_env \<Rightarrow> u8 \<Rightarrow> 'h target \<Rightarrow> bool" where
  "target_ok N op t \<longleftrightarrow> (\<forall>F pc sp C. running (written F pc sp C) \<longrightarrow> pc < length (ICode N) \<longrightarrow> ICode N ! pc = op \<longrightarrow>
     ensures (t N 0 F pc sp C) (cg_ok op pc (written F pc sp C)))"

lemma running_written:
  assumes "running (written F pc sp C)"
  shows "sp \<le> 1024" "mem_ok (Memory F)" "HostSet F" "gas_of F < 2 ^ 63" "CurrentFrame C = Some 0" "FrameCount C = 1"
    "0 < length (FrameStack C)" "Status C = EVMC_SUCCESS"
    "cur (written F pc sp C) = F\<lparr>Sp := sp, Pc := pc\<rparr>"
proof -
  have "0 < length (FrameStack C)" using running_frames [OF assms] by (simp add: written_def put_frame_def)
  then show "0 < length (FrameStack C)" "cur (written F pc sp C) = F\<lparr>Sp := sp, Pc := pc\<rparr>"
    by (simp_all add: written_def put_frame_def)
  then show "sp \<le> 1024" "mem_ok (Memory F)" "HostSet F" "gas_of F < 2 ^ 63" "CurrentFrame C = Some 0" "FrameCount C = 1"
    "Status C = EVMC_SUCCESS"
    using assms single_frameD [of "written F pc sp C"]
    by (simp_all add: running_def frame_ok_def written_def put_frame_def)
qed

lemma written_written: "written F' pc' sp' C = put_frame 0 (F'\<lparr>Sp := sp', Pc := pc'\<rparr>) (written F pc sp C)"
  by (simp add: written_def put_frame_def)

lemma cg_step:
  assumes "running (written F pc sp C)" and "frame_step (F\<lparr>Sp := sp, Pc := pc\<rparr>) (F'\<lparr>Sp := sp', Pc := pc\<rparr>)"
  shows "run_step (written F pc sp C) (written F' pc' sp' C)" "running (written F' pc' sp' C)"
proof -
  have "frame_step (cur (written F pc sp C)) (F'\<lparr>Sp := sp', Pc := pc'\<rparr>\<lparr>Pc := Pc (cur (written F pc sp C))\<rparr>)"
    using assms by (simp add: running_written)
  note wb = write_back [OF assms(1) this ctx_step_refl, folded written_written]
  show "run_step (written F pc sp C) (written F' pc' sp' C)" by (rule wb(1))
  show "running (written F' pc' sp' C)" using wb(2) running_written(8) [OF assms(1)]
    by (simp add: written_def put_frame_def)
qed

lemma cg_stop:
  assumes "running (written F pc sp C)" and "frame_step (F\<lparr>Sp := sp, Pc := pc\<rparr>) (F\<lparr>Sp := sp', Pc := pc\<rparr>)"
    and "st \<noteq> EVMC_SUCCESS" and "st \<noteq> EVMC_REVERT"
  shows "run_step (written F pc sp C) (written F pc' sp' (setStatus st C))" "failing (written F pc' sp' (setStatus st C))"
proof -
  have w: "written F pc' sp' (setStatus st C) = put_frame 0 (F\<lparr>Sp := sp', Pc := pc'\<rparr>) (setStatus st (written F pc sp C))"
    by (simp add: written_def put_frame_def)
  show "run_step (written F pc sp C) (written F pc' sp' (setStatus st C))" "failing (written F pc' sp' (setStatus st C))"
    using write_back [OF assms(1), of "F\<lparr>Sp := sp', Pc := pc'\<rparr>" "setStatus st (written F pc sp C)"] assms
      ctx_step_status [OF ctx_step_refl assms(4), of "written F pc sp C"]
    by (auto simp: w running_written)
qed

lemma target_okI:
  assumes "\<And>F pc sp C. running (written F pc sp C) \<Longrightarrow> pc < length (ICode N) \<Longrightarrow> ICode N ! pc = op \<Longrightarrow>
    sp \<le> 1024 \<Longrightarrow> mem_ok (Memory F) \<Longrightarrow> HostSet F \<Longrightarrow> ensures (t N 0 F pc sp C) (cg_ok op pc (written F pc sp C))"
  shows "target_ok N op t"
  unfolding target_ok_def by (intro allI impI assms) (assumption | rule running_written)+

section \<open>Inlined targets\<close>

lemmas inline_simps = ensures_simps cg_ok_def cg_step cg_stop frame_step_def Let_def

lemma TARGET_BINARY_ok: "opcodeLen op = 1 \<Longrightarrow> target_ok N op (TARGET_BINARY f)"
  by (rule target_okI) (auto simp: TARGET_BINARY_def inline_simps)

lemma TARGET_TERNARY_ok: "opcodeLen op = 1 \<Longrightarrow> target_ok N op (TARGET_TERNARY f)"
  by (rule target_okI) (auto simp: TARGET_TERNARY_def inline_simps)

lemma TARGET_UNARY_ok: "opcodeLen op = 1 \<Longrightarrow> target_ok N op (TARGET_UNARY f)"
  by (rule target_okI) (auto simp: TARGET_UNARY_def inline_simps)

lemma TARGET_POP_ok: "opcodeLen op = 1 \<Longrightarrow> target_ok N op TARGET_POP"
  by (rule target_okI) (auto simp: TARGET_POP_def inline_simps)

lemma TARGET_PUSH0_ok: "opcodeLen op = 1 \<Longrightarrow> target_ok N op TARGET_PUSH0"
  by (rule target_okI) (auto simp: TARGET_PUSH0_def inline_simps)

lemma TARGET_PUSHX_ok:
  "run_env_ok E N \<Longrightarrow> OP_PUSH1 \<le> op \<Longrightarrow> op \<le> OP_PUSH32 \<Longrightarrow> target_ok N op TARGET_PUSHX"
  by (rule target_okI) (auto simp: TARGET_PUSHX_def inline_simps run_env_lengths(2) opcodeLen_push)

lemma TARGET_DUPX_ok: "opcodeLen op = 1 \<Longrightarrow> target_ok N op TARGET_DUPX"
  by (rule target_okI) (auto simp: TARGET_DUPX_def inline_simps)

lemma TARGET_SWAPX_ok: "opcodeLen op = 1 \<Longrightarrow> target_ok N op TARGET_SWAPX"
  by (rule target_okI) (auto simp: TARGET_SWAPX_def inline_simps)

lemma TARGET_JUMPDEST_ok: "opcodeLen op = 1 \<Longrightarrow> target_ok N op TARGET_JUMPDEST"
  by (rule target_okI) (auto simp: TARGET_JUMPDEST_def inline_simps)

lemma TARGET_INVALID_ok: "target_ok N op TARGET_INVALID"
  by (rule target_okI) (auto simp: TARGET_INVALID_def inline_simps)

lemma TARGET_UNDEFINED_ok: "target_ok N op TARGET_UNDEFINED"
  by (rule target_okI) (auto simp: TARGET_UNDEFINED_def inline_simps)

lemma cg_restart:
  assumes "running (written F pc sp C)" and "frame_step (F\<lparr>Sp := sp, Pc := pc\<rparr>) (F\<lparr>Sp := sp', Pc := pc\<rparr>)"
  shows "run_step (written F pc sp C) (put_frame 0 (F\<lparr>Sp := sp', Pc := d\<rparr>) C)"
    "running (put_frame 0 (F\<lparr>Sp := sp', Pc := d\<rparr>) C)"
  using cg_step [OF assms, of d] by (simp_all add: written_def [of _ d])

lemma TARGET_JUMP_ok: "run_env_ok E N \<Longrightarrow> opcodeLen op = 1 \<Longrightarrow> isJumpOpcode op \<Longrightarrow> target_ok N op TARGET_JUMP"
  by (rule target_okI)
    (auto simp: TARGET_JUMP_def cg_jump_def inline_simps run_env_lengths(1) cg_restart)

lemma TARGET_JUMPI_ok: "run_env_ok E N \<Longrightarrow> opcodeLen op = 1 \<Longrightarrow> isJumpOpcode op \<Longrightarrow> target_ok N op TARGET_JUMPI"
  by (rule target_okI)
    (auto simp: TARGET_JUMPI_def cg_jump_def inline_simps run_env_lengths(1) cg_restart)

lemma TARGET_STOP_ok: "target_ok N op TARGET_STOP"
proof (rule target_okI)
  fix F pc sp and C :: "'a ctx"
  assume r: "running (written F pc sp C)"
  then show "ensures (TARGET_STOP N 0 F pc sp C) (cg_ok op pc (written F pc sp C))"
    using running_written [OF r]
    by (simp add: TARGET_STOP_def Let_def freeBackFrame_def ensures_simps getCurFrame_def cg_ok_def final_def
        exe_result_def evmc_Result_def setGas_def put_frame_def)
qed

section \<open>Targets that call a handler\<close>

lemma handler_written:
  assumes "running (written F pc sp C)"
  shows "setExecutionContext (Some 0) (put_frame 0 (F\<lparr>Sp := sp, Pc := pc\<rparr>) C) = written F pc sp C"
  using running_written(5) [OF assms] by (simp add: written_def put_frame_def setExecutionContext_def)

lemma HANDLER_CALL_ok:
  assumes "handler_ok h" and "opcodeLen op = 1"
  shows "target_ok N op (HANDLER_CALL h)"
proof (rule target_okI)
  fix F pc sp and C :: "'a ctx"
  assume r: "running (written F pc sp C)"
  let ?W = "written F pc sp C" and ?G = "F\<lparr>Sp := sp, Pc := pc\<rparr>"
  have W: "frame_ok ?G" "res_ok ?W" using r running_written(9) [OF r] by (simp_all add: running_def single_frame_def)
  have "ensures (h ?G ?W) (\<lambda>(F', C'). cg_ok op pc ?W
      (if Status C' \<noteq> EVMC_SUCCESS then CgError F' (pc + 1) (Sp F') C' else Dispatch F' (pc + 1) (Sp F') C'))"
  proof (rule ensures_mono [OF handler_okD [OF assms(1) W]], clarify)
    fix F' C'
    assume s: "frame_step ?G F'" "ctx_step ?W C'"
    have w: "written F' (pc + 1) (Sp F') C' = put_frame 0 (F'\<lparr>Pc := pc + 1\<rparr>) C'" by (simp add: written_def)
    have "F'\<lparr>Pc := pc + 1\<rparr>\<lparr>Pc := pc\<rparr> = F'" using s(1) by (simp add: frame_step_def)
    then have fs: "frame_step (cur ?W) (F'\<lparr>Pc := pc + 1\<rparr>\<lparr>Pc := Pc (cur ?W)\<rparr>)"
      using s(1) running_written(9) [OF r] by simp
    show "cg_ok op pc ?W (if Status C' \<noteq> EVMC_SUCCESS then CgError F' (pc + 1) (Sp F') C' else Dispatch F' (pc + 1) (Sp F') C')"
      using write_back [OF r fs s(2), folded w] assms(2) by (simp add: cg_ok_def)
  qed
  then show "ensures (HANDLER_CALL h N 0 F pc sp C) (cg_ok op pc ?W)"
    unfolding HANDLER_CALL_def Let_def handler_written [OF r] ensures_bindE
    by (rule ensures_mono) auto
qed

lemma TARGET_MULTI_ok:
  assumes "handler_ok (h op)" and "opcodeLen op = 1"
  shows "target_ok N op (TARGET_MULTI h)"
  using HANDLER_CALL_ok [OF assms] by (auto simp: target_ok_def TARGET_MULTI_def ensures_simps)

lemma handle_failing:
  assumes "failing D" and "run_step C D"
  shows "ensures (handleExecutionStatus 0 D) (\<lambda>(ret, D'). ret \<and> final C D')"
  using status_flow_failing [OF assms] unfolding status_flow_def ensures_bindE
  by (rule ensures_mono) (auto split: if_splits)

lemma TARGET_LEAVE_ok:
  assumes "leaves st h" and "st \<in> {EVMC_SUCCESS, EVMC_REVERT}"
  shows "target_ok N op (TARGET_LEAVE st h)"
proof (rule target_okI)
  fix F pc sp and C :: "'a ctx"
  assume r: "running (written F pc sp C)"
  let ?W = "written F pc sp C"
  have W: "CurrentFrame ?W = Some 0" "cur ?W = F\<lparr>Sp := sp, Pc := pc\<rparr>" "0 < length (FrameStack ?W)"
    using running_written [OF r] by (simp_all add: written_def put_frame_def)
  have rh: "bindE (h (F\<lparr>Sp := sp, Pc := pc\<rparr>) ?W) (\<lambda>(F, C). k (put_frame 0 F C)) = bindE (run_handler UB h ?W) k"
    for k :: "'a ctx \<Rightarrow> 'a cgoto res"
    using W by (simp add: run_handler_def bindE_assoc split_def)
  have "ensures (case getCurFrame D of None \<Rightarrow> Inr (CgReturn (exe_result st (Gas (Inst D)) D))
      | Some j \<Rightarrow> if Status D \<noteq> EVMC_SUCCESS
          then bindE (handleExecutionStatus j D) (\<lambda>(done, D). if done then Inr (CgReturn D) else Inr (CgBreak D))
          else Inr (CgRestart j D)) (cg_ok op pc ?W)"
    if D: "left_ok st ?W D" for D
  proof (cases "FrameCount D = 0")
    case True
    then show ?thesis using D by (auto simp: left_ok_def getCurFrame_def cg_ok_def)
  next
    case False
    then have f: "FrameCount D = 1" "failing D" "run_step ?W D" using D by (auto simp: left_ok_def)
    have "Status D \<noteq> EVMC_SUCCESS" using f(2) by (simp add: failing_def)
    then show ?thesis using f(1) ensures_mono [OF handle_failing [OF f(2,3)]]
      by (auto simp: getCurFrame_def ensures_bindE cg_ok_def)
  qed
  then have "ensures (bindE (run_handler UB h ?W) (\<lambda>D. case getCurFrame D of
        None \<Rightarrow> Inr (CgReturn (exe_result st (Gas (Inst D)) D))
      | Some j \<Rightarrow> if Status D \<noteq> EVMC_SUCCESS
          then bindE (handleExecutionStatus j D) (\<lambda>(done, D). if done then Inr (CgReturn D) else Inr (CgBreak D))
          else Inr (CgRestart j D))) (cg_ok op pc ?W)"
    unfolding ensures_bindE by (rule ensures_mono [OF run_handler_left [OF assms(1) r assms(2)]])
  then show "ensures (TARGET_LEAVE st h N 0 F pc sp C) (cg_ok op pc ?W)"
    unfolding TARGET_LEAVE_def Let_def handler_written [OF r] rh [symmetric] .
qed

section \<open>The table\<close>

lemma add_not_push: "\<not> OP_PUSH1 \<le> 1"
  by (simp add: word_le_nat_alt)

lemma cg_handlers_ok:
  assumes "ext_ok E" and "run_env_ok E N"
    and "(op, t) \<in> set (cg_inline_arith E @ cg_inline_bits E @ cg_arith E @ cg_env E @ cg_block E @ cg_memory E @ cg_control E)"
  shows "target_ok N op t"
proof -
  have x: "intx_ok E" "host_ok E" using assms(1) by (simp_all add: ext_ok_def)
  note tgts = TARGET_BINARY_ok TARGET_TERNARY_ok TARGET_UNARY_ok HANDLER_CALL_ok opcodeLen_def add_not_push x
  have "\<forall>(op, t) \<in> set (cg_inline_arith E). target_ok N op t" by (simp add: cg_inline_arith_def tgts)
  moreover have "\<forall>(op, t) \<in> set (cg_inline_bits E). target_ok N op t" by (simp add: cg_inline_bits_def tgts)
  moreover have "\<forall>(op, t) \<in> set (cg_arith E). target_ok N op t"
    by (simp add: cg_arith_def tgts alu_ok mem_ok_lemmas)
  moreover have "\<forall>(op, t) \<in> set (cg_env E). target_ok N op t"
    by (simp add: cg_env_def tgts env_ok mem_ok_lemmas)
  moreover have "\<forall>(op, t) \<in> set (cg_block E). target_ok N op t" by (simp add: cg_block_def tgts env_ok)
  moreover have "\<forall>(op, t) \<in> set (cg_memory E). target_ok N op t"
    by (simp add: cg_memory_def tgts env_ok storage_ok mem_ok_lemmas)
  moreover have "\<forall>(op, t) \<in> set (cg_control E). target_ok N op t"
    by (simp add: cg_control_def tgts TARGET_STOP_ok TARGET_POP_ok TARGET_JUMP_ok [OF assms(2)] TARGET_JUMPI_ok [OF assms(2)]
        TARGET_JUMPDEST_ok TARGET_PUSH0_ok TARGET_MULTI_ok TARGET_LEAVE_ok TARGET_INVALID_ok doReturn_leaves
        doRevert_leaves doSelfDestruct_leaves doCreate_ok doCall_ok isJumpOpcode_def)
  ultimately show ?thesis using assms(3) by fastforce
qed

lemma len_one: "\<not> (OP_PUSH1 \<le> op \<and> op \<le> OP_PUSH32) \<Longrightarrow> opcodeLen op = 1"
  by (auto simp: opcodeLen_def)

lemma cgoto_base_ok:
  assumes "ext_ok E" and "run_env_ok E N"
  shows "target_ok N op (cgoto_base E op)"
proof (cases "map_of (cg_inline_arith E @ cg_inline_bits E @ cg_arith E @ cg_env E @ cg_block E @ cg_memory E @ cg_control E) op")
  case None
  have log: "target_ok N op (TARGET_MULTI (doLog E))" if "0xa0 \<le> op \<and> op \<le> 0xa4"
    using that log_range [of op] by (intro TARGET_MULTI_ok doLog_ok len_one) (auto simp: word_le_nat_alt)
  have dup: "target_ok N op TARGET_DUPX" if "0x80 \<le> op \<and> op \<le> 0x8f"
    using that by (intro TARGET_DUPX_ok len_one) (auto simp: word_le_nat_alt)
  have swap: "target_ok N op TARGET_SWAPX" if "0x90 \<le> op \<and> op \<le> 0x9f"
    using that by (intro TARGET_SWAPX_ok len_one) (auto simp: word_le_nat_alt)
  show ?thesis unfolding cgoto_base_def None
    using log dup swap TARGET_PUSHX_ok [OF assms(2)] TARGET_UNDEFINED_ok by auto
next
  case (Some t)
  then show ?thesis unfolding cgoto_base_def Some
    using cg_handlers_ok [OF assms map_of_SomeD [OF Some]] by simp
qed

lemma cgoto_table_ok: "ext_ok E \<Longrightarrow> run_env_ok E N \<Longrightarrow> target_ok N op (cgoto_table E rv op)"
  by (simp add: cgoto_table_def cgoto_base_ok TARGET_UNDEFINED_ok)

end
