(* ===== verification/Interp_Termination.thy ===== *)
theory Interp_Termination
  imports Cgoto_Safety
begin

text \<open>
  The loops of the interpreter end. A chunk is left after at most as many dispatches as it has bytes.
  An iteration of the outer loop lowers the gas or raises the program counter: only a jump moves the
  program counter back, and a chunk with a jump has a positive price.
\<close>

section \<open>A chunk\<close>

text \<open>The instructions from \<open>pc\<close> contain a jump, and the revision has it and all instructions before it.\<close>

definition jumps_from :: "'h ext \<Rightarrow> interp_env \<Rightarrow> nat \<Rightarrow> nat \<Rightarrow> bool" where
  "jumps_from E N pc e \<longleftrightarrow> (\<exists>xs p ys. instrs (ICode N) pc e = xs @ p # ys \<and> isJumpOpcode (ICode N ! p) \<and>
     (\<forall>q \<in> set (xs @ [p]). op_defined E (IRev N) (ICode N ! q)))"

definition chunk_flow :: "'h ext \<Rightarrow> interp_env \<Rightarrow> nat \<Rightarrow> nat \<Rightarrow> 'h ctx \<Rightarrow> 'h flow \<Rightarrow> bool" where
  "chunk_flow E N pc e C r = (case r of
     Continue j D \<Rightarrow> j = 0 \<and> run_step C D \<and> running D \<and> (Pc (cur D) = e \<or> jumps_from E N pc e)
   | Break D \<Rightarrow> False
   | Return D \<Rightarrow> final C D)"

lemma jumps_from_here:
  assumes "ends_at (ICode N) pc e" and "pc < e" and "op_defined E (IRev N) (ICode N ! pc)"
  shows "isJumpOpcode (ICode N ! pc) \<Longrightarrow> jumps_from E N pc e"
    and "jumps_from E N (pc + opcodeLen (ICode N ! pc)) e \<Longrightarrow> jumps_from E N pc e"
proof -
  note st = ends_at_step(4) [OF assms(1,2)]
  show "isJumpOpcode (ICode N ! pc) \<Longrightarrow> jumps_from E N pc e"
    using assms(3) st unfolding jumps_from_def by (intro exI [of _ "[]"]) auto
  assume "jumps_from E N (pc + opcodeLen (ICode N ! pc)) e"
  then obtain xs p ys where "instrs (ICode N) (pc + opcodeLen (ICode N ! pc)) e = xs @ p # ys"
    "isJumpOpcode (ICode N ! p)" "\<forall>q \<in> set (xs @ [p]). op_defined E (IRev N) (ICode N ! q)"
    unfolding jumps_from_def by blast
  then show "jumps_from E N pc e"
    using assms(3) st unfolding jumps_from_def by (intro exI [of _ "pc # xs"] exI [of _ p] exI [of _ ys]) auto
qed

lemma chunk_flow_step:
  assumes "chunk_flow E N pc' e D r" and "run_step C D" and "jumps_from E N pc' e \<Longrightarrow> jumps_from E N pc e"
  shows "chunk_flow E N pc e C r"
  using assms by (auto simp: chunk_flow_def split: flow.splits intro: run_step_trans final_step)

text \<open>An opcode that the revision does not have goes to the error exit.\<close>

lemma undefined_target:
  "\<not> op_defined E rv op \<Longrightarrow> cgoto_table E rv op N i F pc sp C = cg_fail EVMC_UNDEFINED_INSTRUCTION F pc sp C"
  by (simp add: cgoto_table_def TARGET_UNDEFINED_def)

lemma cgoto_run_Suc:
  assumes "pc < length (ICode N)" and "cgoto_table E (IRev N) (ICode N ! pc) N 0 F pc sp C = Inr r"
  shows "cgoto_run E N 0 e (Suc n) F pc sp C = (case r of
      Dispatch F pc sp C \<Rightarrow> if pc \<ge> e then Some (Inr (Continue 0 (written F pc sp C)))
          else cgoto_run E N 0 e n F pc sp C
    | CgError F pc sp C \<Rightarrow> Some (status_flow 0 (written F pc sp C))
    | CgRestart j C \<Rightarrow> Some (Inr (Continue j C))
    | CgBreak C \<Rightarrow> Some (Inr (Break C))
    | CgReturn C \<Rightarrow> Some (Inr (Return C)))"
  using assms by (simp add: vec_at_def written_def split: cgoto.split)

lemma cgoto_run_ok:
  assumes "ext_ok E" and "run_env_ok E N"
  shows "running (written F pc sp C) \<Longrightarrow> ends_at (ICode N) pc e \<Longrightarrow> pc < e \<Longrightarrow> e - pc \<le> n \<Longrightarrow>
    \<exists>r. cgoto_run E N 0 e n F pc sp C = Some r \<and> ensures r (chunk_flow E N pc e (written F pc sp C))"
proof (induction n arbitrary: F pc sp C)
  case (Suc n)
  let ?op = "ICode N ! pc" and ?W = "written F pc sp C"
  note st = ends_at_step [OF Suc.prems(2,3)]
  have "ensures (cgoto_table E (IRev N) ?op N 0 F pc sp C) (cg_ok ?op pc ?W)"
    using cgoto_table_ok [OF assms, of ?op "IRev N"] Suc.prems(1) st(1) by (simp add: target_ok_def)
  then obtain r where r: "cgoto_table E (IRev N) ?op N 0 F pc sp C = Inr r" and ok: "cg_ok ?op pc ?W r"
    by (rule ensuresE)
  note run = cgoto_run_Suc [OF st(1) r, of e n]
  have def: "op_defined E (IRev N) ?op" if "\<And>F' pc' sp' C'. r \<noteq> CgError F' pc' sp' C'"
    using that r undefined_target [of E "IRev N" ?op N 0 F pc sp C] by auto
  note here = jumps_from_here [OF Suc.prems(2,3) def]
  show ?case
  proof (cases r)
    case (Dispatch F' pc' sp' C')
    then have W': "run_step ?W (written F' pc' sp' C')" "running (written F' pc' sp' C')" "pc' = pc + opcodeLen ?op"
      using ok by (auto simp: cg_ok_def)
    show ?thesis
    proof (cases "pc' \<ge> e")
      case True
      then have e: "pc' = e" using st(3) W'(3) by simp
      then show ?thesis using run Dispatch True e W'(1,2) running_written(9) [OF W'(2)]
        by (simp add: chunk_flow_def del: cgoto_run.simps)
    next
      case False
      have "ends_at (ICode N) pc' e" using st(2) W'(3) by simp
      moreover have "e - pc' \<le> n" using Suc.prems(4) W'(3) opcodeLen_pos [of ?op] by linarith
      ultimately obtain r' where "cgoto_run E N 0 e n F' pc' sp' C' = Some r'"
        "ensures r' (chunk_flow E N pc' e (written F' pc' sp' C'))"
        using Suc.IH [OF W'(2)] False by force
      then show ?thesis using run Dispatch False here(2) W'
        by (auto elim!: ensures_mono intro!: chunk_flow_step [OF _ W'(1)])
    qed
  next
    case (CgError F' pc' sp' C')
    then have "ensures (status_flow 0 (written F' pc' sp' C')) (\<lambda>r. \<exists>D'. r = Return D' \<and> final ?W D')"
      using ok by (intro status_flow_failing) (simp_all add: cg_ok_def)
    then show ?thesis using run CgError
      by (auto simp: chunk_flow_def elim!: ensures_mono simp del: cgoto_run.simps)
  next
    case (CgRestart j C')
    then show ?thesis using run ok here(1) by (auto simp: cg_ok_def chunk_flow_def)
  next
    case (CgReturn C')
    then show ?thesis using run ok by (simp add: cg_ok_def chunk_flow_def)
  qed (use ok in \<open>simp add: cg_ok_def\<close>)
qed simp

section \<open>The price of a chunk with a jump\<close>

lemma unat_sum_list:
  "sum_list (map unat ws) < 2 ^ 64 \<Longrightarrow> unat (sum_list ws :: u64) = sum_list (map unat ws)"
proof (induction ws)
  case (Cons w ws)
  then show ?case using unat_add_lem [of w "sum_list ws"] by simp
qed simp

lemma defined_price:
  assumes "metrics_ok E" and "op_defined E rv op"
  shows "unat (gas_cost E rv op) < 32768"
proof -
  let ?m = "metrics E rv op"
  have m: "0 \<le> sint ?m" "sint ?m < 32768" using assms sint_lt [of ?m] by (simp_all add: metrics_ok_def)
  have "uint (scast ?m :: u64) = sint ?m mod 2 ^ 64"
    using uint_word_of_int [of "sint ?m", where 'a = 64] by simp
  then have "uint (scast ?m :: u64) = sint ?m" using m by (simp add: mod_pos_pos_trivial)
  then show ?thesis using m unfolding gas_cost_def by (simp add: unat_eq_nat_uint)
qed

lemma sum_list_bound: "(\<And>x. x \<in> set xs \<Longrightarrow> f x < k) \<Longrightarrow> sum_list (map f xs) \<le> k * length (xs :: 'a list)"
  for f :: "'a \<Rightarrow> nat"
  by (induction xs) (auto simp: less_imp_le add_mono)

lemma jump_chunk_cost:
  assumes "ext_ok E" and "chunk_ok (gas_cost E (IRev N)) (ICode N) s e c" and "jumps_from E N s e"
    and "length (ICode N) < 2 ^ 32"
  shows "0 < c"
proof -
  let ?is = "instrs (ICode N) s e" and ?c = "\<lambda>q. gas_cost E (IRev N) (ICode N ! q)"
  obtain xs p ys where i: "?is = xs @ p # ys" and p: "isJumpOpcode (ICode N ! p)"
    and d: "\<forall>q \<in> set (xs @ [p]). op_defined E (IRev N) (ICode N ! q)"
    using assms(3) unfolding jumps_from_def by blast
  have "isGasChunkTerminator (ICode N ! p)" using p by (auto simp: isJumpOpcode_def isGasChunkTerminator_def)
  then have ys: "ys = []" using assms(2) i by (auto simp: chunk_ok_def butlast_append split: if_splits)
  have m: "metrics_ok E" using assms(1) by (simp add: ext_ok_def)
  have "unat (?c q) < 32768" if "q \<in> set ?is" for q
    using d that i ys by (auto intro: defined_price [OF m])
  then have "sum_list (map (\<lambda>q. unat (?c q)) ?is) \<le> 32768 * length ?is" by (rule sum_list_bound)
  also have "\<dots> \<le> 32768 * length (ICode N)" using instrs_length by simp
  also have "\<dots> < 2 ^ 64" using assms(4) by simp
  finally have "unat (sum_list (map ?c ?is)) = sum_list (map (\<lambda>q. unat (?c q)) ?is)"
    using unat_sum_list [of "map ?c ?is"] by (simp add: comp_def)
  moreover have "unat (?c p) \<le> sum_list (map (\<lambda>q. unat (?c q)) ?is)" using i by simp
  moreover have "0 < unat (?c p)"
    using jump_costs [OF assms(1), of "ICode N ! p" "IRev N"] p by (auto simp: isJumpOpcode_def word_less_nat_alt)
  ultimately show ?thesis using assms(2) by (simp add: chunk_ok_def word_less_nat_alt)
qed

end
