(* ===== verification/Portable_Equiv.thy ===== *)
theory Portable_Equiv
  imports Interp_Termination
begin

text \<open>
  The portable fast path computes what the computed-goto path computes. The two agree on the result and
  on the whole context; only the slot of the frame that a failing run has freed may differ, since the
  computed-goto path leaves other values of \<open>Pc\<close> and \<open>sp\<close> there.
\<close>

section \<open>Agreement of one opcode\<close>

definition same_ctx :: "'h ctx \<Rightarrow> 'h ctx \<Rightarrow> bool" where
  "same_ctx C D \<longleftrightarrow> C\<lparr>FrameStack := []\<rparr> = D\<lparr>FrameStack := []\<rparr>"

definition same_failure :: "'h ctx \<Rightarrow> 'h ctx \<Rightarrow> bool" where
  "same_failure C D \<longleftrightarrow> failing C \<and> failing D \<and> same_ctx C D \<and>
     GasRefundSnapshot (cur C) = GasRefundSnapshot (cur D)"

definition op_rel :: "'h cgoto res \<Rightarrow> 'h case_end res \<Rightarrow> bool" where
  "op_rel rc rp = (case rc of Inl e \<Rightarrow> False | Inr r \<Rightarrow> (case r of
     Dispatch F' pc' sp' C' \<Rightarrow> (\<exists>D. rp = Inr (CaseBreak False 0 D) \<and> Status D = EVMC_SUCCESS \<and>
       next_pc 0 D = Inr (written F' pc' sp' C'))
   | CgError F' pc' sp' C' \<Rightarrow> (\<exists>b D. rp = Inr (CaseBreak b 0 D) \<and> same_failure (written F' pc' sp' C') D)
   | CgRestart j C' \<Rightarrow> j = 0 \<and> rp = Inr (CaseBreak True 0 C') \<and> Status C' = EVMC_SUCCESS
   | CgBreak C' \<Rightarrow> False
   | CgReturn C' \<Rightarrow> (\<exists>D. rp = Inr (CaseReturn D) \<and> same_ctx C' D) \<or>
       (\<exists>b D. rp = Inr (CaseBreak b 0 D) \<and> Status D \<noteq> EVMC_SUCCESS \<and> status_flow 0 D = Inr (Return C'))))"

definition agrees :: "'h ext \<Rightarrow> interp_env \<Rightarrow> u8 \<Rightarrow> 'h target \<Rightarrow> bool" where
  "agrees E N op t \<longleftrightarrow> (\<forall>F pc sp C. running (written F pc sp C) \<longrightarrow> pc < length (ICode N) \<longrightarrow> ICode N ! pc = op \<longrightarrow>
     op_rel (t N 0 F pc sp C) (portable_op E N 0 op (written F pc sp C)))"

lemma agreesI:
  assumes "\<And>F pc sp C. running (written F pc sp C) \<Longrightarrow> pc < length (ICode N) \<Longrightarrow> ICode N ! pc = op \<Longrightarrow>
    op_rel (t N 0 F pc sp C) (portable_op E N 0 op (written F pc sp C))"
  shows "agrees E N op t"
  using assms by (simp add: agrees_def)

definition switch_handlers :: "'h ext \<Rightarrow> (u8 \<times> 'h hdl) list" where
  "switch_handlers E = switch_arith E @ switch_env E @ switch_block E @ switch_memory E @ switch_misc E"

lemma portable_op_handler:
  "map_of (switch_handlers E) op = Some h \<Longrightarrow>
     portable_op E N i op C = plain i (run_handler (Throw EVMFrameNotFound) h C)"
  by (simp add: portable_op_def switch_handlers_def del: map_of_append)

lemma portable_op_control:
  "map_of (switch_handlers E) op = None \<Longrightarrow> portable_op E N i op C = portable_control E N i op C"
  by (simp add: portable_op_def switch_handlers_def del: map_of_append)

text \<open>The frame and the context that both paths start from.\<close>

lemma written_frame:
  assumes "running (written F pc sp C)"
  shows "CurrentFrame (written F pc sp C) = Some 0" "0 < length (FrameStack (written F pc sp C))"
    "cur (written F pc sp C) = F\<lparr>Sp := sp, Pc := pc\<rparr>" "FrameCount (written F pc sp C) = 1"
    "Status (written F pc sp C) = EVMC_SUCCESS"
  using running_written [OF assms] by (simp_all add: written_def put_frame_def)

lemma next_pc_put:
  "0 < length (FrameStack C) \<Longrightarrow> next_pc 0 (put_frame 0 F C) = Inr (put_frame 0 (F\<lparr>Pc := Pc F + 1\<rparr>) C)"
  by (simp add: next_pc_def frame_op_def put_frame_def)

lemma same_failure_put:
  assumes "running C" and "Status D \<noteq> EVMC_SUCCESS" and "ctx_step C D" and "frame_step (cur C) F"
  shows "same_failure (put_frame 0 (F\<lparr>Pc := p\<rparr>) D) (put_frame 0 F D)"
proof -
  have F: "F\<lparr>Pc := Pc (cur C)\<rparr> = F" using assms(4) by (simp add: frame_step_def)
  have l: "0 < length (FrameStack D)" using running_frames [OF assms(1)] assms(3) by (simp add: ctx_step_def)
  have "failing (put_frame 0 (F\<lparr>Pc := p\<rparr>) D)" "failing (put_frame 0 F D)"
    by (rule write_back(3) [OF assms(1)]; use assms F in simp)+
  then show ?thesis using l by (simp add: same_failure_def same_ctx_def put_frame_def)
qed

text \<open>The portable path runs \<open>k\<close> on the current frame.\<close>

definition runs :: "'h ext \<Rightarrow> interp_env \<Rightarrow> u8 \<Rightarrow> 'h hdl \<Rightarrow> bool" where
  "runs E N op k \<longleftrightarrow> (\<forall>W. running W \<longrightarrow>
     portable_op E N 0 op W = plain 0 (bindE (k (cur W) W) (\<lambda>(F, C). Inr (put_frame 0 F C))))"

lemma runs_handler: "map_of (switch_handlers E) op = Some h \<Longrightarrow> runs E N op h"
  by (auto simp: runs_def portable_op_handler run_handler_def running_def dest: single_frameD)

lemma agrees_handler:
  assumes "handler_ok h" and "runs E N op h"
  shows "agrees E N op (HANDLER_CALL h)"
proof (rule agreesI)
  fix F pc sp and C :: "'a ctx"
  assume r: "running (written F pc sp C)"
  let ?W = "written F pc sp C" and ?G = "F\<lparr>Sp := sp, Pc := pc\<rparr>"
  have "frame_ok ?G" "res_ok ?W" using r written_frame(3) [OF r] by (simp_all add: running_def single_frame_def)
  from handler_okD [OF assms(1) this]
  obtain F' C' where h: "h ?G ?W = Inr (F', C')" and s: "frame_step ?G F'" "ctx_step ?W C'"
    by (auto simp: ensures_iff)
  have l: "0 < length (FrameStack C')" "FrameStack C' = FrameStack ?W"
    using s(2) written_frame(2) [OF r] by (simp_all add: ctx_step_def)
  have p: "portable_op E N 0 op ?W = Inr (CaseBreak False 0 (put_frame 0 F' C'))"
    using assms(2) r written_frame(3) [OF r] h by (simp add: runs_def plain_def)
  have c: "HANDLER_CALL h N 0 F pc sp C = Inr (if Status C' \<noteq> EVMC_SUCCESS then CgError F' (pc + 1) (Sp F') C'
      else Dispatch F' (pc + 1) (Sp F') C')"
    unfolding HANDLER_CALL_def Let_def handler_written [OF r] h by simp
  have w: "written F' (pc + 1) (Sp F') C' = put_frame 0 (F'\<lparr>Pc := pc + 1\<rparr>) C'" by (simp add: written_def)
  show "op_rel (HANDLER_CALL h N 0 F pc sp C) (portable_op E N 0 op ?W)"
  proof (cases "Status C' = EVMC_SUCCESS")
    case True
    moreover have "Pc F' = pc" using s(1) by (simp add: frame_step_def)
    moreover have "Status (put_frame 0 F' C') = EVMC_SUCCESS" using True by (simp add: put_frame_def)
    ultimately show ?thesis using c p next_pc_put [OF l(1), of F'] w by (simp add: op_rel_def)
  next
    case False
    then show ?thesis using c p same_failure_put [OF r False s(2)] s(1) written_frame(3) [OF r] w
      by (auto simp: op_rel_def)
  qed
qed

section \<open>Inlined targets\<close>

text \<open>
  An inlined target next to the operation of the portable path: either both succeed with the same
  frame, or both set the same error status.
\<close>

definition inline_rel :: "EVMFrame \<Rightarrow> 'h ctx \<Rightarrow> 'h ctx \<Rightarrow> 'h cgoto res \<Rightarrow> EVMFrame \<Rightarrow> 'h ctx \<Rightarrow> bool" where
  "inline_rel G W C tc H D \<longleftrightarrow>
     D = W \<and> (\<exists>F'. tc = Inr (Dispatch F' (Pc H + 1) (Sp H) C) \<and> F'\<lparr>Sp := Sp H, Pc := Pc H\<rparr> = H) \<or>
     (\<exists>st F' pc'. st \<noteq> EVMC_SUCCESS \<and> st \<noteq> EVMC_REVERT \<and> D = setStatus st W \<and>
        tc = Inr (CgError F' pc' (Sp H) (setStatus st C)) \<and> F'\<lparr>Sp := Sp H, Pc := Pc H\<rparr> = H \<and> frame_step G H)"

lemma inline_op_rel:
  assumes "running (written F pc sp C)" and "inline_rel (F\<lparr>Sp := sp, Pc := pc\<rparr>) (written F pc sp C) C tc H D"
  shows "op_rel tc (Inr (CaseBreak False 0 (put_frame 0 H D)))"
  using assms(2) unfolding inline_rel_def
proof (elim disjE exE conjE)
  fix F'
  assume D: "D = written F pc sp C" and tc: "tc = Inr (Dispatch F' (Pc H + 1) (Sp H) C)"
    and H: "F'\<lparr>Sp := Sp H, Pc := Pc H\<rparr> = H"
  have "F'\<lparr>Sp := Sp H, Pc := Pc H + 1\<rparr> = F'\<lparr>Sp := Sp H, Pc := Pc H\<rparr>\<lparr>Pc := Pc H + 1\<rparr>" by simp
  then have "written F' (Pc H + 1) (Sp H) C = put_frame 0 (H\<lparr>Pc := Pc H + 1\<rparr>) D"
    by (simp only: H D) (simp add: written_def put_frame_def)
  then show ?thesis using D tc next_pc_put [of D H] written_frame [OF assms(1)]
    by (simp add: op_rel_def put_frame_def)
next
  fix st F' pc'
  assume st: "st \<noteq> EVMC_SUCCESS" "st \<noteq> EVMC_REVERT" and D: "D = setStatus st (written F pc sp C)"
    and tc: "tc = Inr (CgError F' pc' (Sp H) (setStatus st C))" and H: "F'\<lparr>Sp := Sp H, Pc := Pc H\<rparr> = H"
    and s: "frame_step (F\<lparr>Sp := sp, Pc := pc\<rparr>) H"
  have "F'\<lparr>Sp := Sp H, Pc := pc'\<rparr> = F'\<lparr>Sp := Sp H, Pc := Pc H\<rparr>\<lparr>Pc := pc'\<rparr>" by simp
  then have "written F' pc' (Sp H) (setStatus st C) = put_frame 0 (H\<lparr>Pc := pc'\<rparr>) D"
    by (simp only: H D) (simp add: written_def put_frame_def)
  moreover have "same_failure (put_frame 0 (H\<lparr>Pc := pc'\<rparr>) D) (put_frame 0 H D)"
    by (rule same_failure_put [OF assms(1)]) (use D st s written_frame(3) [OF assms(1)] in auto)
  ultimately show ?thesis using tc by (auto simp: op_rel_def)
qed

lemma agrees_inline:
  assumes "runs E N op k"
    and "\<And>F pc sp C. running (written F pc sp C) \<Longrightarrow> pc < length (ICode N) \<Longrightarrow> ICode N ! pc = op \<Longrightarrow>
      sp \<le> 1024 \<Longrightarrow> mem_ok (Memory F) \<Longrightarrow> HostSet F \<Longrightarrow>
      ensures (k (F\<lparr>Sp := sp, Pc := pc\<rparr>) (written F pc sp C))
        (\<lambda>(H, D). inline_rel (F\<lparr>Sp := sp, Pc := pc\<rparr>) (written F pc sp C) C (t N 0 F pc sp C) H D)"
  shows "agrees E N op t"
proof (rule agreesI)
  fix F pc sp and C :: "'a ctx"
  assume r: "running (written F pc sp C)" and pc: "pc < length (ICode N)" "ICode N ! pc = op"
  obtain H D where k: "k (F\<lparr>Sp := sp, Pc := pc\<rparr>) (written F pc sp C) = Inr (H, D)"
    and rel: "inline_rel (F\<lparr>Sp := sp, Pc := pc\<rparr>) (written F pc sp C) C (t N 0 F pc sp C) H D"
    using assms(2) [OF r pc running_written(1-3) [OF r]] by (auto simp: ensures_iff)
  have "portable_op E N 0 op (written F pc sp C) = Inr (CaseBreak False 0 (put_frame 0 H D))"
    using assms(1) r k written_frame(3) [OF r] by (simp add: runs_def plain_def)
  then show "op_rel (t N 0 F pc sp C) (portable_op E N 0 op (written F pc sp C))"
    using inline_op_rel [OF r rel] by simp
qed

lemmas inline_defs = inline_rel_def ensures_simps frame_step_def Let_def stack_at_def stack_put_def

lemma agrees_binary: "map_of (switch_handlers E) op = Some (BinaryOpHandler f) \<Longrightarrow> agrees E N op (TARGET_BINARY f)"
  by (rule agrees_inline [OF runs_handler]) (auto simp: BinaryOpHandler_def TARGET_BINARY_def inline_defs)

lemma agrees_ternary: "map_of (switch_handlers E) op = Some (TernaryOpHandler f) \<Longrightarrow> agrees E N op (TARGET_TERNARY f)"
  by (rule agrees_inline [OF runs_handler]) (auto simp: TernaryOpHandler_def TARGET_TERNARY_def inline_defs)

lemma agrees_unary: "map_of (switch_handlers E) op = Some (UnaryOpHandler f) \<Longrightarrow> agrees E N op (TARGET_UNARY f)"
  by (rule agrees_inline [OF runs_handler]) (auto simp: UnaryOpHandler_def TARGET_UNARY_def inline_defs)

text \<open>The opcodes with their own case.\<close>

lemma runs_frame_op:
  "map_of (switch_handlers E) op = None \<Longrightarrow> (\<And>C. portable_control E N 0 op C = plain 0 (frame_op 0 k C)) \<Longrightarrow> runs E N op k"
  by (auto simp: runs_def portable_op_control frame_op_def dest: running_frames)

lemma runs_run_handler:
  "map_of (switch_handlers E) op = None \<Longrightarrow>
   (\<And>C. portable_control E N 0 op C = plain 0 (run_handler (Throw EVMFrameNotFound) k C)) \<Longrightarrow> runs E N op k"
  by (auto simp: runs_def portable_op_control run_handler_def running_def dest: single_frameD)

lemma agrees_pop: "runs E N op executePopOpcodeNoGas \<Longrightarrow> agrees E N op TARGET_POP"
  by (rule agrees_inline) (auto simp: executePopOpcodeNoGas_def TARGET_POP_def inline_defs)

lemma agrees_push0:
  "runs E N op executePush0OpcodeNoGas \<Longrightarrow> EVMC_SHANGHAI \<le> IRev N \<Longrightarrow> agrees E N op TARGET_PUSH0"
  by (rule agrees_inline) (auto simp: executePush0OpcodeNoGas_def TARGET_PUSH0_def inline_defs)

lemma agrees_push:
  "runs E N op (executePushNOpcodeNoGas (PushValueMap (ICache N)) op) \<Longrightarrow> run_env_ok E N \<Longrightarrow> agrees E N op TARGET_PUSHX"
  by (rule agrees_inline)
    (auto simp: executePushNOpcodeNoGas_def TARGET_PUSHX_def inline_defs run_env_lengths(2) vec_at_def)

lemma agrees_dup: "runs E N op (executeDupOpcodeNoGas op) \<Longrightarrow> agrees E N op TARGET_DUPX"
  by (rule agrees_inline) (auto simp: executeDupOpcodeNoGas_def TARGET_DUPX_def inline_defs vec_at_def)

lemma agrees_swap: "runs E N op (executeSwapOpcodeNoGas op) \<Longrightarrow> agrees E N op TARGET_SWAPX"
  by (rule agrees_inline) (auto simp: executeSwapOpcodeNoGas_def TARGET_SWAPX_def inline_defs vec_at_def)

text \<open>A status that is set without touching the frame, and an opcode that does nothing.\<close>

lemma runs_inr:
  assumes "map_of (switch_handlers E) op = None" and "\<And>C. portable_control E N 0 op C = Inr (CaseBreak False 0 (f C))"
    and "\<And>C. FrameStack (f C) = FrameStack C"
  shows "runs E N op (\<lambda>F C. Inr (F, f C))"
  using assms by (auto simp: runs_def portable_op_control plain_def put_frame_def)

lemma agrees_jumpdest: "runs E N op (\<lambda>F C. Inr (F, C)) \<Longrightarrow> agrees E N op TARGET_JUMPDEST"
  by (rule agrees_inline) (auto simp: TARGET_JUMPDEST_def inline_defs)

lemma agrees_invalid: "runs E N op (\<lambda>F C. Inr (F, setStatus EVMC_INVALID_INSTRUCTION C)) \<Longrightarrow> agrees E N op TARGET_INVALID"
  by (rule agrees_inline) (auto simp: TARGET_INVALID_def inline_defs)

lemma agrees_undefined:
  "runs E N op (\<lambda>F C. Inr (F, setStatus EVMC_UNDEFINED_INSTRUCTION C)) \<Longrightarrow> agrees E N op TARGET_UNDEFINED"
  by (rule agrees_inline) (auto simp: TARGET_UNDEFINED_def inline_defs)

lemma agrees_multi:
  assumes "handler_ok (h op)" and "runs E N op (h op)"
  shows "agrees E N op (TARGET_MULTI h)"
  using agrees_handler [OF assms] by (auto simp: agrees_def TARGET_MULTI_def vec_at_def)

section \<open>Jumps and exits\<close>

lemma agrees_jump:
  assumes "map_of (switch_handlers E) op = None" and "\<And>C. portable_control E N 0 op C = at_frame 0 f C"
    and "\<And>F pc sp C. running (written F pc sp C) \<Longrightarrow> pc < length (ICode N) \<Longrightarrow> ICode N ! pc = op \<Longrightarrow>
      sp \<le> 1024 \<Longrightarrow> mem_ok (Memory F) \<Longrightarrow> HostSet F \<Longrightarrow>
      ensures (f (F\<lparr>Sp := sp, Pc := pc\<rparr>) (written F pc sp C)) (\<lambda>(taken, H, D).
        if taken then D = written F pc sp C \<and> t N 0 F pc sp C = Inr (CgRestart 0 (put_frame 0 H C))
        else inline_rel (F\<lparr>Sp := sp, Pc := pc\<rparr>) (written F pc sp C) C (t N 0 F pc sp C) H D)"
  shows "agrees E N op t"
proof (rule agreesI)
  fix F pc sp and C :: "'a ctx"
  assume r: "running (written F pc sp C)" and pc: "pc < length (ICode N)" "ICode N ! pc = op"
  obtain taken H D where f: "f (F\<lparr>Sp := sp, Pc := pc\<rparr>) (written F pc sp C) = Inr (taken, H, D)"
    and rel: "if taken then D = written F pc sp C \<and> t N 0 F pc sp C = Inr (CgRestart 0 (put_frame 0 H C))
        else inline_rel (F\<lparr>Sp := sp, Pc := pc\<rparr>) (written F pc sp C) C (t N 0 F pc sp C) H D"
    using assms(3) [OF r pc running_written(1-3) [OF r]] by (auto simp: ensures_iff)
  have p: "portable_op E N 0 op (written F pc sp C) = Inr (CaseBreak taken 0 (put_frame 0 H D))"
    using f written_frame(2,3) [OF r] by (simp add: portable_op_control [OF assms(1)] assms(2) at_frame_def)
  show "op_rel (t N 0 F pc sp C) (portable_op E N 0 op (written F pc sp C))"
  proof (cases taken)
    case True
    then have "put_frame 0 H D = put_frame 0 H C" using rel by (simp add: written_def put_frame_def)
    then show ?thesis using rel True p written_frame(5) [OF r] running_written(8) [OF r]
      by (simp add: op_rel_def) (simp add: put_frame_def)
  next
    case False
    then show ?thesis using inline_op_rel [OF r] rel p by simp
  qed
qed

lemma agrees_JUMP:
  assumes "map_of (switch_handlers E) op = None" and "\<And>C. portable_control E N 0 op C = at_frame 0 (switch_JUMP N) C"
    and "run_env_ok E N"
  shows "agrees E N op TARGET_JUMP"
  using run_env_lengths(1) [OF assms(3)]
  by (intro agrees_jump [OF assms(1,2)])
    (auto simp: switch_JUMP_def switch_goto_def TARGET_JUMP_def cg_jump_def inline_defs vec_at_def)

lemma agrees_JUMPI:
  assumes "map_of (switch_handlers E) op = None" and "\<And>C. portable_control E N 0 op C = at_frame 0 (switch_JUMPI N) C"
    and "run_env_ok E N"
  shows "agrees E N op TARGET_JUMPI"
  using run_env_lengths(1) [OF assms(3)]
  by (intro agrees_jump [OF assms(1,2)])
    (auto simp: switch_JUMPI_def switch_goto_def TARGET_JUMPI_def cg_jump_def inline_defs vec_at_def numeral_2_eq_2)

lemma agrees_stop:
  assumes "map_of (switch_handlers E) op = None" and "\<And>C. portable_control E N 0 op C = portable_STOP 0 C"
  shows "agrees E N op TARGET_STOP"
proof (rule agreesI)
  fix F pc sp and C :: "'a ctx"
  assume r: "running (written F pc sp C)"
  have w: "clearReturnData (written F pc sp C) = setReturnData [] (put_frame 0 (F\<lparr>Sp := sp, Pc := pc\<rparr>) C)"
    by (simp add: written_def clearReturnData_def clearReturnDataBuffer_def)
  show "op_rel (TARGET_STOP N 0 F pc sp C) (portable_op E N 0 op (written F pc sp C))"
    unfolding portable_op_control [OF assms(1)] assms(2) portable_STOP_def TARGET_STOP_def Let_def w
    using written_frame [OF r] running_written [OF r]
    by (simp add: freeBackFrame_def getCurFrame_def op_rel_def same_ctx_def put_frame_def)
qed

lemma agrees_leave:
  assumes "map_of (switch_handlers E) op = None"
    and "\<And>C. portable_control E N 0 op C = leave_case st (run_handler (Throw EVMFrameNotFound) h C)"
    and "leaves st h" and "st \<in> {EVMC_SUCCESS, EVMC_REVERT}"
  shows "agrees E N op (TARGET_LEAVE st h)"
proof (rule agreesI)
  fix F pc sp and C :: "'a ctx"
  assume r: "running (written F pc sp C)"
  let ?W = "written F pc sp C" and ?G = "F\<lparr>Sp := sp, Pc := pc\<rparr>"
  note W = written_frame [OF r]
  obtain D where D: "run_handler (Throw EVMFrameNotFound) h ?W = Inr D" "left_ok st ?W D"
    using run_handler_left [OF assms(3) r assms(4)] by (auto simp: ensures_iff)
  then obtain F' C' where h: "h ?G ?W = Inr (F', C')" "D = put_frame 0 F' C'"
    using W by (auto simp: run_handler_def bindE_Inr_iff)
  have t: "TARGET_LEAVE st h N 0 F pc sp C = (case getCurFrame D of
      None \<Rightarrow> Inr (CgReturn (exe_result st (Gas (Inst D)) D))
    | Some j \<Rightarrow> if Status D \<noteq> EVMC_SUCCESS
        then bindE (handleExecutionStatus j D) (\<lambda>(done, C). if done then Inr (CgReturn C) else Inr (CgBreak C))
        else Inr (CgRestart j D))"
    unfolding TARGET_LEAVE_def Let_def handler_written [OF r] h by simp
  have p: "portable_op E N 0 op ?W = (case getCurFrame D of
      None \<Rightarrow> Inr (CaseReturn (exe_result st (Gas (Inst D)) D)) | Some j \<Rightarrow> Inr (CaseBreak True j D))"
    using D(1) by (simp add: portable_op_control [OF assms(1)] assms(2) leave_case_def)
  show "op_rel (TARGET_LEAVE st h N 0 F pc sp C) (portable_op E N 0 op ?W)"
  proof (cases "FrameCount D = 0")
    case True
    then show ?thesis using t p by (simp add: getCurFrame_def op_rel_def same_ctx_def)
  next
    case False
    then have f: "FrameCount D = 1" "failing D" "run_step ?W D" using D(2) by (auto simp: left_ok_def)
    obtain D' where "handleExecutionStatus 0 D = Inr (True, D')"
      using handle_failing [OF f(2,3)] by (auto simp: ensures_iff)
    moreover have "Status D \<noteq> EVMC_SUCCESS" using f(2) by (simp add: failing_def)
    ultimately show ?thesis using t p f(1) by (auto simp: getCurFrame_def op_rel_def status_flow_def)
  qed
qed

section \<open>All opcodes\<close>

lemmas switch_tables = switch_handlers_def switch_arith_def switch_env_def switch_block_def switch_memory_def switch_misc_def

lemma handler_table_ok:
  assumes "ext_ok E" and "map_of (switch_handlers E) op = Some h"
  shows "handler_ok h"
  using switch_tables_ok [OF assms(1)] map_of_SomeD [OF assms(2)] unfolding switch_handlers_def by blast

lemma agrees_table:
  assumes "ext_ok E" and "map_of (switch_handlers E) op = Some h"
  shows "agrees E N op (HANDLER_CALL h)"
  by (rule agrees_handler [OF handler_table_ok [OF assms] runs_handler [OF assms(2)]])

lemma cg_tables_agree:
  assumes "ext_ok E"
    and "(op, t) \<in> set (cg_inline_arith E @ cg_inline_bits E @ cg_arith E @ cg_env E @ cg_block E @ cg_memory E)"
  shows "agrees E N op t"
proof -
  note ag = agrees_binary agrees_ternary agrees_unary agrees_table [OF assms(1)]
  have "\<forall>(op, t) \<in> set (cg_inline_arith E). agrees E N op t" by (simp add: cg_inline_arith_def ag switch_tables)
  moreover have "\<forall>(op, t) \<in> set (cg_inline_bits E). agrees E N op t" by (simp add: cg_inline_bits_def ag switch_tables)
  moreover have "\<forall>(op, t) \<in> set (cg_arith E). agrees E N op t" by (simp add: cg_arith_def ag switch_tables)
  moreover have "\<forall>(op, t) \<in> set (cg_env E). agrees E N op t" by (simp add: cg_env_def ag switch_tables)
  moreover have "\<forall>(op, t) \<in> set (cg_block E). agrees E N op t" by (simp add: cg_block_def ag switch_tables)
  moreover have "\<forall>(op, t) \<in> set (cg_memory E). agrees E N op t" by (simp add: cg_memory_def ag switch_tables)
  ultimately show ?thesis using assms(2) by fastforce
qed

lemma cg_control_agree:
  assumes "ext_ok E" and "run_env_ok E N" and "op_defined E (IRev N) op" and "(op, t) \<in> set (cg_control E)"
  shows "agrees E N op t"
proof -
  have x: "host_ok E" using assms(1) by (simp add: ext_ok_def)
  have sh: "op = 0x5f \<Longrightarrow> EVMC_SHANGHAI \<le> IRev N" using assms(1,3) by (auto simp: ext_ok_def metrics_ok_def)
  note none = switch_tables portable_control_def
  consider "t = TARGET_STOP" "op = 0" | "t = TARGET_POP" "op = 0x50" | "t = TARGET_JUMP" "op = 0x56"
    | "t = TARGET_JUMPI" "op = 0x57" | "t = TARGET_JUMPDEST" "op = 0x5b" | "t = TARGET_PUSH0" "op = 0x5f"
    | "t = TARGET_MULTI (doCreate E)" "op = 0xf0 \<or> op = 0xf5"
    | "t = TARGET_MULTI (doCall E)" "op = 0xf1 \<or> op = 0xf2 \<or> op = 0xf4 \<or> op = 0xfa"
    | "t = TARGET_LEAVE EVMC_SUCCESS doReturn" "op = 0xf3" | "t = TARGET_LEAVE EVMC_REVERT doRevert" "op = 0xfd"
    | "t = TARGET_INVALID" "op = 0xfe" | "t = TARGET_LEAVE EVMC_SUCCESS (doSelfDestruct E)" "op = 0xff"
    using assms(4) by (auto simp: cg_control_def)
  then show ?thesis
  proof cases
    case 1 then show ?thesis by (auto simp: none intro!: agrees_stop)
  next
    case 2 then show ?thesis by (auto simp: none intro!: agrees_pop runs_frame_op)
  next
    case 3 then show ?thesis by (auto simp: none intro!: agrees_JUMP assms(2))
  next
    case 4 then show ?thesis by (auto simp: none intro!: agrees_JUMPI assms(2))
  next
    case 5 then show ?thesis by (auto simp: none intro!: agrees_jumpdest runs_inr)
  next
    case 6 then show ?thesis using sh by (auto simp: none intro!: agrees_push0 runs_frame_op)
  next
    case 7 then show ?thesis by (auto simp: none x intro!: agrees_multi runs_run_handler doCreate_ok)
  next
    case 8 then show ?thesis by (auto simp: none x intro!: agrees_multi runs_run_handler doCall_ok)
  next
    case 9 then show ?thesis by (auto simp: none intro!: agrees_leave doReturn_leaves)
  next
    case 10 then show ?thesis by (auto simp: none intro!: agrees_leave doRevert_leaves)
  next
    case 11 then show ?thesis by (auto simp: none intro!: agrees_invalid runs_inr)
  next
    case 12 then show ?thesis by (auto simp: none intro!: agrees_leave doSelfDestruct_leaves)
  qed
qed

lemma switch_keys: "map_of (switch_handlers E) op = Some h \<Longrightarrow> unat op < 0x60"
  by (drule map_of_SomeD) (auto simp: switch_tables)

lemma high_none: "0x60 \<le> op \<Longrightarrow> map_of (switch_handlers E) op = None"
  using switch_keys [of E op] by (cases "map_of (switch_handlers E) op") (auto simp: word_le_nat_alt)

lemma ranges_agree:
  assumes "run_env_ok E N"
  shows "0x60 \<le> op \<Longrightarrow> op \<le> 0x7f \<Longrightarrow> agrees E N op TARGET_PUSHX"
    and "0x80 \<le> op \<Longrightarrow> op \<le> 0x8f \<Longrightarrow> agrees E N op TARGET_DUPX"
    and "0x90 \<le> op \<Longrightarrow> op \<le> 0x9f \<Longrightarrow> agrees E N op TARGET_SWAPX"
    and "0xa0 \<le> op \<Longrightarrow> op \<le> 0xa4 \<Longrightarrow> agrees E N op (TARGET_MULTI (doLog E))"
proof -
  assume b: "0x60 \<le> op" "op \<le> 0x7f"
  then show "agrees E N op TARGET_PUSHX"
    by (intro agrees_push [OF _ assms] runs_frame_op high_none)
      (auto simp: portable_control_def word_le_nat_alt word_unat_eq_iff)
next
  assume b: "0x80 \<le> op" "op \<le> 0x8f"
  then show "agrees E N op TARGET_DUPX"
    by (intro agrees_dup runs_frame_op high_none)
      (auto simp: portable_control_def word_le_nat_alt word_unat_eq_iff)
next
  assume b: "0x90 \<le> op" "op \<le> 0x9f"
  then show "agrees E N op TARGET_SWAPX"
    by (intro agrees_swap runs_frame_op high_none)
      (auto simp: portable_control_def word_le_nat_alt word_unat_eq_iff)
next
  assume b: "0xa0 \<le> op" "op \<le> 0xa4"
  then show "agrees E N op (TARGET_MULTI (doLog E))"
    by (intro agrees_multi runs_run_handler high_none doLog_ok log_range)
      (auto simp: portable_control_def word_le_nat_alt word_unat_eq_iff)
qed

definition cg_targets :: "'h ext \<Rightarrow> (u8 \<times> 'h target) list" where
  "cg_targets E = (cg_inline_arith E @ cg_inline_bits E @ cg_arith E @ cg_env E @ cg_block E @ cg_memory E) @ cg_control E"

lemmas cg_tables = cg_targets_def cg_inline_arith_def cg_inline_bits_def cg_arith_def cg_env_def cg_block_def
  cg_memory_def cg_control_def

lemma switch_subset: "fst ` set (switch_handlers E) \<subseteq> fst ` set (cg_targets E)"
  by (simp add: switch_tables cg_tables)

lemma no_target:
  assumes "map_of (cg_targets E) op = None"
  shows "map_of (switch_handlers E) op = None"
    "op \<notin> {0x00, 0x50, 0x56, 0x57, 0x5b, 0x5f, 0xf0, 0xf1, 0xf2, 0xf3, 0xf4, 0xf5, 0xfa, 0xfd, 0xfe, 0xff}"
proof -
  have n: "op \<notin> fst ` set (cg_targets E)" using assms by (simp add: map_of_eq_None_iff)
  then show "map_of (switch_handlers E) op = None" using switch_subset by (auto simp: map_of_eq_None_iff)
  have "fst ` set (cg_control E) \<subseteq> fst ` set (cg_targets E)" by (auto simp: cg_targets_def)
  with n show "op \<notin> {0x00, 0x50, 0x56, 0x57, 0x5b, 0x5f, 0xf0, 0xf1, 0xf2, 0xf3, 0xf4, 0xf5, 0xfa, 0xfd, 0xfe, 0xff}"
    by (auto simp: cg_control_def)
qed

lemma agrees_default:
  assumes "map_of (cg_targets E) op = None"
    and "\<not> (0x60 \<le> op \<and> op \<le> 0x7f)" "\<not> (0x80 \<le> op \<and> op \<le> 0x8f)" "\<not> (0x90 \<le> op \<and> op \<le> 0x9f)" "\<not> (0xa0 \<le> op \<and> op \<le> 0xa4)"
  shows "agrees E N op TARGET_UNDEFINED"
proof (intro agrees_undefined runs_inr no_target(1) [OF assms(1)])
  show "portable_control E N 0 op C = Inr (CaseBreak False 0 (setStatus EVMC_UNDEFINED_INSTRUCTION C))" for C
    using assms(2-) no_target(2) [OF assms(1)] by (auto simp: portable_control_def)
qed simp

lemma cgoto_agrees:
  assumes "ext_ok E" and "run_env_ok E N" and "op_defined E (IRev N) op"
  shows "agrees E N op (cgoto_table E (IRev N) op)"
proof -
  have base: "cgoto_base E op = (case map_of (cg_targets E) op of Some t \<Rightarrow> t | None \<Rightarrow>
          if 0x60 \<le> op \<and> op \<le> 0x7f then TARGET_PUSHX
          else if 0x80 \<le> op \<and> op \<le> 0x8f then TARGET_DUPX
          else if 0x90 \<le> op \<and> op \<le> 0x9f then TARGET_SWAPX
          else if 0xa0 \<le> op \<and> op \<le> 0xa4 then TARGET_MULTI (doLog E)
          else TARGET_UNDEFINED)"
    unfolding cgoto_base_def cg_targets_def append_assoc ..
  have "agrees E N op (cgoto_base E op)"
  proof (cases "map_of (cg_targets E) op")
    case None
    then show ?thesis unfolding base using ranges_agree [OF assms(2), of op] agrees_default [of E op N] by auto
  next
    case (Some t)
    then show ?thesis unfolding base
      using cg_tables_agree [OF assms(1), of op t] cg_control_agree [OF assms, of t] map_of_SomeD [OF Some]
      unfolding cg_targets_def by auto
  qed
  then show ?thesis using assms(3) by (simp add: cgoto_table_def)
qed

section \<open>A chunk\<close>

fun flow_rel :: "'h flow \<Rightarrow> 'h flow \<Rightarrow> bool" where
  "flow_rel (Continue i C) (Continue j D) \<longleftrightarrow> i = j \<and> C = D"
| "flow_rel (Break C) (Break D) \<longleftrightarrow> C = D"
| "flow_rel (Return C) (Return D) \<longleftrightarrow> same_ctx C D"
| "flow_rel _ _ \<longleftrightarrow> False"

lemma status_flow_rel:
  assumes "same_failure C D"
  shows "\<exists>r r'. status_flow 0 C = Inr r \<and> status_flow 0 D = Inr r' \<and> flow_rel r r'"
proof -
  have f: "failing C" "failing D" and s: "same_ctx C D"
    and g: "GasRefundSnapshot (cur C) = GasRefundSnapshot (cur D)"
    using assms by (simp_all add: same_failure_def)
  have c: "status_flow 0 X = Inr (Return (X\<lparr>FrameStack := (FrameStack X)[0 := set_gas 0 (cur X)],
      Inst := setGas 0 (setGasRefund (GasRefundSnapshot (cur X)) (Inst X)), ReturnData := [], FrameCount := 0,
      ExeResult := evmc_Result (Status X) 0 (GasRefundSnapshot (cur X)) []\<rparr>))" if "failing X" for X :: "'a ctx"
    using that failing_frames [OF that]
    by (simp add: status_flow_def handleExecutionStatus_def Let_def freeBackFrame_def put_frame_def failing_def
        single_frame_def clearReturnData_def clearReturnDataBuffer_def getCurFrame_def exe_result_def setGas_def
        setGasRefund_def)
  show ?thesis using s g unfolding c [OF f(1)] c [OF f(2)] same_ctx_def
    by (cases C; cases D) (simp add: same_ctx_def)
qed

lemma portable_run_Suc:
  assumes "running (written F pc sp C)" and "pc < length (ICode N)" and "pc < e"
    and "op_defined E (IRev N) (ICode N ! pc)"
  shows "portable_run E N 0 e (Suc k) (written F pc sp C) =
    (case portable_op E N 0 (ICode N ! pc) (written F pc sp C) of
       Inl e \<Rightarrow> Some (Inl e)
     | Inr (CaseReturn C) \<Rightarrow> Some (Inr (Return C))
     | Inr (CaseBreak RestartDispatch j C) \<Rightarrow>
         if Status C \<noteq> EVMC_SUCCESS then Some (status_flow j C)
         else if RestartDispatch then Some (Inr (Continue j C))
         else (case next_pc j C of Inl e \<Rightarrow> Some (Inl e) | Inr C \<Rightarrow> portable_run E N j e k C))"
  using written_frame [OF assms(1)] assms by (simp add: vec_at_def)

lemma portable_run_rel:
  assumes "ext_ok E" and "run_env_ok E N"
  shows "running (written F pc sp C) \<Longrightarrow> ends_at (ICode N) pc e \<Longrightarrow> pc < e \<Longrightarrow> e - pc \<le> n \<Longrightarrow> e - pc < m \<Longrightarrow>
    \<exists>r r'. cgoto_run E N 0 e n F pc sp C = Some (Inr r) \<and>
      portable_run E N 0 e m (written F pc sp C) = Some (Inr r') \<and> flow_rel r r'"
proof (induction n arbitrary: m F pc sp C)
  case (Suc n)
  let ?op = "ICode N ! pc" and ?W = "written F pc sp C"
  note st = ends_at_step [OF Suc.prems(2,3)] and W = written_frame [OF Suc.prems(1)]
  obtain k where m: "m = Suc k" using Suc.prems(5) by (cases m) auto
  have "ensures (cgoto_table E (IRev N) ?op N 0 F pc sp C) (cg_ok ?op pc ?W)"
    using cgoto_table_ok [OF assms, of ?op "IRev N"] Suc.prems(1) st(1) by (simp add: target_ok_def)
  then obtain r where r: "cgoto_table E (IRev N) ?op N 0 F pc sp C = Inr r" and ok: "cg_ok ?op pc ?W r"
    by (rule ensuresE)
  note run = cgoto_run_Suc [OF st(1) r, of e n]
  show ?case
  proof (cases "op_defined E (IRev N) ?op")
    case False
    then have "r = CgError F pc sp (setStatus EVMC_UNDEFINED_INSTRUCTION C)"
      using r undefined_target [of E "IRev N" ?op N 0 F pc sp C] by simp
    moreover have "written F pc sp (setStatus EVMC_UNDEFINED_INSTRUCTION C) = setStatus EVMC_UNDEFINED_INSTRUCTION ?W"
      by (simp add: written_def put_frame_def)
    moreover have "same_failure (setStatus EVMC_UNDEFINED_INSTRUCTION ?W) (setStatus EVMC_UNDEFINED_INSTRUCTION ?W)"
      using set_status_settled [OF Suc.prems(1)] by (simp add: same_failure_def same_ctx_def)
    ultimately show ?thesis
      using run m W st(1) False Suc.prems(3) status_flow_rel by (fastforce simp: vec_at_def simp del: cgoto_run.simps)
  next
    case True
    note port = portable_run_Suc [OF Suc.prems(1) st(1) Suc.prems(3) True, of k, folded m]
    have rel: "op_rel (Inr r) (portable_op E N 0 ?op ?W)"
      using cgoto_agrees [OF assms True, unfolded agrees_def, rule_format, OF Suc.prems(1) st(1) refl] r by simp
    show ?thesis
    proof (cases r)
      case (Dispatch F' pc' sp' C')
      then have W': "running (written F' pc' sp' C')" "pc' = pc + opcodeLen ?op"
        using ok by (auto simp: cg_ok_def)
      note W'f = written_frame [OF W'(1)]
      obtain D where D: "portable_op E N 0 ?op ?W = Inr (CaseBreak False 0 D)" "Status D = EVMC_SUCCESS"
        "next_pc 0 D = Inr (written F' pc' sp' C')"
        using rel Dispatch by (auto simp: op_rel_def)
      have p: "portable_run E N 0 e m ?W = portable_run E N 0 e k (written F' pc' sp' C')"
        using port D by simp
      have k: "e - pc' < k" "e - pc' \<le> n"
        using Suc.prems(3-5) m W'(2) opcodeLen_pos [of ?op] by linarith+
      show ?thesis
      proof (cases "pc' \<ge> e")
        case True
        obtain k' where "k = Suc k'" using k(1) by (cases k) auto
        then have "portable_run E N 0 e k (written F' pc' sp' C') = Some (Inr (Continue 0 (written F' pc' sp' C')))"
          using True W'f by simp
        then show ?thesis using run Dispatch True p by (simp del: cgoto_run.simps)
      next
        case False
        then show ?thesis using Suc.IH [OF W'(1) _ _ k(2,1)] run Dispatch p st(2) W'(2) by (simp del: cgoto_run.simps)
      qed
    next
      case (CgError F' pc' sp' C')
      then obtain b D where "portable_op E N 0 ?op ?W = Inr (CaseBreak b 0 D)" and sf: "same_failure (written F' pc' sp' C') D"
        using rel by (auto simp: op_rel_def)
      moreover have "Status D \<noteq> EVMC_SUCCESS" using sf by (simp add: same_failure_def failing_def)
      ultimately show ?thesis using run CgError port status_flow_rel [OF sf] by (auto simp del: cgoto_run.simps)
    next
      case (CgRestart j C')
      then show ?thesis using rel run port by (auto simp: op_rel_def simp del: cgoto_run.simps)
    next
      case (CgReturn C')
      then show ?thesis using rel run port by (auto simp: op_rel_def same_ctx_def simp del: cgoto_run.simps)
    qed (use ok in \<open>simp add: cg_ok_def\<close>)
  qed
qed simp

end
