(* ===== verification/Interp_Run.thy ===== *)
theory Interp_Run
  imports Portable_Equiv
begin

text \<open>
  The outer loop of the interpreter: with the bound \<open>loop_fuel\<close> on its iterations it returns, on both
  builds of the fast path and with the same outcome.
\<close>

section \<open>Entering a chunk\<close>

lemma ends_at_le: "ends_at code s e \<Longrightarrow> s < e \<Longrightarrow> e \<le> length code + 32"
proof (induction code s e rule: ends_at.induct)
  case (1 code s e)
  note st = ends_at_step [OF 1(2,3)]
  show ?case
  proof (cases "s + opcodeLen (code ! s) < e")
    case True
    then show ?thesis using 1 st by simp
  next
    case False
    then show ?thesis using st(1,3) opcodeLen_bounds(2) [of "code ! s"] by simp
  qed
qed

lemma chunk_entry_cases:
  assumes "run_env_ok E N" and "Pc F < length (ICode N)"
  obtains "chunk_entry N F = Inr None"
  | e c where "chunk_entry N F = Inr (Some (e, set_gas (gas_of F - c) F))" "Pc F < e" "c \<le> gas_of F"
      "ends_at (ICode N) (Pc F) e" "priced E N \<Longrightarrow> chunk_ok (gas_cost E (IRev N)) (ICode N) (Pc F) e c"
proof -
  let ?e = "GasChunkEnd (ICache N) ! Pc F" and ?c = "GasChunkCost (ICache N) ! Pc F"
  have "chunk_ok (gas_cost E rv) (ICode N) (Pc F) ?e ?c" if "Pc F < ?e" "cache_ok (gas_cost E rv) (ICode N) (ICache N)" for rv
    using assms that by (simp add: cache_ok_def chunks_ok_def)
  then have "ends_at (ICode N) (Pc F) ?e" "priced E N \<Longrightarrow> chunk_ok (gas_cost E (IRev N)) (ICode N) (Pc F) ?e ?c" if "Pc F < ?e"
    using assms(1) that by (auto simp: run_env_ok_def priced_def chunk_ok_def)
  moreover have "chunk_entry N F = Inr (if Pc F < ?e \<and> ?c \<le> gas_of F then Some (?e, set_gas (gas_of F - ?c) F) else None)"
    using assms(2) run_env_lengths(3,4) [OF assms(1)] by (simp add: chunk_entry_def vec_at_def)
  ultimately show thesis using that by (cases "Pc F < ?e \<and> ?c \<le> gas_of F") auto
qed

text \<open>The frame that has paid for its chunk.\<close>

lemma paid_running:
  assumes "running C" and "c \<le> gas_of (cur C)"
  defines "F \<equiv> set_gas (gas_of (cur C) - c) (cur C)"
  shows "running (written F (Pc F) (Sp F) C)" "run_step C (written F (Pc F) (Sp F) C)"
    "written F (Pc F) (Sp F) C = put_frame 0 F C" "gas_of (cur (written F (Pc F) (Sp F) C)) = gas_of (cur C) - c"
proof -
  have le: "gas_of (cur C) - c \<le> gas_of (cur C)" using assms(2) by (simp add: word_sub_le)
  have ok: "frame_ok (cur C)" and st: "Status C = EVMC_SUCCESS" using assms(1) by (simp_all add: running_def)
  have F: "F\<lparr>Pc := Pc (cur C)\<rparr> = F" by (simp add: F_def)
  then have s: "frame_step (cur C) (F\<lparr>Pc := Pc (cur C)\<rparr>)"
    using ok le by (simp add: F_def frame_step_def frame_ok_def)
  show w: "written F (Pc F) (Sp F) C = put_frame 0 F C" by (simp add: written_def)
  show "running (written F (Pc F) (Sp F) C)" "run_step C (written F (Pc F) (Sp F) C)"
    using write_back [OF assms(1) s ctx_step_refl] st w by simp_all
  show "gas_of (cur (written F (Pc F) (Sp F) C)) = gas_of (cur C) - c"
    using running_frames [OF assms(1)] w by (simp add: F_def put_frame_def)
qed

section \<open>One iteration\<close>

definition iteration :: "bool \<Rightarrow> 'h ext \<Rightarrow> interp_env \<Rightarrow> nat \<Rightarrow> 'h ctx \<Rightarrow> 'h flow res option" where
  "iteration gnu E N n C = (case chunk_entry N (cur C) of
      Inl e \<Rightarrow> Some (Inl e)
    | Inr None \<Rightarrow> Some (slow_step E N 0 (Pc (cur C)) C)
    | Inr (Some (ChunkEnd, F)) \<Rightarrow>
        if gnu then cgoto_run E N 0 ChunkEnd n F (Pc F) (Sp F) C
        else portable_run E N 0 ChunkEnd n (put_frame 0 F C))"

lemma interp_loop_Suc:
  assumes "running C"
  shows "interp_loop gnu E N (Suc n) 0 C =
    (if Pc (cur C) < length (ICode N) then
       (case iteration gnu E N n C of None \<Rightarrow> None
        | Some (Inr (Continue j C)) \<Rightarrow> interp_loop gnu E N n j C
        | Some r \<Rightarrow> Some r)
     else Some (Inr (Break C)))"
  using running_frames [OF assms] by (simp add: iteration_def Let_def)

lemma flow_rel_refl: "flow_rel r r"
  by (cases r) (simp_all add: same_ctx_def)

lemma flow_rel_safe: "flow_rel r r' \<Longrightarrow> flow_safe C r \<Longrightarrow> flow_safe C r'"
proof (cases r; cases r')
  fix D D' assume a: "flow_rel r r'" "flow_safe C r" "r = Return D" "r' = Return D'"
  then have e: "D\<lparr>FrameStack := []\<rparr> = D'\<lparr>FrameStack := []\<rparr>" by (simp add: same_ctx_def)
  have "FrameCount (D\<lparr>FrameStack := []\<rparr>) = FrameCount (D'\<lparr>FrameStack := []\<rparr>)"
    "ExeResult (D\<lparr>FrameStack := []\<rparr>) = ExeResult (D'\<lparr>FrameStack := []\<rparr>)"
    "Inst (D\<lparr>FrameStack := []\<rparr>) = Inst (D'\<lparr>FrameStack := []\<rparr>)" by (simp_all only: e)
  then show "flow_safe C r'" using a by (simp add: flow_safe_def final_def)
qed (auto simp: flow_safe_def)

lemma iteration_ok:
  assumes "ext_ok E" and "run_env_ok E N" and "running C" and "Pc (cur C) < length (ICode N)"
    and "length (ICode N) + 33 \<le> n" and "length (ICode N) + 33 \<le> m"
  shows "\<exists>r r'. iteration True E N n C = Some (Inr r) \<and> iteration False E N m C = Some (Inr r') \<and>
    flow_rel r r' \<and> flow_safe C r \<and> (priced E N \<longrightarrow> flow_ok N C r)"
proof (rule chunk_entry_cases [OF assms(2,4)])
  assume "chunk_entry N (cur C) = Inr None"
  moreover obtain r where "slow_step E N 0 (Pc (cur C)) C = Inr r" "flow_ok N C r"
    using slow_step_ok [OF assms(1-4)] by (auto simp: ensures_iff)
  ultimately show ?thesis using flow_rel_refl flow_ok_safe by (auto simp: iteration_def)
next
  fix e c
  let ?F = "set_gas (gas_of (cur C) - c) (cur C)"
  assume entry: "chunk_entry N (cur C) = Inr (Some (e, ?F))" and e: "Pc (cur C) < e" and c: "c \<le> gas_of (cur C)"
    and end_e: "ends_at (ICode N) (Pc (cur C)) e"
    and ok: "priced E N \<Longrightarrow> chunk_ok (gas_cost E (IRev N)) (ICode N) (Pc (cur C)) e c"
  note p = paid_running [OF assms(3) c]
  have ends: "ends_at (ICode N) (Pc ?F) e" "Pc ?F < e" using end_e e by simp_all
  have n: "e - Pc ?F \<le> n" "e - Pc ?F < m" using ends_at_le [OF ends] assms(5,6) by linarith+
  obtain r r' where runs: "cgoto_run E N 0 e n ?F (Pc ?F) (Sp ?F) C = Some (Inr r)"
    "portable_run E N 0 e m (put_frame 0 ?F C) = Some (Inr r')" "flow_rel r r'"
    using portable_run_rel [OF assms(1,2) p(1) ends n] p(3) by auto
  have flow: "chunk_flow E N (Pc ?F) e (written ?F (Pc ?F) (Sp ?F) C) r"
    using cgoto_run_ok [OF assms(1,2) p(1) ends n(1)] runs(1) by (auto simp: ensures_iff)
  have gas: "gas_of (cur D) < gas_of (cur C)"
    if "priced E N" "run_step (written ?F (Pc ?F) (Sp ?F) C) D" "jumps_from E N (Pc ?F) e" for D
  proof -
    have "0 < c" using jump_chunk_cost [OF assms(1) ok [OF that(1)]] that(3) assms(2) by (simp add: run_env_ok_def)
    then have "gas_of (cur C) - c < gas_of (cur C)" using c by (simp add: word_less_nat_alt unat_sub word_le_nat_alt)
    moreover have "gas_of (cur D) \<le> gas_of (cur C) - c" using that(2) p(4) by (simp add: run_step_def)
    ultimately show ?thesis by (rule le_less_trans [rotated])
  qed
  have "flow_safe C r" using flow p(2)
    by (auto simp: chunk_flow_def flow_safe_def split: flow.splits intro: run_step_trans final_step)
  moreover have "priced E N \<longrightarrow> flow_ok N C r" using flow p(2) gas e
    by (auto simp: chunk_flow_def flow_ok_def split: flow.splits intro: run_step_trans final_step)
  ultimately show ?thesis using runs entry by (simp add: iteration_def)
qed

text \<open>More fuel does not change the outcome.\<close>

lemma cgoto_run_mono: "cgoto_run E N i e n F pc sp C = Some r \<Longrightarrow> cgoto_run E N i e (n + k) F pc sp C = Some r"
proof (induction n arbitrary: F pc sp C)
  case (Suc n)
  then show ?case by (auto split: sum.splits cgoto.splits if_splits)
qed simp

lemma portable_run_mono: "portable_run E N i e n C = Some r \<Longrightarrow> portable_run E N i e (n + k) C = Some r"
proof (induction n arbitrary: i C)
  case (Suc n)
  then show ?case by (auto split: sum.splits case_end.splits if_splits)
qed simp

lemma iteration_mono: "iteration gnu E N n C = Some r \<Longrightarrow> iteration gnu E N (n + k) C = Some r"
  by (auto simp: iteration_def split: sum.splits option.splits if_splits intro: cgoto_run_mono portable_run_mono)

lemma iteration_safe:
  assumes "ext_ok E" and "run_env_ok E N" and "running C" and "Pc (cur C) < length (ICode N)"
    and "iteration gnu E N n C = Some x"
  obtains r where "x = Inr r" "flow_safe C r"
proof -
  let ?m = "n + (length (ICode N) + 33)"
  obtain r r' where "iteration True E N ?m C = Some (Inr r)" "iteration False E N ?m C = Some (Inr r')"
    "flow_rel r r'" "flow_safe C r"
    using iteration_ok [OF assms(1-4), of ?m ?m] by auto
  then show thesis using that iteration_mono [OF assms(5), of "length (ICode N) + 33"] flow_rel_safe [of r r' C]
    by (cases gnu) auto
qed

section \<open>The loop\<close>

definition loop_measure :: "interp_env \<Rightarrow> 'h ctx \<Rightarrow> nat" where
  "loop_measure N C = unat (gas_of (cur C)) * (length (ICode N) + 1) + (length (ICode N) - Pc (cur C))"

definition loop_fuel :: "interp_env \<Rightarrow> 'h ctx \<Rightarrow> nat" where
  "loop_fuel N C = loop_measure N C + length (ICode N) + 34"

text \<open>How the loop ends: at the end of the code, or with a result.\<close>

definition loop_end :: "interp_env \<Rightarrow> 'h ctx \<Rightarrow> 'h flow \<Rightarrow> bool" where
  "loop_end N C r = (case r of
     Continue j D \<Rightarrow> False
   | Break D \<Rightarrow> run_step C D \<and> running D \<and> length (ICode N) \<le> Pc (cur D)
   | Return D \<Rightarrow> final C D)"

lemma loop_end_step: "loop_end N D r \<Longrightarrow> run_step C D \<Longrightarrow> loop_end N C r"
  by (auto simp: loop_end_def split: flow.splits intro: run_step_trans final_step)

lemma loop_measure_less:
  assumes "run_step C D" and "gas_of (cur D) < gas_of (cur C) \<or> Pc (cur C) < Pc (cur D)" and "Pc (cur C) < length (ICode N)"
  shows "loop_measure N D < loop_measure N C"
proof (cases "gas_of (cur D) < gas_of (cur C)")
  case True
  let ?L = "length (ICode N) + 1"
  have "unat (gas_of (cur D)) + 1 \<le> unat (gas_of (cur C))" using True by (simp add: word_less_nat_alt)
  then have "(unat (gas_of (cur D)) + 1) * ?L \<le> unat (gas_of (cur C)) * ?L" by (rule mult_le_mono1)
  then show ?thesis using assms(3) unfolding loop_measure_def by simp
next
  case False
  then have "unat (gas_of (cur D)) \<le> unat (gas_of (cur C))"
    using assms(1) by (simp add: run_step_def word_le_nat_alt)
  then have "unat (gas_of (cur D)) * (length (ICode N) + 1) \<le> unat (gas_of (cur C)) * (length (ICode N) + 1)"
    by (rule mult_le_mono1)
  then show ?thesis using False assms(2,3) unfolding loop_measure_def by linarith
qed

text \<open>Whatever the prices, a run that ends has not gone wrong.\<close>

lemma interp_loop_safe:
  assumes "ext_ok E" and "run_env_ok E N"
  shows "running C \<Longrightarrow> interp_loop gnu E N n 0 C = Some x \<Longrightarrow> \<exists>r. x = Inr r \<and> loop_end N C r"
proof (induction n arbitrary: C)
  case (Suc n)
  note loop = interp_loop_Suc [OF Suc.prems(1), of gnu E N n]
  show ?case
  proof (cases "Pc (cur C) < length (ICode N)")
    case False
    then show ?thesis using loop Suc.prems by (auto simp: loop_end_def simp del: interp_loop.simps)
  next
    case True
    then obtain y where y: "iteration gnu E N n C = Some y"
      using loop Suc.prems(2) by (cases "iteration gnu E N n C") (simp_all del: interp_loop.simps)
    then obtain r where r: "y = Inr r" "flow_safe C r"
      using iteration_safe [OF assms Suc.prems(1) True] by blast
    show ?thesis
    proof (cases r)
      case (Continue j D)
      then have D: "j = 0" "run_step C D" "running D" using r(2) by (simp_all add: flow_safe_def)
      then have "interp_loop gnu E N n 0 D = Some x" using loop y r(1) Continue True Suc.prems(2) by (simp del: interp_loop.simps)
      then show ?thesis using Suc.IH [OF D(3)] loop_end_step [OF _ D(2)] by blast
    next
      case (Return D)
      then show ?thesis using loop y r True Suc.prems(2) by (auto simp: flow_safe_def loop_end_def simp del: interp_loop.simps)
    qed (use r in \<open>simp add: flow_safe_def\<close>)
  qed
qed simp

lemma interp_loop_rel:
  assumes "ext_ok E" and "run_env_ok E N" and "priced E N"
  shows "running C \<Longrightarrow> loop_fuel N C \<le> n \<Longrightarrow> loop_fuel N C \<le> m \<Longrightarrow>
    \<exists>r r'. interp_loop True E N n 0 C = Some (Inr r) \<and> interp_loop False E N m 0 C = Some (Inr r') \<and>
      flow_rel r r' \<and> loop_end N C r"
proof (induction n arbitrary: m C)
  case (Suc n)
  obtain k where m: "m = Suc k" using Suc.prems(3) by (cases m) (auto simp: loop_fuel_def)
  note loops = interp_loop_Suc [OF Suc.prems(1)]
  show ?case
  proof (cases "Pc (cur C) < length (ICode N)")
    case False
    then show ?thesis using m loops Suc.prems(1) by (auto simp: loop_end_def simp del: interp_loop.simps)
  next
    case True
    have "length (ICode N) + 33 \<le> n" "length (ICode N) + 33 \<le> k" using Suc.prems m by (simp_all add: loop_fuel_def)
    then obtain r r' where it: "iteration True E N n C = Some (Inr r)" "iteration False E N k C = Some (Inr r')"
      and rel: "flow_rel r r'" and ok: "flow_ok N C r"
      using iteration_ok [OF assms(1,2) Suc.prems(1) True] assms(3) by blast
    show ?thesis
    proof (cases r)
      case (Continue j D)
      then have r': "r' = Continue 0 D" and j: "j = 0" and D: "running D" "run_step C D"
        "gas_of (cur D) < gas_of (cur C) \<or> Pc (cur C) < Pc (cur D)"
        using rel ok by (cases r'; simp add: flow_ok_def)+
      have "loop_measure N D < loop_measure N C" by (rule loop_measure_less [OF D(2,3) True])
      then have "loop_fuel N D \<le> n" "loop_fuel N D \<le> k" using Suc.prems m by (simp_all add: loop_fuel_def)
      then obtain s s' where "interp_loop True E N n 0 D = Some (Inr s)" "interp_loop False E N k 0 D = Some (Inr s')"
        "flow_rel s s'" "loop_end N D s"
        using Suc.IH [OF D(1)] by blast
      moreover have "loop_end N C s" using calculation(4) D(2) by (rule loop_end_step)
      ultimately show ?thesis using it True m loops Continue r' j by (simp del: interp_loop.simps)
    next
      case (Return D)
      then obtain D' where r': "r' = Return D'" using rel by (cases r') auto
      show ?thesis using it True m loops Return r' rel ok
        by (simp add: loop_end_def flow_ok_def del: interp_loop.simps)
    qed (use ok in \<open>simp add: flow_ok_def\<close>)
  qed
qed (simp add: loop_fuel_def)

end
