(* ===== verification/Gas_Blocks.thy ===== *)
theory Gas_Blocks
  imports Opcode_Class
begin

text \<open>
  \<open>GasBlock\<close>, \<open>buildGasBlocks\<close> and \<open>resolveConstantJumpTarget\<close> of \<open>src/evm/evm_cache.cpp\<close>: the partition of
  the code into straight-line blocks. A \<open>uint32_t\<close> is a natural number; \<open>u32_cast\<close> is the conversion to
  it. The outer loop of \<open>buildGasBlocks\<close> takes a bound on its iterations: with code of \<open>2 ^ 32\<close> bytes or
  more, where \<open>Block.Start\<close> no longer is the program counter, it makes no progress.
\<close>

record GasBlock =
  Start :: nat
  End :: nat
  LastPc :: nat
  PrevPc :: nat
  LastOpcode :: u8
  PrevOpcode :: u8
  Cost :: u64
  Succs :: "nat list"
  Preds :: "nat list"

definition new_block :: GasBlock where
  "new_block = \<lparr>Start = 0, End = 0, LastPc = 0, PrevPc = UINT32_MAX, LastOpcode = 0, PrevOpcode = 0,
     Cost = 0, Succs = [], Preds = []\<rparr>"

section \<open>Block starts\<close>

function markBlockStarts :: "u8 list \<Rightarrow> nat \<Rightarrow> u8 list \<Rightarrow> u8 list res" where
  "markBlockStarts code pc IsBlockStart =
     (if pc < length code then
        let CurOpcode = code ! pc; Len = opcodeLen CurOpcode; NextPc = pc + Len in
        bindE (if CurOpcode = OP_JUMPDEST then vec_put pc 1 IsBlockStart else Inr IsBlockStart) (\<lambda>IsBlockStart.
        bindE (if isGasChunkTerminator CurOpcode \<and> NextPc < length code
               then vec_put NextPc 1 IsBlockStart else Inr IsBlockStart) (\<lambda>IsBlockStart.
        markBlockStarts code NextPc IsBlockStart))
      else Inr IsBlockStart)"
  by auto
termination by (relation "measure (\<lambda>(code, pc, M). length code - pc)") (auto simp: diff_less_mono2)

declare markBlockStarts.simps [simp del]

section \<open>Blocks\<close>

text \<open>The inner loop: the instructions of one block.\<close>

function scanBlock :: "(u8 \<Rightarrow> u64) \<Rightarrow> u8 list \<Rightarrow> u8 list \<Rightarrow> nat \<Rightarrow> GasBlock \<Rightarrow> (nat \<times> GasBlock) res" where
  "scanBlock cost code IsBlockStart CurPc Block =
     (if CurPc < length code then
        bindE (vec_at IsBlockStart CurPc) (\<lambda>mark.
        if CurPc \<noteq> Start Block \<and> mark \<noteq> 0 then Inr (CurPc, Block)
        else
          let CurOpcode = code ! CurPc;
              Block = Block\<lparr>LastPc := u32_cast CurPc, PrevPc := LastPc Block, LastOpcode := CurOpcode,
                PrevOpcode := LastOpcode Block, Cost := Cost Block + cost CurOpcode\<rparr>;
              NextPc = CurPc + opcodeLen CurOpcode
          in if isGasChunkTerminator CurOpcode then Inr (NextPc, Block)
             else scanBlock cost code IsBlockStart NextPc Block)
      else Inr (CurPc, Block))"
  by auto
termination
  by (relation "measure (\<lambda>(cost, code, M, pc, B). length code - pc)") (auto simp: diff_less_mono2)

declare scanBlock.simps [simp del]

fun collectBlocks ::
  "nat \<Rightarrow> (u8 \<Rightarrow> u64) \<Rightarrow> u8 list \<Rightarrow> u8 list \<Rightarrow> nat \<Rightarrow> GasBlock list \<Rightarrow> nat list \<Rightarrow> (GasBlock list \<times> nat list) res option" where
  "collectBlocks 0 cost code IsBlockStart pc Blocks BlockAtPc = None"
| "collectBlocks (Suc n) cost code IsBlockStart pc Blocks BlockAtPc =
     (if pc < length code then
        (case vec_at IsBlockStart pc of Inl e \<Rightarrow> Some (Inl e) | Inr mark \<Rightarrow>
         if mark = 0 then collectBlocks n cost code IsBlockStart (pc + 1) Blocks BlockAtPc
         else
           let Block = new_block\<lparr>Start := u32_cast pc\<rparr> in
           if Start Block \<ge> length code then Some (Inr (Blocks, BlockAtPc))
           else (case scanBlock cost code IsBlockStart pc Block of Inl e \<Rightarrow> Some (Inl e) | Inr (CurPc, Block) \<Rightarrow>
                 let Block = Block\<lparr>End := u32_cast CurPc\<rparr>;
                     BlockId = u32_cast (length Blocks) in
                 (case vec_put pc BlockId BlockAtPc of Inl e \<Rightarrow> Some (Inl e) | Inr BlockAtPc \<Rightarrow>
                  collectBlocks n cost code IsBlockStart CurPc (Blocks @ [Block]) BlockAtPc)))
      else Some (Inr (Blocks, BlockAtPc)))"

definition buildGasBlocks ::
  "nat \<Rightarrow> (u8 \<Rightarrow> u64) \<Rightarrow> u8 list \<Rightarrow> (GasBlock list \<times> nat list) res option" where
  "buildGasBlocks n cost code =
     (if length code = 0 then Some (Inr ([], []))
      else
        let IsBlockStart = (replicate (length code) 0)[0 := 1] in
        (case markBlockStarts code 0 IsBlockStart of Inl e \<Rightarrow> Some (Inl e) | Inr IsBlockStart \<Rightarrow>
         collectBlocks n cost code IsBlockStart 0 [] (replicate (length code) UINT32_MAX)))"

definition resolveConstantJumpTarget ::
  "u8 list \<Rightarrow> u256 list \<Rightarrow> nat \<Rightarrow> GasBlock \<Rightarrow> nat option res" where
  "resolveConstantJumpTarget JDM PushMap CodeSz Block =
     (if \<not> isJumpOpcode (LastOpcode Block) \<or> PrevPc Block = UINT32_MAX then Inr None
      else if \<not> isPushOpcode (PrevOpcode Block) then Inr None
      else if u32_cast (PrevPc Block + opcodeLen (PrevOpcode Block)) \<noteq> LastPc Block then Inr None
      else bindE (vec_at PushMap (PrevPc Block)) (\<lambda>Value.
           if drop_bit 64 Value \<noteq> 0 then Inr None
           else let Dest = unat (ucast Value :: u64) in
                if Dest \<ge> CodeSz then Inr None
                else bindE (vec_at JDM Dest) (\<lambda>b.
                     if b = 0 then Inr None else Inr (Some (u32_cast Dest)))))"

section \<open>Where blocks start\<close>

text \<open>The instruction after \<open>p\<close> in the walk over the code.\<close>

abbreviation next_instr :: "u8 list \<Rightarrow> nat \<Rightarrow> nat" where
  "next_instr code p \<equiv> p + opcodeLen (code ! p)"

lemma instrs_unfold:
  "instrs code s e = (if s < e \<and> s < length code then s # instrs code (next_instr code s) e else [])"
  by (rule instrs.simps)

definition marked :: "u8 list \<Rightarrow> nat \<Rightarrow> nat \<Rightarrow> bool" where
  "marked code pc q \<longleftrightarrow> (\<exists>p \<in> set (instrs code pc (length code)).
     p = q \<and> code ! p = OP_JUMPDEST \<or> next_instr code p = q \<and> isGasChunkTerminator (code ! p))"

lemma marked_Cons:
  assumes "pc < length code"
  shows "marked code pc q \<longleftrightarrow> pc = q \<and> code ! pc = OP_JUMPDEST \<or>
    next_instr code pc = q \<and> isGasChunkTerminator (code ! pc) \<or> marked code (next_instr code pc) q"
  using assms unfolding marked_def by (subst instrs_unfold) auto

lemma less_next: "pc < length code \<Longrightarrow> length code - next_instr code pc < length code - pc"
  using opcodeLen_pos [of "code ! pc"] by linarith

lemma markBlockStarts_eq:
  "length M = length code \<Longrightarrow> \<exists>M'. markBlockStarts code pc M = Inr M' \<and> length M' = length code \<and>
     (\<forall>q < length code. M' ! q = (if marked code pc q then 1 else M ! q))"
proof (induction "length code - pc" arbitrary: pc M rule: less_induct)
  case less
  show ?case
  proof (cases "pc < length code")
    case False
    then have "instrs code pc (length code) = []" by (subst instrs_unfold) simp
    then have "\<not> marked code pc q" for q by (simp add: marked_def)
    then show ?thesis using False less.prems markBlockStarts.simps [of code pc M] by simp
  next
    case True
    let ?op = "code ! pc" and ?nx = "next_instr code pc"
    let ?M1 = "if ?op = OP_JUMPDEST then M[pc := 1] else M"
    let ?M2 = "if isGasChunkTerminator ?op \<and> ?nx < length code then ?M1[?nx := 1] else ?M1"
    have l: "length ?M1 = length code" "length ?M2 = length code" using less.prems by simp_all
    have step: "markBlockStarts code pc M = markBlockStarts code ?nx ?M2"
      using True less.prems l by (subst markBlockStarts.simps) (simp add: vec_put_Inr Let_def)
    obtain M' where "markBlockStarts code ?nx ?M2 = Inr M'" "length M' = length code"
      and nth: "\<forall>q < length code. M' ! q = (if marked code ?nx q then 1 else ?M2 ! q)"
      using less.hyps [of ?nx ?M2] less_next [OF True] l(2) by blast
    moreover have "\<forall>q < length code. M' ! q = (if marked code pc q then 1 else M ! q)"
      using nth less.prems unfolding marked_Cons [OF True] by (auto simp: nth_list_update)
    ultimately show ?thesis using step by auto
  qed
qed

section \<open>What a block covers\<close>

definition covers :: "(u8 \<Rightarrow> u64) \<Rightarrow> u8 list \<Rightarrow> u8 list \<Rightarrow> nat \<Rightarrow> GasBlock \<Rightarrow> nat \<Rightarrow> GasBlock \<Rightarrow> bool" where
  "covers cost code M s B e B' \<longleftrightarrow> s \<le> e \<and> Start B' = Start B \<and> Succs B' = Succs B \<and> Preds B' = Preds B \<and>
     ends_at code s e \<and> Cost B' = Cost B + sum_list (map (\<lambda>p. cost (code ! p)) (instrs code s e)) \<and>
     (\<forall>p \<in> set (butlast (instrs code s e)). \<not> isGasChunkTerminator (code ! p)) \<and>
     (\<forall>p \<in> set (instrs code s e). p \<noteq> Start B \<longrightarrow> M ! p = 0) \<and>
     (length code \<le> e \<or> M ! e \<noteq> 0 \<or>
        (\<exists>p \<in> set (instrs code s (length code)). isGasChunkTerminator (code ! p) \<and> next_instr code p = e))"

lemma instrs_empty: "instrs code s s = []"
  by (subst instrs_unfold) simp

lemma ends_at_refl: "ends_at code s s"
  by (subst ends_at.simps) simp

lemma covers_here:
  "length code \<le> s \<or> M ! s \<noteq> 0 \<Longrightarrow> covers cost code M s B s B"
  by (auto simp: covers_def instrs_empty ends_at_refl)

lemma before_next: "next_instr code s \<le> e \<Longrightarrow> s < e"
  using opcodeLen_pos [of "code ! s"] by linarith

lemma instrs_step: "s < length code \<Longrightarrow> next_instr code s \<le> e \<Longrightarrow> instrs code s e = s # instrs code (next_instr code s) e"
  using before_next [of s code e] by (subst instrs_unfold) auto

lemma ends_at_next: "s < length code \<Longrightarrow> next_instr code s \<le> e \<Longrightarrow> ends_at code (next_instr code s) e \<Longrightarrow> ends_at code s e"
  using before_next [of s code e] by (subst ends_at.simps) auto

lemma covers_last:
  assumes "s < length code" and "isGasChunkTerminator (code ! s)" and "s = Start B \<or> M ! s = 0"
    and "Start B' = Start B" "Succs B' = Succs B" "Preds B' = Preds B" "Cost B' = Cost B + cost (code ! s)"
  shows "covers cost code M s B (next_instr code s) B'"
  using assms instrs_step [OF assms(1) le_refl] ends_at_next [OF assms(1) le_refl ends_at_refl]
    instrs_step [OF assms(1), of "length code"] instrs_unfold [of code s "length code"]
  by (auto simp: covers_def instrs_empty)

lemma covers_step:
  assumes "s < length code" and "\<not> isGasChunkTerminator (code ! s)" and "s = Start B \<or> M ! s = 0"
    and "Start B1 = Start B" "Succs B1 = Succs B" "Preds B1 = Preds B" "Cost B1 = Cost B + cost (code ! s)"
    and "covers cost code M (next_instr code s) B1 e B'"
  shows "covers cost code M s B e B'"
proof -
  have e: "next_instr code s \<le> e" using assms(8) by (simp add: covers_def)
  have "set (instrs code (next_instr code s) (length code)) \<subseteq> set (instrs code s (length code))"
    using assms(1) by (subst (2) instrs_unfold) auto
  then show ?thesis
    using assms instrs_step [OF assms(1) e] ends_at_next [OF assms(1) e]
    by (auto simp: covers_def add.assoc)
qed

lemma scanBlock_covers:
  assumes "length M = length code"
  shows "\<exists>e B'. scanBlock cost code M s B = Inr (e, B') \<and> covers cost code M s B e B' \<and>
    (s < length code \<and> (s = Start B \<or> M ! s = 0) \<longrightarrow> s < e)"
proof (induction "length code - s" arbitrary: s B rule: less_induct)
  case less
  show ?case
  proof (cases "s < length code \<and> (s = Start B \<or> M ! s = 0)")
    case False
    then have "scanBlock cost code M s B = Inr (s, B)" using assms
      by (subst scanBlock.simps) (auto simp: vec_at_Inr)
    then show ?thesis using False covers_here [of code s M] by auto
  next
    case True
    let ?B = "B\<lparr>LastPc := u32_cast s, PrevPc := LastPc B, LastOpcode := code ! s,
      PrevOpcode := LastOpcode B, Cost := Cost B + cost (code ! s)\<rparr>"
    have step: "scanBlock cost code M s B = (if isGasChunkTerminator (code ! s) then Inr (next_instr code s, ?B)
        else scanBlock cost code M (next_instr code s) ?B)"
      using True assms by (subst scanBlock.simps) (auto simp: vec_at_Inr Let_def)
    show ?thesis
    proof (cases "isGasChunkTerminator (code ! s)")
      case t: True
      have "covers cost code M s B (next_instr code s) ?B" by (rule covers_last) (use True t in auto)
      then show ?thesis using step t by simp
    next
      case f: False
      obtain e B' where "scanBlock cost code M (next_instr code s) ?B = Inr (e, B')"
        and c: "covers cost code M (next_instr code s) ?B e B'"
        using less.hyps [of "next_instr code s" ?B] less_next [of s code] True by blast
      moreover have "covers cost code M s B e B'" by (rule covers_step [OF _ f _ _ _ _ _ c]) (use True in auto)
      moreover have "s < e" using c opcodeLen_pos [of "code ! s"] unfolding covers_def by linarith
      ultimately show ?thesis using step f by simp
    qed
  qed
qed

section \<open>The partition\<close>

text \<open>A block is a chunk without a jump destination behind its start.\<close>

definition block_ok :: "(u8 \<Rightarrow> u64) \<Rightarrow> u8 list \<Rightarrow> GasBlock \<Rightarrow> bool" where
  "block_ok cost code B \<longleftrightarrow> Start B < length code \<and> Start B < End B \<and>
     chunk_ok cost code (Start B) (End B) (Cost B) \<and>
     (\<forall>p \<in> set (instrs code (Start B) (End B)). p \<noteq> Start B \<longrightarrow> code ! p \<noteq> OP_JUMPDEST)"

text \<open>\<open>BlockAtPc\<close> maps the start of a block to its number and everything else to \<open>UINT32_MAX\<close>.\<close>

definition index_ok :: "u8 list \<Rightarrow> GasBlock list \<Rightarrow> nat list \<Rightarrow> bool" where
  "index_ok code Bs A \<longleftrightarrow> length A = length code \<and>
     (\<forall>q < length code. A ! q = UINT32_MAX \<or> A ! q < length Bs \<and> Start (Bs ! (A ! q)) = q) \<and>
     (\<forall>i < length Bs. A ! Start (Bs ! i) = i)"

definition tiles :: "u8 list \<Rightarrow> GasBlock list \<Rightarrow> nat list" where
  "tiles code Bs = concat (map (\<lambda>B. instrs code (Start B) (End B)) Bs)"

lemma instrs_split:
  "ends_at code s e \<Longrightarrow> instrs code s (length code) = instrs code s e @ instrs code e (length code)"
proof (induction code s e rule: ends_at.induct)
  case (1 code s e)
  show ?case
  proof (cases "s < e")
    case True
    note st = ends_at_step [OF 1(2) True]
    then show ?thesis using 1(1) [OF True st(2)] instrs_unfold [of code s "length code"] by simp
  next
    case False
    then have "s = e" using 1(2) ends_at.simps [of code s e] by simp
    then show ?thesis by (simp add: instrs_empty)
  qed
qed

lemma index_ok_snoc:
  assumes "index_ok code Bs A" and "Start B = pc" and "pc < length code" and "\<forall>B' \<in> set Bs. Start B' < pc"
  shows "index_ok code (Bs @ [B]) (A[pc := length Bs])"
  using assms nth_mem [of _ Bs] by (auto simp: index_ok_def nth_list_update nth_append less_Suc_eq)

definition marks_ok :: "u8 list \<Rightarrow> u8 list \<Rightarrow> bool" where
  "marks_ok code M \<longleftrightarrow> length M = length code \<and> (\<forall>q < length code. M ! q \<noteq> 0 \<longleftrightarrow> q = 0 \<or> marked code 0 q)"

text \<open>The state of the outer loop at \<open>pc\<close>.\<close>

definition collecting :: "(u8 \<Rightarrow> u64) \<Rightarrow> u8 list \<Rightarrow> u8 list \<Rightarrow> nat \<Rightarrow> GasBlock list \<Rightarrow> nat list \<Rightarrow> bool" where
  "collecting cost code M pc Bs A \<longleftrightarrow> (pc < length code \<longrightarrow> M ! pc \<noteq> 0) \<and>
     tiles code Bs @ instrs code pc (length code) = boundaries code \<and>
     (\<forall>B \<in> set Bs. block_ok cost code B \<and> Start B < pc \<and> Succs B = [] \<and> Preds B = []) \<and> index_ok code Bs A \<and>
     length Bs \<le> pc"

lemma collecting_step:
  assumes "collecting cost code M pc Bs A" and "marks_ok code M" and "pc < length code" and "length code + 33 < 2 ^ 32"
  defines "B0 \<equiv> new_block\<lparr>Start := u32_cast pc\<rparr>"
  obtains e B where "scanBlock cost code M pc B0 = Inr (e, B)" "pc < e"
    "collecting cost code M e (Bs @ [B\<lparr>End := u32_cast e\<rparr>]) (A[pc := u32_cast (length Bs)])"
proof -
  have B0: "Start B0 = pc" "Cost B0 = 0" "Succs B0 = []" "Preds B0 = []"
    using assms(3,4) by (simp_all add: B0_def new_block_def)
  have M: "length M = length code" using assms(2) by (simp add: marks_ok_def)
  obtain e B where scan: "scanBlock cost code M pc B0 = Inr (e, B)" and c: "covers cost code M pc B0 e B" and lt: "pc < e"
    using scanBlock_covers [OF M, of cost pc B0] assms(3) B0(1) by auto
  have ends: "ends_at code pc e" using c by (simp add: covers_def)
  have "e \<le> length code + 32" using ends lt
  proof (induction code pc e rule: ends_at.induct)
    case (1 code s e)
    note st = ends_at_step [OF 1(2,3)]
    show ?case using 1 st opcodeLen_bounds(2) [of "code ! s"] by (cases "next_instr code s < e") auto
  qed
  then have e32: "u32_cast e = e" using assms(4) by simp
  let ?B = "B\<lparr>End := u32_cast e\<rparr>"
  have bd: "set (instrs code pc (length code)) \<subseteq> set (boundaries code)"
    using assms(1) unfolding collecting_def by (metis Un_upper2 set_append)
  have dest: "M ! p \<noteq> 0" if "p \<in> set (boundaries code)" "code ! p = OP_JUMPDEST" for p
    using that assms(2) instrs_range [of p code 0 "length code"] by (auto simp: marks_ok_def marked_def boundaries_def)
  have sub: "set (instrs code pc e) \<subseteq> set (boundaries code)" using bd instrs_split [OF ends] by auto
  have nd: "code ! p \<noteq> OP_JUMPDEST" if "p \<in> set (instrs code pc e)" "p \<noteq> pc" for p
    using that c B0(1) dest [of p] sub by (auto simp: covers_def)
  have "block_ok cost code ?B" using c B0 e32 lt assms(3) nd
    by (simp add: block_ok_def covers_def chunk_ok_def)
  moreover have "M ! e \<noteq> 0" if "e < length code"
    using c that assms(2) bd by (auto simp: covers_def marks_ok_def marked_def boundaries_def)
  moreover have "tiles code (Bs @ [?B]) @ instrs code e (length code) = boundaries code"
    using assms(1) instrs_split [OF ends] c B0 e32 by (simp add: collecting_def tiles_def covers_def)
  moreover have "index_ok code (Bs @ [?B]) (A[pc := u32_cast (length Bs)])"
    using assms(1,3,4) c B0 index_ok_snoc [of code Bs A ?B pc] by (auto simp: collecting_def covers_def)
  ultimately have "collecting cost code M e (Bs @ [?B]) (A[pc := u32_cast (length Bs)])"
    using assms(1) lt c B0 by (auto simp: collecting_def covers_def)
  then show thesis using that scan lt by blast
qed

lemma collectBlocks_ok:
  assumes "marks_ok code M" and "length code + 33 < 2 ^ 32"
  shows "collecting cost code M pc Bs A \<Longrightarrow> length code - pc < n \<Longrightarrow>
    \<exists>Bs' A' pc'. collectBlocks n cost code M pc Bs A = Some (Inr (Bs', A')) \<and> collecting cost code M pc' Bs' A' \<and>
      length code \<le> pc'"
proof (induction n arbitrary: pc Bs A)
  case (Suc n)
  show ?case
  proof (cases "pc < length code")
    case False
    then show ?thesis using Suc.prems(1) by (intro exI [of _ Bs] exI [of _ A] exI [of _ pc]) simp
  next
    case True
    have M: "length M = length code" "M ! pc \<noteq> 0" and A: "length A = length code"
      using assms(1) Suc.prems(1) True by (auto simp: marks_ok_def collecting_def index_ok_def)
    obtain e B where scan: "scanBlock cost code M pc (new_block\<lparr>Start := u32_cast pc\<rparr>) = Inr (e, B)" and lt: "pc < e"
      and c: "collecting cost code M e (Bs @ [B\<lparr>End := u32_cast e\<rparr>]) (A[pc := u32_cast (length Bs)])"
      by (rule collecting_step [OF Suc.prems(1) assms(1) True assms(2)])
    have "length code - e < n" using Suc.prems(2) lt True by linarith
    then show ?thesis using Suc.IH [OF c] True M A scan assms(2)
      by (simp add: vec_at_Inr vec_put_Inr Let_def)
  qed
qed simp

theorem buildGasBlocks_ok:
  assumes "length code + 33 < 2 ^ 32" and "code \<noteq> []" and "length code < n"
  shows "\<exists>Bs A. buildGasBlocks n cost code = Some (Inr (Bs, A)) \<and>
    (\<forall>B \<in> set Bs. block_ok cost code B \<and> Succs B = [] \<and> Preds B = []) \<and> index_ok code Bs A \<and> tiles code Bs = boundaries code"
proof -
  let ?M0 = "(replicate (length code) 0)[0 := 1] :: u8 list"
  obtain M where M: "markBlockStarts code 0 ?M0 = Inr M" "length M = length code"
    "\<forall>q < length code. M ! q = (if marked code 0 q then 1 else ?M0 ! q)"
    using markBlockStarts_eq [of ?M0 code 0] by auto
  have marks: "marks_ok code M" using M(2,3) assms(2) by (auto simp: marks_ok_def nth_list_update)
  have "collecting cost code M 0 [] (replicate (length code) UINT32_MAX)"
    using marks assms(2) by (auto simp: collecting_def marks_ok_def tiles_def boundaries_def index_ok_def)
  from collectBlocks_ok [OF marks assms(1) this, of n] assms(3)
  obtain Bs A pc where r: "collectBlocks n cost code M 0 [] (replicate (length code) UINT32_MAX) = Some (Inr (Bs, A))"
    and c: "collecting cost code M pc Bs A" and pc: "length code \<le> pc" by auto
  have "instrs code pc (length code) = []" using pc by (subst instrs_unfold) simp
  then show ?thesis using r c M(1) assms(2) by (auto simp: buildGasBlocks_def Let_def collecting_def)
qed

end
