(* ===== verification/Cfg.thy ===== *)
theory Cfg
  imports Gas_Blocks "HOL-Library.While_Combinator"
begin

text \<open>
  The control-flow graph over the gas blocks (\<open>src/evm/evm_cache.cpp\<close>): \<open>addEdge\<close>, \<open>splitCriticalEdges\<close>,
  \<open>computeReachable\<close>, \<open>computeReverseTopo\<close> and \<open>computeInCycle\<close>. A \<open>while\<close> loop is \<open>while_option\<close>, whose
  value is \<open>None\<close> when the loop does not end. A vector that is used as a stack is a list with the back of
  the vector first. Accesses are under the bounds checks of the source, and the vectors are allocated
  with one entry per block.
\<close>

section \<open>Edges\<close>

definition addEdge :: "GasBlock list \<Rightarrow> nat \<Rightarrow> nat \<Rightarrow> GasBlock list" where
  "addEdge Blocks From To =
     (if From \<ge> length Blocks \<or> To \<ge> length Blocks then Blocks
      else
        let F = Blocks ! From;
            Blocks = Blocks[From := F\<lparr>Succs := if To \<in> set (Succs F) then Succs F else Succs F @ [To]\<rparr>];
            T = Blocks ! To
        in Blocks[To := T\<lparr>Preds := if From \<in> set (Preds T) then Preds T else Preds T @ [From]\<rparr>])"

definition criticalEdges :: "GasBlock list \<Rightarrow> (nat \<times> nat) list" where
  "criticalEdges Blocks =
     concat (map (\<lambda>FromId.
       if length (Succs (Blocks ! FromId)) \<le> 1 then []
       else map (\<lambda>ToId. (u32_cast FromId, ToId))
         (filter (\<lambda>ToId. ToId < length Blocks \<and> length (Preds (Blocks ! ToId)) > 1) (Succs (Blocks ! FromId))))
       [0..<length Blocks])"

definition splitEdge :: "nat \<Rightarrow> nat \<times> nat \<Rightarrow> GasBlock list \<times> bool \<Rightarrow> GasBlock list \<times> bool" where
  "splitEdge CodeSz = (\<lambda>(FromId, ToId) (Blocks, Changed).
     let NewStart = End (Blocks ! FromId) in
     if NewStart \<ge> CodeSz then (Blocks, Changed)
     else
       let NewBlock = new_block\<lparr>Start := NewStart, End := NewStart, LastPc := NewStart, PrevPc := UINT32_MAX,
             LastOpcode := 0, PrevOpcode := 0, Cost := 0\<rparr>;
           NewId = u32_cast (length Blocks);
           F = Blocks ! FromId;
           Blocks = Blocks[FromId := F\<lparr>Succs := filter (\<lambda>x. x \<noteq> ToId) (Succs F)\<rparr>];
           T = Blocks ! ToId;
           Blocks = Blocks[ToId := T\<lparr>Preds := filter (\<lambda>x. x \<noteq> FromId) (Preds T)\<rparr>];
           Blocks = Blocks @ [NewBlock];
           Blocks = addEdge Blocks FromId NewId;
           Blocks = addEdge Blocks NewId ToId
       in (Blocks, True))"

definition splitCriticalEdges :: "GasBlock list \<Rightarrow> nat \<Rightarrow> GasBlock list \<times> bool" where
  "splitCriticalEdges Blocks CodeSz = fold (splitEdge CodeSz) (criticalEdges Blocks) (Blocks, False)"

section \<open>Reachability\<close>

text \<open>The loop over the successors of a node: the unmarked ones are marked and pushed.\<close>

definition push_unmarked :: "nat \<Rightarrow> nat list \<Rightarrow> u8 list \<times> nat list \<Rightarrow> u8 list \<times> nat list" where
  "push_unmarked NumBlocks =
     fold (\<lambda>Succ (Marks, St).
       if Succ \<ge> NumBlocks then (Marks, St)
       else if Marks ! Succ = 0 then (Marks[Succ := 1], Succ # St) else (Marks, St))"

definition reach_step :: "GasBlock list \<Rightarrow> u8 list \<times> nat list \<Rightarrow> u8 list \<times> nat list" where
  "reach_step Blocks = (\<lambda>(Reachable, St).
     let Node = hd St; St = tl St in
     if Node \<ge> length Blocks then (Reachable, St)
     else push_unmarked (length Blocks) (Succs (Blocks ! Node)) (Reachable, St))"

definition computeReachable :: "GasBlock list \<Rightarrow> nat \<Rightarrow> u8 list option" where
  "computeReachable Blocks EntryId =
     (let NumBlocks = length Blocks; Reachable = replicate NumBlocks 0 in
      if NumBlocks = 0 \<or> EntryId \<ge> NumBlocks then Some Reachable
      else map_option fst
        (while_option (\<lambda>(Reachable, St). St \<noteq> []) (reach_step Blocks) (Reachable[EntryId := 1], [EntryId])))"

section \<open>Reverse topological order\<close>

definition isBackEdge :: "nat list list \<Rightarrow> nat \<Rightarrow> nat \<Rightarrow> bool" where
  "isBackEdge BackEdges From To \<longleftrightarrow> From < length BackEdges \<and> To \<in> set (BackEdges ! From)"

definition topo_step ::
  "GasBlock list \<Rightarrow> nat list list \<Rightarrow> u8 list \<times> nat list \<times> nat list \<Rightarrow> u8 list \<times> nat list \<times> nat list" where
  "topo_step Blocks BackEdges = (\<lambda>(Visited, Order, St).
     let Current = hd St; St = tl St in
     if Current \<ge> length Blocks then (Visited, Order, St)
     else if Visited ! Current = 2 then (Visited, Order, St)
     else if Visited ! Current = 1 then (Visited[Current := 2], Order @ [Current], St)
     else
       let (Visited, St) =
         fold (\<lambda>Succ (Visited, St).
           if Succ \<ge> length Blocks then (Visited, St)
           else if \<not> isBackEdge BackEdges Current Succ \<and> Visited ! Succ = 0
           then (Visited[Succ := 1], Succ # St) else (Visited, St))
           (rev (Succs (Blocks ! Current))) (Visited[Current := 1], Current # St)
       in (Visited, Order, St))"

definition computeReverseTopo :: "GasBlock list \<Rightarrow> nat list list \<Rightarrow> nat list option" where
  "computeReverseTopo Blocks BackEdges =
     map_option snd
       (fold (\<lambda>StartNode s.
          case s of None \<Rightarrow> None
          | Some (Visited, Order) \<Rightarrow>
              if Visited ! StartNode \<noteq> 0 then Some (Visited, Order)
              else map_option (\<lambda>(Visited, Order, St). (Visited, Order))
                     (while_option (\<lambda>(Visited, Order, St). St \<noteq> []) (topo_step Blocks BackEdges)
                        (Visited, Order, [StartNode])))
          [0..<length Blocks] (Some (replicate (length Blocks) 0, [])))"

section \<open>Cycles\<close>

text \<open>The first pass: depth-first search with an explicit stack of nodes and successor indices.\<close>

text \<open>The inner \<open>while\<close>: skip the successors that need no visit; the result says whether one was pushed.\<close>

fun dfs_scan :: "nat \<Rightarrow> nat list \<Rightarrow> u8 list \<Rightarrow> nat \<Rightarrow> nat option \<times> nat" where
  "dfs_scan NumBlocks [] Visited k = (None, k)"
| "dfs_scan NumBlocks (Succ # rest) Visited k =
     (if Succ \<ge> NumBlocks then dfs_scan NumBlocks rest Visited (k + 1)
      else if Visited ! Succ = 0 then (Some Succ, k + 1)
      else dfs_scan NumBlocks rest Visited (k + 1))"

definition dfs_step ::
  "GasBlock list \<Rightarrow> u8 list \<times> nat list \<times> (nat \<times> nat) list \<Rightarrow> u8 list \<times> nat list \<times> (nat \<times> nat) list" where
  "dfs_step Blocks = (\<lambda>(Visited, Order, DfsStack).
     let (Node, SuccIndex) = hd DfsStack;
         (found, SuccIndex) = dfs_scan (length Blocks) (drop SuccIndex (Succs (Blocks ! Node))) Visited SuccIndex
     in case found of
          Some Succ \<Rightarrow> (Visited[Succ := 1], Order, (Succ, 0) # (Node, SuccIndex) # tl DfsStack)
        | None \<Rightarrow> (Visited, Order @ [Node], tl DfsStack))"

definition dfs_order :: "GasBlock list \<Rightarrow> nat list option" where
  "dfs_order Blocks =
     map_option snd
       (fold (\<lambda>StartNode s.
          case s of None \<Rightarrow> None
          | Some (Visited, Order) \<Rightarrow>
              if Visited ! StartNode \<noteq> 0 then Some (Visited, Order)
              else map_option (\<lambda>(Visited, Order, St). (Visited, Order))
                     (while_option (\<lambda>(Visited, Order, St). St \<noteq> []) (dfs_step Blocks)
                        (Visited[StartNode := 1], Order, [(StartNode, 0)])))
          [0..<length Blocks] (Some (replicate (length Blocks) 0, [])))"

text \<open>The second pass: the components of the reversed graph, in the reverse of that order.\<close>

definition component_step ::
  "GasBlock list \<Rightarrow> u8 list \<times> nat list \<times> nat list \<Rightarrow> u8 list \<times> nat list \<times> nat list" where
  "component_step Blocks = (\<lambda>(Assigned, Component, St).
     let Node = hd St; St = tl St in
     if Node \<ge> length Blocks then (Assigned, Component, St)
     else
       let (Assigned, St) = push_unmarked (length Blocks) (Preds (Blocks ! Node)) (Assigned, St)
       in (Assigned, Component @ [Node], St))"

definition mark_cycle :: "GasBlock list \<Rightarrow> nat list \<Rightarrow> u8 list \<Rightarrow> u8 list" where
  "mark_cycle Blocks Component InCycle =
     (if length Component > 1 then fold (\<lambda>Id M. M[Id := 1]) Component InCycle
      else if Component = [] then InCycle
      else let Only = hd Component in
        if Only \<in> set (Succs (Blocks ! Only)) then InCycle[Only := 1] else InCycle)"

definition computeInCycle :: "GasBlock list \<Rightarrow> u8 list option" where
  "computeInCycle Blocks =
     (case dfs_order Blocks of None \<Rightarrow> None
      | Some Order \<Rightarrow>
          map_option fst
            (fold (\<lambda>StartNode s.
               case s of None \<Rightarrow> None
               | Some (InCycle, Assigned) \<Rightarrow>
                   if Assigned ! StartNode \<noteq> 0 then Some (InCycle, Assigned)
                   else map_option (\<lambda>(Assigned, Component, St). (mark_cycle Blocks Component InCycle, Assigned))
                          (while_option (\<lambda>(Assigned, Component, St). St \<noteq> []) (component_step Blocks)
                             (Assigned[StartNode := 1], [], [StartNode])))
               (rev Order) (Some (replicate (length Blocks) 0, replicate (length Blocks) 0))))"

section \<open>Worklists\<close>

abbreviation zeros :: "u8 list \<Rightarrow> nat" where
  "zeros M \<equiv> count_list M 0"

lemma zeros_mark: "i < length M \<Longrightarrow> M ! i = 0 \<Longrightarrow> v \<noteq> 0 \<Longrightarrow> zeros M = Suc (zeros (M[i := v]))"
proof (induction M arbitrary: i)
  case (Cons m M)
  then show ?case by (cases i) auto
qed simp

text \<open>Every push is paid by a mark, so marks and stack together go down with every pop.\<close>

abbreviation work :: "u8 list \<Rightarrow> 'a list \<Rightarrow> nat" where
  "work M St \<equiv> 2 * zeros M + length St"

lemma push_unmarked_Nil [simp]: "push_unmarked n [] s = s"
  by (simp add: push_unmarked_def)

lemma push_unmarked_Cons:
  "push_unmarked n (x # xs) (M, St) =
     (if x < n \<and> M ! x = 0 then push_unmarked n xs (M[x := 1], x # St) else push_unmarked n xs (M, St))"
  by (auto simp: push_unmarked_def)

lemma push_unmarked_work:
  "length M = n \<Longrightarrow> push_unmarked n xs (M, St) = (M', St') \<Longrightarrow> length M' = n \<and> work M' St' \<le> work M St"
proof (induction xs arbitrary: M St)
  case (Cons x xs)
  show ?case
  proof (cases "x < n \<and> M ! x = 0")
    case True
    then show ?thesis
      using Cons.IH [of "M[x := 1]" "x # St"] Cons.prems zeros_mark [of x M 1] by (auto simp: push_unmarked_Cons)
  next
    case False
    then show ?thesis using Cons.IH [of M St] Cons.prems by (auto simp: push_unmarked_Cons)
  qed
qed auto

lemma push_unmarked_marks:
  "length M = n \<Longrightarrow> push_unmarked n xs (M, St) = (M', St') \<Longrightarrow>
     (\<forall>i < n. M' ! i \<noteq> 0 \<longleftrightarrow> M ! i \<noteq> 0 \<or> i \<in> set xs) \<and> set St' = set St \<union> {i \<in> set xs. i < n \<and> M ! i = 0}"
proof (induction xs arbitrary: M St)
  case (Cons x xs)
  show ?case
  proof (cases "x < n \<and> M ! x = 0")
    case True
    then show ?thesis
      using Cons.IH [of "M[x := 1]" "x # St"] Cons.prems by (auto simp: push_unmarked_Cons nth_list_update)
  next
    case False
    then show ?thesis using Cons.IH [of M St] Cons.prems by (auto simp: push_unmarked_Cons)
  qed
qed auto

section \<open>Reachability is exact\<close>

definition edges :: "GasBlock list \<Rightarrow> (nat \<times> nat) set" where
  "edges Blocks = {(i, j). i < length Blocks \<and> j < length Blocks \<and> j \<in> set (Succs (Blocks ! i))}"

definition reach_inv :: "GasBlock list \<Rightarrow> nat \<Rightarrow> u8 list \<times> nat list \<Rightarrow> bool" where
  "reach_inv Blocks e = (\<lambda>(R, St). length R = length Blocks \<and> R ! e \<noteq> 0 \<and>
     (\<forall>i \<in> set St. i < length Blocks \<and> R ! i \<noteq> 0) \<and>
     (\<forall>i < length Blocks. R ! i \<noteq> 0 \<longrightarrow> (e, i) \<in> (edges Blocks)\<^sup>*) \<and>
     (\<forall>i < length Blocks. R ! i \<noteq> 0 \<longrightarrow> i \<notin> set St \<longrightarrow> (\<forall>j. (i, j) \<in> edges Blocks \<longrightarrow> R ! j \<noteq> 0)))"

lemma reach_step_inv:
  assumes "reach_inv Blocks e (R, St)" and "St \<noteq> []" and "reach_step Blocks (R, St) = (R', St')"
  shows "reach_inv Blocks e (R', St')" and "work R' St' < work R St"
proof -
  obtain x xs where St: "St = x # xs" using assms(2) by (cases St) auto
  have x: "x < length Blocks" "R ! x \<noteq> 0" "(e, x) \<in> (edges Blocks)\<^sup>*" and l: "length R = length Blocks"
    using assms(1) St by (auto simp: reach_inv_def)
  have p: "push_unmarked (length Blocks) (Succs (Blocks ! x)) (R, xs) = (R', St')"
    using assms(3) x(1) St by (simp add: reach_step_def)
  note marks = push_unmarked_marks [OF l p] and wk = push_unmarked_work [OF l p]
  show "work R' St' < work R St" using wk St by simp
  have step: "(e, i) \<in> (edges Blocks)\<^sup>*" if "i < length Blocks" "i \<in> set (Succs (Blocks ! x))" for i
    using x that by (auto simp: edges_def intro: rtrancl.rtrancl_into_rtrancl)
  have e: "e < length Blocks" using x(3,1) by (cases rule: converse_rtranclE) (auto simp: edges_def)
  have m: "\<And>i. i < length Blocks \<Longrightarrow> R' ! i \<noteq> 0 \<longleftrightarrow> R ! i \<noteq> 0 \<or> i \<in> set (Succs (Blocks ! x))"
    and st: "set St' = set xs \<union> {i \<in> set (Succs (Blocks ! x)). i < length Blocks \<and> R ! i = 0}" using marks by auto
  have inv: "R ! e \<noteq> 0" "\<And>i. i \<in> set xs \<Longrightarrow> i < length Blocks \<and> R ! i \<noteq> 0"
    "\<And>i. i < length Blocks \<Longrightarrow> R ! i \<noteq> 0 \<Longrightarrow> (e, i) \<in> (edges Blocks)\<^sup>*"
    "\<And>i j. i < length Blocks \<Longrightarrow> R ! i \<noteq> 0 \<Longrightarrow> i \<noteq> x \<Longrightarrow> i \<notin> set xs \<Longrightarrow> (i, j) \<in> edges Blocks \<Longrightarrow> R ! j \<noteq> 0"
    using assms(1) St by (auto simp: reach_inv_def)
  have closed: "R' ! j \<noteq> 0" if "i < length Blocks" "R' ! i \<noteq> 0" "i \<notin> set St'" "(i, j) \<in> edges Blocks" for i j
  proof (cases "i = x")
    case True
    then show ?thesis using that m by (auto simp: edges_def)
  next
    case False
    then have "R ! i \<noteq> 0" "i \<notin> set xs" using that m st by auto
    then show ?thesis using inv(4) [OF that(1) _ False] that m by (auto simp: edges_def)
  qed
  have "length R' = length Blocks" using wk by simp
  moreover have "R' ! e \<noteq> 0" using inv(1) m e by simp
  moreover have "\<forall>i \<in> set St'. i < length Blocks \<and> R' ! i \<noteq> 0" using inv(2) m st by auto
  moreover have "\<forall>i < length Blocks. R' ! i \<noteq> 0 \<longrightarrow> (e, i) \<in> (edges Blocks)\<^sup>*" using inv(3) m step by blast
  ultimately show "reach_inv Blocks e (R', St')" using closed by (auto simp: reach_inv_def)
qed

lemma reach_loop_inv:
  assumes "reach_inv Blocks e s" and "case s of (R, St) \<Rightarrow> St \<noteq> []"
  shows "reach_inv Blocks e (reach_step Blocks s) \<and>
    work (fst (reach_step Blocks s)) (snd (reach_step Blocks s)) < work (fst s) (snd s)"
proof -
  obtain R St R' St' where s: "s = (R, St)" "reach_step Blocks s = (R', St')" by (metis surj_pair)
  then show ?thesis using reach_step_inv [of Blocks e R St R' St'] assms by simp
qed

theorem computeReachable_exact:
  assumes "EntryId < length Blocks"
  shows "\<exists>R. computeReachable Blocks EntryId = Some R \<and> length R = length Blocks \<and>
    (\<forall>i < length Blocks. R ! i \<noteq> 0 \<longleftrightarrow> (EntryId, i) \<in> (edges Blocks)\<^sup>*)"
proof -
  let ?s = "((replicate (length Blocks) 0)[EntryId := 1] :: u8 list, [EntryId])"
  let ?b = "\<lambda>(R :: u8 list, St :: nat list). St \<noteq> []"
  have init: "reach_inv Blocks EntryId ?s" using assms by (auto simp: reach_inv_def nth_list_update)
  have "\<exists>t. while_option ?b (reach_step Blocks) ?s = Some t"
    by (rule measure_while_option_Some [where P = "reach_inv Blocks EntryId" and f = "\<lambda>s. work (fst s) (snd s)"])
      (assumption | rule reach_loop_inv init)+
  then obtain R St where w: "while_option ?b (reach_step Blocks) ?s = Some (R, St)" by (metis surj_pair)
  have inv: "reach_inv Blocks EntryId (R, St)"
    by (rule while_option_rule [where P = "reach_inv Blocks EntryId", OF _ w init])
      (assumption | rule reach_loop_inv [THEN conjunct1])+
  have St: "St = []" using while_option_stop [OF w] by simp
  have "R ! i \<noteq> 0" if "(EntryId, i) \<in> (edges Blocks)\<^sup>*" for i
    using that
  proof (induction rule: rtrancl_induct)
    case base
    then show ?case using inv by (simp add: reach_inv_def)
  next
    case (step i j)
    then have "i < length Blocks" by (simp add: edges_def)
    then show ?case using inv St step unfolding reach_inv_def by auto
  qed
  then have "\<forall>i < length Blocks. R ! i \<noteq> 0 \<longleftrightarrow> (EntryId, i) \<in> (edges Blocks)\<^sup>*" "length R = length Blocks"
    using inv unfolding reach_inv_def by blast+
  moreover have "computeReachable Blocks EntryId = Some R"
    unfolding computeReachable_def Let_def w using assms by auto
  ultimately show ?thesis by blast
qed

section \<open>The other searches end\<close>

text \<open>A loop over a marked stack ends, and keeps what its step keeps of the marks.\<close>

lemma worklist_ends:
  assumes "\<And>M x St. I M \<Longrightarrow> St \<noteq> [] \<Longrightarrow>
      I (fst (c (M, x, St))) \<and> work (fst (c (M, x, St))) (snd (snd (c (M, x, St)))) < work M St"
    and "I M"
  shows "\<exists>M' x'. while_option (\<lambda>(M, x, St). St \<noteq> []) c (M, x, St) = Some (M', x', []) \<and> I M'"
proof -
  let ?b = "\<lambda>(M, x, St). St \<noteq> []" and ?P = "\<lambda>s. I (fst s)"
  have step: "?P (c s) \<and> work (fst (c s)) (snd (snd (c s))) < work (fst s) (snd (snd s))"
    if "?P s" "?b s" for s
  proof -
    obtain M x St where "s = (M, x, St)" by (cases s) auto
    then show ?thesis using assms(1) [of M St x] that by simp
  qed
  have "\<exists>t. while_option ?b c (M, x, St) = Some t"
    by (rule measure_while_option_Some [where P = ?P and f = "\<lambda>s. work (fst s) (snd (snd s))"])
      (use step assms(2) in auto)
  then obtain M' x' St' where w: "while_option ?b c (M, x, St) = Some (M', x', St')" by (metis surj_pair)
  have "?P (M', x', St')"
    by (rule while_option_rule [where P = ?P, OF _ w]) (use step assms(2) in auto)
  then show ?thesis using w while_option_stop [OF w] by simp
qed

lemma fold_search:
  assumes "\<And>x s. x \<in> set xs \<Longrightarrow> P s \<Longrightarrow> \<exists>s'. g x s = Some s' \<and> P s'"
  shows "P s \<Longrightarrow> \<exists>s'. fold (\<lambda>x s. case s of None \<Rightarrow> None | Some s \<Rightarrow> g x s) xs (Some s) = Some s' \<and> P s'"
  using assms
proof (induction xs arbitrary: s)
  case (Cons x xs)
  obtain s' where "g x s = Some s'" "P s'" using Cons.prems(2) [of x] Cons.prems(1) by auto
  then show ?case using Cons.IH Cons.prems(2) by simp
qed simp

text \<open>A search from every unmarked node.\<close>

lemma search_ends:
  assumes "\<And>x s. x \<in> set xs \<Longrightarrow> P s \<Longrightarrow> \<exists>s'. g x s = Some s' \<and> P s'" and "P s"
  shows "\<exists>t. map_option f (fold (\<lambda>x s. case s of None \<Rightarrow> None | Some s \<Rightarrow> g x s) xs (Some s)) = Some t"
  using fold_search [of xs P g s, OF assms] by auto

lemma zeros_keep: "M ! i \<noteq> 0 \<Longrightarrow> v \<noteq> 0 \<Longrightarrow> zeros (M[i := v]) = zeros M"
proof (induction M arbitrary: i)
  case (Cons m M)
  then show ?case by (cases i) auto
qed simp

definition topo_marks :: "nat \<Rightarrow> u8 list \<Rightarrow> bool" where
  "topo_marks n V \<longleftrightarrow> length V = n \<and> set V \<subseteq> {0, 1, 2}"

lemma topo_fold:
  "fold (\<lambda>Succ (V, St). if Succ \<ge> n then (V, St)
       else if \<not> isBackEdge BE c Succ \<and> V ! Succ = 0 then (V[Succ := 1], Succ # St) else (V, St)) xs (V, St) =
     push_unmarked n (filter (\<lambda>Succ. \<not> isBackEdge BE c Succ) xs) (V, St)"
  by (induction xs arbitrary: V St) (auto simp: push_unmarked_Cons)

lemma push_unmarked_set: "push_unmarked n xs (M, St) = (M', St') \<Longrightarrow> set M' \<subseteq> insert 1 (set M)"
proof (induction xs arbitrary: M St)
  case (Cons x xs)
  then show ?case
    using set_update_subset_insert [of M x 1] by (fastforce simp: push_unmarked_Cons split: if_splits)
qed auto

lemma topo_step_work:
  assumes "topo_marks (length Blocks) V" and "St \<noteq> []"
  shows "topo_marks (length Blocks) (fst (topo_step Blocks BE (V, Order, St))) \<and>
    work (fst (topo_step Blocks BE (V, Order, St))) (snd (snd (topo_step Blocks BE (V, Order, St)))) < work V St"
proof -
  obtain x xs where St: "St = x # xs" using assms(2) by (cases St) auto
  have len: "length V = length Blocks" and V: "set V \<subseteq> {0, 1, 2}" using assms(1) by (simp_all add: topo_marks_def)
  have "V ! x \<in> {0, 1, 2}" if "x < length Blocks" using subsetD [OF V nth_mem [of x V]] that len by simp
  then consider "x \<ge> length Blocks \<or> V ! x = 2" | "x < length Blocks" "V ! x = 1" | "x < length Blocks" "V ! x = 0"
    by fastforce
  then show ?thesis
  proof cases
    case 1
    then show ?thesis using assms(1) St by (auto simp: topo_step_def)
  next
    case 2
    then show ?thesis using V len St set_update_subset_insert [of V x 2]
      by (auto simp: topo_step_def zeros_keep topo_marks_def)
  next
    case 3
    obtain V' St' where p: "push_unmarked (length Blocks)
        (filter (\<lambda>Succ. \<not> isBackEdge BE x Succ) (rev (Succs (Blocks ! x)))) (V[x := 1], x # xs) = (V', St')"
      by (metis surj_pair)
    have "topo_step Blocks BE (V, Order, St) = (V', Order, St')"
      using 3 St p by (simp add: topo_step_def topo_fold)
    moreover have "length V' = length Blocks" "work V' St' \<le> work (V[x := 1]) (x # xs)"
      using push_unmarked_work [OF _ p] len by simp_all
    moreover have "set V' \<subseteq> {0, 1, 2}"
      using push_unmarked_set [OF p] V set_update_subset_insert [of V x 1] by auto
    ultimately show ?thesis using zeros_mark [of x V 1] 3 len St by (simp add: topo_marks_def)
  qed
qed

lemma topo_search:
  assumes "topo_marks (length Blocks) V"
  shows "\<exists>V' O'. while_option (\<lambda>(Visited, Order, St). St \<noteq> []) (topo_step Blocks BE) (V, Order, St) = Some (V', O', []) \<and>
    topo_marks (length Blocks) V'"
  by (rule worklist_ends [where I = "topo_marks (length Blocks)", OF topo_step_work assms])

theorem computeReverseTopo_ends: "\<exists>Order. computeReverseTopo Blocks BackEdges = Some Order"
  unfolding computeReverseTopo_def
proof (rule search_ends [where P = "\<lambda>s. topo_marks (length Blocks) (fst s)"])
  fix x :: nat and s :: "u8 list \<times> nat list"
  assume P: "topo_marks (length Blocks) (fst s)"
  obtain V Order where s: "s = (V, Order)" by (cases s)
  show "\<exists>s'. (case s of (Visited, Order) \<Rightarrow>
      if Visited ! x \<noteq> 0 then Some (Visited, Order)
      else map_option (\<lambda>(Visited, Order, St). (Visited, Order))
        (while_option (\<lambda>(Visited, Order, St). St \<noteq> []) (topo_step Blocks BackEdges) (Visited, Order, [x]))) = Some s' \<and>
    topo_marks (length Blocks) (fst s')"
    using topo_search [of Blocks V BackEdges Order "[x]"] s P by auto
qed (auto simp: topo_marks_def)

lemma dfs_scan_Some: "dfs_scan n xs V k = (Some y, k') \<Longrightarrow> y < n \<and> V ! y = 0"
  by (induction xs arbitrary: k) (auto split: if_splits)

lemma dfs_step_work:
  assumes "length V = length Blocks" and "St \<noteq> []"
  shows "length (fst (dfs_step Blocks (V, Order, St))) = length Blocks \<and>
    work (fst (dfs_step Blocks (V, Order, St))) (snd (snd (dfs_step Blocks (V, Order, St)))) < work V St"
proof -
  obtain x k xs where St: "St = (x, k) # xs" using assms(2) by (cases St) auto
  obtain f k' where sc: "dfs_scan (length Blocks) (drop k (Succs (Blocks ! x))) V k = (f, k')" by (metis surj_pair)
  show ?thesis
  proof (cases f)
    case (Some y)
    then show ?thesis using dfs_scan_Some sc St assms(1) zeros_mark [of y V 1] by (auto simp: dfs_step_def)
  qed (use sc St assms(1) in \<open>simp add: dfs_step_def\<close>)
qed

lemma dfs_order_ends: "\<exists>Order. dfs_order Blocks = Some Order"
  unfolding dfs_order_def
proof (rule search_ends [where P = "\<lambda>s. length (fst s) = length Blocks"])
  fix x :: nat and s :: "u8 list \<times> nat list"
  assume P: "length (fst s) = length Blocks"
  obtain V Order where s: "s = (V, Order)" by (cases s)
  show "\<exists>s'. (case s of (Visited, Order) \<Rightarrow>
      if Visited ! x \<noteq> 0 then Some (Visited, Order)
      else map_option (\<lambda>(Visited, Order, St). (Visited, Order))
        (while_option (\<lambda>(Visited, Order, St). St \<noteq> []) (dfs_step Blocks) (Visited[x := 1], Order, [(x, 0)]))) = Some s' \<and>
    length (fst s') = length Blocks"
    using worklist_ends [where I = "\<lambda>M. length M = length Blocks", OF dfs_step_work, of "V[x := 1]" Order "[(x, 0)]"] s P
    by auto
qed simp

lemma component_step_work:
  assumes "length M = length Blocks" and "St \<noteq> []"
  shows "length (fst (component_step Blocks (M, Component, St))) = length Blocks \<and>
    work (fst (component_step Blocks (M, Component, St))) (snd (snd (component_step Blocks (M, Component, St)))) < work M St"
proof -
  obtain x xs where St: "St = x # xs" using assms(2) by (cases St) auto
  obtain M' St' where p: "push_unmarked (length Blocks) (Preds (Blocks ! x)) (M, xs) = (M', St')" by (metis surj_pair)
  show ?thesis using push_unmarked_work [OF assms(1) p] p St assms(1) by (auto simp: component_step_def)
qed

theorem computeInCycle_ends: "\<exists>InCycle. computeInCycle Blocks = Some InCycle"
proof -
  obtain Order where Order: "dfs_order Blocks = Some Order" using dfs_order_ends by blast
  show ?thesis unfolding computeInCycle_def Order option.case
  proof (rule search_ends [where P = "\<lambda>s. length (snd s) = length Blocks"])
    fix x :: nat and s :: "u8 list \<times> u8 list"
    assume P: "length (snd s) = length Blocks"
    obtain IC M where s: "s = (IC, M)" by (cases s)
    show "\<exists>s'. (case s of (InCycle, Assigned) \<Rightarrow>
        if Assigned ! x \<noteq> 0 then Some (InCycle, Assigned)
        else map_option (\<lambda>(Assigned, Component, St). (mark_cycle Blocks Component InCycle, Assigned))
          (while_option (\<lambda>(Assigned, Component, St). St \<noteq> []) (component_step Blocks) (Assigned[x := 1], [], [x]))) = Some s' \<and>
      length (snd s') = length Blocks"
      using worklist_ends [where I = "\<lambda>M. length M = length Blocks", OF component_step_work, of "M[x := 1]" "[]" "[x]"] s P
      by auto
  qed simp
qed

end
