(* ===== verification/Dominators.thy ===== *)
theory Dominators
  imports Cfg
begin

text \<open>
  Bit sets, dominators and back edges (\<open>src/evm/evm_cache.cpp\<close>): \<open>bitsetWordCount\<close> to \<open>bitsetCount\<close>,
  \<open>computeDominators\<close> and \<open>findBackEdgesUsingDominators\<close>. A bit set is a list of 64-bit words.
\<close>

section \<open>Bit sets\<close>

definition bitsetWordCount :: "nat \<Rightarrow> nat" where
  "bitsetWordCount NumBits = (NumBits + 63) div 64"

definition bitsetSetAll :: "u64 list \<Rightarrow> nat \<Rightarrow> u64 list" where
  "bitsetSetAll Bits NumBits =
     (let Bits = map (\<lambda>_. NOT 0) Bits; Remainder = NumBits mod 64 in
      if Remainder \<noteq> 0 then Bits[length Bits - 1 := push_bit Remainder 1 - 1] else Bits)"

definition bitsetSet :: "u64 list \<Rightarrow> nat \<Rightarrow> u64 list" where
  "bitsetSet Bits Index = Bits[Index div 64 := Bits ! (Index div 64) OR push_bit (Index mod 64) 1]"

definition bitsetTest :: "u64 list \<Rightarrow> nat \<Rightarrow> bool" where
  "bitsetTest Bits Index \<longleftrightarrow> Bits ! (Index div 64) AND push_bit (Index mod 64) 1 \<noteq> 0"

definition bitsetEqual :: "u64 list \<Rightarrow> u64 list \<Rightarrow> bool" where
  "bitsetEqual A B \<longleftrightarrow> A = B"

definition bitsetIsSubset :: "u64 list \<Rightarrow> u64 list \<Rightarrow> bool" where
  "bitsetIsSubset Small Large \<longleftrightarrow> (\<forall>I \<in> set [0..<length Small]. Small ! I AND NOT (Large ! I) = 0)"

definition bitsetIntersects :: "u64 list \<Rightarrow> u64 list \<Rightarrow> bool" where
  "bitsetIntersects A B \<longleftrightarrow> (\<exists>I \<in> set [0..<length A]. A ! I AND B ! I \<noteq> 0)"

text \<open>\<open>__builtin_popcountll\<close>.\<close>

definition popcount :: "u64 \<Rightarrow> nat" where
  "popcount W = length (filter (bit W) [0..<64])"

definition bitsetCount :: "u64 list \<Rightarrow> nat" where
  "bitsetCount Bits = sum_list (map popcount Bits)"

section \<open>Dominators\<close>

text \<open>The loops over \<open>Words\<close> that combine two bit sets word by word.\<close>

definition bits_and :: "u64 list \<Rightarrow> u64 list \<Rightarrow> u64 list" where
  "bits_and A B = map2 (AND) A B"

definition bits_or :: "u64 list \<Rightarrow> u64 list \<Rightarrow> u64 list" where
  "bits_or A B = map2 (OR) A B"

definition all_bits :: "nat \<Rightarrow> u64 list" where
  "all_bits NumBlocks =
     (let All = replicate (bitsetWordCount NumBlocks) 0 in
      if NumBlocks > 0 then bitsetSetAll All NumBlocks else All)"

definition new_dom :: "GasBlock list \<Rightarrow> u8 list \<Rightarrow> u64 list list \<Rightarrow> nat \<Rightarrow> u64 list" where
  "new_dom Blocks Reachable Dom Node =
     (let NumBlocks = length Blocks;
          (NewDom, HasPred) =
            fold (\<lambda>Pred (NewDom, HasPred).
              if Pred \<ge> NumBlocks then (NewDom, HasPred)
              else if Reachable ! Pred = 0 then (NewDom, HasPred)
              else (bits_and NewDom (Dom ! Pred), True))
              (Preds (Blocks ! Node)) (all_bits NumBlocks, False);
          NewDom = (if \<not> HasPred then map (\<lambda>_. 0) NewDom else NewDom)
      in bitsetSet NewDom Node)"

definition dom_node :: "GasBlock list \<Rightarrow> u8 list \<Rightarrow> nat \<Rightarrow> u64 list list \<times> bool \<Rightarrow> u64 list list \<times> bool" where
  "dom_node Blocks Reachable Node = (\<lambda>(Dom, Changed).
     if Reachable ! Node = 0 \<or> Preds (Blocks ! Node) = [] then (Dom, Changed)
     else
       let NewDom = new_dom Blocks Reachable Dom Node in
       if \<not> bitsetEqual NewDom (Dom ! Node) then (Dom[Node := NewDom], True) else (Dom, Changed))"

definition dom_round :: "GasBlock list \<Rightarrow> u8 list \<Rightarrow> u64 list list \<times> bool \<Rightarrow> u64 list list \<times> bool" where
  "dom_round Blocks Reachable = (\<lambda>(Dom, Changed).
     fold (dom_node Blocks Reachable) [0..<length Blocks] (Dom, False))"

definition dom_init :: "GasBlock list \<Rightarrow> u8 list \<Rightarrow> u64 list list" where
  "dom_init Blocks Reachable =
     map (\<lambda>Node.
       if Reachable ! Node = 0 \<or> Preds (Blocks ! Node) = []
       then bitsetSet (replicate (bitsetWordCount (length Blocks)) 0) Node
       else all_bits (length Blocks)) [0..<length Blocks]"

definition computeDominators :: "GasBlock list \<Rightarrow> u8 list \<Rightarrow> u64 list list option" where
  "computeDominators Blocks Reachable =
     map_option fst (while_option (\<lambda>(Dom, Changed). Changed) (dom_round Blocks Reachable) (dom_init Blocks Reachable, True))"

definition findBackEdgesUsingDominators :: "GasBlock list \<Rightarrow> u64 list list \<Rightarrow> nat list list" where
  "findBackEdgesUsingDominators Blocks Dom =
     map (\<lambda>From. filter (\<lambda>To. To < length Blocks \<and> bitsetTest (Dom ! From) To) (Succs (Blocks ! From))) [0..<length Blocks]"

section \<open>Bit sets are sets\<close>

lemma bitsetTest_bit: "bitsetTest B i \<longleftrightarrow> bit (B ! (i div 64)) (i mod 64)"
proof -
  have "push_bit (i mod 64) 1 = (2 ^ (i mod 64) :: u64)" by (simp add: push_bit_of_1)
  then show ?thesis by (simp add: bitsetTest_def and_exp_eq_0_iff_not_bit)
qed

text \<open>The indices of a bit set of \<open>n\<close> blocks are inside its words.\<close>

lemma word_index: "i < n \<Longrightarrow> i div 64 < bitsetWordCount n"
  unfolding bitsetWordCount_def by linarith

lemma bitsetTest_set:
  assumes "p div 64 < length B"
  shows "bitsetTest (bitsetSet B p) q \<longleftrightarrow> q = p \<or> bitsetTest B q"
proof (cases "q div 64 = p div 64")
  case True
  have "q = p \<longleftrightarrow> q mod 64 = p mod 64" using True by (metis div_mult_mod_eq)
  then show ?thesis using True assms
    by (auto simp: bitsetTest_bit bitsetSet_def bit_or_iff bit_push_bit_iff push_bit_of_1 bit_exp_iff)
next
  case False
  then show ?thesis using assms by (auto simp: bitsetTest_bit bitsetSet_def)
qed

lemma bitsetTest_and:
  "i div 64 < length A \<Longrightarrow> i div 64 < length B \<Longrightarrow> bitsetTest (bits_and A B) i \<longleftrightarrow> bitsetTest A i \<and> bitsetTest B i"
  by (simp add: bitsetTest_bit bits_and_def bit_and_iff)

lemma bitsetTest_or:
  "i div 64 < length A \<Longrightarrow> i div 64 < length B \<Longrightarrow> bitsetTest (bits_or A B) i \<longleftrightarrow> bitsetTest A i \<or> bitsetTest B i"
  by (simp add: bitsetTest_bit bits_or_def bit_or_iff)

lemma bitsetTest_zero [simp]: "i div 64 < k \<Longrightarrow> \<not> bitsetTest (replicate k 0) i"
  by (simp add: bitsetTest_bit)

lemma bits_length [simp]:
  "length (bitsetSet B p) = length B" "length (bits_and A B) = min (length A) (length B)"
  "length (bits_or A B) = min (length A) (length B)" "length (all_bits n) = bitsetWordCount n"
  by (simp_all add: bitsetSet_def bits_and_def bits_or_def all_bits_def bitsetSetAll_def Let_def)

lemma word_count: "bitsetWordCount n = n div 64 + (if n mod 64 = 0 then 0 else 1)"
proof -
  have "(n + 63) div 64 = (64 * (n div 64) + (n mod 64 + 63)) div 64" by simp
  also have "\<dots> = n div 64 + (n mod 64 + 63) div 64" by (simp only: div_mult_self4)
  also have "(n mod 64 + 63) div 64 = (if n mod 64 = 0 then 0 else 1)"
    using mod_less_divisor [of 64 n] by (auto intro!: div_nat_eqI)
  finally show ?thesis by (simp add: bitsetWordCount_def)
qed

lemma all_bits_test:
  assumes "i div 64 < bitsetWordCount n"
  shows "bitsetTest (all_bits n) i \<longleftrightarrow> i < n"
proof -
  have lt: "i < n" if "i div 64 < n div 64" using that div_le_mono [of n i 64] by linarith
  have n: "0 < n" using assms by (cases n) (auto simp: word_count)
  show ?thesis
  proof (cases "n mod 64 = 0")
    case True
    then have "i < n" using assms lt by (simp add: word_count)
    then show ?thesis using True assms n
      by (simp add: bitsetTest_bit all_bits_def bitsetSetAll_def Let_def bit_not_iff)
  next
    case False
    then have wc: "bitsetWordCount n = n div 64 + 1" by (simp add: word_count)
    have last: "bit (push_bit (n mod 64) 1 - 1 :: u64) (i mod 64) \<longleftrightarrow> i mod 64 < n mod 64"
      using mod_less_divisor [of 64 i]
      by (simp add: push_bit_of_1 mask_eq_exp_minus_1 [symmetric] bit_mask_iff)
    have nth: "all_bits n ! (i div 64) = (if i div 64 = n div 64 then push_bit (n mod 64) 1 - 1 else NOT 0)"
      using False n wc assms unfolding all_bits_def bitsetSetAll_def Let_def map_replicate length_replicate
      by (simp add: nth_list_update del: replicate_Suc)
    show ?thesis
    proof (cases "i div 64 = n div 64")
      case True
      have "i < n \<longleftrightarrow> i mod 64 < n mod 64"
        using True div_mult_mod_eq [of i 64] div_mult_mod_eq [of n 64] by linarith
      then show ?thesis using True nth last by (simp add: bitsetTest_bit)
    next
      case neq: False
      then have "i < n" using lt assms wc by simp
      then show ?thesis using neq nth by (simp add: bitsetTest_bit bit_not_iff)
    qed
  qed
qed

lemma bits_eqI:
  assumes "length A = length B" and "\<And>i. i div 64 < length A \<Longrightarrow> bitsetTest A i \<longleftrightarrow> bitsetTest B i"
  shows "A = B"
proof (rule nth_equalityI [OF assms(1)])
  fix k assume k: "k < length A"
  show "A ! k = B ! k"
  proof (rule bit_word_eqI)
    fix j assume "j < LENGTH(64)"
    then show "bit (A ! k) j \<longleftrightarrow> bit (B ! k) j" using assms(2) [of "64 * k + j"] k by (simp add: bitsetTest_bit)
  qed
qed

section \<open>The iteration\<close>

text \<open>The predecessors that a round looks at, and the nodes that it updates.\<close>

definition live_preds :: "GasBlock list \<Rightarrow> u8 list \<Rightarrow> nat \<Rightarrow> nat list" where
  "live_preds Blocks R v = filter (\<lambda>p. p < length Blocks \<and> R ! p \<noteq> 0) (Preds (Blocks ! v))"

definition updated :: "GasBlock list \<Rightarrow> u8 list \<Rightarrow> nat \<Rightarrow> bool" where
  "updated Blocks R v \<longleftrightarrow> v < length Blocks \<and> R ! v \<noteq> 0 \<and> Preds (Blocks ! v) \<noteq> []"

definition dom_sizes :: "nat \<Rightarrow> u64 list list \<Rightarrow> bool" where
  "dom_sizes n Dom \<longleftrightarrow> length Dom = n \<and> (\<forall>D \<in> set Dom. length D = bitsetWordCount n)"

lemma dom_sizes_nth: "dom_sizes n Dom \<Longrightarrow> v < n \<Longrightarrow> length (Dom ! v) = bitsetWordCount n"
  by (simp add: dom_sizes_def)

lemma dom_sizes_update: "dom_sizes n Dom \<Longrightarrow> length D = bitsetWordCount n \<Longrightarrow> dom_sizes n (Dom[v := D])"
  using set_update_subset_insert [of Dom v D] by (auto simp: dom_sizes_def)

lemma dom_fold:
  assumes "dom_sizes n Dom"
  shows "\<And>D b. length D = bitsetWordCount n \<Longrightarrow>
    (case fold (\<lambda>Pred (NewDom, HasPred). if Pred \<ge> n then (NewDom, HasPred)
       else if R ! Pred = 0 then (NewDom, HasPred) else (bits_and NewDom (Dom ! Pred), True)) ps (D, b) of
     (D', b') \<Rightarrow> length D' = bitsetWordCount n \<and> (b' \<longleftrightarrow> b \<or> filter (\<lambda>p. p < n \<and> R ! p \<noteq> 0) ps \<noteq> []) \<and>
       (\<forall>i. i div 64 < bitsetWordCount n \<longrightarrow> bitsetTest D' i \<longleftrightarrow>
          bitsetTest D i \<and> (\<forall>p \<in> set ps. p < n \<and> R ! p \<noteq> 0 \<longrightarrow> bitsetTest (Dom ! p) i)))"
proof (induction ps)
  case (Cons p ps)
  show ?case
  proof (cases "p < n \<and> R ! p \<noteq> 0")
    case True
    then have "length (bits_and D (Dom ! p)) = bitsetWordCount n"
      using Cons.prems dom_sizes_nth [OF assms] by simp
    from Cons.IH [OF this, of True] show ?thesis
      using True Cons.prems dom_sizes_nth [OF assms] by (auto simp: bitsetTest_and split: prod.splits)
  next
    case False
    then show ?thesis using Cons.IH [OF Cons.prems, of b] by (auto split: prod.splits)
  qed
qed simp

lemma new_dom_test:
  assumes "dom_sizes (length Blocks) Dom" and "v < length Blocks"
  shows "length (new_dom Blocks R Dom v) = bitsetWordCount (length Blocks)"
    and "i div 64 < bitsetWordCount (length Blocks) \<Longrightarrow> bitsetTest (new_dom Blocks R Dom v) i \<longleftrightarrow>
      i = v \<or> live_preds Blocks R v \<noteq> [] \<and> i < length Blocks \<and> (\<forall>p \<in> set (live_preds Blocks R v). bitsetTest (Dom ! p) i)"
proof -
  let ?n = "length Blocks"
  obtain D b where f: "fold (\<lambda>Pred (NewDom, HasPred). if Pred \<ge> ?n then (NewDom, HasPred)
       else if R ! Pred = 0 then (NewDom, HasPred) else (bits_and NewDom (Dom ! Pred), True))
      (Preds (Blocks ! v)) (all_bits ?n, False) = (D, b)" by (rule prod.exhaust)
  note df = dom_fold [OF assms(1) bits_length(4), where ps = "Preds (Blocks ! v)" and R = R and b = False, unfolded f prod.case]
  have D: "length D = bitsetWordCount ?n" "b \<longleftrightarrow> live_preds Blocks R v \<noteq> []"
    using df by (simp_all add: live_preds_def)
  have T: "bitsetTest D i \<longleftrightarrow> i < ?n \<and> (\<forall>p \<in> set (live_preds Blocks R v). bitsetTest (Dom ! p) i)"
    if "i div 64 < bitsetWordCount ?n" for i
    using df that all_bits_test [OF that] unfolding live_preds_def set_filter by blast
  have nd: "new_dom Blocks R Dom v = bitsetSet (if \<not> b then map (\<lambda>_. 0) D else D) v"
    using f by (simp add: new_dom_def)
  show "length (new_dom Blocks R Dom v) = bitsetWordCount ?n" using nd D(1) by simp
  show "bitsetTest (new_dom Blocks R Dom v) i \<longleftrightarrow> i = v \<or> live_preds Blocks R v \<noteq> [] \<and> i < ?n \<and>
      (\<forall>p \<in> set (live_preds Blocks R v). bitsetTest (Dom ! p) i)" if "i div 64 < bitsetWordCount ?n"
  proof (cases b)
    case True
    then show ?thesis using nd D that word_index [OF assms(2)] T [OF that] by (simp add: bitsetTest_set)
  next
    case False
    then show ?thesis using nd D that word_index [OF assms(2)] by (simp add: bitsetTest_set map_replicate_const)
  qed
qed

text \<open>
  The sets only shrink: every round replaces a set by one that is contained in it.
\<close>

definition dom_inv :: "GasBlock list \<Rightarrow> u8 list \<Rightarrow> u64 list list \<Rightarrow> bool" where
  "dom_inv Blocks R Dom \<longleftrightarrow> dom_sizes (length Blocks) Dom \<and>
     (\<forall>v < length Blocks. \<forall>i. i div 64 < bitsetWordCount (length Blocks) \<longrightarrow> bitsetTest (Dom ! v) i \<longrightarrow> i < length Blocks) \<and>
     (\<forall>v. updated Blocks R v \<longrightarrow>
        (\<forall>i. i div 64 < bitsetWordCount (length Blocks) \<longrightarrow> bitsetTest (new_dom Blocks R Dom v) i \<longrightarrow> bitsetTest (Dom ! v) i))"

definition dom_total :: "GasBlock list \<Rightarrow> u64 list list \<Rightarrow> nat" where
  "dom_total Blocks Dom = (\<Sum>v < length Blocks. card {i. i < length Blocks \<and> bitsetTest (Dom ! v) i})"

lemma new_dom_mono:
  assumes "dom_sizes (length Blocks) Dom" "dom_sizes (length Blocks) Dom'" and "v < length Blocks"
    and "\<And>u i. u < length Blocks \<Longrightarrow> i div 64 < bitsetWordCount (length Blocks) \<Longrightarrow> bitsetTest (Dom' ! u) i \<Longrightarrow> bitsetTest (Dom ! u) i"
    and "i div 64 < bitsetWordCount (length Blocks)" and "bitsetTest (new_dom Blocks R Dom' v) i"
  shows "bitsetTest (new_dom Blocks R Dom v) i"
  using assms(6) assms(4) [OF _ assms(5)]
  unfolding new_dom_test(2) [OF assms(1,3,5)] new_dom_test(2) [OF assms(2,3,5)] live_preds_def by auto

lemma dom_update:
  assumes "dom_inv Blocks R Dom" and "updated Blocks R v"
  defines "N \<equiv> new_dom Blocks R Dom v"
  shows "dom_inv Blocks R (Dom[v := N])" and "N \<noteq> Dom ! v \<Longrightarrow> dom_total Blocks (Dom[v := N]) < dom_total Blocks Dom"
proof -
  let ?n = "length Blocks" and ?W = "bitsetWordCount (length Blocks)" and ?D = "Dom[v := N]"
  have v: "v < ?n" and sz: "dom_sizes ?n Dom" using assms(1,2) by (simp_all add: updated_def dom_inv_def)
  have lN: "length N = ?W" unfolding N_def by (rule new_dom_test(1) [OF sz v])
  have sz': "dom_sizes ?n ?D" by (rule dom_sizes_update [OF sz lN])
  have lD: "length Dom = ?n" using sz by (simp add: dom_sizes_def)
  have sub: "bitsetTest (Dom ! v) i" if "i div 64 < ?W" "bitsetTest N i" for i
    using assms(1,2) that unfolding dom_inv_def N_def by blast
  have le: "bitsetTest (Dom ! u) i" if "i div 64 < ?W" "bitsetTest (?D ! u) i" for u i
    using that sub lD v by (cases "u = v") auto
  have rng: "i < ?n" if "u < ?n" "i div 64 < ?W" "bitsetTest (Dom ! u) i" for u i
    using assms(1) that unfolding dom_inv_def by blast
  have pre: "bitsetTest (?D ! u) i" if u: "updated Blocks R u" and i: "i div 64 < ?W" "bitsetTest (new_dom Blocks R ?D u) i" for u i
  proof -
    have un: "u < ?n" using u by (simp add: updated_def)
    have "bitsetTest (new_dom Blocks R Dom u) i" by (rule new_dom_mono [OF sz sz' un _ i]) (rule le)
    then show ?thesis using assms(1) u i(1) lD v unfolding dom_inv_def N_def by (cases "u = v") auto
  qed
  show "dom_inv Blocks R ?D" using sz' pre rng le unfolding dom_inv_def by blast
  assume "N \<noteq> Dom ! v"
  then obtain i where i: "i div 64 < ?W" "bitsetTest N i \<noteq> bitsetTest (Dom ! v) i"
    using bits_eqI [of N "Dom ! v"] lN dom_sizes_nth [OF sz v] by auto
  then have i': "bitsetTest (Dom ! v) i" "\<not> bitsetTest N i" "i < ?n" using sub rng [OF v] by blast+
  have fin: "finite {i. i < ?n \<and> P i}" for P by simp
  have mono: "card {i. i < ?n \<and> bitsetTest (?D ! u) i} \<le> card {i. i < ?n \<and> bitsetTest (Dom ! u) i}" for u
    by (rule card_mono [OF fin]) (use le word_index in auto)
  have "{i. i < ?n \<and> bitsetTest (?D ! v) i} \<subset> {i. i < ?n \<and> bitsetTest (Dom ! v) i}"
    using i' v lD sub word_index by auto
  then have "card {i. i < ?n \<and> bitsetTest (?D ! v) i} < card {i. i < ?n \<and> bitsetTest (Dom ! v) i}"
    by (rule psubset_card_mono [OF fin])
  then show "dom_total Blocks ?D < dom_total Blocks Dom"
    unfolding dom_total_def using v mono by (intro sum_strict_mono_ex1) auto
qed

text \<open>A pass over the nodes.\<close>

lemma dom_node_eq:
  "v < length Blocks \<Longrightarrow> dom_node Blocks R v (Dom, ch) =
     (if updated Blocks R v \<and> new_dom Blocks R Dom v \<noteq> Dom ! v then (Dom[v := new_dom Blocks R Dom v], True) else (Dom, ch))"
  by (auto simp: dom_node_def updated_def bitsetEqual_def Let_def)

lemma dom_pass:
  assumes "\<And>Dom v. dom_inv Blocks R Dom \<Longrightarrow> I Dom \<Longrightarrow> updated Blocks R v \<Longrightarrow> I (Dom[v := new_dom Blocks R Dom v])"
  shows "dom_inv Blocks R Dom \<Longrightarrow> I Dom \<Longrightarrow> set vs \<subseteq> {..<length Blocks} \<Longrightarrow>
    fold (dom_node Blocks R) vs (Dom, ch) = (Dom', ch') \<Longrightarrow>
    dom_inv Blocks R Dom' \<and> I Dom' \<and> dom_total Blocks Dom' \<le> dom_total Blocks Dom \<and>
    (ch \<longrightarrow> ch') \<and> (ch' \<longrightarrow> ch \<or> dom_total Blocks Dom' < dom_total Blocks Dom) \<and>
    (\<not> ch' \<longrightarrow> Dom' = Dom \<and> (\<forall>v \<in> set vs. updated Blocks R v \<longrightarrow> new_dom Blocks R Dom v = Dom ! v))"
proof (induction vs arbitrary: Dom ch)
  case (Cons v vs)
  let ?N = "new_dom Blocks R Dom v"
  have v: "v < length Blocks" "set vs \<subseteq> {..<length Blocks}" using Cons.prems(3) by simp_all
  show ?case
  proof (cases "updated Blocks R v \<and> ?N \<noteq> Dom ! v")
    case True
    note up = dom_update [OF Cons.prems(1) conjunct1 [OF True]]
    have "fold (dom_node Blocks R) vs (Dom[v := ?N], True) = (Dom', ch')"
      using Cons.prems(4) True by (simp add: dom_node_eq [OF v(1)])
    from Cons.IH [OF up(1) assms [OF Cons.prems(1,2) conjunct1 [OF True]] v(2) this] up(2) True
    show ?thesis by auto
  next
    case False
    have "fold (dom_node Blocks R) vs (Dom, ch) = (Dom', ch')"
      using Cons.prems(4) unfolding fold_simps(2) dom_node_eq [OF v(1)] if_not_P [OF False] .
    from Cons.IH [OF Cons.prems(1,2) v(2) this] False show ?thesis by auto
  qed
qed auto

lemma dom_init_inv: "length R = length Blocks \<Longrightarrow> dom_inv Blocks R (dom_init Blocks R)"
proof -
  let ?n = "length Blocks" and ?D = "dom_init Blocks R"
  have nth: "?D ! v = (if updated Blocks R v then all_bits ?n else bitsetSet (replicate (bitsetWordCount ?n) 0) v)"
    if "v < ?n" for v using that by (auto simp: dom_init_def updated_def)
  have sz: "dom_sizes ?n ?D" by (auto simp: dom_sizes_def dom_init_def)
  have "i < ?n" if "v < ?n" "i div 64 < bitsetWordCount ?n" "bitsetTest (?D ! v) i" for v i
    using that nth [OF that(1)] all_bits_test [of i ?n] word_index [OF that(1)]
    by (auto simp: bitsetTest_set split: if_splits)
  moreover have "bitsetTest (?D ! v) i"
    if "updated Blocks R v" "i div 64 < bitsetWordCount ?n" "bitsetTest (new_dom Blocks R ?D v) i" for v i
  proof -
    have v: "v < ?n" using that(1) by (simp add: updated_def)
    then have "i < ?n" using that(3) new_dom_test(2) [OF sz v that(2)] by auto
    then show ?thesis using nth [OF v] that(1,2) all_bits_test by simp
  qed
  ultimately show ?thesis using sz unfolding dom_inv_def by blast
qed

text \<open>The loop ends in a state that another pass does not change.\<close>

lemma computeDominators_fixpoint:
  assumes "length R = length Blocks" and "I (dom_init Blocks R)"
    and "\<And>Dom v. dom_inv Blocks R Dom \<Longrightarrow> I Dom \<Longrightarrow> updated Blocks R v \<Longrightarrow> I (Dom[v := new_dom Blocks R Dom v])"
  shows "\<exists>Dom. computeDominators Blocks R = Some Dom \<and> dom_inv Blocks R Dom \<and> I Dom \<and>
    (\<forall>v. updated Blocks R v \<longrightarrow> new_dom Blocks R Dom v = Dom ! v)"
proof -
  let ?b = "\<lambda>(Dom :: u64 list list, Changed :: bool). Changed" and ?c = "dom_round Blocks R"
  let ?P = "\<lambda>(Dom, ch). dom_inv Blocks R Dom \<and> I Dom \<and>
    (\<not> ch \<longrightarrow> (\<forall>v. updated Blocks R v \<longrightarrow> new_dom Blocks R Dom v = Dom ! v))"
  let ?f = "\<lambda>(Dom, ch). 2 * dom_total Blocks Dom + (if ch then 1 else 0)"
  have step: "?P (?c s) \<and> ?f (?c s) < ?f s" if "?P s" "?b s" for s
  proof -
    note ps = that
    obtain Dom where s: "s = (Dom, True)" using ps(2) by (cases s) auto
    obtain Dom' ch' where c: "fold (dom_node Blocks R) [0..<length Blocks] (Dom, False) = (Dom', ch')"
      by (rule prod.exhaust)
    have r: "dom_round Blocks R s = (Dom', ch')" using s c by (simp add: dom_round_def)
    have sub: "set [0..<length Blocks] \<subseteq> {..<length Blocks}" by auto
    have D: "dom_inv Blocks R Dom" "I Dom" using ps(1) s by simp_all
    note pass = dom_pass [where I = I, OF assms(3) D sub c]
    have "new_dom Blocks R Dom v = Dom ! v" if "\<not> ch'" "updated Blocks R v" for v
      using pass that by (simp add: updated_def)
    then have "?P (Dom', ch')" using pass by simp
    moreover have "?f (Dom', ch') < ?f s" using pass s by (cases ch') simp_all
    ultimately show ?thesis using r by simp
  qed
  have init: "?P (dom_init Blocks R, True)" using dom_init_inv [OF assms(1)] assms(2) by simp
  have "\<exists>t. while_option ?b ?c (dom_init Blocks R, True) = Some t"
    by (rule measure_while_option_Some [where P = ?P and f = ?f, OF step init])
  then obtain Dom ch where w: "while_option ?b ?c (dom_init Blocks R, True) = Some (Dom, ch)" by auto
  have "?P (Dom, ch)" by (rule while_option_rule [where P = ?P, OF conjunct1 [OF step] w init])
  moreover have "\<not> ch" using while_option_stop [OF w] by simp
  ultimately show ?thesis unfolding computeDominators_def w by auto
qed

section \<open>Dominance\<close>

inductive walk :: "GasBlock list \<Rightarrow> nat \<Rightarrow> nat list \<Rightarrow> nat \<Rightarrow> bool" for Blocks e where
  walk_start: "walk Blocks e [e] e"
| walk_step: "walk Blocks e ps u \<Longrightarrow> (u, v) \<in> edges Blocks \<Longrightarrow> walk Blocks e (ps @ [v]) v"

definition dominates :: "GasBlock list \<Rightarrow> nat \<Rightarrow> nat \<Rightarrow> nat \<Rightarrow> bool" where
  "dominates Blocks e d v \<longleftrightarrow> (\<forall>ps. walk Blocks e ps v \<longrightarrow> d \<in> set ps)"

text \<open>A graph whose predecessor lists mirror its successor lists, with an entry that has no predecessor.\<close>

definition rooted :: "GasBlock list \<Rightarrow> nat \<Rightarrow> u8 list \<Rightarrow> bool" where
  "rooted Blocks e R \<longleftrightarrow> e < length Blocks \<and> Preds (Blocks ! e) = [] \<and> length R = length Blocks \<and>
     (\<forall>i < length Blocks. R ! i \<noteq> 0 \<longleftrightarrow> (e, i) \<in> (edges Blocks)\<^sup>*) \<and>
     (\<forall>i < length Blocks. \<forall>j < length Blocks. j \<in> set (Succs (Blocks ! i)) \<longleftrightarrow> i \<in> set (Preds (Blocks ! j)))"

lemma rooted_live:
  assumes "rooted Blocks e R" and "(u, v) \<in> edges Blocks" and "R ! u \<noteq> 0"
  shows "u \<in> set (live_preds Blocks R v)" "updated Blocks R v" "R ! v \<noteq> 0"
proof -
  have uv: "u < length Blocks" "v < length Blocks" "v \<in> set (Succs (Blocks ! u))" using assms(2) by (auto simp: edges_def)
  then have p: "u \<in> set (Preds (Blocks ! v))" using assms(1) by (auto simp: rooted_def)
  then show "u \<in> set (live_preds Blocks R v)" using uv assms(3) by (simp add: live_preds_def)
  have "(e, v) \<in> (edges Blocks)\<^sup>*" using assms uv by (auto simp: rooted_def intro: rtrancl.rtrancl_into_rtrancl)
  then show "R ! v \<noteq> 0" using assms(1) uv by (simp add: rooted_def)
  then show "updated Blocks R v" using p uv by (auto simp: updated_def)
qed

lemma live_edge:
  assumes "rooted Blocks e R" and "p \<in> set (live_preds Blocks R v)" and "v < length Blocks"
  shows "(p, v) \<in> edges Blocks" "R ! p \<noteq> 0" "p < length Blocks"
  using assms by (auto simp: rooted_def live_preds_def edges_def)

lemma walk_live:
  assumes "rooted Blocks e R"
  shows "walk Blocks e ps v \<Longrightarrow> v < length Blocks \<and> R ! v \<noteq> 0"
proof (induction rule: walk.induct)
  case walk_start
  then show ?case using assms by (simp add: rooted_def)
next
  case (walk_step ps u v)
  then show ?case using rooted_live(3) [OF assms] by (auto simp: edges_def)
qed

lemma reachable_pred:
  assumes "rooted Blocks e R" and "v < length Blocks" and "R ! v \<noteq> 0" and "v \<noteq> e"
  shows "live_preds Blocks R v \<noteq> []" "updated Blocks R v"
proof -
  have "(e, v) \<in> (edges Blocks)\<^sup>*" using assms by (simp add: rooted_def)
  then obtain u where u: "(e, u) \<in> (edges Blocks)\<^sup>*" "(u, v) \<in> edges Blocks" using assms(4) by (metis rtranclE)
  then have "R ! u \<noteq> 0" using assms(1) by (auto simp: rooted_def edges_def)
  then show "live_preds Blocks R v \<noteq> []" "updated Blocks R v" using rooted_live [OF assms(1) u(2)] by auto
qed

text \<open>The computed sets contain the dominators throughout, and nothing else at the end.\<close>

definition contains_doms :: "GasBlock list \<Rightarrow> nat \<Rightarrow> u8 list \<Rightarrow> u64 list list \<Rightarrow> bool" where
  "contains_doms Blocks e R Dom \<longleftrightarrow> length Dom = length Blocks \<and>
     (\<forall>v < length Blocks. R ! v \<noteq> 0 \<longrightarrow> (\<forall>d < length Blocks. dominates Blocks e d v \<longrightarrow> bitsetTest (Dom ! v) d))"

lemma dominates_pred:
  "dominates Blocks e d v \<Longrightarrow> (p, v) \<in> edges Blocks \<Longrightarrow> d \<noteq> v \<Longrightarrow> dominates Blocks e d p"
  unfolding dominates_def using walk_step by fastforce

lemma contains_doms_update:
  assumes "rooted Blocks e R" and "dom_inv Blocks R Dom" and "contains_doms Blocks e R Dom" and "updated Blocks R v"
  shows "contains_doms Blocks e R (Dom[v := new_dom Blocks R Dom v])"
proof -
  have v: "v < length Blocks" "R ! v \<noteq> 0" "v \<noteq> e" and sz: "dom_sizes (length Blocks) Dom"
    using assms by (auto simp: updated_def dom_inv_def rooted_def)
  have "bitsetTest (new_dom Blocks R Dom v) d" if d: "d < length Blocks" "dominates Blocks e d v" for d
    unfolding new_dom_test(2) [OF sz v(1) word_index [OF d(1)]]
    using assms(3) d reachable_pred(1) [OF assms(1) v] live_edge [OF assms(1) _ v(1)] dominates_pred [OF d(2)]
    unfolding contains_doms_def by blast
  then show ?thesis using assms(3) v(1) unfolding contains_doms_def by (auto simp: nth_list_update)
qed

lemma contains_doms_init:
  assumes "rooted Blocks e R"
  shows "contains_doms Blocks e R (dom_init Blocks R)"
proof -
  have "bitsetTest (dom_init Blocks R ! v) d"
    if v: "v < length Blocks" "R ! v \<noteq> 0" and d: "d < length Blocks" "dominates Blocks e d v" for v d
  proof (cases "v = e")
    case True
    then have "d = v" using d(2) walk_start by (fastforce simp: dominates_def)
    then show ?thesis using True assms v word_index [OF v(1)] by (simp add: dom_init_def rooted_def bitsetTest_set)
  next
    case False
    then show ?thesis
      using reachable_pred(2) [OF assms v] v d all_bits_test word_index by (auto simp: dom_init_def updated_def)
  qed
  then show ?thesis by (simp add: contains_doms_def dom_init_def)
qed

theorem computeDominators_exact:
  assumes "rooted Blocks e R"
  shows "\<exists>Dom. computeDominators Blocks R = Some Dom \<and>
    (\<forall>v < length Blocks. R ! v \<noteq> 0 \<longrightarrow> (\<forall>d < length Blocks. bitsetTest (Dom ! v) d \<longleftrightarrow> dominates Blocks e d v))"
proof -
  have len: "length R = length Blocks" using assms by (simp add: rooted_def)
  let ?I = "\<lambda>Dom. contains_doms Blocks e R Dom \<and> Dom ! e = bitsetSet (replicate (bitsetWordCount (length Blocks)) 0) e"
  have "\<exists>Dom. computeDominators Blocks R = Some Dom \<and> dom_inv Blocks R Dom \<and> ?I Dom \<and>
    (\<forall>v. updated Blocks R v \<longrightarrow> new_dom Blocks R Dom v = Dom ! v)"
  proof (rule computeDominators_fixpoint [OF len])
    show "?I (dom_init Blocks R)" using contains_doms_init [OF assms] assms by (simp add: rooted_def dom_init_def)
    show "?I (Dom[v := new_dom Blocks R Dom v])" if "dom_inv Blocks R Dom" "?I Dom" "updated Blocks R v" for Dom v
    proof -
      have "v \<noteq> e" using that(3) assms by (auto simp: updated_def rooted_def)
      then show ?thesis using contains_doms_update [OF assms that(1)] that by simp
    qed
  qed
  then obtain Dom where Dom: "computeDominators Blocks R = Some Dom" "dom_inv Blocks R Dom" "contains_doms Blocks e R Dom"
    "Dom ! e = bitsetSet (replicate (bitsetWordCount (length Blocks)) 0) e"
    and stable: "\<And>v. updated Blocks R v \<Longrightarrow> new_dom Blocks R Dom v = Dom ! v" by blast
  have sz: "dom_sizes (length Blocks) Dom" using Dom(2) by (simp add: dom_inv_def)
  have "d \<in> set ps" if "walk Blocks e ps v" "bitsetTest (Dom ! v) d" "d < length Blocks" for ps v d
    using that
  proof (induction rule: walk.induct)
    case walk_start
    then show ?case using Dom(4) assms word_index by (auto simp: bitsetTest_set rooted_def)
  next
    case (walk_step ps u v)
    have u: "R ! u \<noteq> 0" using walk_live [OF assms walk_step(1)] by simp
    note live = rooted_live [OF assms walk_step(2) u]
    have v: "v < length Blocks" using walk_step(2) by (simp add: edges_def)
    have "d = v \<or> bitsetTest (Dom ! u) d"
      using walk_step.prems stable [OF live(2)] new_dom_test(2) [OF sz v word_index [OF walk_step.prems(2)], of R] live(1) by auto
    then show ?case using walk_step by auto
  qed
  then have "bitsetTest (Dom ! v) d \<longleftrightarrow> dominates Blocks e d v"
    if "v < length Blocks" "R ! v \<noteq> 0" "d < length Blocks" for v d
    using Dom(3) that unfolding dominates_def contains_doms_def by blast
  then show ?thesis using Dom(1) by blast
qed

end
