(* ===== verification/Loops.thy ===== *)
theory Loops
  imports Dominators
begin

text \<open>
  Natural loops and their nesting (\<open>LoopInfo\<close>, \<open>collectNaturalLoop\<close> and \<open>buildLoopsUsingDominance\<close> of
  \<open>src/evm/evm_cache.cpp\<close>). \<open>buildLoopsUsingDominance\<close> returns \<open>false\<close> for a graph whose loops are not
  properly nested; its outputs are then not used.
\<close>

record LoopInfo =
  Header :: nat
  Nodes :: "nat list"
  Members :: "nat list"
  Exits :: "nat list"
  NodeMask :: "u64 list"
  Parent :: nat

definition loop_step ::
  "GasBlock list \<Rightarrow> nat \<Rightarrow> u8 list \<Rightarrow> u64 list \<times> nat list \<Rightarrow> u64 list \<times> nat list" where
  "loop_step Blocks NumBlocks Reachable = (\<lambda>(LoopBits, St).
     let Node = hd St; St = tl St in
     if Node \<ge> NumBlocks then (LoopBits, St)
     else fold (\<lambda>Pred (LoopBits, St).
            if Pred \<ge> NumBlocks then (LoopBits, St)
            else if Reachable ! Pred = 0 then (LoopBits, St)
            else if \<not> bitsetTest LoopBits Pred then (bitsetSet LoopBits Pred, Pred # St)
            else (LoopBits, St)) (Preds (Blocks ! Node)) (LoopBits, St))"

definition collectNaturalLoop ::
  "nat \<Rightarrow> nat \<Rightarrow> GasBlock list \<Rightarrow> nat \<Rightarrow> u8 list \<Rightarrow> u64 list option" where
  "collectNaturalLoop From Head Blocks NumBlocks Reachable =
     map_option fst
       (while_option (\<lambda>(LoopBits, St). St \<noteq> []) (loop_step Blocks NumBlocks Reachable)
          (bitsetSet (bitsetSet (replicate (bitsetWordCount NumBlocks) 0) Head) From, [From]))"

text \<open>
  The loops by header, in the order in which their headers are found: \<open>LoopBuilds\<close> with \<open>HeaderIndex\<close>.
\<close>

definition add_loop :: "nat \<Rightarrow> nat \<Rightarrow> u64 list \<Rightarrow> (nat \<times> u64 list) list \<Rightarrow> (nat \<times> u64 list) list" where
  "add_loop Words To LoopBits Builds =
     (if To \<in> fst ` set Builds
      then map (\<lambda>(h, bits). if h = To then (h, bits_or bits LoopBits) else (h, bits)) Builds
      else Builds @ [(To, bits_or (replicate Words 0) LoopBits)])"

definition loop_edges :: "GasBlock list \<Rightarrow> u64 list list \<Rightarrow> u8 list \<Rightarrow> (nat \<times> nat) list" where
  "loop_edges Blocks Dom Reachable =
     concat (map (\<lambda>From.
       if Reachable ! From = 0 then []
       else map (\<lambda>To. (From, To))
         (filter (\<lambda>To. To < length Blocks \<and> bitsetTest (Dom ! From) To) (Succs (Blocks ! From))))
       [0..<length Blocks])"

definition collect_loops :: "GasBlock list \<Rightarrow> u64 list list \<Rightarrow> u8 list \<Rightarrow> (nat \<times> u64 list) list option" where
  "collect_loops Blocks Dom Reachable =
     fold (\<lambda>(From, To) s.
       case s of None \<Rightarrow> None
       | Some Builds \<Rightarrow>
           map_option (\<lambda>LoopBits. add_loop (bitsetWordCount (length Blocks)) To LoopBits Builds)
             (collectNaturalLoop (u32_cast From) To Blocks (length Blocks) Reachable))
       (loop_edges Blocks Dom Reachable) (Some [])"

text \<open>The masks without unreachable nodes, as \<open>LoopInfo\<close> records.\<close>

definition bitsetClear :: "u64 list \<Rightarrow> nat \<Rightarrow> u64 list" where
  "bitsetClear Bits Node = Bits[Node div 64 := Bits ! (Node div 64) AND NOT (push_bit (Node mod 64) 1)]"

definition make_loop :: "nat \<Rightarrow> u8 list \<Rightarrow> nat \<times> u64 list \<Rightarrow> LoopInfo list" where
  "make_loop NumBlocks Reachable = (\<lambda>(Head, Bits).
     let Bits = fold (\<lambda>Node Bits.
           if Reachable ! Node = 0 \<and> bitsetTest Bits Node then bitsetClear Bits Node else Bits) [0..<NumBlocks] Bits
     in if bitsetCount Bits = 0 then []
        else [\<lparr>Header = Head, Nodes = map u32_cast (filter (bitsetTest Bits) [0..<NumBlocks]), Members = [], Exits = [],
               NodeMask = Bits, Parent = UINT32_MAX\<rparr>])"

definition headers_dominate :: "nat \<Rightarrow> u64 list list \<Rightarrow> LoopInfo list \<Rightarrow> bool" where
  "headers_dominate NumBlocks Dom Loops \<longleftrightarrow>
     (\<forall>Loop \<in> set Loops. \<forall>Node \<in> set (Nodes Loop).
        Node < length Dom \<and> Header Loop < NumBlocks \<and> bitsetTest (Dom ! Node) (Header Loop))"

definition properly_nested :: "LoopInfo list \<Rightarrow> bool" where
  "properly_nested Loops \<longleftrightarrow>
     (\<forall>I \<in> set [0..<length Loops]. \<forall>J \<in> set [I + 1..<length Loops].
        let A = NodeMask (Loops ! I); B = NodeMask (Loops ! J) in
        bitsetIntersects A B \<longrightarrow> bitsetIsSubset A B \<or> bitsetIsSubset B A)"

text \<open>The smallest loop that properly contains loop \<open>I\<close>.\<close>

definition best_parent :: "LoopInfo list \<Rightarrow> nat \<Rightarrow> nat option" where
  "best_parent Loops I =
     fold (\<lambda>J BestParent.
       if I = J then BestParent
       else if length (Nodes (Loops ! J)) \<le> length (Nodes (Loops ! I)) then BestParent
       else if \<not> bitsetIsSubset (NodeMask (Loops ! I)) (NodeMask (Loops ! J)) then BestParent
       else (case BestParent of
               None \<Rightarrow> Some J
             | Some b \<Rightarrow> if length (Nodes (Loops ! J)) < length (Nodes (Loops ! b)) then Some J else Some b))
       [0..<length Loops] None"

definition set_parents :: "LoopInfo list \<Rightarrow> LoopInfo list" where
  "set_parents Loops =
     map (\<lambda>I. case best_parent Loops I of
                None \<Rightarrow> Loops ! I | Some P \<Rightarrow> (Loops ! I)\<lparr>Parent := u32_cast P\<rparr>) [0..<length Loops]"

text \<open>
  \<open>LoopOf\<close>: the smallest loop of every node, \<open>None\<close> for the \<open>-1\<close> of the source. \<open>std::sort\<close> leaves the
  order of loops of equal size open; the model takes the stable one.
\<close>

definition loop_of :: "nat \<Rightarrow> LoopInfo list \<Rightarrow> nat option list" where
  "loop_of NumBlocks Loops =
     fold (\<lambda>LoopId LoopOf.
       fold (\<lambda>Node LoopOf. if LoopOf ! Node = None then LoopOf[Node := Some LoopId] else LoopOf) (Nodes (Loops ! LoopId)) LoopOf)
       (sort_key (\<lambda>I. length (Nodes (Loops ! I))) [0..<length Loops]) (replicate NumBlocks None)"

definition set_members :: "nat \<Rightarrow> nat option list \<Rightarrow> LoopInfo list \<Rightarrow> LoopInfo list" where
  "set_members NumBlocks LoopOf Loops =
     map (\<lambda>LoopId. (Loops ! LoopId)\<lparr>Members := filter (\<lambda>Node. LoopOf ! Node = Some LoopId) [0..<NumBlocks]\<rparr>)
       [0..<length Loops]"

definition is_exit :: "GasBlock list \<Rightarrow> LoopInfo \<Rightarrow> nat \<Rightarrow> bool" where
  "is_exit Blocks Loop Node \<longleftrightarrow>
     (\<exists>Succ \<in> set (Succs (Blocks ! Node)). Succ < length Blocks \<and> \<not> bitsetTest (NodeMask Loop) Succ)"

definition set_exits :: "GasBlock list \<Rightarrow> LoopInfo list \<Rightarrow> LoopInfo list" where
  "set_exits Blocks Loops =
     map (\<lambda>Loop. Loop\<lparr>Exits := filter (\<lambda>Node. Node < length Blocks \<and> is_exit Blocks Loop Node) (Nodes Loop)\<rparr>) Loops"

definition exit_loops :: "nat \<Rightarrow> LoopInfo list \<Rightarrow> nat list list" where
  "exit_loops NumBlocks Loops =
     map (\<lambda>Node. filter (\<lambda>LoopId. Node \<in> set (Exits (Loops ! LoopId))) [0..<length Loops]) [0..<NumBlocks]"

definition exit_flags :: "nat \<Rightarrow> LoopInfo list \<Rightarrow> u8 list list" where
  "exit_flags NumBlocks Loops =
     map (\<lambda>Loop. map (\<lambda>Node. if Node \<in> set (Exits Loop) then 1 else 0) [0..<NumBlocks]) Loops"

text \<open>\<open>Some None\<close> is the result \<open>false\<close>; \<open>None\<close> is a loop that does not end.\<close>

definition buildLoopsUsingDominance ::
  "GasBlock list \<Rightarrow> u64 list list \<Rightarrow> u8 list \<Rightarrow>
     (LoopInfo list \<times> nat option list \<times> nat list list \<times> u8 list list) option option" where
  "buildLoopsUsingDominance Blocks Dom Reachable =
     (let NumBlocks = length Blocks in
      map_option (\<lambda>Builds.
        let Loops = concat (map (make_loop NumBlocks Reachable) Builds) in
        if \<not> headers_dominate NumBlocks Dom Loops \<or> \<not> properly_nested Loops then None
        else
          let Loops = set_parents Loops;
              LoopOf = loop_of NumBlocks Loops;
              Loops = set_members NumBlocks LoopOf Loops;
              Loops = set_exits Blocks Loops
          in Some (Loops, LoopOf, exit_loops NumBlocks Loops, exit_flags NumBlocks Loops))
        (collect_loops Blocks Dom Reachable))"

section \<open>The analysis ends\<close>

definition clear_bits :: "nat \<Rightarrow> u64 list \<Rightarrow> nat" where
  "clear_bits n B = card {i. i < n \<and> \<not> bitsetTest B i}"

lemma clear_bits_set:
  assumes "length B = bitsetWordCount n" and "p < n" and "\<not> bitsetTest B p"
  shows "clear_bits n B = Suc (clear_bits n (bitsetSet B p))"
proof -
  have "{i. i < n \<and> \<not> bitsetTest B i} = insert p {i. i < n \<and> \<not> bitsetTest (bitsetSet B p) i}"
    using assms word_index [OF assms(2)] by (auto simp: bitsetTest_set)
  moreover have "p \<notin> {i. i < n \<and> \<not> bitsetTest (bitsetSet B p) i}"
    using assms word_index [OF assms(2)] by (simp add: bitsetTest_set)
  ultimately show ?thesis by (simp add: clear_bits_def)
qed

lemma loop_fold_work:
  "length B = bitsetWordCount n \<Longrightarrow>
   fold (\<lambda>Pred (LoopBits, St). if Pred \<ge> n then (LoopBits, St) else if R ! Pred = 0 then (LoopBits, St)
       else if \<not> bitsetTest LoopBits Pred then (bitsetSet LoopBits Pred, Pred # St) else (LoopBits, St)) ps (B, St) = (B', St') \<Longrightarrow>
   length B' = bitsetWordCount n \<and> 2 * clear_bits n B' + length St' \<le> 2 * clear_bits n B + length St"
proof (induction ps arbitrary: B St)
  case (Cons p ps)
  show ?case
  proof (cases "p < n \<and> R ! p \<noteq> 0 \<and> \<not> bitsetTest B p")
    case True
    then show ?thesis using Cons.IH [of "bitsetSet B p" "p # St"] Cons.prems clear_bits_set [of B n p] by simp
  next
    case False
    then show ?thesis using Cons.IH [of B St] Cons.prems by (auto split: if_splits)
  qed
qed simp

lemma loop_step_work:
  assumes "length B = bitsetWordCount n" and "St \<noteq> []" and "loop_step Blocks n R (B, St) = (B', St')"
  shows "length B' = bitsetWordCount n \<and> 2 * clear_bits n B' + length St' < 2 * clear_bits n B + length St"
proof -
  obtain x xs where St: "St = x # xs" using assms(2) by (cases St) auto
  show ?thesis
  proof (cases "x < n")
    case True
    then show ?thesis using assms(1,3) St loop_fold_work [OF assms(1)] by (fastforce simp: loop_step_def)
  next
    case False
    then show ?thesis using assms(1,3) St by (simp add: loop_step_def)
  qed
qed

theorem collectNaturalLoop_ends: "\<exists>Bits. collectNaturalLoop From Head Blocks n R = Some Bits \<and> length Bits = bitsetWordCount n"
proof -
  let ?b = "\<lambda>(B :: u64 list, St :: nat list). St \<noteq> []" and ?P = "\<lambda>s :: u64 list \<times> nat list. length (fst s) = bitsetWordCount n"
  let ?s = "(bitsetSet (bitsetSet (replicate (bitsetWordCount n) 0) Head) From, [From])"
  let ?f = "\<lambda>s. 2 * clear_bits n (fst s) + length (snd s)"
  have step: "?P (loop_step Blocks n R s) \<and> ?f (loop_step Blocks n R s) < ?f s" if "?P s" "?b s" for s
    using loop_step_work [of "fst s" n "snd s" Blocks R "fst (loop_step Blocks n R s)" "snd (loop_step Blocks n R s)"] that
    by (cases s) auto
  have init: "?P ?s" by simp
  have "\<exists>t. while_option ?b (loop_step Blocks n R) ?s = Some t"
    by (rule measure_while_option_Some [where P = ?P and f = ?f, OF step init])
  then obtain t where w: "while_option ?b (loop_step Blocks n R) ?s = Some t" by blast
  have "?P t" by (rule while_option_rule [where P = ?P, OF conjunct1 [OF step] w init])
  then show ?thesis unfolding collectNaturalLoop_def w by simp
qed

theorem buildLoopsUsingDominance_ends: "\<exists>r. buildLoopsUsingDominance Blocks Dom R = Some r"
proof -
  have "\<exists>B. fold (\<lambda>e s. case s of None \<Rightarrow> None
       | Some Builds \<Rightarrow> (case e of (From, To) \<Rightarrow> map_option (\<lambda>LoopBits. add_loop (bitsetWordCount (length Blocks)) To LoopBits Builds)
             (collectNaturalLoop (u32_cast From) To Blocks (length Blocks) R))) xs (Some Bs) = Some B" for xs Bs
    using fold_search [of xs "\<lambda>_. True" "\<lambda>e Builds. case e of (From, To) \<Rightarrow>
        map_option (\<lambda>LoopBits. add_loop (bitsetWordCount (length Blocks)) To LoopBits Builds)
          (collectNaturalLoop (u32_cast From) To Blocks (length Blocks) R)" Bs]
      collectNaturalLoop_ends [of _ _ Blocks "length Blocks" R] by (fastforce split: prod.splits)
  moreover have "(\<lambda>(From, To) s. case s of None \<Rightarrow> None
       | Some Builds \<Rightarrow> map_option (\<lambda>LoopBits. add_loop (bitsetWordCount (length Blocks)) To LoopBits Builds)
             (collectNaturalLoop (u32_cast From) To Blocks (length Blocks) R)) =
     (\<lambda>e s. case s of None \<Rightarrow> None
       | Some Builds \<Rightarrow> (case e of (From, To) \<Rightarrow> map_option (\<lambda>LoopBits. add_loop (bitsetWordCount (length Blocks)) To LoopBits Builds)
             (collectNaturalLoop (u32_cast From) To Blocks (length Blocks) R)))"
    by (auto intro!: ext split: option.splits)
  ultimately show ?thesis by (simp add: buildLoopsUsingDominance_def collect_loops_def Let_def)
qed

end
