(* ===== verification/Jump_Cache.thy ===== *)
theory Jump_Cache
  imports Opcode_Class
begin

text \<open>
  The jump destination map and the decoded \<open>PUSH\<close> immediates (\<open>loadBeUint64\<close> to
  \<open>buildJumpDestMapAndPushCache\<close> of \<open>src/evm/evm_cache.cpp\<close>). Reads of the code and writes to the
  vectors are checked: an access outside is \<open>UB\<close>.
\<close>

section \<open>Big-endian loads\<close>

text \<open>\<open>memcpy\<close> of eight bytes into a \<open>uint64_t\<close>.\<close>

definition le64 :: "u8 list \<Rightarrow> u64" where
  "le64 bs = of_nat (be_val (rev bs))"

definition loadBeUint64 :: "'h ext \<Rightarrow> u8 list \<Rightarrow> nat \<Rightarrow> u64 res" where
  "loadBeUint64 E code Src = bindE (mem_read code Src 8) (\<lambda>bs. Inr (x_to_big_endian E (le64 bs)))"

definition loadBeUint64Partial :: "'h ext \<Rightarrow> u8 list \<Rightarrow> nat \<Rightarrow> nat \<Rightarrow> u64 res" where
  "loadBeUint64Partial E code Src Len =
     (if Len = 0 then Inr 0
      else if Len = 8 then loadBeUint64 E code Src
      else bindE (mem_read code Src Len) (\<lambda>bs.
           bindE (mem_write (replicate 8 0) (8 - Len) bs) (\<lambda>Value.
           Inr (x_to_big_endian E (le64 Value)))))"

text \<open>An \<open>intx::uint256\<close> of four words, the least significant first.\<close>

definition limbs :: "u64 \<Rightarrow> u64 \<Rightarrow> u64 \<Rightarrow> u64 \<Rightarrow> u256" where
  "limbs v0 v1 v2 v3 = of_nat (unat v0 + 2 ^ 64 * unat v1 + 2 ^ 128 * unat v2 + 2 ^ 192 * unat v3)"

definition loadBeUint256 :: "'h ext \<Rightarrow> u8 list \<Rightarrow> nat \<Rightarrow> nat \<Rightarrow> u256 res" where
  "loadBeUint256 E code Src Len =
     (if Len \<le> 8 then bindE (loadBeUint64Partial E code Src Len) (\<lambda>v0. Inr (limbs v0 0 0 0))
      else bindE (loadBeUint64 E code (Src + Len - 8)) (\<lambda>v0.
      if Len \<le> 16 then bindE (loadBeUint64Partial E code Src (Len - 8)) (\<lambda>v1. Inr (limbs v0 v1 0 0))
      else bindE (loadBeUint64 E code (Src + Len - 16)) (\<lambda>v1.
      if Len \<le> 24 then bindE (loadBeUint64Partial E code Src (Len - 16)) (\<lambda>v2. Inr (limbs v0 v1 v2 0))
      else bindE (loadBeUint64 E code (Src + Len - 24)) (\<lambda>v2.
           bindE (loadBeUint64Partial E code Src (Len - 24)) (\<lambda>v3. Inr (limbs v0 v1 v2 v3))))))"

definition loadPushValue :: "'h ext \<Rightarrow> u8 list \<Rightarrow> nat \<Rightarrow> nat \<Rightarrow> u256 res" where
  "loadPushValue E code pc NumBytes =
     (let Offset = pc + 1 in
      if Offset \<ge> length code then Inr 0
      else
        let AvailableBytes = length code - Offset;
            CopyBytes = min NumBytes AvailableBytes in
        if CopyBytes = 0 then Inr 0
        else bindE (loadBeUint256 E code Offset CopyBytes) (\<lambda>Value.
             let MissingBytes = NumBytes - CopyBytes in
             Inr (if MissingBytes \<noteq> 0 then push_bit (MissingBytes * 8) Value else Value)))"

section \<open>The two maps\<close>

function buildJumpDestMapAndPushCache ::
  "'h ext \<Rightarrow> u8 list \<Rightarrow> nat \<Rightarrow> u8 list \<Rightarrow> u256 list \<Rightarrow> (u8 list \<times> u256 list) res" where
  "buildJumpDestMapAndPushCache E code pc JDM PVM =
     (if pc < length code then
        let CurOpcode = code ! pc in
        if CurOpcode = OP_JUMPDEST then
          bindE (vec_put pc 1 JDM) (\<lambda>JDM. buildJumpDestMapAndPushCache E code (pc + 1) JDM PVM)
        else if OP_PUSH1 \<le> CurOpcode \<and> CurOpcode \<le> OP_PUSH32 then
          let NumBytes = unat (CurOpcode - OP_PUSH1 + 1) in
          bindE (loadPushValue E code pc NumBytes) (\<lambda>v.
          bindE (vec_put pc v PVM) (\<lambda>PVM. buildJumpDestMapAndPushCache E code (pc + NumBytes + 1) JDM PVM))
        else buildJumpDestMapAndPushCache E code (pc + 1) JDM PVM
      else Inr (JDM, PVM))"
  by auto
termination by (relation "measure (\<lambda>(E, code, pc, JDM, PVM). length code - pc)") auto

declare buildJumpDestMapAndPushCache.simps [simp del]

section \<open>The loads are exact\<close>

lemma to_big_endian:
  "intx_ok E \<Longrightarrow> length bs = 8 \<Longrightarrow> unat (x_to_big_endian E (le64 bs)) = be_val bs"
  using be_val_less [of bs] by (simp add: intx_ok_def le64_def unat_of_nat)

lemma loadBeUint64_eq:
  "intx_ok E \<Longrightarrow> Src + 8 \<le> length code \<Longrightarrow>
     \<exists>v. loadBeUint64 E code Src = Inr v \<and> unat v = be_val (take 8 (drop Src code))"
  by (simp add: loadBeUint64_def mem_read_def to_big_endian)

lemma be_val_zeros: "be_val (replicate n 0 @ bs) = be_val bs"
  by (simp add: be_val_append)

lemma loadBeUint64Partial_eq:
  assumes "intx_ok E" and "Src + Len \<le> length code" and "Len \<le> 8"
  shows "\<exists>v. loadBeUint64Partial E code Src Len = Inr v \<and> unat v = be_val (take Len (drop Src code))"
proof -
  consider "Len = 0" | "Len = 8" | "0 < Len" "Len < 8" using assms(3) by linarith
  then show ?thesis
  proof cases
    case 3
    let ?bs = "take Len (drop Src code)"
    have l: "length ?bs = Len" using assms(2) by simp
    have "mem_write (replicate 8 0) (8 - Len) ?bs = Inr (replicate (8 - Len) 0 @ ?bs)"
      using l 3 unfolding mem_write_def by auto
    moreover have "length (replicate (8 - Len) 0 @ ?bs) = 8" using l 3 by simp
    ultimately show ?thesis
      using 3 assms to_big_endian [OF assms(1), of "replicate (8 - Len) 0 @ ?bs"]
      by (simp add: loadBeUint64Partial_def mem_read_def be_val_zeros)
  qed (use assms loadBeUint64_eq [OF assms(1)] in \<open>auto simp: loadBeUint64Partial_def\<close>)
qed

text \<open>The last eight bytes of a byte string are its lowest word.\<close>

lemma be_val_word:
  assumes "8 \<le> n" and "n \<le> length xs"
  shows "be_val (take n xs) = 2 ^ 64 * be_val (take (n - 8) xs) + be_val (take 8 (drop (n - 8) xs))"
proof -
  have "take n xs = take (n - 8) xs @ take 8 (drop (n - 8) xs)" using assms(1) by (simp flip: take_add)
  moreover have "length (take 8 (drop (n - 8) xs)) = 8" using assms by simp
  ultimately show ?thesis by (simp add: be_val_append)
qed

lemma loadBeUint256_eq:
  assumes "intx_ok E" and "Src + Len \<le> length code" and "Len \<le> 32"
  shows "loadBeUint256 E code Src Len = Inr (of_nat (be_val (take Len (drop Src code))))"
proof -
  let ?xs = "drop Src code"
  have len: "Len \<le> length ?xs" using assms(2) by simp
  note word = be_val_word [of _ ?xs]
  have part: "\<exists>v. loadBeUint64Partial E code Src (Len - k) = Inr v \<and> unat v = be_val (take (Len - k) ?xs)"
    if "Len \<le> k + 8" for k
    by (rule loadBeUint64Partial_eq [OF assms(1)]) (use assms(2) that in linarith)+
  have full: "\<exists>v. loadBeUint64 E code (Src + Len - k) = Inr v \<and> unat v = be_val (take 8 (drop (Len - k) ?xs))"
    if "8 \<le> k" "k \<le> Len" for k
    using loadBeUint64_eq [OF assms(1), of "Src + Len - k" code] that assms(2) by (simp add: add.commute)
  have limbs_eq: "limbs v0 v1 v2 v3 = of_nat n"
    if "n = unat v0 + 2 ^ 64 * unat v1 + 2 ^ 128 * unat v2 + 2 ^ 192 * unat v3" for v0 v1 v2 v3 n
    by (simp only: limbs_def that)
  consider "Len \<le> 8" | "8 < Len" "Len \<le> 16" | "16 < Len" "Len \<le> 24" | "24 < Len" by linarith
  then show ?thesis
  proof cases
    case 1
    obtain v where v: "loadBeUint64Partial E code Src Len = Inr v" "unat v = be_val (take Len ?xs)"
      using part [of 0] 1 by auto
    show ?thesis using 1 v limbs_eq [of "be_val (take Len ?xs)" v 0 0 0] by (simp add: loadBeUint256_def)
  next
    case 2
    obtain v0 where v0: "loadBeUint64 E code (Src + Len - 8) = Inr v0" "unat v0 = be_val (take 8 (drop (Len - 8) ?xs))"
      using full [of 8] 2 by auto
    obtain v1 where v1: "loadBeUint64Partial E code Src (Len - 8) = Inr v1" "unat v1 = be_val (take (Len - 8) ?xs)"
      using part [of 8] 2 assms(3) by auto
    have "limbs v0 v1 0 0 = of_nat (be_val (take Len ?xs))" using word [of Len] v0 v1 2 len by (intro limbs_eq) simp
    then show ?thesis using 2 v0(1) v1(1) by (simp add: loadBeUint256_def)
  next
    case 3
    obtain v0 where v0: "loadBeUint64 E code (Src + Len - 8) = Inr v0" "unat v0 = be_val (take 8 (drop (Len - 8) ?xs))"
      using full [of 8] 3 by auto
    obtain v1 where v1: "loadBeUint64 E code (Src + Len - 16) = Inr v1" "unat v1 = be_val (take 8 (drop (Len - 16) ?xs))"
      using full [of 16] 3 by auto
    obtain v2 where v2: "loadBeUint64Partial E code Src (Len - 16) = Inr v2" "unat v2 = be_val (take (Len - 16) ?xs)"
      using part [of 16] 3 assms(3) by auto
    have "limbs v0 v1 v2 0 = of_nat (be_val (take Len ?xs))"
      using word [of Len] word [of "Len - 8"] v0(2) v1(2) v2(2) 3 len by (intro limbs_eq) simp
    then show ?thesis using 3 v0(1) v1(1) v2(1) by (simp add: loadBeUint256_def)
  next
    case 4
    obtain v0 where v0: "loadBeUint64 E code (Src + Len - 8) = Inr v0" "unat v0 = be_val (take 8 (drop (Len - 8) ?xs))"
      using full [of 8] 4 by auto
    obtain v1 where v1: "loadBeUint64 E code (Src + Len - 16) = Inr v1" "unat v1 = be_val (take 8 (drop (Len - 16) ?xs))"
      using full [of 16] 4 by auto
    obtain v2 where v2: "loadBeUint64 E code (Src + Len - 24) = Inr v2" "unat v2 = be_val (take 8 (drop (Len - 24) ?xs))"
      using full [of 24] 4 by auto
    obtain v3 where v3: "loadBeUint64Partial E code Src (Len - 24) = Inr v3" "unat v3 = be_val (take (Len - 24) ?xs)"
      using part [of 24] 4 assms(3) by auto
    have "limbs v0 v1 v2 v3 = of_nat (be_val (take Len ?xs))"
      using word [of Len] word [of "Len - 8"] word [of "Len - 16"] v0(2) v1(2) v2(2) v3(2) 4 len
      by (intro limbs_eq) simp
    then show ?thesis using 4 v0(1) v1(1) v2(1) v3(1) by (simp add: loadBeUint256_def)
  qed
qed

lemma loadPushValue_eq:
  assumes "intx_ok E" and "OP_PUSH1 \<le> code ! pc" and "code ! pc \<le> OP_PUSH32"
  shows "loadPushValue E code pc (unat (code ! pc - OP_PUSH1 + 1)) = Inr (of_nat (be_val (push_bytes code pc)))"
proof -
  let ?n = "unat (code ! pc - OP_PUSH1 + 1)" and ?rest = "drop (pc + 1) code"
  have n: "1 \<le> ?n" "?n \<le> 32" "opcodeLen (code ! pc) - 1 = ?n"
    using push_len [OF assms(2,3)] opcodeLen_push [OF assms(2,3)] by auto
  let ?k = "min ?n (length ?rest)"
  have pb: "push_bytes code pc = take ?k ?rest @ replicate (?n - ?k) 0"
    using n by (auto simp: push_bytes_def min_def)
  show ?thesis
  proof (cases "length code \<le> pc + 1")
    case True
    then show ?thesis using pb by (simp add: loadPushValue_def Let_def be_val_zeros)
  next
    case False
    then have "loadBeUint256 E code (pc + 1) ?k = Inr (of_nat (be_val (take ?k ?rest)))"
      using n by (intro loadBeUint256_eq [OF assms(1)]) auto
    moreover have "push_bit ((?n - ?k) * 8) (of_nat (be_val (take ?k ?rest)) :: u256) =
        of_nat (be_val (take ?k ?rest @ replicate (?n - ?k) 0))"
      by (simp add: be_val_append push_bit_eq_mult power_mult mult.commute [of _ 8])
    ultimately show ?thesis using False n pb by (auto simp: loadPushValue_def Let_def min_def)
  qed
qed

section \<open>The maps are exact\<close>

lemma instrs_Cons: "pc < length code \<Longrightarrow> instrs code pc (length code) = pc # instrs code (pc + opcodeLen (code ! pc)) (length code)"
  by (subst instrs.simps) simp

lemma instrs_next: "pc \<notin> set (instrs code (pc + opcodeLen (code ! pc)) e)"
  using instrs_range [of pc code "pc + opcodeLen (code ! pc)" e] opcodeLen_pos [of "code ! pc"] by linarith

definition maps_ok :: "u8 list \<Rightarrow> nat \<Rightarrow> u8 list \<Rightarrow> u256 list \<Rightarrow> u8 list \<Rightarrow> u256 list \<Rightarrow> bool" where
  "maps_ok code pc JDM PVM J P \<longleftrightarrow> length J = length code \<and> length P = length code \<and>
     (\<forall>q < length code.
        J ! q = (if q \<in> set (instrs code pc (length code)) \<and> code ! q = OP_JUMPDEST then 1 else JDM ! q) \<and>
        P ! q = (if q \<in> set (instrs code pc (length code)) \<and> isPushOpcode (code ! q)
                 then of_nat (be_val (push_bytes code q)) else PVM ! q))"

lemma maps_ok_step:
  assumes "maps_ok code (pc + opcodeLen (code ! pc)) J1 P1 J P" and "pc < length code"
    and "J1 = (if code ! pc = OP_JUMPDEST then JDM[pc := 1] else JDM)"
    and "P1 = (if isPushOpcode (code ! pc) then PVM[pc := of_nat (be_val (push_bytes code pc))] else PVM)"
    and "length JDM = length code" and "length PVM = length code"
  shows "maps_ok code pc JDM PVM J P"
  using assms instrs_next [of pc code "length code"] unfolding maps_ok_def instrs_Cons [OF assms(2)]
  by (auto simp: nth_list_update)

lemma build_step:
  assumes "intx_ok E" and "pc < length code" and "length JDM = length code" and "length PVM = length code"
  shows "buildJumpDestMapAndPushCache E code pc JDM PVM =
    buildJumpDestMapAndPushCache E code (pc + opcodeLen (code ! pc))
      (if code ! pc = OP_JUMPDEST then JDM[pc := 1] else JDM)
      (if isPushOpcode (code ! pc) then PVM[pc := of_nat (be_val (push_bytes code pc))] else PVM)"
proof -
  let ?op = "code ! pc"
  note unf = buildJumpDestMapAndPushCache.simps [of E code pc JDM PVM]
  consider "?op = OP_JUMPDEST" "\<not> isPushOpcode ?op" | "?op \<noteq> OP_JUMPDEST" "isPushOpcode ?op"
    | "?op \<noteq> OP_JUMPDEST" "\<not> isPushOpcode ?op" by (cases "?op = OP_JUMPDEST") (auto simp: isPushOpcode_def)
  then show ?thesis
  proof cases
    case 1
    then have "opcodeLen ?op = 1" by (auto simp: opcodeLen_def isPushOpcode_def)
    then show ?thesis using 1 assms unf by (simp add: vec_put_Inr)
  next
    case 2
    then have p: "OP_PUSH1 \<le> ?op" "?op \<le> OP_PUSH32" by (auto simp: isPushOpcode_def)
    then show ?thesis using 2 assms unf loadPushValue_eq [OF assms(1) p] opcodeLen_push [OF p]
      by (simp add: vec_put_Inr Let_def add.assoc)
  next
    case 3
    then have "opcodeLen ?op = 1" by (auto simp: opcodeLen_def isPushOpcode_def)
    then show ?thesis using 3 assms unf by (auto simp: isPushOpcode_def Let_def)
  qed
qed

lemma build_maps:
  assumes "intx_ok E"
  shows "length JDM = length code \<Longrightarrow> length PVM = length code \<Longrightarrow>
    \<exists>J P. buildJumpDestMapAndPushCache E code pc JDM PVM = Inr (J, P) \<and> maps_ok code pc JDM PVM J P"
proof (induction "length code - pc" arbitrary: pc JDM PVM rule: less_induct)
  case less
  show ?case
  proof (cases "pc < length code")
    case False
    then have "instrs code pc (length code) = []" by (subst instrs.simps) simp
    then show ?thesis using False less.prems
      by (subst buildJumpDestMapAndPushCache.simps) (simp add: maps_ok_def)
  next
    case True
    let ?op = "code ! pc"
    let ?J = "if ?op = OP_JUMPDEST then JDM[pc := 1] else JDM"
    let ?P = "if isPushOpcode ?op then PVM[pc := of_nat (be_val (push_bytes code pc))] else PVM"
    have step: "buildJumpDestMapAndPushCache E code pc JDM PVM =
        buildJumpDestMapAndPushCache E code (pc + opcodeLen ?op) ?J ?P"
      by (rule build_step [OF assms True less.prems])
    have "length code - (pc + opcodeLen ?op) < length code - pc"
      using True opcodeLen_pos [of ?op] by linarith
    moreover have "length ?J = length code" "length ?P = length code" using less.prems by simp_all
    ultimately obtain J P where "buildJumpDestMapAndPushCache E code (pc + opcodeLen ?op) ?J ?P = Inr (J, P)"
      "maps_ok code (pc + opcodeLen ?op) ?J ?P J P"
      using less.hyps [of "pc + opcodeLen ?op" ?J ?P] by blast
    then show ?thesis using step maps_ok_step [OF _ True refl refl less.prems] by auto
  qed
qed

end
