(* ===== verification/Bytecode_Cache.thy ===== *)
theory Bytecode_Cache
  imports Loops Jump_Cache
begin

text \<open>
  The metering of \<open>src/evm/evm_cache.cpp\<close>: \<open>effectivePredCount\<close>, \<open>lemma614Update\<close>, \<open>buildGasChunksSPP\<close> and
  \<open>buildBytecodeCache\<close>, and \<open>EVMModule::getBytecodeCache\<close> (\<open>src/runtime/evm_module.cpp\<close>).
\<close>

section \<open>Shifting costs to predecessors\<close>

definition effectivePredCount :: "GasBlock \<Rightarrow> nat" where
  "effectivePredCount Block = length (Preds Block) + (if Start Block = 0 then 1 else 0)"

text \<open>The successors that an update looks at; \<open>BackEdges\<close> is a pointer that may be null.\<close>

definition considered ::
  "nat \<Rightarrow> GasBlock list \<Rightarrow> nat list list option \<Rightarrow> u64 list \<Rightarrow> u64 list \<Rightarrow> nat \<Rightarrow> bool" where
  "considered NodeId Blocks BackEdges AllowedMask Metering Succ \<longleftrightarrow>
     \<not> (Succ \<ge> length Blocks \<or> Succ \<ge> length Metering) \<and>
     \<not> (case BackEdges of None \<Rightarrow> False | Some BE \<Rightarrow> isBackEdge BE NodeId Succ) \<and>
     bitsetTest AllowedMask Succ \<and> effectivePredCount (Blocks ! Succ) = 1"

definition UINT64_MAX :: u64 where "UINT64_MAX = - 1"

definition lemma614Update ::
  "nat \<Rightarrow> GasBlock list \<Rightarrow> nat list list option \<Rightarrow> u64 list \<Rightarrow> u64 list \<Rightarrow> bool \<times> u64 list" where
  "lemma614Update NodeId Blocks BackEdges AllowedMask Metering =
     (let Node = Blocks ! NodeId in
      if isGasSensitiveTerminator (LastOpcode Node) then (False, Metering)
      else
        let cs = filter (considered NodeId Blocks BackEdges AllowedMask Metering) (Succs Node);
            MinSucc = fold (\<lambda>Succ m. min m (Metering ! Succ)) cs UINT64_MAX
        in if MinSucc = 0 \<or> MinSucc = UINT64_MAX then (False, Metering)
           else
             let Metering = Metering[NodeId := Metering ! NodeId + MinSucc]
             in (True, fold (\<lambda>Succ M. M[Succ := M ! Succ - MinSucc]) cs Metering))"

section \<open>Linear SPP\<close>

record spp_state =
  Metering :: "u64 list"
  Recorded :: "nat list list"
  RecordedCount :: "nat list"
  ExitSeenCount :: "nat list"
  LoopProcessed :: "u8 list"
  ExitFlags :: "u8 list list"

definition maybeFastForward ::
  "GasBlock list \<Rightarrow> nat list \<Rightarrow> u8 list \<Rightarrow> LoopInfo list \<Rightarrow> u64 list list \<Rightarrow> nat \<Rightarrow> spp_state \<Rightarrow> spp_state" where
  "maybeFastForward Blocks RevTopoIndex InCycle Loops LoopNonCycleMask LoopId s =
     (if LoopId \<ge> length Loops \<or> LoopProcessed s ! LoopId \<noteq> 0 then s
      else if RecordedCount s ! LoopId \<noteq> length (Members (Loops ! LoopId)) then s
      else if ExitSeenCount s ! LoopId \<noteq> length (Exits (Loops ! LoopId)) then s
      else
        let Order = sort_key (\<lambda>A. RevTopoIndex ! A) (Recorded s ! LoopId);
            M = fold (\<lambda>NodeId M.
                  if InCycle ! NodeId \<noteq> 0 then M
                  else snd (lemma614Update NodeId Blocks None (LoopNonCycleMask ! LoopId) M)) Order (Metering s)
        in s\<lparr>Metering := M, Recorded := (Recorded s)[LoopId := Order], LoopProcessed := (LoopProcessed s)[LoopId := 1]\<rparr>)"

definition see_exit :: "nat \<Rightarrow> nat \<Rightarrow> spp_state \<Rightarrow> spp_state" where
  "see_exit NodeId ExitLoopId s =
     (if ExitFlags s ! ExitLoopId ! NodeId = 1 then
        s\<lparr>ExitSeenCount := (ExitSeenCount s)[ExitLoopId := ExitSeenCount s ! ExitLoopId + 1],
          ExitFlags := (ExitFlags s)[ExitLoopId := (ExitFlags s ! ExitLoopId)[NodeId := 2]]\<rparr>
      else s)"

definition linear_node ::
  "GasBlock list \<Rightarrow> nat list list \<Rightarrow> nat list \<Rightarrow> u8 list \<Rightarrow> u64 list \<Rightarrow> LoopInfo list \<Rightarrow> nat option list \<Rightarrow>
    nat list list \<Rightarrow> u64 list list \<Rightarrow> nat \<Rightarrow> spp_state \<Rightarrow> spp_state" where
  "linear_node Blocks BackEdges RevTopoIndex InCycle NonCycleMask Loops LoopOf ExitLoops LoopNonCycleMask NodeId s =
     (let LoopId = (if NodeId < length LoopOf then LoopOf ! NodeId else None);
          ff = maybeFastForward Blocks RevTopoIndex InCycle Loops LoopNonCycleMask in
      case LoopId of
        None \<Rightarrow>
          if InCycle ! NodeId \<noteq> 0 then s
          else
            let s = s\<lparr>Metering := snd (lemma614Update NodeId Blocks (Some BackEdges) NonCycleMask (Metering s))\<rparr>;
                s = fold (see_exit NodeId) (ExitLoops ! NodeId) s
            in fold ff (ExitLoops ! NodeId) s
      | Some L \<Rightarrow>
          let s = s\<lparr>Recorded := (Recorded s)[L := Recorded s ! L @ [NodeId]],
                    RecordedCount := (RecordedCount s)[L := RecordedCount s ! L + 1]\<rparr>;
              s = fold (see_exit NodeId) (ExitLoops ! NodeId) s;
              s = ff L s
          in fold ff (ExitLoops ! NodeId) s)"

definition sppMetering :: "GasBlock list \<Rightarrow> u64 list option" where
  "sppMetering Blocks =
     (case computeReachable Blocks 0 of None \<Rightarrow> None | Some Reachable \<Rightarrow>
      case computeDominators Blocks Reachable of None \<Rightarrow> None | Some Dom \<Rightarrow>
      let BackEdges = findBackEdgesUsingDominators Blocks Dom in
      case computeReverseTopo Blocks BackEdges of None \<Rightarrow> None | Some RevTopo \<Rightarrow>
      let RevTopoIndex = fold (\<lambda>Index M. M[RevTopo ! Index := Index]) [0..<length RevTopo] (replicate (length Blocks) 0) in
      case computeInCycle Blocks of None \<Rightarrow> None | Some InCycle \<Rightarrow>
      case buildLoopsUsingDominance Blocks Dom Reachable of None \<Rightarrow> None | Some LoopResult \<Rightarrow>
      let M = map Cost Blocks;
          NonCycleMask = fold (\<lambda>Id Mask. if InCycle ! Id = 0 then bitsetSet Mask Id else Mask) [0..<length Blocks]
            (replicate (bitsetWordCount (length Blocks)) 0) in
      case LoopResult of
        None \<Rightarrow>
          Some (fold (\<lambda>NodeId M. if InCycle ! NodeId \<noteq> 0 then M
                       else snd (lemma614Update NodeId Blocks (Some BackEdges) NonCycleMask M)) RevTopo M)
      | Some (Loops, LoopOf, ExitLoops, Flags) \<Rightarrow>
          let LoopNonCycleMask = map (\<lambda>Loop. bits_and (NodeMask Loop) NonCycleMask) Loops;
              s = \<lparr>Metering = M, Recorded = replicate (length Loops) [], RecordedCount = replicate (length Loops) 0,
                ExitSeenCount = replicate (length Loops) 0, LoopProcessed = replicate (length Loops) 0, ExitFlags = Flags\<rparr>
          in Some (Metering (fold (linear_node Blocks BackEdges RevTopoIndex InCycle NonCycleMask Loops LoopOf
                    ExitLoops LoopNonCycleMask) RevTopo s)))"

section \<open>The control-flow graph\<close>

fun hasDynamicJump :: "u8 list \<Rightarrow> u256 list \<Rightarrow> nat \<Rightarrow> GasBlock list \<Rightarrow> bool res" where
  "hasDynamicJump JDM PVM CodeSz [] = Inr False"
| "hasDynamicJump JDM PVM CodeSz (Block # rest) =
     (if \<not> isJumpOpcode (LastOpcode Block) then hasDynamicJump JDM PVM CodeSz rest
      else bindE (resolveConstantJumpTarget JDM PVM CodeSz Block) (\<lambda>d.
           case d of None \<Rightarrow> Inr True | Some _ \<Rightarrow> hasDynamicJump JDM PVM CodeSz rest))"

definition jumpDestBlocks :: "u8 list \<Rightarrow> nat list \<Rightarrow> nat \<Rightarrow> nat list" where
  "jumpDestBlocks JDM BlockAtPc NumBlocks =
     fold (\<lambda>pc ds.
       if JDM ! pc = 0 then ds
       else let BlockId = BlockAtPc ! pc in
         if BlockId = UINT32_MAX \<or> BlockId \<ge> NumBlocks then ds
         else if BlockId \<in> set ds then ds else ds @ [BlockId]) [0..<length JDM] []"

definition cfg_edges :: "u8 list \<Rightarrow> u256 list \<Rightarrow> nat \<Rightarrow> nat list \<Rightarrow> nat list \<Rightarrow> nat \<Rightarrow> GasBlock list \<Rightarrow> GasBlock list res" where
  "cfg_edges JDM PVM CodeSz BlockAtPc JumpDests BlockId Blocks =
     (let Block = Blocks ! BlockId;
          IsTerminator = isControlFlowTerminator (LastOpcode Block);
          id = u32_cast BlockId in
      bindE (if \<not> IsTerminator \<and> End Block < CodeSz
             then bindE (vec_at BlockAtPc (End Block)) (\<lambda>SuccId.
                  Inr (if SuccId \<noteq> UINT32_MAX then addEdge Blocks id SuccId else Blocks))
             else Inr Blocks) (\<lambda>Blocks.
      if isJumpOpcode (LastOpcode Block) then
        bindE (resolveConstantJumpTarget JDM PVM CodeSz (Blocks ! BlockId)) (\<lambda>d.
        case d of
          Some DestPc \<Rightarrow> bindE (vec_at BlockAtPc DestPc) (\<lambda>SuccId.
            Inr (if SuccId \<noteq> UINT32_MAX then addEdge Blocks id SuccId else Blocks))
        | None \<Rightarrow> Inr (fold (\<lambda>SuccId Blocks. addEdge Blocks id SuccId) JumpDests Blocks))
      else Inr Blocks))"

definition buildCfg :: "u8 list \<Rightarrow> u256 list \<Rightarrow> nat \<Rightarrow> nat list \<Rightarrow> GasBlock list \<Rightarrow> GasBlock list res" where
  "buildCfg JDM PVM CodeSz BlockAtPc Blocks =
     (let JumpDests = (if JDM \<noteq> [] then jumpDestBlocks JDM BlockAtPc (length Blocks) else [])
      in fold (\<lambda>BlockId r. bindE r (cfg_edges JDM PVM CodeSz BlockAtPc JumpDests BlockId)) [0..<length Blocks] (Inr Blocks))"

section \<open>Chunks\<close>

text \<open>The loops that write \<open>GasChunkEnd\<close> and \<open>GasChunkCost\<close>, for the blocks that \<open>keep\<close> selects.\<close>

definition writeChunks ::
  "(GasBlock \<Rightarrow> bool) \<Rightarrow> GasBlock list \<Rightarrow> nat list \<times> u64 list \<Rightarrow> (nat list \<times> u64 list) res" where
  "writeChunks keep Blocks out =
     fold (\<lambda>Block r. bindE r (\<lambda>(Ends, Costs).
       if keep Block then
         bindE (vec_put (Start Block) (End Block) Ends) (\<lambda>Ends.
         bindE (vec_put (Start Block) (Cost Block) Costs) (\<lambda>Costs. Inr (Ends, Costs)))
       else Inr (Ends, Costs))) Blocks (Inr out)"

definition buildGasChunksSPP ::
  "nat \<Rightarrow> (u8 \<Rightarrow> u64) \<Rightarrow> u8 list \<Rightarrow> u8 list \<Rightarrow> u256 list \<Rightarrow> nat list \<times> u64 list \<Rightarrow> (nat list \<times> u64 list) res option" where
  "buildGasChunksSPP n cost code JDM PVM out =
     (case buildGasBlocks n cost code of None \<Rightarrow> None | Some (Inl e) \<Rightarrow> Some (Inl e) | Some (Inr (Blocks, BlockAtPc)) \<Rightarrow>
      if Blocks = [] then Some (Inr out)
      else case hasDynamicJump JDM PVM (length code) Blocks of Inl e \<Rightarrow> Some (Inl e) | Inr dyn \<Rightarrow>
      if dyn then Some (writeChunks (\<lambda>B. Start B < length code) Blocks out)
      else case buildCfg JDM PVM (length code) BlockAtPc Blocks of Inl e \<Rightarrow> Some (Inl e) | Inr Blocks \<Rightarrow>
        let Blocks = fst (splitCriticalEdges Blocks (length code)) in
        case sppMetering Blocks of None \<Rightarrow> None
        | Some M \<Rightarrow> Some (writeChunks (\<lambda>B. Start B \<noteq> End B) Blocks out))"

definition buildBytecodeCache :: "nat \<Rightarrow> 'h ext \<Rightarrow> u8 list \<Rightarrow> evmc_revision \<Rightarrow> EVMBytecodeCache res option" where
  "buildBytecodeCache n E code rv =
     (case buildJumpDestMapAndPushCache E code 0 (replicate (length code) 0) (replicate (length code) 0) of
        Inl e \<Rightarrow> Some (Inl e)
      | Inr (JDM, PVM) \<Rightarrow>
          (case buildGasChunksSPP n (gas_cost E rv) code JDM PVM (replicate (length code) 0, replicate (length code) 0) of
             None \<Rightarrow> None
           | Some (Inl e) \<Rightarrow> Some (Inl e)
           | Some (Inr (Ends, Costs)) \<Rightarrow>
               Some (Inr \<lparr>JumpDestMap = JDM, PushValueMap = PVM, GasChunkEnd = Ends, GasChunkCost = Costs\<rparr>)))"

end
