(* ===== verification/Cache_Correct.thy ===== *)
theory Cache_Correct
  imports Bytecode_Cache
begin

text \<open>
  Correctness of \<open>buildBytecodeCache\<close>. The analyses behind \<open>buildGasChunksSPP\<close> change the edges of the
  blocks and append empty blocks, and the arrays it writes are those of the plain blocks; with the maps of
  \<open>Jump_Cache\<close> the result is a cache that satisfies \<open>cache_ok\<close>.
\<close>

section \<open>The graph\<close>

text \<open>Edges connect blocks of the graph, and \<open>Preds\<close> is the converse of \<open>Succs\<close>.\<close>

definition graph_ok :: "GasBlock list \<Rightarrow> bool" where
  "graph_ok Bs \<longleftrightarrow> (\<forall>i < length Bs. set (Succs (Bs ! i)) \<subseteq> {..<length Bs} \<and> set (Preds (Bs ! i)) \<subseteq> {..<length Bs}) \<and>
     (\<forall>i < length Bs. \<forall>j < length Bs. j \<in> set (Succs (Bs ! i)) \<longleftrightarrow> i \<in> set (Preds (Bs ! j)))"

lemma addEdge_length [simp]: "length (addEdge Bs f t) = length Bs"
  by (simp add: addEdge_def Let_def)

lemma addEdge_Succs:
  "i < length Bs \<Longrightarrow> set (Succs (addEdge Bs f t ! i)) =
     set (Succs (Bs ! i)) \<union> (if i = f \<and> t < length Bs then {t} else {})"
  by (cases "f < length Bs \<and> t < length Bs") (auto simp: addEdge_def Let_def nth_list_update)

lemma addEdge_Preds:
  "i < length Bs \<Longrightarrow> set (Preds (addEdge Bs f t ! i)) =
     set (Preds (Bs ! i)) \<union> (if i = t \<and> f < length Bs then {f} else {})"
  by (cases "f < length Bs \<and> t < length Bs") (auto simp: addEdge_def Let_def nth_list_update)

lemma addEdge_graph: "graph_ok Bs \<Longrightarrow> graph_ok (addEdge Bs f t)"
  by (auto simp: graph_ok_def addEdge_Succs addEdge_Preds split: if_splits)

definition dropEdge :: "GasBlock list \<Rightarrow> nat \<Rightarrow> nat \<Rightarrow> GasBlock list" where
  "dropEdge Bs f t =
     (let F = Bs ! f; Bs = Bs[f := F\<lparr>Succs := filter (\<lambda>x. x \<noteq> t) (Succs F)\<rparr>]; T = Bs ! t
      in Bs[t := T\<lparr>Preds := filter (\<lambda>x. x \<noteq> f) (Preds T)\<rparr>])"

lemma dropEdge_length [simp]: "length (dropEdge Bs f t) = length Bs"
  by (simp add: dropEdge_def Let_def)

lemma dropEdge_Succs:
  "i < length Bs \<Longrightarrow> set (Succs (dropEdge Bs f t ! i)) = set (Succs (Bs ! i)) - (if i = f then {t} else {})"
  by (cases "f < length Bs"; cases "t < length Bs") (auto simp: dropEdge_def Let_def nth_list_update)

lemma dropEdge_Preds:
  "i < length Bs \<Longrightarrow> set (Preds (dropEdge Bs f t ! i)) = set (Preds (Bs ! i)) - (if i = t then {f} else {})"
  by (cases "f < length Bs"; cases "t < length Bs") (auto simp: dropEdge_def Let_def nth_list_update)

lemma dropEdge_graph: "graph_ok Bs \<Longrightarrow> graph_ok (dropEdge Bs f t)"
  by (auto simp: graph_ok_def dropEdge_Succs dropEdge_Preds split: if_splits)

lemma append_graph: "graph_ok Bs \<Longrightarrow> Succs B = [] \<Longrightarrow> Preds B = [] \<Longrightarrow> graph_ok (Bs @ [B])"
  by (fastforce simp: graph_ok_def nth_append less_Suc_eq)

definition empty_block :: "nat \<Rightarrow> GasBlock" where
  "empty_block s = new_block\<lparr>Start := s, End := s, LastPc := s\<rparr>"

lemma splitEdge_eq:
  "splitEdge CodeSz (f, t) (Bs, ch) =
     (if End (Bs ! f) \<ge> CodeSz then (Bs, ch)
      else let id = u32_cast (length Bs) in
        (addEdge (addEdge (dropEdge Bs f t @ [empty_block (End (Bs ! f))]) f id) id t, True))"
  by (simp add: splitEdge_def dropEdge_def empty_block_def new_block_def Let_def)

lemma splitEdge_graph: "graph_ok Bs \<Longrightarrow> graph_ok (fst (splitEdge CodeSz e (Bs, ch)))"
  by (cases e) (simp add: splitEdge_eq Let_def addEdge_graph append_graph dropEdge_graph empty_block_def new_block_def)

lemma splitCriticalEdges_graph: 
  assumes "graph_ok Bs"
  shows "graph_ok (fst (splitCriticalEdges Bs CodeSz))"
proof -
  have "graph_ok (fst s) \<Longrightarrow> graph_ok (fst (fold (splitEdge CodeSz) es s))" for es s
    by (induction es arbitrary: s) (metis fold_simps(1), metis fold_simps(2) prod.collapse splitEdge_graph)
  then show ?thesis using assms by (simp add: splitCriticalEdges_def)
qed

section \<open>What the analyses keep\<close>

definition core :: "GasBlock \<Rightarrow> GasBlock" where
  "core B = B\<lparr>Succs := [], Preds := []\<rparr>"

lemma core_simps [simp]:
  "Start (core B) = Start B" "End (core B) = End B" "Cost (core B) = Cost B" "LastOpcode (core B) = LastOpcode B"
  "PrevOpcode (core B) = PrevOpcode B" "LastPc (core B) = LastPc B" "PrevPc (core B) = PrevPc B"
  "core (B\<lparr>Succs := xs\<rparr>) = core B" "core (B\<lparr>Preds := xs\<rparr>) = core B"
  by (simp_all add: core_def)

lemma map_core_update: "core B = core (Bs ! i) \<Longrightarrow> map core (Bs[i := B]) = map core Bs"
  by (cases "i < length Bs") (simp_all add: map_update list_update_same_conv list_update_beyond)

lemma addEdge_core [simp]: "map core (addEdge Bs f t) = map core Bs"
  by (simp add: addEdge_def Let_def map_core_update)

lemma dropEdge_core [simp]: "map core (dropEdge Bs f t) = map core Bs"
  by (simp add: dropEdge_def Let_def map_core_update)

text \<open>Splitting appends empty blocks.\<close>

definition only_appends :: "GasBlock list \<Rightarrow> GasBlock list \<Rightarrow> bool" where
  "only_appends Bs Bs' \<longleftrightarrow> (\<exists>Es. map core Bs' = map core Bs @ Es \<and> (\<forall>B \<in> set Es. Start B = End B))"

lemma splitEdge_appends: "only_appends Bs0 Bs \<Longrightarrow> only_appends Bs0 (fst (splitEdge CodeSz e (Bs, ch)))"
proof -
  assume "only_appends Bs0 Bs"
  then obtain Es where Es: "map core Bs = map core Bs0 @ Es" "\<forall>B \<in> set Es. Start B = End B"
    by (auto simp: only_appends_def)
  obtain f t where e: "e = (f, t)" by (cases e)
  have "\<exists>Es'. map core (fst (splitEdge CodeSz e (Bs, ch))) = map core Bs @ Es' \<and> (\<forall>B \<in> set Es'. Start B = End B)"
    unfolding e splitEdge_eq
    by (rule exI [of _ "if End (Bs ! f) \<ge> CodeSz then [] else [core (empty_block (End (Bs ! f)))]"])
      (simp add: Let_def empty_block_def)
  then obtain Es' where Es': "map core (fst (splitEdge CodeSz e (Bs, ch))) = map core Bs @ Es'" "\<forall>B \<in> set Es'. Start B = End B"
    by blast
  show ?thesis unfolding only_appends_def using Es Es' by (intro exI [of _ "Es @ Es'"]) auto
qed

lemma splitCriticalEdges_appends: "only_appends Bs (fst (splitCriticalEdges Bs CodeSz))"
proof -
  have "only_appends Bs (fst s) \<Longrightarrow> only_appends Bs (fst (fold (splitEdge CodeSz) es s))" for es s
    by (induction es arbitrary: s) (metis fold_simps(1), metis fold_simps(2) prod.collapse splitEdge_appends)
  moreover have "only_appends Bs Bs" by (simp add: only_appends_def)
  ultimately show ?thesis by (simp add: splitCriticalEdges_def)
qed

section \<open>The pushes before jumps\<close>

definition pcs_ok :: "u8 list \<Rightarrow> GasBlock \<Rightarrow> bool" where
  "pcs_ok code B \<longleftrightarrow> LastPc B < length code \<and> (PrevPc B = UINT32_MAX \<or> PrevPc B < length code)"

lemma scanBlock_pcs:
  assumes "length M = length code" and "length code < 2 ^ 32"
  shows "pcs_ok code B \<Longrightarrow> scanBlock cost code M s B = Inr (e, B') \<Longrightarrow> pcs_ok code B'"
proof (induction "length code - s" arbitrary: s B rule: less_induct)
  case less
  show ?case
  proof (cases "s < length code \<and> (s = Start B \<or> M ! s = 0)")
    case False
    then have "scanBlock cost code M s B = Inr (s, B)" using assms
      by (subst scanBlock.simps) (auto simp: vec_at_Inr)
    then show ?thesis using less.prems by simp
  next
    case True
    let ?B = "B\<lparr>LastPc := u32_cast s, PrevPc := LastPc B, LastOpcode := code ! s,
      PrevOpcode := LastOpcode B, Cost := Cost B + cost (code ! s)\<rparr>"
    have B: "pcs_ok code ?B" using True less.prems(1) assms(2) by (simp add: pcs_ok_def u32_cast_def)
    have "scanBlock cost code M s B = (if isGasChunkTerminator (code ! s) then Inr (next_instr code s, ?B)
        else scanBlock cost code M (next_instr code s) ?B)"
      using True assms by (subst scanBlock.simps) (auto simp: vec_at_Inr Let_def)
    then show ?thesis using B less.prems(2) less.hyps [of "next_instr code s" ?B] less_next [of s code] True
      by (auto split: if_splits)
  qed
qed

lemma collectBlocks_pcs:
  assumes "length M = length code" and "length code < 2 ^ 32"
  shows "collectBlocks n cost code M pc Bs A = Some (Inr (Bs', A')) \<Longrightarrow> \<forall>B \<in> set Bs. pcs_ok code B \<Longrightarrow> \<forall>B \<in> set Bs'. pcs_ok code B"
proof (induction n arbitrary: pc Bs A)
  case (Suc n)
  let ?B = "new_block\<lparr>Start := u32_cast pc\<rparr>"
  show ?case
  proof (cases "pc < length code \<and> M ! pc \<noteq> 0 \<and> u32_cast pc < length code")
    case True
    obtain r where r: "scanBlock cost code M pc ?B = r" by simp
    have "pcs_ok code ?B" using True by (auto simp: pcs_ok_def new_block_def)
    then have "pcs_ok code (B\<lparr>End := e'\<rparr>)" if "r = Inr (e, B)" for e B e'
      using scanBlock_pcs [OF assms, of ?B cost pc e B] r that by (simp add: pcs_ok_def)
    then show ?thesis using True Suc.prems Suc.IH assms(1) r
      by (fastforce simp: vec_at_Inr Let_def split: sum.splits prod.splits if_splits)
  next
    case False
    then show ?thesis using Suc.prems Suc.IH [of "pc + 1" Bs A] assms(1)
      by (auto simp: vec_at_Inr Let_def split: if_splits)
  qed
qed simp

lemma buildGasBlocks_pcs:
  assumes "length code < 2 ^ 32" and "buildGasBlocks n cost code = Some (Inr (Bs, A))"
  shows "\<forall>B \<in> set Bs. pcs_ok code B"
proof (cases "code = []")
  case False
  obtain M where M: "markBlockStarts code 0 ((replicate (length code) 0)[0 := 1]) = Inr M" "length M = length code"
    using markBlockStarts_eq [of "(replicate (length code) 0)[0 := 1]" code 0] by auto
  then show ?thesis using collectBlocks_pcs [OF M(2) assms(1), of n cost 0 "[]"] assms(2) False
    by (simp add: buildGasBlocks_def Let_def)
qed (use assms(2) in \<open>simp add: buildGasBlocks_def\<close>)

lemma resolve_ok:
  assumes "length JDM = length code" and "length PVM = length code" and "pcs_ok code B" and "length code < 2 ^ 32"
  shows "\<exists>d. resolveConstantJumpTarget JDM PVM (length code) B = Inr d \<and> (\<forall>x. d = Some x \<longrightarrow> x < length code)"
  using assms by (auto simp: resolveConstantJumpTarget_def pcs_ok_def vec_at_Inr Let_def u32_cast_def)

lemma hasDynamicJump_ok:
  assumes "length JDM = length code" and "length PVM = length code" and "length code < 2 ^ 32"
  shows "\<forall>B \<in> set Bs. pcs_ok code B \<Longrightarrow> \<exists>b. hasDynamicJump JDM PVM (length code) Bs = Inr b"
proof (induction Bs)
  case (Cons B Bs)
  obtain d where "resolveConstantJumpTarget JDM PVM (length code) B = Inr d"
    using resolve_ok [OF assms(1,2) _ assms(3), of B] Cons.prems by auto
  then show ?case using Cons by (cases d) auto
qed (simp, blast)

section \<open>Edges\<close>

lemma fold_bindE:
  assumes "\<And>x s. x \<in> set xs \<Longrightarrow> P s \<Longrightarrow> \<exists>s'. g x s = Inr s' \<and> P s'"
  shows "P s \<Longrightarrow> \<exists>s'. fold (\<lambda>x r. bindE r (g x)) xs (Inr s) = Inr s' \<and> P s'"
  using assms
proof (induction xs arbitrary: s)
  case (Cons x xs)
  obtain s' where "g x s = Inr s'" "P s'" using Cons.prems(2) [of x] Cons.prems(1) by auto
  then show ?case using Cons.IH Cons.prems(2) by simp
qed simp

definition same_blocks :: "GasBlock list \<Rightarrow> GasBlock list \<Rightarrow> bool" where
  "same_blocks Bs Bs' \<longleftrightarrow> map core Bs' = map core Bs \<and> graph_ok Bs'"

lemma same_blocks_add: "same_blocks Bs Bs' \<Longrightarrow> same_blocks Bs (addEdge Bs' f t)"
  by (simp add: same_blocks_def addEdge_graph)

lemma same_blocks_fold: "same_blocks Bs Bs' \<Longrightarrow> same_blocks Bs (fold (\<lambda>t Bs. addEdge Bs f t) ts Bs')"
  by (induction ts arbitrary: Bs') (simp_all add: same_blocks_add)

lemma same_blocks_pcs:
  assumes "same_blocks Bs Bs'" and "\<forall>B \<in> set Bs. pcs_ok code B" and "i < length Bs'"
  shows "pcs_ok code (Bs' ! i)"
proof -
  have "i < length Bs" using assms(1,3) unfolding same_blocks_def by (metis length_map)
  then have "core (Bs' ! i) = core (Bs ! i)" using assms(1,3) unfolding same_blocks_def by (metis nth_map)
  then have "pcs_ok code (core (Bs' ! i))" using assms(2) \<open>i < length Bs\<close> by (simp add: pcs_ok_def)
  then show ?thesis by (simp add: pcs_ok_def)
qed

lemma cfg_edges_ok:
  assumes "length JDM = length code" and "length PVM = length code" and "length code < 2 ^ 32"
    and "\<forall>B \<in> set Bs0. pcs_ok code B" and "length A = length code" and "same_blocks Bs0 Bs" and "i < length Bs0"
  shows "\<exists>Bs'. cfg_edges JDM PVM (length code) A Ds i Bs = Inr Bs' \<and> same_blocks Bs0 Bs'"
proof -
  have l: "length Bs' = length Bs0" if "same_blocks Bs0 Bs'" for Bs' using that unfolding same_blocks_def by (metis length_map)
  let ?r = "if \<not> isControlFlowTerminator (LastOpcode (Bs ! i)) \<and> End (Bs ! i) < length code
             then bindE (vec_at A (End (Bs ! i))) (\<lambda>SuccId.
                  Inr (if SuccId \<noteq> UINT32_MAX then addEdge Bs (u32_cast i) SuccId else Bs))
             else Inr Bs"
  have "\<exists>Bs1. ?r = Inr Bs1 \<and> same_blocks Bs0 Bs1" using assms(5,6) by (auto simp: vec_at_Inr same_blocks_add)
  then obtain Bs1 where r: "?r = Inr Bs1" and s: "same_blocks Bs0 Bs1" by blast
  have "pcs_ok code (Bs1 ! i)" by (rule same_blocks_pcs [OF s assms(4)]) (simp add: l [OF s] assms(7))
  then obtain d where d: "resolveConstantJumpTarget JDM PVM (length code) (Bs1 ! i) = Inr d" "\<forall>x. d = Some x \<longrightarrow> x < length code"
    using resolve_ok [OF assms(1,2) _ assms(3)] by blast
  have "cfg_edges JDM PVM (length code) A Ds i Bs =
      (if isJumpOpcode (LastOpcode (Bs ! i)) then case d of
          Some DestPc \<Rightarrow> bindE (vec_at A DestPc) (\<lambda>SuccId.
            Inr (if SuccId \<noteq> UINT32_MAX then addEdge Bs1 (u32_cast i) SuccId else Bs1))
        | None \<Rightarrow> Inr (fold (\<lambda>SuccId Blocks. addEdge Blocks (u32_cast i) SuccId) Ds Bs1) else Inr Bs1)"
    unfolding cfg_edges_def Let_def r by (simp add: d(1))
  then show ?thesis using d(2) s assms(5) same_blocks_add [OF s] same_blocks_fold [OF s]
    by (auto simp: vec_at_Inr split: option.splits)
qed

lemma buildCfg_ok:
  assumes "length JDM = length code" and "length PVM = length code" and "length code < 2 ^ 32"
    and "\<forall>B \<in> set Bs. pcs_ok code B" and "length A = length code" and "graph_ok Bs"
  shows "\<exists>Bs'. buildCfg JDM PVM (length code) A Bs = Inr Bs' \<and> same_blocks Bs Bs'"
  unfolding buildCfg_def Let_def
  by (rule fold_bindE) (use assms cfg_edges_ok in \<open>auto simp: same_blocks_def\<close>)

section \<open>The metering ends\<close>

lemma sppMetering_ends:
  assumes "Blocks \<noteq> []"
  shows "\<exists>M. sppMetering Blocks = Some M"
proof -
  obtain R where R: "computeReachable Blocks 0 = Some R" "length R = length Blocks"
    using computeReachable_exact [of 0 Blocks] assms by auto
  obtain Dom where D: "computeDominators Blocks R = Some Dom"
    using computeDominators_fixpoint [OF R(2), of "\<lambda>_. True"] by auto
  obtain O1 where O1: "computeReverseTopo Blocks (findBackEdgesUsingDominators Blocks Dom) = Some O1"
    using computeReverseTopo_ends by blast
  obtain C where C: "computeInCycle Blocks = Some C" using computeInCycle_ends by blast
  obtain L where L: "buildLoopsUsingDominance Blocks Dom R = Some L" using buildLoopsUsingDominance_ends by blast
  show ?thesis unfolding sppMetering_def R(1) option.case D Let_def O1 C L
    by (cases L) auto
qed

section \<open>The chunks\<close>

definition write_chunk :: "(GasBlock \<Rightarrow> bool) \<Rightarrow> GasBlock \<Rightarrow> nat list \<times> u64 list \<Rightarrow> (nat list \<times> u64 list) res" where
  "write_chunk keep B = (\<lambda>(Ends, Costs).
     if keep B then
       bindE (vec_put (Start B) (End B) Ends) (\<lambda>Ends.
       bindE (vec_put (Start B) (Cost B) Costs) (\<lambda>Costs. Inr (Ends, Costs)))
     else Inr (Ends, Costs))"

lemma writeChunks_fold: "writeChunks keep Bs out = fold (\<lambda>B r. bindE r (write_chunk keep B)) Bs (Inr out)"
  by (simp add: writeChunks_def write_chunk_def)

lemma write_core:
  assumes "\<And>B. keep (core B) = keep B"
  shows "fold (\<lambda>B r. bindE r (write_chunk keep B)) (map core Bs) r = fold (\<lambda>B r. bindE r (write_chunk keep B)) Bs r"
proof -
  have "write_chunk keep (core B) = write_chunk keep B" for B by (simp add: write_chunk_def assms fun_eq_iff)
  then show ?thesis by (simp add: fold_map comp_def)
qed

lemma write_skip: "\<forall>B \<in> set Bs. \<not> keep B \<Longrightarrow> fold (\<lambda>B r. bindE r (write_chunk keep B)) Bs r = r"
proof (induction Bs arbitrary: r)
  case (Cons B Bs)
  then show ?case by (cases r) (auto simp: write_chunk_def split: prod.splits)
qed simp

lemma write_keep:
  "\<forall>B \<in> set Bs. keep B = keep' B \<Longrightarrow>
   fold (\<lambda>B r. bindE r (write_chunk keep B)) Bs r = fold (\<lambda>B r. bindE r (write_chunk keep' B)) Bs r"
  by (rule fold_cong) (auto simp: write_chunk_def fun_eq_iff)

text \<open>Empty blocks are skipped: the arrays are those of the blocks before the edges were split.\<close>

lemma write_appends:
  assumes "only_appends Bs Bs'" and "\<forall>B \<in> set Bs. Start B < End B"
  shows "writeChunks (\<lambda>B. Start B \<noteq> End B) Bs' out = writeChunks (\<lambda>_. True) Bs out"
proof -
  let ?k = "\<lambda>B. Start B \<noteq> End B" and ?f = "\<lambda>k B r. bindE r (write_chunk k B)"
  obtain Es where Es: "map core Bs' = map core Bs @ Es" "\<forall>B \<in> set Es. Start B = End B"
    using assms(1) by (auto simp: only_appends_def)
  have "writeChunks ?k Bs' out = fold (?f ?k) (map core Bs') (Inr out)"
    unfolding writeChunks_fold by (rule write_core [symmetric]) simp
  also have "\<dots> = fold (?f ?k) (map core Bs) (Inr out)"
    using write_skip [of Es ?k "fold (?f ?k) (map core Bs) (Inr out)"] Es by simp
  also have "\<dots> = fold (?f ?k) Bs (Inr out)" by (rule write_core) simp
  also have "\<dots> = fold (?f (\<lambda>_. True)) Bs (Inr out)" by (rule write_keep) (use assms(2) in auto)
  finally show ?thesis by (simp add: writeChunks_fold)
qed

lemma write_ok:
  assumes "\<forall>B \<in> set Bs. Start B < k \<and> P (Start B) (End B) (Cost B)"
    and "length Ends = k" and "length Costs = k" and "\<forall>s < k. P s (Ends ! s) (Costs ! s)"
  shows "\<exists>Ends' Costs'. writeChunks (\<lambda>_. True) Bs (Ends, Costs) = Inr (Ends', Costs') \<and>
    length Ends' = k \<and> length Costs' = k \<and> (\<forall>s < k. P s (Ends' ! s) (Costs' ! s))"
proof -
  let ?P = "\<lambda>(Ends, Costs). length Ends = k \<and> length Costs = k \<and> (\<forall>s < k. P s (Ends ! s) (Costs ! s))"
  have "\<exists>out. fold (\<lambda>B r. bindE r (write_chunk (\<lambda>_. True) B)) Bs (Inr (Ends, Costs)) = Inr out \<and> ?P out"
    by (rule fold_bindE) (use assms in \<open>auto simp: write_chunk_def vec_put_Inr nth_list_update\<close>)
  then show ?thesis by (auto simp: writeChunks_fold)
qed

section \<open>Plain metering\<close>

text \<open>
  The chunks of the plain blocks. Whether the code has dynamic jumps or not, \<open>buildGasChunksSPP\<close>
  writes these: the metering it computes by shifting costs is not used.
\<close>

definition plainChunks :: "nat \<Rightarrow> (u8 \<Rightarrow> u64) \<Rightarrow> u8 list \<Rightarrow> nat list \<times> u64 list \<Rightarrow> (nat list \<times> u64 list) res option" where
  "plainChunks n cost code out =
     (case buildGasBlocks n cost code of None \<Rightarrow> None | Some (Inl e) \<Rightarrow> Some (Inl e)
      | Some (Inr (Blocks, BlockAtPc)) \<Rightarrow> Some (writeChunks (\<lambda>_. True) Blocks out))"

lemma core_Nil: "only_appends Bs Bs' \<Longrightarrow> Bs \<noteq> [] \<Longrightarrow> Bs' \<noteq> []"
  by (auto simp: only_appends_def)

lemma buildGasChunksSPP_plain:
  assumes "length code + 33 < 2 ^ 32" and "length code < n" and "length JDM = length code" and "length PVM = length code"
  shows "buildGasChunksSPP n cost code JDM PVM out = plainChunks n cost code out"
proof (cases "code = []")
  case True
  then show ?thesis by (simp add: buildGasChunksSPP_def plainChunks_def buildGasBlocks_def writeChunks_def)
next
  case False
  obtain Bs A where b: "buildGasBlocks n cost code = Some (Inr (Bs, A))"
    and ok: "\<forall>B \<in> set Bs. block_ok cost code B \<and> Succs B = [] \<and> Preds B = []" and ix: "index_ok code Bs A"
    using buildGasBlocks_ok [OF assms(1) False assms(2)] by blast
  have len: "length code < 2 ^ 32" using assms(1) by simp
  note pcs = buildGasBlocks_pcs [OF len b]
  obtain dyn where dyn: "hasDynamicJump JDM PVM (length code) Bs = Inr dyn"
    using hasDynamicJump_ok [OF assms(3,4) len pcs] by blast
  have A: "length A = length code" using ix by (simp add: index_ok_def)
  have g: "graph_ok Bs" using ok nth_mem [of _ Bs] by (auto simp: graph_ok_def)
  obtain Bs1 where c: "buildCfg JDM PVM (length code) A Bs = Inr Bs1" and s: "same_blocks Bs Bs1"
    using buildCfg_ok [OF assms(3,4) len pcs A g] by blast
  let ?Bs2 = "fst (splitCriticalEdges Bs1 (length code))"
  have ap: "only_appends Bs ?Bs2"
    using splitCriticalEdges_appends [of Bs1 "length code"] s by (simp add: only_appends_def same_blocks_def)
  have w1: "writeChunks (\<lambda>B. Start B < length code) Bs out = writeChunks (\<lambda>_. True) Bs out"
    unfolding writeChunks_fold by (rule write_keep) (use ok in \<open>auto simp: block_ok_def\<close>)
  have w2: "writeChunks (\<lambda>B. Start B \<noteq> End B) ?Bs2 out = writeChunks (\<lambda>_. True) Bs out"
    by (rule write_appends [OF ap]) (use ok in \<open>auto simp: block_ok_def\<close>)
  show ?thesis
  proof (cases "Bs = []")
    case True
    then show ?thesis using b by (simp add: buildGasChunksSPP_def plainChunks_def writeChunks_def)
  next
    case ne: False
    then obtain M where "sppMetering ?Bs2 = Some M" using sppMetering_ends [OF core_Nil [OF ap]] by blast
    then show ?thesis using ne w1 w2 by (simp add: buildGasChunksSPP_def plainChunks_def b dyn c Let_def)
  qed
qed

section \<open>The cache\<close>

theorem buildBytecodeCache_ok:
  assumes "intx_ok E" and "length code + 33 < 2 ^ 32" and "length code < n"
  shows "\<exists>K. buildBytecodeCache n E code rv = Some (Inr K) \<and> cache_ok (gas_cost E rv) code K"
proof -
  let ?z = "\<lambda>x. replicate (length code) x"
  obtain J P where m: "buildJumpDestMapAndPushCache E code 0 (?z 0) (?z 0) = Inr (J, P)"
    and mo: "maps_ok code 0 (?z 0) (?z 0) J P"
    using build_maps [OF assms(1), of "?z 0" code "?z 0" 0] by auto
  have l: "length J = length code" "length P = length code" using mo by (auto simp: maps_ok_def)
  let ?Q = "\<lambda>s e c. s < e \<longrightarrow> chunk_ok (gas_cost E rv) code s e c"
  have "\<exists>Es Cs. plainChunks n (gas_cost E rv) code (?z 0, ?z 0) = Some (Inr (Es, Cs)) \<and>
      length Es = length code \<and> length Cs = length code \<and> (\<forall>s < length code. ?Q s (Es ! s) (Cs ! s))"
  proof (cases "code = []")
    case True
    then show ?thesis by (simp add: plainChunks_def buildGasBlocks_def writeChunks_def)
  next
    case False
    then obtain Bs A where b: "buildGasBlocks n (gas_cost E rv) code = Some (Inr (Bs, A))"
      and ok: "\<forall>B \<in> set Bs. block_ok (gas_cost E rv) code B \<and> Succs B = [] \<and> Preds B = []"
      using buildGasBlocks_ok [OF assms(2) False assms(3)] by blast
    show ?thesis using write_ok [of Bs "length code" ?Q "?z 0" "?z 0"] ok
      by (auto simp: plainChunks_def b block_ok_def)
  qed
  then obtain Es Cs where g: "buildGasChunksSPP n (gas_cost E rv) code J P (?z 0, ?z 0) = Some (Inr (Es, Cs))"
    and Q: "length Es = length code" "length Cs = length code" "\<forall>s < length code. ?Q s (Es ! s) (Cs ! s)"
    using buildGasChunksSPP_plain [OF assms(2,3) l] by metis
  have "dests_ok code \<lparr>JumpDestMap = J, PushValueMap = P, GasChunkEnd = Es, GasChunkCost = Cs\<rparr>"
    using mo by (auto simp: dests_ok_def maps_ok_def boundaries_def)
  moreover have "pushes_ok code \<lparr>JumpDestMap = J, PushValueMap = P, GasChunkEnd = Es, GasChunkCost = Cs\<rparr>"
    using mo instrs_range by (fastforce simp: pushes_ok_def maps_ok_def boundaries_def)
  ultimately show ?thesis using Q by (simp add: buildBytecodeCache_def m g cache_ok_def chunks_ok_def)
qed

section \<open>The interface\<close>

text \<open>What the interpreter relies on of the code that builds caches.\<close>

locale cache_provider =
  fixes build :: "nat \<Rightarrow> 'h ext \<Rightarrow> u8 list \<Rightarrow> evmc_revision \<Rightarrow> EVMBytecodeCache res option"
  assumes build_returns: "intx_ok E \<Longrightarrow> length code + 33 < 2 ^ 32 \<Longrightarrow> length code < n \<Longrightarrow>
      \<exists>K. build n E code rv = Some (Inr K) \<and> cache_ok (gas_cost E rv) code K"

interpretation evm_cache: cache_provider buildBytecodeCache
  by unfold_locales (rule buildBytecodeCache_ok)

end
