(* ===== verification/Interpreter.thy ===== *)
theory Interpreter
  imports Interp_Run Cache_Correct
begin

text \<open>
  \<open>BaseInterpreter::interpret\<close> (\<open>src/evm/interpreter.cpp\<close>) as a whole, on the cache that
  \<open>EVMModule::getBytecodeCache\<close> (\<open>src/runtime/evm_module.cpp\<close>) builds on first use.
\<close>

section \<open>The cache of a module\<close>

definition initBytecodeCache :: "nat \<Rightarrow> 'h ext \<Rightarrow> EVMModule \<Rightarrow> EVMModule res option" where
  "initBytecodeCache n E M =
     (case buildBytecodeCache n E (Code M) (Revision M) of
        None \<Rightarrow> None | Some (Inl e) \<Rightarrow> Some (Inl e) | Some (Inr K) \<Rightarrow> Some (Inr (M\<lparr>BytecodeCache := K\<rparr>)))"

definition getBytecodeCache :: "nat \<Rightarrow> 'h ext \<Rightarrow> EVMModule \<Rightarrow> (EVMBytecodeCache \<times> EVMModule) res option" where
  "getBytecodeCache n E M =
     (if \<not> BytecodeCacheInitialized M then
        (case initBytecodeCache n E M of
           None \<Rightarrow> None | Some (Inl e) \<Rightarrow> Some (Inl e)
         | Some (Inr M) \<Rightarrow> Some (Inr (BytecodeCache M, M\<lparr>BytecodeCacheInitialized := True\<rparr>)))
      else Some (Inr (BytecodeCache M, M)))"

section \<open>The interpreter\<close>

text \<open>The locals and globals that are set before the loop. The result has the index of the frame.\<close>

definition interpret_setup :: "'h ext \<Rightarrow> nat \<Rightarrow> 'h ctx \<Rightarrow> (nat \<times> interp_env \<times> 'h ctx) res option" where
  "interpret_setup E n C =
     (case getCurFrame C of
        None \<Rightarrow> Some (Inl (Throw EVMFrameNotFound))
      | Some i \<Rightarrow>
          let C = setExecutionContext (Some i) (setStatus EVMC_SUCCESS C);
              Revision = Rev (Inst C);
              C = C\<lparr>CurrentMetricsTable := Some Revision\<rparr> in
          (case getBytecodeCache n E (Mod (Inst C)) of
             None \<Rightarrow> None
           | Some (Inl e) \<Rightarrow> Some (Inl e)
           | Some (Inr (Cache, M)) \<Rightarrow>
               let C = C\<lparr>Inst := (Inst C)\<lparr>Mod := M\<rparr>\<rparr> in
               if i < length (FrameStack C) then
                 Some (Inr (i, \<lparr>ICode = Code M, ICache = Cache, IRev = Revision\<rparr>,
                   if HostSet (FrameStack C ! i) then C
                   else put_frame i ((FrameStack C ! i)\<lparr>HostSet := True\<rparr>) C))
               else Some (Inl UB)))"

text \<open>The loop does not end with \<open>Continue\<close>.\<close>

definition base_interpret :: "bool \<Rightarrow> 'h ext \<Rightarrow> nat \<Rightarrow> 'h ctx \<Rightarrow> 'h ctx res option" where
  "base_interpret gnu E n C =
     (case interpret_setup E n C of
        None \<Rightarrow> None
      | Some (Inl e) \<Rightarrow> Some (Inl e)
      | Some (Inr (i, N, C)) \<Rightarrow>
          (case interp_loop gnu E N n i C of
             None \<Rightarrow> None
           | Some (Inl e) \<Rightarrow> Some (Inl e)
           | Some (Inr (Continue j C)) \<Rightarrow> None
           | Some (Inr (Return C)) \<Rightarrow> Some (Inr C)
           | Some (Inr (Break C)) \<Rightarrow> Some (implicit_stop C)))"

section \<open>Modules\<close>

text \<open>A cache that has been built describes the code under the revision of the module.\<close>

definition module_ok :: "'h ext \<Rightarrow> EVMModule \<Rightarrow> bool" where
  "module_ok E M \<longleftrightarrow> length (Code M) + 33 < 2 ^ 32 \<and>
     (BytecodeCacheInitialized M \<longrightarrow> cache_ok (gas_cost E (Revision M)) (Code M) (BytecodeCache M))"

context cache_provider
begin

lemma fresh_module:
  assumes "intx_ok E" and "module_ok E M" and "length (Code M) < n"
  obtains K where "build n E (Code M) (Revision M) = Some (Inr K)"
    "module_ok E (M\<lparr>BytecodeCache := K, BytecodeCacheInitialized := True\<rparr>)"
  using build_returns [OF assms(1) _ assms(3), of "Revision M"] assms(2) by (auto simp: module_ok_def)

end

lemma getBytecodeCache_ok:
  assumes "intx_ok E" and "module_ok E M" and "length (Code M) < n"
  shows "\<exists>K M'. getBytecodeCache n E M = Some (Inr (K, M')) \<and>
    module_ok E M' \<and> BytecodeCacheInitialized M' \<and> BytecodeCache M' = K \<and> Code M' = Code M \<and> Revision M' = Revision M"
proof (cases "BytecodeCacheInitialized M")
  case True
  then show ?thesis using assms(2) by (simp add: getBytecodeCache_def)
next
  case False
  obtain K where "buildBytecodeCache n E (Code M) (Revision M) = Some (Inr K)"
    "module_ok E (M\<lparr>BytecodeCache := K, BytecodeCacheInitialized := True\<rparr>)"
    by (rule evm_cache.fresh_module [OF assms])
  then show ?thesis using False by (simp add: getBytecodeCache_def initBytecodeCache_def)
qed

section \<open>A run of the interpreter\<close>

text \<open>A context in which a call starts: one frame, and a module whose cache, if it has one, is right.\<close>

definition start_ok :: "'h ext \<Rightarrow> 'h ctx \<Rightarrow> bool" where
  "start_ok E C \<longleftrightarrow> FrameCount C = 1 \<and> FrameStack C \<noteq> [] \<and> frame_ok ((cur C)\<lparr>HostSet := True\<rparr>) \<and>
     length (ReturnData C) < 2 ^ 64 \<and> module_ok E (Mod (Inst C))"

text \<open>
  The cache has the prices of \<open>Revision (Mod I)\<close>, the instructions those of \<open>Rev I\<close>. Nothing in the runtime makes them
  equal; where they differ, a chunk with a jump can be free of charge and the loop need not end.
\<close>

definition same_revision :: "EVMInstance \<Rightarrow> bool" where
  "same_revision I \<longleftrightarrow> Revision (Mod I) = Rev I"

definition interpret_fuel :: "'h ctx \<Rightarrow> nat" where
  "interpret_fuel C = loop_fuel \<lparr>ICode = Code (Mod (Inst C)), ICache = empty_cache, IRev = Rev (Inst C)\<rparr> C"

definition interpreted :: "'h ext \<Rightarrow> 'h ctx \<Rightarrow> 'h ctx \<Rightarrow> bool" where
  "interpreted E C C' \<longleftrightarrow> FrameCount C' = 0 \<and>
     Gas (Inst C') = r_gas_left (ExeResult C') \<and> r_gas_left (ExeResult C') \<le> gas_of (cur C) \<and>
     length (r_output (ExeResult C')) \<le> 16777216 \<and>
     (r_status (ExeResult C') \<noteq> EVMC_SUCCESS \<longrightarrow> r_gas_refund (ExeResult C') = GasRefundSnapshot (cur C)) \<and>
     (r_status (ExeResult C') \<notin> {EVMC_SUCCESS, EVMC_REVERT} \<longrightarrow>
        r_gas_left (ExeResult C') = 0 \<and> r_output (ExeResult C') = []) \<and>
     module_ok E (Mod (Inst C')) \<and> Code (Mod (Inst C')) = Code (Mod (Inst C)) \<and>
     Revision (Mod (Inst C')) = Revision (Mod (Inst C)) \<and> BytecodeCacheInitialized (Mod (Inst C')) \<and>
     (Inst C')\<lparr>Gas := 0, GasRefund := 0, Mod := Mod (Inst C)\<rparr> = (Inst C)\<lparr>Gas := 0, GasRefund := 0\<rparr>"


lemma setup_ok:
  assumes "ext_ok E" and "start_ok E C" and "length (Code (Mod (Inst C))) < n"
  shows "\<exists>K M D. interpret_setup E n C = Some (Inr (0, \<lparr>ICode = Code (Mod (Inst C)), ICache = K, IRev = Rev (Inst C)\<rparr>, D)) \<and>
    run_env_ok E \<lparr>ICode = Code (Mod (Inst C)), ICache = K, IRev = Rev (Inst C)\<rparr> \<and>
    (same_revision (Inst C) \<longrightarrow> priced E \<lparr>ICode = Code (Mod (Inst C)), ICache = K, IRev = Rev (Inst C)\<rparr>) \<and> running D \<and>
    Inst D = (Inst C)\<lparr>Mod := M\<rparr> \<and> module_ok E M \<and> BytecodeCacheInitialized M \<and> Code M = Code (Mod (Inst C)) \<and>
    Revision M = Revision (Mod (Inst C)) \<and> cur D = (cur C)\<lparr>HostSet := True\<rparr>"
proof -
  have ix: "intx_ok E" using assms(1) by (simp add: ext_ok_def)
  have m: "module_ok E (Mod (Inst C))" and st: "FrameCount C = 1" "FrameStack C \<noteq> []" "frame_ok ((cur C)\<lparr>HostSet := True\<rparr>)"
    "length (ReturnData C) < 2 ^ 64"
    using assms(2) by (simp_all add: start_ok_def)
  obtain K M where g: "getBytecodeCache n E (Mod (Inst C)) = Some (Inr (K, M))"
    and M: "module_ok E M" "BytecodeCacheInitialized M" "BytecodeCache M = K" "Code M = Code (Mod (Inst C))" "Revision M = Revision (Mod (Inst C))"
    using getBytecodeCache_ok [OF ix m assms(3)] by blast
  let ?C = "C\<lparr>Status := EVMC_SUCCESS, CurrentFrame := Some 0, CurrentMetricsTable := Some (Rev (Inst C)), Inst := (Inst C)\<lparr>Mod := M\<rparr>\<rparr>"
  let ?D = "if HostSet (cur C) then ?C else put_frame 0 ((cur C)\<lparr>HostSet := True\<rparr>) ?C"
  have s: "interpret_setup E n C = Some (Inr (0, \<lparr>ICode = Code (Mod (Inst C)), ICache = K, IRev = Rev (Inst C)\<rparr>, ?D))"
    using st g M(4) by (simp add: interpret_setup_def getCurFrame_def setExecutionContext_def Let_def)
  have cur: "cur ?D = (cur C)\<lparr>HostSet := True\<rparr>" using st(2) by (simp add: put_frame_def)
  have "frame_ok (cur ?D)" unfolding cur by (rule st(3))
  then have "running ?D" using st(1,2,4) by (auto simp: running_def single_frame_def res_ok_def getCurFrame_def put_frame_def)
  moreover have "run_env_ok E \<lparr>ICode = Code (Mod (Inst C)), ICache = K, IRev = Rev (Inst C)\<rparr>"
    "same_revision (Inst C) \<longrightarrow> priced E \<lparr>ICode = Code (Mod (Inst C)), ICache = K, IRev = Rev (Inst C)\<rparr>"
    using M m by (auto simp: run_env_ok_def priced_def module_ok_def same_revision_def)
  moreover have "Inst ?D = (Inst C)\<lparr>Mod := M\<rparr>" by (simp add: put_frame_def)
  ultimately show ?thesis using s M cur by blast
qed


lemma implicit_stop_ok:
  assumes "run_step C D" and "running D"
  shows "\<exists>D'. implicit_stop D = Inr D' \<and> final C D'"
proof -
  have D: "FrameCount D = 1" "0 < length (FrameStack D)" "Status D = EVMC_SUCCESS"
    using assms(2) by (auto simp: running_def single_frame_def)
  have "gas_of (cur D) \<le> gas_of (cur C)" using assms(1) by (simp add: run_step_def)
  then show ?thesis using D run_step_inst [OF assms(1)]
    by (simp add: implicit_stop_def freeBackFrame_def clearReturnData_def clearReturnDataBuffer_def getCurFrame_def
        exe_result_def evmc_Result_def setGas_def final_def)
qed

lemma final_interpreted:
  assumes "final D0 D" and "Inst D0 = (Inst C)\<lparr>Mod := M\<rparr>" and "module_ok E M" and "BytecodeCacheInitialized M"
    and "Code M = Code (Mod (Inst C))" and "Revision M = Revision (Mod (Inst C))" and "cur D0 = (cur C)\<lparr>HostSet := True\<rparr>"
  shows "interpreted E C D"
proof -
  have i: "(Inst D)\<lparr>Gas := 0, GasRefund := 0\<rparr> = (Inst C)\<lparr>Mod := M, Gas := 0, GasRefund := 0\<rparr>"
    using assms(1,2) by (simp add: final_def)
  then have "Mod ((Inst D)\<lparr>Gas := 0, GasRefund := 0\<rparr>) = M" by simp
  then have m: "Mod (Inst D) = M" by simp
  have "((Inst D)\<lparr>Gas := 0, GasRefund := 0\<rparr>)\<lparr>Mod := Mod (Inst C)\<rparr> = (Inst C)\<lparr>Gas := 0, GasRefund := 0\<rparr>"
    unfolding i by (cases "Inst C") simp
  then have "(Inst D)\<lparr>Gas := 0, GasRefund := 0, Mod := Mod (Inst C)\<rparr> = (Inst C)\<lparr>Gas := 0, GasRefund := 0\<rparr>" by simp
  then show ?thesis using assms m by (simp add: interpreted_def final_def)
qed

lemma loop_end_interpreted:
  assumes "loop_end N D0 r" and "\<And>D. final D0 D \<Longrightarrow> interpreted E C D"
  obtains D where "r = Return D" "interpreted E C D"
  | B D where "r = Break B" "implicit_stop B = Inr D" "interpreted E C D"
proof (cases r)
  case (Break B)
  then have "run_step D0 B" "running B" using assms(1) by (simp_all add: loop_end_def)
  then obtain D where "implicit_stop B = Inr D" "final D0 D" using implicit_stop_ok by blast
  then show thesis using that(2) Break assms(2) by blast
next
  case (Return D)
  then show thesis using that(1) assms by (simp add: loop_end_def)
qed (use assms(1) in \<open>simp add: loop_end_def\<close>)

text \<open>A run that ends is right, whatever the revisions.\<close>

lemma interpret_safe:
  assumes "ext_ok E" and "start_ok E C" and "length (Code (Mod (Inst C))) < n" and "base_interpret gnu E n C = Some x"
  shows "\<exists>D. x = Inr D \<and> interpreted E C D"
proof -
  from setup_ok [OF assms(1-3)] obtain K M D0 where
    s: "interpret_setup E n C = Some (Inr (0, \<lparr>ICode = Code (Mod (Inst C)), ICache = K, IRev = Rev (Inst C)\<rparr>, D0))"
    and env: "run_env_ok E \<lparr>ICode = Code (Mod (Inst C)), ICache = K, IRev = Rev (Inst C)\<rparr>"
    and D0: "running D0" "Inst D0 = (Inst C)\<lparr>Mod := M\<rparr>" "module_ok E M" "BytecodeCacheInitialized M"
      "Code M = Code (Mod (Inst C))" "Revision M = Revision (Mod (Inst C))" "cur D0 = (cur C)\<lparr>HostSet := True\<rparr>"
    by blast
  let ?N = "\<lparr>ICode = Code (Mod (Inst C)), ICache = K, IRev = Rev (Inst C)\<rparr>"
  have fin: "interpreted E C D" if "final D0 D" for D by (rule final_interpreted [OF that D0(2-7)])
  obtain y where y: "interp_loop gnu E ?N n 0 D0 = Some y"
    using assms(4) s by (cases "interp_loop gnu E ?N n 0 D0") (simp_all add: base_interpret_def)
  then obtain r where r: "y = Inr r" "loop_end ?N D0 r" using interp_loop_safe [OF assms(1) env D0(1)] by blast
  show ?thesis
  proof (rule loop_end_interpreted [OF r(2) fin])
    fix D assume "r = Return D" "interpreted E C D"
    then show ?thesis using assms(4) s y r(1) by (intro exI [of _ D]) (simp add: base_interpret_def)
  next
    fix B D assume "r = Break B" "implicit_stop B = Inr D" "interpreted E C D"
    then show ?thesis using assms(4) s y r(1) by (intro exI [of _ D]) (simp add: base_interpret_def)
  qed
qed

lemma interpret_rel:
  assumes "ext_ok E" and "start_ok E C" and "same_revision (Inst C)" and "interpret_fuel C \<le> n"
  shows "\<exists>D D'. base_interpret True E n C = Some (Inr D) \<and> base_interpret False E n C = Some (Inr D') \<and>
    same_ctx D D' \<and> interpreted E C D"
proof -
  have "length (Code (Mod (Inst C))) < n" using assms(4) by (simp add: interpret_fuel_def loop_fuel_def)
  from setup_ok [OF assms(1,2) this] obtain K M D0 where
    s: "interpret_setup E n C = Some (Inr (0, \<lparr>ICode = Code (Mod (Inst C)), ICache = K, IRev = Rev (Inst C)\<rparr>, D0))"
    and env: "run_env_ok E \<lparr>ICode = Code (Mod (Inst C)), ICache = K, IRev = Rev (Inst C)\<rparr>"
      "priced E \<lparr>ICode = Code (Mod (Inst C)), ICache = K, IRev = Rev (Inst C)\<rparr>"
    and D0: "running D0" "Inst D0 = (Inst C)\<lparr>Mod := M\<rparr>" "module_ok E M" "BytecodeCacheInitialized M"
      "Code M = Code (Mod (Inst C))" "Revision M = Revision (Mod (Inst C))" "cur D0 = (cur C)\<lparr>HostSet := True\<rparr>"
    using assms(3) by blast
  let ?N = "\<lparr>ICode = Code (Mod (Inst C)), ICache = K, IRev = Rev (Inst C)\<rparr>"
  have "loop_fuel ?N D0 \<le> n" using assms(4) D0(7) by (simp add: interpret_fuel_def loop_fuel_def loop_measure_def)
  from interp_loop_rel [OF assms(1) env D0(1) this this] obtain r r' where
    r: "interp_loop True E ?N n 0 D0 = Some (Inr r)" "interp_loop False E ?N n 0 D0 = Some (Inr r')"
    and rel: "flow_rel r r'" "loop_end ?N D0 r" by blast
  have fin: "interpreted E C D" if "final D0 D" for D by (rule final_interpreted [OF that D0(2-7)])
  show ?thesis
  proof (rule loop_end_interpreted [OF rel(2) fin])
    fix B D assume "r = Break B" "implicit_stop B = Inr D" "interpreted E C D"
    moreover from this have "r' = Break B" using rel(1) by (cases r') simp_all
    ultimately show ?thesis using s r by (simp add: base_interpret_def same_ctx_def)
  next
    fix D assume "r = Return D" "interpreted E C D"
    moreover from this obtain D' where "r' = Return D'" "same_ctx D D'" using rel(1) by (cases r') simp_all
    ultimately show ?thesis using s r by (simp add: base_interpret_def)
  qed
qed

end
