(* ===== verification/Evm_Call.thy ===== *)
theory Evm_Call
  imports Interpreter
begin

text \<open>
  The entry points of the runtime for a call in interpreter mode (\<open>src/runtime/runtime.cpp\<close>):
  \<open>callEVMInInterpMode\<close> with its thread-local context, and \<open>callEVMMainOnPhysStack\<close>, to which \<open>callEVMMain\<close> comes
  down in this mode.
\<close>

section \<open>Contexts\<close>

text \<open>The constructor of \<open>InterpreterExecContext\<close>. The globals of \<open>EVMResource\<close> are set before they are used.\<close>

definition new_ctx :: "EVMInstance \<Rightarrow> 'h \<Rightarrow> 'h ctx" where
  "new_ctx I h = \<lparr>Inst = I, FrameStack = [], FrameCount = 0, Status = EVMC_SUCCESS, ReturnData = [],
     ExeResult = evmc_Result EVMC_INTERNAL_ERROR 0 0 [], IsJump = False, CurrentFrame = None, CurrentMetricsTable = None,
     HostState = h\<rparr>"

text \<open>\<open>Ctx.allocTopFrame(&Msg); Interpreter.interpret();\<close>\<close>

definition run_in_ctx :: "bool \<Rightarrow> 'h ext \<Rightarrow> nat \<Rightarrow> evmc_message \<Rightarrow> 'h ctx \<Rightarrow> 'h ctx res option" where
  "run_in_ctx gnu E n M C =
     (case allocTopFrame M C of Inl e \<Rightarrow> Some (Inl e) | Inr C \<Rightarrow> base_interpret gnu E n C)"

text \<open>
  A context that is taken again, or a new one. The state of the host is no part of the object: a context gets it
  when it is used.
\<close>

definition take_ctx :: "EVMInstance \<Rightarrow> 'h \<Rightarrow> 'h ctx option \<Rightarrow> 'h ctx" where
  "take_ctx I h slot =
     (case slot of None \<Rightarrow> new_ctx I h | Some C \<Rightarrow> (ctx_resetForNewCall I C)\<lparr>HostState := h\<rparr>)"

section \<open>The runtime\<close>

record 'h thread_state =
  TLCtx :: "'h ctx option"
  TLCtxInUse :: bool

text \<open>The result is the \<open>Result\<close>, the instance, the thread-local state and the state of the host afterwards.\<close>

type_synonym 'h call_out = "(evmc_result \<times> EVMInstance \<times> 'h thread_state \<times> 'h) res option"

definition callEVMInInterpMode ::
  "bool \<Rightarrow> 'h ext \<Rightarrow> nat \<Rightarrow> EVMInstance \<Rightarrow> evmc_message \<Rightarrow> 'h thread_state \<Rightarrow> 'h \<Rightarrow> 'h call_out" where
  "callEVMInInterpMode gnu E n I M T h =
     (if \<not> TLCtxInUse T then
        (case run_in_ctx gnu E n M (take_ctx I h (TLCtx T)) of
           None \<Rightarrow> None
         | Some (Inl e) \<Rightarrow> Some (Inl e)
         | Some (Inr C) \<Rightarrow> Some (Inr (ExeResult C, Inst C, T\<lparr>TLCtx := Some C\<rparr>, HostState C)))
      else
        (case run_in_ctx gnu E n M (new_ctx I h) of
           None \<Rightarrow> None
         | Some (Inl e) \<Rightarrow> Some (Inl e)
         | Some (Inr C) \<Rightarrow> Some (Inr (ExeResult C, Inst C, T, HostState C))))"

text \<open>The local \<open>MsgWithCode\<close> has an address that no frame has.\<close>

definition local_message :: nat where
  "local_message = 2 ^ 64"

definition push_local :: "evmc_message \<Rightarrow> EVMInstance \<Rightarrow> EVMInstance res" where
  "push_local M = pushMessage [local_message \<mapsto> M] (Some local_message)"

definition callEVMMainOnPhysStack ::
  "bool \<Rightarrow> 'h ext \<Rightarrow> nat \<Rightarrow> EVMInstance \<Rightarrow> evmc_message \<Rightarrow> 'h thread_state \<Rightarrow> 'h \<Rightarrow> 'h call_out" where
  "callEVMMainOnPhysStack gnu E n I M T h =
     (case push_local M ((clearMessageCache I)\<lparr>InstExeResult := evmc_Result EVMC_SUCCESS 0 0 []\<rparr>) of
        Inl e \<Rightarrow> Some (Inl e)
      | Inr I \<Rightarrow>
          (case callEVMInInterpMode gnu E n I M T h of
             None \<Rightarrow> None
           | Some (Inl e) \<Rightarrow> Some (Inl e)
           | Some (Inr (R, I, T, h)) \<Rightarrow> Some (Inr (R\<lparr>r_gas_left := Gas I\<rparr>, I, T, h))))"

section \<open>A call returns\<close>

definition callable :: "'h ext \<Rightarrow> EVMInstance \<Rightarrow> evmc_message \<Rightarrow> bool" where
  "callable E I M \<longleftrightarrow> module_ok E (Mod I) \<and> m_gas M < 2 ^ 63"

definition call_fuel :: "EVMInstance \<Rightarrow> evmc_message \<Rightarrow> nat" where
  "call_fuel I M = unat (m_gas M) * (length (Code (Mod I)) + 1) + 2 * length (Code (Mod I)) + 34"

lemma pushMessage_keeps:
  "pushMessage S p I = Inr J \<Longrightarrow> Mod J = Mod I \<and> Rev J = Rev I \<and> GasRefund J = GasRefund I"
  by (auto simp: pushMessage_def Let_def initMemoryFrame_def bindE_Inr_iff)

lemma alloc_returns: "FrameCount C = 0 \<Longrightarrow> \<exists>D. allocTopFrame M C = Inr D"
  by (simp add: allocTopFrame_def pushMessage_def message_gas_def frame_store_def deref_def Let_def nth_append)

text \<open>What a call finds: a context without frames, for an instance that is ready.\<close>

lemma alloc_start:
  assumes "callable E (Inst C) M" and "FrameCount C = 0" and "ReturnData C = []"
  obtains D where "allocTopFrame M C = Inr D" "start_ok E D" "interpret_fuel D = call_fuel (Inst C) M" "Msg (cur D) = M"
    "GasRefundSnapshot (cur D) = GasRefund (Inst C)" "Mod (Inst D) = Mod (Inst C)" "Rev (Inst D) = Rev (Inst C)"
proof -
  obtain D where D: "allocTopFrame M C = Inr D" using alloc_returns [OF assms(2)] by blast
  then have a: "Sp (cur D) = 0 \<and> Pc (cur D) = 0 \<and> Memory (cur D) = [] \<and> Msg (cur D) = M \<and>
      GasRefundSnapshot (cur D) = GasRefund (Inst C) \<and> Mod (Inst D) = Mod (Inst C) \<and> Rev (Inst D) = Rev (Inst C) \<and>
      FrameCount D = 1 \<and> FrameStack D \<noteq> [] \<and> ReturnData D = []"
    using assms(2,3) by (auto simp: allocTopFrame_def Let_def bindE_Inr_iff clearFrameTransientBuffers_def new_frame_def
        dest!: pushMessage_keeps split: if_splits)
  have "start_ok E D" using a assms(1) by (simp add: start_ok_def callable_def frame_ok_def)
  moreover have "interpret_fuel D = call_fuel (Inst C) M"
    using a by (simp add: interpret_fuel_def loop_fuel_def loop_measure_def call_fuel_def)
  ultimately show thesis using that D a by blast
qed

lemma take_ctx_simps [simp]:
  "FrameCount (take_ctx I h s) = 0" "ReturnData (take_ctx I h s) = []" "Inst (take_ctx I h s) = I"
  "FrameCount (new_ctx I h) = 0" "ReturnData (new_ctx I h) = []" "Inst (new_ctx I h) = I"
  by (simp_all add: take_ctx_def new_ctx_def ctx_resetForNewCall_def split: option.splits)

text \<open>What a call gives the caller, apart from the thread-local context.\<close>

definition called :: "'h ext \<Rightarrow> EVMInstance \<Rightarrow> evmc_message \<Rightarrow> evmc_result \<Rightarrow> EVMInstance \<Rightarrow> bool" where
  "called E I M R J \<longleftrightarrow> r_gas_left R = Gas J \<and> Gas J \<le> m_gas M \<and> length (r_output R) \<le> 16777216 \<and>
     (r_status R \<notin> {EVMC_SUCCESS, EVMC_REVERT} \<longrightarrow> r_gas_left R = 0 \<and> r_output R = []) \<and>
     (r_status R \<noteq> EVMC_SUCCESS \<longrightarrow> r_gas_refund R = GasRefund I) \<and>
     callable E J M \<and> Code (Mod J) = Code (Mod I) \<and> Revision (Mod J) = Revision (Mod I) \<and> Rev J = Rev I"

lemma interpreted_called:
  assumes "interpreted E B D" and "callable E I M" and "Msg (cur B) = M" and "GasRefundSnapshot (cur B) = GasRefund I"
    and "Mod (Inst B) = Mod I" and "Rev (Inst B) = Rev I"
  shows "called E I M (ExeResult D) (Inst D)"
proof -
  have "Rev ((Inst D)\<lparr>Gas := 0, GasRefund := 0, Mod := Mod (Inst B)\<rparr>) = Rev ((Inst B)\<lparr>Gas := 0, GasRefund := 0\<rparr>)"
    using assms(1) by (simp only: interpreted_def)
  then show ?thesis using assms by (auto simp: interpreted_def called_def callable_def)
qed

lemma run_in_ctx_safe:
  assumes "ext_ok E" and "callable E (Inst C) M" and "FrameCount C = 0" and "ReturnData C = []"
    and "length (Code (Mod (Inst C))) < n" and "run_in_ctx gnu E n M C = Some x"
  obtains D where "x = Inr D" "called E (Inst C) M (ExeResult D) (Inst D)"
proof -
  obtain B where B: "allocTopFrame M C = Inr B" "start_ok E B" "interpret_fuel B = call_fuel (Inst C) M" "Msg (cur B) = M"
    "GasRefundSnapshot (cur B) = GasRefund (Inst C)" "Mod (Inst B) = Mod (Inst C)" "Rev (Inst B) = Rev (Inst C)"
    by (rule alloc_start [OF assms(2-4)])
  have "base_interpret gnu E n B = Some x" using assms(6) B(1) by (simp add: run_in_ctx_def)
  then obtain D where "x = Inr D" "interpreted E B D"
    using interpret_safe [OF assms(1) B(2)] assms(5) B(6) by metis
  then show thesis using that interpreted_called [OF _ assms(2) B(4-7)] by blast
qed

lemma run_in_ctx_ok:
  assumes "ext_ok E" and "callable E (Inst C) M" and "same_revision (Inst C)" and "FrameCount C = 0" and "ReturnData C = []"
    and "call_fuel (Inst C) M \<le> n"
  obtains D D' where "run_in_ctx True E n M C = Some (Inr D)" "run_in_ctx False E n M C = Some (Inr D')" "same_ctx D D'"
    "called E (Inst C) M (ExeResult D) (Inst D)"
proof -
  obtain B where B: "allocTopFrame M C = Inr B" "start_ok E B" "interpret_fuel B = call_fuel (Inst C) M" "Msg (cur B) = M"
    "GasRefundSnapshot (cur B) = GasRefund (Inst C)" "Mod (Inst B) = Mod (Inst C)" "Rev (Inst B) = Rev (Inst C)"
    by (rule alloc_start [OF assms(2,4,5)])
  have "interpret_fuel B \<le> n" "same_revision (Inst B)" using B(3,6,7) assms(3,6) by (simp_all add: same_revision_def)
  then obtain D D' where
    D: "base_interpret True E n B = Some (Inr D)" "base_interpret False E n B = Some (Inr D')" "same_ctx D D'" "interpreted E B D"
    using interpret_rel [OF assms(1) B(2)] by blast
  show thesis using that interpreted_called [OF D(4) assms(2) B(4-7)] D(1-3) B(1) by (simp add: run_in_ctx_def)
qed

lemma same_ctx_fields:
  assumes "same_ctx D D'"
  shows "ExeResult D' = ExeResult D" "Inst D' = Inst D" "HostState D' = HostState D"
proof -
  have e: "D'\<lparr>FrameStack := []\<rparr> = D\<lparr>FrameStack := []\<rparr>" using assms by (simp add: same_ctx_def)
  have "ExeResult (D'\<lparr>FrameStack := []\<rparr>) = ExeResult (D\<lparr>FrameStack := []\<rparr>)" "Inst (D'\<lparr>FrameStack := []\<rparr>) = Inst (D\<lparr>FrameStack := []\<rparr>)"
    "HostState (D'\<lparr>FrameStack := []\<rparr>) = HostState (D\<lparr>FrameStack := []\<rparr>)" by (simp_all only: e)
  then show "ExeResult D' = ExeResult D" "Inst D' = Inst D" "HostState D' = HostState D" by simp_all
qed

lemma callEVMInInterpMode_safe:
  assumes "ext_ok E" and "callable E I M" and "length (Code (Mod I)) < n" and "callEVMInInterpMode gnu E n I M T h = Some x"
  shows "\<exists>R J T' h'. x = Inr (R, J, T', h') \<and> called E I M R J \<and> TLCtxInUse T' = TLCtxInUse T"
proof -
  let ?C = "if TLCtxInUse T then new_ctx I h else take_ctx I h (TLCtx T)"
  have C: "FrameCount ?C = 0" "ReturnData ?C = []" "Inst ?C = I" by simp_all
  obtain y where y: "run_in_ctx gnu E n M ?C = Some y"
    using assms(4) by (cases "TLCtxInUse T") (auto simp: callEVMInInterpMode_def split: option.splits)
  obtain D where D: "y = Inr D" "called E I M (ExeResult D) (Inst D)"
    by (rule run_in_ctx_safe [OF assms(1), of ?C M n gnu y]) (use assms(2,3) y in \<open>simp_all only: C\<close>)
  show ?thesis using y D assms(4) by (cases "TLCtxInUse T") (auto simp: callEVMInInterpMode_def)
qed

lemma callEVMInInterpMode_ok:
  assumes "ext_ok E" and "callable E I M" and "same_revision I" and "call_fuel I M \<le> n"
  shows "\<exists>R J h' T1 T2. callEVMInInterpMode True E n I M T h = Some (Inr (R, J, T1, h')) \<and>
    callEVMInInterpMode False E n I M T h = Some (Inr (R, J, T2, h')) \<and> called E I M R J \<and>
    TLCtxInUse T1 = TLCtxInUse T \<and> TLCtxInUse T2 = TLCtxInUse T"
proof -
  let ?C = "if TLCtxInUse T then new_ctx I h else take_ctx I h (TLCtx T)"
  have C: "FrameCount ?C = 0" "ReturnData ?C = []" "Inst ?C = I" by simp_all
  obtain D D' where D: "run_in_ctx True E n M ?C = Some (Inr D)" "run_in_ctx False E n M ?C = Some (Inr D')" "same_ctx D D'"
    and c: "called E I M (ExeResult D) (Inst D)"
    by (rule run_in_ctx_ok [OF assms(1), of ?C M n]) (use assms(2-4) in \<open>simp_all only: C\<close>)
  show ?thesis using D(1,2) c same_ctx_fields [OF D(3)] by (cases "TLCtxInUse T") (simp_all add: callEVMInInterpMode_def)
qed

lemma push_local_returns:
  obtains J where "push_local M I = Inr J" "Mod J = Mod I" "Rev J = Rev I" "GasRefund J = GasRefund I"
proof -
  have "\<exists>J. push_local M I = Inr J"
    by (simp add: push_local_def pushMessage_def message_gas_def deref_def Let_def)
  then show thesis using that pushMessage_keeps by (auto simp: push_local_def)
qed

text \<open>The instance that \<open>callEVMMainOnPhysStack\<close> hands on.\<close>

lemma main_push:
  obtains J where "push_local M ((clearMessageCache I)\<lparr>InstExeResult := evmc_Result EVMC_SUCCESS 0 0 []\<rparr>) = Inr J"
    "Mod J = Mod I" "Rev J = Rev I" "GasRefund J = GasRefund I"
  by (rule push_local_returns [of M "(clearMessageCache I)\<lparr>InstExeResult := evmc_Result EVMC_SUCCESS 0 0 []\<rparr>"])
    (simp add: clearMessageCache_def)

lemma called_main:
  assumes "called E I' M R J" and "Mod I' = Mod I" and "Rev I' = Rev I" and "GasRefund I' = GasRefund I"
  shows "called E I M (R\<lparr>r_gas_left := Gas J\<rparr>) J"
  using assms by (auto simp: called_def)

lemma callEVMMain_safe:
  assumes "ext_ok E" and "callable E I M" and "length (Code (Mod I)) < n" and "callEVMMainOnPhysStack gnu E n I M T h = Some x"
  shows "\<exists>R J T' h'. x = Inr (R, J, T', h') \<and> called E I M R J \<and> TLCtxInUse T' = TLCtxInUse T"
proof -
  obtain I' where I': "push_local M ((clearMessageCache I)\<lparr>InstExeResult := evmc_Result EVMC_SUCCESS 0 0 []\<rparr>) = Inr I'"
    "Mod I' = Mod I" "Rev I' = Rev I" "GasRefund I' = GasRefund I" by (rule main_push)
  obtain y where y: "callEVMInInterpMode gnu E n I' M T h = Some y"
    using assms(4) I'(1) by (auto simp: callEVMMainOnPhysStack_def split: option.splits)
  have "callable E I' M" "length (Code (Mod I')) < n" using assms(2,3) I' by (simp_all add: callable_def)
  from callEVMInInterpMode_safe [OF assms(1) this y] obtain R J T' h' where
    r: "y = Inr (R, J, T', h')" "called E I' M R J" "TLCtxInUse T' = TLCtxInUse T" by blast
  show ?thesis using assms(4) y r I'(1) called_main [OF r(2) I'(2-4)] by (auto simp: callEVMMainOnPhysStack_def)
qed

lemma callEVMMain_ok:
  assumes "ext_ok E" and "callable E I M" and "same_revision I" and "call_fuel I M \<le> n"
  shows "\<exists>R J h' T1 T2. callEVMMainOnPhysStack True E n I M T h = Some (Inr (R, J, T1, h')) \<and>
    callEVMMainOnPhysStack False E n I M T h = Some (Inr (R, J, T2, h')) \<and> called E I M R J \<and>
    TLCtxInUse T1 = TLCtxInUse T \<and> TLCtxInUse T2 = TLCtxInUse T"
proof -
  obtain I' where I': "push_local M ((clearMessageCache I)\<lparr>InstExeResult := evmc_Result EVMC_SUCCESS 0 0 []\<rparr>) = Inr I'"
    "Mod I' = Mod I" "Rev I' = Rev I" "GasRefund I' = GasRefund I" by (rule main_push)
  have "callable E I' M" "same_revision I'" "call_fuel I' M \<le> n"
    using assms(2-4) I' by (simp_all add: callable_def call_fuel_def same_revision_def)
  from callEVMInInterpMode_ok [OF assms(1) this, of T h] obtain R J h' T1 T2 where
    r: "callEVMInInterpMode True E n I' M T h = Some (Inr (R, J, T1, h'))"
    "callEVMInInterpMode False E n I' M T h = Some (Inr (R, J, T2, h'))" "called E I' M R J"
    "TLCtxInUse T1 = TLCtxInUse T" "TLCtxInUse T2 = TLCtxInUse T" by blast
  show ?thesis using r(1,2,4,5) I'(1) called_main [OF r(3) I'(2-4)] by (simp add: callEVMMainOnPhysStack_def)
qed

end
