(* ===== verification/Interpreter_Theorems.thy ===== *)
theory Interpreter_Theorems
  imports Evm_Call Reference_Ext
begin

text \<open>
  The theorems on whole runs of \<open>BaseInterpreter::interpret\<close>. They hold for both builds of the fast path and
  for every host, metrics table and arithmetic library that satisfy \<open>ext_ok\<close>.
\<close>

section \<open>Both builds\<close>

lemma interpreted_same:
  assumes "same_ctx D D'" and "interpreted E C D"
  shows "interpreted E C D'"
proof -
  have e: "D\<lparr>FrameStack := []\<rparr> = D'\<lparr>FrameStack := []\<rparr>" using assms(1) by (simp add: same_ctx_def)
  have "FrameCount (D\<lparr>FrameStack := []\<rparr>) = FrameCount (D'\<lparr>FrameStack := []\<rparr>)"
    "ExeResult (D\<lparr>FrameStack := []\<rparr>) = ExeResult (D'\<lparr>FrameStack := []\<rparr>)"
    "Inst (D\<lparr>FrameStack := []\<rparr>) = Inst (D'\<lparr>FrameStack := []\<rparr>)" by (simp_all only: e)
  then show ?thesis using assms(2) by (simp add: interpreted_def)
qed

lemma interpret_ok:
  assumes "ext_ok E" and "start_ok E C" and "Revision (Mod (Inst C)) = Rev (Inst C)" and "interpret_fuel C \<le> n"
  obtains D where "base_interpret gnu E n C = Some (Inr D)" "interpreted E C D"
proof -
  obtain D D' where D: "base_interpret True E n C = Some (Inr D)" "base_interpret False E n C = Some (Inr D')"
    "same_ctx D D'" "interpreted E C D"
    using interpret_rel [OF assms(1,2) _ assms(4)] assms(3) by (auto simp: same_revision_def)
  show thesis using that D interpreted_same [OF D(3,4)] by (cases gnu) simp_all
qed

section \<open>An example\<close>

text \<open>\<open>PUSH1 2; PUSH1 3; ADD; POP; STOP\<close>, with 100 gas.\<close>

definition add_code :: "u8 list" where
  "add_code = [0x60, 2, 0x60, 3, 0x01, 0x50, 0x00]"

definition add_ctx :: "unit ctx" where
  "add_ctx = demo_ctx\<lparr>Inst := demo_instance\<lparr>Mod := demo_module add_code\<rparr>\<rparr>"

lemma reference_ext_ok: "ext_ok reference_host"
  by (simp add: ext_ok_def)

lemma add_ctx_start: "start_ok reference_ext add_ctx" "Revision (Mod (Inst add_ctx)) = Rev (Inst add_ctx)"
  by (simp_all add: start_ok_def add_ctx_def demo_ctx_def demo_instance_def demo_frame_def newEVMInstance_def setGas_def
      demo_module_def module_ok_def add_code_def frame_ok_def mem_ok_def new_frame_def demo_message_def)

section \<open>Theorems\<close>

text \<open>
  C1. No run of \<open>interpret\<close> goes wrong: on every bytecode below the size limit, every operand and every behaviour of the
  host, and for both builds, a run that ends has neither thrown nor done anything undefined and leaves no frame behind;
  this holds for every pair of revisions of module and instance. If the module has been built for the revision of the
  instance, every run ends, within \<open>interpret_fuel\<close> iterations, which the gas bounds because every jump is paid for. The
  runtime does not check that the two revisions agree; for a module of another revision the loop need not end.
\<close>

theorem interpret_returns:
  assumes "ext_ok E" and "start_ok E C" and "length (Code (Mod (Inst C))) < n"
  shows "(base_interpret gnu E n C = None \<or> (\<exists>D. base_interpret gnu E n C = Some (Inr D) \<and> FrameCount D = 0)) \<and>
    (Revision (Mod (Inst C)) = Rev (Inst C) \<and> interpret_fuel C \<le> n \<longrightarrow> base_interpret gnu E n C \<noteq> None)"
proof
  show "base_interpret gnu E n C = None \<or> (\<exists>D. base_interpret gnu E n C = Some (Inr D) \<and> FrameCount D = 0)"
    using interpret_safe [OF assms] by (cases "base_interpret gnu E n C") (auto simp: interpreted_def)
  show "Revision (Mod (Inst C)) = Rev (Inst C) \<and> interpret_fuel C \<le> n \<longrightarrow> base_interpret gnu E n C \<noteq> None"
    using interpret_ok [OF assms(1,2), of n gnu] by blast
qed

lemma add_ctx_fuel: "length (Code (Mod (Inst add_ctx))) < interpret_fuel add_ctx"
  by (simp add: interpret_fuel_def loop_fuel_def)

theorem interpret_returns_witness:
  "\<exists>D. base_interpret True reference_ext (interpret_fuel add_ctx) add_ctx = Some (Inr D) \<and> FrameCount D = 0"
  using interpret_returns [OF reference_ext_ok add_ctx_start(1) add_ctx_fuel, of True] add_ctx_start(2) by auto

text \<open>
  C2. The two fast paths are equivalent: a build with computed goto and a portable build end with the same
  context, apart from the contents of the frame slot that the run has freed.
\<close>

theorem interpret_builds_agree:
  assumes "ext_ok E" and "start_ok E C" and "Revision (Mod (Inst C)) = Rev (Inst C)" and "interpret_fuel C \<le> n"
  shows "\<exists>D D'. base_interpret True E n C = Some (Inr D) \<and> base_interpret False E n C = Some (Inr D') \<and>
    D\<lparr>FrameStack := []\<rparr> = D'\<lparr>FrameStack := []\<rparr>"
  using interpret_rel [OF assms(1,2) _ assms(4)] assms(3) by (auto simp: same_ctx_def same_revision_def)

theorem interpret_builds_agree_witness:
  "\<exists>D D'. base_interpret True reference_ext (interpret_fuel add_ctx) add_ctx = Some (Inr D) \<and>
    base_interpret False reference_ext (interpret_fuel add_ctx) add_ctx = Some (Inr D') \<and>
    D\<lparr>FrameStack := []\<rparr> = D'\<lparr>FrameStack := []\<rparr>"
  by (rule interpret_builds_agree [OF reference_ext_ok add_ctx_start order_refl])

text \<open>
  C14. A run that fails leaves nothing: whatever error status it ends with, other than a revert, no gas is left,
  there is no output, and the refund counter is that of the start of the call. A revert keeps gas and output
  but restores the refund counter too.
\<close>

theorem interpret_failure:
  assumes "ext_ok E" and "start_ok E C" and "Revision (Mod (Inst C)) = Rev (Inst C)" and "interpret_fuel C \<le> n"
  shows "\<exists>D. base_interpret gnu E n C = Some (Inr D) \<and>
    (r_status (ExeResult D) \<notin> {EVMC_SUCCESS, EVMC_REVERT} \<longrightarrow>
       r_gas_left (ExeResult D) = 0 \<and> r_output (ExeResult D) = []) \<and>
    (r_status (ExeResult D) \<noteq> EVMC_SUCCESS \<longrightarrow> r_gas_refund (ExeResult D) = GasRefundSnapshot (FrameStack C ! 0))"
  by (rule interpret_ok [OF assms]) (auto simp: interpreted_def)

text \<open>\<open>JUMP\<close> on an empty stack.\<close>

definition fail_ctx :: "unit ctx" where
  "fail_ctx = demo_ctx\<lparr>Inst := demo_instance\<lparr>Mod := demo_module [0x56]\<rparr>\<rparr>"

lemma fail_ctx_start: "start_ok reference_ext fail_ctx" "Revision (Mod (Inst fail_ctx)) = Rev (Inst fail_ctx)"
  by (simp_all add: start_ok_def fail_ctx_def demo_ctx_def demo_instance_def demo_frame_def newEVMInstance_def setGas_def
      demo_module_def module_ok_def frame_ok_def mem_ok_def new_frame_def demo_message_def)

theorem interpret_failure_witness:
  "\<exists>D. base_interpret True reference_ext (interpret_fuel fail_ctx) fail_ctx = Some (Inr D) \<and>
    (r_status (ExeResult D) \<notin> {EVMC_SUCCESS, EVMC_REVERT} \<longrightarrow>
       r_gas_left (ExeResult D) = 0 \<and> r_output (ExeResult D) = []) \<and>
    (r_status (ExeResult D) \<noteq> EVMC_SUCCESS \<longrightarrow> r_gas_refund (ExeResult D) = GasRefundSnapshot (FrameStack fail_ctx ! 0))"
  by (rule interpret_failure [OF reference_ext_ok fail_ctx_start order_refl])

text \<open>
  C15. Gas and output are bounded: the gas left is that of the instance and at most the gas of the message, and the
  output is at most as large as the largest memory.
\<close>

theorem interpret_bounds:
  assumes "ext_ok E" and "start_ok E C" and "Revision (Mod (Inst C)) = Rev (Inst C)" and "interpret_fuel C \<le> n"
  shows "\<exists>D. base_interpret gnu E n C = Some (Inr D) \<and> r_gas_left (ExeResult D) = Gas (Inst D) \<and>
    Gas (Inst D) \<le> m_gas (Msg (FrameStack C ! 0)) \<and> length (r_output (ExeResult D)) \<le> unat MAX_REQUIRED_MEMORY_SIZE"
  by (rule interpret_ok [OF assms]) (auto simp: interpreted_def)

theorem interpret_bounds_witness:
  "\<exists>D. base_interpret False reference_ext (interpret_fuel add_ctx) add_ctx = Some (Inr D) \<and>
    r_gas_left (ExeResult D) = Gas (Inst D) \<and>
    Gas (Inst D) \<le> m_gas (Msg (FrameStack add_ctx ! 0)) \<and> length (r_output (ExeResult D)) \<le> unat MAX_REQUIRED_MEMORY_SIZE"
  by (rule interpret_bounds [OF reference_ext_ok add_ctx_start order_refl])

text \<open>
  C32. A run changes nothing of its instance but the gas, the refund counter and the module's cache, and it leaves
  the module with a cache that describes its code, so that the next run can start from it.
\<close>

theorem interpret_keeps_instance:
  assumes "ext_ok E" and "start_ok E C" and "Revision (Mod (Inst C)) = Rev (Inst C)" and "interpret_fuel C \<le> n"
  shows "\<exists>D. base_interpret gnu E n C = Some (Inr D) \<and>
    (Inst D)\<lparr>Gas := 0, GasRefund := 0, Mod := Mod (Inst C)\<rparr> = (Inst C)\<lparr>Gas := 0, GasRefund := 0\<rparr> \<and>
    BytecodeCacheInitialized (Mod (Inst D)) \<and> module_ok E (Mod (Inst D)) \<and>
    Code (Mod (Inst D)) = Code (Mod (Inst C)) \<and> Revision (Mod (Inst D)) = Revision (Mod (Inst C))"
  by (rule interpret_ok [OF assms]) (auto simp: interpreted_def)

theorem interpret_keeps_instance_witness:
  "\<exists>D. base_interpret True reference_ext (interpret_fuel add_ctx) add_ctx = Some (Inr D) \<and>
    (Inst D)\<lparr>Gas := 0, GasRefund := 0, Mod := Mod (Inst add_ctx)\<rparr> = (Inst add_ctx)\<lparr>Gas := 0, GasRefund := 0\<rparr> \<and>
    BytecodeCacheInitialized (Mod (Inst D)) \<and> module_ok reference_ext (Mod (Inst D)) \<and>
    Code (Mod (Inst D)) = Code (Mod (Inst add_ctx)) \<and> Revision (Mod (Inst D)) = Revision (Mod (Inst add_ctx))"
  by (rule interpret_keeps_instance [OF reference_ext_ok add_ctx_start order_refl])

text \<open>
  C4. No call of the runtime in interpreter mode goes wrong, at top level with the thread-local context, used before or
  not, and nested with a context of its own. Whatever earlier calls have left in the context and whatever the revisions of
  module and instance, a call that ends has a result: the gas left is that of the instance and at most the gas of the
  message, a failure leaves neither gas nor output, and the instance can be called again. If the module has been built
  for the revision of the instance, the call ends within \<open>call_fuel\<close> iterations, and the two builds give the same result,
  instance and state of the host.
\<close>

theorem call_returns:
  assumes "ext_ok E" and "callable E I M" and "length (Code (Mod I)) < n"
  shows "(callEVMMainOnPhysStack gnu E n I M T h = None \<or>
      (\<exists>R J T' h'. callEVMMainOnPhysStack gnu E n I M T h = Some (Inr (R, J, T', h')) \<and> called E I M R J \<and>
        TLCtxInUse T' = TLCtxInUse T)) \<and>
    (Revision (Mod I) = Rev I \<and> call_fuel I M \<le> n \<longrightarrow>
      (\<exists>R J h' T1 T2. callEVMMainOnPhysStack True E n I M T h = Some (Inr (R, J, T1, h')) \<and>
        callEVMMainOnPhysStack False E n I M T h = Some (Inr (R, J, T2, h')) \<and> called E I M R J \<and>
        TLCtxInUse T1 = TLCtxInUse T \<and> TLCtxInUse T2 = TLCtxInUse T))"
proof
  show "callEVMMainOnPhysStack gnu E n I M T h = None \<or>
      (\<exists>R J T' h'. callEVMMainOnPhysStack gnu E n I M T h = Some (Inr (R, J, T', h')) \<and> called E I M R J \<and>
        TLCtxInUse T' = TLCtxInUse T)"
    using callEVMMain_safe [OF assms] by (cases "callEVMMainOnPhysStack gnu E n I M T h") blast+
qed (use callEVMMain_ok [OF assms(1,2)] in \<open>auto simp: same_revision_def\<close>)

lemma add_callable:
  "callable reference_ext (Inst add_ctx) (demo_message 100)"
  "length (Code (Mod (Inst add_ctx))) < call_fuel (Inst add_ctx) (demo_message 100)"
  by (simp_all add: callable_def add_ctx_def demo_instance_def newEVMInstance_def setGas_def demo_module_def module_ok_def
      add_code_def demo_message_def call_fuel_def)

theorem call_returns_witness:
  "\<exists>R J h' T1 T2.
    callEVMMainOnPhysStack True reference_ext (call_fuel (Inst add_ctx) (demo_message 100)) (Inst add_ctx) (demo_message 100)
      \<lparr>TLCtx = Some add_ctx, TLCtxInUse = False\<rparr> () = Some (Inr (R, J, T1, h')) \<and>
    callEVMMainOnPhysStack False reference_ext (call_fuel (Inst add_ctx) (demo_message 100)) (Inst add_ctx) (demo_message 100)
      \<lparr>TLCtx = Some add_ctx, TLCtxInUse = False\<rparr> () = Some (Inr (R, J, T2, h')) \<and>
    called reference_ext (Inst add_ctx) (demo_message 100) R J \<and>
    TLCtxInUse T1 = TLCtxInUse \<lparr>TLCtx = Some add_ctx, TLCtxInUse = False\<rparr> \<and>
    TLCtxInUse T2 = TLCtxInUse \<lparr>TLCtx = Some add_ctx, TLCtxInUse = False\<rparr>"
  using call_returns [OF reference_ext_ok add_callable, where gnu = True] add_ctx_start(2) by blast

end
