(* ===== verification/Cache_Theorems.thy ===== *)
theory Cache_Theorems
  imports Cache_Correct Reference_Ext
begin

text \<open>
  The theorems on the bytecode cache: the contents of its maps, the partition into blocks, the graph analyses
  and the cost shifting, and that the chunks it writes are those of the plain blocks.
\<close>

section \<open>The maps\<close>

text \<open>
  C19. \<open>buildJumpDestMapAndPushCache\<close> is exact: it reads only inside the code, marks a position if and only if an
  instruction starts there and is a \<open>JUMPDEST\<close> (never a byte inside the immediate of a \<open>PUSH\<close>), and stores at every
  \<open>PUSH\<close> its big-endian immediate, padded with zeros behind the end of the code.
\<close>

theorem maps_exact:
  assumes "intx_ok E"
  shows "\<exists>J P. buildJumpDestMapAndPushCache E code 0 (replicate (length code) 0) (replicate (length code) 0) = Inr (J, P) \<and>
    length J = length code \<and> length P = length code \<and>
    (\<forall>pc < length code. (J ! pc \<noteq> 0 \<longleftrightarrow> pc \<in> set (boundaries code) \<and> code ! pc = OP_JUMPDEST) \<and>
      (pc \<in> set (boundaries code) \<and> isPushOpcode (code ! pc) \<longrightarrow> P ! pc = of_nat (be_val (push_bytes code pc))))"
  using build_maps [OF assms, of "replicate (length code) 0" code "replicate (length code) 0" 0]
  by (auto simp: maps_ok_def boundaries_def)

text \<open>\<open>PUSH2 0x5b\<close>, cut off by the end of the code.\<close>

theorem maps_exact_witness:
  "\<exists>J P. buildJumpDestMapAndPushCache reference_ext [0x5b, 0x61, 0x5b] 0 [0, 0, 0] [0, 0, 0] = Inr (J, P) \<and>
    J ! 0 \<noteq> 0 \<and> J ! 2 = 0 \<and> P ! 1 = 0x5b00"
proof -
  let ?c = "[0x5b, 0x61, 0x5b] :: u8 list"
  have b: "boundaries ?c = [0, 1]"
    by (simp add: boundaries_def instrs.simps [of _ _ "Suc (Suc (Suc 0))"] opcodeLen_def)
  have len: "length ?c = 3" "replicate 3 0 = [0, 0, 0 :: u8]" "replicate 3 0 = [0, 0, 0 :: u256]"
    by (simp_all add: numeral_3_eq_3)
  have push: "be_val (push_bytes ?c 1) = 0x5b00" by (simp add: push_bytes_def opcodeLen_def be_val_def)
  obtain J P where r: "buildJumpDestMapAndPushCache reference_ext ?c 0 [0, 0, 0] [0, 0, 0] = Inr (J, P)"
    and m: "\<forall>pc < 3. (J ! pc \<noteq> 0 \<longleftrightarrow> pc \<in> {0, 1} \<and> ?c ! pc = OP_JUMPDEST) \<and>
      (pc \<in> {0, 1} \<and> isPushOpcode (?c ! pc) \<longrightarrow> P ! pc = of_nat (be_val (push_bytes ?c pc)))"
    using maps_exact [OF reference_intx_ok, of ?c] unfolding b len by auto
  have "J ! 0 \<noteq> 0" using m [rule_format, of 0] by simp
  moreover have "J ! 2 = 0" using m [rule_format, of 2] by simp
  moreover have "P ! 1 = 0x5b00" using m [rule_format, of 1] push by (simp add: isPushOpcode_def)
  ultimately show ?thesis using r by blast
qed

section \<open>Blocks\<close>

text \<open>
  C20. \<open>buildGasBlocks\<close> partitions the code: the instructions of the blocks, in order, are the instructions of the
  code, each exactly once. Only the last instruction of a block may end a chunk, only the first may be a jump
  destination, the cost of a block is the sum of the prices of its instructions, and \<open>BlockAtPc\<close> finds each block
  by its start.
\<close>

theorem gas_blocks_partition:
  assumes "length code + 33 < 2 ^ 32" and "code \<noteq> []" and "length code < n"
  shows "\<exists>Bs A. buildGasBlocks n cost code = Some (Inr (Bs, A)) \<and>
    concat (map (\<lambda>B. instrs code (Start B) (End B)) Bs) = boundaries code \<and>
    (\<forall>B \<in> set Bs. Start B < End B \<and>
      (\<forall>pc \<in> set (butlast (instrs code (Start B) (End B))). \<not> isGasChunkTerminator (code ! pc)) \<and>
      (\<forall>pc \<in> set (instrs code (Start B) (End B)). pc \<noteq> Start B \<longrightarrow> code ! pc \<noteq> OP_JUMPDEST) \<and>
      Cost B = sum_list (map (\<lambda>pc. cost (code ! pc)) (instrs code (Start B) (End B)))) \<and>
    (\<forall>i < length Bs. A ! Start (Bs ! i) = i)"
  using buildGasBlocks_ok [OF assms, of cost] by (fastforce simp: block_ok_def chunk_ok_def index_ok_def tiles_def)

theorem gas_blocks_partition_witness:
  "\<exists>Bs A. buildGasBlocks 9 (\<lambda>_. 3) [0x60, 0x00, 0x56, 0x5b] = Some (Inr (Bs, A)) \<and>
    concat (map (\<lambda>B. instrs [0x60, 0x00, 0x56, 0x5b] (Start B) (End B)) Bs) = [0, 2, 3]"
proof -
  have "boundaries [0x60, 0x00, 0x56, 0x5b :: u8] = [0, 2, 3]"
    by (simp add: boundaries_def instrs.simps [of _ _ "Suc (Suc (Suc (Suc 0)))"] opcodeLen_def)
  then show ?thesis using gas_blocks_partition [of "[0x60, 0x00, 0x56, 0x5b]" 9 "\<lambda>_. 3"] by auto
qed

section \<open>Graphs\<close>

text \<open>A graph given by its successor lists, of one-byte blocks.\<close>

definition graph_of :: "nat list list \<Rightarrow> GasBlock list" where
  "graph_of ss = map (\<lambda>i. new_block\<lparr>Start := i, End := i + 1, Succs := ss ! i, Preds := filter (\<lambda>j. i \<in> set (ss ! j)) [0..<length ss]\<rparr>) [0..<length ss]"

text \<open>
  C34. \<open>computeReachable\<close> is exact: it ends and marks precisely the blocks to which a path of edges leads from the
  entry.
\<close>

theorem reachable_exact:
  assumes "EntryId < length Blocks"
  shows "\<exists>R. computeReachable Blocks EntryId = Some R \<and> length R = length Blocks \<and>
    (\<forall>i < length Blocks. R ! i \<noteq> 0 \<longleftrightarrow> (EntryId, i) \<in> (edges Blocks)\<^sup>*)"
  by (rule computeReachable_exact [OF assms])

theorem reachable_exact_witness:
  "\<exists>R. computeReachable (graph_of [[1], [], [1]]) 0 = Some R \<and>
    (R ! 2 \<noteq> 0 \<longleftrightarrow> (0, 2) \<in> (edges (graph_of [[1], [], [1]]))\<^sup>*)"
  using reachable_exact [of 0 "graph_of [[1], [], [1]]"] by (auto simp: graph_of_def)

text \<open>
  C22. \<open>computeDominators\<close> is exact on a graph whose entry has no predecessor: the fixpoint iteration ends, and bit
  \<open>d\<close> of the set of a reachable block \<open>v\<close> is set if and only if every path from the entry to \<open>v\<close> visits \<open>d\<close>.
\<close>

theorem dominators_exact:
  assumes "rooted Blocks e R"
  shows "\<exists>Dom. computeDominators Blocks R = Some Dom \<and>
    (\<forall>v < length Blocks. R ! v \<noteq> 0 \<longrightarrow> (\<forall>d < length Blocks. bitsetTest (Dom ! v) d \<longleftrightarrow> dominates Blocks e d v))"
  by (rule computeDominators_exact [OF assms])

lemma graph_of_edges: "(i, j) \<in> edges (graph_of ss) \<longleftrightarrow> i < length ss \<and> j < length ss \<and> j \<in> set (ss ! i)"
  by (auto simp: edges_def graph_of_def)

lemma demo_rooted: "rooted (graph_of [[1], []]) 0 [1, 1]"
proof -
  have "(0, 1) \<in> (edges (graph_of [[1], []]))\<^sup>*" by (rule r_into_rtrancl) (simp add: graph_of_edges)
  then show ?thesis by (auto simp: rooted_def graph_of_def less_Suc_eq new_block_def)
qed

theorem dominators_exact_witness:
  "\<exists>Dom. computeDominators (graph_of [[1], []]) [1, 1] = Some Dom \<and>
    (bitsetTest (Dom ! 1) 0 \<longleftrightarrow> dominates (graph_of [[1], []]) 0 0 1)"
  using dominators_exact [OF demo_rooted] by (auto simp: graph_of_def)

text \<open>
  C35. Edges stay consistent: splitting critical edges keeps every edge inside the graph and \<open>Preds\<close> the converse of
  \<open>Succs\<close>, and it changes nothing of the existing blocks but their edges; the blocks it appends are empty.
\<close>

theorem split_keeps_graph:
  assumes "graph_ok Bs"
  shows "graph_ok (fst (splitCriticalEdges Bs CodeSz)) \<and>
    (\<exists>Es. map core (fst (splitCriticalEdges Bs CodeSz)) = map core Bs @ Es \<and> (\<forall>B \<in> set Es. Start B = End B))"
  using splitCriticalEdges_graph [OF assms] splitCriticalEdges_appends [of Bs CodeSz] by (auto simp: only_appends_def)

text \<open>Block 0 branches to 1 and 2, and 1 falls through to 2: the edge from 0 to 2 is critical.\<close>

lemma diamond_ok: "graph_ok (graph_of [[1, 2], [2], []])"
  by (auto simp: graph_ok_def graph_of_def less_Suc_eq numeral_2_eq_2)

theorem split_keeps_graph_witness:
  "graph_ok (fst (splitCriticalEdges (graph_of [[1, 2], [2], []]) 10)) \<and>
    (\<exists>Es. map core (fst (splitCriticalEdges (graph_of [[1, 2], [2], []]) 10)) = map core (graph_of [[1, 2], [2], []]) @ Es \<and>
      (\<forall>B \<in> set Es. Start B = End B))"
  by (rule split_keeps_graph [OF diamond_ok])

text \<open>
  C36. The analyses behind \<open>buildGasChunksSPP\<close> end on every graph with at least one block, whatever its edges:
  reachability, dominators, the reverse order, cycles, natural loops and the metering itself.
\<close>

theorem metering_ends:
  assumes "Blocks \<noteq> []"
  shows "\<exists>M. sppMetering Blocks = Some M"
  by (rule sppMetering_ends [OF assms])

theorem metering_ends_witness: "\<exists>M. sppMetering (graph_of [[0, 1], [0]]) = Some M"
  by (rule metering_ends) (simp add: graph_of_def)

section \<open>Cost shifting\<close>

lemma fold_min: "fold (\<lambda>s m. min m (f s)) cs m = Min (insert m (f ` set cs))"
  for f :: "nat \<Rightarrow> u64"
proof -
  have "fold (\<lambda>s m. min m (f s)) cs m = fold min (map f cs) m"
    by (induction cs arbitrary: m) (simp_all add: min.commute)
  then show ?thesis using Min.set_eq_fold [of m "map f cs"] by simp
qed

lemma fold_subtract:
  "distinct cs \<Longrightarrow> \<forall>s \<in> set cs. s < length M \<Longrightarrow>
   length (fold (\<lambda>s M. M[s := M ! s - m]) cs M) = length M \<and>
   (\<forall>i < length M. fold (\<lambda>s M. M[s := M ! s - m]) cs M ! i = (if i \<in> set cs then M ! i - m else M ! i))"
  for M :: "u64 list"
proof (induction cs arbitrary: M)
  case (Cons c cs)
  then show ?case using Cons.IH [of "M[c := M ! c - m]"] by (auto simp: nth_list_update)
qed simp

text \<open>
  The successors that take part in a shift: blocks of the graph that the metering covers, not reached by a back edge,
  allowed by the mask, and with a single way in, where the start of the program counts as a way into the first block.
\<close>

definition shift_targets ::
  "nat \<Rightarrow> GasBlock list \<Rightarrow> nat list list option \<Rightarrow> u64 list \<Rightarrow> u64 list \<Rightarrow> nat set" where
  "shift_targets i Blocks BE Mask M = {s \<in> set (Succs (Blocks ! i)). s < length Blocks \<and> s < length M \<and>
     (\<forall>B. BE = Some B \<and> i < length B \<longrightarrow> s \<notin> set (B ! i)) \<and> bit (Mask ! (s div 64)) (s mod 64) \<and>
     (if Start (Blocks ! s) = 0 then Preds (Blocks ! s) = [] else \<exists>p. Preds (Blocks ! s) = [p])}"

lemma one_way_in:
  "effectivePredCount B = Suc 0 \<longleftrightarrow> (if Start B = 0 then Preds B = [] else \<exists>p. Preds B = [p])"
  by (cases "Preds B") (auto simp: effectivePredCount_def)

lemma considered_targets: "set (filter (considered i Blocks BE Mask M) (Succs (Blocks ! i))) = shift_targets i Blocks BE Mask M"
  by (auto simp: considered_def shift_targets_def isBackEdge_def one_way_in bitsetTest_bit not_le split: option.splits if_splits)

text \<open>
  C23. \<open>lemma614Update\<close>, exactly. It shifts cost if and only if the block does not end in a gas-sensitive instruction and has
  a target, no target is free, and not every target has the largest cost; otherwise the metering stays as it is. A shift
  adds the least cost of the targets to the block and takes it from each target, none of which drops below zero, so that
  the edge from the block to each target costs what it did. Every other block keeps its cost. The targets are the
  successors inside the graph and the metering that no back edge leads to, that the mask allows and that have one way in.
\<close>

theorem lemma614_shifts:
  assumes "lemma614Update i Blocks BE Mask M = (ch, M')" and "distinct (Succs (Blocks ! i))" and "i < length M"
    and "i \<notin> set (Succs (Blocks ! i))" and "T = shift_targets i Blocks BE Mask M"
  shows "(ch \<longleftrightarrow>
       LastOpcode (Blocks ! i) \<notin> {OP_GAS, OP_CREATE, OP_CREATE2, OP_CALL, OP_CALLCODE, OP_DELEGATECALL, OP_STATICCALL} \<and>
       (\<forall>s \<in> T. M ! s \<noteq> 0) \<and> (\<exists>s \<in> T. M ! s \<noteq> 2 ^ 64 - 1)) \<and>
     (\<not> ch \<longrightarrow> M' = M) \<and>
     (ch \<longrightarrow> M' ! i = M ! i + Min ((!) M ` T) \<and>
       (\<forall>s \<in> T. unat (M' ! s) + unat (Min ((!) M ` T)) = unat (M ! s) \<and> M' ! i + M' ! s = M ! i + M ! s) \<and>
       (\<forall>j < length M. j \<noteq> i \<and> j \<notin> T \<longrightarrow> M' ! j = M ! j)) \<and>
     length M' = length M"
proof -
  define cs where "cs = filter (considered i Blocks BE Mask M) (Succs (Blocks ! i))"
  define m where "m = Min (insert UINT64_MAX ((!) M ` T))"
  have T: "set cs = T" unfolding cs_def assms(5) by (rule considered_targets)
  have cs: "distinct cs" "\<forall>s \<in> set cs. s < length M" "i \<notin> set cs"
    using assms(2,4) by (auto simp: cs_def considered_def)
  have max: "x \<le> UINT64_MAX" "UINT64_MAX = 2 ^ 64 - 1" for x by (simp_all add: UINT64_MAX_def)
  have fin: "finite T" using T by (metis List.finite_set)
  have m: "m = 0 \<longleftrightarrow> (\<exists>s \<in> T. M ! s = 0)" "m = UINT64_MAX \<longleftrightarrow> (\<forall>s \<in> T. M ! s = UINT64_MAX)"
    using fin max by (auto simp: m_def Min_eq_iff UINT64_MAX_def word_eq_iff_unsigned intro: order_antisym)
  have upd: "(ch, M') = (if isGasSensitiveTerminator (LastOpcode (Blocks ! i)) \<or> m = 0 \<or> m = UINT64_MAX then (False, M)
      else (True, fold (\<lambda>s M. M[s := M ! s - m]) cs (M[i := M ! i + m])))"
    using assms(1) [unfolded lemma614Update_def Let_def fold_min, folded cs_def, unfolded T, folded m_def]
    by (auto split: if_splits)
  show ?thesis
  proof (cases "isGasSensitiveTerminator (LastOpcode (Blocks ! i)) \<or> m = 0 \<or> m = UINT64_MAX")
    case True
    then show ?thesis using upd m max(2) by (auto simp: isGasSensitiveTerminator_def)
  next
    case False
    then have r: "ch" "M' = fold (\<lambda>s M. M[s := M ! s - m]) cs (M[i := M ! i + m])" using upd by simp_all
    have ne: "T \<noteq> {}" using False m(2) by auto
    then have least: "Min ((!) M ` T) = m" using fin max(1) by (simp add: m_def min_absorb2)
    have le: "m \<le> M ! s" if "s \<in> T" for s using that fin by (simp add: m_def)
    have nth: "length M' = length M" "\<forall>j < length M. M' ! j = (if j \<in> T then M[i := M ! i + m] ! j - m else M[i := M ! i + m] ! j)"
      using fold_subtract [OF cs(1), of "M[i := M ! i + m]" m] cs(2) r(2) T by simp_all
    have i: "M' ! i = M ! i + m" using nth(2) cs(3) assms(3) T by simp
    have s: "M' ! s = M ! s - m" if "s \<in> T" for s using nth(2) cs(2,3) T that by (metis nth_list_update_neq)
    have "unat (M' ! s) + unat m = unat (M ! s) \<and> M' ! i + M' ! s = M ! i + M ! s" if "s \<in> T" for s
      using s [OF that] i le [OF that] by (simp add: unat_sub word_le_nat_alt)
    moreover have "\<forall>j < length M. j \<noteq> i \<and> j \<notin> T \<longrightarrow> M' ! j = M ! j" using nth(2) by simp
    ultimately show ?thesis using r(1) nth(1) least i False m max(2) by (auto simp: isGasSensitiveTerminator_def)
  qed
qed

theorem lemma614_shifts_witness:
  "lemma614Update 0 (graph_of [[1], []]) None [3] [5, 7] = (True, [12, 0]) \<and> Min ((!) [5, 7 :: u64] ` {1}) = 7"
proof -
  have e: "lemma614Update 0 (graph_of [[1], []]) None [3] [5, 7] = (True, [12, 0])"
    by (simp add: lemma614Update_def graph_of_def new_block_def isGasSensitiveTerminator_def considered_def
        bitsetTest_def effectivePredCount_def UINT64_MAX_def Let_def)
  have t: "{1} = shift_targets 0 (graph_of [[1], []]) None [3] [5, 7]"
    by (auto simp: shift_targets_def graph_of_def new_block_def)
  show ?thesis using lemma614_shifts [OF e _ _ _ t] e by (simp add: graph_of_def new_block_def)
qed

text \<open>
  C21. The optimised metering has no effect on the cache: for every code, with or without dynamic jumps,
  \<open>buildGasChunksSPP\<close> writes the chunks of the plain blocks.
\<close>

theorem spp_is_plain:
  assumes "length code + 33 < 2 ^ 32" and "length code < n" and "length JDM = length code" and "length PVM = length code"
  shows "buildGasChunksSPP n cost code JDM PVM out = plainChunks n cost code out"
  by (rule buildGasChunksSPP_plain [OF assms])

theorem spp_is_plain_witness:
  "buildGasChunksSPP 9 (\<lambda>_. 3) [0x60, 0x00, 0x56, 0x5b] [0, 0, 0, 1] [0, 0, 0, 0] ([0, 0, 0, 0], [0, 0, 0, 0]) =
   plainChunks 9 (\<lambda>_. 3) [0x60, 0x00, 0x56, 0x5b] ([0, 0, 0, 0], [0, 0, 0, 0])"
  by (rule spp_is_plain) simp_all

text \<open>
  C3. \<open>buildBytecodeCache\<close> returns for every code below the size limit, and its result satisfies the
  specification that the interpreter relies on: the jump destinations and push values are those of the code, and
  every chunk is a run of whole instructions, of which only the last may be a terminator, with the sum of their
  prices.
\<close>

theorem cache_correct:
  assumes "intx_ok E" and "length code + 33 < 2 ^ 32" and "length code < n"
  shows "\<exists>K. buildBytecodeCache n E code rv = Some (Inr K) \<and> cache_ok (gas_cost E rv) code K"
  by (rule evm_cache.build_returns [OF assms])

theorem cache_correct_witness:
  "\<exists>K. buildBytecodeCache 9 reference_ext [0x60, 0x00, 0x56, 0x5b] EVMC_CANCUN = Some (Inr K) \<and>
    cache_ok (gas_cost reference_ext EVMC_CANCUN) [0x60, 0x00, 0x56, 0x5b] K"
  by (rule cache_correct) simp_all

section \<open>Where the analyses are wrong\<close>

text \<open>
  \<open>computeReverseTopo\<close> marks a successor when it is pushed and takes the mark as \<open>visited\<close> when it is popped, so the
  successors of a pushed block are never looked at: on the chain \<open>0, 1, 2\<close> block 0 comes before block 2.
\<close>

theorem reverse_topo_chain: "computeReverseTopo (graph_of [[1], [2], []]) [[], [], []] = Some [1, 0, 2]"
  by (simp add: computeReverseTopo_def graph_of_def while_option_unfold topo_step_def isBackEdge_def
      new_block_def numeral_3_eq_3 numeral_2_eq_2)

text \<open>
  \<open>computeDominators\<close> starts from the blocks without predecessors. When the entry is the target of a jump, nothing
  is fixed, and on \<open>0, 1, 0\<close> block 1 is reported to dominate the entry.
\<close>

theorem dominators_entry_loop: "computeDominators (graph_of [[1], [0]]) [1, 1] = Some [[3], [3]]"
  by (simp add: computeDominators_def dom_init_def dom_round_def dom_node_def new_dom_def all_bits_def bitsetSetAll_def
      bitsetSet_def bits_and_def bitsetEqual_def bitsetWordCount_def graph_of_def while_option_unfold new_block_def Let_def)

text \<open>
  \<open>collectNaturalLoop\<close> also follows the predecessors of the header when the back edge starts at the header itself:
  the loop of block 1 with itself contains block 0.
\<close>

theorem self_loop_collects_entry: "collectNaturalLoop 1 1 (graph_of [[1], [1]]) 2 [1, 1] = Some [3]"
  by (simp add: collectNaturalLoop_def loop_step_def bitsetSet_def bitsetTest_def bitsetWordCount_def graph_of_def
      while_option_unfold new_block_def Let_def)

end
