(* ===== verification/Restore_State.thy ===== *)
theory Restore_State
  imports Interpreter
begin

text \<open>
  \<open>InterpreterExecContext::restoreStateFromInstance\<close> (\<open>src/evm/interpreter.cpp\<close>): the state with which the
  interpreter continues after compiled code has given up, copied from the instance.
\<close>

section \<open>Stack elements\<close>

text \<open>The loop over the four words of an element: each word is set from the one byte at its start.\<close>

definition restore_element :: "(nat \<Rightarrow> u8) \<Rightarrow> nat \<Rightarrow> u256" where
  "restore_element Data ElementData =
     limbs (ucast (Data ElementData)) (ucast (Data (ElementData + 8)))
       (ucast (Data (ElementData + 16))) (ucast (Data (ElementData + 24)))"

definition restore_stack :: "(nat \<Rightarrow> u8) \<Rightarrow> nat \<Rightarrow> EVMFrame \<Rightarrow> EVMFrame" where
  "restore_stack Data NumElements F =
     fold (\<lambda>I F. F\<lparr>Stack := (Stack F)(I := restore_element Data (I * 32))\<rparr>) [0..<NumElements] (F\<lparr>Sp := NumElements\<rparr>)"

definition restore_memory :: "EVMInstance \<Rightarrow> EVMFrame \<Rightarrow> EVMFrame res" where
  "restore_memory I F =
     (if MemoryBase I \<and> MemorySize I > 0 then
        (case InstMemory I of
           Some b \<Rightarrow> if unat (MemorySize I) \<le> unat MAX_REQUIRED_MEMORY_SIZE
                     then Inr (F\<lparr>Memory := map b [0..<unat (MemorySize I)]\<rparr>) else Inl UB
         | None \<Rightarrow> Inl UB)
      else Inr (F\<lparr>Memory := []\<rparr>))"

definition restoreStateFromInstance :: "nat \<Rightarrow> 'h ctx \<Rightarrow> 'h ctx res" where
  "restoreStateFromInstance StartPC C =
     (let I = Inst C in
      if StartPC \<ge> length (Code (Mod I)) then Inr (setStatus EVMC_BAD_JUMP_DESTINATION C)
      else case getCurFrame C of
        None \<Rightarrow> Inr (setStatus EVMC_INVALID_INSTRUCTION C)
      | Some i \<Rightarrow>
          if i < length (FrameStack C) then
            let F = (FrameStack C ! i)\<lparr>Pc := StartPC\<rparr>;
                NumElements = unat (EVMStackSize I) div 32 in
            if NumElements > MAXSTACK then Inr (setStatus EVMC_STACK_OVERFLOW (put_frame i F C))
            else bindE (restore_memory I (restore_stack (EVMStack I) NumElements F)) (\<lambda>F.
                 Inr (setStatus EVMC_SUCCESS (put_frame i F C)))
          else Inl UB)"

section \<open>What is restored\<close>

text \<open>The element that compiled code has stored: 32 bytes, the least significant first.\<close>

definition stored_value :: "(nat \<Rightarrow> u8) \<Rightarrow> nat \<Rightarrow> nat" where
  "stored_value Data off = (\<Sum>k < 32. unat (Data (off + k)) * 256 ^ k)"

text \<open>The bytes that the loop reads.\<close>

definition read_bytes :: "nat set" where
  "read_bytes = {0, 8, 16, 24}"

lemma stored_split:
  "stored_value Data off = (\<Sum>k \<in> {..<32} - read_bytes. unat (Data (off + k)) * 256 ^ k) +
     (\<Sum>k \<in> read_bytes. unat (Data (off + k)) * 256 ^ k)"
  unfolding stored_value_def by (rule sum.subset_diff) (auto simp: read_bytes_def)

lemma restore_element_value:
  "unat (restore_element Data off) = (\<Sum>k \<in> read_bytes. unat (Data (off + k)) * 256 ^ k)"
proof -
  let ?b = "\<lambda>k. unat (Data (off + k))"
  have b: "?b k < 256" for k using unsigned_less [of "Data (off + k)"] by simp
  have u: "unat (ucast x :: u64) = unat x" for x :: u8
  proof -
    have "unat x < 256" using unsigned_less [where 'a = nat, of x] by simp
    then have "unat x < 2 ^ 64" by (rule order.strict_trans) simp
    then have "take_bit 64 (unat x) = unat x" by (rule take_bit_nat_eq_self)
    then show ?thesis by (simp add: unsigned_ucast_eq)
  qed
  have s: "(\<Sum>k \<in> read_bytes. ?b k * 256 ^ k) = ?b 0 + 2 ^ 64 * ?b 8 + 2 ^ 128 * ?b 16 + 2 ^ 192 * ?b 24"
    by (simp add: read_bytes_def)
  have bound: "i < 256 \<Longrightarrow> j < 256 \<Longrightarrow> k < 256 \<Longrightarrow> l < 256 \<Longrightarrow>
      i + 2 ^ 64 * j + 2 ^ 128 * k + 2 ^ 192 * l < 2 ^ 256" for i j k l :: nat by simp
  have "?b 0 + 2 ^ 64 * ?b 8 + 2 ^ 128 * ?b 16 + 2 ^ 192 * ?b 24 < 2 ^ 256"
    by (rule bound) (rule b)+
  moreover have "n < 2 ^ 256 \<Longrightarrow> unat (of_nat n :: u256) = n" for n by (simp add: unat_of_nat)
  ultimately show ?thesis unfolding s restore_element_def limbs_def u add_0_right by blast
qed

lemma restore_element_exact:
  "unat (restore_element Data off) = stored_value Data off \<longleftrightarrow>
     (\<forall>k < 32. k \<notin> {0, 8, 16, 24} \<longrightarrow> Data (off + k) = 0)"
proof -
  have "unat (restore_element Data off) = stored_value Data off \<longleftrightarrow>
      (\<Sum>k \<in> {..<32} - read_bytes. unat (Data (off + k)) * 256 ^ k) = 0"
    unfolding restore_element_value stored_split by simp
  also have "\<dots> \<longleftrightarrow> (\<forall>k \<in> {..<32} - read_bytes. Data (off + k) = 0)"
    by (subst sum_eq_0_iff) (auto simp: unat_eq_zero)
  finally show ?thesis by (auto simp: read_bytes_def)
qed

lemma restore_stack_eq:
  "restore_stack Data n F = F\<lparr>Sp := n, Stack := (\<lambda>i. if i < n then restore_element Data (i * 32) else Stack F i)\<rparr>"
proof -
  have "fold (\<lambda>I F. F\<lparr>Stack := (Stack F)(I := restore_element Data (I * 32))\<rparr>) [0..<n] G =
      G\<lparr>Stack := (\<lambda>i. if i < n then restore_element Data (i * 32) else Stack G i)\<rparr>" for G :: EVMFrame
  proof (induction n)
    case (Suc n)
    show ?case
      by (simp only: upt_Suc_append [OF le0] fold_append comp_apply Suc.IH fold_simps)
        (auto simp: fun_eq_iff less_Suc_eq intro!: arg_cong [where f = "\<lambda>s. G\<lparr>Stack := s\<rparr>"])
  qed simp
  then show ?thesis by (simp add: restore_stack_def cong: if_cong)
qed

lemma restore_memory_eq:
  "inst_ok I \<Longrightarrow> MemoryBase I = (InstMemory I \<noteq> None) \<Longrightarrow> restore_memory I F = Inr (F\<lparr>Memory := inst_bytes I\<rparr>)"
  by (auto simp: restore_memory_def inst_ok_def frame_size_ok_def inst_bytes_def shown_def word_greater_zero_iff split: option.splits)

end
