(* ===== verification/Handler_Theorems.thy ===== *)
theory Handler_Theorems
  imports Restore_State Reference_Ext
begin

text \<open>
  Theorems on single handlers and on the frames they run in: static mode, gas across sub-calls, reuse of frames,
  and the state that the interpreter takes over from compiled code.
\<close>

section \<open>Static mode\<close>

lemma static_create:
  assumes "frame_isStaticMode E F" and "frame_ok F"
  shows "ensures (doCreate E op F C) (\<lambda>(F', C'). HostState C' = HostState C \<and> Status C' \<noteq> EVMC_SUCCESS)"
  using assms by (auto simp: doCreate_def create_operands_def create_checks_def frame_isStaticMode_def frame_ok_def ensures_simps
      clearReturnData_def)

text \<open>
  C17. A static call cannot change the state of the host: in static mode \<open>SSTORE\<close>, \<open>TSTORE\<close>, every \<open>LOG\<close>,
  \<open>CREATE\<close>, \<open>CREATE2\<close> and \<open>SELFDESTRUCT\<close> leave the host alone and end with an error status.
\<close>

theorem static_mode_guards:
  assumes "frame_isStaticMode E F" and "frame_ok F"
    and "h \<in> {doSStore E, doTStore E, doLog E op, doCreate E op, doSelfDestruct E}"
  shows "ensures (h F C) (\<lambda>(F', C'). HostState C' = HostState C \<and> Status C' \<noteq> EVMC_SUCCESS)"
  using assms static_create [OF assms(1,2)]
  by (auto simp: doSStore_def doTStore_def doLog_def doSelfDestruct_def ensures_simps)

definition static_frame :: EVMFrame where
  "static_frame = (demo_frame 100)\<lparr>Msg := (demo_message 100)\<lparr>m_flags := 1\<rparr>\<rparr>"

lemma static_frame_ok: "frame_isStaticMode reference_ext static_frame" "frame_ok static_frame"
  by (simp_all add: static_frame_def frame_isStaticMode_def reference_host_def frame_ok_def demo_frame_def new_frame_def
      demo_message_def)

theorem static_mode_guards_witness:
  "ensures (doSStore reference_ext static_frame demo_ctx)
     (\<lambda>(F', C'). HostState C' = HostState demo_ctx \<and> Status C' \<noteq> EVMC_SUCCESS)"
  by (rule static_mode_guards [OF static_frame_ok]) simp

lemma flag_kept:
  fixes f s d :: u32
  assumes "f AND s \<noteq> 0" and "s AND d = 0"
  shows "(f AND NOT d) AND s \<noteq> 0" "(f OR d) AND s \<noteq> 0"
proof -
  obtain n where n: "bit f n" "bit s n" "n < 32" using assms(1) by (auto simp: bit_eq_iff bit_simps)
  have "\<not> bit (s AND d) n" using assms(2) by simp
  then have "\<not> bit d n" using n by (simp add: bit_simps)
  then have "bit ((f AND NOT d) AND s) n" "bit ((f OR d) AND s) n" using n by (simp_all add: bit_simps)
  then show "(f AND NOT d) AND s \<noteq> 0" "(f OR d) AND s \<noteq> 0" by auto
qed

text \<open>
  C33. Static mode is inherited: whatever the kind of a sub-call and whether or not its code is delegated, the message
  it sends has the static flag if the caller is static or the instruction is \<open>STATICCALL\<close>.
\<close>

theorem static_inherited:
  assumes "metrics_ok E" and "frame_isStaticMode E F \<or> op = OP_STATICCALL"
  shows "m_flags (call_message E op kind A CodeAddress g input (Msg F)) AND flag_static E \<noteq> 0"
proof -
  have s: "flag_static E \<noteq> 0" and d: "flag_static E AND flag_delegated E = 0" using assms(1) by (simp_all add: metrics_ok_def)
  let ?f = "if op = OP_STATICCALL then flag_static E else m_flags (Msg F)"
  have "?f AND flag_static E \<noteq> 0" using assms(2) s by (auto simp: frame_isStaticMode_def)
  from flag_kept [OF this d] show ?thesis by (simp add: call_message_def Let_def)
qed

theorem static_inherited_witness:
  "m_flags (call_message reference_ext OP_DELEGATECALL EVMC_DELEGATECALL
      \<lparr>cGas = 0, cDest = zero_address, cValue = 0, cInputOffset = 0, cInputSize = 0, cOutputOffset = 0, cOutputSize = 0\<rparr>
      zero_address 0 [] (Msg static_frame)) AND flag_static reference_ext \<noteq> 0"
  by (rule static_inherited) (simp_all add: static_frame_ok)

section \<open>Gas across calls\<close>

text \<open>
  C18. A sub-call never makes the caller richer: for \<open>CALL\<close>, \<open>CALLCODE\<close>, \<open>DELEGATECALL\<close>, \<open>STATICCALL\<close>, \<open>CREATE\<close> and
  \<open>CREATE2\<close>, with any operands and any host that returns at most the gas it is given, the frame has afterwards at
  most its gas of before, in spite of the stipend that is added in between, and its stack and memory stay within
  their limits.
\<close>

theorem calls_never_gain_gas:
  assumes "host_ok E" and "frame_ok F" and "res_ok C" and "h \<in> {doCall E op, doCreate E op}"
  shows "ensures (h F C) (\<lambda>(F', C'). gas_of F' \<le> gas_of F \<and> Sp F' \<le> 1024 \<and> mem_ok (Memory F') \<and>
    length (Memory F) \<le> length (Memory F'))"
proof -
  have "handler_ok h" using assms(1,4) doCall_ok doCreate_ok by auto
  then have "ensures (h F C) (\<lambda>(F', C'). frame_step F F' \<and> ctx_step C C')"
    by (rule handler_okD [OF _ assms(2,3)])
  then show ?thesis by (rule ensures_mono) (auto simp: frame_step_def)
qed

lemma demo_ctx_res: "res_ok demo_ctx"
  by (simp add: res_ok_def demo_ctx_def getCurFrame_def demo_instance_def newEVMInstance_def setGas_def)

theorem calls_never_gain_gas_witness:
  "ensures (doCall reference_ext OP_CALL (demo_frame 100) demo_ctx) (\<lambda>(F', C'). gas_of F' \<le> gas_of (demo_frame 100) \<and>
    Sp F' \<le> 1024 \<and> mem_ok (Memory F') \<and> length (Memory (demo_frame 100)) \<le> length (Memory F'))"
  by (rule calls_never_gain_gas [where op = OP_CALL, OF reference_host_ok demo_frame_ok demo_ctx_res]) simp_all

section \<open>Frames\<close>

text \<open>
  C37. Reusing a frame slot hides the call that used it before: whether \<open>allocTopFrame\<close> takes an old slot or appends
  a new one, the frame it sets up is a new frame for the message, with an empty stack. Only the words above the
  stack pointer are left over.
\<close>

theorem alloc_hides_previous:
  assumes "allocTopFrame M C = Inr D"
  shows "(FrameStack D ! FrameCount C)\<lparr>Stack := (\<lambda>_. 0)\<rparr> =
      new_frame\<lparr>Msg := M, GasRefundSnapshot := GasRefund (Inst D)\<rparr> \<and>
    FrameCount D = FrameCount C + 1 \<and> FrameCount C < length (FrameStack D) \<and>
    (\<forall>i < FrameCount C. FrameStack D ! i = FrameStack C ! i)"
  using assms by (cases "FrameStack C ! FrameCount C")
    (auto simp: allocTopFrame_def Let_def new_frame_def clearFrameTransientBuffers_def nth_append bindE_Inr_iff
      split: if_splits)

theorem alloc_hides_previous_witness:
  "\<exists>D. allocTopFrame (demo_message 7) (demo_ctx\<lparr>FrameCount := 0\<rparr>) = Inr D \<and> Sp (FrameStack D ! 0) = 0"
proof -
  obtain D where "allocTopFrame (demo_message 7) (demo_ctx\<lparr>FrameCount := 0\<rparr>) = Inr D"
    by (simp add: allocTopFrame_def demo_ctx_def pushMessage_def message_gas_def frame_store_def deref_def Let_def)
  with alloc_hides_previous [OF this] show ?thesis by (auto simp: demo_ctx_def dest!: arg_cong [where f = Sp] simp: new_frame_def)
qed

section \<open>Continuing after compiled code\<close>

text \<open>
  C38. \<open>restoreStateFromInstance\<close> moves the program counter, the memory and the height of the stack over to the
  interpreter; a stack element arrives with its value if and only if in each of its four words all bytes but the
  lowest are zero.
\<close>

theorem restore_state:
  assumes "inst_ok (Inst C)" and "MemoryBase (Inst C) = (InstMemory (Inst C) \<noteq> None)"
    and "StartPC < length (Code (Mod (Inst C)))" and "getCurFrame C = Some i" and "i < length (FrameStack C)"
    and "unat (EVMStackSize (Inst C)) \<le> 32 * MAXSTACK"
  shows "\<exists>D. restoreStateFromInstance StartPC C = Inr D \<and> Status D = EVMC_SUCCESS \<and>
    Pc (FrameStack D ! i) = StartPC \<and> Memory (FrameStack D ! i) = inst_bytes (Inst C) \<and>
    Sp (FrameStack D ! i) = unat (EVMStackSize (Inst C)) div 32 \<and>
    (\<forall>k < Sp (FrameStack D ! i). unat (Stack (FrameStack D ! i) k) = stored_value (EVMStack (Inst C)) (k * 32) \<longleftrightarrow>
      (\<forall>b < 32. b \<notin> {0, 8, 16, 24} \<longrightarrow> EVMStack (Inst C) (k * 32 + b) = 0))"
  using assms(3-5) restore_memory_eq [OF assms(1,2)] div_le_mono [OF assms(6), of 32]
  by (simp add: restoreStateFromInstance_def Let_def restore_stack_eq put_frame_def restore_element_exact)

lemma restore_demo:
  defines "I \<equiv> demo_instance\<lparr>Mod := demo_module [0x00], EVMStackSize := 32, EVMStack := (\<lambda>i. if i = 8 then 5 else 0)\<rparr>"
  shows "inst_ok I" "MemoryBase I = (InstMemory I \<noteq> None)"
  by (simp_all add: I_def inst_ok_def demo_instance_def newEVMInstance_def setGas_def frame_size_ok_def)

theorem restore_state_witness:
  "\<exists>D. restoreStateFromInstance 0 (demo_ctx\<lparr>Inst := demo_instance\<lparr>Mod := demo_module [0x00], EVMStackSize := 32,
      EVMStack := (\<lambda>i. if i = 8 then 5 else 0)\<rparr>\<rparr>) = Inr D \<and> Sp (FrameStack D ! 0) = 1 \<and>
    unat (Stack (FrameStack D ! 0) 0) = stored_value (\<lambda>i. if i = 8 then 5 else 0) 0"
  using restore_state [of "demo_ctx\<lparr>Inst := demo_instance\<lparr>Mod := demo_module [0x00], EVMStackSize := 32,
      EVMStack := (\<lambda>i. if i = 8 then 5 else 0)\<rparr>\<rparr>" 0 0] restore_demo
  by (auto simp: demo_ctx_def demo_module_def getCurFrame_def)

text \<open>The value 256 of a stack element is lost: the interpreter continues with zero.\<close>

theorem restore_drops_bytes:
  "stored_value (\<lambda>i. if i = 1 then 1 else 0) 0 = 256 \<and> restore_element (\<lambda>i. if i = 1 then 1 else 0) 0 = 0"
proof
  have "stored_value (\<lambda>i. if i = 1 then 1 else 0) 0 = (\<Sum>k < (32 :: nat). if k = 1 then 256 else 0)"
    unfolding stored_value_def by (rule sum.cong) auto
  also have "\<dots> = 256" by (subst sum.delta) simp_all
  finally show "stored_value (\<lambda>i. if i = 1 then 1 else 0) 0 = 256" .
  show "restore_element (\<lambda>i. if i = 1 then 1 else 0) 0 = 0" by (simp add: restore_element_def limbs_def)
qed

end
