(* ===== verification/Evm_Runtime.thy ===== *)
theory Evm_Runtime
  imports Evm_Call
begin

text \<open>
  The runtime's store of EVM modules (\<open>src/runtime/runtime.cpp\<close>, \<open>src/runtime/codeholder.cpp\<close>,
  \<open>src/runtime/evm_module.cpp\<close>, \<open>src/action/evm_module_loader.h\<close>) and its configuration (\<open>src/runtime/config.h\<close>).
  The compiler is a parameter: for the interpreter's view of a module all that matters is whether it throws.
\<close>

section \<open>Configuration\<close>

datatype RunMode = InterpMode | SinglepassMode | MultipassMode

text \<open>The options that matter for EVM bytecode, in a build with the multipass compiler.\<close>

record RuntimeConfig =
  Mode :: RunMode
  EnableEvmGasMetering :: bool
  EnableGdbTracingHook :: bool
  DisableMultipassGreedyRA :: bool
  DisableMultipassMultithread :: bool
  NumMultipassThreads :: u32

text \<open>The flag is set in a build with the singlepass compiler.\<close>

definition validate :: "bool \<Rightarrow> RuntimeConfig \<Rightarrow> bool \<times> RuntimeConfig" where
  "validate singlepass Cfg =
     (let Cfg = (if EnableGdbTracingHook Cfg \<and> \<not> DisableMultipassMultithread Cfg
                 then Cfg\<lparr>DisableMultipassMultithread := True\<rparr> else Cfg) in
      case Mode Cfg of
        SinglepassMode \<Rightarrow> (singlepass, Cfg)
      | MultipassMode \<Rightarrow> (DisableMultipassMultithread Cfg \<or> NumMultipassThreads Cfg \<noteq> 0, Cfg)
      | InterpMode \<Rightarrow> (True, Cfg))"

text \<open>What the runtime takes from outside: addresses, the compiler, and the contents of memory that is not set.\<close>

record platform =
  singlepass_build :: bool
  alloc :: "nat list \<Rightarrow> nat"
  compile :: "RuntimeConfig \<Rightarrow> u8 list \<Rightarrow> evmc_revision \<Rightarrow> ErrorCode option"
  junk :: "nat \<Rightarrow> u8"

section \<open>Modules\<close>

definition PresetMaxModuleSize :: nat where
  "PresetMaxModuleSize = 1024 * 1024 * 1024"

text \<open>
  A region of bytes given by its address and its contents. The address may be null. The copy that a \<open>CodeHolder\<close>
  makes has the same contents at an address that is null exactly for the empty region.
\<close>

type_synonym raw_data = "nat option \<times> u8 list"

definition newRawDataCodeHolder :: "raw_data \<Rightarrow> u8 list res" where
  "newRawDataCodeHolder Raw =
     (if length (snd Raw) > PresetMaxModuleSize then Inl (Throw ModuleSizeTooLarge)
      else if snd Raw \<noteq> [] \<and> fst Raw = None then Inl (Throw InvalidRawData)
      else Inr (snd Raw))"

definition blank_module :: "u8 list \<Rightarrow> evmc_revision \<Rightarrow> EVMModule" where
  "blank_module Bytes rv = \<lparr>Code = Bytes, BytecodeCacheInitialized = False, BytecodeCache = empty_cache, Revision = rv\<rparr>"

definition newEVMModule :: "platform \<Rightarrow> RuntimeConfig \<Rightarrow> u8 list \<Rightarrow> evmc_revision \<Rightarrow> EVMModule res" where
  "newEVMModule X Cfg Bytes rv =
     (let M = blank_module Bytes rv in
      if Mode Cfg \<noteq> InterpMode then
        (case compile X Cfg Bytes rv of Some e \<Rightarrow> Inl (Throw e) | None \<Rightarrow> Inr M)
      else Inr M)"

text \<open>
  The pool maps names to modules, each of which lives at its own address. \<open>malloc\<close> returns an address that is not
  in use.
\<close>

type_synonym module_pool = "(string \<times> nat \<times> EVMModule) list"

record Runtime =
  RtConfig :: RuntimeConfig
  EVMModulePool :: module_pool

definition live :: "module_pool \<Rightarrow> nat list" where
  "live P = map (\<lambda>e. fst (snd e)) P"

definition fresh :: "platform \<Rightarrow> bool" where
  "fresh X \<longleftrightarrow> (\<forall>ps. alloc X ps \<notin> set ps)"

text \<open>The module behind an address.\<close>

definition at :: "nat \<Rightarrow> module_pool \<Rightarrow> (string \<times> EVMModule) option" where
  "at p P = map_of (map (\<lambda>(n, q, m). (q, n, m)) P) p"

definition newEVMRuntime :: "platform \<Rightarrow> RuntimeConfig \<Rightarrow> Runtime option" where
  "newEVMRuntime X Cfg =
     (case validate (singlepass_build X) Cfg of
        (True, Cfg) \<Rightarrow> Some \<lparr>RtConfig = Cfg, EVMModulePool = []\<rparr>
      | (False, _) \<Rightarrow> None)"

definition loadEVMModule ::
  "platform \<Rightarrow> string \<Rightarrow> raw_data \<Rightarrow> evmc_revision \<Rightarrow> Runtime \<Rightarrow> (nat \<times> Runtime) res" where
  "loadEVMModule X ModName Raw rv RT =
     (if ModName = [] \<or> snd Raw \<noteq> [] \<and> fst Raw = None then Inl (Throw InvalidRawData)
      else case map_of (EVMModulePool RT) ModName of
        Some (p, _) \<Rightarrow> Inr (p, RT)
      | None \<Rightarrow>
          bindE (newRawDataCodeHolder Raw) (\<lambda>Bytes.
          let p = alloc X (live (EVMModulePool RT)) in
          bindE (newEVMModule X (RtConfig RT) Bytes rv) (\<lambda>M.
          Inr (p, RT\<lparr>EVMModulePool := (ModName, p, M) # EVMModulePool RT\<rparr>))))"

text \<open>Reading the name of a module that is gone is undefined.\<close>

definition unloadEVMModule :: "nat \<Rightarrow> Runtime \<Rightarrow> (bool \<times> Runtime) res" where
  "unloadEVMModule p RT =
     (case at p (EVMModulePool RT) of
        None \<Rightarrow> Inl UB
      | Some (Name, _) \<Rightarrow>
          Inr (Name \<in> fst ` set (EVMModulePool RT),
            RT\<lparr>EVMModulePool := filter (\<lambda>e. fst e \<noteq> Name) (EVMModulePool RT)\<rparr>))"

section \<open>The store of modules\<close>

text \<open>Names and addresses are unique, and every module is within the size limit with a cache that is right.\<close>

definition pool_ok :: "'h ext \<Rightarrow> module_pool \<Rightarrow> bool" where
  "pool_ok E P \<longleftrightarrow> distinct (map fst P) \<and> distinct (live P) \<and> (\<forall>(n, p, m) \<in> set P. module_ok E m)"

lemma at_Some: "at p P = Some (n, m) \<Longrightarrow> (n, p, m) \<in> set P"
  by (auto simp: at_def dest!: map_of_SomeD)

lemma at_iff: "distinct (live P) \<Longrightarrow> at p P = Some (n, m) \<longleftrightarrow> (n, p, m) \<in> set P"
proof
  assume d: "distinct (live P)" and "(n, p, m) \<in> set P"
  then have "(p, n, m) \<in> set (map (\<lambda>(n, q, m). (q, n, m)) P)" by force
  moreover have "distinct (map fst (map (\<lambda>(n, q, m). (q, n, m)) P))"
    using d by (simp add: live_def comp_def case_prod_beta)
  ultimately show "at p P = Some (n, m)" unfolding at_def by (rule map_of_is_SomeI [rotated])
qed (rule at_Some)

lemma at_None: "at p P = None \<longleftrightarrow> p \<notin> set (live P)"
  by (induction P) (auto simp: at_def live_def)

lemma at_Cons: "at p ((n, q, m) # P) = (if p = q then Some (n, m) else at p P)"
  by (auto simp: at_def)

lemma at_ok: "pool_ok E P \<Longrightarrow> at p P = Some (n, m) \<Longrightarrow> module_ok E m"
  by (auto simp: pool_ok_def dest!: at_Some)

lemma pool_ok_filter: "pool_ok E P \<Longrightarrow> pool_ok E (filter f P)"
  by (auto simp: pool_ok_def live_def distinct_map_filter)

text \<open>Unloading removes one module, and keeps all others at their addresses.\<close>

lemma unload_removes:
  assumes "pool_ok E P" and "at p P = Some (n, m)"
  shows "at q (filter (\<lambda>e. fst e \<noteq> n) P) = (if q = p then None else at q P)"
proof -
  have d: "distinct (map fst P)" "distinct (live P)" using assms(1) by (simp_all add: pool_ok_def)
  have d': "distinct (live (filter (\<lambda>e. fst e \<noteq> n) P))" using pool_ok_filter [OF assms(1)] by (simp add: pool_ok_def)
  have np: "(n, p, m) \<in> set P" by (rule at_Some [OF assms(2)])
  have u: "q = p" if "(n, q, l) \<in> set P" for q l
    using eq_key_imp_eq_value [OF d(1) np that] by simp
  have v: "k = n" if "(k, p, l) \<in> set P" for k l
    using at_iff [OF d(2), of p k l] that assms(2) by simp
  have "(k, q, l) \<in> set (filter (\<lambda>e. fst e \<noteq> n) P) \<longleftrightarrow> (k, q, l) \<in> set P \<and> q \<noteq> p" for k l
    using u [of q l] v [of k l] by auto
  then have "at q (filter (\<lambda>e. fst e \<noteq> n) P) = Some x \<longleftrightarrow> (if q = p then None else at q P) = Some x" for x
    using at_iff [OF d(2), of q "fst x" "snd x"] at_iff [OF d', of q "fst x" "snd x"] by simp
  then show ?thesis by (metis not_Some_eq)
qed

lemma unload_ok:
  assumes "pool_ok E (EVMModulePool RT)" and "at p (EVMModulePool RT) \<noteq> None"
  obtains P where "unloadEVMModule p RT = Inr (True, RT\<lparr>EVMModulePool := P\<rparr>)" "pool_ok E P"
    "\<forall>q. at q P = (if q = p then None else at q (EVMModulePool RT))" "fst ` set P \<subseteq> fst ` set (EVMModulePool RT)"
proof -
  obtain n m where a: "at p (EVMModulePool RT) = Some (n, m)" using assms(2) by auto
  let ?P = "filter (\<lambda>e. fst e \<noteq> n) (EVMModulePool RT)"
  have "n \<in> fst ` set (EVMModulePool RT)" using at_Some [OF a] by force
  then have "unloadEVMModule p RT = Inr (True, RT\<lparr>EVMModulePool := ?P\<rparr>)" by (simp add: unloadEVMModule_def a)
  then show thesis by (rule that) (use pool_ok_filter [OF assms(1)] unload_removes [OF assms(1) a] in auto)
qed

text \<open>A module that is loaded under a new name has the bytes and the revision it was given.\<close>

definition loadable :: "platform \<Rightarrow> RuntimeConfig \<Rightarrow> raw_data \<Rightarrow> evmc_revision \<Rightarrow> bool" where
  "loadable X Cfg Raw rv \<longleftrightarrow> length (snd Raw) \<le> PresetMaxModuleSize \<and> (snd Raw \<noteq> [] \<longrightarrow> fst Raw \<noteq> None) \<and>
     (Mode Cfg \<noteq> InterpMode \<longrightarrow> compile X Cfg (snd Raw) rv = None)"

lemma load_ok:
  assumes "pool_ok E (EVMModulePool RT)" and "fresh X" and "ModName \<notin> fst ` set (EVMModulePool RT)" and "ModName \<noteq> []"
  shows "if loadable X (RtConfig RT) Raw rv then
      \<exists>p. loadEVMModule X ModName Raw rv RT =
          Inr (p, RT\<lparr>EVMModulePool := (ModName, p, blank_module (snd Raw) rv) # EVMModulePool RT\<rparr>) \<and>
        at p (EVMModulePool RT) = None \<and> pool_ok E ((ModName, p, blank_module (snd Raw) rv) # EVMModulePool RT)
    else \<exists>e. loadEVMModule X ModName Raw rv RT = Inl (Throw e)"
proof -
  have n: "map_of (EVMModulePool RT) ModName = None" using assms(3) by (simp add: map_of_eq_None_iff)
  have f: "alloc X (live (EVMModulePool RT)) \<notin> set (live (EVMModulePool RT))" using assms(2) by (simp add: fresh_def)
  then have "pool_ok E ((ModName, alloc X (live (EVMModulePool RT)), blank_module (snd Raw) rv) # EVMModulePool RT)"
    if "length (snd Raw) \<le> PresetMaxModuleSize"
    using assms(1,3) that by (auto simp: pool_ok_def live_def module_ok_def blank_module_def PresetMaxModuleSize_def)
  then show ?thesis using n f assms(4)
    by (auto simp: loadEVMModule_def newRawDataCodeHolder_def newEVMModule_def loadable_def blank_module_def Let_def at_None
        split: option.splits)
qed

end
