(* ===== verification/Evmc_Vm.thy ===== *)
theory Evmc_Vm
  imports Evm_Runtime "HOL-Library.AList"
begin

text \<open>
  The EVMC virtual machine (\<open>src/vm/dt_evmc_vm.cpp\<close>): options, the address-based module cache with its LRU order,
  the instances and contexts per call depth, and the interpreter's fast path of \<open>execute\<close>.
\<close>

section \<open>Code validation and small helpers\<close>

definition MAX_MODULE_CACHE_SIZE :: nat where
  "MAX_MODULE_CACHE_SIZE = 4096"

type_synonym CodeAddrRevKey = "address \<times> evmc_revision"

definition validateCodeMatch :: "u8 list \<Rightarrow> EVMModule \<Rightarrow> bool" where
  "validateCodeMatch code M =
     (if length code \<noteq> CodeSize M then False
      else if length code = 0 then True
      else
        let HeadLen = min (length code) 256 in
        if take HeadLen code \<noteq> take HeadLen (Code M) then False
        else if length code > 256 then
          let TailLen = min (length code) 256;
              TailOffset = length code - TailLen in
          take TailLen (drop TailOffset code) = take TailLen (drop TailOffset (Code M))
        else True)"

definition parseBoolEnvValue :: "string \<Rightarrow> bool option" where
  "parseBoolEnvValue Value =
     (if Value = ''1'' \<or> Value = ''true'' \<or> Value = ''TRUE'' then Some True
      else if Value = ''0'' \<or> Value = ''false'' \<or> Value = ''FALSE'' then Some False
      else None)"

section \<open>The virtual machine\<close>

text \<open>
  An instance refers to its module by address. The module that the state of the instance has is the one that was
  behind that address when the instance was last used.
\<close>

record vm_inst =
  ModAt :: nat
  IState :: EVMInstance

text \<open>
  The two pointers of \<open>WrappedHost\<close> are addresses. The iterator of an entry of \<open>AddrCache\<close> is the position of its
  key in \<open>LRUOrder\<close>. The front of the list is the head. A stored context does not have the state of the host.
\<close>

record DTVM =
  Config :: RuntimeConfig
  RT :: "Runtime option"
  ExecHost :: "nat option \<times> nat option"
  Iso :: bool
  LastCodePtr :: "nat option"
  LastCodeSize :: nat
  L0Mod :: "nat option"
  LRUOrder :: "CodeAddrRevKey list"
  AddrCache :: "(CodeAddrRevKey \<times> nat) list"
  ModCounter :: u64
  CachedMainInst :: "vm_inst option"
  CachedCtx :: "unit ctx option"
  NestedCtxPool :: "unit ctx option list"
  CacheInsts :: "vm_inst list"

definition isModuleInUse :: "nat \<Rightarrow> DTVM \<Rightarrow> bool" where
  "isModuleInUse p VM \<longleftrightarrow>
     (case CachedMainInst VM of Some I \<Rightarrow> ModAt I = p | None \<Rightarrow> False) \<or> list_ex (\<lambda>I. ModAt I = p) (CacheInsts VM)"

text \<open>The constructor, with the environment as a function.\<close>

definition new_DTVM :: "(string \<Rightarrow> string option) \<Rightarrow> DTVM" where
  "new_DTVM getenv =
     (let Cfg = \<lparr>Mode = MultipassMode, EnableEvmGasMetering = True, EnableGdbTracingHook = False,
            DisableMultipassGreedyRA = False, DisableMultipassMultithread = False, NumMultipassThreads = 8\<rparr>;
          Cfg = (case getenv ''DTVM_EVM_MODE'' of
              None \<Rightarrow> Cfg
            | Some m \<Rightarrow>
                if m = ''interpreter'' then Cfg\<lparr>Mode := InterpMode\<rparr>
                else if m = ''multipass'' then Cfg\<lparr>Mode := MultipassMode\<rparr>
                else Cfg);
          Cfg = (case getenv ''DTVM_EVM_ENABLE_GAS_METERING'' of
              None \<Rightarrow> Cfg
            | Some v \<Rightarrow> (case parseBoolEnvValue v of Some b \<Rightarrow> Cfg\<lparr>EnableEvmGasMetering := b\<rparr> | None \<Rightarrow> Cfg));
          Cfg = Cfg\<lparr>DisableMultipassGreedyRA := True\<rparr>;
          Cfg = (case getenv ''DTVM_EVM_DISABLE_MULTIPASS_GREEDYRA'' of
              None \<Rightarrow> Cfg
            | Some v \<Rightarrow> (case parseBoolEnvValue v of Some b \<Rightarrow> Cfg\<lparr>DisableMultipassGreedyRA := b\<rparr> | None \<Rightarrow> Cfg))
      in \<lparr>Config = Cfg, RT = None, ExecHost = (None, None), Iso = False, LastCodePtr = None, LastCodeSize = 0,
          L0Mod = None, LRUOrder = [], AddrCache = [], ModCounter = 0, CachedMainInst = None, CachedCtx = None,
          NestedCtxPool = [], CacheInsts = []\<rparr>)"

datatype set_option_result = EVMC_SET_OPTION_SUCCESS | EVMC_SET_OPTION_INVALID_NAME | EVMC_SET_OPTION_INVALID_VALUE

definition set_option :: "string \<Rightarrow> string \<Rightarrow> DTVM \<Rightarrow> set_option_result \<times> DTVM" where
  "set_option Name Value VM =
     (if Name = ''mode'' then
        if Value = ''interpreter'' then (EVMC_SET_OPTION_SUCCESS, VM\<lparr>Config := (Config VM)\<lparr>Mode := InterpMode\<rparr>\<rparr>)
        else if Value = ''multipass'' then (EVMC_SET_OPTION_SUCCESS, VM\<lparr>Config := (Config VM)\<lparr>Mode := MultipassMode\<rparr>\<rparr>)
        else (EVMC_SET_OPTION_INVALID_VALUE, VM)
      else if Name = ''enable_gas_metering'' then
        if Value = ''true'' then (EVMC_SET_OPTION_SUCCESS, VM\<lparr>Config := (Config VM)\<lparr>EnableEvmGasMetering := True\<rparr>\<rparr>)
        else if Value = ''false'' then (EVMC_SET_OPTION_SUCCESS, VM\<lparr>Config := (Config VM)\<lparr>EnableEvmGasMetering := False\<rparr>\<rparr>)
        else (EVMC_SET_OPTION_INVALID_VALUE, VM)
      else (EVMC_SET_OPTION_INVALID_NAME, VM))"

text \<open>
  \<open>createManagedIsolation\<close> gives no null pointer: \<open>newIsolation\<close> asserts that its memory is there, and a fresh address
  is not yet a key of the map of isolations.
\<close>

definition ensureRuntimeAndIsolation :: "platform \<Rightarrow> DTVM \<Rightarrow> bool \<times> DTVM" where
  "ensureRuntimeAndIsolation X VM =
     (let VM = (case RT VM of None \<Rightarrow> VM\<lparr>RT := newEVMRuntime X (Config VM)\<rparr> | Some _ \<Rightarrow> VM) in
      if RT VM = None then (False, VM)
      else (True, VM\<lparr>Iso := True\<rparr>))"

section \<open>Loading\<close>

text \<open>\<open>std::to_string\<close>.\<close>

fun to_string :: "nat \<Rightarrow> string" where
  "to_string n = (if n < 10 then [char_of (48 + n)] else to_string (n div 10) @ [char_of (48 + n mod 10)])"

declare to_string.simps [simp del]

definition shouldUsePersistentModuleCache :: "evmc_message \<Rightarrow> bool" where
  "shouldUsePersistentModuleCache M \<longleftrightarrow> m_kind M \<noteq> EVMC_CREATE \<and> m_kind M \<noteq> EVMC_CREATE2"

text \<open>\<open>RegAllocFailed\<close> is the only error of the phase and subphase that the test names.\<close>

definition shouldRetryModuleLoadWithFastRA :: "DTVM \<Rightarrow> ErrorCode \<Rightarrow> bool" where
  "shouldRetryModuleLoadWithFastRA VM e \<longleftrightarrow>
     Mode (Config VM) = MultipassMode \<and> \<not> DisableMultipassGreedyRA (Config VM) \<and> e = RegAllocFailed"

text \<open>A module that cannot be loaded is null.\<close>

definition loadEVMModuleWithRegAllocRetry ::
  "platform \<Rightarrow> string \<Rightarrow> raw_data \<Rightarrow> evmc_revision \<Rightarrow> DTVM \<Rightarrow> (nat option \<times> DTVM) res" where
  "loadEVMModuleWithRegAllocRetry X ModName Raw rv VM =
     (case RT VM of
        None \<Rightarrow> Inl UB
      | Some R \<Rightarrow>
          (case loadEVMModule X ModName Raw rv R of
             Inr (p, R) \<Rightarrow> Inr (Some p, VM\<lparr>RT := Some R\<rparr>)
           | Inl (Throw e) \<Rightarrow>
               if \<not> shouldRetryModuleLoadWithFastRA VM e then Inr (None, VM)
               else
                 let PreviousConfig = RtConfig R;
                     R = R\<lparr>RtConfig := (Config VM)\<lparr>DisableMultipassGreedyRA := True\<rparr>\<rparr> in
                 (case loadEVMModule X ModName Raw rv R of
                    Inr (p, R) \<Rightarrow> Inr (Some p, VM\<lparr>RT := Some (R\<lparr>RtConfig := PreviousConfig\<rparr>)\<rparr>)
                  | Inl (Throw e) \<Rightarrow> Inr (None, VM)
                  | Inl e \<Rightarrow> Inl e)
           | Inl e \<Rightarrow> Inl e))"

definition loadTransientModule :: "platform \<Rightarrow> raw_data \<Rightarrow> evmc_revision \<Rightarrow> DTVM \<Rightarrow> (nat option \<times> DTVM) res" where
  "loadTransientModule X Raw rv VM =
     (let ModName = ''tmp_mod_'' @ to_string (unat (ModCounter VM)) in
      loadEVMModuleWithRegAllocRetry X ModName Raw rv (VM\<lparr>ModCounter := ModCounter VM + 1\<rparr>))"

definition vm_unload :: "nat \<Rightarrow> DTVM \<Rightarrow> DTVM res" where
  "vm_unload p VM =
     (case RT VM of
        None \<Rightarrow> Inl UB
      | Some R \<Rightarrow> bindE (unloadEVMModule p R) (\<lambda>(_, R). Inr (VM\<lparr>RT := Some R\<rparr>)))"

lemma bindE_cong [fundef_cong]: "r = s \<Longrightarrow> (\<And>x. s = Inr x \<Longrightarrow> f x = g x) \<Longrightarrow> bindE r f = bindE s g"
  by (cases s) auto

text \<open>The entry at an address that the host no longer backs is evicted.\<close>

definition evict_stale :: "CodeAddrRevKey \<Rightarrow> evmc_message \<Rightarrow> DTVM \<Rightarrow> DTVM res" where
  "evict_stale AddrKey M VM =
     (case map_of (AddrCache VM) AddrKey of
        None \<Rightarrow> Inr VM
      | Some OldMod \<Rightarrow>
          let VM = (if L0Mod VM = Some OldMod \<and> m_depth M = 0 then VM\<lparr>L0Mod := None\<rparr> else VM) in
          bindE (vm_unload OldMod VM) (\<lambda>VM.
          Inr (VM\<lparr>LRUOrder := remove1 AddrKey (LRUOrder VM), AddrCache := AList.delete AddrKey (AddrCache VM)\<rparr>)))"

function evict_lru :: "DTVM \<Rightarrow> DTVM res" where
  "evict_lru VM =
     (if MAX_MODULE_CACHE_SIZE \<le> length (AddrCache VM) \<and> LRUOrder VM \<noteq> [] then
        let VictimKey = last (LRUOrder VM) in
        (case map_of (AddrCache VM) VictimKey of
           None \<Rightarrow> evict_lru (VM\<lparr>LRUOrder := butlast (LRUOrder VM)\<rparr>)
         | Some VictimMod \<Rightarrow>
             if isModuleInUse VictimMod VM then Inr VM
             else
               bindE (vm_unload VictimMod (if L0Mod VM = Some VictimMod then VM\<lparr>L0Mod := None\<rparr> else VM)) (\<lambda>VM'.
               evict_lru (VM'\<lparr>AddrCache := AList.delete VictimKey (AddrCache VM'), LRUOrder := butlast (LRUOrder VM)\<rparr>)))
      else Inr VM)"
  by auto
termination by (relation "measure (\<lambda>VM. length (LRUOrder VM))") auto

declare evict_lru.simps [simp del]

text \<open>A cached module whose code is still the one that is asked for.\<close>

definition cached_module :: "raw_data \<Rightarrow> CodeAddrRevKey \<Rightarrow> DTVM \<Rightarrow> nat option res" where
  "cached_module Raw AddrKey VM =
     (case map_of (AddrCache VM) AddrKey of
        None \<Rightarrow> Inr None
      | Some p \<Rightarrow>
          (case RT VM of
             None \<Rightarrow> Inl UB
           | Some R \<Rightarrow>
               (case at p (EVMModulePool R) of
                  None \<Rightarrow> Inl UB
                | Some (_, m) \<Rightarrow> Inr (if validateCodeMatch (snd Raw) m then Some p else None))))"

definition cold_load ::
  "platform \<Rightarrow> raw_data \<Rightarrow> evmc_revision \<Rightarrow> evmc_message \<Rightarrow> CodeAddrRevKey \<Rightarrow> DTVM \<Rightarrow> (nat option \<times> DTVM) res" where
  "cold_load X Raw rv M AddrKey VM =
     bindE (evict_stale AddrKey M VM) (\<lambda>VM.
     bindE (evict_lru VM) (\<lambda>VM.
     let ModName = ''mod_'' @ to_string (unat (ModCounter VM)) in
     bindE (loadEVMModuleWithRegAllocRetry X ModName Raw rv (VM\<lparr>ModCounter := ModCounter VM + 1\<rparr>)) (\<lambda>(Mo, VM).
     case Mo of
       None \<Rightarrow> Inr (None, VM)
     | Some p \<Rightarrow>
         Inr (Some p, VM\<lparr>LRUOrder := AddrKey # LRUOrder VM, AddrCache := AList.update AddrKey p (AddrCache VM)\<rparr>))))"

text \<open>The result is the module, whether it is transient, and the machine.\<close>

definition findModuleCached ::
  "platform \<Rightarrow> raw_data \<Rightarrow> evmc_revision \<Rightarrow> evmc_message \<Rightarrow> DTVM \<Rightarrow> (nat option \<times> bool \<times> DTVM) res" where
  "findModuleCached X Raw rv M VM =
     (if \<not> shouldUsePersistentModuleCache M then
        bindE (loadTransientModule X Raw rv VM) (\<lambda>(Mo, VM). Inr (Mo, True, VM))
      else
        let AddrKey = (m_code_address M, rv) in
        bindE (cached_module Raw AddrKey VM) (\<lambda>Hit.
        bindE
          (case Hit of
             Some p \<Rightarrow> Inr (Some p, VM\<lparr>LRUOrder := AddrKey # remove1 AddrKey (LRUOrder VM)\<rparr>)
           | None \<Rightarrow> cold_load X Raw rv M AddrKey VM)
          (\<lambda>(Mo, VM).
          case Mo of
            None \<Rightarrow> Inr (None, False, VM)
          | Some p \<Rightarrow>
              Inr (Some p, False, VM\<lparr>LastCodePtr := fst Raw, LastCodeSize := length (snd Raw), L0Mod := Some p\<rparr>))))"

section \<open>The end of the machine\<close>

fun unload_all :: "nat list \<Rightarrow> DTVM \<Rightarrow> DTVM res" where
  "unload_all [] VM = Inr VM"
| "unload_all (p # ps) VM = bindE (vm_unload p VM) (unload_all ps)"

definition destroy_DTVM :: "DTVM \<Rightarrow> DTVM res" where
  "destroy_DTVM VM =
     (let VM = (if Iso VM then VM\<lparr>CachedMainInst := None, CacheInsts := []\<rparr> else VM) in
      bindE (case RT VM of None \<Rightarrow> Inr VM | Some _ \<Rightarrow> unload_all (map snd (AddrCache VM)) VM) (\<lambda>VM.
      Inr (if Iso VM then VM\<lparr>Iso := False\<rparr> else VM)))"

section \<open>Instances\<close>

text \<open>Where an instance lives: the main instance, or an index into \<open>CacheInsts\<close>.\<close>

datatype inst_slot = MainInst | NestedInst nat

definition slot_inst :: "inst_slot \<Rightarrow> DTVM \<Rightarrow> vm_inst option" where
  "slot_inst s VM =
     (case s of
        MainInst \<Rightarrow> CachedMainInst VM
      | NestedInst i \<Rightarrow> if i < length (CacheInsts VM) then Some (CacheInsts VM ! i) else None)"

definition put_inst :: "inst_slot \<Rightarrow> vm_inst \<Rightarrow> DTVM \<Rightarrow> DTVM" where
  "put_inst s I VM =
     (case s of
        MainInst \<Rightarrow> VM\<lparr>CachedMainInst := Some I\<rparr>
      | NestedInst i \<Rightarrow> VM\<lparr>CacheInsts := (CacheInsts VM)[i := I]\<rparr>)"

text \<open>Taking the runtime from a module that is gone is undefined.\<close>

definition createEVMInstance :: "platform \<Rightarrow> nat \<Rightarrow> u64 \<Rightarrow> DTVM \<Rightarrow> vm_inst res" where
  "createEVMInstance X p GasLimit VM =
     (case RT VM of
        None \<Rightarrow> Inl UB
      | Some R \<Rightarrow>
          (case at p (EVMModulePool R) of
             None \<Rightarrow> Inl UB
           | Some (_, m) \<Rightarrow> Inr \<lparr>ModAt = p, IState = newEVMInstance (junk X) m GasLimit\<rparr>))"

definition reset_inst :: "evmc_revision \<Rightarrow> nat \<Rightarrow> vm_inst \<Rightarrow> vm_inst" where
  "reset_inst rv p I = \<lparr>ModAt = p, IState = resetForNewCall rv (IState I)\<rparr>"

definition getOrCreateInstance ::
  "platform \<Rightarrow> nat \<Rightarrow> evmc_revision \<Rightarrow> i32 \<Rightarrow> DTVM \<Rightarrow> (inst_slot \<times> DTVM) res" where
  "getOrCreateInstance X p rv Depth VM =
     (if 0 <s Depth then
        if length (CacheInsts VM) < nat (sint Depth) then
          bindE (createEVMInstance X p 0 VM) (\<lambda>I.
          Inr (NestedInst (length (CacheInsts VM)), VM\<lparr>CacheInsts := CacheInsts VM @ [reset_inst rv p I]\<rparr>))
        else
          let Idx = nat (sint Depth) - 1 in
          Inr (NestedInst Idx, VM\<lparr>CacheInsts := (CacheInsts VM)[Idx := reset_inst rv p (CacheInsts VM ! Idx)]\<rparr>)
      else
        case CachedMainInst VM of
          None \<Rightarrow>
            bindE (createEVMInstance X p 0 VM) (\<lambda>I. Inr (MainInst, VM\<lparr>CachedMainInst := Some I\<rparr>))
        | Some I \<Rightarrow>
            if ModAt I \<noteq> p then Inr (MainInst, VM\<lparr>CachedMainInst := Some (reset_inst rv p I)\<rparr>)
            else Inr (MainInst, VM\<lparr>CachedMainInst := Some (reset_inst rv (ModAt I) I)\<rparr>))"

section \<open>Contexts\<close>

text \<open>A context gets the state of the host while it is used.\<close>

definition ctx_with :: "'h \<Rightarrow> unit ctx \<Rightarrow> 'h ctx" where
  "ctx_with h C = \<lparr>Inst = Inst C, FrameStack = FrameStack C, FrameCount = FrameCount C, Status = Status C,
     ReturnData = ReturnData C, ExeResult = ExeResult C, IsJump = IsJump C, CurrentFrame = CurrentFrame C,
     CurrentMetricsTable = CurrentMetricsTable C, HostState = h\<rparr>"

definition ctx_store :: "'h ctx \<Rightarrow> unit ctx" where
  "ctx_store C = \<lparr>Inst = Inst C, FrameStack = FrameStack C, FrameCount = FrameCount C, Status = Status C,
     ReturnData = ReturnData C, ExeResult = ExeResult C, IsJump = IsJump C, CurrentFrame = CurrentFrame C,
     CurrentMetricsTable = CurrentMetricsTable C, HostState = ()\<rparr>"

datatype ctx_slot = TopCtx | PoolCtx nat

text \<open>The slot is made if need be, and it then holds a context for the instance.\<close>

definition pick_ctx :: "bool \<Rightarrow> i32 \<Rightarrow> EVMInstance \<Rightarrow> DTVM \<Rightarrow> (ctx_slot \<times> unit ctx \<times> DTVM) res" where
  "pick_ctx ReuseTopLevel Depth I VM =
     (if ReuseTopLevel then
        Inr (TopCtx, take_ctx I () (CachedCtx VM), VM)
      else if \<not> (0 \<le> sint Depth \<and> sint Depth \<le> 1024) then Inl Abort
      else
        let d = nat (sint Depth);
            VM = (if length (NestedCtxPool VM) \<le> d
                  then VM\<lparr>NestedCtxPool := NestedCtxPool VM @ replicate (d + 1 - length (NestedCtxPool VM)) None\<rparr> else VM) in
        Inr (PoolCtx d, take_ctx I () (NestedCtxPool VM ! d), VM))"

definition put_ctx :: "ctx_slot \<Rightarrow> unit ctx \<Rightarrow> DTVM \<Rightarrow> DTVM" where
  "put_ctx s C VM =
     (case s of
        TopCtx \<Rightarrow> VM\<lparr>CachedCtx := Some C\<rparr>
      | PoolCtx d \<Rightarrow> VM\<lparr>NestedCtxPool := (NestedCtxPool VM)[d := Some C]\<rparr>)"

section \<open>The interpreter's fast path\<close>

text \<open>\<open>Mod->getBytecodeCache()\<close>, which changes the module in place.\<close>

definition put_module :: "nat \<Rightarrow> EVMModule \<Rightarrow> DTVM \<Rightarrow> DTVM" where
  "put_module p m VM =
     (case RT VM of
        None \<Rightarrow> VM
      | Some R \<Rightarrow> VM\<lparr>RT := Some (R\<lparr>EVMModulePool :=
          map (\<lambda>(n, q, k). (n, q, if q = p then m else k)) (EVMModulePool R)\<rparr>)\<rparr>)"

definition warm_module :: "'h ext \<Rightarrow> nat \<Rightarrow> nat \<Rightarrow> DTVM \<Rightarrow> (EVMModule \<times> DTVM) res option" where
  "warm_module E n p VM =
     (case RT VM of
        None \<Rightarrow> Some (Inl UB)
      | Some R \<Rightarrow>
          (case at p (EVMModulePool R) of
             None \<Rightarrow> Some (Inl UB)
           | Some (_, m) \<Rightarrow>
               (case getBytecodeCache n E m of
                  None \<Rightarrow> None
                | Some (Inl e) \<Rightarrow> Some (Inl e)
                | Some (Inr (_, m)) \<Rightarrow> Some (Inr (m, put_module p m VM)))))"

text \<open>
  What happens before the interpreter runs: the module, the instance with the message, and the context. The result
  is None when the machine answers with \<open>EVMC_FAILURE\<close>.
\<close>

record activation =
  AMod :: nat
  ATransient :: bool
  AInst :: inst_slot
  ACtx :: ctx_slot

definition fast_setup ::
  "'h ext \<Rightarrow> nat \<Rightarrow> platform \<Rightarrow> evmc_revision \<Rightarrow> evmc_message \<Rightarrow> nat \<Rightarrow> bool \<Rightarrow> DTVM
    \<Rightarrow> (activation \<times> unit ctx \<times> DTVM) res option" where
  "fast_setup E n X rv M p IsTransientMod VM =
     (case getOrCreateInstance X p rv (m_depth M) VM of
        Inl e \<Rightarrow> Some (Inl e)
      | Inr (s, VM) \<Rightarrow>
          (case warm_module E n p VM of
             None \<Rightarrow> None
           | Some (Inl e) \<Rightarrow> Some (Inl e)
           | Some (Inr (m, VM)) \<Rightarrow>
               Some (case slot_inst s VM of
                 None \<Rightarrow> Inl UB
               | Some I \<Rightarrow>
                   let TheInst = (IState I)\<lparr>Mod := m\<rparr>;
                       TheInst = (if m_depth M = 0 then clearMessageCache TheInst else TheInst);
                       TheInst = TheInst\<lparr>InstExeResult := evmc_Result EVMC_SUCCESS 0 0 []\<rparr> in
                   bindE (push_local M TheInst) (\<lambda>TheInst.
                   let ReuseTopLevel = (\<not> IsTransientMod \<and> m_depth M = 0);
                       VM = put_inst s (I\<lparr>IState := TheInst\<rparr>) VM in
                   bindE (pick_ctx ReuseTopLevel (m_depth M) TheInst VM) (\<lambda>(c, C, VM).
                   Inr (\<lparr>AMod = p, ATransient = IsTransientMod, AInst = s, ACtx = c\<rparr>, C, put_ctx c C VM))))))"

definition fast_enter ::
  "'h ext \<Rightarrow> nat \<Rightarrow> platform \<Rightarrow> evmc_revision \<Rightarrow> evmc_message \<Rightarrow> raw_data \<Rightarrow> DTVM
    \<Rightarrow> ((activation \<times> unit ctx) option \<times> DTVM) res option" where
  "fast_enter E n X rv M Raw VM =
     (case ensureRuntimeAndIsolation X VM of
        (False, VM) \<Rightarrow> Some (Inr (None, VM))
      | (True, VM) \<Rightarrow>
          (case findModuleCached X Raw rv M VM of
             Inl e \<Rightarrow> Some (Inl e)
           | Inr (None, _, VM) \<Rightarrow> Some (Inr (None, VM))
           | Inr (Some p, IsTransientMod, VM) \<Rightarrow>
               (case fast_setup E n X rv M p IsTransientMod VM of
                  None \<Rightarrow> None
                | Some (Inl e) \<Rightarrow> Some (Inl e)
                | Some (Inr (A, C, VM)) \<Rightarrow> Some (Inr (Some (A, C), VM)))))"

text \<open>What happens after the run: the instance and the context are left in their slots, and the guards run.\<close>

definition fast_leave :: "activation \<Rightarrow> EVMInstance \<Rightarrow> unit ctx \<Rightarrow> DTVM \<Rightarrow> DTVM res" where
  "fast_leave A I C VM =
     (let VM = put_ctx (ACtx A) C (put_inst (AInst A) \<lparr>ModAt = AMod A, IState = I\<rparr> VM) in
      if ATransient A then vm_unload (AMod A) VM else Inr VM)"

definition make_failure :: evmc_result where
  "make_failure = evmc_Result EVMC_FAILURE 0 0 []"

text \<open>The constructor and the destructor of \<open>HostContextScope\<close>; the constructor gives what the scope has to remember.\<close>

definition HostContextScope :: "nat option \<times> nat option \<Rightarrow> DTVM \<Rightarrow> (nat option \<times> nat option) \<times> DTVM" where
  "HostContextScope Host VM = (ExecHost VM, VM\<lparr>ExecHost := Host\<rparr>)"

definition end_HostContextScope :: "nat option \<times> nat option \<Rightarrow> DTVM \<Rightarrow> DTVM" where
  "end_HostContextScope Prev VM = VM\<lparr>ExecHost := Prev\<rparr>"

lemmas scope_simps [simp] = HostContextScope_def end_HostContextScope_def

text \<open>
  The host that the interpreter calls may call the machine again, so the machine is a part of the state of the
  host while the interpreter runs.
\<close>

definition executeInterpreterFastPath ::
  "bool \<Rightarrow> (DTVM \<times> 'w) ext \<Rightarrow> nat \<Rightarrow> platform \<Rightarrow> nat option \<times> nat option \<Rightarrow> evmc_revision \<Rightarrow> evmc_message \<Rightarrow> raw_data
    \<Rightarrow> DTVM \<Rightarrow> 'w \<Rightarrow> (evmc_result \<times> DTVM \<times> 'w) res option" where
  "executeInterpreterFastPath gnu E n X Host rv M Raw VM w =
     (let (Prev, VM) = HostContextScope Host VM in
      case fast_enter E n X rv M Raw VM of
        None \<Rightarrow> None
      | Some (Inl e) \<Rightarrow> Some (Inl e)
      | Some (Inr (None, VM)) \<Rightarrow> Some (Inr (make_failure, end_HostContextScope Prev VM, w))
      | Some (Inr (Some (A, C), VM)) \<Rightarrow>
          (case run_in_ctx gnu E n M (ctx_with (VM, w) C) of
             None \<Rightarrow> None
           | Some (Inl e) \<Rightarrow> Some (Inl e)
           | Some (Inr C) \<Rightarrow>
               (case HostState C of (VM, w) \<Rightarrow>
                 Some (bindE (fast_leave A (Inst C) (ctx_store C) VM) (\<lambda>VM.
                   Inr ((ExeResult C)\<lparr>r_gas_left := Gas (Inst C)\<rparr>, end_HostContextScope Prev VM, w))))))"

section \<open>The multipass fast path\<close>

definition isLikelyPrecompile :: "address \<Rightarrow> bool" where
  "isLikelyPrecompile Addr \<longleftrightarrow> list_all (\<lambda>b. b = 0) (take 19 Addr) \<and> 1 \<le> Addr ! 19 \<and> Addr ! 19 \<le> 9"

text \<open>
  The code that the compiler has made is a parameter: it works on the instance and the state of the host, and it may
  not return. The build is the one without CPU exceptions, without the fallback to the interpreter for single modules
  and without the virtual stack.
\<close>

type_synonym 'h native = "EVMInstance \<Rightarrow> 'h \<Rightarrow> (EVMInstance \<times> 'h) option"

definition MapErrToStatus :: "ErrorCode \<Rightarrow> evmc_status_code" where
  "MapErrToStatus e =
     (if e = EVMStackOverflow \<or> e = Named ''CallStackExhausted'' then EVMC_STACK_OVERFLOW
      else if e = EVMStackUnderflow then EVMC_STACK_UNDERFLOW
      else if e = Named ''EVMBadJumpDestination'' then EVMC_BAD_JUMP_DESTINATION
      else if e = GasLimitExceeded then EVMC_OUT_OF_GAS
      else if e = Named ''OutOfBoundsMemory'' then EVMC_INVALID_MEMORY_ACCESS
      else if e = EVMInvalidInstruction then EVMC_INVALID_INSTRUCTION
      else if e = Named ''EVMStaticModeViolation'' then EVMC_STATIC_MODE_VIOLATION
      else EVMC_FAILURE)"

definition callEVMInJITMode :: "'h native \<Rightarrow> EVMInstance \<Rightarrow> 'h \<Rightarrow> (evmc_result \<times> EVMInstance \<times> 'h) option" where
  "callEVMInJITMode native TheInst h =
     (case native TheInst h of
        None \<Rightarrow> None
      | Some (TheInst, h) \<Rightarrow>
          let Result = InstExeResult TheInst;
              InstErr = Err TheInst;
              TheInst = (if InstErr = InstanceExit then TheInst\<lparr>Err := NoError\<rparr> else TheInst);
              Result = (if InstErr \<noteq> InstanceExit \<and> InstErr \<noteq> NoError then Result\<lparr>r_status := MapErrToStatus InstErr\<rparr> else Result);
              Result = (if r_status Result = EVMC_SUCCESS \<or> r_status Result = EVMC_REVERT
                        then Result\<lparr>r_gas_left := Gas TheInst, r_gas_refund := GasRefund TheInst\<rparr> else Result)
          in Some (Result, TheInst, h))"

definition jit_setup ::
  "platform \<Rightarrow> evmc_revision \<Rightarrow> evmc_message \<Rightarrow> nat \<Rightarrow> DTVM \<Rightarrow> (inst_slot \<times> EVMInstance \<times> DTVM) res" where
  "jit_setup X rv M p VM =
     bindE (getOrCreateInstance X p rv (m_depth M) VM) (\<lambda>(s, VM).
     case (slot_inst s VM, RT VM) of
       (Some I, Some R) \<Rightarrow>
         (case at p (EVMModulePool R) of
            None \<Rightarrow> Inl UB
          | Some (_, m) \<Rightarrow>
              let TheInst = (IState I)\<lparr>Mod := m\<rparr>;
                  TheInst = (if m_depth M = 0 then clearMessageCache TheInst else TheInst);
                  TheInst = TheInst\<lparr>InstExeResult := evmc_Result EVMC_SUCCESS 0 0 []\<rparr> in
              bindE (push_local M TheInst) (\<lambda>TheInst. Inr (s, TheInst, put_inst s (I\<lparr>IState := TheInst\<rparr>) VM)))
     | _ \<Rightarrow> Inl UB)"

definition jit_run ::
  "(DTVM \<times> 'w) native \<Rightarrow> bool \<Rightarrow> nat \<Rightarrow> inst_slot \<Rightarrow> EVMInstance \<Rightarrow> DTVM \<Rightarrow> 'w \<Rightarrow> (evmc_result \<times> DTVM \<times> 'w) res option" where
  "jit_run native IsTransientMod p s TheInst VM w =
     (case callEVMInJITMode native TheInst (VM, w) of
        None \<Rightarrow> None
      | Some (Result, TheInst, VM, w) \<Rightarrow>
          let VM = put_inst s \<lparr>ModAt = p, IState = TheInst\<rparr> VM in
          Some (bindE (if IsTransientMod then vm_unload p VM else Inr VM) (\<lambda>VM.
                Inr (Result\<lparr>r_gas_left := Gas TheInst\<rparr>, VM, w))))"

definition jit_call ::
  "(DTVM \<times> 'w) native \<Rightarrow> platform \<Rightarrow> evmc_revision \<Rightarrow> evmc_message \<Rightarrow> raw_data \<Rightarrow> DTVM \<Rightarrow> 'w
    \<Rightarrow> (evmc_result \<times> DTVM \<times> 'w) res option" where
  "jit_call native X rv M Raw VM w =
     (case findModuleCached X Raw rv M VM of
        Inl e \<Rightarrow> Some (Inl e)
      | Inr (None, _, VM) \<Rightarrow> Some (Inr (make_failure, VM, w))
      | Inr (Some p, IsTransientMod, VM) \<Rightarrow>
          (case jit_setup X rv M p VM of
             Inl e \<Rightarrow> Some (Inl e)
           | Inr (s, TheInst, VM) \<Rightarrow> jit_run native IsTransientMod p s TheInst VM w))"

definition executeMultipassFastPath ::
  "(DTVM \<times> 'w) native \<Rightarrow> bool \<Rightarrow> (DTVM \<times> 'w) ext \<Rightarrow> nat \<Rightarrow> platform \<Rightarrow> nat option \<times> nat option \<Rightarrow> evmc_revision
    \<Rightarrow> evmc_message \<Rightarrow> raw_data \<Rightarrow> DTVM \<Rightarrow> 'w \<Rightarrow> (evmc_result \<times> DTVM \<times> 'w) res option" where
  "executeMultipassFastPath native gnu E n X Host rv M Raw VM w =
     (let (Prev, VM) = HostContextScope Host VM;
          Out = (case ensureRuntimeAndIsolation X VM of
              (False, VM) \<Rightarrow> Some (Inr (make_failure, VM, w))
            | (True, VM) \<Rightarrow>
                if m_depth M = 0 \<and> snd Raw = [] \<and> m_kind M = EVMC_CALL \<and> \<not> isLikelyPrecompile (m_recipient M) then
                  Some (Inr (evmc_Result EVMC_SUCCESS (m_gas M) 0 [], VM, w))
                else if 0 <s m_depth M \<and> snd Raw = [] \<and> m_kind M = EVMC_CALL then
                  executeInterpreterFastPath gnu E n X Host rv M Raw VM w
                else jit_call native X rv M Raw VM w) in
      map_option (\<lambda>r. bindE r (\<lambda>(R, VM, w). Inr (R, end_HostContextScope Prev VM, w))) Out)"

text \<open>The lock of \<open>execute\<close> is not modelled: the thread that holds it may take it again.\<close>

definition vm_execute ::
  "(DTVM \<times> 'w) native \<Rightarrow> bool \<Rightarrow> (DTVM \<times> 'w) ext \<Rightarrow> nat \<Rightarrow> platform \<Rightarrow> nat option \<times> nat option \<Rightarrow> evmc_revision
    \<Rightarrow> evmc_message \<Rightarrow> raw_data \<Rightarrow> DTVM \<Rightarrow> 'w \<Rightarrow> (evmc_result \<times> DTVM \<times> 'w) res option" where
  "vm_execute native gnu E n X Host rv M Raw VM w =
     (if Mode (Config VM) = InterpMode then executeInterpreterFastPath gnu E n X Host rv M Raw VM w
      else executeMultipassFastPath native gnu E n X Host rv M Raw VM w)"

end
