(* ===== verification/Vm_Inv.thy ===== *)
theory Vm_Inv
  imports Evmc_Vm
begin

text \<open>
  The invariant of the virtual machine's module cache, and that looking up, loading and evicting modules keep it.
\<close>

section \<open>Names of modules\<close>

definition of_string :: "string \<Rightarrow> nat" where
  "of_string s = foldl (\<lambda>a c. a * 10 + (of_char c - 48)) 0 s"

lemma of_string_to_string: "of_string (to_string n) = n"
proof (induction n rule: to_string.induct)
  case (1 n)
  then show ?case by (subst to_string.simps) (auto simp: of_string_def)
qed

lemma to_string_inj: "to_string m = to_string n \<longleftrightarrow> m = n"
  by (metis of_string_to_string)

text \<open>The names that the machine has given so far.\<close>

definition module_names :: "nat \<Rightarrow> string set" where
  "module_names k = {''mod_'' @ to_string i | i. i < k} \<union> {''tmp_mod_'' @ to_string i | i. i < k}"

lemma new_name: "''mod_'' @ to_string k \<notin> module_names k" "''tmp_mod_'' @ to_string k \<notin> module_names k"
  by (auto simp: module_names_def to_string_inj)

lemma module_names_mono: "j \<le> k \<Longrightarrow> module_names j \<subseteq> module_names k"
  by (force simp: module_names_def)

lemma module_names_Suc: "''mod_'' @ to_string k \<in> module_names (Suc k)" "''tmp_mod_'' @ to_string k \<in> module_names (Suc k)"
  by (auto simp: module_names_def)

section \<open>The invariant\<close>

text \<open>
  The modules in the pool are those of the cache and the transient modules \<open>T\<close> of calls that are running, and no
  module is both. The LRU order has the keys of the cache, each once.
\<close>

definition pool_inv :: "'h ext \<Rightarrow> nat set \<Rightarrow> module_pool \<Rightarrow> DTVM \<Rightarrow> bool" where
  "pool_inv E T P VM \<longleftrightarrow> pool_ok E P \<and> distinct (map fst (AddrCache VM)) \<and> distinct (map snd (AddrCache VM)) \<and>
     distinct (LRUOrder VM) \<and> set (LRUOrder VM) = fst ` set (AddrCache VM) \<and>
     (\<forall>(k, p) \<in> set (AddrCache VM). \<exists>n m. at p P = Some (n, m) \<and> Revision m = snd k) \<and>
     set (live P) = snd ` set (AddrCache VM) \<union> T \<and> snd ` set (AddrCache VM) \<inter> T = {} \<and>
     fst ` set P \<subseteq> module_names (unat (ModCounter VM))"

definition cache_inv :: "'h ext \<Rightarrow> nat set \<Rightarrow> DTVM \<Rightarrow> bool" where
  "cache_inv E T VM \<longleftrightarrow> (case RT VM of
      None \<Rightarrow> AddrCache VM = [] \<and> LRUOrder VM = [] \<and> T = {}
    | Some R \<Rightarrow> pool_inv E T (EVMModulePool R) VM)"

lemma cache_invD: "cache_inv E T VM \<Longrightarrow> RT VM = Some R \<Longrightarrow> pool_inv E T (EVMModulePool R) VM"
  by (simp add: cache_inv_def)

lemma pool_invD:
  assumes "pool_inv E T P VM"
  shows "pool_ok E P" "distinct (map fst (AddrCache VM))" "distinct (map snd (AddrCache VM))" "distinct (LRUOrder VM)"
    "set (LRUOrder VM) = fst ` set (AddrCache VM)"
    "(k, p) \<in> set (AddrCache VM) \<Longrightarrow> \<exists>n m. at p P = Some (n, m) \<and> Revision m = snd k"
    "set (live P) = snd ` set (AddrCache VM) \<union> T" "snd ` set (AddrCache VM) \<inter> T = {}"
    "fst ` set P \<subseteq> module_names (unat (ModCounter VM))"
  using assms by (auto simp: pool_inv_def)

lemma cache_inv_runtime: "cache_inv E T VM \<Longrightarrow> AddrCache VM \<noteq> [] \<Longrightarrow> \<exists>R. RT VM = Some R"
  by (cases "RT VM") (simp_all add: cache_inv_def)

lemma cache_inv_update [simp]:
  "cache_inv E T (VM\<lparr>L0Mod := x\<rparr>) = cache_inv E T VM"
  "cache_inv E T (VM\<lparr>LastCodePtr := y\<rparr>) = cache_inv E T VM"
  "cache_inv E T (VM\<lparr>LastCodeSize := z\<rparr>) = cache_inv E T VM"
  "cache_inv E T (VM\<lparr>ExecHost := h\<rparr>) = cache_inv E T VM"
  "cache_inv E T (VM\<lparr>Iso := b\<rparr>) = cache_inv E T VM"
  "cache_inv E T (VM\<lparr>CachedMainInst := i\<rparr>) = cache_inv E T VM"
  "cache_inv E T (VM\<lparr>CacheInsts := is\<rparr>) = cache_inv E T VM"
  "cache_inv E T (VM\<lparr>CachedCtx := c\<rparr>) = cache_inv E T VM"
  "cache_inv E T (VM\<lparr>NestedCtxPool := cs\<rparr>) = cache_inv E T VM"
  by (simp_all add: cache_inv_def pool_inv_def cong: option.case_cong)

text \<open>What looking up a module leaves alone.\<close>

definition same_insts :: "DTVM \<Rightarrow> DTVM \<Rightarrow> bool" where
  "same_insts VM VM' \<longleftrightarrow> CachedMainInst VM' = CachedMainInst VM \<and> CacheInsts VM' = CacheInsts VM \<and>
     CachedCtx VM' = CachedCtx VM \<and> NestedCtxPool VM' = NestedCtxPool VM \<and> Config VM' = Config VM \<and>
     ExecHost VM' = ExecHost VM \<and> Iso VM' = Iso VM \<and> map_option RtConfig (RT VM') = map_option RtConfig (RT VM)"

lemma same_insts_refl [simp]: "same_insts VM VM"
  by (simp add: same_insts_def)

lemma same_insts_trans: "same_insts VM VM' \<Longrightarrow> same_insts VM' VM'' \<Longrightarrow> same_insts VM VM''"
  by (simp add: same_insts_def)

text \<open>The module behind an address, in the machine.\<close>

definition module_at :: "nat \<Rightarrow> DTVM \<Rightarrow> EVMModule option" where
  "module_at p VM = (case RT VM of None \<Rightarrow> None | Some R \<Rightarrow> map_option snd (at p (EVMModulePool R)))"

lemma module_at_update [simp]:
  "module_at p (VM\<lparr>L0Mod := x\<rparr>) = module_at p VM" "module_at p (VM\<lparr>LastCodePtr := y\<rparr>) = module_at p VM"
  "module_at p (VM\<lparr>LastCodeSize := z\<rparr>) = module_at p VM" "module_at p (VM\<lparr>LRUOrder := ks\<rparr>) = module_at p VM"
  "module_at p (VM\<lparr>AddrCache := al\<rparr>) = module_at p VM" "module_at p (VM\<lparr>ModCounter := c\<rparr>) = module_at p VM"
  "module_at p (VM\<lparr>ExecHost := h\<rparr>) = module_at p VM" "module_at p (VM\<lparr>Iso := b\<rparr>) = module_at p VM"
  "module_at p (VM\<lparr>CachedMainInst := i\<rparr>) = module_at p VM" "module_at p (VM\<lparr>CacheInsts := is\<rparr>) = module_at p VM"
  "module_at p (VM\<lparr>CachedCtx := d\<rparr>) = module_at p VM" "module_at p (VM\<lparr>NestedCtxPool := cs\<rparr>) = module_at p VM"
  by (simp_all add: module_at_def)

lemma blank_module_simps [simp]:
  "Code (blank_module c rv) = c" "Revision (blank_module c rv) = rv" "validateCodeMatch c (blank_module c rv)"
  by (simp_all add: blank_module_def validateCodeMatch_def Let_def)

section \<open>Removing an entry\<close>

lemma remove1_last: "distinct xs \<Longrightarrow> xs \<noteq> [] \<Longrightarrow> remove1 (last xs) xs = butlast xs"
  by (induction xs) auto

lemma distinct_snd: "distinct (map snd al) \<Longrightarrow> (k, p) \<in> set al \<Longrightarrow> (k', p) \<in> set al \<Longrightarrow> k' = k"
  by (induction al) force+

definition drop_entry :: "CodeAddrRevKey \<Rightarrow> Runtime \<Rightarrow> DTVM \<Rightarrow> DTVM" where
  "drop_entry K R VM = VM\<lparr>RT := Some R, LRUOrder := remove1 K (LRUOrder VM), AddrCache := AList.delete K (AddrCache VM)\<rparr>"

lemma drop_entry_ok:
  assumes inv: "cache_inv E T VM" and K: "map_of (AddrCache VM) K = Some p"
  obtains R where "vm_unload p VM = Inr (VM\<lparr>RT := Some R\<rparr>)" "cache_inv E T (drop_entry K R VM)"
    "same_insts VM (drop_entry K R VM)" "\<forall>q. module_at q (drop_entry K R VM) = (if q = p then None else module_at q VM)"
proof -
  have Kp: "(K, p) \<in> set (AddrCache VM)" by (rule map_of_SomeD [OF K])
  then have "AddrCache VM \<noteq> []" by auto
  then obtain R0 where R0: "RT VM = Some R0" using cache_inv_runtime [OF inv] by blast
  note i = pool_invD [OF cache_invD [OF inv R0]]
  have "at p (EVMModulePool R0) \<noteq> None" using i(6) [OF Kp] by auto
  then obtain P where P: "unloadEVMModule p R0 = Inr (True, R0\<lparr>EVMModulePool := P\<rparr>)" "pool_ok E P"
    "\<forall>q. at q P = (if q = p then None else at q (EVMModulePool R0))" "fst ` set P \<subseteq> fst ` set (EVMModulePool R0)"
    by (rule unload_ok [OF i(1)])
  have other: "q \<noteq> p" if "(k, q) \<in> set (AddrCache VM)" "k \<noteq> K" for k q
    using distinct_snd [OF i(3) Kp, of k] that by auto
  have same: "q = p" if "(K, q) \<in> set (AddrCache VM)" for q
    using eq_key_imp_eq_value [OF i(2) that Kp] .
  have del: "set (AList.delete K (AddrCache VM)) = {e \<in> set (AddrCache VM). fst e \<noteq> K}"
    by (auto simp: AList.delete_eq)
  have lv: "set (live P) = set (live (EVMModulePool R0)) - {p}"
    unfolding set_eq_iff using P(3) at_None [of _ P] at_None [of _ "EVMModulePool R0"] by (metis Diff_iff singleton_iff)
  have keys: "fst ` set (AList.delete K (AddrCache VM)) = fst ` set (AddrCache VM) - {K}" by (auto simp: del)
  have vals: "snd ` set (AList.delete K (AddrCache VM)) = snd ` set (AddrCache VM) - {p}"
  proof (intro set_eqI)
    fix q
    have "q \<in> snd ` {e \<in> set (AddrCache VM). fst e \<noteq> K} \<longleftrightarrow> (\<exists>k. (k, q) \<in> set (AddrCache VM) \<and> k \<noteq> K)" by force
    moreover have "q \<in> snd ` set (AddrCache VM) \<longleftrightarrow> (\<exists>k. (k, q) \<in> set (AddrCache VM))" by force
    ultimately show "q \<in> snd ` set (AList.delete K (AddrCache VM)) \<longleftrightarrow> q \<in> snd ` set (AddrCache VM) - {p}"
      unfolding del using other [of _ q] same [of q] by blast
  qed
  have nT: "p \<notin> T" using i(8) Kp by force
  have rev: "\<exists>n m. at q P = Some (n, m) \<and> Revision m = snd k" if "(k, q) \<in> set (AList.delete K (AddrCache VM))" for k q
  proof -
    have kq: "(k, q) \<in> set (AddrCache VM)" "k \<noteq> K" using that by (auto simp: del)
    show ?thesis using i(6) [OF kq(1)] other [OF kq] P(3) by simp
  qed
  have "pool_inv E T P (drop_entry K (R0\<lparr>EVMModulePool := P\<rparr>) VM)"
    unfolding pool_inv_def drop_entry_def
  proof (simp add: keys vals i(4,5) P(2) lv i(7), intro conjI)
    show "distinct (map fst (AList.delete K (AddrCache VM)))" "distinct (map snd (AList.delete K (AddrCache VM)))"
      using i(2,3) by (simp_all add: AList.delete_eq distinct_map_filter)
    show "\<forall>(k, p) \<in> set (AList.delete K (AddrCache VM)). \<exists>n m. at p P = Some (n, m) \<and> Revision m = snd k"
      using rev by blast
    show "snd ` set (AddrCache VM) \<union> T - {p} = snd ` set (AddrCache VM) - {p} \<union> T" using nT by blast
    show "(snd ` set (AddrCache VM) - {p}) \<inter> T = {}" using i(8) by blast
    show "fst ` set P \<subseteq> module_names (unat (ModCounter VM))" using P(4) i(9) by (rule order_trans)
  qed
  then have "cache_inv E T (drop_entry K (R0\<lparr>EVMModulePool := P\<rparr>) VM)"
    by (simp add: cache_inv_def) (simp add: drop_entry_def)
  then show thesis
    by (rule that [rotated]) (use P(1,3) R0 in \<open>auto simp: vm_unload_def same_insts_def drop_entry_def module_at_def\<close>)
qed

section \<open>Eviction\<close>

lemma evict_stale_ok:
  assumes "cache_inv E T VM"
  obtains VM' where "evict_stale K M VM = Inr VM'" "cache_inv E T VM'" "same_insts VM VM'" "map_of (AddrCache VM') K = None"
    "ModCounter VM' = ModCounter VM" "set (AddrCache VM') \<subseteq> set (AddrCache VM)"
    "\<forall>q. module_at q VM' = (if map_of (AddrCache VM) K = Some q then None else module_at q VM)"
proof (cases "map_of (AddrCache VM) K")
  case None
  then show thesis using that [of VM] assms by (simp add: evict_stale_def)
next
  case (Some p)
  let ?V = "if L0Mod VM = Some p \<and> m_depth M = 0 then VM\<lparr>L0Mod := None\<rparr> else VM"
  have V: "cache_inv E T ?V" "map_of (AddrCache ?V) K = Some p" using assms Some by simp_all
  obtain R where R: "vm_unload p ?V = Inr (?V\<lparr>RT := Some R\<rparr>)" "cache_inv E T (drop_entry K R ?V)"
    "same_insts ?V (drop_entry K R ?V)" "\<forall>q. module_at q (drop_entry K R ?V) = (if q = p then None else module_at q ?V)"
    by (rule drop_entry_ok [OF V])
  have "evict_stale K M VM = Inr (drop_entry K R ?V)"
    using Some R(1) by (simp add: evict_stale_def drop_entry_def Let_def)
  moreover have "same_insts VM (drop_entry K R ?V)" using R(3) by (simp add: same_insts_def split: if_splits)
  moreover have "map_of (AddrCache (drop_entry K R ?V)) K = None" by (simp add: drop_entry_def AList.delete_conv')
  moreover have "set (AddrCache (drop_entry K R ?V)) \<subseteq> set (AddrCache VM)" by (auto simp: drop_entry_def AList.delete_eq)
  moreover have "ModCounter (drop_entry K R ?V) = ModCounter VM" by (simp add: drop_entry_def)
  moreover have "\<forall>q. module_at q (drop_entry K R ?V) = (if map_of (AddrCache VM) K = Some q then None else module_at q VM)"
    using R(4) Some by (auto simp: module_at_def)
  ultimately show thesis using that R(2) by blast
qed

text \<open>
  The loop stops below the limit, or at an entry that an instance refers to. It removes no module that an
  instance refers to.
\<close>

definition lru_blocked :: "DTVM \<Rightarrow> bool" where
  "lru_blocked VM \<longleftrightarrow> LRUOrder VM \<noteq> [] \<and>
     (case map_of (AddrCache VM) (last (LRUOrder VM)) of None \<Rightarrow> False | Some p \<Rightarrow> isModuleInUse p VM)"

definition evicted :: "'h ext \<Rightarrow> nat set \<Rightarrow> DTVM \<Rightarrow> DTVM \<Rightarrow> bool" where
  "evicted E T VM VM' \<longleftrightarrow> cache_inv E T VM' \<and> same_insts VM VM' \<and> ModCounter VM' = ModCounter VM \<and>
     set (AddrCache VM') \<subseteq> set (AddrCache VM) \<and>
     (\<forall>q. isModuleInUse q VM \<or> q \<in> T \<longrightarrow> module_at q VM' = module_at q VM) \<and>
     (\<forall>q. module_at q VM' \<noteq> None \<longrightarrow> module_at q VM' = module_at q VM) \<and>
     (length (AddrCache VM') < MAX_MODULE_CACHE_SIZE \<or> lru_blocked VM')"

lemma evictedD:
  assumes "evicted E T VM VM'"
  shows "cache_inv E T VM'" "same_insts VM VM'" "ModCounter VM' = ModCounter VM" "set (AddrCache VM') \<subseteq> set (AddrCache VM)"
    "isModuleInUse q VM \<or> q \<in> T \<Longrightarrow> module_at q VM' = module_at q VM"
    "module_at q VM' \<noteq> None \<Longrightarrow> module_at q VM' = module_at q VM"
    "length (AddrCache VM') < MAX_MODULE_CACHE_SIZE \<or> lru_blocked VM'"
  using assms unfolding evicted_def by blast+

lemma inv_LRU: "cache_inv E T VM \<Longrightarrow> set (LRUOrder VM) = fst ` set (AddrCache VM)" "cache_inv E T VM \<Longrightarrow> distinct (LRUOrder VM)"
  by (auto simp: cache_inv_def dest: pool_invD split: option.splits)

lemma isModuleInUse_same: "same_insts VM VM' \<Longrightarrow> isModuleInUse q VM' = isModuleInUse q VM"
  by (simp add: same_insts_def isModuleInUse_def)

lemma entry_not_transient:
  assumes "cache_inv E T VM" and Kp: "(K, p) \<in> set (AddrCache VM)"
  shows "p \<notin> T"
proof -
  have "AddrCache VM \<noteq> []" using Kp by auto
  then obtain R where "RT VM = Some R" using cache_inv_runtime [OF assms(1)] by blast
  from pool_invD(8) [OF cache_invD [OF assms(1) this]] Kp show ?thesis by force
qed

lemma cached_not_transient: "cache_inv E T VM \<Longrightarrow> map_of (AddrCache VM) K = Some p \<Longrightarrow> p \<notin> T"
  using entry_not_transient map_of_SomeD by fast

lemma evicted_step:
  assumes "evicted E T V VM'" and "same_insts VM V" and "ModCounter V = ModCounter VM" and "set (AddrCache V) \<subseteq> set (AddrCache VM)"
    and "\<forall>q. module_at q V = (if q = p then None else module_at q VM)" and "\<not> isModuleInUse p VM" and "p \<notin> T"
  shows "evicted E T VM VM'"
  unfolding evicted_def
proof (intro conjI allI impI)
  have e: "cache_inv E T VM'" "same_insts V VM'" "ModCounter VM' = ModCounter V" "set (AddrCache VM') \<subseteq> set (AddrCache V)"
    "\<forall>q. isModuleInUse q V \<or> q \<in> T \<longrightarrow> module_at q VM' = module_at q V"
    "\<forall>q. module_at q VM' \<noteq> None \<longrightarrow> module_at q VM' = module_at q V"
    "length (AddrCache VM') < MAX_MODULE_CACHE_SIZE \<or> lru_blocked VM'"
    using assms(1) by (simp_all add: evicted_def)
  show "cache_inv E T VM'" "same_insts VM VM'" "ModCounter VM' = ModCounter VM"
    "set (AddrCache VM') \<subseteq> set (AddrCache VM)" "length (AddrCache VM') < MAX_MODULE_CACHE_SIZE \<or> lru_blocked VM'"
    using e(1-4,7) assms(2-4) same_insts_trans by auto
  show "module_at q VM' = module_at q VM" if "module_at q VM' \<noteq> None" for q
    using spec [OF e(6), of q] spec [OF assms(5), of q] that by (auto split: if_splits)
  fix q assume q: "isModuleInUse q VM \<or> q \<in> T"
  then have "q \<noteq> p" using assms(6,7) by auto
  moreover have "isModuleInUse q V \<or> q \<in> T" using q isModuleInUse_same [OF assms(2)] by simp
  ultimately show "module_at q VM' = module_at q VM" using e(5) spec [OF assms(5), of q] by auto
qed

lemma evict_lru_ok: "cache_inv E T VM \<Longrightarrow> \<exists>VM'. evict_lru VM = Inr VM' \<and> evicted E T VM VM'"
proof (induction VM rule: evict_lru.induct)
  case (1 VM)
  let ?K = "last (LRUOrder VM)"
  show ?case
  proof (cases "MAX_MODULE_CACHE_SIZE \<le> length (AddrCache VM) \<and> LRUOrder VM \<noteq> []")
    case False
    then have "length (AddrCache VM) < MAX_MODULE_CACHE_SIZE" using inv_LRU(1) [OF "1.prems"] by (auto simp: MAX_MODULE_CACHE_SIZE_def)
    then show ?thesis using "1.prems" by (subst evict_lru.simps) (simp add: evicted_def)
  next
    case True
    then have "?K \<in> fst ` set (AddrCache VM)" using inv_LRU(1) [OF "1.prems"] last_in_set [of "LRUOrder VM"] by simp
    then obtain p where p: "map_of (AddrCache VM) ?K = Some p" by (auto simp: dom_map_of_conv_image_fst [symmetric])
    show ?thesis
    proof (cases "isModuleInUse p VM")
      case use: True
      have "evict_lru VM = Inr VM" using True p use by (subst evict_lru.simps) simp
      then show ?thesis using "1.prems" True p use by (simp add: evicted_def lru_blocked_def)
    next
      case unused: False
      let ?V = "if L0Mod VM = Some p then VM\<lparr>L0Mod := None\<rparr> else VM"
      have V: "cache_inv E T ?V" "map_of (AddrCache ?V) ?K = Some p" using "1.prems" p by simp_all
      obtain R where R: "vm_unload p ?V = Inr (?V\<lparr>RT := Some R\<rparr>)" "cache_inv E T (drop_entry ?K R ?V)"
        "same_insts ?V (drop_entry ?K R ?V)" "\<forall>q. module_at q (drop_entry ?K R ?V) = (if q = p then None else module_at q ?V)"
        by (rule drop_entry_ok [OF V])
      have d: "drop_entry ?K R ?V = (?V\<lparr>RT := Some R\<rparr>)\<lparr>AddrCache := AList.delete ?K (AddrCache (?V\<lparr>RT := Some R\<rparr>)),
          LRUOrder := butlast (LRUOrder VM)\<rparr>"
        using remove1_last [OF inv_LRU(2) [OF "1.prems"]] True by (simp add: drop_entry_def)
      obtain VM' where VM': "evict_lru (drop_entry ?K R ?V) = Inr VM'" "evicted E T (drop_entry ?K R ?V) VM'"
        using "1.IH"(2) [OF True refl p unused R(1)] R(2) unfolding d by blast
      have "evict_lru VM = Inr VM'" using True p unused R(1) VM'(1) unfolding d by (subst evict_lru.simps) simp
      moreover have "evicted E T VM VM'"
      proof (rule evicted_step [OF VM'(2) _ _ _ _ unused cached_not_transient [OF "1.prems" p]])
        show "same_insts VM (drop_entry ?K R ?V)" using R(3) by (simp add: same_insts_def split: if_splits)
        show "ModCounter (drop_entry ?K R ?V) = ModCounter VM" "set (AddrCache (drop_entry ?K R ?V)) \<subseteq> set (AddrCache VM)"
          by (auto simp: drop_entry_def AList.delete_eq)
        show "\<forall>q. module_at q (drop_entry ?K R ?V) = (if q = p then None else module_at q VM)"
          using R(4) by (auto simp: module_at_def)
      qed
      ultimately show ?thesis by blast
    qed
  qed
qed

section \<open>Loading\<close>

lemma pool_inv_new:
  assumes "pool_inv E T P VM" and "pool_ok E ((Name, p, m) # P)" and "at p P = None"
    and "Name \<in> module_names (unat (ModCounter VM) + 1)" and "unat (ModCounter VM) + 1 < 2 ^ 64"
  shows "pool_inv E (insert p T) ((Name, p, m) # P) (VM\<lparr>ModCounter := ModCounter VM + 1\<rparr>)"
proof -
  note i = pool_invD [OF assms(1)]
  have c: "unat (ModCounter VM + 1) = unat (ModCounter VM) + 1" using assms(5) by (simp add: unat_word_ariths)
  have p: "p \<notin> set (live P)" using assms(3) by (simp add: at_None)
  have "\<exists>n m'. at q ((Name, p, m) # P) = Some (n, m') \<and> Revision m' = snd k" if "(k, q) \<in> set (AddrCache VM)" for k q
    using i(6) [OF that] assms(3) by (auto simp: at_Cons)
  moreover have "p \<notin> snd ` set (AddrCache VM)" using p i(7) by blast
  moreover have "fst ` set ((Name, p, m) # P) \<subseteq> module_names (unat (ModCounter VM) + 1)"
    using i(9) module_names_mono [of "unat (ModCounter VM)" "unat (ModCounter VM) + 1"] assms(4) by auto
  ultimately show ?thesis using i(2-5,7,8) assms(2) c unfolding pool_inv_def by (auto simp: live_def)
qed

definition loaded :: "string \<Rightarrow> nat \<Rightarrow> EVMModule \<Rightarrow> Runtime \<Rightarrow> DTVM \<Rightarrow> DTVM" where
  "loaded Name p m R VM = VM\<lparr>ModCounter := ModCounter VM + 1, RT := Some (R\<lparr>EVMModulePool := (Name, p, m) # EVMModulePool R\<rparr>)\<rparr>"

lemma loaded_ok:
  assumes "cache_inv E T VM" and "RT VM = Some R" and "at p (EVMModulePool R) = None"
    and "pool_ok E ((Name, p, m) # EVMModulePool R)" and "Name \<in> module_names (unat (ModCounter VM) + 1)"
    and "unat (ModCounter VM) + 1 < 2 ^ 64"
  shows "cache_inv E (insert p T) (loaded Name p m R VM)" "same_insts VM (loaded Name p m R VM)" "module_at p VM = None"
    "module_at q (loaded Name p m R VM) = (if q = p then Some m else module_at q VM)"
    "AddrCache (loaded Name p m R VM) = AddrCache VM" "LRUOrder (loaded Name p m R VM) = LRUOrder VM"
proof -
  show "cache_inv E (insert p T) (loaded Name p m R VM)"
    using pool_inv_new [OF cache_invD [OF assms(1,2)] assms(4,3,5,6)] by (simp add: cache_inv_def pool_inv_def loaded_def)
qed (use assms(2,3) in \<open>simp_all add: same_insts_def module_at_def at_Cons loaded_def\<close>)

lemma not_loaded_ok:
  assumes "cache_inv E T VM" and "unat (ModCounter VM) + 1 < 2 ^ 64"
  shows "cache_inv E T (VM\<lparr>ModCounter := ModCounter VM + 1\<rparr>)"
proof (cases "RT VM")
  case (Some R)
  note i = cache_invD [OF assms(1) Some]
  have "fst ` set (EVMModulePool R) \<subseteq> module_names (unat (ModCounter VM) + 1)"
    using pool_invD(9) [OF i] module_names_mono [of "unat (ModCounter VM)" "unat (ModCounter VM) + 1"] by auto
  moreover have "unat (ModCounter VM + 1) = unat (ModCounter VM) + 1" using assms(2) by (simp add: unat_word_ariths)
  ultimately show ?thesis using i Some by (simp add: cache_inv_def pool_inv_def)
qed (use assms(1) in \<open>simp add: cache_inv_def\<close>)

text \<open>What a load gives: a module that is not yet in the cache, or nothing.\<close>

lemma vm_load_cases:
  assumes inv: "cache_inv E T VM" and R: "RT VM = Some R" and X: "fresh X"
    and new: "Name \<notin> fst ` set (EVMModulePool R)" and "Name \<noteq> []"
  obtains (loaded) p where "at p (EVMModulePool R) = None" "pool_ok E ((Name, p, blank_module (snd Raw) rv) # EVMModulePool R)"
      "loadEVMModuleWithRegAllocRetry X Name Raw rv (VM\<lparr>ModCounter := ModCounter VM + 1\<rparr>) =
        Inr (Some p, loaded Name p (blank_module (snd Raw) rv) R VM)"
  | (failed) "\<not> loadable X (RtConfig R) Raw rv"
      "loadEVMModuleWithRegAllocRetry X Name Raw rv (VM\<lparr>ModCounter := ModCounter VM + 1\<rparr>) =
        Inr (None, VM\<lparr>ModCounter := ModCounter VM + 1\<rparr>)"
proof -
  let ?V = "VM\<lparr>ModCounter := ModCounter VM + 1\<rparr>"
  let ?S = "R\<lparr>RtConfig := (Config VM)\<lparr>DisableMultipassGreedyRA := True\<rparr>\<rparr>"
  have P: "pool_ok E (EVMModulePool R)" by (rule pool_invD(1) [OF cache_invD [OF inv R]])
  note first = load_ok [OF P X new \<open>Name \<noteq> []\<close>, of Raw rv]
  note second = load_ok [of E ?S X Name Raw rv, simplified, OF P X new \<open>Name \<noteq> []\<close>]
  show thesis
  proof (cases "loadable X (RtConfig R) Raw rv")
    case True
    then show thesis using first R by (auto intro!: loaded simp: loadEVMModuleWithRegAllocRetry_def loaded_def)
  next
    case False
    then obtain e where e: "loadEVMModule X Name Raw rv R = Inl (Throw e)" using first by auto
    show thesis
    proof (cases "shouldRetryModuleLoadWithFastRA ?V e \<and> loadable X (RtConfig ?S) Raw rv")
      case retry: True
      then show thesis using e second R
        by (auto intro!: loaded simp: loadEVMModuleWithRegAllocRetry_def loaded_def Let_def)
    next
      case no: False
      then show thesis using e second R False
        by (auto intro!: failed simp: loadEVMModuleWithRegAllocRetry_def Let_def split: if_splits)
    qed
  qed
qed

section \<open>Looking up a module\<close>

lemma update_new: "K \<notin> fst ` set al \<Longrightarrow> AList.update K p al = al @ [(K, p)]"
  by (induction al) auto

lemma validate_self [simp]: "validateCodeMatch (Code m) m"
  by (simp add: validateCodeMatch_def Let_def)

lemma module_at_pool: "RT VM = Some R \<Longrightarrow> module_at p VM = Some m \<longleftrightarrow> (\<exists>n. at p (EVMModulePool R) = Some (n, m))"
  by (auto simp: module_at_def)

lemma cache_entry:
  assumes "cache_inv E T VM" and "map_of (AddrCache VM) K = Some p"
  obtains R n m where "RT VM = Some R" "at p (EVMModulePool R) = Some (n, m)" "Revision m = snd K"
proof -
  have Kp: "(K, p) \<in> set (AddrCache VM)" by (rule map_of_SomeD [OF assms(2)])
  then have "AddrCache VM \<noteq> []" by auto
  then obtain R where "RT VM = Some R" using cache_inv_runtime [OF assms(1)] by blast
  then show thesis using that pool_invD(6) [OF cache_invD [OF assms(1)] Kp] by blast
qed

lemma touch_ok:
  assumes "cache_inv E T VM" and "map_of (AddrCache VM) K = Some p"
  shows "cache_inv E T (VM\<lparr>LRUOrder := K # remove1 K (LRUOrder VM)\<rparr>)"
proof -
  obtain R where R: "RT VM = Some R" by (rule cache_entry [OF assms])
  note i = pool_invD [OF cache_invD [OF assms(1) R]]
  have "K \<in> fst ` set (AddrCache VM)" using map_of_SomeD [OF assms(2)] by force
  then have "distinct (K # remove1 K (LRUOrder VM))" "set (K # remove1 K (LRUOrder VM)) = fst ` set (AddrCache VM)"
    using i(4,5) by auto
  then show ?thesis using cache_invD [OF assms(1) R] R by (simp add: cache_inv_def pool_inv_def)
qed

lemma insert_entry:
  assumes "cache_inv E (insert p T) VM" and "p \<notin> T" and "map_of (AddrCache VM) K = None"
    and "module_at p VM = Some m" and "Revision m = snd K"
  shows "cache_inv E T (VM\<lparr>LRUOrder := K # LRUOrder VM, AddrCache := AList.update K p (AddrCache VM)\<rparr>)"
proof -
  obtain R where R: "RT VM = Some R" using assms(4) by (auto simp: module_at_def split: option.splits)
  note i = pool_invD [OF cache_invD [OF assms(1) R]]
  have K: "K \<notin> fst ` set (AddrCache VM)" using assms(3) by (simp add: map_of_eq_None_iff)
  have p: "p \<notin> snd ` set (AddrCache VM)" using i(8) by blast
  have m: "\<exists>n m. at p (EVMModulePool R) = Some (n, m) \<and> Revision m = snd K" using assms(4,5) module_at_pool [OF R] by blast
  have "pool_inv E T (EVMModulePool R) (VM\<lparr>LRUOrder := K # LRUOrder VM, AddrCache := AddrCache VM @ [(K, p)]\<rparr>)"
    using i(1-5,7-9) i(6) K p m assms(2) by (simp add: pool_inv_def split_beta)
  then show ?thesis using R by (simp add: cache_inv_def update_new [OF K])
qed

text \<open>
  What the lookup gives. A module of an instance is lost only if it is the stale entry for the code address.
\<close>

definition stale :: "raw_data \<Rightarrow> evmc_revision \<Rightarrow> evmc_message \<Rightarrow> DTVM \<Rightarrow> nat \<Rightarrow> bool" where
  "stale Raw rv M VM q \<longleftrightarrow> shouldUsePersistentModuleCache M \<and> map_of (AddrCache VM) (m_code_address M, rv) = Some q \<and>
     \<not> (\<exists>m. module_at q VM = Some m \<and> validateCodeMatch (snd Raw) m)"

definition keeps :: "(nat \<Rightarrow> bool) \<Rightarrow> DTVM \<Rightarrow> DTVM \<Rightarrow> bool" where
  "keeps Q VM VM' \<longleftrightarrow> (\<forall>q. Q q \<and> module_at q VM \<noteq> None \<longrightarrow> module_at q VM' = module_at q VM)"

definition found ::
  "'h ext \<Rightarrow> nat set \<Rightarrow> raw_data \<Rightarrow> evmc_revision \<Rightarrow> evmc_message \<Rightarrow> DTVM \<Rightarrow> nat option \<Rightarrow> bool \<Rightarrow> DTVM \<Rightarrow> bool" where
  "found E T Raw rv M VM Mo tr VM' \<longleftrightarrow> tr = (\<not> shouldUsePersistentModuleCache M) \<and> same_insts VM VM' \<and>
     keeps (\<lambda>q. q \<in> T \<or> isModuleInUse q VM \<and> \<not> stale Raw rv M VM q) VM VM' \<and>
     (\<forall>q. module_at q VM' \<noteq> None \<longrightarrow> module_at q VM' = module_at q VM \<or>
        Mo = Some q \<and> module_at q VM' = Some (blank_module (snd Raw) rv)) \<and>
     set (AddrCache VM') \<subseteq> set (AddrCache VM) \<union> (case Mo of None \<Rightarrow> {} | Some p \<Rightarrow> {((m_code_address M, rv), p)}) \<and>
     (case Mo of
        None \<Rightarrow> cache_inv E T VM'
      | Some p \<Rightarrow> p \<notin> T \<and> cache_inv E (if tr then insert p T else T) VM' \<and>
          (\<exists>m. module_at p VM' = Some m \<and> Revision m = rv \<and> validateCodeMatch (snd Raw) m) \<and>
          (\<not> tr \<and> map_of (AddrCache VM) (m_code_address M, rv) = Some p \<or> module_at p VM' = Some (blank_module (snd Raw) rv)) \<and>
          (tr \<longrightarrow> module_at p VM = None) \<and>
          (\<not> tr \<longrightarrow> map_of (AddrCache VM') (m_code_address M, rv) = Some p \<and> hd (LRUOrder VM') = (m_code_address M, rv)))"

lemma found_None: "found E T Raw rv M VM None tr VM' \<Longrightarrow> cache_inv E T VM'"
  by (simp add: found_def)

lemma found_Some:
  assumes "found E T Raw rv M VM (Some p) tr VM'"
  shows "p \<notin> T" "cache_inv E (if tr then insert p T else T) VM'"
    "\<exists>m. module_at p VM' = Some m \<and> Revision m = rv \<and> validateCodeMatch (snd Raw) m" "tr \<longrightarrow> module_at p VM = None"
  using assms unfolding found_def option.case by blast+

lemma keeps_mono: "keeps Q VM VM' \<Longrightarrow> (\<And>q. Q' q \<Longrightarrow> Q q) \<Longrightarrow> keeps Q' VM VM'"
  by (auto simp: keeps_def)

lemma keeps_trans: "keeps Q VM VM' \<Longrightarrow> keeps Q VM' VM'' \<Longrightarrow> keeps Q VM VM''"
  by (simp add: keeps_def)

lemma transient_at: "cache_inv E T VM \<Longrightarrow> q \<in> T \<Longrightarrow> module_at q VM \<noteq> None"
  using pool_invD(7) [OF cache_invD [of E T VM]] at_None
  by (cases "RT VM") (auto simp: cache_inv_def module_at_def dest: pool_invD(7))

text \<open>A load under a new name.\<close>

lemma load_step:
  assumes inv: "cache_inv E T VM" and R: "RT VM = Some R" and X: "fresh X" and c: "unat (ModCounter VM) + 1 < 2 ^ 64"
    and Name: "Name = ''mod_'' @ to_string (unat (ModCounter VM)) \<or> Name = ''tmp_mod_'' @ to_string (unat (ModCounter VM))"
  obtains (loaded) p VM' where
      "loadEVMModuleWithRegAllocRetry X Name Raw rv (VM\<lparr>ModCounter := ModCounter VM + 1\<rparr>) = Inr (Some p, VM')"
      "cache_inv E (insert p T) VM'" "p \<notin> T" "same_insts VM VM'" "keeps Q VM VM'"
      "\<forall>q. module_at q VM' = (if q = p then Some (blank_module (snd Raw) rv) else module_at q VM)" "AddrCache VM' = AddrCache VM"
      "module_at p VM = None"
  | (failed) VM' where "\<not> loadable X (RtConfig R) Raw rv"
      "loadEVMModuleWithRegAllocRetry X Name Raw rv (VM\<lparr>ModCounter := ModCounter VM + 1\<rparr>) = Inr (None, VM')"
      "cache_inv E T VM'" "same_insts VM VM'" "keeps Q VM VM'" "\<forall>q. module_at q VM' = module_at q VM" "AddrCache VM' = AddrCache VM"
proof -
  have nn: "Name \<noteq> []" "Name \<notin> module_names (unat (ModCounter VM))" "Name \<in> module_names (unat (ModCounter VM) + 1)"
    using Name new_name module_names_Suc by auto
  then have new: "Name \<notin> fst ` set (EVMModulePool R)" using pool_invD(9) [OF cache_invD [OF inv R]] by blast
  show thesis
  proof (rule vm_load_cases [OF inv R X new nn(1), of Raw rv])
    fix p
    assume a: "at p (EVMModulePool R) = None" "pool_ok E ((Name, p, blank_module (snd Raw) rv) # EVMModulePool R)"
      "loadEVMModuleWithRegAllocRetry X Name Raw rv (VM\<lparr>ModCounter := ModCounter VM + 1\<rparr>) =
        Inr (Some p, loaded Name p (blank_module (snd Raw) rv) R VM)"
    note l = loaded_ok [OF inv R a(1,2) nn(3) c]
    have "p \<notin> T" using transient_at [OF inv, of p] l(3) by auto
    moreover have "keeps Q VM (loaded Name p (blank_module (snd Raw) rv) R VM)" using l(3,4) by (simp add: keeps_def)
    ultimately show thesis using loaded a(3) l by simp
  next
    assume "\<not> loadable X (RtConfig R) Raw rv"
      "loadEVMModuleWithRegAllocRetry X Name Raw rv (VM\<lparr>ModCounter := ModCounter VM + 1\<rparr>) =
        Inr (None, VM\<lparr>ModCounter := ModCounter VM + 1\<rparr>)"
    moreover have "same_insts VM (VM\<lparr>ModCounter := ModCounter VM + 1\<rparr>)" "keeps Q VM (VM\<lparr>ModCounter := ModCounter VM + 1\<rparr>)"
      "\<forall>q. module_at q (VM\<lparr>ModCounter := ModCounter VM + 1\<rparr>) = module_at q VM"
      "AddrCache (VM\<lparr>ModCounter := ModCounter VM + 1\<rparr>) = AddrCache VM"
      by (simp_all add: same_insts_def keeps_def module_at_def)
    ultimately show thesis using failed not_loaded_ok [OF inv c] by blast
  qed
qed

lemma find_transient:
  assumes "cache_inv E T VM" and "RT VM = Some R" and "fresh X" and "unat (ModCounter VM) + 1 < 2 ^ 64"
    and pers: "\<not> shouldUsePersistentModuleCache M"
  shows "\<exists>Mo VM'. findModuleCached X Raw rv M VM = Inr (Mo, True, VM') \<and> found E T Raw rv M VM Mo True VM' \<and>
    (Mo = None \<longrightarrow> \<not> loadable X (RtConfig R) Raw rv)"
proof -
  let ?L = "loadEVMModuleWithRegAllocRetry X (''tmp_mod_'' @ to_string (unat (ModCounter VM))) Raw rv (VM\<lparr>ModCounter := ModCounter VM + 1\<rparr>)"
  let ?Q = "\<lambda>q. q \<in> T \<or> isModuleInUse q VM \<and> \<not> stale Raw rv M VM q"
  have f: "findModuleCached X Raw rv M VM = bindE ?L (\<lambda>(Mo, VM). Inr (Mo, True, VM))"
    using pers by (simp add: findModuleCached_def loadTransientModule_def Let_def)
  show ?thesis
  proof (rule load_step [OF assms(1-4) disjI2 [OF refl], of Raw rv ?Q])
    fix p VM'
    assume a: "?L = Inr (Some p, VM')" "cache_inv E (insert p T) VM'" "p \<notin> T" "same_insts VM VM'" "keeps ?Q VM VM'"
      "\<forall>q. module_at q VM' = (if q = p then Some (blank_module (snd Raw) rv) else module_at q VM)" "AddrCache VM' = AddrCache VM"
      "module_at p VM = None"
    have "found E T Raw rv M VM (Some p) True VM'"
      unfolding found_def using a(2-8) pers by auto
    then show ?thesis using f a(1) by simp
  next
    fix VM'
    assume a: "\<not> loadable X (RtConfig R) Raw rv" "?L = Inr (None, VM')" "cache_inv E T VM'" "same_insts VM VM'" "keeps ?Q VM VM'"
      "\<forall>q. module_at q VM' = module_at q VM" "AddrCache VM' = AddrCache VM"
    then show ?thesis using f pers by (simp add: found_def)
  qed
qed

lemma find_hit:
  assumes "cache_inv E T VM" and "shouldUsePersistentModuleCache M"
    and K: "map_of (AddrCache VM) (m_code_address M, rv) = Some p" and "module_at p VM = Some m" and "validateCodeMatch (snd Raw) m"
  shows "\<exists>VM'. findModuleCached X Raw rv M VM = Inr (Some p, False, VM') \<and> found E T Raw rv M VM (Some p) False VM'"
proof -
  obtain R n m' where R: "RT VM = Some R" "at p (EVMModulePool R) = Some (n, m')" "Revision m' = rv"
    by (rule cache_entry [OF assms(1) K]) simp
  have m: "m' = m" using assms(4) R(1,2) by (simp add: module_at_def)
  let ?V = "VM\<lparr>LRUOrder := (m_code_address M, rv) # remove1 (m_code_address M, rv) (LRUOrder VM),
      LastCodePtr := fst Raw, LastCodeSize := length (snd Raw), L0Mod := Some p\<rparr>"
  have "findModuleCached X Raw rv M VM = Inr (Some p, False, ?V)"
    using assms(2,3,5) R m by (simp add: findModuleCached_def cached_module_def Let_def)
  moreover have "found E T Raw rv M VM (Some p) False ?V"
  proof -
    have "cache_inv E T ?V" using touch_ok [OF assms(1) K] by simp
    then show ?thesis
      using assms(2-5) R(3) m cached_not_transient [OF assms(1) K] by (simp add: found_def same_insts_def keeps_def subset_insertI)
  qed
  ultimately show ?thesis by blast
qed

text \<open>Eviction before a load.\<close>

lemma evict_both:
  assumes "cache_inv E T VM"
  obtains V W where "evict_stale K M VM = Inr V" "evict_lru V = Inr W" "evicted E T V W" "same_insts VM W" "ModCounter W = ModCounter VM"
    "map_of (AddrCache W) K = None" "keeps (\<lambda>q. q \<in> T \<or> isModuleInUse q VM \<and> map_of (AddrCache VM) K \<noteq> Some q) VM W"
    "\<forall>q. module_at q W \<noteq> None \<longrightarrow> module_at q W = module_at q VM" "set (AddrCache W) \<subseteq> set (AddrCache VM)"
proof -
  obtain V where V: "evict_stale K M VM = Inr V" "cache_inv E T V" "same_insts VM V" "map_of (AddrCache V) K = None"
    "ModCounter V = ModCounter VM" "set (AddrCache V) \<subseteq> set (AddrCache VM)"
    "\<forall>q. module_at q V = (if map_of (AddrCache VM) K = Some q then None else module_at q VM)"
    by (rule evict_stale_ok [OF assms])
  obtain W where W: "evict_lru V = Inr W" "evicted E T V W" using evict_lru_ok [OF V(2)] by blast
  note e = evictedD [OF W(2)]
  have k: "module_at q W = module_at q VM" if "q \<in> T \<or> isModuleInUse q VM \<and> map_of (AddrCache VM) K \<noteq> Some q" for q
  proof -
    have "module_at q W = module_at q V" using e(5) [of q] that isModuleInUse_same [OF V(3)] by blast
    moreover have "map_of (AddrCache VM) K \<noteq> Some q" using that cached_not_transient [OF assms, of K q] by blast
    ultimately show ?thesis using V(7) by simp
  qed
  have o: "module_at q W = module_at q VM" if "module_at q W \<noteq> None" for q
    using e(6) [OF that] that spec [OF V(7), of q] by (simp split: if_splits)
  show thesis
  proof (rule that [OF V(1) W same_insts_trans [OF V(3) e(2)]])
    show "map_of (AddrCache W) K = None" using e(4) V(4) unfolding map_of_eq_None_iff by blast
    show "keeps (\<lambda>q. q \<in> T \<or> isModuleInUse q VM \<and> map_of (AddrCache VM) K \<noteq> Some q) VM W" using k by (simp add: keeps_def)
    show "\<forall>q. module_at q W \<noteq> None \<longrightarrow> module_at q W = module_at q VM" using o by blast
  qed (use e(3,4) V(5,6) in auto)
qed

lemma find_miss:
  assumes "cache_inv E T VM" and "RT VM = Some R" and "fresh X" and "unat (ModCounter VM) + 1 < 2 ^ 64"
    and "shouldUsePersistentModuleCache M"
    and miss: "\<not> (\<exists>p m. map_of (AddrCache VM) (m_code_address M, rv) = Some p \<and> module_at p VM = Some m \<and> validateCodeMatch (snd Raw) m)"
  shows "\<exists>Mo VM'. findModuleCached X Raw rv M VM = Inr (Mo, False, VM') \<and> found E T Raw rv M VM Mo False VM' \<and>
    (Mo = None \<longrightarrow> \<not> loadable X (RtConfig R) Raw rv)"
proof -
  let ?K = "(m_code_address M, rv)"
  let ?Q = "\<lambda>q. q \<in> T \<or> isModuleInUse q VM \<and> \<not> stale Raw rv M VM q"
  obtain V W where VW: "evict_stale ?K M VM = Inr V" "evict_lru V = Inr W" "evicted E T V W" "same_insts VM W"
    "ModCounter W = ModCounter VM" "map_of (AddrCache W) ?K = None"
    "keeps (\<lambda>q. q \<in> T \<or> isModuleInUse q VM \<and> map_of (AddrCache VM) ?K \<noteq> Some q) VM W"
    "\<forall>q. module_at q W \<noteq> None \<longrightarrow> module_at q W = module_at q VM" "set (AddrCache W) \<subseteq> set (AddrCache VM)"
    by (rule evict_both [OF assms(1)])
  have W: "cache_inv E T W" using VW(3) by (simp add: evicted_def)
  have k: "keeps ?Q VM W" by (rule keeps_mono [OF VW(7)]) (use miss assms(5) in \<open>auto simp: stale_def\<close>)
  obtain RW where RW: "RT W = Some RW" "RtConfig RW = RtConfig R" using VW(4) assms(2) by (auto simp: same_insts_def)
  have c: "unat (ModCounter W) + 1 < 2 ^ 64" using assms(4) VW(5) by simp
  have hit: "cached_module Raw ?K VM = Inr None"
  proof (cases "map_of (AddrCache VM) ?K")
    case (Some p)
    obtain n m where "at p (EVMModulePool R) = Some (n, m)" by (rule cache_entry [OF assms(1) Some]) (use assms(2) in auto)
    then show ?thesis using Some miss assms(2) by (auto simp: cached_module_def module_at_def)
  qed (simp add: cached_module_def)
  show ?thesis
  proof (rule load_step [OF W RW(1) assms(3) c disjI1 [OF refl], of Raw rv ?Q])
    fix p VM'
    assume a: "loadEVMModuleWithRegAllocRetry X (''mod_'' @ to_string (unat (ModCounter W))) Raw rv (W\<lparr>ModCounter := ModCounter W + 1\<rparr>) = Inr (Some p, VM')"
      "cache_inv E (insert p T) VM'" "p \<notin> T" "same_insts W VM'" "keeps ?Q W VM'"
      "\<forall>q. module_at q VM' = (if q = p then Some (blank_module (snd Raw) rv) else module_at q W)" "AddrCache VM' = AddrCache W"
    have p: "module_at p VM' = Some (blank_module (snd Raw) rv)" using a(6) by simp
    let ?Z = "VM'\<lparr>LRUOrder := ?K # LRUOrder VM', AddrCache := AList.update ?K p (AddrCache VM'),
        LastCodePtr := fst Raw, LastCodeSize := length (snd Raw), L0Mod := Some p\<rparr>"
    have f: "findModuleCached X Raw rv M VM = Inr (Some p, False, ?Z)"
      unfolding findModuleCached_def cold_load_def Let_def hit using assms(5) VW(1,2) a(1) by simp
    have "cache_inv E T ?Z" using insert_entry [OF a(2,3) _ p, of ?K] a(7) VW(6) by simp
    moreover have "same_insts VM ?Z" using same_insts_trans [OF VW(4) a(4)] by (simp add: same_insts_def)
    moreover have "keeps ?Q VM ?Z" using keeps_trans [OF k a(5)] by (simp add: keeps_def)
    moreover have "module_at q ?Z = module_at q VM \<or> p = q \<and> module_at q ?Z = Some (blank_module (snd Raw) rv)"
      if "module_at q ?Z \<noteq> None" for q
      using spec [OF a(6), of q] spec [OF VW(8), of q] that by (auto split: if_splits)
    moreover have "set (AddrCache ?Z) \<subseteq> set (AddrCache VM) \<union> {(?K, p)}"
      using VW(6,9) a(7) by (auto simp: update_new map_of_eq_None_iff)
    ultimately have "found E T Raw rv M VM (Some p) False ?Z"
      using a(3) p assms(5) by (simp add: found_def AList.update_conv')
    then show ?thesis using f by blast
  next
    fix VM'
    assume a: "\<not> loadable X (RtConfig RW) Raw rv"
      "loadEVMModuleWithRegAllocRetry X (''mod_'' @ to_string (unat (ModCounter W))) Raw rv (W\<lparr>ModCounter := ModCounter W + 1\<rparr>) = Inr (None, VM')"
      "cache_inv E T VM'" "same_insts W VM'" "keeps ?Q W VM'" "\<forall>q. module_at q VM' = module_at q W" "AddrCache VM' = AddrCache W"
    have f: "findModuleCached X Raw rv M VM = Inr (None, False, VM')"
      unfolding findModuleCached_def cold_load_def Let_def hit using assms(5) VW(1,2) a(2) by simp
    moreover have "found E T Raw rv M VM None False VM'"
      using a(3,6,7) same_insts_trans [OF VW(4) a(4)] keeps_trans [OF k a(5)] assms(5) VW(8,9) by (simp add: found_def)
    ultimately show ?thesis using a(1) RW(2) by simp
  qed
qed

lemma find_ok:
  assumes "cache_inv E T VM" and "RT VM = Some R" and "fresh X" and "unat (ModCounter VM) + 1 < 2 ^ 64"
  obtains Mo tr VM' where "findModuleCached X Raw rv M VM = Inr (Mo, tr, VM')" "found E T Raw rv M VM Mo tr VM'"
    "Mo = None \<longrightarrow> \<not> loadable X (RtConfig R) Raw rv"
proof (cases "shouldUsePersistentModuleCache M")
  case True
  show thesis
  proof (cases "\<exists>p m. map_of (AddrCache VM) (m_code_address M, rv) = Some p \<and> module_at p VM = Some m \<and> validateCodeMatch (snd Raw) m")
    case hit: True
    then show thesis using find_hit [OF assms(1) True] that by blast
  next
    case miss: False
    show thesis using find_miss [OF assms True miss] that by blast
  qed
next
  case False
  show thesis using find_transient [OF assms False] that by blast
qed

section \<open>A host whose code does not change\<close>

text \<open>The modules of the cache have the code that is deployed at their addresses.\<close>

definition code_inv :: "(address \<Rightarrow> u8 list) \<Rightarrow> DTVM \<Rightarrow> bool" where
  "code_inv cf VM \<longleftrightarrow> (\<forall>(K, q) \<in> set (AddrCache VM). \<forall>m. module_at q VM = Some m \<longrightarrow> Code m = cf (fst K))"

lemma code_inv_not_stale:
  assumes "cache_inv E T VM" and "code_inv cf VM" and "shouldUsePersistentModuleCache M \<longrightarrow> snd Raw = cf (m_code_address M)"
  shows "\<not> stale Raw rv M VM q"
proof
  assume s: "stale Raw rv M VM q"
  then have K: "map_of (AddrCache VM) (m_code_address M, rv) = Some q" "shouldUsePersistentModuleCache M" by (simp_all add: stale_def)
  obtain R n m where R: "RT VM = Some R" "at q (EVMModulePool R) = Some (n, m)" by (rule cache_entry [OF assms(1) K(1)])
  then have m: "module_at q VM = Some m" by (simp add: module_at_def)
  then have "Code m = snd Raw" using assms(2,3) K(2) map_of_SomeD [OF K(1)] by (auto simp: code_inv_def)
  then have "validateCodeMatch (snd Raw) m" using validate_self [of m] by simp
  then show False using s m by (simp add: stale_def)
qed

lemma found_code_inv:
  assumes f: "found E T Raw rv M VM Mo tr VM'" and "code_inv cf VM"
    and raw: "shouldUsePersistentModuleCache M \<Longrightarrow> snd Raw = cf (m_code_address M)"
  shows "code_inv cf VM'"
  unfolding code_inv_def
proof (intro ballI allI impI, clarify)
  fix a r q m assume e: "((a, r), q) \<in> set (AddrCache VM')" and m: "module_at q VM' = Some m"
  have sub: "set (AddrCache VM') \<subseteq> set (AddrCache VM) \<union> (case Mo of None \<Rightarrow> {} | Some p \<Rightarrow> {((m_code_address M, rv), p)})"
    and new: "module_at q VM' = module_at q VM \<or> Mo = Some q \<and> module_at q VM' = Some (blank_module (snd Raw) rv)"
    and tr: "tr = (\<not> shouldUsePersistentModuleCache M)"
    using f m by (auto simp: found_def)
  have Mo: "\<not> tr \<and> map_of (AddrCache VM') (m_code_address M, rv) = Some p \<and> snd Raw = cf (m_code_address M) \<and>
      (map_of (AddrCache VM) (m_code_address M, rv) = Some p \<or> module_at p VM' = Some (blank_module (snd Raw) rv))"
    if "Mo = Some p" "\<not> tr" for p
    using f that raw tr by (auto simp: found_def)
  define T' where "T' = (case Mo of None \<Rightarrow> T | Some p \<Rightarrow> if tr then insert p T else T)"
  have inv: "cache_inv E T' VM'" using f by (cases Mo; cases tr) (simp_all add: found_def T'_def)
  have "AddrCache VM' \<noteq> []" using e by auto
  then obtain R where "RT VM' = Some R" using cache_inv_runtime [OF inv] by blast
  note i = pool_invD [OF cache_invD [OF inv this]]
  show "Code m = cf (fst (a, r))"
  proof (cases "Mo = Some q")
    case True
    have "q \<in> snd ` set (AddrCache VM')" using e by force
    then have "q \<notin> T'" using i(8) by blast
    then have "\<not> tr" using True by (auto simp: T'_def)
    note k = Mo [OF True this]
    have "((m_code_address M, rv), q) \<in> set (AddrCache VM')" using k map_of_SomeD by fast
    from distinct_snd [OF i(3) this e] have a: "a = m_code_address M" by simp
    have "Code m = cf a"
    proof (cases "module_at q VM' = Some (blank_module (snd Raw) rv)")
      case True
      then have "Code m = snd Raw" using m by simp
      then show ?thesis using k a by simp
    next
      case False
      then have "((m_code_address M, rv), q) \<in> set (AddrCache VM)" "module_at q VM = Some m"
        using k new m map_of_SomeD by fastforce+
      then show ?thesis using assms(2) a by (auto simp: code_inv_def)
    qed
    then show ?thesis by simp
  next
    case False
    have "((a, r), q) \<in> set (AddrCache VM)" using subsetD [OF sub e] False by (cases Mo) auto
    moreover have "module_at q VM = Some m" using new False m by simp
    ultimately show ?thesis using assms(2) by (auto simp: code_inv_def)
  qed
qed

end
