(* ===== verification/Vm_Exec.thy ===== *)
theory Vm_Exec
  imports Vm_Inv
begin

text \<open>
  Entering and leaving the interpreter's fast path: what a call finds and what it leaves, and the sequences of nested
  calls that a host can make.
\<close>

section \<open>Instances\<close>

lemma cache_inv_insts [simp]:
  "cache_inv E T (put_inst s I VM) = cache_inv E T VM" "module_at p (put_inst s I VM) = module_at p VM"
  "cache_inv E T (put_ctx c C VM) = cache_inv E T VM" "module_at p (put_ctx c C VM) = module_at p VM"
  by (simp_all add: put_inst_def put_ctx_def split: inst_slot.splits ctx_slot.splits)

text \<open>The slot that a depth gets, and that no other instance is touched.\<close>

definition slot_ok :: "i32 \<Rightarrow> inst_slot \<Rightarrow> DTVM \<Rightarrow> bool" where
  "slot_ok d s VM \<longleftrightarrow> (case s of
      MainInst \<Rightarrow> \<not> 0 <s d \<and> CachedMainInst VM \<noteq> None
    | NestedInst i \<Rightarrow> 0 <s d \<and> i < nat (sint d) \<and> i < length (CacheInsts VM))"

definition other_insts :: "inst_slot \<Rightarrow> DTVM \<Rightarrow> DTVM \<Rightarrow> bool" where
  "other_insts s VM VM' \<longleftrightarrow> length (CacheInsts VM) \<le> length (CacheInsts VM') \<and>
     (\<forall>s'. s' \<noteq> s \<and> slot_inst s' VM \<noteq> None \<longrightarrow> slot_inst s' VM' = slot_inst s' VM)"

text \<open>A slot that a call at a smaller depth cannot have.\<close>

definition slot_new :: "i32 \<Rightarrow> inst_slot \<Rightarrow> DTVM \<Rightarrow> bool" where
  "slot_new d s VM \<longleftrightarrow> (case s of
      MainInst \<Rightarrow> True | NestedInst i \<Rightarrow> i = nat (sint d) - 1 \<or> i = length (CacheInsts VM))"

definition took :: "nat \<Rightarrow> evmc_revision \<Rightarrow> i32 \<Rightarrow> DTVM \<Rightarrow> inst_slot \<Rightarrow> DTVM \<Rightarrow> bool" where
  "took p rv d VM s VM' \<longleftrightarrow> slot_ok d s VM' \<and> slot_new d s VM \<and> other_insts s VM VM' \<and>
     (\<exists>I. slot_inst s VM' = Some I \<and> ModAt I = p \<and>
       Rev (IState I) = (if 0 <s d \<or> CachedMainInst VM \<noteq> None then rv else DEFAULT_REVISION)) \<and>
     VM'\<lparr>CachedMainInst := CachedMainInst VM, CacheInsts := CacheInsts VM\<rparr> = VM"

lemma reset_Rev [simp]: "Rev (resetForNewCall rv I) = rv"
  by (simp add: resetForNewCall_def Let_def inst_clearReturnData_def)

lemma create_ok: "module_at p VM \<noteq> None \<Longrightarrow> \<exists>I. createEVMInstance X p g VM = Inr I \<and> ModAt I = p \<and> Rev (IState I) = DEFAULT_REVISION"
  by (auto simp: module_at_def createEVMInstance_def newEVMInstance_def setGas_def split: option.splits)

lemma getOrCreate_ok:
  assumes "module_at p VM \<noteq> None"
  obtains s VM' where "getOrCreateInstance X p rv d VM = Inr (s, VM')" "took p rv d VM s VM'"
proof (cases "0 <s d")
  case d: True
  then have pos: "0 < sint d" by (simp add: word_sless_alt)
  show thesis
  proof (cases "length (CacheInsts VM) < nat (sint d)")
    case True
    obtain I where "createEVMInstance X p 0 VM = Inr I" using create_ok [OF assms] by blast
    then show thesis using that d True
      by (auto simp: getOrCreateInstance_def took_def slot_ok_def slot_new_def other_insts_def slot_inst_def reset_inst_def nth_append
          split: inst_slot.splits if_splits)
  next
    case False
    then have "nat (sint d) - 1 < length (CacheInsts VM)" using pos by simp
    then show thesis using that d False pos
      by (auto simp: getOrCreateInstance_def took_def slot_ok_def slot_new_def other_insts_def slot_inst_def reset_inst_def Let_def
          nth_list_update split: inst_slot.splits if_splits)
  qed
next
  case d: False
  show thesis
  proof (cases "CachedMainInst VM")
    case None
    obtain I where "createEVMInstance X p 0 VM = Inr I" "ModAt I = p" "Rev (IState I) = DEFAULT_REVISION"
      using create_ok [OF assms] by blast
    then show thesis using that d None
      by (auto simp: getOrCreateInstance_def took_def slot_ok_def slot_new_def other_insts_def slot_inst_def split: inst_slot.splits)
  next
    case (Some I)
    let ?V = "VM\<lparr>CachedMainInst := Some (reset_inst rv p I)\<rparr>"
    have "getOrCreateInstance X p rv d VM = Inr (MainInst, ?V)" using Some d by (simp add: getOrCreateInstance_def)
    moreover have "took p rv d VM MainInst ?V" using Some d
      by (auto simp: took_def slot_ok_def slot_new_def other_insts_def slot_inst_def reset_inst_def split: inst_slot.splits)
    ultimately show thesis by (rule that)
  qed
qed

section \<open>The cache of the module\<close>

lemma at_put: "at q (map (\<lambda>(n, r, k). (n, r, if r = p then m else k)) P) =
    map_option (\<lambda>(n, k). (n, if q = p then m else k)) (at q P)"
  by (induction P) (auto simp: at_def)

lemma put_module_at: "module_at p VM \<noteq> None \<Longrightarrow> module_at q (put_module p m VM) = (if q = p then Some m else module_at q VM)"
  by (cases "RT VM") (auto simp: module_at_def put_module_def at_put option.map_comp comp_def split_beta)

lemma put_module_ok:
  assumes "cache_inv E T VM" and "module_at p VM = Some k" and "module_ok E m" and "Revision m = Revision k"
  shows "cache_inv E T (put_module p m VM)"
proof -
  obtain R where R: "RT VM = Some R" using assms(2) by (auto simp: module_at_def split: option.splits)
  let ?P = "map (\<lambda>(n, r, k). (n, r, if r = p then m else k)) (EVMModulePool R)"
  note i = pool_invD [OF cache_invD [OF assms(1) R]]
  have names: "map fst ?P = map fst (EVMModulePool R)" and live: "live ?P = live (EVMModulePool R)" by (auto simp: live_def)
  have "pool_ok E ?P" unfolding pool_ok_def names live using i(1) assms(3) by (auto simp: pool_ok_def)
  moreover have "\<exists>n l. at q ?P = Some (n, l) \<and> Revision l = snd K" if "(K, q) \<in> set (AddrCache VM)" for K q
    using i(6) [OF that] assms(2,4) R by (cases "q = p") (auto simp: at_put module_at_def)
  moreover have "fst ` set ?P = fst ` set (EVMModulePool R)" using names by (metis list.set_map)
  ultimately have "pool_inv E T ?P (put_module p m VM)"
    using i(2-5,7-9) live R by (auto simp: pool_inv_def put_module_def)
  then show ?thesis using R by (simp add: cache_inv_def put_module_def)
qed

lemma warm_ok:
  assumes "intx_ok E" and "cache_inv E T VM" and "module_at p VM = Some k" and "length (Code k) < n"
  obtains m VM' where "warm_module E n p VM = Some (Inr (m, VM'))" "VM' = put_module p m VM" "cache_inv E T VM'"
    "module_ok E m" "Code m = Code k" "Revision m = Revision k"
proof -
  obtain R nm where R: "RT VM = Some R" "at p (EVMModulePool R) = Some (nm, k)"
    using assms(3) by (auto simp: module_at_def split: option.splits)
  have k: "module_ok E k" using at_ok [OF pool_invD(1) [OF cache_invD [OF assms(2) R(1)]] R(2)] .
  obtain K m where m: "getBytecodeCache n E k = Some (Inr (K, m))" "module_ok E m" "Code m = Code k" "Revision m = Revision k"
    using getBytecodeCache_ok [OF assms(1) k assms(4)] by blast
  have "warm_module E n p VM = Some (Inr (m, put_module p m VM))" using R m(1) by (simp add: warm_module_def)
  then show thesis using that put_module_ok [OF assms(2,3) m(2,4)] m by blast
qed

section \<open>Entering\<close>

definition same_code :: "(nat \<Rightarrow> bool) \<Rightarrow> DTVM \<Rightarrow> DTVM \<Rightarrow> bool" where
  "same_code Q VM VM' \<longleftrightarrow> (\<forall>q m. Q q \<and> module_at q VM = Some m \<longrightarrow>
     (\<exists>m'. module_at q VM' = Some m' \<and> Code m' = Code m \<and> Revision m' = Revision m))"

definition other_ctxs :: "ctx_slot \<Rightarrow> DTVM \<Rightarrow> DTVM \<Rightarrow> bool" where
  "other_ctxs c VM VM' \<longleftrightarrow> (c \<noteq> TopCtx \<longrightarrow> CachedCtx VM' = CachedCtx VM) \<and>
     length (NestedCtxPool VM) \<le> length (NestedCtxPool VM') \<and>
     (\<forall>i < length (NestedCtxPool VM). c \<noteq> PoolCtx i \<longrightarrow> NestedCtxPool VM' ! i = NestedCtxPool VM ! i)"

definition ctx_slot_ok :: "i32 \<Rightarrow> ctx_slot \<Rightarrow> DTVM \<Rightarrow> bool" where
  "ctx_slot_ok d c VM \<longleftrightarrow> (case c of TopCtx \<Rightarrow> d = 0 | PoolCtx i \<Rightarrow> i = nat (sint d) \<and> i < length (NestedCtxPool VM))"

text \<open>The code of the cache stays that of a host whose code does not change.\<close>

definition keeps_code :: "raw_data \<Rightarrow> evmc_message \<Rightarrow> DTVM \<Rightarrow> DTVM \<Rightarrow> bool" where
  "keeps_code Raw M VM VM' \<longleftrightarrow> (\<forall>cf. code_inv cf VM \<and>
     (shouldUsePersistentModuleCache M \<longrightarrow> snd Raw = cf (m_code_address M)) \<longrightarrow> code_inv cf VM')"

definition refused :: "'h ext \<Rightarrow> nat set \<Rightarrow> evmc_revision \<Rightarrow> evmc_message \<Rightarrow> raw_data \<Rightarrow> DTVM \<Rightarrow> DTVM \<Rightarrow> bool" where
  "refused E T rv M Raw VM VM' \<longleftrightarrow> cache_inv E T VM' \<and> keeps_code Raw M VM VM' \<and>
     CachedMainInst VM' = CachedMainInst VM \<and> CacheInsts VM' = CacheInsts VM \<and> NestedCtxPool VM' = NestedCtxPool VM \<and>
     same_code (\<lambda>q. q \<in> T \<or> isModuleInUse q VM \<and> \<not> stale Raw rv M VM q) VM VM' \<and> ExecHost VM' = ExecHost VM"

definition entered ::
  "'h ext \<Rightarrow> nat set \<Rightarrow> evmc_revision \<Rightarrow> evmc_message \<Rightarrow> raw_data \<Rightarrow> DTVM \<Rightarrow> activation \<Rightarrow> unit ctx \<Rightarrow> DTVM \<Rightarrow> bool" where
  "entered E T rv M Raw VM A C VM' \<longleftrightarrow>
     ATransient A = (\<not> shouldUsePersistentModuleCache M) \<and> AMod A \<notin> T \<and>
     (ATransient A \<longrightarrow> module_at (AMod A) VM = None) \<and>
     cache_inv E (if ATransient A then insert (AMod A) T else T) VM' \<and>
     slot_ok (m_depth M) (AInst A) VM' \<and> slot_new (m_depth M) (AInst A) VM \<and> ctx_slot_ok (m_depth M) (ACtx A) VM' \<and>
     other_insts (AInst A) VM VM' \<and> other_ctxs (ACtx A) VM VM' \<and>
     slot_inst (AInst A) VM' = Some \<lparr>ModAt = AMod A, IState = Inst C\<rparr> \<and> module_at (AMod A) VM' = Some (Mod (Inst C)) \<and>
     module_ok E (Mod (Inst C)) \<and> Revision (Mod (Inst C)) = rv \<and> validateCodeMatch (snd Raw) (Mod (Inst C)) \<and>
     Rev (Inst C) = (if 0 <s m_depth M \<or> CachedMainInst VM \<noteq> None then rv else DEFAULT_REVISION) \<and>
     FrameCount C = 0 \<and> ReturnData C = [] \<and>
     same_code (\<lambda>q. q \<in> T \<or> isModuleInUse q VM \<and> \<not> stale Raw rv M VM q) VM VM' \<and>
     keeps_code Raw M VM VM' \<and> ExecHost VM' = ExecHost VM"

lemma pick_ctx_ok:
  assumes "0 \<le> sint d" and "sint d \<le> 1024" and "reuse \<longrightarrow> d = 0"
  obtains c C VM' where "pick_ctx reuse d I VM = Inr (c, C, VM')" "Inst C = I" "FrameCount C = 0" "ReturnData C = []"
    "ctx_slot_ok d c VM'" "other_ctxs c VM (put_ctx c C VM')"
    "VM'\<lparr>NestedCtxPool := NestedCtxPool VM\<rparr> = VM"
proof (cases reuse)
  case True
  show thesis
    by (rule that [of TopCtx "take_ctx I () (CachedCtx VM)" VM])
      (use True assms(3) in \<open>auto simp: pick_ctx_def ctx_slot_ok_def other_ctxs_def put_ctx_def\<close>)
next
  case False
  let ?d = "nat (sint d)"
  let ?cs = "if length (NestedCtxPool VM) \<le> ?d then NestedCtxPool VM @ replicate (?d + 1 - length (NestedCtxPool VM)) None
    else NestedCtxPool VM"
  let ?V = "VM\<lparr>NestedCtxPool := ?cs\<rparr>"
  have V: "pick_ctx reuse d I VM = Inr (PoolCtx ?d, take_ctx I () (?cs ! ?d), ?V)"
    using False assms(1,2) by (simp add: pick_ctx_def Let_def)
  show thesis
    by (rule that [OF V]) (auto simp: ctx_slot_ok_def other_ctxs_def put_ctx_def nth_append nth_list_update)
qed

text \<open>The runtime is there, or is made with the configuration of the machine.\<close>

lemma ensure_ok:
  assumes "cache_inv E T VM"
  obtains VM' where "ensureRuntimeAndIsolation X VM = (RT VM' \<noteq> None, VM')" "cache_inv E T VM'" "\<forall>q. module_at q VM' = module_at q VM"
    "VM'\<lparr>RT := RT VM, Iso := Iso VM\<rparr> = VM" "RT VM' = (case RT VM of None \<Rightarrow> newEVMRuntime X (Config VM) | Some R \<Rightarrow> Some R)"
proof (cases "RT VM")
  case None
  then have t: "AddrCache VM = []" "LRUOrder VM = []" "T = {}" using assms by (simp_all add: cache_inv_def)
  show thesis
  proof (cases "newEVMRuntime X (Config VM)")
    case none: None
    show thesis by (rule that [of VM]) (use None none assms in \<open>auto simp: ensureRuntimeAndIsolation_def\<close>)
  next
    case (Some R)
    then have "EVMModulePool R = []" by (auto simp: newEVMRuntime_def split: prod.splits if_splits bool.splits)
    then have "cache_inv E T (VM\<lparr>RT := Some R, Iso := True\<rparr>)" "\<forall>q. module_at q (VM\<lparr>RT := Some R, Iso := True\<rparr>) = module_at q VM"
      using t None by (simp_all add: cache_inv_def pool_inv_def pool_ok_def live_def module_at_def at_def)
    then show thesis using that [of "VM\<lparr>RT := Some R, Iso := True\<rparr>"] None Some by (simp add: ensureRuntimeAndIsolation_def)
  qed
next
  case (Some R)
  show thesis by (rule that [of "VM\<lparr>Iso := True\<rparr>"]) (use Some assms in \<open>auto simp: ensureRuntimeAndIsolation_def module_at_def\<close>)
qed


lemma took_same:
  assumes "took p rv d VM s VM'"
  shows "cache_inv E T VM' = cache_inv E T VM" "module_at q VM' = module_at q VM" "RT VM' = RT VM"
    "NestedCtxPool VM' = NestedCtxPool VM" "CachedCtx VM' = CachedCtx VM" "ExecHost VM' = ExecHost VM" "AddrCache VM' = AddrCache VM"
proof -
  have e: "VM'\<lparr>CachedMainInst := CachedMainInst VM, CacheInsts := CacheInsts VM\<rparr> = VM" using assms by (simp add: took_def)
  show "cache_inv E T VM' = cache_inv E T VM" using arg_cong [OF e, of "cache_inv E T"] by simp
  show "module_at q VM' = module_at q VM" using arg_cong [OF e, of "module_at q"] by simp
  show "RT VM' = RT VM" using arg_cong [OF e, of RT] by simp
  show "NestedCtxPool VM' = NestedCtxPool VM" using arg_cong [OF e, of NestedCtxPool] by simp
  show "CachedCtx VM' = CachedCtx VM" using arg_cong [OF e, of CachedCtx] by simp
  show "ExecHost VM' = ExecHost VM" using arg_cong [OF e, of ExecHost] by simp
  show "AddrCache VM' = AddrCache VM" using arg_cong [OF e, of AddrCache] by simp
qed

lemma put_module_same [simp]:
  "CachedMainInst (put_module p m VM) = CachedMainInst VM" "CacheInsts (put_module p m VM) = CacheInsts VM"
  "NestedCtxPool (put_module p m VM) = NestedCtxPool VM" "CachedCtx (put_module p m VM) = CachedCtx VM"
  "ExecHost (put_module p m VM) = ExecHost VM" "AddrCache (put_module p m VM) = AddrCache VM"
  by (simp_all add: put_module_def split: option.splits)

lemma slot_inst_same: "CachedMainInst VM' = CachedMainInst VM \<Longrightarrow> CacheInsts VM' = CacheInsts VM \<Longrightarrow> slot_inst s VM' = slot_inst s VM"
  by (simp add: slot_inst_def split: inst_slot.splits)

definition set_up ::
  "'h ext \<Rightarrow> evmc_revision \<Rightarrow> evmc_message \<Rightarrow> EVMModule \<Rightarrow> DTVM \<Rightarrow> activation \<Rightarrow> unit ctx \<Rightarrow> DTVM \<Rightarrow> bool" where
  "set_up E rv M k VM A C VM' \<longleftrightarrow>
     slot_ok (m_depth M) (AInst A) VM' \<and> slot_new (m_depth M) (AInst A) VM \<and> ctx_slot_ok (m_depth M) (ACtx A) VM' \<and>
     other_insts (AInst A) VM VM' \<and> other_ctxs (ACtx A) VM VM' \<and>
     slot_inst (AInst A) VM' = Some \<lparr>ModAt = AMod A, IState = Inst C\<rparr> \<and>
     (\<forall>q. module_at q VM' = (if q = AMod A then Some (Mod (Inst C)) else module_at q VM)) \<and>
     module_ok E (Mod (Inst C)) \<and> Code (Mod (Inst C)) = Code k \<and> Revision (Mod (Inst C)) = Revision k \<and>
     Rev (Inst C) = (if 0 <s m_depth M \<or> CachedMainInst VM \<noteq> None then rv else DEFAULT_REVISION) \<and>
     FrameCount C = 0 \<and> ReturnData C = [] \<and> ExecHost VM' = ExecHost VM \<and> AddrCache VM' = AddrCache VM"

lemma put_inst_slot:
  "slot_ok d s VM \<Longrightarrow> slot_ok d' s' (put_inst s I VM) = slot_ok d' s' VM"
  "slot_ok d s VM \<Longrightarrow> slot_inst s (put_inst s I VM) = Some I"
  "s' \<noteq> s \<Longrightarrow> slot_inst s' (put_inst s I VM) = slot_inst s' VM"
  "length (CacheInsts (put_inst s I VM)) = length (CacheInsts VM)"
  by (cases s; cases s'; simp add: slot_ok_def slot_inst_def put_inst_def)+

lemma put_ctx_same [simp]:
  "slot_inst s (put_ctx c C VM) = slot_inst s VM" "slot_ok d s (put_ctx c C VM) = slot_ok d s VM"
  "length (CacheInsts (put_ctx c C VM)) = length (CacheInsts VM)" "ExecHost (put_ctx c C VM) = ExecHost VM"
  "AddrCache (put_ctx c C VM) = AddrCache VM"
  "ctx_slot_ok d c' (put_ctx c C VM) = ctx_slot_ok d c' VM"
  by (auto simp: slot_inst_def slot_ok_def ctx_slot_ok_def put_ctx_def split: inst_slot.splits ctx_slot.splits)

lemma put_inst_same [simp]:
  "CachedCtx (put_inst s I VM) = CachedCtx VM" "NestedCtxPool (put_inst s I VM) = NestedCtxPool VM"
  "ExecHost (put_inst s I VM) = ExecHost VM" "AddrCache (put_inst s I VM) = AddrCache VM"
  by (simp_all add: put_inst_def split: inst_slot.splits)

lemma slot_pool_update [simp]:
  "slot_inst s (VM\<lparr>NestedCtxPool := cs\<rparr>) = slot_inst s VM" "slot_ok d s (VM\<lparr>NestedCtxPool := cs\<rparr>) = slot_ok d s VM"
  by (simp_all add: slot_inst_def slot_ok_def split: inst_slot.splits)

lemma fast_setup_ok:
  assumes "intx_ok E" and inv: "cache_inv E T VM" and k: "module_at p VM = Some k" and n: "length (Code k) < n"
    and d: "0 \<le> sint (m_depth M)" "sint (m_depth M) \<le> 1024"
  obtains A C VM' where "fast_setup E n X rv M p tr VM = Some (Inr (A, C, VM'))" "AMod A = p" "ATransient A = tr"
    "cache_inv E T VM'" "set_up E rv M k VM A C VM'"
proof -
  obtain s V2 where s: "getOrCreateInstance X p rv (m_depth M) VM = Inr (s, V2)" "took p rv (m_depth M) VM s V2"
    using getOrCreate_ok [of p VM] k by blast
  note t = took_same [OF s(2)]
  obtain I where I: "slot_inst s V2 = Some I" "ModAt I = p" "slot_ok (m_depth M) s V2" "other_insts s VM V2" "slot_new (m_depth M) s VM"
    "Rev (IState I) = (if 0 <s m_depth M \<or> CachedMainInst VM \<noteq> None then rv else DEFAULT_REVISION)"
    using s(2) by (auto simp: took_def)
  have inv2: "cache_inv E T V2" and k2: "module_at p V2 = Some k" using inv k t(1,2) by auto
  obtain m V3 where m: "warm_module E n p V2 = Some (Inr (m, V3))" "V3 = put_module p m V2" "cache_inv E T V3"
    "module_ok E m" "Code m = Code k" "Revision m = Revision k"
    by (rule warm_ok [OF assms(1) inv2 k2 n])
  have I3: "slot_inst s V3 = Some I" "slot_ok (m_depth M) s V3" using I m(2) by (simp_all add: slot_inst_def slot_ok_def split: inst_slot.splits)
  define J where "J = (if m_depth M = 0 then clearMessageCache ((IState I)\<lparr>Mod := m\<rparr>) else (IState I)\<lparr>Mod := m\<rparr>)\<lparr>InstExeResult := evmc_Result EVMC_SUCCESS 0 0 []\<rparr>"
  have J: "Mod J = m" "Rev J = Rev (IState I)" by (simp_all add: J_def clearMessageCache_def)
  obtain L where L: "push_local M J = Inr L" "Mod L = Mod J" "Rev L = Rev J" by (rule push_local_returns)
  let ?V4 = "put_inst s (I\<lparr>IState := L\<rparr>) V3"
  obtain c C V5 where c: "pick_ctx (\<not> tr \<and> m_depth M = 0) (m_depth M) L ?V4 = Inr (c, C, V5)" "Inst C = L" "FrameCount C = 0"
    "ReturnData C = []" "ctx_slot_ok (m_depth M) c V5" "other_ctxs c ?V4 (put_ctx c C V5)" "V5\<lparr>NestedCtxPool := NestedCtxPool ?V4\<rparr> = ?V4"
    by (rule pick_ctx_ok [OF d, of "\<not> tr \<and> m_depth M = 0" L ?V4]) auto
  have f: "fast_setup E n X rv M p tr VM = Some (Inr (\<lparr>AMod = p, ATransient = tr, AInst = s, ACtx = c\<rparr>, C, put_ctx c C V5))"
    using s(1) m(1) I3(1) L(1) c(1) by (simp add: fast_setup_def Let_def J_def split del: if_split)
  let ?W = "put_ctx c C V5"
  note V5 = arg_cong [OF c(7)]
  have W: "cache_inv E T ?W" "slot_inst s' ?W = slot_inst s' ?V4" "slot_ok (m_depth M) s' ?W = slot_ok (m_depth M) s' ?V4"
    "module_at q ?W = module_at q ?V4" "length (CacheInsts ?W) = length (CacheInsts V2)" "ExecHost ?W = ExecHost VM"
    "AddrCache ?W = AddrCache VM" for s' q
    using V5 [of "cache_inv E T"] V5 [of "slot_inst s'"] V5 [of "slot_ok (m_depth M) s'"] V5 [of "module_at q"]
      V5 [of "\<lambda>V. length (CacheInsts V)"] V5 [of ExecHost] V5 [of AddrCache] m(2,3) t(6,7)
    by (simp_all add: put_inst_slot)
  have "slot_ok (m_depth M) s ?W" "slot_inst s ?W = Some \<lparr>ModAt = p, IState = L\<rparr>"
    using W(2) [of s] W(3) [of s] put_inst_slot(1,2) [OF I3(2)] I3(2) I(2) by simp_all
  moreover have "other_insts s VM ?W" using I(4) W(2,5) m(2)
    by (auto simp: other_insts_def put_inst_slot(3) slot_inst_same [of "put_module p m V2" V2])
  moreover have "other_ctxs c VM ?W" using c(6) m(2) t(4,5) by (simp add: other_ctxs_def)
  moreover have "module_at q ?W = (if q = p then Some m else module_at q VM)" for q
    using W(4) [of q] m(2) put_module_at [of p V2 q m] k2 t(2) [of q] by simp
  ultimately have "set_up E rv M k VM \<lparr>AMod = p, ATransient = tr, AInst = s, ACtx = c\<rparr> C ?W"
    using c(2-5) L(2,3) J m(4-6) I(5,6) W(6,7) by (simp add: set_up_def)
  then show thesis using that f W(1) by simp
qed

lemma same_code_trans:
  assumes "keeps Q VM V" and "set_up E rv M k V A C VM'" and "module_at (AMod A) V = Some k"
  shows "same_code Q VM VM'"
  unfolding same_code_def
proof (intro allI impI)
  fix q m assume "Q q \<and> module_at q VM = Some m"
  then have "module_at q V = Some m" using assms(1) by (simp add: keeps_def)
  then show "\<exists>m'. module_at q VM' = Some m' \<and> Code m' = Code m \<and> Revision m' = Revision m"
    using assms(2,3) by (cases "q = AMod A") (auto simp: set_up_def)
qed

lemma isModuleInUse_eq: "CachedMainInst V = CachedMainInst VM \<Longrightarrow> CacheInsts V = CacheInsts VM \<Longrightarrow> isModuleInUse q V = isModuleInUse q VM"
  by (simp add: isModuleInUse_def)

lemma other_insts_eq: "CachedMainInst V = CachedMainInst VM \<Longrightarrow> CacheInsts V = CacheInsts VM \<Longrightarrow> other_insts s V VM' = other_insts s VM VM'"
  by (simp add: other_insts_def slot_inst_same [of V VM])

lemma other_ctxs_eq: "CachedCtx V = CachedCtx VM \<Longrightarrow> NestedCtxPool V = NestedCtxPool VM \<Longrightarrow> other_ctxs c V VM' = other_ctxs c VM VM'"
  by (simp add: other_ctxs_def)

lemma slot_new_eq: "CacheInsts V = CacheInsts VM \<Longrightarrow> slot_new d s V = slot_new d s VM"
  by (simp add: slot_new_def split: inst_slot.splits)

lemma validate_length: "validateCodeMatch c m \<Longrightarrow> length (Code m) = length c"
  by (simp add: validateCodeMatch_def split: if_splits)

lemma validate_code: "Code m' = Code m \<Longrightarrow> validateCodeMatch c m' = validateCodeMatch c m"
  by (simp add: validateCodeMatch_def)

text \<open>The same state, but for the runtime and the isolation that may have been made.\<close>

lemma ensure_same:
  assumes "V\<lparr>RT := r, Iso := b\<rparr> = VM"
  shows "AddrCache V = AddrCache VM" "CachedMainInst V = CachedMainInst VM" "CacheInsts V = CacheInsts VM"
    "CachedCtx V = CachedCtx VM" "NestedCtxPool V = NestedCtxPool VM" "ExecHost V = ExecHost VM" "ModCounter V = ModCounter VM"
    "Config V = Config VM"
  unfolding assms [symmetric] by simp_all

lemma set_up_code: "set_up E rv M k VM A C VM' \<Longrightarrow> module_at (AMod A) VM = Some k \<Longrightarrow> code_inv cf VM \<Longrightarrow> code_inv cf VM'"
  by (fastforce simp: set_up_def code_inv_def split: if_splits)

lemma keeps_same_code: "keeps Q VM VM' \<Longrightarrow> same_code Q VM VM'"
  by (auto simp: keeps_def same_code_def)

text \<open>The runtime is there or can be made, and it can load the code.\<close>

definition enterable :: "platform \<Rightarrow> evmc_revision \<Rightarrow> raw_data \<Rightarrow> DTVM \<Rightarrow> bool" where
  "enterable X rv Raw VM \<longleftrightarrow>
     (case (case RT VM of None \<Rightarrow> newEVMRuntime X (Config VM) | Some R \<Rightarrow> Some R) of
        None \<Rightarrow> False
      | Some R \<Rightarrow> loadable X (RtConfig R) Raw rv)"

lemma fast_enter_ok:
  assumes E: "ext_ok E" and inv: "cache_inv E T VM" and X: "fresh X" and c: "unat (ModCounter VM) + 1 < 2 ^ 64"
    and d: "0 \<le> sint (m_depth M)" "sint (m_depth M) \<le> 1024" and n: "length (snd Raw) < n"
  obtains (refused) VM' where "fast_enter E n X rv M Raw VM = Some (Inr (None, VM'))" "refused E T rv M Raw VM VM'"
      "\<not> enterable X rv Raw VM"
  | (entered) A C VM' where "fast_enter E n X rv M Raw VM = Some (Inr (Some (A, C), VM'))" "entered E T rv M Raw VM A C VM'"
proof -
  let ?Q = "\<lambda>q. q \<in> T \<or> isModuleInUse q VM \<and> \<not> stale Raw rv M VM q"
  have ix: "intx_ok E" using E by (simp add: ext_ok_def)
  obtain V where V: "ensureRuntimeAndIsolation X VM = (RT V \<noteq> None, V)" "cache_inv E T V" "\<forall>q. module_at q V = module_at q VM"
    "V\<lparr>RT := RT VM, Iso := Iso VM\<rparr> = VM" "RT V = (case RT VM of None \<Rightarrow> newEVMRuntime X (Config VM) | Some R \<Rightarrow> Some R)"
    by (rule ensure_ok [OF inv, of X])
  note same = ensure_same [OF V(4)]
  have code: "code_inv cf V = code_inv cf VM" for cf using same(1) V(3) by (simp add: code_inv_def)
  show thesis
  proof (cases "RT V")
    case None
    have "refused E T rv M Raw VM V" using V(2,3) same code by (simp add: refused_def keeps_code_def same_code_def)
    moreover have "\<not> enterable X rv Raw VM" using None V(5) by (simp add: enterable_def)
    ultimately show thesis using refused V(1) None by (simp add: fast_enter_def)
  next
    case (Some R)
    obtain Mo tr V1 where f: "findModuleCached X Raw rv M V = Inr (Mo, tr, V1)" "found E T Raw rv M V Mo tr V1"
      "Mo = None \<longrightarrow> \<not> loadable X (RtConfig R) Raw rv"
      by (rule find_ok [OF V(2) Some X]) (use c same(7) in auto)
    have fs: "same_insts V V1" "tr = (\<not> shouldUsePersistentModuleCache M)"
      "keeps (\<lambda>q. q \<in> T \<or> isModuleInUse q V \<and> \<not> stale Raw rv M V q) V V1"
      using f(2) by (simp_all add: found_def)
    have i1: "CachedMainInst V1 = CachedMainInst VM" "CacheInsts V1 = CacheInsts VM" "CachedCtx V1 = CachedCtx VM"
      "NestedCtxPool V1 = NestedCtxPool VM" "ExecHost V1 = ExecHost VM"
      using fs(1) same by (simp_all add: same_insts_def)
    have k1: "keeps ?Q VM V1"
      using fs(3) V(3) isModuleInUse_eq [OF same(2,3)] same(1) by (simp add: keeps_def stale_def)
    have code1: "keeps_code Raw M VM V1" using found_code_inv [OF f(2)] code by (simp add: keeps_code_def)
    show thesis
    proof (cases Mo)
      case None
      then have "refused E T rv M Raw VM V1"
        using f(2) i1 code1 keeps_same_code [OF k1] by (simp add: refused_def found_def)
      moreover have "\<not> enterable X rv Raw VM" using None Some f(3) V(5) by (simp add: enterable_def)
      ultimately show thesis using refused V(1) Some f(1) None by (simp add: fast_enter_def)
    next
      case p: (Some p)
      then obtain k where k: "p \<notin> T" "cache_inv E (if tr then insert p T else T) V1" "module_at p V1 = Some k" "Revision k = rv"
        "validateCodeMatch (snd Raw) k" "tr \<longrightarrow> module_at p VM = None"
        using f(2) V(3) by (auto simp: found_def)
      have len: "length (Code k) < n" using validate_length [OF k(5)] n by simp
      obtain A C VM' where s: "fast_setup E n X rv M p tr V1 = Some (Inr (A, C, VM'))" "AMod A = p" "ATransient A = tr"
        "cache_inv E (if tr then insert p T else T) VM'" "set_up E rv M k V1 A C VM'"
        by (rule fast_setup_ok [OF ix k(2,3) len d, of X rv tr])
      have "same_code ?Q VM VM'" using same_code_trans [OF k1 s(5)] s(2) k(3) by simp
      moreover have "keeps_code Raw M VM VM'" using code1 set_up_code [OF s(5)] s(2) k(3) by (simp add: keeps_code_def)
      ultimately have "entered E T rv M Raw VM A C VM'"
        using s k fs(2) i1 validate_code [of "Mod (Inst C)" k] other_insts_eq [OF i1(1,2)] other_ctxs_eq [OF i1(3,4)] slot_new_eq [OF i1(2)]
        by (cases tr) (simp_all add: entered_def set_up_def)
      moreover have "fast_enter E n X rv M Raw VM = Some (Inr (Some (A, C), VM'))"
        using V(1) Some f(1) p s(1) by (simp add: fast_enter_def)
      ultimately show thesis using entered by blast
    qed
  qed
qed

section \<open>Leaving\<close>

lemma drop_transient_ok:
  assumes "cache_inv E T VM" and "p \<in> T"
  obtains R where "vm_unload p VM = Inr (VM\<lparr>RT := Some R\<rparr>)" "cache_inv E (T - {p}) (VM\<lparr>RT := Some R\<rparr>)"
    "\<forall>q. module_at q (VM\<lparr>RT := Some R\<rparr>) = (if q = p then None else module_at q VM)"
proof -
  obtain R0 where R0: "RT VM = Some R0" using assms by (cases "RT VM") (simp_all add: cache_inv_def)
  note i = pool_invD [OF cache_invD [OF assms(1) R0]]
  have "at p (EVMModulePool R0) \<noteq> None" using i(7) assms(2) by (simp add: at_None)
  then obtain P where P: "unloadEVMModule p R0 = Inr (True, R0\<lparr>EVMModulePool := P\<rparr>)" "pool_ok E P"
    "\<forall>q. at q P = (if q = p then None else at q (EVMModulePool R0))" "fst ` set P \<subseteq> fst ` set (EVMModulePool R0)"
    by (rule unload_ok [OF i(1)])
  have ne: "q \<noteq> p" if "(k, q) \<in> set (AddrCache VM)" for k q using i(8) assms(2) that by force
  have lv: "set (live P) = set (live (EVMModulePool R0)) - {p}"
    unfolding set_eq_iff using P(3) at_None [of _ P] at_None [of _ "EVMModulePool R0"] by (metis Diff_iff singleton_iff)
  have "pool_inv E (T - {p}) P VM"
    unfolding pool_inv_def
  proof (intro conjI i(2-5) P(2))
    have "\<exists>n m. at q P = Some (n, m) \<and> Revision m = snd k" if "(k, q) \<in> set (AddrCache VM)" for k q
      using i(6) [OF that] ne [OF that] P(3) by simp
    then show "\<forall>(k, q) \<in> set (AddrCache VM). \<exists>n m. at q P = Some (n, m) \<and> Revision m = snd k" by blast
    show "set (live P) = snd ` set (AddrCache VM) \<union> (T - {p})" using lv i(7,8) assms(2) by blast
    show "snd ` set (AddrCache VM) \<inter> (T - {p}) = {}" using i(8) by blast
    show "fst ` set P \<subseteq> module_names (unat (ModCounter VM))" using P(4) i(9) by (rule order_trans)
  qed
  then have "cache_inv E (T - {p}) (VM\<lparr>RT := Some (R0\<lparr>EVMModulePool := P\<rparr>)\<rparr>)" by (simp add: cache_inv_def pool_inv_def)
  then show thesis by (rule that [rotated]) (use P(1,3) R0 in \<open>auto simp: vm_unload_def module_at_def\<close>)
qed

lemma leave_ok:
  assumes "cache_inv E T VM" and "ATransient A \<longrightarrow> AMod A \<in> T"
  obtains VM' where "fast_leave A I C VM = Inr VM'" "cache_inv E (if ATransient A then T - {AMod A} else T) VM'"
    "\<forall>q. q \<noteq> AMod A \<or> \<not> ATransient A \<longrightarrow> module_at q VM' = module_at q VM"
    "CachedMainInst VM' = CachedMainInst (put_inst (AInst A) \<lparr>ModAt = AMod A, IState = I\<rparr> VM)"
    "CacheInsts VM' = CacheInsts (put_inst (AInst A) \<lparr>ModAt = AMod A, IState = I\<rparr> VM)"
    "length (NestedCtxPool VM') = length (NestedCtxPool VM)" "AddrCache VM' = AddrCache VM" "ModCounter VM' = ModCounter VM"
    "ExecHost VM' = ExecHost VM"
proof -
  let ?V = "put_ctx (ACtx A) C (put_inst (AInst A) \<lparr>ModAt = AMod A, IState = I\<rparr> VM)"
  have V: "AddrCache ?V = AddrCache VM" "ModCounter ?V = ModCounter VM" "ExecHost ?V = ExecHost VM"
    "CachedMainInst ?V = CachedMainInst (put_inst (AInst A) \<lparr>ModAt = AMod A, IState = I\<rparr> VM)"
    "CacheInsts ?V = CacheInsts (put_inst (AInst A) \<lparr>ModAt = AMod A, IState = I\<rparr> VM)"
    "length (NestedCtxPool ?V) = length (NestedCtxPool VM)"
    by (simp_all add: put_ctx_def put_inst_def split: ctx_slot.splits inst_slot.splits)
  show thesis
  proof (cases "ATransient A")
    case False
    then show thesis using that [of ?V] assms(1) V by (simp add: fast_leave_def)
  next
    case True
    have "cache_inv E T ?V" "AMod A \<in> T" using assms True by simp_all
    then obtain R where R: "vm_unload (AMod A) ?V = Inr (?V\<lparr>RT := Some R\<rparr>)" "cache_inv E (T - {AMod A}) (?V\<lparr>RT := Some R\<rparr>)"
      "\<forall>q. module_at q (?V\<lparr>RT := Some R\<rparr>) = (if q = AMod A then None else module_at q ?V)"
      by (rule drop_transient_ok)
    then show thesis using that [of "?V\<lparr>RT := Some R\<rparr>"] True V by (simp add: fast_leave_def)
  qed
qed

end
