(* ===== verification/Vm_Steps.thy ===== *)
theory Vm_Steps
  imports Vm_Exec
begin

text \<open>
  Nested calls. While a call runs, its host may call the machine again, so the calls that are running form a stack.
  The steps are those of \<open>executeInterpreterFastPath\<close>: a call is entered or refused, and the innermost call leaves,
  with whatever its run has made of its instance and its context.
\<close>

section \<open>Steps\<close>

record running_call =
  CDepth :: i32
  CAct :: activation
  CHost :: "nat option \<times> nat option"
  CPrev :: "nat option \<times> nat option"

text \<open>
  What the host guarantees: depths are in range and grow with nesting, and the code at an address does not change
  (\<open>cf\<close>). The counter of modules does not wrap around.
\<close>

definition call_allowed :: "(address \<Rightarrow> u8 list) \<Rightarrow> running_call list \<Rightarrow> evmc_message \<Rightarrow> raw_data \<Rightarrow> DTVM \<Rightarrow> bool" where
  "call_allowed cf S M Raw VM \<longleftrightarrow> 0 \<le> sint (m_depth M) \<and> sint (m_depth M) \<le> 1024 \<and>
     (\<forall>c \<in> set S. sint (CDepth c) < sint (m_depth M)) \<and>
     (shouldUsePersistentModuleCache M \<longrightarrow> snd Raw = cf (m_code_address M)) \<and> unat (ModCounter VM) + 1 < 2 ^ 64"

inductive vm_step ::
  "'h ext \<Rightarrow> platform \<Rightarrow> (address \<Rightarrow> u8 list) \<Rightarrow> DTVM \<times> running_call list \<Rightarrow> DTVM \<times> running_call list \<Rightarrow> bool"
  for E X cf where
  enter: "call_allowed cf S M Raw VM \<Longrightarrow> length (snd Raw) < n \<Longrightarrow>
    HostContextScope Host VM = (Prev, V) \<Longrightarrow> fast_enter E n X rv M Raw V = Some (Inr (Some (A, C), VM')) \<Longrightarrow>
    vm_step E X cf (VM, S) (VM', \<lparr>CDepth = m_depth M, CAct = A, CHost = Host, CPrev = Prev\<rparr> # S)"
| refuse: "call_allowed cf S M Raw VM \<Longrightarrow> length (snd Raw) < n \<Longrightarrow>
    HostContextScope Host VM = (Prev, V) \<Longrightarrow> fast_enter E n X rv M Raw V = Some (Inr (None, VM')) \<Longrightarrow>
    vm_step E X cf (VM, S) (end_HostContextScope Prev VM', S)"
| leave: "fast_leave (CAct c) I C VM = Inr VM' \<Longrightarrow> vm_step E X cf (VM, c # S) (end_HostContextScope (CPrev c) VM', S)"
| option: "vm_step E X cf (VM, S) (snd (set_option Name Value VM), S)"

inductive vm_reachable :: "'h ext \<Rightarrow> platform \<Rightarrow> (address \<Rightarrow> u8 list) \<Rightarrow> (string \<Rightarrow> string option) \<Rightarrow> DTVM \<times> running_call list \<Rightarrow> bool"
  for E X cf env where
  start: "vm_reachable E X cf env (new_DTVM env, [])"
| step: "vm_reachable E X cf env s \<Longrightarrow> vm_step E X cf s s' \<Longrightarrow> vm_reachable E X cf env s'"

section \<open>The invariant\<close>

definition transients :: "running_call list \<Rightarrow> nat set" where
  "transients S = {AMod (CAct c) | c. c \<in> set S \<and> ATransient (CAct c)}"

text \<open>A call and the calls it is nested in share neither instance nor context, nor a transient module.\<close>

definition apart :: "running_call \<Rightarrow> running_call \<Rightarrow> bool" where
  "apart c c' \<longleftrightarrow> sint (CDepth c') < sint (CDepth c) \<and> AInst (CAct c) \<noteq> AInst (CAct c') \<and> ACtx (CAct c) \<noteq> ACtx (CAct c') \<and>
     (AMod (CAct c) = AMod (CAct c') \<longrightarrow> \<not> ATransient (CAct c) \<and> \<not> ATransient (CAct c'))"

definition call_ok :: "DTVM \<Rightarrow> running_call \<Rightarrow> bool" where
  "call_ok VM c \<longleftrightarrow> 0 \<le> sint (CDepth c) \<and> slot_ok (CDepth c) (AInst (CAct c)) VM \<and> ctx_slot_ok (CDepth c) (ACtx (CAct c)) VM \<and>
     (\<exists>I. slot_inst (AInst (CAct c)) VM = Some I \<and> ModAt I = AMod (CAct c)) \<and> module_at (AMod (CAct c)) VM \<noteq> None"

fun hosts_ok :: "nat option \<times> nat option \<Rightarrow> running_call list \<Rightarrow> bool" where
  "hosts_ok h [] \<longleftrightarrow> h = (None, None)"
| "hosts_ok h (c # S) \<longleftrightarrow> h = CHost c \<and> hosts_ok (CPrev c) S"

definition calls_inv :: "'h ext \<Rightarrow> (address \<Rightarrow> u8 list) \<Rightarrow> DTVM \<times> running_call list \<Rightarrow> bool" where
  "calls_inv E cf s \<longleftrightarrow> (case s of (VM, S) \<Rightarrow> cache_inv E (transients S) VM \<and> code_inv cf VM \<and> sorted_wrt apart S \<and>
     (\<forall>c \<in> set S. call_ok VM c) \<and> hosts_ok (ExecHost VM) S)"

lemma calls_inv_start: "calls_inv E cf (new_DTVM env, [])"
  by (simp add: calls_inv_def cache_inv_def new_DTVM_def code_inv_def transients_def Let_def)

lemma transients_Cons: "transients (c # S) = (if ATransient (CAct c) then insert (AMod (CAct c)) (transients S) else transients S)"
  by (auto simp: transients_def)

lemma in_use: "slot_inst s VM = Some I \<Longrightarrow> isModuleInUse (ModAt I) VM"
  by (cases s) (auto simp: slot_inst_def isModuleInUse_def list_ex_iff dest: nth_mem split: if_splits)

text \<open>A call that is running keeps its instance, context and module while another one is entered.\<close>

lemma call_ok_other:
  assumes "call_ok VM c" and "other_insts s VM VM'" and "AInst (CAct c) \<noteq> s" and "length (NestedCtxPool VM) \<le> length (NestedCtxPool VM')"
    and "same_code Q VM VM'" and "Q (AMod (CAct c))"
  shows "call_ok VM' c"
proof -
  obtain I where I: "slot_inst (AInst (CAct c)) VM = Some I" "ModAt I = AMod (CAct c)" using assms(1) by (auto simp: call_ok_def)
  have "slot_inst (AInst (CAct c)) VM' = Some I" using assms(2,3) I(1) by (auto simp: other_insts_def)
  moreover have "slot_ok (CDepth c) (AInst (CAct c)) VM'"
    using assms(1) calculation by (auto simp: call_ok_def slot_ok_def slot_inst_def split: inst_slot.splits if_splits)
  moreover have "ctx_slot_ok (CDepth c) (ACtx (CAct c)) VM'"
    using assms(1,4) by (auto simp: call_ok_def ctx_slot_ok_def split: ctx_slot.splits)
  moreover have "module_at (AMod (CAct c)) VM' \<noteq> None" using assms(1,5,6) by (auto simp: call_ok_def same_code_def)
  ultimately show ?thesis using assms(1) I(2) by (simp add: call_ok_def)
qed

lemma enter_apart:
  assumes "entered E T rv M Raw VM A C VM'" and "call_ok VM c" and "sint (CDepth c) < sint (m_depth M)"
    and "ATransient (CAct c) \<longrightarrow> AMod (CAct c) \<in> T"
  shows "apart \<lparr>CDepth = m_depth M, CAct = A, CHost = Host, CPrev = Prev\<rparr> c"
proof -
  have pos: "0 < sint (m_depth M)" using assms(2,3) by (simp add: call_ok_def)
  then have "0 <s m_depth M" by (simp add: word_sless_alt)
  then obtain i where i: "AInst A = NestedInst i" "i = nat (sint (m_depth M)) - 1 \<or> i = length (CacheInsts VM)"
    using assms(1) by (auto simp: entered_def slot_ok_def slot_new_def split: inst_slot.splits)
  have "AInst (CAct c) \<noteq> NestedInst i"
    using assms(2,3) i(2) pos by (auto simp: call_ok_def slot_ok_def split: inst_slot.splits)
  moreover have "ACtx A \<noteq> ACtx (CAct c)"
    using assms(1-3) pos by (auto simp: entered_def call_ok_def ctx_slot_ok_def split: ctx_slot.splits)
  moreover have "AMod A \<noteq> AMod (CAct c)" if "ATransient A \<or> ATransient (CAct c)"
    using assms(1,2,4) that by (auto simp: entered_def call_ok_def)
  ultimately show ?thesis using assms(3) i(1) by (auto simp: apart_def)
qed

lemma enter_inv:
  assumes E: "ext_ok E" and X: "fresh X" and inv: "calls_inv E cf (VM, S)" and a: "call_allowed cf S M Raw VM" and n: "length (snd Raw) < n"
    and e: "fast_enter E n X rv M Raw (VM\<lparr>ExecHost := Host\<rparr>) = Some (Inr (Some (A, C), VM'))"
  shows "calls_inv E cf (VM', \<lparr>CDepth = m_depth M, CAct = A, CHost = Host, CPrev = ExecHost VM\<rparr> # S)"
proof -
  let ?V = "VM\<lparr>ExecHost := Host\<rparr>"
  let ?T = "transients S"
  let ?c = "\<lparr>CDepth = m_depth M, CAct = A, CHost = Host, CPrev = ExecHost VM\<rparr>"
  have i: "cache_inv E ?T VM" "code_inv cf VM" "sorted_wrt apart S" "\<forall>c \<in> set S. call_ok VM c" "hosts_ok (ExecHost VM) S"
    using inv by (simp_all add: calls_inv_def)
  have d: "0 \<le> sint (m_depth M)" "sint (m_depth M) \<le> 1024" "\<forall>c \<in> set S. sint (CDepth c) < sint (m_depth M)"
    "shouldUsePersistentModuleCache M \<longrightarrow> snd Raw = cf (m_code_address M)" "unat (ModCounter VM) + 1 < 2 ^ 64"
    using a by (simp_all add: call_allowed_def)
  have V: "cache_inv E ?T ?V" "unat (ModCounter ?V) + 1 < 2 ^ 64" "code_inv cf ?V" using i(1,2) d(5) by (simp_all add: code_inv_def)
  have ent: "entered E ?T rv M Raw ?V A C VM'"
    by (rule fast_enter_ok [OF E V(1) X V(2) d(1,2) n, of rv]) (use e in auto)
  have Vc: "call_ok ?V c = call_ok VM c" for c
    by (simp add: call_ok_def slot_ok_def ctx_slot_ok_def slot_inst_def split: inst_slot.splits ctx_slot.splits)
  have ap: "apart ?c c" if "c \<in> set S" for c
    by (rule enter_apart [OF ent]) (use that i(4) d(3) Vc in \<open>auto simp: transients_def\<close>)
  have "call_ok VM' c" if c: "c \<in> set S" for c
  proof (rule call_ok_other)
    show "call_ok ?V c" using c i(4) Vc by simp
    show "other_insts (AInst A) ?V VM'" "length (NestedCtxPool ?V) \<le> length (NestedCtxPool VM')"
      "same_code (\<lambda>q. q \<in> ?T \<or> isModuleInUse q ?V \<and> \<not> stale Raw rv M ?V q) ?V VM'"
      using ent by (simp_all add: entered_def other_ctxs_def)
    show "AInst (CAct c) \<noteq> AInst A" using ap [OF c] by (auto simp: apart_def)
    obtain I where I: "slot_inst (AInst (CAct c)) ?V = Some I" "ModAt I = AMod (CAct c)"
      using c i(4) Vc [of c] by (auto simp: call_ok_def)
    show "AMod (CAct c) \<in> ?T \<or> isModuleInUse (AMod (CAct c)) ?V \<and> \<not> stale Raw rv M ?V (AMod (CAct c))"
      using in_use [OF I(1)] I(2) code_inv_not_stale [OF V(1,3) d(4)] by simp
  qed
  moreover have "call_ok VM' ?c" using ent d(1) by (simp add: entered_def call_ok_def)
  moreover have "code_inv cf VM'" using ent V(3) d(4) by (simp add: entered_def keeps_code_def)
  moreover have "cache_inv E (transients (?c # S)) VM'"
    using ent by (cases "ATransient A") (simp_all add: entered_def transients_Cons)
  moreover have "hosts_ok (ExecHost VM') (?c # S)" using ent i(5) by (simp add: entered_def)
  ultimately show ?thesis using ap i(3) by (simp add: calls_inv_def)
qed

lemma refuse_inv:
  assumes E: "ext_ok E" and X: "fresh X" and inv: "calls_inv E cf (VM, S)" and a: "call_allowed cf S M Raw VM" and n: "length (snd Raw) < n"
    and e: "fast_enter E n X rv M Raw (VM\<lparr>ExecHost := Host\<rparr>) = Some (Inr (None, VM'))"
  shows "calls_inv E cf (VM'\<lparr>ExecHost := ExecHost VM\<rparr>, S)"
proof -
  let ?V = "VM\<lparr>ExecHost := Host\<rparr>"
  let ?T = "transients S"
  have i: "cache_inv E ?T VM" "code_inv cf VM" "sorted_wrt apart S" "\<forall>c \<in> set S. call_ok VM c" "hosts_ok (ExecHost VM) S"
    using inv by (simp_all add: calls_inv_def)
  have d: "0 \<le> sint (m_depth M)" "sint (m_depth M) \<le> 1024"
    "shouldUsePersistentModuleCache M \<longrightarrow> snd Raw = cf (m_code_address M)" "unat (ModCounter VM) + 1 < 2 ^ 64"
    using a by (simp_all add: call_allowed_def)
  have V: "cache_inv E ?T ?V" "unat (ModCounter ?V) + 1 < 2 ^ 64" "code_inv cf ?V" using i(1,2) d(4) by (simp_all add: code_inv_def)
  have r: "refused E ?T rv M Raw ?V VM'"
    by (rule fast_enter_ok [OF E V(1) X V(2) d(1,2) n, of rv]) (use e in auto)
  have "call_ok (VM'\<lparr>ExecHost := ExecHost VM\<rparr>) c" if c: "c \<in> set S" for c
  proof -
    obtain I where I: "slot_inst (AInst (CAct c)) VM = Some I" "ModAt I = AMod (CAct c)" "module_at (AMod (CAct c)) VM \<noteq> None"
      using c i(4) by (auto simp: call_ok_def)
    have "isModuleInUse (AMod (CAct c)) ?V" using in_use [OF I(1)] I(2) by (simp add: isModuleInUse_def)
    then have "module_at (AMod (CAct c)) VM' \<noteq> None"
      using r I(3) code_inv_not_stale [OF V(1,3) d(3), of rv "AMod (CAct c)"] by (auto simp: refused_def same_code_def)
    then show ?thesis using c i(4) r
      by (auto simp: refused_def call_ok_def slot_ok_def ctx_slot_ok_def slot_inst_def split: inst_slot.splits ctx_slot.splits)
  qed
  moreover have "code_inv cf VM'" using r V(3) d(3) by (simp add: refused_def keeps_code_def)
  ultimately show ?thesis using i(3,5) r by (simp add: calls_inv_def refused_def code_inv_def)
qed

lemma leave_inv:
  assumes inv: "calls_inv E cf (VM, c # S)" and l: "fast_leave (CAct c) I C VM = Inr VM'"
  shows "calls_inv E cf (VM'\<lparr>ExecHost := CPrev c\<rparr>, S)"
proof -
  let ?A = "CAct c"
  have i: "cache_inv E (transients (c # S)) VM" "code_inv cf VM" "sorted_wrt apart S" "\<forall>c' \<in> set S. apart c c'"
    "\<forall>c \<in> set S. call_ok VM c" "hosts_ok (CPrev c) S"
    using inv by (simp_all add: calls_inv_def)
  have t: "ATransient ?A \<longrightarrow> AMod ?A \<in> transients (c # S)" by (auto simp: transients_def)
  obtain W where W: "fast_leave ?A I C VM = Inr W" "cache_inv E (if ATransient ?A then transients (c # S) - {AMod ?A} else transients (c # S)) W"
    "\<forall>q. q \<noteq> AMod ?A \<or> \<not> ATransient ?A \<longrightarrow> module_at q W = module_at q VM"
    "CachedMainInst W = CachedMainInst (put_inst (AInst ?A) \<lparr>ModAt = AMod ?A, IState = I\<rparr> VM)"
    "CacheInsts W = CacheInsts (put_inst (AInst ?A) \<lparr>ModAt = AMod ?A, IState = I\<rparr> VM)"
    "length (NestedCtxPool W) = length (NestedCtxPool VM)" "AddrCache W = AddrCache VM"
    by (rule leave_ok [OF i(1) t, of I C])
  have e: "W = VM'" using W(1) l by simp
  have "AMod ?A \<notin> transients S" if "ATransient ?A" using i(4) that by (auto simp: transients_def apart_def)
  then have inv': "cache_inv E (transients S) VM'" using W(2) e by (cases "ATransient ?A") (auto simp: transients_Cons)
  moreover have "code_inv cf VM'"
    unfolding code_inv_def
  proof (intro ballI allI impI, clarify)
    fix a r q m assume q: "((a, r), q) \<in> set (AddrCache VM')" and m: "module_at q VM' = Some m"
    have "q \<noteq> AMod ?A \<or> \<not> ATransient ?A" using entry_not_transient [OF i(1)] q W(7) e t by auto
    then show "Code m = cf (fst (a, r))" using W(3,7) e q m i(2) by (auto simp: code_inv_def)
  qed
  moreover have "call_ok VM' c'" if c': "c' \<in> set S" for c'
  proof -
    have ap: "AInst (CAct c') \<noteq> AInst ?A" "AMod (CAct c') \<noteq> AMod ?A \<or> \<not> ATransient ?A" using i(4) c' by (auto simp: apart_def)
    have "slot_inst (AInst (CAct c')) VM' = slot_inst (AInst (CAct c')) VM"
      using slot_inst_same [OF W(4,5)] put_inst_slot(3) [OF ap(1)] e by simp
    moreover have "module_at (AMod (CAct c')) VM' = module_at (AMod (CAct c')) VM" using W(3) ap(2) e by auto
    moreover have "slot_ok (CDepth c') (AInst (CAct c')) VM'"
      using calculation(1) i(5) c' by (auto simp: call_ok_def slot_ok_def slot_inst_def split: inst_slot.splits if_splits)
    moreover have "ctx_slot_ok (CDepth c') (ACtx (CAct c')) VM'"
      using i(5) c' W(6) e by (auto simp: call_ok_def ctx_slot_ok_def split: ctx_slot.splits)
    ultimately show ?thesis using i(5) c' by (simp add: call_ok_def)
  qed
  moreover have "call_ok (VM'\<lparr>ExecHost := h\<rparr>) c' = call_ok VM' c'" for h c'
    by (simp add: call_ok_def slot_ok_def ctx_slot_ok_def slot_inst_def split: inst_slot.splits ctx_slot.splits)
  ultimately show ?thesis using i(3,6) by (simp add: calls_inv_def code_inv_def)
qed

lemma set_option_config: "snd (set_option Name Value VM) = VM\<lparr>Config := Config (snd (set_option Name Value VM))\<rparr>"
  by (simp add: set_option_def)

lemma config_inv [simp]: "calls_inv E cf (VM\<lparr>Config := x\<rparr>, S) = calls_inv E cf (VM, S)"
proof -
  have "cache_inv E T (VM\<lparr>Config := x\<rparr>) = cache_inv E T VM" for T by (simp add: cache_inv_def pool_inv_def cong: option.case_cong)
  moreover have m: "module_at q (VM\<lparr>Config := x\<rparr>) = module_at q VM" for q by (simp add: module_at_def)
  moreover have "slot_inst s (VM\<lparr>Config := x\<rparr>) = slot_inst s VM" "slot_ok d s (VM\<lparr>Config := x\<rparr>) = slot_ok d s VM"
    "ctx_slot_ok d c (VM\<lparr>Config := x\<rparr>) = ctx_slot_ok d c VM" for s d c
    by (simp_all add: slot_inst_def slot_ok_def ctx_slot_ok_def split: inst_slot.splits ctx_slot.splits)
  ultimately show ?thesis by (simp add: calls_inv_def code_inv_def call_ok_def)
qed

lemma option_inv: "calls_inv E cf (VM, S) \<Longrightarrow> calls_inv E cf (snd (set_option Name Value VM), S)"
  by (subst set_option_config) simp

lemma step_inv:
  assumes "ext_ok E" and "fresh X" and "vm_step E X cf s s'" and "calls_inv E cf s"
  shows "calls_inv E cf s'"
  using assms(3,4)
proof cases
  case enter
  then show ?thesis using assms(4) by (auto intro: enter_inv [OF assms(1,2)])
next
  case refuse
  then show ?thesis using assms(4) by (auto intro: refuse_inv [OF assms(1,2)])
next
  case leave
  then show ?thesis using assms(4) by (auto intro: leave_inv)
next
  case option
  then show ?thesis using option_inv assms(4) by blast
qed

lemma reachable_inv:
  assumes "ext_ok E" and "fresh X" and "vm_reachable E X cf env s"
  shows "calls_inv E cf s"
  using assms(3) by (induction rule: vm_reachable.induct) (auto intro: calls_inv_start step_inv [OF assms(1,2)])

end
