(* ===== verification/Vm_Theorems.thy ===== *)
theory Vm_Theorems
  imports Vm_Steps Interpreter_Theorems
begin

text \<open>
  The theorems on the EVMC virtual machine: its module cache, the isolation of nested calls, and whole calls in
  interpreter mode.
\<close>

section \<open>Code validation\<close>

lemma take_eq_nth: "length xs = length ys \<Longrightarrow> take k xs = take k ys \<longleftrightarrow> (\<forall>i < length xs. i < k \<longrightarrow> xs ! i = ys ! i)"
  by (auto simp: list_eq_iff_nth_eq)

lemma drop_eq_nth: "length xs = length ys \<Longrightarrow> drop k xs = drop k ys \<longleftrightarrow> (\<forall>i < length xs. k \<le> i \<longrightarrow> xs ! i = ys ! i)"
proof -
  assume "length xs = length ys"
  moreover have "(\<forall>i < length xs - k. xs ! (k + i) = ys ! (k + i)) \<longleftrightarrow> (\<forall>i < length xs. k \<le> i \<longrightarrow> xs ! i = ys ! i)"
    by (metis add.commute diff_less_mono le_add_diff_inverse less_diff_conv le_add1)
  ultimately show ?thesis by (auto simp: list_eq_iff_nth_eq)
qed

text \<open>
  \<open>validateCodeMatch\<close> compares sizes and the first and last 256 bytes, no more and no less: a cached module of up
  to 512 bytes is accepted only for exactly its code, and for longer code the bytes in the middle are not looked at.
\<close>

theorem validate_exact:
  "validateCodeMatch code M \<longleftrightarrow> length code = length (Code M) \<and>
     (\<forall>i < length code. i < 256 \<or> length code \<le> i + 256 \<longrightarrow> code ! i = Code M ! i)"
proof (cases "length code = length (Code M)")
  case True
  note t = take_eq_nth [OF True] and d = drop_eq_nth [OF True]
  show ?thesis
  proof (cases "length code \<le> 256")
    case le: True
    then show ?thesis using True t [of "length code"] by (auto simp: validateCodeMatch_def min_def Let_def)
  next
    case False
    then have "length code - 256 \<le> i \<longleftrightarrow> length code \<le> i + 256" for i by auto
    then show ?thesis using False True t [of 256] d [of "length code - 256"]
      by (auto simp: validateCodeMatch_def min_def Let_def)
  qed
qed (simp add: validateCodeMatch_def)

theorem validate_exact_witness:
  "validateCodeMatch (replicate 600 1) (blank_module ((replicate 600 1)[300 := 2]) EVMC_CANCUN)"
  unfolding validate_exact by (simp add: nth_list_update)

section \<open>The module cache\<close>

text \<open>
  C8. Looking up a module never fails in an undefined way and keeps the invariant of the cache: names and addresses
  are unique, the LRU order has exactly the keys of the cache, and every module that is loaded belongs to the cache
  or to a running call. The module that is returned is loaded for the revision and has the size, head and tail of
  the code; it is null only if the module cannot be loaded. Only a cached module whose code does not match may be
  taken away from an instance.
\<close>

theorem module_lookup:
  assumes "cache_inv E T VM" and "RT VM = Some R" and "fresh X" and "unat (ModCounter VM) + 1 < 2 ^ 64"
  shows "\<exists>Mo tr VM'. findModuleCached X Raw rv M VM = Inr (Mo, tr, VM') \<and>
    (case Mo of
       None \<Rightarrow> \<not> loadable X (RtConfig R) Raw rv \<and> cache_inv E T VM'
     | Some p \<Rightarrow> cache_inv E (if tr then insert p T else T) VM' \<and>
         (\<exists>m. module_at p VM' = Some m \<and> Revision m = rv \<and> validateCodeMatch (snd Raw) m)) \<and>
    (\<forall>q. isModuleInUse q VM \<and> module_at q VM \<noteq> None \<and> \<not> stale Raw rv M VM q \<longrightarrow> module_at q VM' = module_at q VM)"
proof -
  obtain Mo tr VM' where f: "findModuleCached X Raw rv M VM = Inr (Mo, tr, VM')" "found E T Raw rv M VM Mo tr VM'"
    "Mo = None \<longrightarrow> \<not> loadable X (RtConfig R) Raw rv"
    by (rule find_ok [OF assms])
  have k: "keeps (\<lambda>q. q \<in> T \<or> isModuleInUse q VM \<and> \<not> stale Raw rv M VM q) VM VM'" using f(2) by (simp add: found_def)
  have "case Mo of None \<Rightarrow> \<not> loadable X (RtConfig R) Raw rv \<and> cache_inv E T VM'
     | Some p \<Rightarrow> cache_inv E (if tr then insert p T else T) VM' \<and>
         (\<exists>m. module_at p VM' = Some m \<and> Revision m = rv \<and> validateCodeMatch (snd Raw) m)"
  proof (cases Mo)
    case None
    then show ?thesis using f(2,3) found_None [of E T Raw rv M VM tr VM'] by simp
  next
    case (Some p)
    then show ?thesis using f(2) found_Some(2,3) [of E T Raw rv M VM p tr VM'] by simp
  qed
  then show ?thesis using f(1) k unfolding keeps_def by blast
qed

text \<open>A machine with its runtime, on a platform that takes the least address above those in use.\<close>

definition demo_platform :: platform where
  "demo_platform = \<lparr>singlepass_build = False, alloc = (\<lambda>ps. Suc (sum_list ps)), compile = (\<lambda>_ _ _. None), junk = (\<lambda>_. 0)\<rparr>"

lemma demo_fresh: "fresh demo_platform"
proof -
  have "Suc (sum_list ps) \<notin> set ps" for ps using member_le_sum_list [of "Suc (sum_list ps)" ps] by auto
  then show ?thesis by (simp add: fresh_def demo_platform_def)
qed

definition demo_vm :: DTVM where
  "demo_vm = (new_DTVM (\<lambda>_. Some ''interpreter''))\<lparr>RT := Some \<lparr>RtConfig = Config (new_DTVM (\<lambda>_. Some ''interpreter'')), EVMModulePool = []\<rparr>\<rparr>"

lemma demo_vm_inv: "cache_inv E {} demo_vm" "unat (ModCounter demo_vm) + 1 < 2 ^ 64"
  by (simp_all add: demo_vm_def new_DTVM_def cache_inv_def pool_inv_def pool_ok_def live_def Let_def)

definition demo_raw :: raw_data where
  "demo_raw = (Some 1, add_code)"

theorem module_lookup_witness:
  "\<exists>Mo tr VM'. findModuleCached demo_platform demo_raw EVMC_LONDON (demo_message 100) demo_vm = Inr (Mo, tr, VM') \<and>
    (case Mo of
       None \<Rightarrow> \<not> loadable demo_platform (RtConfig (the (RT demo_vm))) demo_raw EVMC_LONDON \<and> cache_inv reference_ext {} VM'
     | Some p \<Rightarrow> cache_inv reference_ext (if tr then insert p {} else {}) VM' \<and>
         (\<exists>m. module_at p VM' = Some m \<and> Revision m = EVMC_LONDON \<and> validateCodeMatch (snd demo_raw) m)) \<and>
    (\<forall>q. isModuleInUse q demo_vm \<and> module_at q demo_vm \<noteq> None \<and> \<not> stale demo_raw EVMC_LONDON (demo_message 100) demo_vm q \<longrightarrow>
      module_at q VM' = module_at q demo_vm)"
  by (rule module_lookup [OF demo_vm_inv(1) _ demo_fresh demo_vm_inv(2)]) (simp add: demo_vm_def)

text \<open>Eviction makes room for one entry.\<close>

lemma length_delete:
  assumes "K \<in> fst ` set al"
  shows "length (AList.delete K al) < length al"
proof -
  obtain b where "(K, b) \<in> set al" using assms by auto
  then show ?thesis unfolding AList.delete_eq by (rule length_filter_less) simp
qed

lemma evict_lru_below: "length (AddrCache VM) < MAX_MODULE_CACHE_SIZE \<Longrightarrow> evict_lru VM = Inr VM"
  by (subst evict_lru.simps) simp

lemma vm_unload_same: "vm_unload p VM = Inr VM' \<Longrightarrow> AddrCache VM' = AddrCache VM"
  by (auto simp: vm_unload_def bindE_Inr_iff split: option.splits)

lemma load_same: "loadEVMModuleWithRegAllocRetry X N Raw rv VM = Inr (Mo, VM') \<Longrightarrow> AddrCache VM' = AddrCache VM"
  by (auto simp: loadEVMModuleWithRegAllocRetry_def Let_def split: option.splits sum.splits cpp_error.splits if_splits)

lemma evict_lru_room:
  assumes inv: "cache_inv E T VM" and "length (AddrCache VM) \<le> MAX_MODULE_CACHE_SIZE" and "\<not> lru_blocked VM" and e: "evict_lru VM = Inr W"
  shows "length (AddrCache W) < MAX_MODULE_CACHE_SIZE"
proof (cases "length (AddrCache VM) < MAX_MODULE_CACHE_SIZE")
  case True
  then show ?thesis using evict_lru_below [OF True] e by simp
next
  case False
  let ?K = "last (LRUOrder VM)"
  have ne: "LRUOrder VM \<noteq> []" using False inv_LRU(1) [OF inv] by (auto simp: MAX_MODULE_CACHE_SIZE_def)
  then have K: "?K \<in> fst ` set (AddrCache VM)" using inv_LRU(1) [OF inv] last_in_set by metis
  then obtain p where p: "map_of (AddrCache VM) ?K = Some p" by (auto simp: dom_map_of_conv_image_fst [symmetric])
  have u: "\<not> isModuleInUse p VM" using assms(3) ne p by (simp add: lru_blocked_def)
  let ?V = "if L0Mod VM = Some p then VM\<lparr>L0Mod := None\<rparr> else VM"
  obtain V where V: "vm_unload p ?V = Inr V"
    "evict_lru (V\<lparr>AddrCache := AList.delete ?K (AddrCache V), LRUOrder := butlast (LRUOrder VM)\<rparr>) = Inr W"
    using e False ne p u by (subst (asm) evict_lru.simps) (auto simp: bindE_Inr_iff Let_def)
  have "AddrCache V = AddrCache VM" using vm_unload_same [OF V(1)] by simp
  then have "length (AList.delete ?K (AddrCache V)) < MAX_MODULE_CACHE_SIZE" using length_delete [OF K] assms(2) by simp
  then show ?thesis using V(2) evict_lru_below by fastforce
qed

lemma cold_load_room:
  assumes inv: "cache_inv E T VM" and len: "length (AddrCache VM) \<le> MAX_MODULE_CACHE_SIZE" and nb: "\<not> lru_blocked VM"
    and c: "cold_load X Raw rv M K VM = Inr (Mo, W)"
  shows "length (AddrCache W) \<le> MAX_MODULE_CACHE_SIZE"
proof -
  obtain V where V: "evict_stale K M VM = Inr V" "cache_inv E T V" "same_insts VM V" "map_of (AddrCache V) K = None"
    "set (AddrCache V) \<subseteq> set (AddrCache VM)"
    by (rule evict_stale_ok [OF inv, of K M])
  have room: "length (AddrCache U) < MAX_MODULE_CACHE_SIZE" if "evict_lru V = Inr U" for U
  proof (cases "map_of (AddrCache VM) K")
    case None
    then have "V = VM" using V(1) by (simp add: evict_stale_def)
    then show ?thesis using evict_lru_room [OF inv len nb] that by simp
  next
    case (Some p)
    then have "AddrCache V = AList.delete K (AddrCache VM)"
      using V(1) by (auto simp: evict_stale_def Let_def bindE_Inr_iff dest!: vm_unload_same split: if_splits)
    moreover have "K \<in> fst ` set (AddrCache VM)" using map_of_SomeD [OF Some] by force
    ultimately have "length (AddrCache V) < MAX_MODULE_CACHE_SIZE" using length_delete len by fastforce
    then show ?thesis using evict_lru_below that by fastforce
  qed
  obtain U where U: "evict_lru V = Inr U" using c V(1) by (auto simp: cold_load_def bindE_Inr_iff)
  have up: "length (AList.update K p al) \<le> Suc (length al)" for p and al :: "(CodeAddrRevKey \<times> nat) list"
    by (induction al) auto
  have "length (AddrCache W) \<le> Suc (length (AddrCache U))"
    using c by (auto simp: cold_load_def Let_def bindE_Inr_iff V(1) U up dest!: load_same split: option.splits)
  then show ?thesis using room [OF U] by simp
qed

text \<open>
  C26. The cache stays within its capacity of 4096 modules as long as no instance refers to the module that was used
  least recently.
\<close>

theorem cache_bounded:
  assumes inv: "cache_inv E T VM" and len: "length (AddrCache VM) \<le> MAX_MODULE_CACHE_SIZE" and nb: "\<not> lru_blocked VM"
    and f: "findModuleCached X Raw rv M VM = Inr (Mo, tr, VM')"
  shows "length (AddrCache VM') \<le> MAX_MODULE_CACHE_SIZE"
proof (cases "shouldUsePersistentModuleCache M")
  case False
  then obtain N where "loadEVMModuleWithRegAllocRetry X N Raw rv (VM\<lparr>ModCounter := ModCounter VM + 1\<rparr>) = Inr (Mo, VM')"
    using f by (auto simp: findModuleCached_def loadTransientModule_def bindE_Inr_iff Let_def)
  then show ?thesis using load_same len by fastforce
next
  case True
  let ?K = "(m_code_address M, rv)"
  obtain Hit where "cached_module Raw ?K VM = Inr Hit" using f True by (auto simp: findModuleCached_def Let_def bindE_Inr_iff)
  note f = f [unfolded findModuleCached_def Let_def this bindE.simps]
  show ?thesis
  proof (cases Hit)
    case (Some p)
    then show ?thesis using f True len by auto
  next
    case None
    then have "(\<exists>Mo' W. cold_load X Raw rv M ?K VM = Inr (Mo', W) \<and> AddrCache VM' = AddrCache W)"
      using f True by (cases "cold_load X Raw rv M ?K VM") (auto split: option.splits)
    then show ?thesis using cold_load_room [OF inv len nb] by fastforce
  qed
qed

theorem cache_bounded_witness:
  "\<exists>Mo tr VM'. findModuleCached demo_platform demo_raw EVMC_LONDON (demo_message 100) demo_vm = Inr (Mo, tr, VM') \<and>
    length (AddrCache VM') \<le> MAX_MODULE_CACHE_SIZE"
proof -
  have R: "RT demo_vm = Some (the (RT demo_vm))" by (simp add: demo_vm_def)
  obtain Mo tr VM' where f: "findModuleCached demo_platform demo_raw EVMC_LONDON (demo_message 100) demo_vm = Inr (Mo, tr, VM')"
    by (rule find_ok [OF demo_vm_inv(1) R demo_fresh demo_vm_inv(2)])
  have e: "AddrCache demo_vm = []" "LRUOrder demo_vm = []" by (simp_all add: demo_vm_def new_DTVM_def Let_def)
  show ?thesis using f cache_bounded [OF demo_vm_inv(1) _ _ f] e by (auto simp: lru_blocked_def)
qed

section \<open>Nested calls\<close>

text \<open>A machine that runs one call.\<close>

definition demo_env :: "string \<Rightarrow> string option" where
  "demo_env = (\<lambda>_. Some ''interpreter'')"

lemma demo_call:
  obtains VM c where "vm_reachable reference_ext demo_platform (\<lambda>_. add_code) demo_env (VM, [c])"
proof -
  let ?M = "demo_message 100" and ?V = "(new_DTVM demo_env)\<lparr>ExecHost := (None, None)\<rparr>"
  have V: "cache_inv reference_ext {} ?V" "unat (ModCounter ?V) + 1 < 2 ^ 64"
    by (simp_all add: new_DTVM_def cache_inv_def Let_def)
  have d: "0 \<le> sint (m_depth ?M)" "sint (m_depth ?M) \<le> 1024" by (simp_all add: demo_message_def)
  have en: "enterable demo_platform EVMC_LONDON demo_raw ?V"
    by (simp add: enterable_def new_DTVM_def Let_def demo_env_def newEVMRuntime_def validate_def loadable_def demo_raw_def add_code_def
        PresetMaxModuleSize_def parseBoolEnvValue_def)
  obtain A C VM' where e: "fast_enter reference_ext 100 demo_platform EVMC_LONDON ?M demo_raw ?V = Some (Inr (Some (A, C), VM'))"
    by (rule fast_enter_ok [OF reference_ext_ok V(1) demo_fresh V(2) d, of demo_raw 100 EVMC_LONDON])
      (use en in \<open>simp_all add: demo_raw_def add_code_def\<close>)
  have "call_allowed (\<lambda>_. add_code) [] ?M demo_raw (new_DTVM demo_env)" using V d by (simp add: call_allowed_def demo_raw_def)
  from vm_step.enter [OF this _ _ e, where Host = "(None, None)" and Prev = "ExecHost (new_DTVM demo_env)"]
  show thesis using that vm_reachable.step [OF vm_reachable.start] by (fastforce simp: demo_raw_def add_code_def)
qed

text \<open>
  C6. Whatever sequence of options, entered, refused and finished calls has led to a state of the machine, the calls
  that run do not share an instance, a context or a transient module, each of them finds its instance bound to its
  module and the module in the pool, and the host that the machine holds is the one of the innermost call.
\<close>

theorem calls_isolated:
  assumes "ext_ok E" and "fresh X" and "vm_reachable E X cf env (VM, S)"
  shows "(\<forall>i j. i < j \<and> j < length S \<longrightarrow> apart (S ! i) (S ! j)) \<and> (\<forall>c \<in> set S. call_ok VM c) \<and>
    ExecHost VM = (case S of [] \<Rightarrow> (None, None) | c # _ \<Rightarrow> CHost c)"
proof -
  note i = reachable_inv [OF assms]
  have "ExecHost VM = (case S of [] \<Rightarrow> (None, None) | c # _ \<Rightarrow> CHost c)"
    using i by (cases S) (simp_all add: calls_inv_def)
  then show ?thesis using i by (simp add: calls_inv_def sorted_wrt_iff_nth_less)
qed

theorem calls_isolated_witness:
  "\<exists>VM S. vm_reachable reference_ext demo_platform (\<lambda>_. add_code) demo_env (VM, S) \<and> S \<noteq> [] \<and>
    (\<forall>i j. i < j \<and> j < length S \<longrightarrow> apart (S ! i) (S ! j)) \<and> (\<forall>c \<in> set S. call_ok VM c) \<and>
    ExecHost VM = (case S of [] \<Rightarrow> (None, None) | c # _ \<Rightarrow> CHost c)"
proof -
  obtain VM c where r: "vm_reachable reference_ext demo_platform (\<lambda>_. add_code) demo_env (VM, [c])" by (rule demo_call)
  have "[c] \<noteq> []" by simp
  then show ?thesis using r calls_isolated [OF reference_ext_ok demo_fresh r] by blast
qed

lemma leave_step:
  assumes "calls_inv E cf (VM, c # S)"
  shows "\<exists>VM'. fast_leave (CAct c) I C VM = Inr VM' \<and> vm_step E X cf (VM, c # S) (VM'\<lparr>ExecHost := CPrev c\<rparr>, S)"
proof -
  have "cache_inv E (transients (c # S)) VM" "ATransient (CAct c) \<longrightarrow> AMod (CAct c) \<in> transients (c # S)"
    using assms by (auto simp: calls_inv_def transients_def)
  then obtain VM' where "fast_leave (CAct c) I C VM = Inr VM'" by (rule leave_ok)
  then show ?thesis using vm_step.leave [of c I C VM _ E X cf S] by fastforce
qed


section \<open>The end of the machine\<close>

lemma unload_all_ok:
  assumes "pool_ok E (EVMModulePool R)" and "RT VM = Some R" and "distinct ps" and "set ps \<subseteq> set (live (EVMModulePool R))"
  shows "\<exists>P. unload_all ps VM = Inr (VM\<lparr>RT := Some (R\<lparr>EVMModulePool := P\<rparr>)\<rparr>) \<and> set (live P) = set (live (EVMModulePool R)) - set ps"
  using assms
proof (induction ps arbitrary: VM R)
  case Nil
  then show ?case by (intro exI [of _ "EVMModulePool R"]) simp
next
  case (Cons p ps)
  have "at p (EVMModulePool R) \<noteq> None" using Cons.prems(4) by (simp add: at_None)
  then obtain P where P: "unloadEVMModule p R = Inr (True, R\<lparr>EVMModulePool := P\<rparr>)" "pool_ok E P"
    "\<forall>q. at q P = (if q = p then None else at q (EVMModulePool R))"
    by (rule unload_ok [OF Cons.prems(1)])
  have lv: "set (live P) = set (live (EVMModulePool R)) - {p}"
    unfolding set_eq_iff using P(3) at_None [of _ P] at_None [of _ "EVMModulePool R"] by (metis Diff_iff singleton_iff)
  have "set ps \<subseteq> set (live P)" using Cons.prems(3,4) lv by auto
  from Cons.IH [of "R\<lparr>EVMModulePool := P\<rparr>" "VM\<lparr>RT := Some (R\<lparr>EVMModulePool := P\<rparr>)\<rparr>"] this P(2) Cons.prems(3)
  show ?case using lv Cons.prems(2) P(1) by (auto simp: vm_unload_def)
qed

lemma destroy_ok:
  assumes "cache_inv E {} VM"
  shows "\<exists>W. destroy_DTVM VM = Inr W \<and> (case RT W of None \<Rightarrow> True | Some R \<Rightarrow> EVMModulePool R = [])"
proof -
  let ?V = "if Iso VM then VM\<lparr>CachedMainInst := None, CacheInsts := []\<rparr> else VM"
  have V: "RT ?V = RT VM" "AddrCache ?V = AddrCache VM" by simp_all
  show ?thesis
  proof (cases "RT VM")
    case None
    then show ?thesis by (simp add: destroy_DTVM_def V Let_def)
  next
    case (Some R)
    note i = pool_invD [OF cache_invD [OF assms Some]]
    obtain P where P: "unload_all (map snd (AddrCache VM)) ?V = Inr (?V\<lparr>RT := Some (R\<lparr>EVMModulePool := P\<rparr>)\<rparr>)"
      "set (live P) = set (live (EVMModulePool R)) - set (map snd (AddrCache VM))"
      using unload_all_ok [OF i(1), of ?V "map snd (AddrCache VM)"] Some V i(3,7) by auto
    have "P = []" using P(2) i(7) by (simp add: live_def)
    then show ?thesis using P(1) Some by (auto simp: destroy_DTVM_def Let_def)
  qed
qed

text \<open>
  C13. No module leaks and none is unloaded twice: at any time, the modules in the pool are those of the cache, each
  once, and the transient ones of the calls that run. When no call runs, the destructor unloads them all.
\<close>

theorem no_module_leak:
  assumes "ext_ok E" and "fresh X" and "vm_reachable E X cf env (VM, S)"
  shows "(\<forall>R. RT VM = Some R \<longrightarrow> set (live (EVMModulePool R)) = snd ` set (AddrCache VM) \<union> transients S \<and>
      distinct (map snd (AddrCache VM)) \<and> snd ` set (AddrCache VM) \<inter> transients S = {}) \<and>
    (S = [] \<longrightarrow> (\<exists>W. destroy_DTVM VM = Inr W \<and> (case RT W of None \<Rightarrow> True | Some R \<Rightarrow> EVMModulePool R = [])))"
proof -
  have i: "cache_inv E (transients S) VM" using reachable_inv [OF assms] by (simp add: calls_inv_def)
  have "transients [] = {}" by (simp add: transients_def)
  then have "S = [] \<longrightarrow> (\<exists>W. destroy_DTVM VM = Inr W \<and> (case RT W of None \<Rightarrow> True | Some R \<Rightarrow> EVMModulePool R = []))"
    using destroy_ok [of E VM] i by auto
  moreover have "set (live (EVMModulePool R)) = snd ` set (AddrCache VM) \<union> transients S \<and>
      distinct (map snd (AddrCache VM)) \<and> snd ` set (AddrCache VM) \<inter> transients S = {}" if "RT VM = Some R" for R
    using pool_invD(3,7,8) [OF cache_invD [OF i that]] by blast
  ultimately show ?thesis by blast
qed

theorem no_module_leak_witness:
  "\<exists>VM. vm_reachable reference_ext demo_platform (\<lambda>_. add_code) demo_env (VM, []) \<and> RT VM \<noteq> None \<and>
    set (live (EVMModulePool (the (RT VM)))) = snd ` set (AddrCache VM) \<and>
    (\<exists>W. destroy_DTVM VM = Inr W \<and> (case RT W of None \<Rightarrow> True | Some R \<Rightarrow> EVMModulePool R = []))"
proof -
  obtain VM c where r: "vm_reachable reference_ext demo_platform (\<lambda>_. add_code) demo_env (VM, [c])" by (rule demo_call)
  note i = reachable_inv [OF reference_ext_ok demo_fresh r]
  obtain VM' where l: "fast_leave (CAct c) (Inst add_ctx) add_ctx VM = Inr VM'"
    "vm_step reference_ext demo_platform (\<lambda>_. add_code) (VM, [c]) (VM'\<lparr>ExecHost := CPrev c\<rparr>, [])"
    using leave_step [OF i] by blast
  let ?V = "VM'\<lparr>ExecHost := CPrev c\<rparr>"
  have r': "vm_reachable reference_ext demo_platform (\<lambda>_. add_code) demo_env (?V, [])"
    by (rule vm_reachable.step [OF r l(2)])
  have "module_at (AMod (CAct c)) VM \<noteq> None" using i by (simp add: calls_inv_def call_ok_def)
  then have "RT VM \<noteq> None" by (cases "RT VM") (simp_all add: module_at_def)
  then have "RT ?V \<noteq> None"
    using l(1) by (auto simp: fast_leave_def Let_def vm_unload_def put_ctx_def put_inst_def bindE_Inr_iff
        split: if_splits option.splits ctx_slot.splits inst_slot.splits)
  then show ?thesis using r' no_module_leak [OF reference_ext_ok demo_fresh r']
    by (intro exI [of _ ?V]) (auto simp: transients_def)
qed

section \<open>A call of the machine\<close>

lemma ctx_with_simps [simp]:
  "Inst (ctx_with h C) = Inst C" "FrameCount (ctx_with h C) = FrameCount C" "ReturnData (ctx_with h C) = ReturnData C"
  by (simp_all add: ctx_with_def)

text \<open>What the machine answers to a message.\<close>

definition answered :: "evmc_message \<Rightarrow> evmc_result \<Rightarrow> bool" where
  "answered M R \<longleftrightarrow> r_gas_left R \<le> m_gas M \<and> length (r_output R) \<le> 16777216 \<and>
     (r_status R \<notin> {EVMC_SUCCESS, EVMC_REVERT} \<longrightarrow> r_gas_left R = 0 \<and> r_output R = [])"

lemma fast_path_answers:
  fixes E :: "(DTVM \<times> 'w) ext"
  assumes E: "ext_ok E" and X: "fresh X" and inv: "cache_inv E T VM" and c: "unat (ModCounter VM) + 1 < 2 ^ 64"
    and d: "0 \<le> sint (m_depth M)" "sint (m_depth M) \<le> 1024" and p: "shouldUsePersistentModuleCache M"
    and r: "0 <s m_depth M \<or> CachedMainInst VM \<noteq> None \<or> rv = DEFAULT_REVISION" and g: "m_gas M < 2 ^ 63"
    and n: "unat (m_gas M) * (length (snd Raw) + 1) + 2 * length (snd Raw) + 34 \<le> n"
  shows "\<exists>R w' VM1 VM2. executeInterpreterFastPath True E n X Host rv M Raw VM w = Some (Inr (R, VM1, w')) \<and>
    executeInterpreterFastPath False E n X Host rv M Raw VM w = Some (Inr (R, VM2, w')) \<and> answered M R \<and>
    ExecHost VM1 = ExecHost VM \<and> ExecHost VM2 = ExecHost VM"
proof -
  let ?V = "VM\<lparr>ExecHost := Host\<rparr>"
  have V: "cache_inv E T ?V" "unat (ModCounter ?V) + 1 < 2 ^ 64" "length (snd Raw) < n" using inv c n by simp_all
  show ?thesis
  proof (rule fast_enter_ok [OF E V(1) X V(2) d V(3), of rv])
    fix VM' assume "fast_enter E n X rv M Raw ?V = Some (Inr (None, VM'))"
    then show ?thesis using g by (auto simp: executeInterpreterFastPath_def answered_def make_failure_def evmc_Result_def Let_def)
  next
    fix A C VM' assume e: "fast_enter E n X rv M Raw ?V = Some (Inr (Some (A, C), VM'))" and en: "entered E T rv M Raw ?V A C VM'"
    let ?C = "ctx_with (VM', w) C"
    have i: "module_ok E (Mod (Inst C))" "Revision (Mod (Inst C)) = rv" "Rev (Inst C) = rv" "\<not> ATransient A"
      "length (Code (Mod (Inst C))) = length (snd Raw)" "FrameCount C = 0" "ReturnData C = []"
      using en r p by (auto simp: entered_def dest: validate_length)
    have C: "callable E (Inst ?C) M" "same_revision (Inst ?C)" "FrameCount ?C = 0" "ReturnData ?C = []" "call_fuel (Inst ?C) M \<le> n"
      using i g n by (simp_all add: callable_def call_fuel_def same_revision_def)
    obtain D D' where D: "run_in_ctx True E n M ?C = Some (Inr D)" "run_in_ctx False E n M ?C = Some (Inr D')" "same_ctx D D'"
      "called E (Inst ?C) M (ExeResult D) (Inst D)"
      by (rule run_in_ctx_ok [OF E C])
    have "answered M ((ExeResult D)\<lparr>r_gas_left := Gas (Inst D)\<rparr>)" using D(4) by (auto simp: called_def answered_def)
    then show ?thesis using e D(1,2) same_ctx_fields [OF D(3)] i(4)
      by (auto simp: executeInterpreterFastPath_def fast_leave_def Let_def split: prod.splits)
  qed
qed


lemma fast_path_safe:
  fixes E :: "(DTVM \<times> 'w) ext"
  assumes E: "ext_ok E" and X: "fresh X" and inv: "cache_inv E T VM" and c: "unat (ModCounter VM) + 1 < 2 ^ 64"
    and d: "0 \<le> sint (m_depth M)" "sint (m_depth M) \<le> 1024" and p: "shouldUsePersistentModuleCache M"
    and g: "m_gas M < 2 ^ 63" and n: "length (snd Raw) < n"
    and x: "executeInterpreterFastPath gnu E n X Host rv M Raw VM w = Some x"
  shows "\<exists>R w' VM'. x = Inr (R, VM', w') \<and> answered M R \<and> ExecHost VM' = ExecHost VM"
proof -
  let ?V = "VM\<lparr>ExecHost := Host\<rparr>"
  have V: "cache_inv E T ?V" "unat (ModCounter ?V) + 1 < 2 ^ 64" using inv c by simp_all
  show ?thesis
  proof (rule fast_enter_ok [OF E V(1) X V(2) d n, of rv])
    fix VM' assume "fast_enter E n X rv M Raw ?V = Some (Inr (None, VM'))"
    then show ?thesis using g x by (auto simp: executeInterpreterFastPath_def answered_def make_failure_def evmc_Result_def)
  next
    fix A C VM' assume e: "fast_enter E n X rv M Raw ?V = Some (Inr (Some (A, C), VM'))" and en: "entered E T rv M Raw ?V A C VM'"
    let ?C = "ctx_with (VM', w) C"
    have i: "module_ok E (Mod (Inst C))" "\<not> ATransient A" "length (Code (Mod (Inst C))) = length (snd Raw)"
      "FrameCount C = 0" "ReturnData C = []"
      using en p by (auto simp: entered_def dest: validate_length)
    have C: "callable E (Inst ?C) M" "FrameCount ?C = 0" "ReturnData ?C = []" "length (Code (Mod (Inst ?C))) < n"
      using i g n by (simp_all add: callable_def)
    obtain y where y: "run_in_ctx gnu E n M ?C = Some y"
      using x e by (cases "run_in_ctx gnu E n M ?C") (simp_all add: executeInterpreterFastPath_def)
    obtain D where D: "y = Inr D" "called E (Inst ?C) M (ExeResult D) (Inst D)" by (rule run_in_ctx_safe [OF E C y])
    have "answered M ((ExeResult D)\<lparr>r_gas_left := Gas (Inst D)\<rparr>)" using D(2) by (auto simp: called_def answered_def)
    then show ?thesis using x e y D(1) i(2)
      by (auto simp: executeInterpreterFastPath_def fast_leave_def Let_def split: prod.splits)
  qed
qed

text \<open>
  C5. In interpreter mode no call of the machine that is not a creation goes wrong, in either build and at every revision: a
  call that ends has an answer, no gas is gained, a failure leaves neither gas nor output, and the host of the enclosing
  call is put back. A call ends, within a number of iterations that is linear in the gas and the code and with the same
  result in both builds, if it is nested, if the main instance has been made before, or if the revision asked for is
  Cancun. In the remaining case, the first call at depth zero at another revision, the code runs on an instance of another
  revision than its module's and need not end.
\<close>

theorem vm_answers:
  fixes E :: "(DTVM \<times> 'w) ext"
  assumes m: "Mode (Config VM) = InterpMode" and E: "ext_ok E" and X: "fresh X" and inv: "cache_inv E T VM" and c: "unat (ModCounter VM) + 1 < 2 ^ 64"
    and d: "0 \<le> sint (m_depth M)" "sint (m_depth M) \<le> 1024" and p: "shouldUsePersistentModuleCache M"
    and g: "m_gas M < 2 ^ 63" and n: "length (snd Raw) < n"
  shows "(vm_execute native gnu E n X Host rv M Raw VM w = None \<or>
      (\<exists>R w' VM'. vm_execute native gnu E n X Host rv M Raw VM w = Some (Inr (R, VM', w')) \<and> answered M R \<and> ExecHost VM' = ExecHost VM)) \<and>
    ((0 <s m_depth M \<or> CachedMainInst VM \<noteq> None \<or> rv = EVMC_CANCUN) \<and>
        unat (m_gas M) * (length (snd Raw) + 1) + 2 * length (snd Raw) + 34 \<le> n \<longrightarrow>
      (\<exists>R w' VM1 VM2. vm_execute native True E n X Host rv M Raw VM w = Some (Inr (R, VM1, w')) \<and>
        vm_execute native False E n X Host rv M Raw VM w = Some (Inr (R, VM2, w')) \<and> answered M R \<and>
        ExecHost VM1 = ExecHost VM \<and> ExecHost VM2 = ExecHost VM))"
proof
  have e: "vm_execute native b E n X Host rv M Raw VM w = executeInterpreterFastPath b E n X Host rv M Raw VM w" for b
    using m by (simp add: vm_execute_def)
  show "vm_execute native gnu E n X Host rv M Raw VM w = None \<or>
      (\<exists>R w' VM'. vm_execute native gnu E n X Host rv M Raw VM w = Some (Inr (R, VM', w')) \<and> answered M R \<and> ExecHost VM' = ExecHost VM)"
    unfolding e using fast_path_safe [OF E X inv c d p g n, of gnu Host rv w]
    by (cases "executeInterpreterFastPath gnu E n X Host rv M Raw VM w") blast+
  show "(0 <s m_depth M \<or> CachedMainInst VM \<noteq> None \<or> rv = EVMC_CANCUN) \<and>
        unat (m_gas M) * (length (snd Raw) + 1) + 2 * length (snd Raw) + 34 \<le> n \<longrightarrow>
      (\<exists>R w' VM1 VM2. vm_execute native True E n X Host rv M Raw VM w = Some (Inr (R, VM1, w')) \<and>
        vm_execute native False E n X Host rv M Raw VM w = Some (Inr (R, VM2, w')) \<and> answered M R \<and>
        ExecHost VM1 = ExecHost VM \<and> ExecHost VM2 = ExecHost VM)"
    unfolding e using fast_path_answers [OF E X inv c d p _ g, of rv Raw n Host w] by (simp add: DEFAULT_REVISION_def)
qed

theorem vm_answers_witness:
  "\<exists>R w' VM1 VM2.
    vm_execute (\<lambda>I h. None) True reference_host 10000 demo_platform (None, None) EVMC_CANCUN (demo_message 100) demo_raw demo_vm () =
      Some (Inr (R, VM1, w')) \<and>
    vm_execute (\<lambda>I h. None) False reference_host 10000 demo_platform (None, None) EVMC_CANCUN (demo_message 100) demo_raw demo_vm () =
      Some (Inr (R, VM2, w')) \<and> answered (demo_message 100) R \<and>
    ExecHost VM1 = ExecHost demo_vm \<and> ExecHost VM2 = ExecHost demo_vm"
proof -
  have h: "Mode (Config demo_vm) = InterpMode" "0 \<le> sint (m_depth (demo_message 100))" "sint (m_depth (demo_message 100)) \<le> 1024"
    "shouldUsePersistentModuleCache (demo_message 100)" "m_gas (demo_message 100) < 2 ^ 63" "length (snd demo_raw) < 10000"
    "unat (m_gas (demo_message 100)) * (length (snd demo_raw) + 1) + 2 * length (snd demo_raw) + 34 \<le> 10000"
    by (simp_all add: demo_message_def demo_vm_def new_DTVM_def Let_def parseBoolEnvValue_def shouldUsePersistentModuleCache_def
        demo_raw_def add_code_def)
  show ?thesis
    using vm_answers [OF h(1) reference_ext_ok demo_fresh demo_vm_inv(1) demo_vm_inv(2) h(2-6), where native = "\<lambda>I h. None"
        and gnu = True and Host = "(None, None)" and rv = EVMC_CANCUN and w = "()"] h(7) by simp
qed

lemma jit_setup_ok:
  assumes "module_at p VM \<noteq> None"
  shows "\<exists>s I VM'. jit_setup X rv M p VM = Inr (s, I, VM')"
proof -
  obtain s V where s: "getOrCreateInstance X p rv (m_depth M) VM = Inr (s, V)" "took p rv (m_depth M) VM s V"
    using getOrCreate_ok [OF assms] by blast
  obtain I where I: "slot_inst s V = Some I" using s(2) by (auto simp: took_def)
  obtain R nm m where R: "RT V = Some R" "at p (EVMModulePool R) = Some (nm, m)"
    using assms took_same(2) [OF s(2), of p] by (cases "RT V") (auto simp: module_at_def)
  obtain J where "push_local M ((if m_depth M = 0 then clearMessageCache ((IState I)\<lparr>Mod := m\<rparr>) else (IState I)\<lparr>Mod := m\<rparr>)
      \<lparr>InstExeResult := evmc_Result EVMC_SUCCESS 0 0 []\<rparr>) = Inr J"
    by (rule push_local_returns)
  then show ?thesis using s(1) I R by (simp add: jit_setup_def Let_def)
qed

lemma jit_call_ok:
  assumes "cache_inv E T VM" and "RT VM = Some R" and "fresh X" and "unat (ModCounter VM) + 1 < 2 ^ 64"
    and p: "shouldUsePersistentModuleCache M"
  shows "(\<exists>R VM' w'. jit_call native X rv M Raw VM w = Some (Inr (R, VM', w'))) \<or>
    jit_call native X rv M Raw VM w = None \<and> (\<exists>I V. native I (V, w) = None)"
proof -
  obtain Mo tr V where f: "findModuleCached X Raw rv M VM = Inr (Mo, tr, V)" "found E T Raw rv M VM Mo tr V"
    by (rule find_ok [OF assms(1-4)])
  have tr: "\<not> tr" using f(2) p by (simp add: found_def)
  show ?thesis
  proof (cases Mo)
    case (Some q)
    then have "module_at q V \<noteq> None" using found_Some(3) [of E T Raw rv M VM q tr V] f(2) by auto
    then obtain s I V' where s: "jit_setup X rv M q V = Inr (s, I, V')" using jit_setup_ok by blast
    have j: "jit_call native X rv M Raw VM w = jit_run native tr q s I V' w" using f(1) Some s by (simp add: jit_call_def)
    show ?thesis
    proof (cases "native I (V', w)")
      case None
      then show ?thesis using j by (auto simp: jit_run_def callEVMInJITMode_def)
    next
      case r: (Some y)
      then show ?thesis using j tr by (cases y) (auto simp: jit_run_def callEVMInJITMode_def Let_def)
    qed
  qed (use f(1) in \<open>simp add: jit_call_def\<close>)
qed

text \<open>
  C25. In multipass mode the machine adds no failure of its own to what the compiled code does: a call that is not a creation
  is answered, with the host of the enclosing call put back, unless compiled code that it has called does not return. A
  plain call at depth zero to an account without code, whose address is not one of the first nine, is answered without any
  code: it succeeds with all of its gas, loads no module and leaves the state of the host alone, provided that the
  runtime is there or can be made. The gas is below 2 to the power of 63, and the depth at most 1024.
\<close>

theorem multipass_answers:
  fixes E :: "(DTVM \<times> 'w) ext"
  assumes m: "Mode (Config VM) \<noteq> InterpMode" and E: "ext_ok E" and X: "fresh X" and inv: "cache_inv E T VM"
    and c: "unat (ModCounter VM) + 1 < 2 ^ 64" and d: "0 \<le> sint (m_depth M)" "sint (m_depth M) \<le> 1024"
    and p: "shouldUsePersistentModuleCache M" and g: "m_gas M < 2 ^ 63" and n: "unat (m_gas M) + 34 \<le> n"
  shows "((\<exists>R VM' w'. vm_execute native gnu E n X Host rv M Raw VM w = Some (Inr (R, VM', w')) \<and> ExecHost VM' = ExecHost VM) \<or>
      vm_execute native gnu E n X Host rv M Raw VM w = None \<and> (\<exists>I V. native I (V, w) = None)) \<and>
    (m_depth M = 0 \<and> snd Raw = [] \<and> m_kind M = EVMC_CALL \<and> \<not> isLikelyPrecompile (m_recipient M) \<and>
       (RT VM \<noteq> None \<or> newEVMRuntime X (Config VM) \<noteq> None) \<longrightarrow>
     (\<exists>VM'. vm_execute native gnu E n X Host rv M Raw VM w = Some (Inr (evmc_Result EVMC_SUCCESS (m_gas M) 0 [], VM', w)) \<and>
       AddrCache VM' = AddrCache VM \<and> ExecHost VM' = ExecHost VM))"
proof -
  let ?V = "VM\<lparr>ExecHost := Host\<rparr>"
  have iV: "cache_inv E T ?V" using inv by simp
  obtain V where V: "ensureRuntimeAndIsolation X ?V = (RT V \<noteq> None, V)" "cache_inv E T V" "V\<lparr>RT := RT ?V, Iso := Iso ?V\<rparr> = ?V"
    "RT V = (case RT ?V of None \<Rightarrow> newEVMRuntime X (Config ?V) | Some R \<Rightarrow> Some R)"
    by (rule ensure_ok [OF iV, of X])
  note same = ensure_same [OF V(3)]
  have cV: "unat (ModCounter V) + 1 < 2 ^ 64" using same(7) c by simp
  let ?out = "\<lambda>r. (\<exists>R VM' w'. r = Some (Inr (R, VM', w'))) \<or> r = None \<and> (\<exists>I V. native I (V, w) = None)"
  show ?thesis
  proof (cases "RT V")
    case None
    then show ?thesis using V(1,4) m by (auto simp: vm_execute_def executeMultipassFastPath_def split: option.splits)
  next
    case (Some R)
    let ?o = "if m_depth M = 0 \<and> snd Raw = [] \<and> m_kind M = EVMC_CALL \<and> \<not> isLikelyPrecompile (m_recipient M) then
        Some (Inr (evmc_Result EVMC_SUCCESS (m_gas M) 0 [], V, w))
      else if 0 <s m_depth M \<and> snd Raw = [] \<and> m_kind M = EVMC_CALL then executeInterpreterFastPath gnu E n X Host rv M Raw V w
      else jit_call native X rv M Raw V w"
    have e: "vm_execute native gnu E n X Host rv M Raw VM w =
        map_option (\<lambda>r. bindE r (\<lambda>(R, VM', w). Inr (R, VM'\<lparr>ExecHost := ExecHost VM\<rparr>, w))) ?o"
      using m V(1) Some by (simp add: vm_execute_def executeMultipassFastPath_def Let_def)
    have "?out (executeInterpreterFastPath gnu E n X Host rv M Raw V w)" if "0 <s m_depth M" "snd Raw = []"
      using fast_path_answers [OF E X V(2) cV d p _ g, of rv Raw n Host w] that n by (cases gnu) auto
    then have o: "?out ?o" using jit_call_ok [OF V(2) Some X cV p, of native rv Raw w] by simp
    have "(\<exists>R VM' w'. vm_execute native gnu E n X Host rv M Raw VM w = Some (Inr (R, VM', w')) \<and> ExecHost VM' = ExecHost VM) \<or>
      vm_execute native gnu E n X Host rv M Raw VM w = None \<and> (\<exists>I V. native I (V, w) = None)"
      using o
    proof
      assume "\<exists>R VM' w'. ?o = Some (Inr (R, VM', w'))"
      then obtain R1 V1 w1 where o1: "?o = Some (Inr (R1, V1, w1))" by blast
      have "vm_execute native gnu E n X Host rv M Raw VM w = Some (Inr (R1, V1\<lparr>ExecHost := ExecHost VM\<rparr>, w1))"
        unfolding e o1 by simp
      then show ?thesis by auto
    qed (simp only: e, simp)
    then show ?thesis using e same(1) by auto
  qed
qed

theorem multipass_answers_witness:
  "\<exists>VM'. vm_execute (\<lambda>I h. None) True reference_host 1000 demo_platform (None, None) EVMC_CANCUN (demo_message 100)
      (None, []) (new_DTVM (\<lambda>_. None)) () = Some (Inr (evmc_Result EVMC_SUCCESS 100 0 [], VM', ()))"
proof -
  let ?V = "new_DTVM (\<lambda>_. None)"
  have V: "Mode (Config ?V) \<noteq> InterpMode" "cache_inv reference_host {} ?V" "unat (ModCounter ?V) + 1 < 2 ^ 64"
    "newEVMRuntime demo_platform (Config ?V) \<noteq> None"
    by (simp_all add: new_DTVM_def Let_def cache_inv_def newEVMRuntime_def validate_def)
  have M: "0 \<le> sint (m_depth (demo_message 100))" "sint (m_depth (demo_message 100)) \<le> 1024"
    "shouldUsePersistentModuleCache (demo_message 100)" "m_gas (demo_message 100) < 2 ^ 63" "unat (m_gas (demo_message 100)) + 34 \<le> 1000"
    "m_depth (demo_message 100) = 0" "m_kind (demo_message 100) = EVMC_CALL" "\<not> isLikelyPrecompile (m_recipient (demo_message 100))"
    "m_gas (demo_message 100) = 100"
    by (simp_all add: demo_message_def shouldUsePersistentModuleCache_def isLikelyPrecompile_def zero_address_def)
  show ?thesis
    using multipass_answers [OF V(1) reference_ext_ok demo_fresh V(2,3) M(1-5),
        of "\<lambda>I h. None" True "(None, None)" EVMC_CANCUN "(None, [])" "()"] V(4) M(6-9) by auto
qed

text \<open>
  C27. The instance that a call enters runs at the revision that was asked for, with one exception: the first call at
  depth zero makes the main instance and leaves it at the default revision, Cancun, while the module is the one for the
  revision that was asked for.
\<close>

theorem entered_revision:
  assumes "ext_ok E" and "cache_inv E T VM" and "fresh X" and "unat (ModCounter VM) + 1 < 2 ^ 64"
    and "0 \<le> sint (m_depth M)" and "sint (m_depth M) \<le> 1024" and "length (snd Raw) < n" and "enterable X rv Raw VM"
  shows "\<exists>A C VM'. fast_enter E n X rv M Raw VM = Some (Inr (Some (A, C), VM')) \<and> Revision (Mod (Inst C)) = rv \<and>
    Rev (Inst C) = (if 0 <s m_depth M \<or> CachedMainInst VM \<noteq> None then rv else EVMC_CANCUN)"
  by (rule fast_enter_ok [OF assms(1-7), of rv]) (use assms(8) in \<open>simp_all add: entered_def DEFAULT_REVISION_def\<close>)

theorem entered_revision_witness:
  "\<exists>A C VM'. fast_enter reference_ext 100 demo_platform EVMC_LONDON (demo_message 100) demo_raw demo_vm = Some (Inr (Some (A, C), VM')) \<and>
    Revision (Mod (Inst C)) = EVMC_LONDON \<and> Rev (Inst C) = EVMC_CANCUN"
proof -
  have "enterable demo_platform EVMC_LONDON demo_raw demo_vm"
    by (simp add: enterable_def demo_vm_def new_DTVM_def Let_def loadable_def demo_raw_def add_code_def
        PresetMaxModuleSize_def parseBoolEnvValue_def)
  moreover have "CachedMainInst demo_vm = None" by (simp add: demo_vm_def new_DTVM_def Let_def)
  ultimately show ?thesis
    using entered_revision [OF reference_ext_ok demo_vm_inv(1) demo_fresh demo_vm_inv(2), of "demo_message 100" demo_raw 100 EVMC_LONDON]
    by (simp add: demo_message_def demo_raw_def add_code_def)
qed

end
