(* ===== verification/Wasm_Reader.thy ===== *)
theory Wasm_Reader
  imports Prelude
begin

text \<open>
  Reading a WebAssembly binary: the LEB128 numbers of \<open>src/utils/wasm.h\<close> and the reading functions that the
  loaders share (\<open>src/action/loader_common.h\<close>).
\<close>

section \<open>LEB128\<close>

definition MaxBytes :: "nat \<Rightarrow> nat" where
  "MaxBytes w = (w + 6) div 7"

text \<open>
  The loop runs over the bytes between \<open>Ip\<close> and \<open>End\<close>. A shift by the width of the type or more is undefined; bits
  that a shift moves out of a signed value are lost, as the supported compilers define it.
\<close>

fun leb_loop :: "u8 list \<Rightarrow> 'a::len word \<Rightarrow> nat \<Rightarrow> nat \<Rightarrow> nat \<Rightarrow> u8 \<Rightarrow> ('a word \<times> nat \<times> nat \<times> nat \<times> u8) res" where
  "leb_loop [] Result Shift Count Ip Byte = Inr (Result, Shift, Count, Ip, Byte)"
| "leb_loop (Byte # Bytes) Result Shift Count Ip _ =
     (if Shift \<ge> LENGTH('a) then Inl UB
      else
        let Result = Result OR push_bit Shift (ucast (Byte AND 0x7f));
            Shift = Shift + 7 in
        if Byte AND 0x80 = 0 then Inr (Result, Shift, Count, Ip + 1, Byte)
        else leb_loop Bytes Result Shift (Count + 1) (Ip + 1) Byte)"

text \<open>The result is the value and the number of bytes that were read.\<close>

definition readLEBNumber :: "bool \<Rightarrow> u8 list \<Rightarrow> ('a::len word \<times> nat) res" where
  "readLEBNumber Signed Bytes =
     bindE (leb_loop (take (MaxBytes LENGTH('a) + 1) Bytes) (0 :: 'a word) 0 0 0 0) (\<lambda>(Result, Shift, Count, Ip, Byte).
     if Count \<ge> MaxBytes LENGTH('a) \<or> Byte AND 0x80 \<noteq> 0 then Inl (Throw (Named ''LEBIntTooLong''))
     else if \<not> Signed \<and> LENGTH('a) = 32 \<and> Shift \<ge> LENGTH('a) then
       if Byte AND 0xf0 \<noteq> 0 then Inl (Throw (Named ''LEBIntTooLarge'')) else Inr (Result, Ip)
     else if Signed then
       if Shift < LENGTH('a) then
         if Byte AND 0x40 \<noteq> 0 then Inr (Result OR push_bit Shift (- 1), Ip) else Inr (Result, Ip)
       else if LENGTH('a) = 32 then
         let SignBitSet = (Byte AND 0x8 \<noteq> 0); TopBits = Byte AND 0xf0 in
         if SignBitSet \<and> TopBits \<noteq> 0x70 \<or> \<not> SignBitSet \<and> TopBits \<noteq> 0 then Inl (Throw (Named ''LEBIntTooLarge''))
         else Inr (Result, Ip)
       else
         let SignBitSet = (Byte AND 0x1 \<noteq> 0); TopBits = Byte AND 0xfe in
         if SignBitSet \<and> TopBits \<noteq> 0x7e \<or> \<not> SignBitSet \<and> TopBits \<noteq> 0 then Inl (Throw (Named ''LEBIntTooLarge''))
         else Inr (Result, Ip)
     else Inr (Result, Ip))"

section \<open>The common part of the loaders\<close>

text \<open>
  Pointers are indices into the binary. The binary does not lie so close to the end of the address space that adding
  a size of 32 bits to a pointer wraps around.
\<close>

record LoaderCommon =
  Data :: "u8 list"
  Ptr :: nat
  End :: nat

definition readByte :: "'a LoaderCommon_scheme \<Rightarrow> (u8 \<times> 'a LoaderCommon_scheme) res" where
  "readByte L =
     (if Ptr L \<ge> End L then Inl (Throw (Named ''UnexpectedEnd''))
      else if Ptr L < length (Data L) then Inr (Data L ! Ptr L, L\<lparr>Ptr := Ptr L + 1\<rparr>)
      else Inl UB)"

definition readBytes :: "nat \<Rightarrow> 'a LoaderCommon_scheme \<Rightarrow> (u8 list \<times> 'a LoaderCommon_scheme) res" where
  "readBytes Size L =
     (if Ptr L + Size > End L then Inl (Throw (Named ''UnexpectedEnd''))
      else Inr (take Size (drop (Ptr L) (Data L)), L\<lparr>Ptr := Ptr L + Size\<rparr>))"

definition readLEB :: "bool \<Rightarrow> 'a LoaderCommon_scheme \<Rightarrow> ('b::len word \<times> 'a LoaderCommon_scheme) res" where
  "readLEB Signed L =
     (if Ptr L \<ge> End L then Inl (Throw (Named ''UnexpectedEnd''))
      else
        bindE (readLEBNumber Signed (take (End L - Ptr L) (drop (Ptr L) (Data L)))) (\<lambda>(Result, n).
        Inr (Result, L\<lparr>Ptr := Ptr L + n\<rparr>)))"

definition readI32 :: "'a LoaderCommon_scheme \<Rightarrow> (i32 \<times> 'a LoaderCommon_scheme) res" where
  "readI32 = readLEB True"

definition readI64 :: "'a LoaderCommon_scheme \<Rightarrow> (i64 \<times> 'a LoaderCommon_scheme) res" where
  "readI64 = readLEB True"

definition readU32 :: "'a LoaderCommon_scheme \<Rightarrow> (u32 \<times> 'a LoaderCommon_scheme) res" where
  "readU32 = readLEB False"

definition readPlainU32 :: "'a LoaderCommon_scheme \<Rightarrow> (u32 \<times> 'a LoaderCommon_scheme) res" where
  "readPlainU32 L =
     bindE (readBytes 4 L) (\<lambda>(Bs, L).
     Inr (word_rcat (rev Bs), L))"

text \<open>Floating-point constants are kept as their bytes.\<close>

definition readF32 :: "'a LoaderCommon_scheme \<Rightarrow> (u8 list \<times> 'a LoaderCommon_scheme) res" where
  "readF32 = readBytes 4"

definition readF64 :: "'a LoaderCommon_scheme \<Rightarrow> (u8 list \<times> 'a LoaderCommon_scheme) res" where
  "readF64 = readBytes 8"

section \<open>What LEB128 numbers mean\<close>

definition leb_str :: "u8 list \<Rightarrow> bool" where
  "leb_str bs \<longleftrightarrow> bs \<noteq> [] \<and> (\<forall>b \<in> set (butlast bs). 128 \<le> unat b) \<and> unat (last bs) < 128"

fun leb_nat :: "u8 list \<Rightarrow> nat" where
  "leb_nat [] = 0"
| "leb_nat (b # bs) = unat b mod 128 + 128 * leb_nat bs"

definition leb_int :: "u8 list \<Rightarrow> int" where
  "leb_int bs = int (leb_nat bs) - (if 64 \<le> unat (last bs) then 128 ^ length bs else 0)"

lemma leb_str_simps [simp]:
  "\<not> leb_str []" "leb_str [b] \<longleftrightarrow> unat b < 128" "leb_str (b # c # bs) \<longleftrightarrow> 128 \<le> unat b \<and> leb_str (c # bs)"
  by (auto simp: leb_str_def)

lemma leb_nat_less: "leb_nat bs < 128 ^ length bs"
proof (induction bs)
  case (Cons b bs)
  have "unat b mod 128 < 128" by simp
  then show ?case using Cons by simp
qed simp

lemma leb_cases:
  obtains (str) p q where "bs = p @ q" "leb_str p" | (open_end) "\<forall>b \<in> set bs. 128 \<le> unat b"
proof (cases "\<forall>b \<in> set bs. 128 \<le> unat b")
  case False
  then obtain p b q where "bs = p @ b # q" "\<not> 128 \<le> unat b" "\<forall>c \<in> set p. 128 \<le> unat c"
    using split_list_first_prop [of bs "\<lambda>b. \<not> 128 \<le> unat b"] by auto
  then have "bs = (p @ [b]) @ q" "leb_str (p @ [b])" by (auto simp: leb_str_def)
  then show thesis by (rule str)
qed (rule open_end)

text \<open>The bits of a byte that the code looks at.\<close>

lemma byte_bit: "(b :: u8) AND 2 ^ n \<noteq> 0 \<longleftrightarrow> odd (unat b div 2 ^ n)"
proof -
  have "b AND 2 ^ n \<noteq> 0 \<longleftrightarrow> bit b n" using and_exp_eq_0_iff_not_bit [of b n] by simp
  also have "\<dots> \<longleftrightarrow> bit (unat b) n" by (simp add: bit_unsigned_iff)
  also have "\<dots> \<longleftrightarrow> odd (unat b div 2 ^ n)" by (rule bit_iff_odd)
  finally show ?thesis .
qed

lemma byte_less: "unat (b :: u8) < 256"
  using unsigned_less [of b, where ?'a = nat] by simp

lemma top_bit: "n < 2 * k \<Longrightarrow> odd (n div k) \<longleftrightarrow> k \<le> n" for n k :: nat
proof (cases "k \<le> n")
  case True
  assume "n < 2 * k"
  then have "n div k = 1" using True by (intro div_nat_eqI) simp_all
  then show ?thesis using True by simp
qed simp

lemma byte_bits:
  fixes b :: u8
  shows "b AND 0x80 = 0 \<longleftrightarrow> unat b < 128" "unat (b AND 0x7f) = unat b mod 128"
    "unat b < 128 \<Longrightarrow> b AND 0x40 \<noteq> 0 \<longleftrightarrow> 64 \<le> unat b"
    "b AND 0x8 \<noteq> 0 \<longleftrightarrow> odd (unat b div 8)" "b AND 0x1 \<noteq> 0 \<longleftrightarrow> odd (unat b)"
proof -
  have "b AND 0x80 = 0 \<longleftrightarrow> even (unat b div 128)" using byte_bit [of b 7] by simp
  also have "\<dots> \<longleftrightarrow> unat b < 128" using top_bit [of "unat b" 128] byte_less [of b] by auto
  finally show "b AND 0x80 = 0 \<longleftrightarrow> unat b < 128" .
  have "unat (b AND 0x7f) = unat b AND mask 7" by (simp add: unsigned_and_eq mask_eq_exp_minus_1)
  then show "unat (b AND 0x7f) = unat b mod 128" by (simp add: take_bit_eq_mod flip: take_bit_eq_mask)
  show "unat b < 128 \<Longrightarrow> b AND 0x40 \<noteq> 0 \<longleftrightarrow> 64 \<le> unat b" using byte_bit [of b 6] top_bit [of "unat b" 64] by simp
  show "b AND 0x8 \<noteq> 0 \<longleftrightarrow> odd (unat b div 8)" using byte_bit [of b 3] by simp
  show "b AND 0x1 \<noteq> 0 \<longleftrightarrow> odd (unat b)" using byte_bit [of b 0] by simp
qed

section \<open>The reader is exact\<close>

lemma or_add:
  assumes "r < 2 ^ s"
  shows "(of_nat r :: 'a::len word) OR push_bit s x = of_nat r + push_bit s x"
proof -
  have "\<not> bit (of_nat r :: 'a word) n \<or> \<not> bit (push_bit s x) n" for n
  proof (cases "n < s")
    case False
    then have "r < 2 ^ n" using assms by (meson not_less order_less_le_trans one_le_numeral power_increasing)
    then have "\<not> bit r n" by (simp add: bit_iff_odd)
    then show ?thesis by (simp add: bit_simps)
  qed (simp add: bit_simps)
  then show ?thesis by (simp add: disjunctive_add)
qed

lemma or_shift: "r < 2 ^ s \<Longrightarrow> (of_nat r :: 'a::len word) OR push_bit s (of_nat c) = of_nat (r + c * 2 ^ s)"
  unfolding or_add by (simp add: push_bit_eq_mult)

lemma ucast_low: "(ucast ((b :: u8) AND 0x7f) :: 'a::len word) = of_nat (unat b mod 128)"
  unfolding byte_bits(2) [symmetric] by simp

lemma leb_loop_str:
  assumes "leb_str p" and "S + 7 * (length p - 1) < LENGTH('a::len)" and "r < 2 ^ S"
  shows "leb_loop (p @ q) (of_nat r :: 'a word) S C I B =
    Inr (of_nat (r + leb_nat p * 2 ^ S), S + 7 * length p, C + (length p - 1), I + length p, last p)"
  using assms
proof (induction p arbitrary: r S C I B)
  case (Cons b p)
  let ?r = "r + (unat b mod 128) * 2 ^ S"
  have R: "(of_nat r :: 'a word) OR push_bit S (ucast (b AND 0x7f)) = of_nat ?r"
    unfolding ucast_low by (rule or_shift [OF Cons.prems(3)])
  show ?case
  proof (cases p)
    case Nil
    then show ?thesis using Cons.prems R by (simp add: byte_bits(1))
  next
    case (Cons c p')
    have "?r < 2 ^ (S + 7)"
    proof -
      have "unat b mod 128 \<le> 127" by (simp add: less_Suc_eq_le [symmetric])
      then have "(unat b mod 128) * 2 ^ S \<le> 127 * 2 ^ S" by (rule mult_right_mono) simp
      moreover have "(2 :: nat) ^ (S + 7) = 128 * 2 ^ S" by (simp add: power_add)
      ultimately show ?thesis using Cons.prems(3) by linarith
    qed
    moreover have "leb_str p" "128 \<le> unat b" using Cons.prems(1) Cons by simp_all
    moreover have "S + 7 + 7 * (length p - 1) < LENGTH('a)" "S < LENGTH('a)" using Cons.prems(2) Cons by simp_all
    ultimately show ?thesis
      using Cons.IH [of "S + 7" ?r "C + 1" "I + 1" b] R Cons by (simp add: byte_bits(1) power_add algebra_simps)
  qed
qed simp

lemma leb_loop_open:
  assumes "\<forall>b \<in> set bs. 128 \<le> unat b" and "leb_loop bs (R :: 'a::len word) S C I B = Inr (R', S', C', I', B')"
  shows "C' = C + length bs \<and> (if bs = [] then B' = B else 128 \<le> unat B')"
  using assms
proof (induction bs arbitrary: R S C I B)
  case (Cons b bs)
  have "leb_loop bs (R OR push_bit S (ucast (b AND 0x7f))) (S + 7) (C + 1) (I + 1) b = Inr (R', S', C', I', B')"
    using Cons.prems by (simp add: byte_bits(1) split: if_splits)
  from Cons.IH [OF _ this] show ?case using Cons.prems(1) by (auto split: if_splits)
qed simp

lemma leb_loop_long:
  assumes "leb_str p" and "LENGTH('a::len) \<le> S + 7 * (length p - 1)"
  shows "leb_loop (p @ q) (R :: 'a word) S C I B = Inl UB"
  using assms by (induction p arbitrary: R S C I B) (auto simp: Let_def byte_bits(1) neq_Nil_conv leb_str_def split: if_splits)

text \<open>A number that is read is the meaning of the bytes that were read, and it fits the type.\<close>

lemma readLEBNumber_str:
  assumes "leb_str p" and "length p \<le> MaxBytes LENGTH('a::len)" and "LENGTH('a) = 32 \<or> LENGTH('a) = 64"
  shows "(readLEBNumber Signed (p @ q) :: ('a word \<times> nat) res) =
    (let v = of_nat (leb_nat p) :: 'a word; b = last p in
     if \<not> Signed \<and> LENGTH('a) = 32 \<and> length p = 5 then
       if b AND 0xf0 \<noteq> 0 then Inl (Throw (Named ''LEBIntTooLarge'')) else Inr (v, length p)
     else if Signed then
       if 7 * length p < LENGTH('a) then Inr (v - (if 64 \<le> unat b then 2 ^ (7 * length p) else 0), length p)
       else if LENGTH('a) = 32 then
         if b AND 0x8 \<noteq> 0 \<and> b AND 0xf0 \<noteq> 0x70 \<or> b AND 0x8 = 0 \<and> b AND 0xf0 \<noteq> 0 then Inl (Throw (Named ''LEBIntTooLarge''))
         else Inr (v, length p)
       else
         if b AND 0x1 \<noteq> 0 \<and> b AND 0xfe \<noteq> 0x7e \<or> b AND 0x1 = 0 \<and> b AND 0xfe \<noteq> 0 then Inl (Throw (Named ''LEBIntTooLarge''))
         else Inr (v, length p)
     else Inr (v, length p))"
proof -
  have p: "p \<noteq> []" "unat (last p) < 128" using assms(1) by (simp_all add: leb_str_def)
  then have l: "7 * (length p - 1) < LENGTH('a)" "length p - 1 < MaxBytes LENGTH('a)" "0 < length p"
    using assms(2,3) by (auto simp: MaxBytes_def)
  have t: "take (MaxBytes LENGTH('a) + 1) (p @ q) = p @ take (MaxBytes LENGTH('a) + 1 - length p) q" using assms(2) by simp
  have loop: "leb_loop (take (MaxBytes LENGTH('a) + 1) (p @ q)) (0 :: 'a word) 0 0 0 0 =
      Inr (of_nat (leb_nat p), 7 * length p, length p - 1, length p, last p)"
    unfolding t using leb_loop_str [OF assms(1), of 0 0 _ 0 0 0, where ?'a = 'a] l(1) by simp
  have sx: "(of_nat (leb_nat p) :: 'a word) OR push_bit (7 * length p) (- 1) = of_nat (leb_nat p) - 2 ^ (7 * length p)"
    using or_add [of "leb_nat p" "7 * length p" "- 1 :: 'a word"] leb_nat_less [of p] by (simp add: push_bit_eq_mult power_mult)
  have b: "(last p AND 0x40 \<noteq> 0) = (64 \<le> unat (last p))" "(last p AND 0x80 \<noteq> 0) = False"
    using byte_bits(1,3) [of "last p"] p(2) by auto
  have five: "LENGTH('a) = 32 \<Longrightarrow> LENGTH('a) \<le> 7 * length p \<longleftrightarrow> length p = 5" using assms(2) by (auto simp: MaxBytes_def)
  show ?thesis
    unfolding readLEBNumber_def loop bindE.simps case_prod_conv b sx
    using l(2) five by (cases "LENGTH('a) = 32") (simp_all add: Let_def not_less)
qed

lemma and_block: "n AND push_bit s (mask k) = ((n div 2 ^ s) mod 2 ^ k) * 2 ^ s" for n :: nat
proof -
  have "n AND push_bit s (mask k) = push_bit s (take_bit k (drop_bit s n))"
    by (rule bit_eqI) (auto simp: bit_simps)
  then show ?thesis by (simp add: push_bit_eq_mult take_bit_eq_mod drop_bit_eq_div)
qed

lemma byte_top:
  fixes b :: u8
  assumes "unat b < 128"
  shows "b AND 0xf0 = 0 \<longleftrightarrow> unat b < 16" "b AND 0xf0 = 0x70 \<longleftrightarrow> 112 \<le> unat b"
    "b AND 0xfe = 0 \<longleftrightarrow> unat b < 2" "b AND 0xfe = 0x7e \<longleftrightarrow> 126 \<le> unat b"
proof -
  have "unat (b AND 0xf0) = unat b AND push_bit 4 (mask 4)" by (simp add: unsigned_and_eq push_bit_eq_mult mask_eq_exp_minus_1)
  then have f: "unat (b AND 0xf0) = unat b div 16 * 16" using and_block [of "unat b" 4 4] byte_less [of b] by (simp add: less_mult_imp_div_less)
  have "unat (b AND 0xfe) = unat b AND push_bit 1 (mask 7)" by (simp add: unsigned_and_eq push_bit_eq_mult mask_eq_exp_minus_1)
  then have e: "unat (b AND 0xfe) = unat b div 2 * 2" using and_block [of "unat b" 1 7] byte_less [of b] by (simp add: less_mult_imp_div_less)
  have "b AND 0xf0 = 0 \<longleftrightarrow> unat (b AND 0xf0) = 0" "b AND 0xf0 = 0x70 \<longleftrightarrow> unat (b AND 0xf0) = 112"
    "b AND 0xfe = 0 \<longleftrightarrow> unat (b AND 0xfe) = 0" "b AND 0xfe = 0x7e \<longleftrightarrow> unat (b AND 0xfe) = 126"
    by (simp_all add: word_unat_eq_iff)
  then show "b AND 0xf0 = 0 \<longleftrightarrow> unat b < 16" "b AND 0xf0 = 0x70 \<longleftrightarrow> 112 \<le> unat b"
    "b AND 0xfe = 0 \<longleftrightarrow> unat b < 2" "b AND 0xfe = 0x7e \<longleftrightarrow> 126 \<le> unat b"
    unfolding f e using assms by auto
qed

lemma leb_nat_last: "p \<noteq> [] \<Longrightarrow> leb_nat p = leb_nat (butlast p) + unat (last p) mod 128 * 128 ^ (length p - 1)"
  by (induction p) (auto simp: algebra_simps power_eq_if)

lemma leb_last:
  assumes "leb_str p"
  obtains m where "leb_nat p = m + unat (last p) * 128 ^ (length p - 1)" "m < 128 ^ (length p - 1)" "0 < length p" "unat (last p) < 128"
proof -
  have p: "p \<noteq> []" "unat (last p) < 128" using assms by (simp_all add: leb_str_def)
  show thesis
    by (rule that [of "leb_nat (butlast p)"]) (use p leb_nat_last [OF p(1)] leb_nat_less [of "butlast p"] in simp_all)
qed

text \<open>The value of a number, and whether it fits a type of \<open>w\<close> bits.\<close>

definition leb_value :: "bool \<Rightarrow> u8 list \<Rightarrow> int" where
  "leb_value Signed p = (if Signed then leb_int p else int (leb_nat p))"

definition fits :: "bool \<Rightarrow> nat \<Rightarrow> int \<Rightarrow> bool" where
  "fits Signed w x \<longleftrightarrow> (if Signed then - (2 ^ (w - 1)) \<le> x \<and> x < 2 ^ (w - 1) else 0 \<le> x \<and> x < 2 ^ w)"

lemma short_range:
  assumes "leb_str p" and "length p \<le> j"
  shows "- (64 * 128 ^ (j - 1)) \<le> leb_int p" "leb_int p < 64 * 128 ^ (j - 1)" "leb_nat p < 128 ^ j"
proof -
  obtain m b where m: "leb_nat p = m + b * 128 ^ (length p - 1)" "m < 128 ^ (length p - 1)" "0 < length p" "b < 128"
    "unat (last p) = b"
    using leb_last [OF assms(1)] by metis
  define P :: int where "P = 128 ^ (length p - 1)"
  have p: "(128 :: int) ^ length p = 128 * P" using m(3) by (cases "length p") (simp_all add: P_def)
  have mono: "P \<le> 128 ^ (j - 1)" "0 < P" using assms(2) by (simp_all add: P_def power_increasing)
  have n: "int (leb_nat p) = int m + int b * P" unfolding m(1) P_def by simp
  have mP: "int m < P" using m(2) unfolding P_def by (metis of_nat_less_iff of_nat_power of_nat_numeral)
  have ub: "int b * P \<le> c * P" if "int b \<le> c" for c using that mono(2) by (intro mult_right_mono) simp_all
  have lb: "c * P \<le> int b * P" if "c \<le> int b" for c using that mono(2) by (intro mult_right_mono) simp_all
  have "- (64 * P) \<le> leb_int p \<and> leb_int p < 64 * P"
  proof (cases "64 \<le> b")
    case True
    then have "leb_int p = int m + int b * P - 128 * P" using n p m(5) by (simp add: leb_int_def)
    then show ?thesis using lb [of 64] ub [of 127] True m(4) mP mono(2) by linarith
  next
    case False
    then have "leb_int p = int m + int b * P" using n m(5) by (simp add: leb_int_def)
    moreover have "0 \<le> int b * P" using mono(2) by simp
    ultimately show ?thesis using ub [of 63] False mP by linarith
  qed
  then show "- (64 * 128 ^ (j - 1)) \<le> leb_int p" "leb_int p < 64 * 128 ^ (j - 1)" using mono(1) by linarith+
  show "leb_nat p < 128 ^ j"
    using leb_nat_less [of p] assms(2) by (meson less_le_trans one_le_numeral power_increasing)
qed

lemma leb_full:
  assumes "leb_str p" and "length p = Suc k"
  obtains m b where "leb_nat p = m + b * 128 ^ k" "m < 128 ^ k" "unat (last p) = b" "b < 128"
    "leb_int p = int m + int b * 128 ^ k - (if 64 \<le> b then 128 ^ Suc k else 0)"
proof -
  obtain m where m: "leb_nat p = m + unat (last p) * 128 ^ (length p - 1)" "m < 128 ^ (length p - 1)" "unat (last p) < 128"
    by (rule leb_last [OF assms(1)])
  show thesis by (rule that [of m "unat (last p)"]) (use m assms(2) in \<open>simp_all add: leb_int_def\<close>)
qed

definition leb_out :: "bool \<Rightarrow> u8 list \<Rightarrow> ('a::len word \<times> nat) res" where
  "leb_out Signed p =
     (if fits Signed LENGTH('a) (leb_value Signed p) then Inr (of_int (leb_value Signed p), length p)
      else Inl (Throw (Named ''LEBIntTooLarge'')))"

lemma exact_u32:
  assumes "leb_str p" and "length p \<le> 5"
  shows "(readLEBNumber False (p @ q) :: (u32 \<times> nat) res) = leb_out False p"
proof -
  note R = readLEBNumber_str [OF assms(1), where ?'a = 32 and Signed = False and q = q]
  show ?thesis
  proof (cases "length p = 5")
    case True
    then have l: "length p = Suc 4" by simp
    obtain m b where m: "leb_nat p = m + b * 128 ^ 4" "m < 128 ^ 4" "unat (last p) = b" "b < 128"
      by (rule leb_full [OF assms(1) l])
    have "leb_nat p < 2 ^ 32 \<longleftrightarrow> b < 16" using m(1,2) by auto
    then show ?thesis using R True byte_top(1) [of "last p"] m(3,4)
      by (simp add: leb_out_def fits_def leb_value_def MaxBytes_def)
  next
    case False
    then have "leb_nat p < 128 ^ 4" using short_range(3) [OF assms(1), of 4] assms(2) by simp
    then show ?thesis using R False assms(2) by (simp add: leb_out_def fits_def leb_value_def MaxBytes_def)
  qed
qed

lemma exact_i32:
  assumes "leb_str p" and "length p \<le> 5"
  shows "(readLEBNumber True (p @ q) :: (i32 \<times> nat) res) = leb_out True p"
proof -
  note R = readLEBNumber_str [OF assms(1), where ?'a = 32 and Signed = True and q = q]
  show ?thesis
  proof (cases "length p = 5")
    case True
    then have l: "length p = Suc 4" by simp
    obtain m b where m: "leb_nat p = m + b * 128 ^ 4" "m < 128 ^ 4" "unat (last p) = b" "b < 128"
      "leb_int p = int m + int b * 128 ^ 4 - (if 64 \<le> b then 128 ^ Suc 4 else 0)"
      by (rule leb_full [OF assms(1) l])
    have "fits True 32 (leb_int p) \<longleftrightarrow> b < 8 \<or> 120 \<le> b" using m(2,4,5) by (auto simp: fits_def)
    moreover have "odd (b div 8) \<and> \<not> 112 \<le> b \<or> even (b div 8) \<and> \<not> b < 16 \<longleftrightarrow> \<not> (b < 8 \<or> 120 \<le> b)"
      using m(4) by presburger
    moreover have "(of_int (leb_int p) :: i32) = of_nat (leb_nat p)" unfolding m(1,5) by simp
    ultimately show ?thesis using R True byte_top(1,2) [of "last p"] byte_bits(4) [of "last p"] m(3,4)
      by (simp add: leb_out_def leb_value_def MaxBytes_def)
  next
    case False
    then have "fits True 32 (leb_int p)" using short_range(1,2) [OF assms(1), of 4] assms(2) by (simp add: fits_def)
    moreover have "7 * length p < 32" using False assms(2) by simp
    ultimately show ?thesis using R assms(2) by (simp add: leb_out_def leb_value_def MaxBytes_def leb_int_def power_mult)
  qed
qed

lemma exact_i64:
  assumes "leb_str p" and "length p \<le> 10"
  shows "(readLEBNumber True (p @ q) :: (i64 \<times> nat) res) = leb_out True p"
proof -
  note R = readLEBNumber_str [OF assms(1), where ?'a = 64 and Signed = True and q = q]
  show ?thesis
  proof (cases "length p = 10")
    case True
    then have l: "length p = Suc 9" by simp
    obtain m b where m: "leb_nat p = m + b * 128 ^ 9" "m < 128 ^ 9" "unat (last p) = b" "b < 128"
      "leb_int p = int m + int b * 128 ^ 9 - (if 64 \<le> b then 128 ^ Suc 9 else 0)"
      by (rule leb_full [OF assms(1) l])
    have "fits True 64 (leb_int p) \<longleftrightarrow> b < 1 \<or> 127 \<le> b" using m(2,4,5) by (auto simp: fits_def)
    moreover have "odd b \<and> \<not> 126 \<le> b \<or> even b \<and> \<not> b < 2 \<longleftrightarrow> \<not> (b < 1 \<or> 127 \<le> b)"
      using m(4) by presburger
    moreover have "(of_int (leb_int p) :: i64) = of_nat (leb_nat p)" unfolding m(1,5) by simp
    ultimately show ?thesis using R True byte_top(3,4) [of "last p"] byte_bits(5) [of "last p"] m(3,4)
      by (simp add: leb_out_def leb_value_def MaxBytes_def)
  next
    case False
    then have "fits True 64 (leb_int p)" using short_range(1,2) [OF assms(1), of 9] assms(2) by (simp add: fits_def)
    moreover have "7 * length p < 64" using False assms(2) by simp
    ultimately show ?thesis using R assms(2) by (simp add: leb_out_def leb_value_def MaxBytes_def leb_int_def power_mult)
  qed
qed

lemma readLEBNumber_reads:
  assumes r: "(readLEBNumber Signed Bytes :: ('a::len word \<times> nat) res) = Inr (v, n)" and "Bytes \<noteq> []" and "0 < MaxBytes LENGTH('a)"
  obtains p q where "Bytes = p @ q" "leb_str p" "length p \<le> MaxBytes LENGTH('a)"
proof -
  let ?B = "take (MaxBytes LENGTH('a) + 1) Bytes"
  have w: "LENGTH('a) \<le> 7 * MaxBytes LENGTH('a)" unfolding MaxBytes_def by linarith
  obtain R S C I B where loop: "leb_loop ?B (0 :: 'a word) 0 0 0 0 = Inr (R, S, C, I, B)" "C < MaxBytes LENGTH('a)" "unat B < 128"
    using r by (auto simp: readLEBNumber_def bindE_Inr_iff byte_bits(1) not_le not_less split: if_splits)
  show thesis
  proof (cases rule: leb_cases [of ?B])
    case (str p q)
    have "length p \<le> MaxBytes LENGTH('a)"
    proof (rule ccontr)
      assume "\<not> length p \<le> MaxBytes LENGTH('a)"
      then have "LENGTH('a) \<le> 0 + 7 * (length p - 1)" using w by linarith
      then show False using leb_loop_long [OF str(2), where S = 0 and R = "0 :: 'a word" and q = q] loop(1) str(1) by simp
    qed
    moreover have "Bytes = p @ q @ drop (MaxBytes LENGTH('a) + 1) Bytes" using str(1) by (metis append.assoc append_take_drop_id)
    ultimately show thesis using that str(2) by blast
  next
    case open_end
    have "?B \<noteq> []" using assms(2) by simp
    then show thesis using leb_loop_open [OF open_end loop(1)] loop(3) by simp
  qed
qed

text \<open>The bytes that are left to read.\<close>

definition input :: "'a LoaderCommon_scheme \<Rightarrow> u8 list" where
  "input L = take (End L - Ptr L) (drop (Ptr L) (Data L))"

definition in_data :: "'a LoaderCommon_scheme \<Rightarrow> bool" where
  "in_data L \<longleftrightarrow> Ptr L \<le> End L \<and> End L \<le> length (Data L)"

lemma length_input [simp]: "in_data L \<Longrightarrow> length (input L) = End L - Ptr L"
  by (auto simp: input_def in_data_def)

definition leb_read :: "bool \<Rightarrow> nat \<Rightarrow> 'a LoaderCommon_scheme \<Rightarrow> 'b::len word \<Rightarrow> 'a LoaderCommon_scheme \<Rightarrow> bool" where
  "leb_read Signed n L v L' \<longleftrightarrow> (\<exists>p q. input L = p @ q \<and> leb_str p \<and> length p \<le> n \<and>
     fits Signed LENGTH('b) (leb_value Signed p) \<and> v = of_int (leb_value Signed p) \<and> L' = L\<lparr>Ptr := Ptr L + length p\<rparr>)"

lemma readLEB_exact:
  fixes L :: "'a LoaderCommon_scheme"
  assumes d: "in_data L" and n: "MaxBytes LENGTH('b::len) = n" "0 < n"
    and e: "\<And>p q. leb_str p \<Longrightarrow> length p \<le> n \<Longrightarrow> (readLEBNumber Signed (p @ q) :: ('b word \<times> nat) res) = leb_out Signed p"
  shows "readLEB Signed L = Inr (v :: 'b word, L') \<longleftrightarrow> leb_read Signed n L v L'"
proof
  assume r: "readLEB Signed L = Inr (v, L')"
  then obtain k where k: "Ptr L < End L" "readLEBNumber Signed (input L) = Inr (v, k)" "L' = L\<lparr>Ptr := Ptr L + k\<rparr>"
    by (auto simp: readLEB_def input_def bindE_Inr_iff split: if_splits)
  have "input L \<noteq> []" using d k(1) by (auto simp: input_def in_data_def)
  then obtain p q where p: "input L = p @ q" "leb_str p" "length p \<le> n"
    using readLEBNumber_reads [OF k(2)] n by metis
  then show "leb_read Signed n L v L'" using k(2,3) e [OF p(2,3), of q]
    by (auto simp: leb_read_def leb_out_def split: if_splits)
next
  assume "leb_read Signed n L v L'"
  then obtain p q where p: "input L = p @ q" "leb_str p" "length p \<le> n" "fits Signed LENGTH('b) (leb_value Signed p)"
    "v = of_int (leb_value Signed p)" "L' = L\<lparr>Ptr := Ptr L + length p\<rparr>" by (auto simp: leb_read_def)
  have "Ptr L < End L" using p(1,2) d by (cases "End L = Ptr L") (auto simp: input_def in_data_def)
  then show "readLEB Signed L = Inr (v, L')"
    using e [OF p(2,3), of q] p(1,4-6) by (simp add: readLEB_def leb_out_def flip: input_def)
qed

lemma readers_exact:
  assumes "in_data L"
  shows "readU32 L = Inr (v, L') \<longleftrightarrow> leb_read False 5 L v L'" "readI32 L = Inr (v, L') \<longleftrightarrow> leb_read True 5 L v L'"
    "readI64 L = Inr (w, L') \<longleftrightarrow> leb_read True 10 L w L'"
  unfolding readU32_def readI32_def readI64_def
  by (rule readLEB_exact [OF assms]; simp add: MaxBytes_def exact_u32 exact_i32 exact_i64)+

text \<open>Reading moves the pointer forward, within the bounds.\<close>

definition advanced :: "'a LoaderCommon_scheme \<Rightarrow> 'a LoaderCommon_scheme \<Rightarrow> bool" where
  "advanced L L' \<longleftrightarrow> (\<exists>n > 0. L' = L\<lparr>Ptr := Ptr L + n\<rparr> \<and> Ptr L + n \<le> End L)"

lemma advancedD:
  assumes "advanced L L'" and "in_data L"
  shows "Ptr L < Ptr L'" "Ptr L' \<le> End L" "End L' = End L" "Data L' = Data L" "in_data L'" "L' = L\<lparr>Ptr := Ptr L'\<rparr>"
  using assms by (auto simp: advanced_def in_data_def)

lemma advanced_trans: "advanced L L' \<Longrightarrow> advanced L' L'' \<Longrightarrow> advanced L L''"
  by (auto simp: advanced_def) (metis add.assoc add_gr_0)

lemma leb_advanced: "leb_read Signed n L v L' \<Longrightarrow> in_data L \<Longrightarrow> advanced L L'"
proof -
  assume "leb_read Signed n L v L'" and d: "in_data L"
  then obtain p q where p: "input L = p @ q" "leb_str p" "L' = L\<lparr>Ptr := Ptr L + length p\<rparr>" by (auto simp: leb_read_def)
  have "0 < length p" using p(2) by (auto simp: leb_str_def)
  moreover have "length p \<le> End L - Ptr L" using arg_cong [OF p(1), of length] d by simp
  ultimately show ?thesis using p(3) d by (auto simp: advanced_def in_data_def intro!: exI [of _ "length p"])
qed

lemma readers_advance:
  assumes "in_data L"
  shows "readByte L = Inr (b, L') \<Longrightarrow> advanced L L'" "readU32 L = Inr (v, L') \<Longrightarrow> advanced L L'"
    "readI32 L = Inr (v, L') \<Longrightarrow> advanced L L'" "readI64 L = Inr (w, L') \<Longrightarrow> advanced L L'"
    "readF32 L = Inr (bs, L') \<Longrightarrow> advanced L L'" "readF64 L = Inr (bs, L') \<Longrightarrow> advanced L L'"
    "readPlainU32 L = Inr (v, L') \<Longrightarrow> advanced L L'"
  using assms leb_advanced [OF _ assms] readers_exact [OF assms]
  by (auto simp: readByte_def readF32_def readF64_def readBytes_def readPlainU32_def bindE_Inr_iff advanced_def in_data_def
      intro: exI [of _ 1] exI [of _ 4] exI [of _ 8] split: if_splits)

end
