(* ===== verification/Wasm_Module.thy ===== *)
theory Wasm_Module
  imports Wasm_Reader
begin

text \<open>
  WebAssembly types (\<open>src/common/type.h\<close>, \<open>src/common/wasm_defs/\<close>) and the tables of a module
  (\<open>src/runtime/module.h\<close>), in the build without the compilers, without the DWASM limits and without the spec-test
  imports.
\<close>

section \<open>Types\<close>

datatype WASMType = VOID | I8 | I16 | I32 | I64 | F32 | F64 | FUNCREF | ANY | ERROR_TYPE

definition getWASMValTypeFromOpcode :: "u8 \<Rightarrow> WASMType" where
  "getWASMValTypeFromOpcode Opcode =
     (if Opcode = 0x7f then I32
      else if Opcode = 0x7e then I64
      else if Opcode = 0x7d then F32
      else if Opcode = 0x7c then F64
      else ERROR_TYPE)"

definition getWASMBlockTypeFromOpcode :: "u8 \<Rightarrow> WASMType" where
  "getWASMBlockTypeFromOpcode Opcode =
     (if Opcode = 0x7f then I32
      else if Opcode = 0x7e then I64
      else if Opcode = 0x7d then F32
      else if Opcode = 0x7c then F64
      else if Opcode = 0x40 then VOID
      else ERROR_TYPE)"

definition getWASMRefTypeFromOpcode :: "u8 \<Rightarrow> WASMType" where
  "getWASMRefTypeFromOpcode Opcode = (if Opcode = 0x70 then FUNCREF else ERROR_TYPE)"

text \<open>The other types abort.\<close>

fun getWASMTypeSize :: "WASMType \<Rightarrow> u32 res" where
  "getWASMTypeSize I8 = Inr 1"
| "getWASMTypeSize I16 = Inr 2"
| "getWASMTypeSize I32 = Inr 4"
| "getWASMTypeSize F32 = Inr 4"
| "getWASMTypeSize I64 = Inr 8"
| "getWASMTypeSize F64 = Inr 8"
| "getWASMTypeSize ANY = Inr 4"
| "getWASMTypeSize _ = Inl Abort"

fun getWASMTypeCellNum :: "WASMType \<Rightarrow> u32 res" where
  "getWASMTypeCellNum VOID = Inr 0"
| "getWASMTypeCellNum I8 = Inr 1"
| "getWASMTypeCellNum I16 = Inr 1"
| "getWASMTypeCellNum I32 = Inr 1"
| "getWASMTypeCellNum F32 = Inr 1"
| "getWASMTypeCellNum I64 = Inr 2"
| "getWASMTypeCellNum F64 = Inr 2"
| "getWASMTypeCellNum _ = Inl Abort"

definition readTypeBase :: "(u8 \<Rightarrow> WASMType) \<Rightarrow> 'a LoaderCommon_scheme \<Rightarrow> (WASMType \<times> 'a LoaderCommon_scheme) res" where
  "readTypeBase f L =
     bindE (readByte L) (\<lambda>(TypeOpcode, L).
     if f TypeOpcode = ERROR_TYPE then Inl (Throw (Named ''InvalidType'')) else Inr (f TypeOpcode, L))"

definition readValType :: "'a LoaderCommon_scheme \<Rightarrow> (WASMType \<times> 'a LoaderCommon_scheme) res" where
  "readValType = readTypeBase getWASMValTypeFromOpcode"

definition readBlockType :: "'a LoaderCommon_scheme \<Rightarrow> (WASMType \<times> 'a LoaderCommon_scheme) res" where
  "readBlockType = readTypeBase getWASMBlockTypeFromOpcode"

definition readRefType :: "'a LoaderCommon_scheme \<Rightarrow> (WASMType \<times> 'a LoaderCommon_scheme) res" where
  "readRefType = readTypeBase getWASMRefTypeFromOpcode"

section \<open>The tables of a module\<close>

text \<open>An array with its length is one list.\<close>

record TypeEntry =
  NumParamCells :: u16
  NumReturnCells :: nat
  ReturnTypes :: "WASMType list"
  ParamTypes :: "WASMType list"
  SmallestTypeIdx :: nat

text \<open>A symbol is its string.\<close>

type_synonym symbol = "u8 list"

record ImportFunctionEntry =
  ModuleName :: symbol
  FieldName :: symbol
  ImportTypeIdx :: nat
  FuncPtr :: nat

record FuncEntry =
  FuncName :: "symbol option"
  TypeIdx :: nat
  OriginTypeIdx :: nat

record TableEntry =
  InitSize :: u32
  MaxSize :: u32

record MemoryEntry =
  InitPages :: u32
  MaxPages :: u32

datatype InitExpr = GlobalIdxExpr u32 | I32Expr i32 | I64Expr i64 | F32Expr "u8 list" | F64Expr "u8 list"

record GlobalEntry =
  GType :: WASMType
  Mutable :: bool
  GInitExprKind :: u8
  GInitExprVal :: InitExpr
  Offset :: u32

record ExportEntry =
  EName :: symbol
  EKind :: u8
  ItemIdx :: u32

record ElemEntry =
  ETableIdx :: u32
  EInitExprKind :: u8
  EInitExprVal :: InitExpr
  FuncIdxs :: "u32 list"

record CodeEntry =
  CodePtr :: nat
  CodeSize :: u32
  CMaxStackSize :: u32
  CMaxBlockDepth :: nat
  NumLocalCells :: u16
  LocalTypes :: "WASMType list"
  LocalOffsets :: "u32 list"
  CStats :: u32
  CodeOffset :: u32

record DataEntry =
  MemIdx :: u32
  DSize :: u32
  DOffset :: u32
  DInitExprKind :: u8
  DInitExprVal :: InitExpr

record Module =
  TypeTable :: "TypeEntry list"
  ImportFunctionTable :: "ImportFunctionEntry list"
  ImportTableTable :: "TableEntry list"
  ImportMemoryTable :: "MemoryEntry list"
  ImportGlobalTable :: "GlobalEntry list"
  InternalFunctionTable :: "FuncEntry list"
  InternalTableTable :: "TableEntry list"
  InternalMemoryTable :: "MemoryEntry list"
  InternalGlobalTable :: "GlobalEntry list"
  ExportTable :: "ExportEntry list"
  StartFuncIdx :: "u32 option"
  ElementTable :: "ElemEntry list"
  CodeTable :: "CodeEntry list"
  DataTable :: "DataEntry list"
  DataCount :: u32
  GlobalVarSize :: u32
  GasFuncIdx :: "u32 option"

definition new_Module :: Module where
  "new_Module = \<lparr>TypeTable = [], ImportFunctionTable = [], ImportTableTable = [], ImportMemoryTable = [],
     ImportGlobalTable = [], InternalFunctionTable = [], InternalTableTable = [], InternalMemoryTable = [],
     InternalGlobalTable = [], ExportTable = [], StartFuncIdx = None, ElementTable = [], CodeTable = [], DataTable = [],
     DataCount = - 1, GlobalVarSize = 0, GasFuncIdx = None\<rparr>"

definition getNumTotalFunctions :: "Module \<Rightarrow> nat" where
  "getNumTotalFunctions M = length (ImportFunctionTable M) + length (InternalFunctionTable M)"

definition getNumTotalTables :: "Module \<Rightarrow> nat" where
  "getNumTotalTables M = length (ImportTableTable M) + length (InternalTableTable M)"

definition getNumTotalMemories :: "Module \<Rightarrow> nat" where
  "getNumTotalMemories M = length (ImportMemoryTable M) + length (InternalMemoryTable M)"

definition getNumTotalGlobals :: "Module \<Rightarrow> nat" where
  "getNumTotalGlobals M = length (ImportGlobalTable M) + length (InternalGlobalTable M)"

definition isValidType :: "nat \<Rightarrow> Module \<Rightarrow> bool" where
  "isValidType i M \<longleftrightarrow> i < length (TypeTable M)"

definition isValidFunc :: "nat \<Rightarrow> Module \<Rightarrow> bool" where
  "isValidFunc i M \<longleftrightarrow> i < getNumTotalFunctions M"

definition isValidTable :: "nat \<Rightarrow> Module \<Rightarrow> bool" where
  "isValidTable i M \<longleftrightarrow> i < getNumTotalTables M"

definition isValidMem :: "nat \<Rightarrow> Module \<Rightarrow> bool" where
  "isValidMem i M \<longleftrightarrow> i < getNumTotalMemories M"

definition isValidImportGlobal :: "nat \<Rightarrow> Module \<Rightarrow> bool" where
  "isValidImportGlobal i M \<longleftrightarrow> i < length (ImportGlobalTable M)"

definition isValidGlobal :: "nat \<Rightarrow> Module \<Rightarrow> bool" where
  "isValidGlobal i M \<longleftrightarrow> i < getNumTotalGlobals M"

definition getDeclaredType :: "nat \<Rightarrow> Module \<Rightarrow> TypeEntry res" where
  "getDeclaredType i M = (if isValidType i M then Inr (TypeTable M ! i) else Inl Abort)"

definition getFunctionTypeIdx :: "nat \<Rightarrow> Module \<Rightarrow> nat res" where
  "getFunctionTypeIdx i M =
     (if i < length (ImportFunctionTable M) then Inr (ImportTypeIdx (ImportFunctionTable M ! i))
      else
        let j = i - length (ImportFunctionTable M) in
        if j < length (InternalFunctionTable M) then Inr (TypeIdx (InternalFunctionTable M ! j)) else Inl Abort)"

definition getFunctionType :: "nat \<Rightarrow> Module \<Rightarrow> TypeEntry res" where
  "getFunctionType i M = bindE (getFunctionTypeIdx i M) (\<lambda>t. getDeclaredType t M)"

definition getInternalGlobal :: "nat \<Rightarrow> Module \<Rightarrow> GlobalEntry res" where
  "getInternalGlobal i M = (if i < length (InternalGlobalTable M) then Inr (InternalGlobalTable M ! i) else Inl Abort)"

definition getGlobalType :: "nat \<Rightarrow> Module \<Rightarrow> WASMType res" where
  "getGlobalType i M =
     (if i < length (ImportGlobalTable M) then Inr (GType (ImportGlobalTable M ! i))
      else bindE (getInternalGlobal (i - length (ImportGlobalTable M)) M) (\<lambda>G. Inr (GType G)))"

definition isEqual :: "TypeEntry \<Rightarrow> TypeEntry \<Rightarrow> bool" where
  "isEqual T1 T2 \<longleftrightarrow>
     length (ParamTypes T1) = length (ParamTypes T2) \<and> length (ReturnTypes T1) = length (ReturnTypes T2) \<and>
     ParamTypes T1 = ParamTypes T2 \<and> ReturnTypes T1 = ReturnTypes T2"

section \<open>Stacks\<close>

text \<open>The lowest \<open>n\<close> elements of a stack whose top comes first.\<close>

definition bottom :: "nat \<Rightarrow> 'a list \<Rightarrow> 'a list" where
  "bottom n xs = drop (length xs - n) xs"

lemma bottom_length [simp]: "n \<le> length xs \<Longrightarrow> length (bottom n xs) = n" "bottom (length xs) xs = xs" "bottom 0 xs = []"
  by (simp_all add: bottom_def)

lemma bottom_append [simp]: "n \<le> length xs \<Longrightarrow> bottom n (ys @ xs) = bottom n xs"
  "n \<le> length xs \<Longrightarrow> bottom n (y # xs) = bottom n xs"
  by (simp_all add: bottom_def Suc_diff_le)

lemma bottom_bottom [simp]: "m \<le> n \<Longrightarrow> n \<le> length xs \<Longrightarrow> bottom m (bottom n xs) = bottom m xs"
  by (simp add: bottom_def)

lemma bottom_split: "n \<le> length xs \<Longrightarrow> \<exists>ys. xs = ys @ bottom n xs"
  by (metis append_take_drop_id bottom_def)

lemma set_bottom: "set (bottom n xs) \<subseteq> set xs"
  by (simp add: bottom_def set_drop_subset)

section \<open>Value types\<close>

definition is_val :: "WASMType \<Rightarrow> bool" where
  "is_val t \<longleftrightarrow> t \<in> {I32, I64, F32, F64}"

text \<open>The size in bytes of values on the stack.\<close>

fun tsize :: "WASMType \<Rightarrow> nat" where
  "tsize I8 = 1"
| "tsize I16 = 2"
| "tsize I64 = 8"
| "tsize F64 = 8"
| "tsize _ = 4"

definition tsizes :: "WASMType list \<Rightarrow> nat" where
  "tsizes ts = sum_list (map tsize ts)"

lemma tsizes_simps [simp]: "tsizes [] = 0" "tsizes (t # ts) = tsize t + tsizes ts" "tsizes (ts @ us) = tsizes ts + tsizes us"
  "tsizes (rev ts) = tsizes ts"
  by (simp_all add: tsizes_def rev_map [symmetric])

lemma is_val_size: "is_val t \<Longrightarrow> getWASMTypeSize t = Inr (of_nat (tsize t))"
  and is_val_cells: "is_val t \<Longrightarrow> getWASMTypeCellNum t = Inr (of_nat (tsize t div 4))"
  and is_val_bounds: "is_val t \<Longrightarrow> tsize t \<in> {4, 8}"
  and is_val_any: "is_val t \<Longrightarrow> t \<noteq> ANY"
  by (auto simp: is_val_def)

lemma readValType_val: "readValType L = Inr (t, L') \<Longrightarrow> is_val t"
  by (auto simp: readValType_def readTypeBase_def getWASMValTypeFromOpcode_def is_val_def bindE_Inr_iff split: if_splits)

lemma readBlockType_val: "readBlockType L = Inr (t, L') \<Longrightarrow> is_val t \<or> t = VOID"
  by (auto simp: readBlockType_def readTypeBase_def getWASMBlockTypeFromOpcode_def is_val_def bindE_Inr_iff split: if_splits)

end
