(* ===== verification/Wasm_Function.thy ===== *)
theory Wasm_Function
  imports Wasm_Module
begin

text \<open>
  Loading and validating the body of a function (\<open>src/action/function_loader.h\<close> and \<open>.cpp\<close>): one pass over the
  instructions with a stack of value types and a stack of control blocks.
\<close>

section \<open>Opcodes\<close>

abbreviation UNREACHABLE :: u8 where "UNREACHABLE \<equiv> 0x00"

abbreviation NOP :: u8 where "NOP \<equiv> 0x01"

abbreviation BLOCK :: u8 where "BLOCK \<equiv> 0x02"

abbreviation LOOP :: u8 where "LOOP \<equiv> 0x03"

abbreviation IF :: u8 where "IF \<equiv> 0x04"

abbreviation ELSE :: u8 where "ELSE \<equiv> 0x05"

abbreviation END :: u8 where "END \<equiv> 0x0b"

abbreviation BR :: u8 where "BR \<equiv> 0x0c"

abbreviation BR_IF :: u8 where "BR_IF \<equiv> 0x0d"

abbreviation BR_TABLE :: u8 where "BR_TABLE \<equiv> 0x0e"

abbreviation RETURN :: u8 where "RETURN \<equiv> 0x0f"

abbreviation CALL :: u8 where "CALL \<equiv> 0x10"

abbreviation CALL_INDIRECT :: u8 where "CALL_INDIRECT \<equiv> 0x11"

abbreviation DROP :: u8 where "DROP \<equiv> 0x1a"

abbreviation SELECT :: u8 where "SELECT \<equiv> 0x1b"

abbreviation GET_LOCAL :: u8 where "GET_LOCAL \<equiv> 0x20"

abbreviation SET_LOCAL :: u8 where "SET_LOCAL \<equiv> 0x21"

abbreviation TEE_LOCAL :: u8 where "TEE_LOCAL \<equiv> 0x22"

abbreviation GET_GLOBAL :: u8 where "GET_GLOBAL \<equiv> 0x23"

abbreviation SET_GLOBAL :: u8 where "SET_GLOBAL \<equiv> 0x24"

abbreviation I32_LOAD :: u8 where "I32_LOAD \<equiv> 0x28"

abbreviation I64_STORE32 :: u8 where "I64_STORE32 \<equiv> 0x3e"

abbreviation MEMORY_SIZE :: u8 where "MEMORY_SIZE \<equiv> 0x3f"

abbreviation MEMORY_GROW :: u8 where "MEMORY_GROW \<equiv> 0x40"

abbreviation I32_CONST :: u8 where "I32_CONST \<equiv> 0x41"

abbreviation I64_CONST :: u8 where "I64_CONST \<equiv> 0x42"

abbreviation F32_CONST :: u8 where "F32_CONST \<equiv> 0x43"

abbreviation F64_CONST :: u8 where "F64_CONST \<equiv> 0x44"

abbreviation DROP_64 :: u8 where "DROP_64 \<equiv> 0xc5"

abbreviation SELECT_64 :: u8 where "SELECT_64 \<equiv> 0xc6"

text \<open>The cases that only call \<open>popAndPushValueType\<close>, with the number of operands, their type and the result type.\<close>

definition simple_ops :: "(u8 list \<times> nat \<times> WASMType \<times> WASMType) list" where
  "simple_ops =
     [([0x45], 1, I32, I32),
      ([0x46, 0x47, 0x48, 0x49, 0x4a, 0x4b, 0x4c, 0x4d, 0x4e, 0x4f], 2, I32, I32),
      ([0x50], 1, I64, I32),
      ([0x51, 0x52, 0x53, 0x55, 0x54, 0x56, 0x57, 0x58, 0x59, 0x5a], 2, I64, I32),
      ([0x5b, 0x5c, 0x5d, 0x5e, 0x5f, 0x60], 2, F32, I32),
      ([0x61, 0x62, 0x63, 0x64, 0x65, 0x66], 2, F64, I32),
      ([0x67, 0x68, 0x69], 1, I32, I32),
      ([0x6a, 0x6b, 0x6c, 0x6d, 0x6e, 0x6f, 0x70, 0x71, 0x72, 0x73, 0x74, 0x75, 0x76, 0x77, 0x78], 2, I32, I32),
      ([0x7c, 0x7d, 0x7e, 0x7f, 0x80, 0x81, 0x82, 0x83, 0x84, 0x85, 0x86, 0x87, 0x88, 0x89, 0x8a], 2, I64, I64),
      ([0x79, 0x7a, 0x7b], 1, I64, I64),
      ([0x8b, 0x8c, 0x8d, 0x8e, 0x8f, 0x90, 0x91], 1, F32, F32),
      ([0x92, 0x93, 0x94, 0x95, 0x96, 0x97, 0x98], 2, F32, F32),
      ([0x99, 0x9a, 0x9b, 0x9c, 0x9d, 0x9e, 0x9f], 1, F64, F64),
      ([0xa0, 0xa1, 0xa2, 0xa3, 0xa4, 0xa5, 0xa6], 2, F64, F64),
      ([0xa7], 1, I64, I32),
      ([0xa8, 0xa9], 1, F32, I32),
      ([0xaa, 0xab], 1, F64, I32),
      ([0xac, 0xad], 1, I32, I64),
      ([0xae, 0xaf], 1, F32, I64),
      ([0xb0, 0xb1], 1, F64, I64),
      ([0xb2, 0xb3], 1, I32, F32),
      ([0xb4, 0xb5], 1, I64, F32),
      ([0xb6], 1, F64, F32),
      ([0xb7, 0xb8], 1, I32, F64),
      ([0xb9, 0xba], 1, I64, F64),
      ([0xbb], 1, F32, F64),
      ([0xbc], 1, F32, I32),
      ([0xbd], 1, F64, I64),
      ([0xbe], 1, I32, F32),
      ([0xbf], 1, I64, F64),
      ([0xc0, 0xc1], 1, I32, I32),
      ([0xc2, 0xc3, 0xc4], 1, I64, I64)]"

definition simple_op :: "u8 \<Rightarrow> (nat \<times> WASMType \<times> WASMType) option" where
  "simple_op Opcode = map_option snd (find (\<lambda>(Ops, _). Opcode \<in> set Ops) simple_ops)"

text \<open>The loads and stores: the operand types, topmost first, and the result types.\<close>

definition mem_ops :: "(u8 list \<times> WASMType list \<times> WASMType list) list" where
  "mem_ops =
     [([0x28, 0x2c, 0x2d, 0x2e, 0x2f], [I32], [I32]),
      ([0x29, 0x30, 0x31, 0x32, 0x33, 0x34, 0x35], [I32], [I64]),
      ([0x2a], [I32], [F32]),
      ([0x2b], [I32], [F64]),
      ([0x36, 0x3a, 0x3b], [I32, I32], []),
      ([0x37, 0x3c, 0x3d, 0x3e], [I64, I32], []),
      ([0x38], [F32, I32], []),
      ([0x39], [F64, I32], [])]"

definition mem_op :: "u8 \<Rightarrow> (WASMType list \<times> WASMType list) option" where
  "mem_op Opcode = map_option snd (find (\<lambda>(Ops, _). Opcode \<in> set Ops) mem_ops)"

definition Aligns :: "nat list" where
  "Aligns = [2, 3, 2, 3, 0, 0, 1, 1, 0, 0, 1, 1, 2, 2, 2, 3, 2, 3, 0, 1, 0, 1, 2]"

definition checkMemoryAlign :: "u8 \<Rightarrow> u32 \<Rightarrow> bool" where
  "checkMemoryAlign Opcode Align \<longleftrightarrow> unat Align \<le> Aligns ! (unat Opcode - unat I32_LOAD)"

section \<open>The state\<close>

datatype LabelType = LABEL_BLOCK | LABEL_LOOP | LABEL_IF | LABEL_FUNCTION

datatype ControlBlockType = ValBlock WASMType | FuncBlock TypeEntry

fun isBalanced :: "ControlBlockType \<Rightarrow> bool" where
  "isBalanced (ValBlock t) \<longleftrightarrow> t = VOID"
| "isBalanced (FuncBlock T) \<longleftrightarrow> length (ParamTypes T) = length (ReturnTypes T) \<and> ParamTypes T = ReturnTypes T"

fun getParamTypes :: "ControlBlockType \<Rightarrow> WASMType list" where
  "getParamTypes (ValBlock t) = []"
| "getParamTypes (FuncBlock T) = ParamTypes T"

fun getReturnTypes :: "ControlBlockType \<Rightarrow> WASMType list" where
  "getReturnTypes (ValBlock t) = (if t = VOID then [] else [t])"
| "getReturnTypes (FuncBlock T) = ReturnTypes T"

record ControlBlock =
  StackPolymorphic :: bool
  BLabel :: LabelType
  BlockType :: ControlBlockType
  StartPtr :: nat
  ElsePtr :: "nat option"
  InitStackSize :: u32
  InitNumValues :: nat

text \<open>
  The loader of a function. The back of a vector is the head of its list. \<open>EndPtr\<close> of a block is written just before
  the block is removed, and is left out.
\<close>

record FunctionLoader = LoaderCommon +
  Stats :: u32
  StackSize :: u32
  MaxStackSize :: u32
  MaxBlockDepth :: nat
  ControlBlocks :: "ControlBlock list"
  ValueTypes :: "WASMType list"

definition SF_global :: u32 where "SF_global = 1"

definition SF_memory :: u32 where "SF_memory = 2"

definition SF_table :: u32 where "SF_table = 4"

definition add_stat :: "u32 \<Rightarrow> FunctionLoader \<Rightarrow> FunctionLoader" where
  "add_stat f F = F\<lparr>Stats := Stats F OR f\<rparr>"

section \<open>The stacks\<close>

abbreviation type_error :: "string \<Rightarrow> 'a res" where
  "type_error e \<equiv> Inl (Throw (Named e))"

definition pushBlock :: "LabelType \<Rightarrow> ControlBlockType \<Rightarrow> nat \<Rightarrow> FunctionLoader \<Rightarrow> FunctionLoader" where
  "pushBlock L T p F =
     (let Block = \<lparr>StackPolymorphic = False, BLabel = L, BlockType = T, StartPtr = p, ElsePtr = None,
            InitStackSize = StackSize F, InitNumValues = length (ValueTypes F)\<rparr>;
          Blocks = Block # ControlBlocks F in
      F\<lparr>ControlBlocks := Blocks, MaxBlockDepth := max (MaxBlockDepth F) (length Blocks)\<rparr>)"

definition popBlock :: "FunctionLoader \<Rightarrow> FunctionLoader res" where
  "popBlock F = (if ControlBlocks F = [] then Inl Abort else Inr (F\<lparr>ControlBlocks := tl (ControlBlocks F)\<rparr>))"

text \<open>\<open>ValueTypes.resize\<close> would fill a vector that is too short with \<open>VOID\<close>.\<close>

definition resetStack :: "FunctionLoader \<Rightarrow> FunctionLoader res" where
  "resetStack F =
     (case ControlBlocks F of
        [] \<Rightarrow> Inl Abort
      | Block # _ \<Rightarrow>
          let n = InitNumValues Block; k = length (ValueTypes F) in
          Inr (F\<lparr>StackSize := InitStackSize Block,
            ValueTypes := (if k < n then replicate (n - k) VOID @ ValueTypes F else drop (k - n) (ValueTypes F))\<rparr>))"

definition setStackPolymorphic :: "bool \<Rightarrow> FunctionLoader \<Rightarrow> FunctionLoader res" where
  "setStackPolymorphic p F =
     (case ControlBlocks F of
        [] \<Rightarrow> Inl Abort
      | Block # Bs \<Rightarrow> Inr (F\<lparr>ControlBlocks := Block\<lparr>StackPolymorphic := p\<rparr> # Bs\<rparr>))"

definition popValueType :: "WASMType \<Rightarrow> FunctionLoader \<Rightarrow> (WASMType \<times> FunctionLoader) res" where
  "popValueType Type F =
     (case ControlBlocks F of
        [] \<Rightarrow> Inl UB
      | Block # _ \<Rightarrow>
          if length (ValueTypes F) < InitNumValues Block then Inl Abort
          else if length (ValueTypes F) = InitNumValues Block then
            if StackPolymorphic Block then Inr (ANY, F) else type_error ''TypeMismatchStackSize''
          else
            bindE
              (if hd (ValueTypes F) = ANY then if Type = ANY then type_error ''TypeMismatch'' else Inr Type
               else if Type = ANY then Inr (hd (ValueTypes F))
               else if hd (ValueTypes F) \<noteq> Type then type_error ''TypeMismatch''
               else Inr Type) (\<lambda>Type.
            bindE (getWASMTypeSize Type) (\<lambda>TypeSize.
            if StackSize F < TypeSize then type_error ''TypeMismatchStackSize''
            else Inr (Type, F\<lparr>StackSize := StackSize F - TypeSize, ValueTypes := tl (ValueTypes F)\<rparr>))))"

definition pushValueType :: "WASMType \<Rightarrow> FunctionLoader \<Rightarrow> FunctionLoader res" where
  "pushValueType Type F =
     bindE (getWASMTypeSize Type) (\<lambda>TypeSize.
     let S = StackSize F + TypeSize in
     Inr (F\<lparr>ValueTypes := Type # ValueTypes F, StackSize := S, MaxStackSize := max (MaxStackSize F) S\<rparr>))"

text \<open>Types are popped from the first of the list to the last, and pushed in the same way.\<close>

fun pops :: "WASMType list \<Rightarrow> FunctionLoader \<Rightarrow> FunctionLoader res" where
  "pops [] F = Inr F"
| "pops (t # ts) F = bindE (popValueType t F) (\<lambda>(_, F). pops ts F)"

fun pushes :: "WASMType list \<Rightarrow> FunctionLoader \<Rightarrow> FunctionLoader res" where
  "pushes [] F = Inr F"
| "pushes (t # ts) F = bindE (pushValueType t F) (pushes ts)"

definition popAndPushValueType :: "nat \<Rightarrow> WASMType \<Rightarrow> WASMType \<Rightarrow> FunctionLoader \<Rightarrow> FunctionLoader res" where
  "popAndPushValueType n Popped Pushed F = bindE (pops (replicate n Popped) F) (pushValueType Pushed)"

definition pushBlockParamTypes :: "FunctionLoader \<Rightarrow> FunctionLoader res" where
  "pushBlockParamTypes F =
     (case ControlBlocks F of [] \<Rightarrow> Inl Abort | Block # _ \<Rightarrow> pushes (getParamTypes (BlockType Block)) F)"

text \<open>The loop over a copy of the value types; the types come topmost first.\<close>

fun checkTargetBlockStack :: "WASMType list \<Rightarrow> u32 \<Rightarrow> WASMType list \<Rightarrow> unit res" where
  "checkTargetBlockStack [] Avail Vs = Inr ()"
| "checkTargetBlockStack (RetType # Types) Avail Vs =
     bindE (getWASMTypeSize RetType) (\<lambda>TypeSize.
     if TypeSize > Avail then type_error ''TypeMismatchExpectDataStackEmpty''
     else case Vs of
       [] \<Rightarrow> Inl UB
     | Type # Vs \<Rightarrow>
         if Type \<noteq> RetType then type_error ''TypeMismatch''
         else checkTargetBlockStack Types (Avail - TypeSize) Vs)"

fun sum_cells :: "WASMType list \<Rightarrow> u32 res" where
  "sum_cells [] = Inr 0"
| "sum_cells (t # ts) = bindE (getWASMTypeCellNum t) (\<lambda>n. bindE (sum_cells ts) (\<lambda>m. Inr (n + m)))"

definition checkTopTypes :: "ControlBlock \<Rightarrow> WASMType list \<Rightarrow> bool \<Rightarrow> FunctionLoader \<Rightarrow> FunctionLoader res" where
  "checkTopTypes Block Types IsBranch F =
     (if StackSize F < InitStackSize Block then type_error ''TypeMismatchStackSize''
      else
        let AvailStackSize = StackSize F - InitStackSize Block in
        if StackPolymorphic Block then
          bindE (pops (rev Types) F) (\<lambda>F.
          bindE (pushes Types F) (\<lambda>F.
          let n = length (ValueTypes F) - InitNumValues Block in
          if n < length Types \<or> \<not> IsBranch \<and> n \<noteq> length Types then type_error ''TypeMismatchStackSize''
          else if list_ex (\<lambda>t. hd (ValueTypes F) \<noteq> t) Types then type_error ''TypeMismatch''
          else Inr F))
        else
          bindE (sum_cells Types) (\<lambda>NumReturnCells.
          if drop_bit 2 AvailStackSize \<noteq> NumReturnCells then type_error ''TypeMismatchStackSize''
          else bindE (checkTargetBlockStack (rev Types) AvailStackSize (ValueTypes F)) (\<lambda>_. Inr F)))"

definition checkBlockStack :: "FunctionLoader \<Rightarrow> FunctionLoader res" where
  "checkBlockStack F =
     (case ControlBlocks F of
        [] \<Rightarrow> Inl Abort
      | Block # _ \<Rightarrow> checkTopTypes Block (getReturnTypes (BlockType Block)) False F)"

text \<open>The types that a branch to a block carries.\<close>

definition label_types :: "ControlBlock \<Rightarrow> WASMType list" where
  "label_types Block = (if BLabel Block = LABEL_LOOP then getParamTypes (BlockType Block) else getReturnTypes (BlockType Block))"

definition checkBranch :: "FunctionLoader \<Rightarrow> (ControlBlock \<times> FunctionLoader) res" where
  "checkBranch F =
     bindE (readU32 F) (\<lambda>(Depth, F).
     if length (ControlBlocks F) \<le> unat Depth then type_error ''UnknownLabel''
     else
       let TargetBlock = ControlBlocks F ! unat Depth;
           Types = label_types TargetBlock;
           CurBlock = hd (ControlBlocks F) in
       if StackPolymorphic CurBlock then
         bindE (pops (rev Types) F) (\<lambda>F. bindE (pushes Types F) (\<lambda>F. Inr (TargetBlock, F)))
       else
         bindE (checkTargetBlockStack (rev Types) (StackSize F - InitStackSize CurBlock) (ValueTypes F)) (\<lambda>_.
         Inr (TargetBlock, F)))"

definition readLocal :: "TypeEntry \<Rightarrow> WASMType list \<Rightarrow> FunctionLoader \<Rightarrow> (WASMType \<times> FunctionLoader) res" where
  "readLocal FT Locals F =
     bindE (readU32 F) (\<lambda>(LocalIdx, F).
     let i = unat LocalIdx; n = length (ParamTypes FT) in
     if i \<ge> n + length Locals then type_error ''UnknownLocal''
     else if i < n then Inr (ParamTypes FT ! i, F)
     else Inr (Locals ! (i - n), F))"


section \<open>The instructions\<close>

text \<open>\<open>unreachable\<close>, and what \<open>br\<close>, \<open>br_table\<close> and \<open>return\<close> do at the end.\<close>

definition leave :: "FunctionLoader \<Rightarrow> FunctionLoader res" where
  "leave F = bindE (resetStack F) (setStackPolymorphic True)"

definition load_block :: "LabelType \<Rightarrow> FunctionLoader \<Rightarrow> FunctionLoader res" where
  "load_block L F = bindE (readBlockType F) (\<lambda>(Type, F). pushBlockParamTypes (pushBlock L (ValBlock Type) (Ptr F) F))"

definition load_if :: "FunctionLoader \<Rightarrow> FunctionLoader res" where
  "load_if F = bindE (popValueType I32 F) (\<lambda>(_, F). load_block LABEL_IF F)"

definition set_else :: "nat \<Rightarrow> FunctionLoader \<Rightarrow> FunctionLoader" where
  "set_else p F = (case ControlBlocks F of [] \<Rightarrow> F | Block # Bs \<Rightarrow> F\<lparr>ControlBlocks := Block\<lparr>ElsePtr := Some p\<rparr> # Bs\<rparr>)"

definition load_else :: "FunctionLoader \<Rightarrow> FunctionLoader res" where
  "load_else F =
     (case ControlBlocks F of
        [] \<Rightarrow> Inl UB
      | Block # _ \<Rightarrow>
          if BLabel Block \<noteq> LABEL_IF \<or> ElsePtr Block \<noteq> None then type_error ''ElseMismatchIf''
          else
            bindE (checkBlockStack F) (\<lambda>F.
            bindE (resetStack (set_else (Ptr F - 1) F)) (\<lambda>F.
            bindE (setStackPolymorphic False F) pushBlockParamTypes)))"

definition load_br :: "FunctionLoader \<Rightarrow> FunctionLoader res" where
  "load_br F = bindE (checkBranch F) (\<lambda>(_, F). leave F)"

definition load_br_if :: "FunctionLoader \<Rightarrow> FunctionLoader res" where
  "load_br_if F = bindE (popValueType I32 F) (\<lambda>(_, F). bindE (checkBranch F) (\<lambda>(_, F). Inr F))"

definition br_types :: "ControlBlock \<Rightarrow> WASMType list" where
  "br_types Block = (if BLabel Block = LABEL_LOOP then [] else getReturnTypes (BlockType Block))"

text \<open>The targets of a table; the types of the first one are expected of the others.\<close>

fun br_targets :: "nat \<Rightarrow> WASMType list option \<Rightarrow> FunctionLoader \<Rightarrow> FunctionLoader res" where
  "br_targets 0 Expected F = Inr F"
| "br_targets (Suc n) Expected F =
     bindE (checkBranch F) (\<lambda>(Target, F).
     case Expected of
       None \<Rightarrow> br_targets n (Some (br_types Target)) F
     | Some Types \<Rightarrow>
         if length Types \<noteq> length (br_types Target) \<or> Types \<noteq> br_types Target then type_error ''TypeMismatchBrTableTargets''
         else br_targets n Expected F)"

definition load_br_table :: "FunctionLoader \<Rightarrow> FunctionLoader res" where
  "load_br_table F =
     bindE (readU32 F) (\<lambda>(NumTargets, F).
     bindE (popValueType I32 F) (\<lambda>(_, F).
     bindE (br_targets (Suc (unat NumTargets)) None F) leave))"

definition load_end :: "FunctionLoader \<Rightarrow> FunctionLoader res" where
  "load_end F =
     (case ControlBlocks F of
        [] \<Rightarrow> Inl UB
      | Block # _ \<Rightarrow>
          bindE (checkBlockStack F) (\<lambda>F.
          if BLabel Block = LABEL_IF \<and> ElsePtr Block = None \<and> \<not> isBalanced (BlockType Block) then
            type_error ''TypeMismatchElseMissing''
          else if BLabel Block = LABEL_FUNCTION then
            if length (ControlBlocks F) \<noteq> 1 then Inl Abort
            else
              bindE (popBlock F) (\<lambda>F.
              if Ptr F < End F then type_error ''OpcodesRemainAfterEndOfFunction'' else Inr F)
          else
            bindE (popBlock F) (\<lambda>F.
            if ControlBlocks F = [] then Inl Abort else Inr F)))"

definition load_get_local :: "TypeEntry \<Rightarrow> WASMType list \<Rightarrow> FunctionLoader \<Rightarrow> FunctionLoader res" where
  "load_get_local FT Locals F = bindE (readLocal FT Locals F) (\<lambda>(LocalType, F). pushValueType LocalType F)"

definition load_set_local :: "TypeEntry \<Rightarrow> WASMType list \<Rightarrow> FunctionLoader \<Rightarrow> FunctionLoader res" where
  "load_set_local FT Locals F = bindE (readLocal FT Locals F) (\<lambda>(LocalType, F). pops [LocalType] F)"

definition load_tee_local :: "TypeEntry \<Rightarrow> WASMType list \<Rightarrow> FunctionLoader \<Rightarrow> FunctionLoader res" where
  "load_tee_local FT Locals F =
     bindE (readLocal FT Locals F) (\<lambda>(LocalType, F). bindE (pops [LocalType] F) (pushValueType LocalType))"

definition load_get_global :: "Module \<Rightarrow> FunctionLoader \<Rightarrow> FunctionLoader res" where
  "load_get_global M F =
     bindE (readU32 F) (\<lambda>(GlobalIdx, F).
     if \<not> isValidGlobal (unat GlobalIdx) M then type_error ''UnknownGlobal''
     else if unat GlobalIdx < length (ImportGlobalTable M) then type_error ''UnsupportedImport''
     else
       bindE (getGlobalType (unat GlobalIdx) M) (\<lambda>GlobalType.
       bindE (pushValueType GlobalType F) (\<lambda>F. Inr (add_stat SF_global F))))"

definition load_set_global :: "Module \<Rightarrow> FunctionLoader \<Rightarrow> FunctionLoader res" where
  "load_set_global M F =
     bindE (readU32 F) (\<lambda>(GlobalIdx, F).
     if \<not> isValidGlobal (unat GlobalIdx) M then type_error ''UnknownGlobal''
     else
       let InternalGlobalIdx = GlobalIdx - of_nat (length (ImportGlobalTable M)) in
       if sint InternalGlobalIdx < 0 then type_error ''UnsupportedImport''
       else
         bindE (getInternalGlobal (unat InternalGlobalIdx) M) (\<lambda>Global.
         if \<not> Mutable Global then type_error ''GlobalIsImmutable''
         else bindE (pops [GType Global] F) (\<lambda>F. Inr (add_stat SF_global F))))"

definition hasMemory :: "Module \<Rightarrow> bool" where
  "hasMemory M \<longleftrightarrow> getNumTotalMemories M \<noteq> 0"

definition read_zero :: "FunctionLoader \<Rightarrow> FunctionLoader res" where
  "read_zero F = bindE (readByte F) (\<lambda>(MemIdx, F). if MemIdx \<noteq> 0 then type_error ''ZeroFlagExpected'' else Inr F)"

definition load_memory_size :: "Module \<Rightarrow> FunctionLoader \<Rightarrow> FunctionLoader res" where
  "load_memory_size M F =
     (if \<not> hasMemory M then type_error ''UnknownMemory''
      else bindE (read_zero F) (\<lambda>F. bindE (pushValueType I32 F) (\<lambda>F. Inr (add_stat SF_memory F))))"

definition load_memory_grow :: "Module \<Rightarrow> FunctionLoader \<Rightarrow> FunctionLoader res" where
  "load_memory_grow M F =
     (if \<not> hasMemory M then type_error ''UnknownMemory''
      else bindE (read_zero F) (\<lambda>F. bindE (popAndPushValueType 1 I32 I32 F) (\<lambda>F. Inr (add_stat SF_memory F))))"

definition load_memory_op :: "Module \<Rightarrow> u8 \<Rightarrow> WASMType list \<Rightarrow> WASMType list \<Rightarrow> FunctionLoader \<Rightarrow> FunctionLoader res" where
  "load_memory_op M Opcode Popped Pushed F =
     (if \<not> hasMemory M then type_error ''UnknownMemory''
      else
        bindE (readU32 F) (\<lambda>(Align, F).
        bindE (readU32 F) (\<lambda>(_, F).
        if \<not> checkMemoryAlign Opcode Align then type_error ''AlignMustLargerThanNatural''
        else bindE (pops Popped F) (\<lambda>F. bindE (pushes Pushed F) (\<lambda>F. Inr (add_stat SF_memory F))))))"

text \<open>The opcode that was read last is written again.\<close>

definition rewrite :: "u8 \<Rightarrow> FunctionLoader \<Rightarrow> FunctionLoader" where
  "rewrite Opcode F = F\<lparr>Data := (Data F)[Ptr F - 1 := Opcode]\<rparr>"

definition load_drop :: "FunctionLoader \<Rightarrow> FunctionLoader res" where
  "load_drop F =
     bindE (popValueType ANY F) (\<lambda>(Type, F). Inr (if Type = I64 \<or> Type = F64 then rewrite DROP_64 F else F))"

definition load_select :: "FunctionLoader \<Rightarrow> FunctionLoader res" where
  "load_select F =
     bindE (popValueType I32 F) (\<lambda>(_, F).
     bindE (popValueType ANY F) (\<lambda>(Type1, F).
     bindE (popValueType ANY F) (\<lambda>(Type2, F).
     if Type1 \<noteq> Type2 \<and> Type1 \<noteq> ANY \<and> Type2 \<noteq> ANY then type_error ''TypeMismatchSelectStackEmpty''
     else
       let Type = (if Type1 \<noteq> ANY then Type1 else Type2) in
       pushValueType Type (if Type = I64 \<or> Type = F64 then rewrite SELECT_64 F else F))))"

definition load_return :: "TypeEntry \<Rightarrow> FunctionLoader \<Rightarrow> FunctionLoader res" where
  "load_return FT F = bindE (pops (rev (ReturnTypes FT)) F) leave"

definition load_call :: "Module \<Rightarrow> FunctionLoader \<Rightarrow> FunctionLoader res" where
  "load_call M F =
     bindE (readU32 F) (\<lambda>(CalleeIdx, F).
     if \<not> isValidFunc (unat CalleeIdx) M then type_error ''UnknownFunction''
     else
       bindE (getFunctionType (unat CalleeIdx) M) (\<lambda>CalleeFuncType.
       bindE (pops (rev (ParamTypes CalleeFuncType)) F) (pushes (ReturnTypes CalleeFuncType))))"

definition load_call_indirect :: "Module \<Rightarrow> FunctionLoader \<Rightarrow> FunctionLoader res" where
  "load_call_indirect M F =
     bindE (readU32 F) (\<lambda>(TypeIdx, F).
     if \<not> isValidType (unat TypeIdx) M then type_error ''UnknownTypeIdx''
     else
       bindE (read_zero F) (\<lambda>F.
       if \<not> isValidTable 0 M then type_error ''UnknownTable''
       else
         bindE (pops [I32] F) (\<lambda>F.
         bindE (getDeclaredType (unat TypeIdx) M) (\<lambda>CalleeFuncType.
         bindE (pops (rev (ParamTypes CalleeFuncType)) F) (\<lambda>F.
         bindE (pushes (ReturnTypes CalleeFuncType) F) (\<lambda>F. Inr (add_stat SF_table F)))))))"

definition load_op :: "Module \<Rightarrow> TypeEntry \<Rightarrow> WASMType list \<Rightarrow> u8 \<Rightarrow> FunctionLoader \<Rightarrow> FunctionLoader res" where
  "load_op M FT Locals Opcode F =
     (if Opcode = UNREACHABLE then leave F
      else if Opcode = NOP then Inr F
      else if Opcode = IF then load_if F
      else if Opcode = BLOCK then load_block LABEL_BLOCK F
      else if Opcode = LOOP then load_block LABEL_LOOP F
      else if Opcode = ELSE then load_else F
      else if Opcode = BR then load_br F
      else if Opcode = BR_IF then load_br_if F
      else if Opcode = BR_TABLE then load_br_table F
      else if Opcode = END then load_end F
      else if Opcode = GET_LOCAL then load_get_local FT Locals F
      else if Opcode = SET_LOCAL then load_set_local FT Locals F
      else if Opcode = TEE_LOCAL then load_tee_local FT Locals F
      else if Opcode = GET_GLOBAL then load_get_global M F
      else if Opcode = SET_GLOBAL then load_set_global M F
      else if Opcode = MEMORY_SIZE then load_memory_size M F
      else if Opcode = MEMORY_GROW then load_memory_grow M F
      else if Opcode = I32_CONST then bindE (readI32 F) (\<lambda>(_, F). pushValueType I32 F)
      else if Opcode = I64_CONST then bindE (readI64 F) (\<lambda>(_, F). pushValueType I64 F)
      else if Opcode = F32_CONST then bindE (readF32 F) (\<lambda>(_, F). pushValueType F32 F)
      else if Opcode = F64_CONST then bindE (readF64 F) (\<lambda>(_, F). pushValueType F64 F)
      else if Opcode = DROP then load_drop F
      else if Opcode = SELECT then load_select F
      else if Opcode = RETURN then load_return FT F
      else if Opcode = CALL then load_call M F
      else if Opcode = CALL_INDIRECT then load_call_indirect M F
      else case mem_op Opcode of
        Some (Popped, Pushed) \<Rightarrow> load_memory_op M Opcode Popped Pushed F
      | None \<Rightarrow> (case simple_op Opcode of
          Some (n, Popped, Pushed) \<Rightarrow> popAndPushValueType n Popped Pushed F
        | None \<Rightarrow> type_error ''UnsupportedOpcode''))"

definition load_step :: "Module \<Rightarrow> TypeEntry \<Rightarrow> WASMType list \<Rightarrow> FunctionLoader \<Rightarrow> FunctionLoader res" where
  "load_step M FT Locals F = bindE (readByte F) (\<lambda>(Opcode, F). load_op M FT Locals Opcode F)"

text \<open>Every instruction moves the pointer forward.\<close>

definition moved :: "'a LoaderCommon_scheme \<Rightarrow> 'a LoaderCommon_scheme \<Rightarrow> bool" where
  "moved F F' \<longleftrightarrow> Ptr F \<le> Ptr F' \<and> End F' = End F"

named_theorems moves

lemma moved_refl [simp]: "moved F F" and moved_trans: "moved F G \<Longrightarrow> moved G H \<Longrightarrow> moved F H"
  by (auto simp: moved_def)

lemma moved_readers [moves]:
  "readByte F = Inr (b, F') \<Longrightarrow> moved F F'" "readU32 F = Inr (v, F') \<Longrightarrow> moved F F'"
  "readI32 F = Inr (v, F') \<Longrightarrow> moved F F'" "readI64 F = Inr (w, F') \<Longrightarrow> moved F F'"
  "readF32 F = Inr (bs, F') \<Longrightarrow> moved F F'" "readF64 F = Inr (bs, F') \<Longrightarrow> moved F F'"
  "readBlockType F = Inr (t, F') \<Longrightarrow> moved F F'"
  by (auto simp: moved_def readByte_def readU32_def readI32_def readI64_def readF32_def readF64_def readBytes_def readLEB_def
      readBlockType_def readTypeBase_def bindE_Inr_iff split: if_splits)

lemma moved_stack [moves]:
  "popValueType t F = Inr (u, F') \<Longrightarrow> moved F F'" "pushValueType t F = Inr F' \<Longrightarrow> moved F F'"
  "resetStack F = Inr F' \<Longrightarrow> moved F F'" "setStackPolymorphic p F = Inr F' \<Longrightarrow> moved F F'" "popBlock F = Inr F' \<Longrightarrow> moved F F'"
  by (auto simp: moved_def popValueType_def pushValueType_def resetStack_def setStackPolymorphic_def popBlock_def bindE_Inr_iff
      Let_def split: list.splits if_splits)

lemma moved_update [simp]:
  "Ptr (add_stat s G) = Ptr G" "Ptr (rewrite b G) = Ptr G" "Ptr (set_else p G) = Ptr G" "Ptr (pushBlock l t p G) = Ptr G"
  "End (add_stat s G) = End G" "End (rewrite b G) = End G" "End (set_else p G) = End G" "End (pushBlock l t p G) = End G"
  by (auto simp: add_stat_def rewrite_def set_else_def pushBlock_def Let_def split: list.splits)

lemma moved_pops [moves]: "pops ts F = Inr F' \<Longrightarrow> moved F F'"
  by (induction ts F rule: pops.induct) (fastforce simp: bindE_Inr_iff moved_def dest!: moves)+

lemma moved_pushes [moves]: "pushes ts F = Inr F' \<Longrightarrow> moved F F'"
  by (induction ts F rule: pushes.induct) (fastforce simp: bindE_Inr_iff moved_def dest!: moves)+

lemma moved_checks [moves]:
  "checkTopTypes B ts i F = Inr F' \<Longrightarrow> moved F F'" "checkBranch F = Inr (B, F') \<Longrightarrow> moved F F'"
  "pushBlockParamTypes F = Inr F' \<Longrightarrow> moved F F'" "readLocal FT Ls F = Inr (t, F') \<Longrightarrow> moved F F'"
  "read_zero F = Inr F' \<Longrightarrow> moved F F'"
  by (auto simp: checkTopTypes_def checkBranch_def pushBlockParamTypes_def readLocal_def read_zero_def bindE_Inr_iff Let_def moved_def
      dest!: moves split: list.splits if_splits)

lemma moved_ops [moves]:
  "leave F = Inr F' \<Longrightarrow> moved F F'" "checkBlockStack F = Inr F' \<Longrightarrow> moved F F'"
  "popAndPushValueType n t u F = Inr F' \<Longrightarrow> moved F F'" 
  by (auto simp: leave_def checkBlockStack_def popAndPushValueType_def bindE_Inr_iff moved_def dest!: moves split: list.splits)

lemma moved_targets [moves]: "br_targets n E F = Inr F' \<Longrightarrow> moved F F'"
  by (induction n arbitrary: E F) (fastforce simp: bindE_Inr_iff moved_def dest!: moves split: option.splits if_splits)+

lemma moved_control [moves]:
  "load_block L F = Inr F' \<Longrightarrow> moved F F'" "load_if F = Inr F' \<Longrightarrow> moved F F'" "load_else F = Inr F' \<Longrightarrow> moved F F'"
  "load_br F = Inr F' \<Longrightarrow> moved F F'" "load_br_if F = Inr F' \<Longrightarrow> moved F F'" "load_br_table F = Inr F' \<Longrightarrow> moved F F'"
  "load_end F = Inr F' \<Longrightarrow> moved F F'" "load_return FT F = Inr F' \<Longrightarrow> moved F F'"
  by (auto simp: load_block_def load_if_def load_else_def load_br_def load_br_if_def load_br_table_def load_end_def load_return_def
      bindE_Inr_iff moved_def simp del: br_targets.simps dest!: moves split: list.splits if_splits)

lemma moved_plain [moves]:
  "load_get_local FT Ls F = Inr F' \<Longrightarrow> moved F F'" "load_set_local FT Ls F = Inr F' \<Longrightarrow> moved F F'"
  "load_tee_local FT Ls F = Inr F' \<Longrightarrow> moved F F'" "load_get_global M F = Inr F' \<Longrightarrow> moved F F'"
  "load_set_global M F = Inr F' \<Longrightarrow> moved F F'" "load_memory_size M F = Inr F' \<Longrightarrow> moved F F'"
  "load_memory_grow M F = Inr F' \<Longrightarrow> moved F F'" "load_memory_op M b ts us F = Inr F' \<Longrightarrow> moved F F'"
  "load_drop F = Inr F' \<Longrightarrow> moved F F'" "load_select F = Inr F' \<Longrightarrow> moved F F'"
  "load_call M F = Inr F' \<Longrightarrow> moved F F'" "load_call_indirect M F = Inr F' \<Longrightarrow> moved F F'"
  by (auto simp: load_get_local_def load_set_local_def load_tee_local_def load_get_global_def load_set_global_def
      load_memory_size_def load_memory_grow_def load_memory_op_def load_drop_def load_select_def load_call_def
      load_call_indirect_def bindE_Inr_iff moved_def Let_def simp del: pops.simps pushes.simps dest!: moves split: if_splits)

lemma moved_op: "load_op M FT Ls b F = Inr F' \<Longrightarrow> moved F F'"
  unfolding load_op_def
  by (auto simp: bindE_Inr_iff moved_def dest!: moves split: if_splits option.splits prod.splits)

lemma load_step_progress: "load_step M FT Ls F = Inr F' \<Longrightarrow> Ptr F < Ptr F' \<and> End F' = End F"
  by (fastforce simp: load_step_def bindE_Inr_iff readByte_def moved_def dest!: moved_op split: if_splits)

function load_loop :: "Module \<Rightarrow> TypeEntry \<Rightarrow> WASMType list \<Rightarrow> FunctionLoader \<Rightarrow> FunctionLoader res" where
  "load_loop M FT Locals F =
     (if Ptr F < End F then
        case load_step M FT Locals F of
          Inl e \<Rightarrow> Inl e
        | Inr F' \<Rightarrow> load_loop M FT Locals F'
      else Inr F)"
  by auto
termination
  by (relation "measure (\<lambda>(M, FT, Ls, F). End F - Ptr F)") (auto dest!: load_step_progress)

declare load_loop.simps [simp del]

definition new_FunctionLoader :: "u8 list \<Rightarrow> nat \<Rightarrow> nat \<Rightarrow> FunctionLoader" where
  "new_FunctionLoader D p e = \<lparr>Data = D, Ptr = p, End = e, Stats = 0, StackSize = 0, MaxStackSize = 0, MaxBlockDepth = 0,
     ControlBlocks = [], ValueTypes = []\<rparr>"

text \<open>The results that the caller stores in the code entry are fields of the loader.\<close>

definition load :: "Module \<Rightarrow> TypeEntry \<Rightarrow> WASMType list \<Rightarrow> FunctionLoader \<Rightarrow> FunctionLoader res" where
  "load M FT Locals F =
     bindE (load_loop M FT Locals (pushBlock LABEL_FUNCTION (FuncBlock FT) (Ptr F) F)) (\<lambda>F.
     if ControlBlocks F \<noteq> [] then type_error ''BlockStackNotEmptyAtEndOfFunction''
     else if Ptr F \<noteq> End F then type_error ''UnexpectedEnd''
     else Inr F)"

end
