(* ===== verification/Wasm_Numeric.thy ===== *)
theory Wasm_Numeric
  imports Wasm_Function "HOL-Library.Signed_Division"
begin

text \<open>
  The numeric instructions of the WebAssembly interpreter (\<open>src/action/interpreter.cpp\<close>): the operations of
  \<open>BinaryOpHelper\<close> and of the handlers that use them, and the table from opcodes to operations.

  Signed values are kept as words. The operators of C++17 leave signed overflow, shifts by the width or more and left
  shifts of negative values undefined, and so does the model. A right shift of a negative value is arithmetic.
\<close>

section \<open>Operators\<close>

datatype BinaryOperator =
    BO_ADD | BO_SUB | BO_MUL | BO_DIV | BO_DIV_S | BO_EQ | BO_NE | BO_LT | BO_GT | BO_LE | BO_GE | BO_REM_S | BO_REM_U
  | BO_AND | BO_OR | BO_XOR | BO_SHL | BO_SHR | BO_ROTL | BO_ROTR | BO_MIN | BO_MAX | BO_COPYSIGN
  | BC_CLZ | BC_CTZ | BC_POP_COUNT | BM_SQRT | BM_FLOOR | BM_CEIL | BM_TRUNC | BM_NEAREST | BM_ABS | BM_NEG

definition div_s :: "'a::len word \<Rightarrow> 'a word \<Rightarrow> 'a word res" where
  "div_s LHS RHS =
     (if LHS = push_bit (LENGTH('a) - 1) 1 \<and> RHS = - 1 then Inl (Throw (Named ''IntegerOverflow''))
      else if RHS = 0 then Inl (Throw (Named ''IntegerDivByZero''))
      else Inr (of_int (sint LHS sdiv sint RHS)))"

definition div_u :: "'a::len word \<Rightarrow> 'a word \<Rightarrow> 'a word res" where
  "div_u LHS RHS = (if RHS = 0 then Inl (Throw (Named ''IntegerDivByZero'')) else Inr (LHS div RHS))"

definition rem_s :: "'a::len word \<Rightarrow> 'a word \<Rightarrow> 'a word res" where
  "rem_s LHS RHS =
     (if LHS = push_bit (LENGTH('a) - 1) 1 \<and> RHS = - 1 then Inr 0
      else if RHS = 0 then Inl (Throw (Named ''IntegerDivByZero''))
      else Inr (of_int (sint LHS smod sint RHS)))"

definition rem_u :: "'a::len word \<Rightarrow> 'a word \<Rightarrow> 'a word res" where
  "rem_u LHS RHS = (if RHS = 0 then Inl (Throw (Named ''IntegerDivByZero'')) else Inr (LHS mod RHS))"

definition rotl :: "'a::len word \<Rightarrow> 'a word \<Rightarrow> 'a word" where
  "rotl LHS RHS =
     (let TypeBitNum = LENGTH('a);
          RHS = unat RHS mod TypeBitNum in
      push_bit RHS LHS OR drop_bit ((TypeBitNum - RHS) mod TypeBitNum) LHS)"

definition rotr :: "'a::len word \<Rightarrow> 'a word \<Rightarrow> 'a word" where
  "rotr LHS RHS =
     (let TypeBitNum = LENGTH('a);
          RHS = unat RHS mod TypeBitNum in
      drop_bit RHS LHS OR push_bit ((TypeBitNum - RHS) mod TypeBitNum) LHS)"

text \<open>The result of an operator on signed values.\<close>

definition signed_result :: "int \<Rightarrow> 'a::len word res" where
  "signed_result x = (if - (2 ^ (LENGTH('a) - 1)) \<le> x \<and> x < 2 ^ (LENGTH('a) - 1) then Inr (of_int x) else Inl UB)"

text \<open>\<open>DECL_BINOP_IMPL\<close> on integers.\<close>

definition shl :: "bool \<Rightarrow> 'a::len word \<Rightarrow> 'a word \<Rightarrow> 'a word res" where
  "shl Signed LHS RHS =
     (if unat RHS \<ge> LENGTH('a) then Inl UB
      else if Signed \<and> (sint LHS < 0 \<or> unat LHS * 2 ^ unat RHS \<ge> 2 ^ LENGTH('a)) then Inl UB
      else Inr (push_bit (unat RHS) LHS))"

definition shr :: "bool \<Rightarrow> 'a::len word \<Rightarrow> 'a word \<Rightarrow> 'a word res" where
  "shr Signed LHS RHS =
     (if unat RHS \<ge> LENGTH('a) then Inl UB
      else Inr ((if Signed then signed_drop_bit else drop_bit) (unat RHS) LHS))"

definition int_bin :: "bool \<Rightarrow> BinaryOperator \<Rightarrow> 'a::len word \<Rightarrow> 'a word \<Rightarrow> 'a word res" where
  "int_bin Signed Op LHS RHS =
     (case Op of
        BO_ADD \<Rightarrow> if Signed then signed_result (sint LHS + sint RHS) else Inr (LHS + RHS)
      | BO_SUB \<Rightarrow> if Signed then signed_result (sint LHS - sint RHS) else Inr (LHS - RHS)
      | BO_MUL \<Rightarrow> if Signed then signed_result (sint LHS * sint RHS) else Inr (LHS * RHS)
      | BO_AND \<Rightarrow> Inr (LHS AND RHS)
      | BO_OR \<Rightarrow> Inr (LHS OR RHS)
      | BO_XOR \<Rightarrow> Inr (LHS XOR RHS)
      | BO_SHL \<Rightarrow> shl Signed LHS RHS
      | BO_SHR \<Rightarrow> shr Signed LHS RHS
      | BO_DIV_S \<Rightarrow> div_s LHS RHS
      | BO_DIV \<Rightarrow> div_u LHS RHS
      | BO_REM_S \<Rightarrow> rem_s LHS RHS
      | BO_REM_U \<Rightarrow> rem_u LHS RHS
      | BO_ROTL \<Rightarrow> Inr (rotl LHS RHS)
      | BO_ROTR \<Rightarrow> Inr (rotr LHS RHS)
      | _ \<Rightarrow> Inl Abort)"

text \<open>\<open>DECL_COMPARE_IMPL\<close> on integers.\<close>

definition int_cmp :: "bool \<Rightarrow> BinaryOperator \<Rightarrow> 'a::len word \<Rightarrow> 'a word \<Rightarrow> bool" where
  "int_cmp Signed Op LHS RHS =
     (case Op of
        BO_EQ \<Rightarrow> LHS = RHS
      | BO_NE \<Rightarrow> LHS \<noteq> RHS
      | BO_LT \<Rightarrow> if Signed then sint LHS < sint RHS else LHS < RHS
      | BO_GT \<Rightarrow> if Signed then sint LHS > sint RHS else LHS > RHS
      | BO_LE \<Rightarrow> if Signed then sint LHS \<le> sint RHS else LHS \<le> RHS
      | BO_GE \<Rightarrow> if Signed then sint LHS \<ge> sint RHS else LHS \<ge> RHS
      | _ \<Rightarrow> False)"

section \<open>Counting bits\<close>

fun clz_loop :: "'a::len word \<Rightarrow> nat \<Rightarrow> nat" where
  "clz_loop Val 0 = 0"
| "clz_loop Val (Suc Idx) = (if bit Val (Suc Idx) then 0 else Suc (clz_loop Val Idx))"

fun ctz_loop :: "'a::len word \<Rightarrow> nat \<Rightarrow> nat \<Rightarrow> nat" where
  "ctz_loop Val 0 Idx = Idx"
| "ctz_loop Val (Suc n) Idx = (if bit Val Idx then Idx else ctz_loop Val n (Idx + 1))"

definition count_op :: "BinaryOperator \<Rightarrow> 'a::len word \<Rightarrow> 'a word res" where
  "count_op Op Val =
     (case Op of
        BC_CLZ \<Rightarrow> Inr (of_nat (if Val = 0 then LENGTH('a) else clz_loop Val (LENGTH('a) - 1)))
      | BC_CTZ \<Rightarrow> Inr (of_nat (if Val = 0 then LENGTH('a) else ctz_loop Val (LENGTH('a) + 1) 0))
      | BC_POP_COUNT \<Rightarrow> Inr (of_nat (length (filter (bit Val) [0..<LENGTH('a)])))
      | _ \<Rightarrow> Inl Abort)"

section \<open>Floating point\<close>

text \<open>
  Floating-point values are their bit patterns. The arithmetic itself is the target's and a parameter; the code's own
  treatment of NaN, signs and zero is modelled.
\<close>

record 'f fpu =
  fp_arith :: "BinaryOperator \<Rightarrow> 'f \<Rightarrow> 'f \<Rightarrow> 'f"
  fp_compare :: "BinaryOperator \<Rightarrow> 'f \<Rightarrow> 'f \<Rightarrow> bool"
  fp_math :: "BinaryOperator \<Rightarrow> 'f \<Rightarrow> 'f"
  fp_to_int :: "'f \<Rightarrow> int"
  fp_of_int :: "int \<Rightarrow> 'f"

definition mantissa :: "nat \<Rightarrow> nat" where
  "mantissa w = (if w = 32 then 23 else 52)"

definition signbit :: "'a::len word \<Rightarrow> bool" where
  "signbit v \<longleftrightarrow> bit v (LENGTH('a) - 1)"

definition fabs :: "'a::len word \<Rightarrow> 'a word" where
  "fabs v = v AND mask (LENGTH('a) - 1)"

definition infinity :: "'a::len word" where
  "infinity = mask (LENGTH('a) - 1) - mask (mantissa LENGTH('a))"

definition isnan :: "'a::len word \<Rightarrow> bool" where
  "isnan v \<longleftrightarrow> infinity < fabs v"

definition quiet_NaN :: "'a::len word" where
  "quiet_NaN = infinity OR push_bit (mantissa LENGTH('a) - 1) 1"

definition flip_sign :: "'a::len word \<Rightarrow> 'a word" where
  "flip_sign v = v XOR push_bit (LENGTH('a) - 1) 1"

definition is_zero :: "'a::len word \<Rightarrow> bool" where
  "is_zero v \<longleftrightarrow> fabs v = 0"

definition CanonNaN :: "'a::len word \<Rightarrow> 'a word" where
  "CanonNaN Val = (if isnan Val then quiet_NaN else Val)"

definition float_div :: "'a::len word fpu \<Rightarrow> 'a word \<Rightarrow> 'a word \<Rightarrow> 'a word" where
  "float_div X LHS RHS =
     (if is_zero RHS then
        if isnan LHS \<or> is_zero LHS then quiet_NaN
        else if signbit LHS \<noteq> signbit RHS then flip_sign infinity
        else infinity
      else CanonNaN (fp_arith X BO_DIV LHS RHS))"

definition float_min :: "'a::len word fpu \<Rightarrow> 'a word \<Rightarrow> 'a word \<Rightarrow> 'a word" where
  "float_min X LHS RHS =
     (if isnan LHS \<or> isnan RHS then quiet_NaN
      else if is_zero LHS \<and> is_zero RHS then if signbit LHS then LHS else RHS
      else if fp_compare X BO_LT RHS LHS then RHS else LHS)"

definition float_max :: "'a::len word fpu \<Rightarrow> 'a word \<Rightarrow> 'a word \<Rightarrow> 'a word" where
  "float_max X LHS RHS =
     (if isnan LHS \<or> isnan RHS then quiet_NaN
      else if is_zero LHS \<and> is_zero RHS then if signbit LHS then RHS else LHS
      else if fp_compare X BO_LT LHS RHS then RHS else LHS)"

definition copysign :: "'a::len word \<Rightarrow> 'a word \<Rightarrow> 'a word" where
  "copysign LHS RHS = (if signbit RHS then flip_sign (fabs LHS) else fabs LHS)"

definition float_bin :: "'a::len word fpu \<Rightarrow> BinaryOperator \<Rightarrow> 'a word \<Rightarrow> 'a word \<Rightarrow> 'a word res" where
  "float_bin X Op LHS RHS =
     (case Op of
        BO_DIV \<Rightarrow> Inr (float_div X LHS RHS)
      | BO_MIN \<Rightarrow> Inr (float_min X LHS RHS)
      | BO_MAX \<Rightarrow> Inr (float_max X LHS RHS)
      | BO_COPYSIGN \<Rightarrow> Inr (copysign LHS RHS)
      | _ \<Rightarrow> Inr (CanonNaN (fp_arith X Op LHS RHS)))"

definition math_op :: "'a::len word fpu \<Rightarrow> BinaryOperator \<Rightarrow> 'a word \<Rightarrow> 'a word" where
  "math_op X Op Val =
     (case Op of
        BM_ABS \<Rightarrow> fabs Val
      | BM_NEG \<Rightarrow>
          if Val AND push_bit (LENGTH('a) - 1) 1 \<noteq> 0 then Val AND NOT (push_bit (LENGTH('a) - 1) 1)
          else Val OR push_bit (LENGTH('a) - 1) 1
      | _ \<Rightarrow> CanonNaN (fp_math X Op Val))"

section \<open>Conversions\<close>

text \<open>\<open>FloatAttr::toIntMin\<close> and \<open>toIntMax\<close> by the widths of the float and of the integer.\<close>

definition toIntMin :: "nat \<Rightarrow> nat \<Rightarrow> bool \<Rightarrow> int" where
  "toIntMin f t Signed =
     (if \<not> Signed then - 1
      else if t = 32 then if f = 32 then - 2147483904 else - 2147483649
      else if f = 32 then - 9223373136366403584 else - 9223372036854777856)"

definition toIntMax :: "nat \<Rightarrow> bool \<Rightarrow> int" where
  "toIntMax t Signed =
     (if t = 32 then if Signed then 2147483648 else 4294967296
      else if Signed then 9223372036854775808 else 18446744073709551616)"

definition trunc_op :: "'f::len word fpu \<Rightarrow> bool \<Rightarrow> 'f word \<Rightarrow> 't::len word res" where
  "trunc_op X Signed Src =
     (if isnan Src then Inl (Throw (Named ''InvalidConversionToInteger''))
      else if fp_compare X BO_LE Src (fp_of_int X (toIntMin LENGTH('f) LENGTH('t) Signed)) \<or>
        fp_compare X BO_GE Src (fp_of_int X (toIntMax LENGTH('t) Signed)) then Inl (Throw (Named ''IntegerOverflow''))
      else Inr (of_int (fp_to_int X Src)))"

section \<open>The numeric instructions\<close>

record num_env =
  fpu32 :: "u32 fpu"
  fpu64 :: "u64 fpu"
  fp_demote :: "u64 \<Rightarrow> u32"
  fp_promote :: "u32 \<Rightarrow> u64"

text \<open>An instruction by the widths of its operands and of its result.\<close>

datatype numop =
    Un32 "u32 \<Rightarrow> u32 res" | Un64 "u64 \<Rightarrow> u64 res" | Cv32_64 "u32 \<Rightarrow> u64 res" | Cv64_32 "u64 \<Rightarrow> u32 res"
  | Bin32 "u32 \<Rightarrow> u32 \<Rightarrow> u32 res" | Bin64 "u64 \<Rightarrow> u64 \<Rightarrow> u64 res"
  | Cmp32 "u32 \<Rightarrow> u32 \<Rightarrow> bool" | Cmp64 "u64 \<Rightarrow> u64 \<Rightarrow> bool" | Keep

definition cmp_ops :: "num_env \<Rightarrow> (u8 \<times> numop) list" where
  "cmp_ops X =
     [(0x45, Un32 (\<lambda>v. Inr (of_bool (v = 0)))),
      (0x46, Cmp32 (int_cmp True BO_EQ)), (0x47, Cmp32 (int_cmp True BO_NE)),
      (0x48, Cmp32 (int_cmp True BO_LT)), (0x49, Cmp32 (int_cmp False BO_LT)),
      (0x4a, Cmp32 (int_cmp True BO_GT)), (0x4b, Cmp32 (int_cmp False BO_GT)),
      (0x4c, Cmp32 (int_cmp True BO_LE)), (0x4d, Cmp32 (int_cmp False BO_LE)),
      (0x4e, Cmp32 (int_cmp True BO_GE)), (0x4f, Cmp32 (int_cmp False BO_GE)),
      (0x50, Cv64_32 (\<lambda>v. Inr (of_bool (v = 0)))),
      (0x51, Cmp64 (int_cmp True BO_EQ)), (0x52, Cmp64 (int_cmp True BO_NE)),
      (0x53, Cmp64 (int_cmp True BO_LT)), (0x54, Cmp64 (int_cmp False BO_LT)),
      (0x55, Cmp64 (int_cmp True BO_GT)), (0x56, Cmp64 (int_cmp False BO_GT)),
      (0x57, Cmp64 (int_cmp True BO_LE)), (0x58, Cmp64 (int_cmp False BO_LE)),
      (0x59, Cmp64 (int_cmp True BO_GE)), (0x5a, Cmp64 (int_cmp False BO_GE)),
      (0x5b, Cmp32 (fp_compare (fpu32 X) BO_EQ)), (0x5c, Cmp32 (fp_compare (fpu32 X) BO_NE)),
      (0x5d, Cmp32 (fp_compare (fpu32 X) BO_LT)), (0x5e, Cmp32 (fp_compare (fpu32 X) BO_GT)),
      (0x5f, Cmp32 (fp_compare (fpu32 X) BO_LE)), (0x60, Cmp32 (fp_compare (fpu32 X) BO_GE)),
      (0x61, Cmp64 (fp_compare (fpu64 X) BO_EQ)), (0x62, Cmp64 (fp_compare (fpu64 X) BO_NE)),
      (0x63, Cmp64 (fp_compare (fpu64 X) BO_LT)), (0x64, Cmp64 (fp_compare (fpu64 X) BO_GT)),
      (0x65, Cmp64 (fp_compare (fpu64 X) BO_LE)), (0x66, Cmp64 (fp_compare (fpu64 X) BO_GE))]"

definition int32_ops :: "(u8 \<times> numop) list" where
  "int32_ops =
     [(0x67, Un32 (count_op BC_CLZ)), (0x68, Un32 (count_op BC_CTZ)), (0x69, Un32 (count_op BC_POP_COUNT)),
      (0x6a, Bin32 (int_bin True BO_ADD)), (0x6b, Bin32 (int_bin True BO_SUB)), (0x6c, Bin32 (int_bin True BO_MUL)),
      (0x6d, Bin32 (int_bin True BO_DIV_S)), (0x6e, Bin32 (int_bin False BO_DIV)),
      (0x6f, Bin32 (int_bin True BO_REM_S)), (0x70, Bin32 (int_bin False BO_REM_U)),
      (0x71, Bin32 (int_bin True BO_AND)), (0x72, Bin32 (int_bin True BO_OR)), (0x73, Bin32 (int_bin True BO_XOR)),
      (0x74, Bin32 (int_bin True BO_SHL)), (0x75, Bin32 (int_bin True BO_SHR)), (0x76, Bin32 (int_bin False BO_SHR)),
      (0x77, Bin32 (int_bin False BO_ROTL)), (0x78, Bin32 (int_bin False BO_ROTR))]"

definition int64_ops :: "(u8 \<times> numop) list" where
  "int64_ops =
     [(0x79, Un64 (count_op BC_CLZ)), (0x7a, Un64 (count_op BC_CTZ)), (0x7b, Un64 (count_op BC_POP_COUNT)),
      (0x7c, Bin64 (int_bin True BO_ADD)), (0x7d, Bin64 (int_bin True BO_SUB)), (0x7e, Bin64 (int_bin True BO_MUL)),
      (0x7f, Bin64 (int_bin True BO_DIV_S)), (0x80, Bin64 (int_bin False BO_DIV)),
      (0x81, Bin64 (int_bin True BO_REM_S)), (0x82, Bin64 (int_bin False BO_REM_U)),
      (0x83, Bin64 (int_bin True BO_AND)), (0x84, Bin64 (int_bin True BO_OR)), (0x85, Bin64 (int_bin True BO_XOR)),
      (0x86, Bin64 (int_bin True BO_SHL)), (0x87, Bin64 (int_bin True BO_SHR)), (0x88, Bin64 (int_bin False BO_SHR)),
      (0x89, Bin64 (int_bin False BO_ROTL)), (0x8a, Bin64 (int_bin False BO_ROTR))]"

definition float_ops :: "num_env \<Rightarrow> (u8 \<times> numop) list" where
  "float_ops X =
     [(0x8b, Un32 (\<lambda>v. Inr (math_op (fpu32 X) BM_ABS v))), (0x8c, Un32 (\<lambda>v. Inr (math_op (fpu32 X) BM_NEG v))),
      (0x8d, Un32 (\<lambda>v. Inr (math_op (fpu32 X) BM_CEIL v))), (0x8e, Un32 (\<lambda>v. Inr (math_op (fpu32 X) BM_FLOOR v))),
      (0x8f, Un32 (\<lambda>v. Inr (math_op (fpu32 X) BM_TRUNC v))), (0x90, Un32 (\<lambda>v. Inr (math_op (fpu32 X) BM_NEAREST v))),
      (0x91, Un32 (\<lambda>v. Inr (math_op (fpu32 X) BM_SQRT v))),
      (0x92, Bin32 (float_bin (fpu32 X) BO_ADD)), (0x93, Bin32 (float_bin (fpu32 X) BO_SUB)),
      (0x94, Bin32 (float_bin (fpu32 X) BO_MUL)), (0x95, Bin32 (float_bin (fpu32 X) BO_DIV)),
      (0x96, Bin32 (float_bin (fpu32 X) BO_MIN)), (0x97, Bin32 (float_bin (fpu32 X) BO_MAX)),
      (0x98, Bin32 (float_bin (fpu32 X) BO_COPYSIGN)),
      (0x99, Un64 (\<lambda>v. Inr (math_op (fpu64 X) BM_ABS v))), (0x9a, Un64 (\<lambda>v. Inr (math_op (fpu64 X) BM_NEG v))),
      (0x9b, Un64 (\<lambda>v. Inr (math_op (fpu64 X) BM_CEIL v))), (0x9c, Un64 (\<lambda>v. Inr (math_op (fpu64 X) BM_FLOOR v))),
      (0x9d, Un64 (\<lambda>v. Inr (math_op (fpu64 X) BM_TRUNC v))), (0x9e, Un64 (\<lambda>v. Inr (math_op (fpu64 X) BM_NEAREST v))),
      (0x9f, Un64 (\<lambda>v. Inr (math_op (fpu64 X) BM_SQRT v))),
      (0xa0, Bin64 (float_bin (fpu64 X) BO_ADD)), (0xa1, Bin64 (float_bin (fpu64 X) BO_SUB)),
      (0xa2, Bin64 (float_bin (fpu64 X) BO_MUL)), (0xa3, Bin64 (float_bin (fpu64 X) BO_DIV)),
      (0xa4, Bin64 (float_bin (fpu64 X) BO_MIN)), (0xa5, Bin64 (float_bin (fpu64 X) BO_MAX)),
      (0xa6, Bin64 (float_bin (fpu64 X) BO_COPYSIGN))]"

definition conv_ops :: "num_env \<Rightarrow> (u8 \<times> numop) list" where
  "conv_ops X =
     [(0xa7, Cv64_32 (\<lambda>v. Inr (ucast (v AND 0xFFFFFFFF)))),
      (0xa8, Un32 (trunc_op (fpu32 X) True)), (0xa9, Un32 (trunc_op (fpu32 X) False)),
      (0xaa, Cv64_32 (trunc_op (fpu64 X) True)), (0xab, Cv64_32 (trunc_op (fpu64 X) False)),
      (0xac, Cv32_64 (\<lambda>v. Inr (scast v))), (0xad, Cv32_64 (\<lambda>v. Inr (ucast v))),
      (0xae, Cv32_64 (trunc_op (fpu32 X) True)), (0xaf, Cv32_64 (trunc_op (fpu32 X) False)),
      (0xb0, Un64 (trunc_op (fpu64 X) True)), (0xb1, Un64 (trunc_op (fpu64 X) False)),
      (0xb2, Un32 (\<lambda>v. Inr (fp_of_int (fpu32 X) (sint v)))), (0xb3, Un32 (\<lambda>v. Inr (fp_of_int (fpu32 X) (uint v)))),
      (0xb4, Cv64_32 (\<lambda>v. Inr (fp_of_int (fpu32 X) (sint v)))), (0xb5, Cv64_32 (\<lambda>v. Inr (fp_of_int (fpu32 X) (uint v)))),
      (0xb6, Cv64_32 (\<lambda>v. Inr (fp_demote X v))),
      (0xb7, Cv32_64 (\<lambda>v. Inr (fp_of_int (fpu64 X) (sint v)))), (0xb8, Cv32_64 (\<lambda>v. Inr (fp_of_int (fpu64 X) (uint v)))),
      (0xb9, Un64 (\<lambda>v. Inr (fp_of_int (fpu64 X) (sint v)))), (0xba, Un64 (\<lambda>v. Inr (fp_of_int (fpu64 X) (uint v)))),
      (0xbb, Cv32_64 (\<lambda>v. Inr (fp_promote X v))),
      (0xbc, Keep), (0xbd, Keep), (0xbe, Keep), (0xbf, Keep),
      (0xc0, Un32 (\<lambda>v. Inr (scast (ucast v :: 8 word)))), (0xc1, Un32 (\<lambda>v. Inr (scast (ucast v :: 16 word)))),
      (0xc2, Un64 (\<lambda>v. Inr (scast (ucast v :: 8 word)))), (0xc3, Un64 (\<lambda>v. Inr (scast (ucast v :: 16 word)))),
      (0xc4, Un64 (\<lambda>v. Inr (scast (ucast v :: 32 word))))]"

definition num_op :: "num_env \<Rightarrow> u8 \<Rightarrow> numop option" where
  "num_op X Opcode = map_of (cmp_ops X @ int32_ops @ int64_ops @ float_ops X @ conv_ops X) Opcode"

section \<open>Exactness of the integer operations\<close>

lemma rotl_eq: "rotl v (k :: 'a::len word) = word_rotl (unat k) v"
proof (rule bit_word_eqI)
  fix n assume n: "n < LENGTH('a)"
  define r where "r = unat k mod LENGTH('a)"
  have r: "r < LENGTH('a)" by (simp add: r_def)
  have "bit (rotl v k) n \<longleftrightarrow> (r \<le> n \<and> bit v (n - r)) \<or> bit v ((LENGTH('a) - r) mod LENGTH('a) + n)"
    using n by (auto simp: rotl_def Let_def r_def bit_or_iff bit_push_bit_iff bit_drop_bit_eq)
  also have "\<dots> \<longleftrightarrow> bit v ((n + (LENGTH('a) - r)) mod LENGTH('a))"
  proof (cases "r \<le> n")
    case True
    then have "(n + (LENGTH('a) - r)) mod LENGTH('a) = n - r" using n r by (simp add: mod_if)
    moreover have "bit v ((LENGTH('a) - r) mod LENGTH('a) + n) \<longleftrightarrow> (r = 0 \<and> bit v n)"
      using n r True bit_imp_le_length [of v] by (cases "r = 0") fastforce+
    ultimately show ?thesis using True by auto
  next
    case False
    then show ?thesis using n r by (simp add: add.commute)
  qed
  finally show "bit (rotl v k) n = bit (word_rotl (unat k) v) n" using n by (simp add: bit_word_rotl_iff r_def)
qed

lemma rotr_eq: "rotr v (k :: 'a::len word) = word_rotr (unat k) v"
proof (rule bit_word_eqI)
  fix n assume n: "n < LENGTH('a)"
  define r where "r = unat k mod LENGTH('a)"
  have r: "r < LENGTH('a)" by (simp add: r_def)
  have "bit (rotr v k) n \<longleftrightarrow> bit v (r + n) \<or> ((LENGTH('a) - r) mod LENGTH('a) \<le> n \<and> bit v (n - (LENGTH('a) - r) mod LENGTH('a)))"
    using n by (auto simp: rotr_def Let_def r_def bit_or_iff bit_push_bit_iff bit_drop_bit_eq)
  also have "\<dots> \<longleftrightarrow> bit v ((n + r) mod LENGTH('a))"
  proof (cases "n + r < LENGTH('a)")
    case True
    then show ?thesis using r by (cases "r = 0") (auto simp: add.commute)
  next
    case False
    then have "r \<noteq> 0" "\<not> bit v (r + n)" "n - (LENGTH('a) - r) = n + r - LENGTH('a)" "LENGTH('a) - r \<le> n" using n r bit_imp_le_length [of v] by fastforce+
    then show ?thesis using False r n by (simp add: mod_if)
  qed
  finally show "bit (rotr v k) n = bit (word_rotr (unat k) v) n" using n by (simp add: bit_word_rotr_iff r_def mod_add_right_eq)
qed

lemma clz_loop_exact:
  "\<exists>j \<le> i. bit v j \<Longrightarrow> clz_loop v i \<le> i \<and> bit v (i - clz_loop v i) \<and> (\<forall>j. i - clz_loop v i < j \<and> j \<le> i \<longrightarrow> \<not> bit v j)"
proof (induction i)
  case (Suc i)
  show ?case
  proof (cases "bit v (Suc i)")
    case False
    then have "\<exists>j \<le> i. bit v j" using Suc.prems by (auto simp: le_Suc_eq)
    then have "clz_loop v i \<le> i" "bit v (i - clz_loop v i)" "\<forall>j. i - clz_loop v i < j \<and> j \<le> i \<longrightarrow> \<not> bit v j" using Suc.IH by auto
    then show ?thesis using False by (auto simp: le_Suc_eq)
  qed auto
qed auto

lemma ctz_loop_exact:
  "\<exists>j. k \<le> j \<and> j < k + n \<and> bit v j \<Longrightarrow>
   bit v (ctz_loop v n k) \<and> k \<le> ctz_loop v n k \<and> (\<forall>j. k \<le> j \<and> j < ctz_loop v n k \<longrightarrow> \<not> bit v j)"
proof (induction v n k rule: ctz_loop.induct)
  case (2 v n k)
  show ?case
  proof (cases "bit v k")
    case False
    obtain j where j: "k \<le> j" "j < k + Suc n" "bit v j" using "2.prems" by blast
    then have "k + 1 \<le> j \<and> j < k + 1 + n \<and> bit v j" using False by (cases "j = k") auto
    then have "bit v (ctz_loop v n (k + 1)) \<and> k + 1 \<le> ctz_loop v n (k + 1) \<and> (\<forall>j. k + 1 \<le> j \<and> j < ctz_loop v n (k + 1) \<longrightarrow> \<not> bit v j)"
      using "2.IH" False by blast
    moreover have "k = j \<or> k + 1 \<le> j" if "k \<le> j" for j using that by auto
    ultimately show ?thesis using False by auto
  qed auto
qed auto

lemma word_bit_exists: "v \<noteq> 0 \<Longrightarrow> \<exists>j < LENGTH('a). bit (v :: 'a::len word) j"
  by (metis bit_word_eqI bit_0_eq bot_apply bot_bool_def)

text \<open>The number of zero bits before the highest and after the lowest set bit, and the number of set bits.\<close>

definition leading :: "'a::len word \<Rightarrow> nat \<Rightarrow> bool" where
  "leading v n \<longleftrightarrow> n \<le> LENGTH('a) \<and> (\<forall>i < n. \<not> bit v (LENGTH('a) - 1 - i)) \<and> (n < LENGTH('a) \<longrightarrow> bit v (LENGTH('a) - 1 - n))"

definition trailing :: "'a::len word \<Rightarrow> nat \<Rightarrow> bool" where
  "trailing v n \<longleftrightarrow> n \<le> LENGTH('a) \<and> (\<forall>i < n. \<not> bit v i) \<and> (n < LENGTH('a) \<longrightarrow> bit v n)"

lemma count_op_clz: "\<exists>n. leading v n \<and> count_op BC_CLZ v = Inr (of_nat n)"
proof (cases "v = 0")
  case True
  then show ?thesis by (auto simp: count_op_def leading_def)
next
  case False
  let ?i = "LENGTH('a) - 1"
  obtain j where j: "j < LENGTH('a)" "bit v j" using word_bit_exists [OF False] by blast
  then have "\<exists>j \<le> ?i. bit v j" by (intro exI [of _ j]) simp
  from clz_loop_exact [OF this] have c: "clz_loop v ?i \<le> ?i" "bit v (?i - clz_loop v ?i)" "\<forall>j. ?i - clz_loop v ?i < j \<and> j \<le> ?i \<longrightarrow> \<not> bit v j"
    by auto
  have "leading v (clz_loop v ?i)" unfolding leading_def
  proof (intro conjI allI impI)
    show "clz_loop v ?i \<le> LENGTH('a)" using c(1) by simp
    show "\<not> bit v (?i - i)" if "i < clz_loop v ?i" for i using c(1,3) that by auto
    show "bit v (?i - clz_loop v ?i)" by (rule c(2))
  qed
  then show ?thesis using False by (auto simp: count_op_def)
qed

lemma count_op_ctz: "\<exists>n. trailing v n \<and> count_op BC_CTZ v = Inr (of_nat n)"
proof (cases "v = 0")
  case True
  then show ?thesis by (auto simp: count_op_def trailing_def)
next
  case False
  let ?n = "ctz_loop v (LENGTH('a) + 1) 0"
  obtain j where j: "j < LENGTH('a)" "bit v j" using word_bit_exists [OF False] by blast
  then have "\<exists>j. 0 \<le> j \<and> j < 0 + (LENGTH('a) + 1) \<and> bit v j" by (intro exI [of _ j]) simp
  from ctz_loop_exact [OF this] have c: "bit v ?n" "\<forall>j. 0 \<le> j \<and> j < ?n \<longrightarrow> \<not> bit v j" by blast+
  have "trailing v ?n" unfolding trailing_def using bit_imp_le_length [OF c(1)] c by (simp del: ctz_loop.simps)
  moreover have "count_op BC_CTZ v = Inr (of_nat ?n)" using False by (simp add: count_op_def del: ctz_loop.simps)
  ultimately show ?thesis by (intro exI conjI)
qed

lemma count_op_pop: "count_op BC_POP_COUNT v = Inr (of_nat (card {i. bit (v :: 'a::len word) i}))"
proof -
  have "{i. bit v i} = {i. i < LENGTH('a) \<and> bit v i}" using bit_imp_le_length [of v] by auto
  also have "\<dots> = set (filter (bit v) [0..<LENGTH('a)])" by auto
  finally have "card {i. bit v i} = length (filter (bit v) [0..<LENGTH('a)])" by (metis distinct_card distinct_filter distinct_upt)
  then show ?thesis by (simp add: count_op_def)
qed

text \<open>Signed division is exact, unless it traps.\<close>

lemma sint_of_int_range:
  "- (2 ^ (LENGTH('a) - 1)) \<le> x \<Longrightarrow> x < 2 ^ (LENGTH('a) - 1) \<Longrightarrow> sint (of_int x :: 'a::len word) = x"
  by (simp add: signed_of_int signed_take_bit_int_eq_self)

lemma sdiv_range:
  fixes k l :: int
  assumes "l \<noteq> 0" and "- m \<le> k" "k < m" "- m \<le> l" "l < m" and "k = - m \<longrightarrow> l \<noteq> - 1"
  shows "- m \<le> k sdiv l" "k sdiv l < m" "- m \<le> k smod l" "k smod l < m"
proof -
  show "- m \<le> k smod l" "k smod l < m" using smod_int_range [OF assms(1), of k] assms(4,5) by auto
  have r: "\<bar>k sdiv l\<bar> \<le> \<bar>k\<bar>" using sdiv_int_range [of k l] by auto
  then show "- m \<le> k sdiv l" using assms(2,3) by auto
  show "k sdiv l < m"
  proof (cases "k = - m")
    case True
    then have k: "k < 0" using assms(2,3) by auto
    consider "l = 1" | "1 < \<bar>l\<bar>" using assms(1,6) True by arith
    then show ?thesis
    proof cases
      case 2
      then have "\<bar>k\<bar> div \<bar>l\<bar> < \<bar>k\<bar>" using k by (intro int_div_less_self) auto
      moreover have "\<bar>k sdiv l\<bar> = \<bar>k\<bar> div \<bar>l\<bar>" using assms(1) k by (auto simp: signed_divide_int_def abs_mult pos_imp_zdiv_nonneg_iff)
      ultimately show ?thesis using True k by auto
    qed (use assms(3) in simp)
  qed (use r assms(2,3) in auto)
qed

lemma div_s_exact:
  fixes a b :: "'a::len word"
  assumes "b \<noteq> 0" and "\<not> (a = push_bit (LENGTH('a) - 1) 1 \<and> b = - 1)"
  obtains q r where "div_s a b = Inr q" "rem_s a b = Inr r" "sint a = sint q * sint b + sint r" "\<bar>sint r\<bar> < \<bar>sint b\<bar>"
    "sint r = 0 \<or> sgn (sint r) = sgn (sint a)"
proof -
  let ?m = "2 ^ (LENGTH('a) - 1) :: int"
  have i: "of_int (sint x) = x" for x :: "'a word" by simp
  have b: "sint b \<noteq> 0" using assms(1) i [of b] by (metis of_int_0)
  have "a = push_bit (LENGTH('a) - 1) 1" if "sint a = - ?m"
  proof -
    have "a = of_int (- ?m)" using i [of a] unfolding that by (rule sym)
    also have "\<dots> = - (2 ^ (LENGTH('a) - 1))" by simp
    also have "\<dots> = push_bit (LENGTH('a) - 1) 1" by (simp add: push_bit_eq_mult eq_neg_iff_add_eq_0 flip: mult_2 power_Suc)
    finally show ?thesis .
  qed
  then have "sint a = - ?m \<longrightarrow> sint b \<noteq> - 1" using assms(2) i [of b] by (metis of_int_1 of_int_minus)
  note r = sdiv_range [OF b sint_ge sint_lt sint_ge sint_lt this]
  have q: "sint (of_int (sint a sdiv sint b) :: 'a word) = sint a sdiv sint b" "sint (of_int (sint a smod sint b) :: 'a word) = sint a smod sint b"
    using r by (auto intro!: sint_of_int_range)
  have "\<bar>sint a smod sint b\<bar> < \<bar>sint b\<bar>" using smod_int_range [OF b, of "sint a"] by auto
  moreover have "sint a smod sint b = 0 \<or> sgn (sint a smod sint b) = sgn (sint a)" 
  proof -
    have "0 \<le> \<bar>sint a\<bar> mod \<bar>sint b\<bar>" using b by simp
    then have "\<bar>sint a\<bar> mod \<bar>sint b\<bar> = 0 \<or> sgn (\<bar>sint a\<bar> mod \<bar>sint b\<bar>) = 1" unfolding sgn_1_pos by linarith
    then show ?thesis by (auto simp: signed_modulo_int_def sgn_mult)
  qed
  moreover have "div_s a b = Inr (of_int (sint a sdiv sint b))" "rem_s a b = Inr (of_int (sint a smod sint b))"
    using assms by (auto simp: div_s_def rem_s_def)
  ultimately show ?thesis
    using that [of "of_int (sint a sdiv sint b)" "of_int (sint a smod sint b)"] unfolding q by (simp add: sdiv_mult_smod_eq)
qed

text \<open>Where C++ defines the other operators, they are those of the words.\<close>

lemma signed_result_word: "signed_result x = Inr r \<Longrightarrow> r = of_int x"
  by (simp add: signed_result_def split: if_splits)

lemma arith_exact:
  "int_bin s BO_ADD a b = Inr r \<Longrightarrow> r = a + b" "int_bin s BO_SUB a b = Inr r \<Longrightarrow> r = a - b"
  "int_bin s BO_MUL a b = Inr r \<Longrightarrow> r = a * b"
  by (auto simp: int_bin_def dest!: signed_result_word split: if_splits)

lemma shift_exact:
  "int_bin s BO_SHL a (b :: 'a::len word) = Inr r \<Longrightarrow> r = push_bit (unat b mod LENGTH('a)) a"
  "int_bin s BO_SHR a b = Inr r \<Longrightarrow> r = (if s then signed_drop_bit else drop_bit) (unat b mod LENGTH('a)) a"
  by (auto simp: int_bin_def shl_def shr_def split: if_splits)

lemma unsigned_defined:
  "int_bin False BO_ADD a b = Inr (a + b)" "int_bin False BO_SUB a b = Inr (a - b)" "int_bin False BO_MUL a b = Inr (a * b)"
  by (simp_all add: int_bin_def)

end
