(* ===== verification/Wasm_Instance.thy ===== *)
theory Wasm_Instance
  imports Wasm_Numeric
begin

text \<open>
  Instances of WebAssembly modules (\<open>src/runtime/instance.h\<close> and \<open>.cpp\<close>) and their creation
  (\<open>src/action/instantiator.cpp\<close>), with linear memories that are allocated by \<open>malloc\<close>.
\<close>

section \<open>The instance\<close>

datatype FunctionKind = ByteCode | Native

text \<open>The pointer of a native function is in \<open>FCodePtr\<close>, as in the code.\<close>

record FunctionInstance =
  FNumParamCells :: nat
  FNumLocalCells :: nat
  FMaxStackSize :: u32
  FMaxBlockDepth :: nat
  FCodeSize :: nat
  FKind :: FunctionKind
  FNumReturnCells :: nat
  FReturnTypes :: "WASMType list"
  FParamTypes :: "WASMType list"
  FuncType :: TypeEntry
  FLocalTypes :: "WASMType list"
  FLocalOffsets :: "u32 list"
  FCodePtr :: nat

definition getLocalType :: "FunctionInstance \<Rightarrow> nat \<Rightarrow> WASMType res" where
  "getLocalType F i =
     (if i \<ge> length (FParamTypes F) + length (FLocalTypes F) then Inl Abort
      else if i < length (FParamTypes F) then Inr (FParamTypes F ! i)
      else Inr (FLocalTypes F ! (i - length (FParamTypes F))))"

definition getLocalOffset :: "FunctionInstance \<Rightarrow> nat \<Rightarrow> u32 res" where
  "getLocalOffset F i =
     (if i \<ge> length (FParamTypes F) + length (FLocalTypes F) then Inl Abort
      else if i < length (FLocalOffsets F) then Inr (FLocalOffsets F ! i)
      else Inl UB)"

record TableInstance =
  CurSize :: u32
  TMaxSize :: u32
  Elements :: "u32 list"

text \<open>\<open>MemBase\<close>, \<open>MemEnd\<close> and \<open>MemSize\<close> are the list of the bytes.\<close>

record MemoryInstance =
  CurPages :: u32
  MMaxPages :: u32
  MemData :: "u8 list"

record GlobalInstance =
  GIType :: WASMType
  GIMutable :: bool
  GIOffset :: u32

record Instance =
  Functions :: "FunctionInstance list"
  Globals :: "GlobalInstance list"
  GlobalVarData :: "u8 list"
  Tables :: "TableInstance list"
  Memories :: "MemoryInstance list"
  IGas :: u64

definition getFunctionInst :: "nat \<Rightarrow> Instance \<Rightarrow> FunctionInstance res" where
  "getFunctionInst i I = (if i < length (Functions I) then Inr (Functions I ! i) else Inl UB)"

definition getTableInst :: "nat \<Rightarrow> Instance \<Rightarrow> TableInstance res" where
  "getTableInst i I = (if i < length (Tables I) then Inr (Tables I ! i) else Inl Abort)"

definition getGlobalAddr :: "nat \<Rightarrow> Instance \<Rightarrow> nat res" where
  "getGlobalAddr i I = (if i < length (Globals I) then Inr (unat (GIOffset (Globals I ! i))) else Inl Abort)"

definition inst_getGlobalType :: "nat \<Rightarrow> Instance \<Rightarrow> WASMType res" where
  "inst_getGlobalType i I = (if i < length (Globals I) then Inr (GIType (Globals I ! i)) else Inl Abort)"

section \<open>Little-endian values\<close>

fun le_word :: "u8 list \<Rightarrow> 'a::len word" where
  "le_word [] = 0"
| "le_word (b # bs) = ucast b + 256 * le_word bs"

definition le_bytes :: "nat \<Rightarrow> 'a::len word \<Rightarrow> u8 list" where
  "le_bytes n v = map (\<lambda>i. ucast (drop_bit (8 * i) v)) [0..<n]"

lemma length_le_bytes [simp]: "length (le_bytes n v) = n"
  by (simp add: le_bytes_def)

section \<open>Growing a memory\<close>

definition DefaultBytesNumPerPage :: nat where
  "DefaultBytesNumPerPage = 65536"

text \<open>\<open>alloc n\<close>: there is memory for \<open>n\<close> bytes. New bytes are zero.\<close>

definition growLinearMemory :: "(nat \<Rightarrow> bool) \<Rightarrow> nat \<Rightarrow> u32 \<Rightarrow> Instance \<Rightarrow> bool \<times> Instance" where
  "growLinearMemory alloc m GrowPagesDelta I =
     (if m \<ge> length (Memories I) then (False, I)
      else if GrowPagesDelta = 0 then (True, I)
      else
        let Mem = Memories I ! m;
            NewMemPages = CurPages Mem + GrowPagesDelta in
        if NewMemPages < CurPages Mem \<or> NewMemPages > MMaxPages Mem then (False, I)
        else
          let NewMemSize = unat NewMemPages * DefaultBytesNumPerPage in
          if NewMemSize \<ge> UINT32_MAX then (False, I)
          else if \<not> alloc NewMemSize then (False, I)
          else (True, I\<lparr>Memories := (Memories I)[m := Mem\<lparr>CurPages := NewMemPages,
            MemData := MemData Mem @ replicate (NewMemSize - length (MemData Mem)) 0\<rparr>]\<rparr>))"

section \<open>Creating an instance\<close>

text \<open>\<open>Layout.GlobalVarSize\<close> is rounded up to the alignment.\<close>

definition Alignment :: nat where
  "Alignment = 8"

definition align_up :: "nat \<Rightarrow> nat \<Rightarrow> nat" where
  "align_up n a = (n + a - 1) div a * a"

fun init_bytes :: "InitExpr \<Rightarrow> u8 list" where
  "init_bytes (GlobalIdxExpr v) = le_bytes 4 v"
| "init_bytes (I32Expr v) = le_bytes 4 v"
| "init_bytes (I64Expr v) = le_bytes 8 v"
| "init_bytes (F32Expr bs) = bs"
| "init_bytes (F64Expr bs) = bs"

definition global_inst :: "GlobalEntry \<Rightarrow> GlobalInstance" where
  "global_inst G = \<lparr>GIType = GType G, GIMutable = Mutable G, GIOffset = Offset G\<rparr>"

definition init_global :: "Module \<Rightarrow> GlobalEntry \<Rightarrow> u8 list \<Rightarrow> u8 list res" where
  "init_global M G D =
     bindE (getWASMTypeSize (GType G)) (\<lambda>Size.
     bindE
       (case GInitExprVal G of
          GlobalIdxExpr i \<Rightarrow>
            if unat i < length (InternalGlobalTable M) then Inr (GInitExprVal (InternalGlobalTable M ! unat i)) else Inl UB
        | e \<Rightarrow> Inr e) (\<lambda>InitExpr.
     if length (init_bytes InitExpr) < unat Size then Inl UB
     else mem_write D (unat (Offset G)) (take (unat Size) (init_bytes InitExpr))))"

fun init_globals :: "Module \<Rightarrow> GlobalEntry list \<Rightarrow> u8 list \<Rightarrow> u8 list res" where
  "init_globals M [] D = Inr D"
| "init_globals M (G # Gs) D = bindE (init_global M G D) (init_globals M Gs)"

definition instantiateGlobals :: "Module \<Rightarrow> Instance \<Rightarrow> Instance res" where
  "instantiateGlobals M I =
     bindE (init_globals M (InternalGlobalTable M) (replicate (align_up (unat (GlobalVarSize M)) Alignment) 0)) (\<lambda>D.
     Inr (I\<lparr>Globals := map global_inst (ImportGlobalTable M @ InternalGlobalTable M), GlobalVarData := D\<rparr>))"

definition native_inst :: "TypeEntry \<Rightarrow> ImportFunctionEntry \<Rightarrow> FunctionInstance" where
  "native_inst Type E = \<lparr>FNumParamCells = unat (NumParamCells Type), FNumLocalCells = 0, FMaxStackSize = 0,
     FMaxBlockDepth = 0, FCodeSize = 0, FKind = Native, FNumReturnCells = NumReturnCells Type mod 16,
     FReturnTypes = ReturnTypes Type, FParamTypes = ParamTypes Type, FuncType = Type, FLocalTypes = [], FLocalOffsets = [],
     FCodePtr = FuncPtr E\<rparr>"

definition bytecode_inst :: "TypeEntry \<Rightarrow> CodeEntry \<Rightarrow> FunctionInstance" where
  "bytecode_inst Type C = \<lparr>FNumParamCells = unat (NumParamCells Type), FNumLocalCells = unat (NumLocalCells C),
     FMaxStackSize = CMaxStackSize C, FMaxBlockDepth = CMaxBlockDepth C, FCodeSize = unat (CodeSize C), FKind = ByteCode,
     FNumReturnCells = NumReturnCells Type mod 16, FReturnTypes = ReturnTypes Type, FParamTypes = ParamTypes Type,
     FuncType = Type, FLocalTypes = LocalTypes C, FLocalOffsets = LocalOffsets C, FCodePtr = CodePtr C\<rparr>"

definition function_inst :: "Module \<Rightarrow> nat \<Rightarrow> FunctionInstance res" where
  "function_inst M i =
     bindE (getFunctionTypeIdx i M) (\<lambda>TypeIdx.
     if TypeIdx \<ge> length (TypeTable M) then Inl UB
     else
       let Type = TypeTable M ! TypeIdx; n = length (ImportFunctionTable M) in
       if i < n then Inr (native_inst Type (ImportFunctionTable M ! i))
       else if i - n < length (CodeTable M) then Inr (bytecode_inst Type (CodeTable M ! (i - n)))
       else Inl UB)"

fun mapE :: "('a \<Rightarrow> 'b res) \<Rightarrow> 'a list \<Rightarrow> 'b list res" where
  "mapE f [] = Inr []"
| "mapE f (x # xs) = bindE (f x) (\<lambda>y. bindE (mapE f xs) (\<lambda>ys. Inr (y # ys)))"

definition instantiateFunctions :: "Module \<Rightarrow> Instance \<Rightarrow> Instance res" where
  "instantiateFunctions M I =
     bindE (mapE (function_inst M) [0..<getNumTotalFunctions M]) (\<lambda>Fs. Inr (I\<lparr>Functions := Fs\<rparr>))"

definition table_inst :: "TableEntry \<Rightarrow> TableInstance" where
  "table_inst T = \<lparr>CurSize = InitSize T, TMaxSize = MaxSize T, Elements = replicate (unat (InitSize T)) (- 1)\<rparr>"

text \<open>The offset of an element or data segment.\<close>

definition segment_offset :: "InitExpr \<Rightarrow> Instance \<Rightarrow> u32 res" where
  "segment_offset e I =
     (case e of
        GlobalIdxExpr i \<Rightarrow>
          bindE (getGlobalAddr (unat i) I) (\<lambda>p. bindE (mem_read (GlobalVarData I) p 4) (\<lambda>bs. Inr (le_word bs)))
      | I32Expr v \<Rightarrow> Inr v
      | _ \<Rightarrow> Inl UB)"

definition init_elements :: "ElemEntry \<Rightarrow> Instance \<Rightarrow> Instance res" where
  "init_elements E I =
     (if unat (ETableIdx E) \<ge> length (Tables I) then Inl UB
      else
        let T = Tables I ! unat (ETableIdx E); NumFuncIdxs = of_nat (length (FuncIdxs E)) in
        bindE (segment_offset (EInitExprVal E) I) (\<lambda>Off.
        if Off > CurSize T \<or> Off + NumFuncIdxs > CurSize T then Inl (Throw (Named ''ElementsSegmentDoesNotFit''))
        else if unat Off + length (FuncIdxs E) > length (Elements T) then Inl UB
        else Inr (I\<lparr>Tables := (Tables I)[unat (ETableIdx E) := T\<lparr>Elements :=
          take (unat Off) (Elements T) @ FuncIdxs E @ drop (unat Off + length (FuncIdxs E)) (Elements T)\<rparr>]\<rparr>)))"

fun init_tables :: "ElemEntry list \<Rightarrow> Instance \<Rightarrow> Instance res" where
  "init_tables [] I = Inr I"
| "init_tables (E # Es) I = bindE (init_elements E I) (init_tables Es)"

text \<open>The elements of every table start at the same place; there is at most one table.\<close>

definition instantiateTables :: "Module \<Rightarrow> Instance \<Rightarrow> Instance res" where
  "instantiateTables M I =
     init_tables (ElementTable M) (I\<lparr>Tables := map table_inst (ImportTableTable M @ InternalTableTable M)\<rparr>)"

definition checkAndUpdateMemPages :: "u32 \<Rightarrow> u32 \<Rightarrow> u32 \<Rightarrow> u32 res" where
  "checkAndUpdateMemPages VmMaxMemPages CurMemPages MaxMemPages =
     (if VmMaxMemPages > 0 then
        if CurMemPages > VmMaxMemPages then Inl (Throw (Named ''MemorySizeTooLarge'')) else Inr (min MaxMemPages VmMaxMemPages)
      else Inr MaxMemPages)"

definition init_memory :: "u8 list \<Rightarrow> DataEntry \<Rightarrow> Instance \<Rightarrow> Instance res" where
  "init_memory Bytes D I =
     (if unat (MemIdx D) \<ge> length (Memories I) then Inl UB
      else
        let M = Memories I ! unat (MemIdx D) in
        bindE (segment_offset (DInitExprVal D) I) (\<lambda>Off.
        if unat Off > length (MemData M) \<or> unat Off + unat (DSize D) \<ge> 2 ^ 32 \<or> unat Off + unat (DSize D) > length (MemData M)
        then Inl (Throw (Named ''DataSegmentDoesNotFit''))
        else
          bindE (mem_read Bytes (unat (DOffset D)) (unat (DSize D))) (\<lambda>Seg.
          bindE (mem_write (MemData M) (unat Off) Seg) (\<lambda>New.
          Inr (I\<lparr>Memories := (Memories I)[unat (MemIdx D) := M\<lparr>MemData := New\<rparr>]\<rparr>)))))"

fun initMemoryByDataSegments :: "u8 list \<Rightarrow> DataEntry list \<Rightarrow> Instance \<Rightarrow> Instance res" where
  "initMemoryByDataSegments Bytes [] I = Inr I"
| "initMemoryByDataSegments Bytes (D # Ds) I = bindE (init_memory Bytes D I) (initMemoryByDataSegments Bytes Ds)"

text \<open>
  \<open>CurPages\<close> of the new instance is read before it is written when the maximum is zero; \<open>fresh\<close> is what the
  allocated memory holds there.
\<close>

definition new_memory :: "(nat \<Rightarrow> bool) \<Rightarrow> u32 \<Rightarrow> u32 \<Rightarrow> MemoryEntry \<Rightarrow> bool \<Rightarrow> MemoryInstance res" where
  "new_memory alloc fresh VmMaxMemPages E Imported =
     bindE (checkAndUpdateMemPages VmMaxMemPages (InitPages E)
       (if \<not> Imported \<and> MaxPages E = 0 then fresh else MaxPages E)) (\<lambda>MaxMemPages.
     let TotalMemSize = unat (InitPages E) * DefaultBytesNumPerPage in
     if TotalMemSize > UINT32_MAX then Inl Abort
     else if TotalMemSize > 0 \<and> \<not> alloc TotalMemSize then Inl Abort
     else Inr \<lparr>CurPages = InitPages E, MMaxPages = MaxMemPages, MemData = replicate TotalMemSize 0\<rparr>)"

definition instantiateMemories :: "(nat \<Rightarrow> bool) \<Rightarrow> u32 \<Rightarrow> u32 \<Rightarrow> u8 list \<Rightarrow> Module \<Rightarrow> Instance \<Rightarrow> Instance res" where
  "instantiateMemories alloc fresh VmMaxMemPages Bytes M I =
     (if getNumTotalMemories M > 1 then Inl (Throw (Named ''TooManyMemories''))
      else
        bindE (mapE (\<lambda>E. new_memory alloc fresh VmMaxMemPages E True) (ImportMemoryTable M)) (\<lambda>Imported.
        bindE (mapE (\<lambda>E. new_memory alloc fresh VmMaxMemPages E False) (InternalMemoryTable M)) (\<lambda>Internal.
        initMemoryByDataSegments Bytes (DataTable M) (I\<lparr>Memories := Imported @ Internal\<rparr>))))"

definition new_Instance :: "u64 \<Rightarrow> Instance" where
  "new_Instance GasLimit = \<lparr>Functions = [], Globals = [], GlobalVarData = [], Tables = [], Memories = [], IGas = GasLimit\<rparr>"

text \<open>\<open>instantiate\<close> up to the call of the start function.\<close>

definition instantiate :: "(nat \<Rightarrow> bool) \<Rightarrow> u32 \<Rightarrow> u32 \<Rightarrow> u8 list \<Rightarrow> Module \<Rightarrow> u64 \<Rightarrow> Instance res" where
  "instantiate alloc fresh VmMaxMemPages Bytes M GasLimit =
     bindE (instantiateGlobals M (new_Instance GasLimit)) (\<lambda>I.
     bindE (instantiateFunctions M I) (\<lambda>I.
     bindE (instantiateTables M I) (\<lambda>I.
     instantiateMemories alloc fresh VmMaxMemPages Bytes M I)))"

end
