(* ===== verification/Wasm_Interp.thy ===== *)
theory Wasm_Interp
  imports Wasm_Instance
begin

text \<open>
  The WebAssembly interpreter (\<open>src/action/interpreter.h\<close> and \<open>.cpp\<close>) and its entry
  (\<open>Runtime::callWasmFunctionInInterpMode\<close>), in the build without checked arithmetic and without the DWASM limits.

  The value stack of a frame is the list of its cells, the top first, and the control stack is the list of its blocks.
  A pointer into the value stack is the number of cells below it. The cells of the arguments belong to the callee
  until it returns: it uses them as its first local variables, and the caller's cells above them are not read again.
  The local variables that \<open>interpret\<close> keeps outside the frame, such as \<open>Ip\<close>, are the fields of the current frame.
  Pointers into the code are indices into the binary \<open>D\<close>.
\<close>

section \<open>Reading code\<close>

fun safe_leb_loop :: "u8 list \<Rightarrow> 'a::len word \<Rightarrow> nat \<Rightarrow> nat \<Rightarrow> ('a word \<times> nat \<times> nat \<times> u8) res" where
  "safe_leb_loop [] Result Shift Ip = Inl UB"
| "safe_leb_loop (Byte # Bytes) Result Shift Ip =
     (if Shift \<ge> LENGTH('a) then Inl UB
      else
        let Result = Result OR push_bit Shift (ucast (Byte AND 0x7f));
            Shift = Shift + 7 in
        if Byte AND 0x80 = 0 then Inr (Result, Shift, Ip + 1, Byte)
        else safe_leb_loop Bytes Result Shift (Ip + 1))"

definition readSafeLEBNumber :: "bool \<Rightarrow> u8 list \<Rightarrow> nat \<Rightarrow> ('a::len word \<times> nat) res" where
  "readSafeLEBNumber Signed D Ip =
     bindE (safe_leb_loop (drop Ip D) (0 :: 'a word) 0 Ip) (\<lambda>(Result, Shift, Ip, Byte).
     if Signed \<and> Shift < LENGTH('a) \<and> Byte AND 0x40 \<noteq> 0 then Inr (Result OR push_bit Shift (- 1), Ip)
     else Inr (Result, Ip))"

fun skip_leb :: "u8 list \<Rightarrow> nat" where
  "skip_leb [] = 0"
| "skip_leb (b # bs) = (if b AND 0x80 = 0 then 1 else Suc (skip_leb bs))"

text \<open>The width is that of the template argument.\<close>

definition skipLEBNumber :: "nat \<Rightarrow> u8 list \<Rightarrow> nat \<Rightarrow> nat \<Rightarrow> nat res" where
  "skipLEBNumber w D Ip EndPtr =
     (let EndPtr = (if Ip + MaxBytes w + 1 < EndPtr then Ip + MaxBytes w + 1 else EndPtr);
          p = Ip + skip_leb (take (EndPtr - Ip) (drop Ip D)) in
      if p \<ge> EndPtr then Inl Abort else Inr p)"

text \<open>A type that is not known is left unread, one byte before it.\<close>

definition skipBlockType :: "u8 list \<Rightarrow> nat \<Rightarrow> nat \<Rightarrow> nat res" where
  "skipBlockType D Ip EndPtr =
     (if Ip \<ge> length D then Inl UB
      else if getWASMBlockTypeFromOpcode (D ! Ip) = ERROR_TYPE then
        bindE (readLEBNumber False (take (EndPtr - (Ip - 1)) (drop (Ip - 1) D)) :: (u32 \<times> nat) res) (\<lambda>_. Inr (Ip - 1))
      else Inr (Ip + 1))"

definition readFixedNumber :: "nat \<Rightarrow> u8 list \<Rightarrow> nat \<Rightarrow> nat \<Rightarrow> ('a::len word \<times> nat) res" where
  "readFixedNumber Size D Ip EndPtr =
     (if Ip + Size > EndPtr then Inr (0, EndPtr)
      else bindE (mem_read D Ip Size) (\<lambda>bs. Inr (le_word bs, Ip + Size)))"

section \<open>Finding the end of a block\<close>

fun skip_targets :: "nat \<Rightarrow> u8 list \<Rightarrow> nat \<Rightarrow> nat \<Rightarrow> nat res" where
  "skip_targets 0 D p EndPtr = Inr p"
| "skip_targets (Suc n) D p EndPtr = bindE (skipLEBNumber 32 D p EndPtr) (\<lambda>p. skip_targets n D p EndPtr)"

abbreviation GET_GLOBAL_64 :: u8 where "GET_GLOBAL_64 \<equiv> 0x1d"

abbreviation SET_GLOBAL_64 :: u8 where "SET_GLOBAL_64 \<equiv> 0x1e"

text \<open>The immediate operands of an instruction that does not start or end a block.\<close>

definition skip_operands :: "u8 list \<Rightarrow> u8 \<Rightarrow> nat \<Rightarrow> nat \<Rightarrow> nat res" where
  "skip_operands D Opcode p EndPtr =
     (if Opcode \<in> {UNREACHABLE, NOP, RETURN, DROP, DROP_64, SELECT, SELECT_64} \<or> 0x45 \<le> Opcode \<and> Opcode \<le> 0xc4 then Inr p
      else if Opcode \<in> {BR, BR_IF, GET_GLOBAL_64, SET_GLOBAL_64, GET_LOCAL, SET_LOCAL, TEE_LOCAL, GET_GLOBAL, SET_GLOBAL, I32_CONST,
        MEMORY_SIZE, MEMORY_GROW, CALL} then skipLEBNumber 32 D p EndPtr
      else if Opcode = I64_CONST then skipLEBNumber 64 D p EndPtr
      else if Opcode = F32_CONST then Inr (p + 4)
      else if Opcode = F64_CONST then Inr (p + 8)
      else if I32_LOAD \<le> Opcode \<and> Opcode \<le> I64_STORE32 then
        bindE (skipLEBNumber 32 D p EndPtr) (\<lambda>p. skipLEBNumber 32 D p EndPtr)
      else if Opcode = CALL_INDIRECT then bindE (skipLEBNumber 32 D p EndPtr) (\<lambda>p. Inr (p + 1))
      else if Opcode = BR_TABLE then
        bindE (readSafeLEBNumber False D p :: (u32 \<times> nat) res) (\<lambda>(NumTargets, p). skip_targets (Suc (unat NumTargets)) D p EndPtr)
      else Inl Abort)"

text \<open>The addresses of the \<open>else\<close> and the \<open>end\<close> of blocks, by the start of the block.\<close>

type_synonym addr_cache = "nat \<Rightarrow> (nat option \<times> nat option) option"

definition cache_else :: "nat \<Rightarrow> nat \<Rightarrow> addr_cache \<Rightarrow> addr_cache" where
  "cache_else b p C = C(b \<mapsto> (Some p, case C b of None \<Rightarrow> None | Some (_, e) \<Rightarrow> e))"

definition cache_end :: "nat \<Rightarrow> nat \<Rightarrow> addr_cache \<Rightarrow> addr_cache" where
  "cache_end b p C = C(b \<mapsto> (case C b of None \<Rightarrow> None | Some (e, _) \<Rightarrow> e, Some p))"

text \<open>
  The scan; \<open>Starts\<close> is \<open>BlockStartPtrs\<close>. \<open>None\<close> means that the end of the code was reached. A scan that takes more
  steps than there are bytes does not move forward and never ends, which is undefined.
\<close>

fun find_loop :: "nat \<Rightarrow> u8 list \<Rightarrow> nat \<Rightarrow> nat \<Rightarrow> nat \<Rightarrow> (nat \<Rightarrow> nat) \<Rightarrow> addr_cache \<Rightarrow> (addr_cache \<times> (nat option \<times> nat option) option) res" where
  "find_loop 0 D EndPtr p BlockDepth Starts C = Inl UB"
| "find_loop (Suc n) D EndPtr p BlockDepth Starts C =
     (if p \<ge> EndPtr then Inr (C, None)
      else if p \<ge> length D then Inl UB
      else
        let Opcode = D ! p; p = p + 1 in
        if Opcode \<in> {BLOCK, LOOP, IF} then
          bindE (skipBlockType D p EndPtr) (\<lambda>p.
          find_loop n D EndPtr p (BlockDepth + 1) (Starts(BlockDepth := p)) C)
        else if Opcode = ELSE then
          find_loop n D EndPtr p BlockDepth Starts (cache_else (Starts (BlockDepth - 1)) (p - 1) C)
        else if Opcode = END then
          let C = cache_end (Starts (BlockDepth - 1)) (p - 1) C in
          if BlockDepth = 1 then Inr (C, C (Starts 0))
          else find_loop n D EndPtr p (BlockDepth - 1) Starts C
        else
          bindE (skip_operands D Opcode p EndPtr) (\<lambda>p.
          find_loop n D EndPtr p BlockDepth Starts C))"

definition findBlockAddr :: "u8 list \<Rightarrow> nat \<Rightarrow> nat \<Rightarrow> addr_cache \<Rightarrow> (addr_cache \<times> (nat option \<times> nat option) option) res" where
  "findBlockAddr D StartAddr EndPtr C =
     (case C StartAddr of
        Some r \<Rightarrow> Inr (C, Some r)
      | None \<Rightarrow> find_loop (EndPtr - StartAddr + 1) D EndPtr StartAddr 1 (\<lambda>_. StartAddr) C)"

section \<open>Frames\<close>

record BlockInfo =
  TargetAddr :: "nat option"
  BValues :: nat
  CellNum :: nat
  ILabel :: LabelType

record InterpFrame =
  FFunc :: FunctionInstance
  FIp :: nat
  Values :: "u32 list"
  Ctrl :: "BlockInfo list"
  LocalVars :: "u32 list"
  FrameAddr :: nat

definition push_cells :: "u32 list \<Rightarrow> InterpFrame \<Rightarrow> InterpFrame res" where
  "push_cells cs F =
     (if 4 * (length (Values F) + length cs) > unat (FMaxStackSize (FFunc F)) then Inl Abort
      else Inr (F\<lparr>Values := cs @ Values F\<rparr>))"

definition pop_cells :: "nat \<Rightarrow> InterpFrame \<Rightarrow> (u32 list \<times> InterpFrame) res" where
  "pop_cells n F =
     (if length (Values F) < n then Inl Abort else Inr (take n (Values F), F\<lparr>Values := drop n (Values F)\<rparr>))"

text \<open>The cells of a 64-bit value; the high one is on top.\<close>

definition cells64 :: "u64 \<Rightarrow> u32 list" where
  "cells64 v = [ucast (drop_bit 32 v), ucast v]"

definition of_cells64 :: "u32 list \<Rightarrow> u64" where
  "of_cells64 cs = push_bit 32 (ucast (cs ! 0)) OR ucast (cs ! 1)"

definition valuePush32 :: "u32 \<Rightarrow> InterpFrame \<Rightarrow> InterpFrame res" where
  "valuePush32 v = push_cells [v]"

definition valuePush64 :: "u64 \<Rightarrow> InterpFrame \<Rightarrow> InterpFrame res" where
  "valuePush64 v = push_cells (cells64 v)"

definition valuePop32 :: "InterpFrame \<Rightarrow> (u32 \<times> InterpFrame) res" where
  "valuePop32 F = bindE (pop_cells 1 F) (\<lambda>(cs, F). Inr (cs ! 0, F))"

definition valuePop64 :: "InterpFrame \<Rightarrow> (u64 \<times> InterpFrame) res" where
  "valuePop64 F = bindE (pop_cells 2 F) (\<lambda>(cs, F). Inr (of_cells64 cs, F))"

text \<open>The cells of a local variable are at consecutive indices.\<close>

definition valueGet :: "nat \<Rightarrow> nat \<Rightarrow> InterpFrame \<Rightarrow> u32 list res" where
  "valueGet n i F = (if i + n \<le> length (LocalVars F) then Inr (take n (drop i (LocalVars F))) else Inl UB)"

definition valueSet :: "u32 list \<Rightarrow> nat \<Rightarrow> InterpFrame \<Rightarrow> InterpFrame res" where
  "valueSet cs i F =
     (if i + length cs \<le> length (LocalVars F)
      then Inr (F\<lparr>LocalVars := take i (LocalVars F) @ cs @ drop (i + length cs) (LocalVars F)\<rparr>) else Inl UB)"

text \<open>The assertion of \<open>blockPush\<close> lets one block too many pass; it would be written into the value stack.\<close>

definition blockPush :: "nat option \<Rightarrow> nat \<Rightarrow> LabelType \<Rightarrow> InterpFrame \<Rightarrow> InterpFrame res" where
  "blockPush Target Cells L F =
     (if length (Ctrl F) > FMaxBlockDepth (FFunc F) then Inl Abort
      else if length (Ctrl F) = FMaxBlockDepth (FFunc F) then Inl UB
      else Inr (F\<lparr>Ctrl := \<lparr>TargetAddr = Target, BValues = length (Values F), CellNum = Cells, ILabel = L\<rparr> # Ctrl F\<rparr>))"

text \<open>The copy of the results is one that allows for an overlap.\<close>

definition blockPop :: "u32 \<Rightarrow> InterpFrame \<Rightarrow> InterpFrame res" where
  "blockPop Depth F =
     (if sint Depth < 0 then Inl UB
      else if length (Ctrl F) < unat Depth + 1 then Inl Abort
      else
        let Ctrl' = drop (unat Depth) (Ctrl F); CurBlock = hd Ctrl' in
        case TargetAddr CurBlock of
          None \<Rightarrow> Inl UB
        | Some Target \<Rightarrow>
            if BValues CurBlock > length (Values F) then Inl UB
            else if ILabel CurBlock = LABEL_LOOP then
              Inr (F\<lparr>Ctrl := Ctrl', FIp := Target, Values := bottom (BValues CurBlock) (Values F)\<rparr>)
            else if CellNum CurBlock > length (Values F) then Inl UB
            else Inr (F\<lparr>Ctrl := Ctrl', FIp := Target,
              Values := take (CellNum CurBlock) (Values F) @ bottom (BValues CurBlock) (Values F)\<rparr>))"

section \<open>Operations on values\<close>

definition selectOp :: "nat \<Rightarrow> InterpFrame \<Rightarrow> InterpFrame res" where
  "selectOp n F =
     bindE (valuePop32 F) (\<lambda>(Cond, F).
     bindE (pop_cells n F) (\<lambda>(V1, F).
     bindE (pop_cells n F) (\<lambda>(V2, F).
     push_cells (if Cond \<noteq> 0 then V2 else V1) F)))"

fun exec_num :: "numop \<Rightarrow> InterpFrame \<Rightarrow> InterpFrame res" where
  "exec_num (Un32 f) F = bindE (valuePop32 F) (\<lambda>(v, F). bindE (f v) (\<lambda>r. valuePush32 r F))"
| "exec_num (Un64 f) F = bindE (valuePop64 F) (\<lambda>(v, F). bindE (f v) (\<lambda>r. valuePush64 r F))"
| "exec_num (Cv32_64 f) F = bindE (valuePop32 F) (\<lambda>(v, F). bindE (f v) (\<lambda>r. valuePush64 r F))"
| "exec_num (Cv64_32 f) F = bindE (valuePop64 F) (\<lambda>(v, F). bindE (f v) (\<lambda>r. valuePush32 r F))"
| "exec_num (Bin32 f) F =
     bindE (valuePop32 F) (\<lambda>(RHS, F). bindE (valuePop32 F) (\<lambda>(LHS, F). bindE (f LHS RHS) (\<lambda>r. valuePush32 r F)))"
| "exec_num (Bin64 f) F =
     bindE (valuePop64 F) (\<lambda>(RHS, F). bindE (valuePop64 F) (\<lambda>(LHS, F). bindE (f LHS RHS) (\<lambda>r. valuePush64 r F)))"
| "exec_num (Cmp32 f) F =
     bindE (valuePop32 F) (\<lambda>(RHS, F). bindE (valuePop32 F) (\<lambda>(LHS, F). valuePush32 (of_bool (f LHS RHS)) F))"
| "exec_num (Cmp64 f) F =
     bindE (valuePop64 F) (\<lambda>(RHS, F). bindE (valuePop64 F) (\<lambda>(LHS, F). valuePush32 (of_bool (f LHS RHS)) F))"
| "exec_num Keep F = Inr F"

text \<open>A read of an immediate operand moves the instruction pointer.\<close>

definition imm :: "bool \<Rightarrow> u8 list \<Rightarrow> InterpFrame \<Rightarrow> ('a::len word \<times> InterpFrame) res" where
  "imm Signed D F = bindE (readSafeLEBNumber Signed D (FIp F)) (\<lambda>(v, p). Inr (v, F\<lparr>FIp := p\<rparr>))"

abbreviation imm_u32 :: "u8 list \<Rightarrow> InterpFrame \<Rightarrow> (u32 \<times> InterpFrame) res" where
  "imm_u32 \<equiv> imm False"

text \<open>The widths of the value on the stack and in memory, in bytes, and whether a load extends the sign.\<close>

definition mem_acc :: "u8 \<Rightarrow> (bool \<times> nat \<times> nat \<times> bool) option" where
  "mem_acc = map_of
     [(0x38, (True, 4, 4, False)), (0x36, (True, 4, 4, False)), (0x39, (True, 8, 8, False)), (0x37, (True, 8, 8, False)),
      (0x3a, (True, 4, 1, False)), (0x3b, (True, 4, 2, False)), (0x3c, (True, 8, 1, False)), (0x3d, (True, 8, 2, False)),
      (0x3e, (True, 8, 4, False)),
      (0x2a, (False, 4, 4, False)), (0x28, (False, 4, 4, False)), (0x2b, (False, 8, 8, False)), (0x29, (False, 8, 8, False)),
      (0x2c, (False, 4, 1, True)), (0x2d, (False, 4, 1, False)), (0x2e, (False, 4, 2, True)), (0x2f, (False, 4, 2, False)),
      (0x30, (False, 8, 1, True)), (0x31, (False, 8, 1, False)), (0x32, (False, 8, 2, True)), (0x33, (False, 8, 2, False)),
      (0x34, (False, 8, 4, True)), (0x35, (False, 8, 4, False))]"

definition pop_sized :: "nat \<Rightarrow> InterpFrame \<Rightarrow> (u64 \<times> InterpFrame) res" where
  "pop_sized n F = (if n = 4 then bindE (valuePop32 F) (\<lambda>(v, F). Inr (ucast v, F)) else valuePop64 F)"

definition push_sized :: "nat \<Rightarrow> u64 \<Rightarrow> InterpFrame \<Rightarrow> InterpFrame res" where
  "push_sized n v F = (if n = 4 then valuePush32 (ucast v) F else valuePush64 v F)"

definition mem0 :: "Instance \<Rightarrow> MemoryInstance res" where
  "mem0 I = (if Memories I = [] then Inl UB else Inr (hd (Memories I)))"

definition storeOp :: "nat \<Rightarrow> nat \<Rightarrow> u8 list \<Rightarrow> nat \<Rightarrow> InterpFrame \<Rightarrow> Instance \<Rightarrow> (InterpFrame \<times> Instance) res" where
  "storeOp SrcSize DestSize D MemSize F I =
     bindE (imm_u32 D F) (\<lambda>(_, F).
     bindE (imm_u32 D F) (\<lambda>(Off, F).
     bindE (pop_sized SrcSize F) (\<lambda>(Val, F).
     bindE (valuePop32 F) (\<lambda>(Addr, F).
     if unat Off + DestSize + unat Addr > MemSize then Inl (Throw (Named ''OutOfBoundsMemory''))
     else
       bindE (mem0 I) (\<lambda>M.
       bindE (mem_write (MemData M) (unat Off + unat Addr) (le_bytes DestSize Val)) (\<lambda>B.
       Inr (F, I\<lparr>Memories := M\<lparr>MemData := B\<rparr> # tl (Memories I)\<rparr>)))))))"

definition extend_loaded :: "nat \<Rightarrow> bool \<Rightarrow> u8 list \<Rightarrow> u64" where
  "extend_loaded n Signed bs =
     (let v = le_word bs in if Signed then signed_take_bit (8 * n - 1) v else v)"

definition loadOp :: "nat \<Rightarrow> nat \<Rightarrow> bool \<Rightarrow> u8 list \<Rightarrow> nat \<Rightarrow> InterpFrame \<Rightarrow> Instance \<Rightarrow> InterpFrame res" where
  "loadOp DestSize SrcSize Signed D MemSize F I =
     bindE (imm_u32 D F) (\<lambda>(_, F).
     bindE (imm_u32 D F) (\<lambda>(Off, F).
     bindE (valuePop32 F) (\<lambda>(Addr, F).
     if unat Off + SrcSize + unat Addr > MemSize then Inl (Throw (Named ''OutOfBoundsMemory''))
     else
       bindE (mem0 I) (\<lambda>M.
       bindE (mem_read (MemData M) (unat Off + unat Addr) SrcSize) (\<lambda>bs.
       push_sized DestSize (extend_loaded SrcSize Signed bs) F)))))"

definition value_cells :: "WASMType \<Rightarrow> nat res" where
  "value_cells t = (if t = I32 \<or> t = F32 then Inr 1 else if t = I64 \<or> t = F64 then Inr 2 else Inl Abort)"

definition local_at :: "u8 list \<Rightarrow> InterpFrame \<Rightarrow> (nat \<times> nat \<times> InterpFrame) res" where
  "local_at D F =
     bindE (imm_u32 D F) (\<lambda>(LocalIdx, F).
     bindE (getLocalType (FFunc F) (unat LocalIdx)) (\<lambda>LocalType.
     bindE (getLocalOffset (FFunc F) (unat LocalIdx)) (\<lambda>LocalOffset.
     bindE (value_cells LocalType) (\<lambda>n. Inr (n, unat LocalOffset, F)))))"

text \<open>The first cell of a local variable is the low one.\<close>

definition get_local :: "u8 list \<Rightarrow> InterpFrame \<Rightarrow> InterpFrame res" where
  "get_local D F = bindE (local_at D F) (\<lambda>(n, i, F). bindE (valueGet n i F) (\<lambda>cs. push_cells (rev cs) F))"

definition set_local :: "u8 list \<Rightarrow> InterpFrame \<Rightarrow> InterpFrame res" where
  "set_local D F = bindE (local_at D F) (\<lambda>(n, i, F). bindE (pop_cells n F) (\<lambda>(cs, F). valueSet (rev cs) i F))"

definition tee_local :: "u8 list \<Rightarrow> InterpFrame \<Rightarrow> InterpFrame res" where
  "tee_local D F = bindE (local_at D F) (\<lambda>(n, i, F). bindE (pop_cells n F) (\<lambda>(cs, _). valueSet (rev cs) i F))"

definition global_at :: "u8 list \<Rightarrow> InterpFrame \<Rightarrow> Instance \<Rightarrow> (nat \<times> nat \<times> InterpFrame) res" where
  "global_at D F I =
     bindE (imm_u32 D F) (\<lambda>(GlobalIdx, F).
     bindE (getGlobalAddr (unat GlobalIdx) I) (\<lambda>p.
     bindE (inst_getGlobalType (unat GlobalIdx) I) (\<lambda>GlobalType.
     bindE (value_cells GlobalType) (\<lambda>n. Inr (4 * n, p, F)))))"

definition get_global :: "u8 list \<Rightarrow> InterpFrame \<Rightarrow> Instance \<Rightarrow> InterpFrame res" where
  "get_global D F I =
     bindE (global_at D F I) (\<lambda>(n, p, F). bindE (mem_read (GlobalVarData I) p n) (\<lambda>bs. push_sized n (le_word bs) F))"

definition set_global :: "u8 list \<Rightarrow> InterpFrame \<Rightarrow> Instance \<Rightarrow> (InterpFrame \<times> Instance) res" where
  "set_global D F I =
     bindE (global_at D F I) (\<lambda>(n, p, F).
     bindE (pop_sized n F) (\<lambda>(v, F).
     bindE (mem_write (GlobalVarData I) p (le_bytes n v)) (\<lambda>B. Inr (F, I\<lparr>GlobalVarData := B\<rparr>))))"

section \<open>The state\<close>

text \<open>
  The parameters of the interpreter: floating-point arithmetic, whether memory can be allocated, and the native
  functions, which get their arguments with their types and return a new instance, the value of each result slot and
  an error.
\<close>

record host =
  num :: num_env
  h_alloc :: "nat \<Rightarrow> bool"
  native :: "nat \<Rightarrow> (WASMType \<times> u64) list \<Rightarrow> Instance \<Rightarrow> Instance \<times> (nat \<Rightarrow> u64) \<times> ErrorCode option"

record interp =
  IFrames :: "InterpFrame list"
  StackTop :: nat
  IInst :: Instance
  LinearMemSize :: nat
  ElseAddr :: "nat option"
  EndAddr :: "nat option"
  BlockAddrCache :: addr_cache

text \<open>
  After a step the interpreter goes on, or it has returned, with what is then in the cells of the arguments of the
  first call, or an error was thrown.
\<close>

datatype outcome = Running interp | Finished "u32 list" interp | Trapped ErrorCode interp

text \<open>The stack of the interpreter, and the sizes of the structures in it.\<close>

definition PresetReservedStackSize :: nat where
  "PresetReservedStackSize = 4 * 1024 * 1024"

definition sizeof_InterpFrame :: nat where
  "sizeof_InterpFrame = 80"

definition sizeof_BlockInfo :: nat where
  "sizeof_BlockInfo = 24"

definition allocFrame :: "FunctionInstance \<Rightarrow> u32 list \<Rightarrow> interp \<Rightarrow> interp option" where
  "allocFrame Fn Args S =
     (let LocalSize = 4 * FNumLocalCells Fn;
          ControlSize = u32_cast (FMaxBlockDepth Fn * sizeof_BlockInfo);
          Total = LocalSize + sizeof_InterpFrame + unat (FMaxStackSize Fn) + ControlSize in
      if StackTop S + Total \<ge> PresetReservedStackSize then None
      else Some (S\<lparr>StackTop := StackTop S + Total,
        IFrames := \<lparr>FFunc = Fn, FIp = FCodePtr Fn, Values = [], Ctrl = [],
          LocalVars = Args @ replicate (FNumLocalCells Fn) 0,
          FrameAddr = StackTop S + LocalSize\<rparr> # IFrames S\<rparr>))"

definition freeFrame :: "InterpFrame \<Rightarrow> interp \<Rightarrow> interp res" where
  "freeFrame F S =
     (if FrameAddr F < 4 * FNumLocalCells (FFunc F) then Inl Abort
      else Inr (S\<lparr>StackTop := FrameAddr F - 4 * FNumLocalCells (FFunc F), IFrames := tl (IFrames S)\<rparr>))"

definition set_frame :: "InterpFrame \<Rightarrow> interp \<Rightarrow> interp" where
  "set_frame F S = S\<lparr>IFrames := F # tl (IFrames S)\<rparr>"

section \<open>Calls\<close>

fun pop_args :: "WASMType list \<Rightarrow> InterpFrame \<Rightarrow> ((WASMType \<times> u64) list \<times> InterpFrame) res" where
  "pop_args [] F = Inr ([], F)"
| "pop_args (t # ts) F =
     bindE (value_cells t) (\<lambda>n.
     bindE (pop_sized (4 * n) F) (\<lambda>(v, F).
     bindE (pop_args ts F) (\<lambda>(vs, F). Inr ((t, v) # vs, F))))"

fun push_results :: "WASMType list \<Rightarrow> (nat \<Rightarrow> u64) \<Rightarrow> nat \<Rightarrow> InterpFrame \<Rightarrow> InterpFrame res" where
  "push_results [] r i F = Inr F"
| "push_results (t # ts) r i F =
     bindE (value_cells t) (\<lambda>n. bindE (push_sized (4 * n) (r i) F) (push_results ts r (i + 1)))"

definition call_native :: "host \<Rightarrow> FunctionInstance \<Rightarrow> InterpFrame \<Rightarrow> interp \<Rightarrow> outcome res" where
  "call_native X Callee F S =
     bindE (pop_args (rev (FParamTypes Callee)) F) (\<lambda>(Args, F).
     let (I, Results, Err) = native X (FCodePtr Callee) (rev Args) (IInst S) in
     case Err of
       Some e \<Rightarrow> Inr (Trapped e (S\<lparr>IInst := I\<rparr>))
     | None \<Rightarrow> bindE (push_results (FReturnTypes Callee) Results 0 F) (\<lambda>F. Inr (Running (set_frame F (S\<lparr>IInst := I\<rparr>)))))"

definition callFuncInst :: "host \<Rightarrow> FunctionInstance \<Rightarrow> InterpFrame \<Rightarrow> interp \<Rightarrow> outcome res" where
  "callFuncInst X Callee F S =
     (if FKind Callee = Native then call_native X Callee F S
      else if length (Values F) < FNumParamCells Callee then Inl UB
      else
        case allocFrame Callee (rev (take (FNumParamCells Callee) (Values F))) (set_frame F S) of
          None \<Rightarrow> Inl (Throw (Named ''CallStackExhausted''))
        | Some S \<Rightarrow>
            case IFrames S of
              [] \<Rightarrow> Inl UB
            | New # _ \<Rightarrow>
                bindE (blockPush (Some (FCodePtr Callee + FCodeSize Callee - 1)) (FNumReturnCells Callee) LABEL_FUNCTION New) (\<lambda>New.
                Inr (Running (set_frame New S))))"

text \<open>
  The end of a function: the results go to where the arguments of the caller were. A write beyond the caller's value
  stack is undefined.
\<close>

definition return_to :: "InterpFrame \<Rightarrow> u32 list \<Rightarrow> InterpFrame \<Rightarrow> InterpFrame res" where
  "return_to F Results Prev =
     (let Vs = Results @ drop (FNumParamCells (FFunc F)) (Values Prev) in
      if length (Values Prev) < FNumParamCells (FFunc F) \<or> 4 * length Vs > unat (FMaxStackSize (FFunc Prev)) then Inl UB
      else Inr (Prev\<lparr>Values := Vs\<rparr>))"

definition do_return :: "InterpFrame \<Rightarrow> interp \<Rightarrow> outcome res" where
  "do_return F S =
     bindE (freeFrame F S) (\<lambda>S.
     let n = FNumReturnCells (FFunc F); Results = take n (Values F) in
     if length (Values F) < n then Inl UB
     else case IFrames S of
       [] \<Rightarrow> Inr (Finished (rev Results @ drop n (LocalVars F)) S)
     | Prev # _ \<Rightarrow> bindE (return_to F Results Prev) (\<lambda>Prev. Inr (Running (set_frame Prev S))))"

definition exec_call :: "host \<Rightarrow> Module \<Rightarrow> u8 list \<Rightarrow> InterpFrame \<Rightarrow> interp \<Rightarrow> outcome res" where
  "exec_call X M D F S =
     bindE (imm_u32 D F) (\<lambda>(FuncIdx, F).
     if Some FuncIdx = GasFuncIdx M then
       bindE (valuePop64 F) (\<lambda>(Delta, F).
       let GasLeft = IGas (IInst S) in
       if GasLeft < Delta then Inr (Trapped GasLimitExceeded (S\<lparr>IInst := (IInst S)\<lparr>IGas := 0\<rparr>\<rparr>))
       else Inr (Running (set_frame F (S\<lparr>IInst := (IInst S)\<lparr>IGas := GasLeft - Delta\<rparr>\<rparr>))))
     else bindE (getFunctionInst (unat FuncIdx) (IInst S)) (\<lambda>Callee. callFuncInst X Callee F S))"

definition exec_call_indirect :: "host \<Rightarrow> Module \<Rightarrow> u8 list \<Rightarrow> InterpFrame \<Rightarrow> interp \<Rightarrow> outcome res" where
  "exec_call_indirect X M D F S =
     bindE (imm_u32 D F) (\<lambda>(TypeIdx, F).
     bindE (getDeclaredType (unat TypeIdx) M) (\<lambda>ExpectedFuncType.
     bindE (valuePop32 (F\<lparr>FIp := FIp F + 1\<rparr>)) (\<lambda>(IndirectFuncIdx, F).
     bindE (getTableInst 0 (IInst S)) (\<lambda>Table.
     if sint IndirectFuncIdx < 0 \<or> IndirectFuncIdx \<ge> CurSize Table then Inl (Throw (Named ''UndefinedElement''))
     else if unat IndirectFuncIdx \<ge> length (Elements Table) then Inl UB
     else
       let FuncIdx = Elements Table ! unat IndirectFuncIdx in
       if FuncIdx = - 1 then Inl (Throw (Named ''UninitializedElement''))
       else
         bindE (getFunctionInst (unat FuncIdx) (IInst S)) (\<lambda>Callee.
         if \<not> isEqual (FuncType Callee) ExpectedFuncType then Inl (Throw (Named ''IndirectCallTypeMismatch''))
         else callFuncInst X Callee F S)))))"

section \<open>The main loop\<close>

definition IpEnd :: "InterpFrame \<Rightarrow> nat" where
  "IpEnd F = FCodePtr (FFunc F) + FCodeSize (FFunc F)"

text \<open>\<open>findBlockAddr\<close> leaves the addresses as they were when it reaches the end of the code.\<close>

definition find_block :: "u8 list \<Rightarrow> InterpFrame \<Rightarrow> interp \<Rightarrow> interp res" where
  "find_block D F S =
     bindE (findBlockAddr D (FIp F) (IpEnd F) (BlockAddrCache S)) (\<lambda>(C, r).
     Inr (case r of
       None \<Rightarrow> S\<lparr>BlockAddrCache := C\<rparr>
     | Some (ElseP, EndP) \<Rightarrow> S\<lparr>BlockAddrCache := C, ElseAddr := ElseP, EndAddr := EndP\<rparr>))"

definition read_cell_num :: "u8 list \<Rightarrow> InterpFrame \<Rightarrow> (nat \<times> InterpFrame) res" where
  "read_cell_num D F =
     (if FIp F \<ge> length D then Inl UB
      else
        bindE (getWASMTypeCellNum (getWASMBlockTypeFromOpcode (D ! FIp F))) (\<lambda>n.
        Inr (unat n, F\<lparr>FIp := FIp F + 1\<rparr>)))"

definition exec_block :: "u8 list \<Rightarrow> InterpFrame \<Rightarrow> interp \<Rightarrow> interp res" where
  "exec_block D F S =
     bindE (read_cell_num D F) (\<lambda>(Cells, F).
     bindE (find_block D F S) (\<lambda>S.
     bindE (blockPush (EndAddr S) Cells LABEL_BLOCK F) (\<lambda>F. Inr (set_frame F S))))"

definition exec_loop :: "u8 list \<Rightarrow> InterpFrame \<Rightarrow> interp \<Rightarrow> interp res" where
  "exec_loop D F S =
     bindE (read_cell_num D F) (\<lambda>(Cells, F).
     bindE (blockPush (Some (FIp F)) Cells LABEL_LOOP F) (\<lambda>F. Inr (set_frame F S)))"

definition exec_if :: "u8 list \<Rightarrow> InterpFrame \<Rightarrow> interp \<Rightarrow> interp res" where
  "exec_if D F S =
     bindE (read_cell_num D F) (\<lambda>(Cells, F).
     bindE (valuePop32 F) (\<lambda>(Cond, F).
     bindE (find_block D F S) (\<lambda>S.
     if Cond \<noteq> 0 then bindE (blockPush (EndAddr S) Cells LABEL_IF F) (\<lambda>F. Inr (set_frame F S))
     else case ElseAddr S of
       None \<Rightarrow> (case EndAddr S of None \<Rightarrow> Inl UB | Some e \<Rightarrow> Inr (set_frame (F\<lparr>FIp := e + 1\<rparr>) S))
     | Some p \<Rightarrow> bindE (blockPush (EndAddr S) Cells LABEL_IF F) (\<lambda>F. Inr (set_frame (F\<lparr>FIp := p + 1\<rparr>) S)))))"

definition exec_else :: "InterpFrame \<Rightarrow> InterpFrame res" where
  "exec_else F =
     (case Ctrl F of
        [] \<Rightarrow> Inl UB
      | B # _ \<Rightarrow> (case TargetAddr B of None \<Rightarrow> Inl UB | Some p \<Rightarrow> Inr (F\<lparr>FIp := p\<rparr>)))"

definition exec_br :: "u8 list \<Rightarrow> InterpFrame \<Rightarrow> InterpFrame res" where
  "exec_br D F = bindE (imm_u32 D F) (\<lambda>(Depth, F). blockPop Depth F)"

definition exec_br_if :: "u8 list \<Rightarrow> InterpFrame \<Rightarrow> InterpFrame res" where
  "exec_br_if D F =
     bindE (imm_u32 D F) (\<lambda>(Depth, F).
     bindE (valuePop32 F) (\<lambda>(Cond, F). if Cond \<noteq> 0 then blockPop Depth F else Inr F))"

text \<open>The labels before the chosen one are skipped as numbers of 8 bits.\<close>

fun skip_labels :: "nat \<Rightarrow> u8 list \<Rightarrow> nat \<Rightarrow> nat \<Rightarrow> nat res" where
  "skip_labels 0 D p EndPtr = Inr p"
| "skip_labels (Suc n) D p EndPtr = bindE (skipLEBNumber 8 D p EndPtr) (\<lambda>p. skip_labels n D p EndPtr)"

definition exec_br_table :: "u8 list \<Rightarrow> InterpFrame \<Rightarrow> InterpFrame res" where
  "exec_br_table D F =
     bindE (imm_u32 D F) (\<lambda>(Count, F).
     bindE (valuePop32 F) (\<lambda>(v, F).
     bindE (skip_labels (unat (min Count v)) D (FIp F) (IpEnd F)) (\<lambda>p.
     bindE (imm_u32 D (F\<lparr>FIp := p\<rparr>)) (\<lambda>(Depth, F). blockPop Depth F))))"

definition exec_memory_grow :: "host \<Rightarrow> u8 list \<Rightarrow> InterpFrame \<Rightarrow> interp \<Rightarrow> interp res" where
  "exec_memory_grow X D F S =
     bindE (imm_u32 D F) (\<lambda>(_, F).
     bindE (mem0 (IInst S)) (\<lambda>Mem.
     bindE (valuePop32 F) (\<lambda>(GrowPageCount, F).
     let (Ok, I) = growLinearMemory (h_alloc X) 0 GrowPageCount (IInst S) in
     bindE (valuePush32 (if Ok then CurPages Mem else - 1) F) (\<lambda>F.
     bindE (mem0 I) (\<lambda>Mem.
     Inr (set_frame F (S\<lparr>IInst := I, LinearMemSize := length (MemData Mem)\<rparr>)))))))"

definition exec_memory_size :: "u8 list \<Rightarrow> InterpFrame \<Rightarrow> Instance \<Rightarrow> InterpFrame res" where
  "exec_memory_size D F I =
     bindE (imm_u32 D F) (\<lambda>(_, F). bindE (mem0 I) (\<lambda>Mem. valuePush32 (CurPages Mem) F))"

definition exec_const :: "u8 \<Rightarrow> u8 list \<Rightarrow> InterpFrame \<Rightarrow> InterpFrame res" where
  "exec_const Opcode D F =
     (if Opcode = I32_CONST then bindE (imm True D F) (\<lambda>(v, F). valuePush32 v F)
      else if Opcode = I64_CONST then bindE (imm True D F) (\<lambda>(v, F). valuePush64 v F)
      else if Opcode = F32_CONST then
        bindE (readFixedNumber 4 D (FIp F) (IpEnd F)) (\<lambda>(v, p). valuePush32 v (F\<lparr>FIp := p\<rparr>))
      else bindE (readFixedNumber 8 D (FIp F) (IpEnd F)) (\<lambda>(v, p). valuePush64 v (F\<lparr>FIp := p\<rparr>)))"

definition exec_global64 :: "u8 \<Rightarrow> u8 list \<Rightarrow> InterpFrame \<Rightarrow> Instance \<Rightarrow> (InterpFrame \<times> Instance) res" where
  "exec_global64 Opcode D F I =
     bindE (imm_u32 D F) (\<lambda>(GlobalIdx, F).
     bindE (getGlobalAddr (unat GlobalIdx) I) (\<lambda>p.
     if Opcode = GET_GLOBAL_64 then
       bindE (mem_read (GlobalVarData I) p 8) (\<lambda>bs. bindE (valuePush64 (le_word bs) F) (\<lambda>F. Inr (F, I)))
     else
       bindE (valuePop64 F) (\<lambda>(v, F).
       bindE (mem_write (GlobalVarData I) p (le_bytes 8 v)) (\<lambda>B. Inr (F, I\<lparr>GlobalVarData := B\<rparr>)))))"

definition exec_end :: "InterpFrame \<Rightarrow> interp \<Rightarrow> outcome res" where
  "exec_end F S =
     (if length (Ctrl F) > 1 then Inr (Running (set_frame (F\<lparr>Ctrl := tl (Ctrl F)\<rparr>) S))
      else
        bindE (do_return F S) (\<lambda>r.
        case r of Finished _ _ \<Rightarrow> if FIp F < IpEnd F then Inl UB else Inr r | _ \<Rightarrow> Inr r))"

text \<open>How the results of the handlers become the next state.\<close>

definition with_frame :: "interp \<Rightarrow> InterpFrame res \<Rightarrow> outcome res" where
  "with_frame S r = bindE r (\<lambda>F. Inr (Running (set_frame F S)))"

definition with_inst :: "interp \<Rightarrow> (InterpFrame \<times> Instance) res \<Rightarrow> outcome res" where
  "with_inst S r = bindE r (\<lambda>(F, I). Inr (Running (set_frame F (S\<lparr>IInst := I\<rparr>))))"

definition go_on :: "interp res \<Rightarrow> outcome res" where
  "go_on r = bindE r (\<lambda>S. Inr (Running S))"

definition exec_op :: "host \<Rightarrow> Module \<Rightarrow> u8 list \<Rightarrow> u8 \<Rightarrow> InterpFrame \<Rightarrow> interp \<Rightarrow> outcome res" where
  "exec_op X M D Opcode F S =
     (if Opcode = UNREACHABLE then Inl (Throw (Named ''Unreachable''))
      else if Opcode = NOP then with_frame S (Inr F)
      else if Opcode = SELECT then with_frame S (selectOp 1 F)
      else if Opcode = SELECT_64 then with_frame S (selectOp 2 F)
      else if Opcode = BLOCK then go_on (exec_block D F S)
      else if Opcode = LOOP then go_on (exec_loop D F S)
      else if Opcode = BR then with_frame S (exec_br D F)
      else if Opcode = BR_IF then with_frame S (exec_br_if D F)
      else if Opcode = BR_TABLE then with_frame S (exec_br_table D F)
      else if Opcode = DROP then with_frame S (bindE (pop_cells 1 F) (\<lambda>(_, F). Inr F))
      else if Opcode = DROP_64 then with_frame S (bindE (pop_cells 2 F) (\<lambda>(_, F). Inr F))
      else if Opcode = IF then go_on (exec_if D F S)
      else if Opcode = ELSE then with_frame S (exec_else F)
      else if Opcode = GET_GLOBAL_64 \<or> Opcode = SET_GLOBAL_64 then with_inst S (exec_global64 Opcode D F (IInst S))
      else if Opcode = GET_LOCAL then with_frame S (get_local D F)
      else if Opcode = SET_LOCAL then with_frame S (set_local D F)
      else if Opcode = TEE_LOCAL then with_frame S (tee_local D F)
      else if Opcode = GET_GLOBAL then with_frame S (get_global D F (IInst S))
      else if Opcode = SET_GLOBAL then with_inst S (set_global D F (IInst S))
      else if Opcode \<in> {I32_CONST, I64_CONST, F32_CONST, F64_CONST} then with_frame S (exec_const Opcode D F)
      else if Opcode = MEMORY_GROW then go_on (exec_memory_grow X D F S)
      else if Opcode = MEMORY_SIZE then with_frame S (exec_memory_size D F (IInst S))
      else if Opcode = RETURN then do_return F S
      else if Opcode = CALL then exec_call X M D F S
      else if Opcode = CALL_INDIRECT then exec_call_indirect X M D F S
      else if Opcode = END then exec_end F S
      else case mem_acc Opcode of
        Some (Store, v, m, Signed) \<Rightarrow>
          if Store then with_inst S (storeOp v m D (LinearMemSize S) F (IInst S))
          else with_frame S (loadOp v m Signed D (LinearMemSize S) F (IInst S))
      | None \<Rightarrow> (case num_op (num X) Opcode of
          Some Op \<Rightarrow> with_frame S (exec_num Op F)
        | None \<Rightarrow> Inl Abort))"

text \<open>One turn of the loop; a thrown error ends it.\<close>

definition interp_step :: "host \<Rightarrow> Module \<Rightarrow> u8 list \<Rightarrow> interp \<Rightarrow> outcome res" where
  "interp_step X M D S =
     (case IFrames S of
        [] \<Rightarrow> Inl UB
      | F # Fs \<Rightarrow>
          if FIp F \<ge> IpEnd F then Inr (Finished (LocalVars (last (F # Fs))) S)
          else if FIp F \<ge> length D then Inl UB
          else
            case exec_op X M D (D ! FIp F) (F\<lparr>FIp := FIp F + 1\<rparr>) S of
              Inl (Throw e) \<Rightarrow> Inr (Trapped e S)
            | r \<Rightarrow> r)"

text \<open>At most \<open>n\<close> turns of the loop.\<close>

fun interp_run :: "host \<Rightarrow> Module \<Rightarrow> u8 list \<Rightarrow> nat \<Rightarrow> interp \<Rightarrow> outcome res" where
  "interp_run X M D 0 S = Inr (Running S)"
| "interp_run X M D (Suc n) S =
     (case interp_step X M D S of
        Inr (Running S) \<Rightarrow> interp_run X M D n S
      | r \<Rightarrow> r)"

section \<open>Entry\<close>

fun arg_cells :: "WASMType \<times> u64 \<Rightarrow> u32 list res" where
  "arg_cells (t, v) = bindE (value_cells t) (\<lambda>n. Inr (if n = 1 then [ucast v] else rev (cells64 v)))"

definition start_frame :: "host \<Rightarrow> nat \<Rightarrow> (WASMType \<times> u64) list \<Rightarrow> Instance \<Rightarrow> interp res" where
  "start_frame X FuncIdx Args I =
     bindE (mapE arg_cells Args) (\<lambda>Cells.
     bindE (getFunctionInst FuncIdx I) (\<lambda>Fn.
     let S = \<lparr>IFrames = [], StackTop = 4 * length (concat Cells), IInst = I,
           LinearMemSize = (case Memories I of [] \<Rightarrow> 0 | M # _ \<Rightarrow> length (MemData M)),
           ElseAddr = None, EndAddr = None, BlockAddrCache = (\<lambda>_. None)\<rparr> in
     case allocFrame Fn (concat Cells) S of
       None \<Rightarrow> Inl Abort
     | Some S \<Rightarrow>
         (case IFrames S of
            [] \<Rightarrow> Inl UB
          | F # _ \<Rightarrow>
              bindE (blockPush (Some (IpEnd F - 1)) (FNumReturnCells Fn) LABEL_FUNCTION F) (\<lambda>F. Inr (set_frame F S)))))"

text \<open>
  An imported function that is called from outside runs without the loop. Its arguments are below the frame, but they
  are taken from the value stack of the frame, which is empty; what it pushes there is not read by the caller.
\<close>

definition wasm_interpret :: "host \<Rightarrow> Module \<Rightarrow> u8 list \<Rightarrow> nat \<Rightarrow> interp \<Rightarrow> outcome res" where
  "wasm_interpret X M D n S =
     (case IFrames S of
        [] \<Rightarrow> Inl Abort
      | F # _ \<Rightarrow>
          if FKind (FFunc F) = Native then
            (case callFuncInst X (FFunc F) F S of
               Inr (Running S) \<Rightarrow> Inr (Finished (LocalVars F) S)
             | Inl (Throw e) \<Rightarrow> Inr (Trapped e S)
             | r \<Rightarrow> r)
          else interp_run X M D n S)"

definition callWasmFunction :: "host \<Rightarrow> Module \<Rightarrow> u8 list \<Rightarrow> nat \<Rightarrow> (WASMType \<times> u64) list \<Rightarrow> Instance \<Rightarrow> nat \<Rightarrow> outcome res" where
  "callWasmFunction X M D FuncIdx Args I n = bindE (start_frame X FuncIdx Args I) (wasm_interpret X M D n)"

end
