(* ===== verification/Wasm_Memory.thy ===== *)
theory Wasm_Memory
  imports Wasm_Interp
begin

text \<open>
  The linear memory of a WebAssembly instance: little-endian loads and stores, and the invariant that every access of
  the interpreter is checked against a size that the memory really has.
\<close>

section \<open>Little-endian values\<close>

lemma le_bytes_Suc: "le_bytes (Suc n) v = ucast v # le_bytes n (drop_bit 8 v)"
proof -
  have "[0..<Suc n] = 0 # map Suc [0..<n]" by (simp add: upt_conv_Cons map_Suc_upt)
  then show ?thesis by (simp add: le_bytes_def comp_def add.commute [of 8])
qed

lemma le_word_bytes: "(le_word (le_bytes n (v :: 'a::len word)) :: 'a word) = take_bit (8 * n) v"
proof (induction n arbitrary: v)
  case (Suc n)
  have "(ucast (ucast v :: u8) :: 'a word) = take_bit 8 v"
    by (rule bit_word_eqI) (auto simp: bit_take_bit_iff bit_ucast_iff)
  moreover have "take_bit (8 * Suc n) v = take_bit 8 v + 256 * take_bit (8 * n) (drop_bit 8 v)"
  proof -
    have "take_bit (8 * Suc n) v = take_bit 8 (take_bit (8 * Suc n) v) + push_bit 8 (drop_bit 8 (take_bit (8 * Suc n) v))"
      by (simp only: bits_ident add.commute [of "take_bit 8 _"])
    then show ?thesis by (simp add: drop_bit_take_bit push_bit_eq_mult mult.commute)
  qed
  ultimately show ?case using Suc.IH [of "drop_bit 8 v"] by (simp add: le_bytes_Suc)
qed (simp add: le_bytes_def)

section \<open>The invariant\<close>

text \<open>A memory is as large as its number of pages says, and not larger than 32-bit addresses reach.\<close>

definition mem_sane :: "MemoryInstance \<Rightarrow> bool" where
  "mem_sane M \<longleftrightarrow> length (MemData M) = unat (CurPages M) * 65536 \<and> length (MemData M) < 2 ^ 32"

definition mems_ok :: "Instance \<Rightarrow> bool" where
  "mems_ok I \<longleftrightarrow> (\<forall>M \<in> set (Memories I). mem_sane M)"

text \<open>No memory shrinks, and its maximum stays.\<close>

definition mem_grown :: "Instance \<Rightarrow> Instance \<Rightarrow> bool" where
  "mem_grown I J \<longleftrightarrow> list_all2 (\<lambda>M N. length (MemData M) \<le> length (MemData N) \<and> MMaxPages N = MMaxPages M) (Memories I) (Memories J)"

text \<open>The size that the interpreter has read is at most the size of the memory.\<close>

definition mem_inv :: "interp \<Rightarrow> bool" where
  "mem_inv S \<longleftrightarrow> mems_ok (IInst S) \<and>
     (case Memories (IInst S) of [] \<Rightarrow> LinearMemSize S = 0 | M # _ \<Rightarrow> LinearMemSize S \<le> length (MemData M))"

text \<open>What native functions have to keep.\<close>

definition native_ok :: "host \<Rightarrow> bool" where
  "native_ok X \<longleftrightarrow> (\<forall>p args I. mems_ok I \<longrightarrow> mems_ok (fst (native X p args I)) \<and> mem_grown I (fst (native X p args I)))"

fun state_of :: "outcome \<Rightarrow> interp" where
  "state_of (Running S) = S"
| "state_of (Finished _ S) = S"
| "state_of (Trapped _ S) = S"

definition mem_step :: "interp \<Rightarrow> interp \<Rightarrow> bool" where
  "mem_step S T \<longleftrightarrow> (mem_inv S \<longrightarrow> mem_inv T \<and> mem_grown (IInst S) (IInst T))"

lemma mem_grown_refl [simp]: "mem_grown I I"
  by (simp add: mem_grown_def list_all2_refl)

lemma mem_grown_trans: "mem_grown I J \<Longrightarrow> mem_grown J K \<Longrightarrow> mem_grown I K"
  unfolding mem_grown_def by (rule list_all2_trans) auto

lemma mem_step_trans: "mem_step S T \<Longrightarrow> mem_step T U \<Longrightarrow> mem_step S U"
  by (auto simp: mem_step_def intro: mem_grown_trans)

lemma mem_step_same: "Memories (IInst T) = Memories (IInst S) \<Longrightarrow> LinearMemSize T = LinearMemSize S \<Longrightarrow> mem_step S T"
  by (auto simp: mem_step_def mem_inv_def mems_ok_def mem_grown_def list_all2_refl split: list.splits)

lemma mem_step_inst:
  assumes "mems_ok (IInst S) \<Longrightarrow> mems_ok I \<and> mem_grown (IInst S) I"
  shows "mem_step S (S\<lparr>IInst := I\<rparr>)"
  using assms by (auto simp: mem_step_def mem_inv_def mem_grown_def split: list.splits)

lemma set_frame_same [simp]: "IInst (set_frame F S) = IInst S" "LinearMemSize (set_frame F S) = LinearMemSize S"
  by (simp_all add: set_frame_def)

lemma mem_step_set_frame [simp]: "mem_step S (set_frame F T) = mem_step S T"
  by (simp add: mem_step_def mem_inv_def split: list.split)

section \<open>The instructions\<close>

lemma growLinearMemory_ok:
  assumes "mems_ok I"
  shows "mems_ok (snd (growLinearMemory alloc m d I)) \<and> mem_grown I (snd (growLinearMemory alloc m d I))"
proof -
  have "mem_sane (Mem\<lparr>CurPages := p, MemData := MemData Mem @ replicate (unat p * 65536 - length (MemData Mem)) 0\<rparr>)"
    if "mem_sane Mem" "unat (CurPages Mem) \<le> unat p" "unat p * 65536 < 4294967295" for Mem p
    using that by (simp add: mem_sane_def)
  then show ?thesis using assms
    by (auto simp: growLinearMemory_def Let_def mems_ok_def mem_grown_def DefaultBytesNumPerPage_def UINT32_MAX_def
        list_all2_conv_all_nth nth_list_update not_less word_less_nat_alt dest!: set_update_subset_insert [THEN subsetD])
qed

lemma replace_first_mem:
  assumes "mem0 I = Inr M" and "length B = length (MemData M)"
  shows "mems_ok I \<Longrightarrow> mems_ok (I\<lparr>Memories := M\<lparr>MemData := B\<rparr> # tl (Memories I)\<rparr>)"
    "mem_grown I (I\<lparr>Memories := M\<lparr>MemData := B\<rparr> # tl (Memories I)\<rparr>)"
  using assms by (auto simp: mem0_def mems_ok_def mem_grown_def mem_sane_def neq_Nil_conv list_all2_refl split: if_splits)

lemma storeOp_mem:
  assumes "storeOp v m D n F I = Inr (F', J)" and "mems_ok I"
  shows "mems_ok J \<and> mem_grown I J"
  using assms by (auto simp: storeOp_def bindE_Inr_iff intro: replace_first_mem dest!: mem_write_length split: if_splits)

lemma global_mem:
  "set_global D F I = Inr (F', J) \<Longrightarrow> Memories J = Memories I"
  "exec_global64 op D F I = Inr (F', J) \<Longrightarrow> Memories J = Memories I"
  by (auto simp: set_global_def exec_global64_def bindE_Inr_iff split: if_splits)

lemma native_mem:
  assumes "native_ok X" and "call_native X Callee F S = Inr r"
  shows "mem_step S (state_of r)"
proof -
  obtain Args G where p: "pop_args (rev (FParamTypes Callee)) F = Inr (Args, G)"
    using assms(2) by (auto simp: call_native_def bindE_Inr_iff)
  obtain I Results Err where n: "native X (FCodePtr Callee) (rev Args) (IInst S) = (I, Results, Err)"
    by (rule prod_cases3)
  have r: "state_of r = S\<lparr>IInst := I\<rparr> \<or> (\<exists>H. state_of r = set_frame H (S\<lparr>IInst := I\<rparr>))"
    using assms(2) by (cases Err) (auto simp: call_native_def p n bindE_Inr_iff)
  have s: "mem_step S (S\<lparr>IInst := I\<rparr>)"
    by (rule mem_step_inst) (use assms(1) n in \<open>auto simp: native_ok_def dest: spec [of _ "rev Args"]; metis fst_conv\<close>)
  show ?thesis using r s by auto
qed

lemma call_mem:
  assumes "native_ok X" and "callFuncInst X Callee F S = Inr r"
  shows "mem_step S (state_of r)"
proof (cases "FKind Callee = Native")
  case True
  then show ?thesis using native_mem [OF assms(1)] assms(2) by (simp add: callFuncInst_def)
next
  case False
  then show ?thesis using assms(2)
    by (auto simp: callFuncInst_def allocFrame_def bindE_Inr_iff Let_def intro!: mem_step_same split: if_splits option.splits list.splits)
qed

lemma return_mem: "do_return F S = Inr r \<Longrightarrow> mem_step S (state_of r)"
  by (auto simp: do_return_def freeFrame_def bindE_Inr_iff Let_def intro!: mem_step_same split: if_splits list.splits)

lemma end_mem: "exec_end F S = Inr r \<Longrightarrow> mem_step S (state_of r)"
  by (auto simp: exec_end_def bindE_Inr_iff intro: mem_step_same dest: return_mem split: if_splits outcome.splits)

lemma exec_call_mem:
  assumes "native_ok X"
  shows "exec_call X M D F S = Inr r \<Longrightarrow> mem_step S (state_of r)"
    and "exec_call_indirect X M D F S = Inr r \<Longrightarrow> mem_step S (state_of r)"
  by (auto simp: exec_call_def exec_call_indirect_def bindE_Inr_iff Let_def intro: mem_step_same dest: call_mem [OF assms] split: if_splits)

lemma grow_mem:
  assumes "exec_memory_grow X D F S = Inr T"
  shows "mem_step S T"
proof -
  obtain a F1 d F2 where d: "imm_u32 D F = Inr (a, F1)" "valuePop32 F1 = Inr (d, F2)"
    using assms by (auto simp: exec_memory_grow_def bindE_Inr_iff)
  obtain Ok I where g: "growLinearMemory (h_alloc X) 0 d (IInst S) = (Ok, I)" by (rule prod.exhaust)
  obtain G Mem where m: "mem0 I = Inr Mem" and T: "T = set_frame G (S\<lparr>IInst := I, LinearMemSize := length (MemData Mem)\<rparr>)"
    using assms by (auto simp: exec_memory_grow_def bindE_Inr_iff d g)
  show ?thesis using growLinearMemory_ok [of "IInst S" "h_alloc X" 0 d] g m T
    by (auto simp: mem_step_def mem_inv_def mem0_def neq_Nil_conv split: if_splits)
qed

lemma block_mem:
  "exec_block D F S = Inr T \<Longrightarrow> mem_step S T" "exec_loop D F S = Inr T \<Longrightarrow> mem_step S T" "exec_if D F S = Inr T \<Longrightarrow> mem_step S T"
  by (auto simp: exec_block_def exec_loop_def exec_if_def find_block_def bindE_Inr_iff intro!: mem_step_same
      split: if_splits option.splits prod.splits)

lemma with_mem:
  "with_frame S r = Inr x \<Longrightarrow> mem_step S (state_of x)"
  "with_inst S q = Inr x \<Longrightarrow> (\<And>F I. q = Inr (F, I) \<Longrightarrow> mem_step S (S\<lparr>IInst := I\<rparr>)) \<Longrightarrow> mem_step S (state_of x)"
  "go_on p = Inr x \<Longrightarrow> (\<And>T. p = Inr T \<Longrightarrow> mem_step S T) \<Longrightarrow> mem_step S (state_of x)"
  by (auto simp: with_frame_def with_inst_def go_on_def bindE_Inr_iff intro: mem_step_same)

lemma inst_mem:
  "storeOp v m D n F (IInst S) = Inr (F', J) \<Longrightarrow> mem_step S (S\<lparr>IInst := J\<rparr>)"
  "set_global D F (IInst S) = Inr (F', J) \<Longrightarrow> mem_step S (S\<lparr>IInst := J\<rparr>)"
  "exec_global64 op D F (IInst S) = Inr (F', J) \<Longrightarrow> mem_step S (S\<lparr>IInst := J\<rparr>)"
  by (simp_all add: mem_step_inst mem_step_same storeOp_mem global_mem)

lemma exec_op_mem:
  assumes "native_ok X" and "exec_op X M D op F S = Inr r"
  shows "mem_step S (state_of r)"
  using assms(2) unfolding exec_op_def
  by (auto split: if_splits option.splits prod.splits
      elim: with_mem intro: inst_mem block_mem grow_mem return_mem end_mem exec_call_mem [OF assms(1)])

section \<open>Whole runs\<close>

lemma interp_step_mem:
  assumes "native_ok X" and "interp_step X M D S = Inr r"
  shows "mem_step S (state_of r)"
  using assms(2) by (auto simp: interp_step_def intro: mem_step_same exec_op_mem [OF assms(1)]
      split: list.splits if_splits sum.splits cpp_error.splits)

lemma interp_run_mem:
  assumes "native_ok X"
  shows "interp_run X M D n S = Inr r \<Longrightarrow> mem_step S (state_of r)"
proof (induction n arbitrary: S)
  case (Suc n)
  then obtain q where q: "interp_step X M D S = Inr q" by (cases "interp_step X M D S") auto
  note s = interp_step_mem [OF assms q]
  show ?case
  proof (cases q)
    case (Running T)
    then show ?thesis using Suc q s by (auto intro: mem_step_trans)
  qed (use Suc.prems q s in auto)
qed (auto intro: mem_step_same)

lemma wasm_interpret_mem:
  assumes "native_ok X" and "wasm_interpret X M D n S = Inr r"
  shows "mem_step S (state_of r)"
proof (cases "IFrames S")
  case (Cons F Fs)
  show ?thesis
  proof (cases "FKind (FFunc F) = Native")
    case True
    then show ?thesis using assms(2) Cons call_mem [OF assms(1), of "FFunc F" F S]
      by (auto simp: wasm_interpret_def intro: mem_step_same split: sum.splits outcome.splits cpp_error.splits)
  next
    case False
    then show ?thesis using assms(2) Cons interp_run_mem [OF assms(1)] by (simp add: wasm_interpret_def)
  qed
qed (use assms(2) in \<open>simp add: wasm_interpret_def\<close>)

lemma start_frame_mem: "start_frame X f Args I = Inr S \<Longrightarrow> IInst S = I \<and> (mems_ok I \<longrightarrow> mem_inv S)"
  by (auto simp: start_frame_def bindE_Inr_iff allocFrame_def Let_def mem_inv_def split: if_splits list.splits)

text \<open>The memories of a new instance.\<close>

lemma mem_sane_data: "mem_sane M \<Longrightarrow> length B = length (MemData M) \<Longrightarrow> mem_sane (M\<lparr>MemData := B\<rparr>)"
  by (simp add: mem_sane_def)

lemma init_memory_ok:
  assumes "init_memory Bytes D I = Inr J" and "mems_ok I"
  shows "mems_ok J"
proof -
  let ?i = "unat (MemIdx D)"
  obtain B where B: "?i < length (Memories I)" "J = I\<lparr>Memories := (Memories I)[?i := (Memories I ! ?i)\<lparr>MemData := B\<rparr>]\<rparr>"
    "length B = length (MemData (Memories I ! ?i))"
    using assms(1) by (auto simp: init_memory_def bindE_Inr_iff Let_def dest!: mem_write_length split: if_splits)
  have "mem_sane ((Memories I ! ?i)\<lparr>MemData := B\<rparr>)"
    by (rule mem_sane_data) (use assms(2) B in \<open>simp_all add: mems_ok_def\<close>)
  moreover have "set (Memories J) \<subseteq> insert ((Memories I ! ?i)\<lparr>MemData := B\<rparr>) (set (Memories I))"
    using set_update_subset_insert [of "Memories I" ?i "(Memories I ! ?i)\<lparr>MemData := B\<rparr>"] B(2) by simp
  ultimately show ?thesis using assms(2) unfolding mems_ok_def by blast
qed

lemma init_memories_ok: "initMemoryByDataSegments Bytes Ds I = Inr J \<Longrightarrow> mems_ok I \<Longrightarrow> mems_ok J"
  by (induction Ds arbitrary: I) (auto simp: bindE_Inr_iff dest: init_memory_ok)

lemma new_memory_sane: "new_memory alloc fresh V E Imp = Inr Mem \<Longrightarrow> mem_sane Mem"
  by (auto simp: new_memory_def bindE_Inr_iff Let_def mem_sane_def DefaultBytesNumPerPage_def UINT32_MAX_def split: if_splits)

lemma mapE_set: "mapE f xs = Inr ys \<Longrightarrow> y \<in> set ys \<Longrightarrow> \<exists>x \<in> set xs. f x = Inr y"
  by (induction xs arbitrary: ys) (auto simp: bindE_Inr_iff)

lemma instantiate_mem:
  assumes "instantiate alloc fresh V Bytes M g = Inr I"
  shows "mems_ok I"
proof -
  obtain J Imp Own where m: "mapE (\<lambda>E. new_memory alloc fresh V E True) (ImportMemoryTable M) = Inr Imp"
    "mapE (\<lambda>E. new_memory alloc fresh V E False) (InternalMemoryTable M) = Inr Own"
    and i: "initMemoryByDataSegments Bytes (DataTable M) (J\<lparr>Memories := Imp @ Own\<rparr>) = Inr I"
    using assms by (auto simp: instantiate_def instantiateMemories_def bindE_Inr_iff split: if_splits)
  have "mem_sane Mem" if "Mem \<in> set (Imp @ Own)" for Mem
    using that mapE_set [OF m(1), of Mem] mapE_set [OF m(2), of Mem] new_memory_sane by auto
  then have "mems_ok (J\<lparr>Memories := Imp @ Own\<rparr>)" by (simp add: mems_ok_def)
  then show ?thesis by (rule init_memories_ok [OF i])
qed

text \<open>
  C11. The sandbox of a WebAssembly instance. Instantiation gives every memory exactly the bytes of its pages, less than four
  gigabytes. Whatever function is then called with whatever arguments and however long it runs, whether it is still running,
  has returned or has trapped, every memory is again as large as its number of pages, has not shrunk and has kept its
  maximum, and the size that the interpreter compares addresses with is at most the size of the memory. Native functions
  are assumed to keep the first part.
\<close>

theorem memory_sandboxed:
  assumes "native_ok X"
  shows "(instantiate alloc fresh V Bytes M g = Inr I \<longrightarrow> mems_ok I) \<and>
    (mems_ok I \<and> callWasmFunction X M D f Args I n = Inr r \<longrightarrow> mem_inv (state_of r) \<and> mem_grown I (IInst (state_of r)))"
proof -
  have "mem_inv (state_of r) \<and> mem_grown I (IInst (state_of r))" if I: "mems_ok I" and r: "callWasmFunction X M D f Args I n = Inr r"
  proof -
    obtain S where S: "start_frame X f Args I = Inr S" "wasm_interpret X M D n S = Inr r"
      using r by (auto simp: callWasmFunction_def bindE_Inr_iff)
    show ?thesis using start_frame_mem [OF S(1)] wasm_interpret_mem [OF assms S(2)] I by (simp add: mem_step_def)
  qed
  then show ?thesis using instantiate_mem by blast
qed

text \<open>A host whose native functions do nothing, and an instance with a memory of one page that can grow to two.\<close>

definition still_host :: "num_env \<Rightarrow> host" where
  "still_host N = \<lparr>num = N, h_alloc = (\<lambda>_. True), native = (\<lambda>p args I. (I, (\<lambda>_. 0), None))\<rparr>"

lemma still_native: "native_ok (still_host N)"
  by (simp add: native_ok_def still_host_def)

definition one_page :: MemoryInstance where
  "one_page = \<lparr>CurPages = 1, MMaxPages = 2, MemData = replicate 65536 0\<rparr>"

text \<open>\<open>i32.const 1; memory.grow; end\<close>.\<close>

definition grow_code :: "u8 list" where
  "grow_code = [I32_CONST, 1, MEMORY_GROW, 0, END]"

definition grow_fn :: FunctionInstance where
  "grow_fn = \<lparr>FNumParamCells = 0, FNumLocalCells = 0, FMaxStackSize = 4, FMaxBlockDepth = 1, FCodeSize = 5, FKind = ByteCode, FNumReturnCells = 0,
    FReturnTypes = [], FParamTypes = [],
    FuncType = \<lparr>NumParamCells = 0, NumReturnCells = 0, ReturnTypes = [], ParamTypes = [], SmallestTypeIdx = 0\<rparr>,
    FLocalTypes = [], FLocalOffsets = [], FCodePtr = 0\<rparr>"

definition grow_inst :: Instance where
  "grow_inst = (new_Instance 0)\<lparr>Functions := [grow_fn], Memories := [one_page]\<rparr>"

lemma grow_inst_ok: "mems_ok grow_inst"
  by (simp add: mems_ok_def mem_sane_def grow_inst_def one_page_def)

definition grow_start :: interp where
  "grow_start = \<lparr>IFrames = [\<lparr>FFunc = grow_fn, FIp = 0, Values = [], Ctrl = [\<lparr>TargetAddr = Some 4, BValues = 0, CellNum = 0, ILabel = LABEL_FUNCTION\<rparr>],
     LocalVars = [], FrameAddr = 0\<rparr>], StackTop = 108, IInst = grow_inst,
     LinearMemSize = 65536, ElseAddr = None, EndAddr = None, BlockAddrCache = (\<lambda>_. None)\<rparr>"

lemma grow_frame: "start_frame X 0 [] grow_inst = Inr grow_start"
  by (simp add: start_frame_def getFunctionInst_def allocFrame_def grow_fn_def Let_def new_Instance_def grow_start_def grow_inst_def one_page_def
     PresetReservedStackSize_def sizeof_InterpFrame_def sizeof_BlockInfo_def u32_cast_def blockPush_def set_frame_def IpEnd_def)

theorem memory_sandboxed_witness:
  "\<forall>N. \<exists>S. callWasmFunction (still_host N) new_Module grow_code 0 [] grow_inst 2 = Inr (Running S) \<and> mem_inv S \<and>
    mem_grown grow_inst (IInst S) \<and> LinearMemSize S = 131072"
proof
  fix N
  have e: "\<exists>S. callWasmFunction (still_host N) new_Module grow_code 0 [] grow_inst 2 = Inr (Running S) \<and> LinearMemSize S = 131072"
    by (simp add: callWasmFunction_def grow_frame wasm_interpret_def numeral_2_eq_2)
      (simp add: interp_step_def grow_start_def grow_fn_def IpEnd_def grow_code_def exec_op_def with_frame_def go_on_def set_frame_def exec_const_def
        imm_def readSafeLEBNumber_def valuePush32_def push_cells_def exec_memory_grow_def mem0_def valuePop32_def pop_cells_def
        growLinearMemory_def grow_inst_def one_page_def still_host_def new_Instance_def Let_def DefaultBytesNumPerPage_def UINT32_MAX_def)
  then show "\<exists>S. callWasmFunction (still_host N) new_Module grow_code 0 [] grow_inst 2 = Inr (Running S) \<and> mem_inv S \<and>
    mem_grown grow_inst (IInst S) \<and> LinearMemSize S = 131072"
    using memory_sandboxed [OF still_native [of N], where I = grow_inst and M = new_Module and D = grow_code and f = 0
        and Args = "[]" and n = 2] grow_inst_ok by fastforce
qed

section \<open>Loads and stores\<close>

lemma extend_le_bytes:
  "0 < b \<Longrightarrow> extend_loaded b sg (le_bytes b v) = (if sg then signed_take_bit (8 * b - 1) v else take_bit (8 * b) v)"
  by (cases b) (simp_all add: extend_loaded_def le_word_bytes signed_take_bit_take_bit)

text \<open>
  C12. A store of \<open>b\<close> bytes traps exactly when the address, the offset and the width exceed the size that the interpreter
  has, with no wrap-around of 32-bit sums, and changes nothing then. Otherwise it changes only the \<open>b\<close> bytes at the address,
  and a load of the same width from the same place, however it is split into address and offset, gives back the low
  \<open>8 * b\<close> bits of the value, extended by zeros or by the sign. Neither access leaves the memory.
\<close>

theorem store_load_exact:
  assumes "mem_inv S" and "Memories (IInst S) = M # Ms" and "0 < b"
    and "imm_u32 D F = Inr (al, F1)" and "imm_u32 D F1 = Inr (Off, F2)" and "pop_sized k F2 = Inr (Val, F3)"
    and "valuePop32 F3 = Inr (Addr, F4)"
  shows "if unat Addr + unat Off + b > LinearMemSize S
    then storeOp k b D (LinearMemSize S) F (IInst S) = Inl (Throw (Named ''OutOfBoundsMemory''))
    else \<exists>B. storeOp k b D (LinearMemSize S) F (IInst S) = Inr (F4, (IInst S)\<lparr>Memories := M\<lparr>MemData := B\<rparr> # Ms\<rparr>) \<and>
      length B = length (MemData M) \<and>
      (\<forall>i < length B. i < unat Addr + unat Off \<or> unat Addr + unat Off + b \<le> i \<longrightarrow> B ! i = MemData M ! i) \<and>
      (\<forall>D' G G1 G2 G3 al' Off' Addr' d sg. imm_u32 D' G = Inr (al', G1) \<and> imm_u32 D' G1 = Inr (Off', G2) \<and>
         valuePop32 G2 = Inr (Addr', G3) \<and> unat Addr' + unat Off' = unat Addr + unat Off \<longrightarrow>
         loadOp d b sg D' (LinearMemSize S) G ((IInst S)\<lparr>Memories := M\<lparr>MemData := B\<rparr> # Ms\<rparr>) =
           push_sized d (if sg then signed_take_bit (8 * b - 1) Val else take_bit (8 * b) Val) G3)"
proof (cases "unat Addr + unat Off + b > LinearMemSize S")
  case True
  then show ?thesis using assms(4-7) by (simp add: storeOp_def ac_simps)
next
  case False
  let ?a = "unat Off + unat Addr" and ?v = "le_bytes b Val"
  have size: "LinearMemSize S \<le> length (MemData M)" using assms(1,2) by (simp add: mem_inv_def)
  then have fit: "?a + length ?v \<le> length (MemData M)" "?v \<noteq> []" using False assms(3) by (auto simp flip: length_greater_0_conv)
  obtain B where B: "mem_write (MemData M) ?a ?v = Inr B" using fit by (simp add: mem_write_def)
  have store: "storeOp k b D (LinearMemSize S) F (IInst S) = Inr (F4, (IInst S)\<lparr>Memories := M\<lparr>MemData := B\<rparr> # Ms\<rparr>)"
    using False assms(2,4-7) B by (simp add: storeOp_def mem0_def ac_simps)
  have len: "length B = length (MemData M)" by (rule mem_write_length [OF B])
  have load: "loadOp d b sg D' (LinearMemSize S) G ((IInst S)\<lparr>Memories := M\<lparr>MemData := B\<rparr> # Ms\<rparr>) =
      push_sized d (if sg then signed_take_bit (8 * b - 1) Val else take_bit (8 * b) Val) G3"
    if "imm_u32 D' G = Inr (al', G1)" "imm_u32 D' G1 = Inr (Off', G2)" "valuePop32 G2 = Inr (Addr', G3)"
      "unat Addr' + unat Off' = unat Addr + unat Off" for D' G G1 G2 G3 al' Off' Addr' d sg
  proof -
    have "mem_read B (unat Off' + unat Addr') b = Inr ?v"
      using mem_write_read_same [OF B] that(4) by (simp add: add.commute)
    moreover have "\<not> unat Off' + b + unat Addr' > LinearMemSize S" using False that(4) by linarith
    ultimately show ?thesis using that(1-3) extend_le_bytes [OF assms(3)] by (simp add: loadOp_def mem0_def)
  qed
  have "B ! i = MemData M ! i" if "i < length B" "i < unat Addr + unat Off \<or> unat Addr + unat Off + b \<le> i" for i
    using mem_write_nth [OF B, of i] that len by auto
  then show ?thesis using False store len load by auto
qed

text \<open>The two low bytes of 65537 are stored at 6, and read back as 1.\<close>

definition access_frame :: InterpFrame where
  "access_frame = \<lparr>FFunc = grow_fn, FIp = 0, Values = [65537, 4], Ctrl = [], LocalVars = [], FrameAddr = 0\<rparr>"

theorem store_load_exact_witness:
  "\<exists>F' I'. storeOp 4 2 [1, 2] 65536 access_frame grow_inst = Inr (F', I') \<and>
    loadOp 4 2 False [1, 6] 65536 (access_frame\<lparr>Values := [0]\<rparr>) I' = push_sized 4 1 (access_frame\<lparr>FIp := 2, Values := []\<rparr>)"
proof -
  have inv: "mem_inv grow_start" "IInst grow_start = grow_inst" "LinearMemSize grow_start = 65536"
    using grow_inst_ok by (simp_all add: mem_inv_def grow_start_def grow_inst_def one_page_def)
  have m: "Memories (IInst grow_start) = one_page # []" by (simp add: grow_start_def grow_inst_def)
  have s: "imm_u32 [1, 2] access_frame = Inr (1, access_frame\<lparr>FIp := 1\<rparr>)"
    "imm_u32 [1, 2] (access_frame\<lparr>FIp := 1\<rparr>) = Inr (2, access_frame\<lparr>FIp := 2\<rparr>)"
    "pop_sized 4 (access_frame\<lparr>FIp := 2\<rparr>) = Inr (65537, access_frame\<lparr>FIp := 2, Values := [4]\<rparr>)"
    "valuePop32 (access_frame\<lparr>FIp := 2, Values := [4]\<rparr>) = Inr (4, access_frame\<lparr>FIp := 2, Values := []\<rparr>)"
    by (simp_all add: imm_def readSafeLEBNumber_def access_frame_def pop_sized_def valuePop32_def pop_cells_def)
  have l: "imm_u32 [1, 6] (access_frame\<lparr>Values := [0]\<rparr>) = Inr (1, access_frame\<lparr>Values := [0], FIp := 1\<rparr>)"
    "imm_u32 [1, 6] (access_frame\<lparr>Values := [0], FIp := 1\<rparr>) = Inr (6, access_frame\<lparr>Values := [0], FIp := 2\<rparr>)"
    "valuePop32 (access_frame\<lparr>Values := [0], FIp := 2\<rparr>) = Inr (0, access_frame\<lparr>FIp := 2, Values := []\<rparr>)"
    by (simp_all add: imm_def readSafeLEBNumber_def access_frame_def valuePop32_def pop_cells_def)
  have t: "take_bit (8 * 2) (65537 :: u64) = 1" by (simp add: take_bit_eq_mod)
  let ?I = "\<lambda>B. grow_inst\<lparr>Memories := [one_page\<lparr>MemData := B\<rparr>]\<rparr>"
  obtain B where st: "storeOp 4 2 [1, 2] 65536 access_frame grow_inst = Inr (access_frame\<lparr>FIp := 2, Values := []\<rparr>, ?I B)"
    and ld: "\<forall>D' G G1 G2 G3 al' Off' Addr' d sg. imm_u32 D' G = Inr (al', G1) \<and> imm_u32 D' G1 = Inr (Off', G2) \<and>
      valuePop32 G2 = Inr (Addr', G3) \<and> unat Addr' + unat Off' = unat (4 :: u32) + unat (2 :: u32) \<longrightarrow>
      loadOp d 2 sg D' 65536 G (?I B) = push_sized d (if sg then signed_take_bit (8 * 2 - 1) 65537 else take_bit (8 * 2) 65537) G3"
    using store_load_exact [OF inv(1) m _ s, of 2] inv(2,3) by auto
  have "unat (0 :: u32) + unat (6 :: u32) = unat (4 :: u32) + unat (2 :: u32)" by simp
  with ld l have "loadOp 4 2 False [1, 6] 65536 (access_frame\<lparr>Values := [0]\<rparr>) (?I B) =
      push_sized 4 (if False then signed_take_bit (8 * 2 - 1) 65537 else take_bit (8 * 2) 65537) (access_frame\<lparr>FIp := 2, Values := []\<rparr>)"
    by blast
  then show ?thesis using st t by auto
qed

end
