(* ===== verification/Wasm_Steps.thy ===== *)
theory Wasm_Steps
  imports Wasm_Function
begin

text \<open>
  What the instructions do to the two stacks of the function loader: an invariant of its states, and the effect of
  every instruction on the types of the values and on the blocks.
\<close>

section \<open>Well-formed loaders\<close>

abbreviation cur :: "FunctionLoader \<Rightarrow> ControlBlock" where
  "cur F \<equiv> hd (ControlBlocks F)"

abbreviation floor_of :: "FunctionLoader \<Rightarrow> nat" where
  "floor_of F \<equiv> InitNumValues (cur F)"

definition good_types :: "WASMType list \<Rightarrow> bool" where
  "good_types ts \<longleftrightarrow> list_all is_val ts"

text \<open>Only the outermost block is the function; the others take no parameters.\<close>

definition wf_block :: "ControlBlock \<Rightarrow> bool \<Rightarrow> bool" where
  "wf_block b outermost \<longleftrightarrow>
     (BLabel b = LABEL_FUNCTION \<longleftrightarrow> outermost) \<and>
     (case BlockType b of ValBlock t \<Rightarrow> \<not> outermost \<and> (is_val t \<or> t = VOID) | FuncBlock T \<Rightarrow> outermost) \<and>
     good_types (getReturnTypes (BlockType b)) \<and> length (getReturnTypes (BlockType b)) \<le> 1 \<and>
     (ElsePtr b \<noteq> None \<longrightarrow> BLabel b = LABEL_IF)"

fun wf_blocks :: "ControlBlock list \<Rightarrow> WASMType list \<Rightarrow> bool" where
  "wf_blocks [] V = True"
| "wf_blocks (b # bs) V \<longleftrightarrow>
     wf_block b (bs = []) \<and> InitNumValues b \<le> length V \<and> InitStackSize b = of_nat (tsizes (bottom (InitNumValues b) V)) \<and>
     wf_blocks bs (bottom (InitNumValues b) V)"

definition typed :: "FunctionLoader \<Rightarrow> bool" where
  "typed F \<longleftrightarrow> good_types (ValueTypes F) \<and> StackSize F = of_nat (tsizes (ValueTypes F)) \<and>
     wf_blocks (ControlBlocks F) (ValueTypes F) \<and> StackSize F \<le> MaxStackSize F \<and>
     length (ControlBlocks F) \<le> MaxBlockDepth F"

lemma good_types_simps [simp]: "good_types []" "good_types (t # ts) \<longleftrightarrow> is_val t \<and> good_types ts"
  "good_types (ts @ us) \<longleftrightarrow> good_types ts \<and> good_types us" "good_types (rev ts) \<longleftrightarrow> good_types ts"
  by (auto simp: good_types_def list_all_iff)

lemma good_types_sub: "good_types ts \<Longrightarrow> set us \<subseteq> set ts \<Longrightarrow> good_types us"
  by (auto simp: good_types_def list_all_iff)

lemma good_bottom [simp]: "good_types V \<Longrightarrow> good_types (bottom n V)"
  by (rule good_types_sub [OF _ set_bottom])

text \<open>
  An instruction that leaves the blocks as they are. In reachable code it takes \<open>ts\<close> off the stack and puts \<open>us\<close> on it.
\<close>

definition plain :: "WASMType list \<Rightarrow> WASMType list \<Rightarrow> FunctionLoader \<Rightarrow> FunctionLoader \<Rightarrow> bool" where
  "plain ts us F F' \<longleftrightarrow> typed F' \<and> ControlBlocks F' = ControlBlocks F \<and>
     bottom (floor_of F) (ValueTypes F') = bottom (floor_of F) (ValueTypes F) \<and>
     length (ValueTypes F') \<le> length (ValueTypes F) + length us \<and>
     MaxStackSize F \<le> MaxStackSize F' \<and> MaxBlockDepth F' = MaxBlockDepth F \<and>
     (\<not> StackPolymorphic (cur F) \<longrightarrow>
       (\<exists>rest. ValueTypes F = ts @ rest \<and> ValueTypes F' = us @ rest \<and> floor_of F \<le> length rest))"

lemma plainD:
  assumes "plain ts us F F'"
  shows "typed F'" "ControlBlocks F' = ControlBlocks F"
    "bottom (floor_of F) (ValueTypes F') = bottom (floor_of F) (ValueTypes F)"
    "length (ValueTypes F') \<le> length (ValueTypes F) + length us"
    "MaxStackSize F \<le> MaxStackSize F'" "MaxBlockDepth F' = MaxBlockDepth F"
  using assms by (auto simp: plain_def)

lemma plain_reachable:
  assumes "plain ts us F F'" and "\<not> StackPolymorphic (cur F)"
  obtains rest where "ValueTypes F = ts @ rest" "ValueTypes F' = us @ rest" "floor_of F \<le> length rest"
  using assms by (auto simp: plain_def)

lemma typedD:
  assumes "typed F" and "ControlBlocks F \<noteq> []"
  shows "good_types (ValueTypes F)" "StackSize F = of_nat (tsizes (ValueTypes F))" "floor_of F \<le> length (ValueTypes F)"
    "StackSize F \<le> MaxStackSize F"
  using assms by (cases "ControlBlocks F"; auto simp: typed_def)+

text \<open>The parts of the state that the stacks do not depend on.\<close>

definition same_stacks :: "FunctionLoader \<Rightarrow> FunctionLoader \<Rightarrow> bool" where
  "same_stacks F F' \<longleftrightarrow> ControlBlocks F' = ControlBlocks F \<and> ValueTypes F' = ValueTypes F \<and> StackSize F' = StackSize F \<and>
     MaxStackSize F' = MaxStackSize F \<and> MaxBlockDepth F' = MaxBlockDepth F"

lemma same_stacks_typed: "same_stacks F F' \<Longrightarrow> typed F' \<longleftrightarrow> typed F"
  by (simp add: same_stacks_def typed_def)

lemma same_stacks_plain: "same_stacks F F' \<Longrightarrow> plain ts us F' G \<longleftrightarrow> plain ts us F G"
  "same_stacks G G' \<Longrightarrow> plain ts us F G' \<longleftrightarrow> plain ts us F G"
  by (simp_all add: same_stacks_def plain_def same_stacks_typed typed_def)

lemma plain_refl:
  assumes "typed F" and "ControlBlocks F \<noteq> []"
  shows "plain [] [] F F"
  using assms typedD [OF assms] by (simp add: plain_def)

lemma same_stacks_readers:
  "readByte F = Inr (b, F') \<Longrightarrow> same_stacks F F'" "readU32 F = Inr (v, F') \<Longrightarrow> same_stacks F F'"
  "readI32 F = Inr (v, F') \<Longrightarrow> same_stacks F F'" "readI64 F = Inr (w, F') \<Longrightarrow> same_stacks F F'"
  "readF32 F = Inr (bs, F') \<Longrightarrow> same_stacks F F'" "readF64 F = Inr (bs, F') \<Longrightarrow> same_stacks F F'"
  "readBlockType F = Inr (t, F') \<Longrightarrow> same_stacks F F'"
  by (auto simp: same_stacks_def readByte_def readU32_def readI32_def readI64_def readF32_def readF64_def readBytes_def readLEB_def
      readBlockType_def readTypeBase_def bindE_Inr_iff split: if_splits)

lemma same_stacks_updates [simp]: "same_stacks F (add_stat s F)" "same_stacks F (rewrite b F)" "same_stacks F F"
  by (simp_all add: same_stacks_def add_stat_def rewrite_def)

section \<open>Single values\<close>

lemma wf_blocks_cong:
  assumes "wf_blocks bs V" and "bs \<noteq> []" and "bottom (InitNumValues (hd bs)) V' = bottom (InitNumValues (hd bs)) V"
    and "InitNumValues (hd bs) \<le> length V'"
  shows "wf_blocks bs V'"
  using assms by (cases bs) auto

lemma pop_plain:
  assumes "popValueType t F = Inr (u, F')" and "typed F" and "ControlBlocks F \<noteq> []"
  shows "(\<exists>V. ValueTypes F = u # V \<and> floor_of F \<le> length V \<and> (t = ANY \<or> u = t) \<and> plain [u] [] F F' \<and>
      F' = F\<lparr>ValueTypes := V, StackSize := of_nat (tsizes V)\<rparr>) \<or>
    StackPolymorphic (cur F) \<and> length (ValueTypes F) = floor_of F \<and> u = ANY \<and> F' = F"
proof (cases "length (ValueTypes F) = floor_of F")
  case True
  then show ?thesis using assms by (cases "ControlBlocks F") (auto simp: popValueType_def split: if_splits)
next
  case False
  obtain B Bs where B: "ControlBlocks F = B # Bs" using assms(3) by (cases "ControlBlocks F") auto
  have le: "InitNumValues B < length (ValueTypes F)" using False typedD(3) [OF assms(2,3)] B by simp
  then obtain v V where V: "ValueTypes F = v # V" by (cases "ValueTypes F") auto
  have v: "is_val v" "StackSize F = of_nat (tsize v + tsizes V)" using typedD [OF assms(2,3)] V by auto
  then have u: "u = v" "t = ANY \<or> v = t" "\<not> StackSize F < of_nat (tsize v)" "F' = F\<lparr>StackSize := StackSize F - of_nat (tsize v), ValueTypes := V\<rparr>"
    using assms(1) B V le is_val_any [OF v(1)] is_val_size [OF v(1)]
    by (auto simp: popValueType_def bindE_Inr_iff split: if_splits)
  then have F': "F' = F\<lparr>ValueTypes := V, StackSize := of_nat (tsizes V)\<rparr>" using v(2) by simp
  have S: "of_nat (tsizes V) \<le> StackSize F"
  proof -
    have "StackSize F - of_nat (tsize v) \<le> StackSize F" using u(3) by (simp add: word_sub_le not_less)
    then show ?thesis using v(2) by simp
  qed
  have "wf_blocks (ControlBlocks F) V"
    by (rule wf_blocks_cong [of _ "ValueTypes F"]) (use assms(2) B V le in \<open>auto simp: typed_def\<close>)
  then have "typed F'" using assms(2) V F' S by (auto simp: typed_def)
  then show ?thesis using V le u(1,2) F' B by (auto simp: plain_def)
qed

lemma push_plain:
  assumes "pushValueType t F = Inr F'" and "is_val t" and "typed F" and "ControlBlocks F \<noteq> []"
  shows "plain [] [t] F F'" "ValueTypes F' = t # ValueTypes F"
proof -
  let ?S = "of_nat (tsizes (t # ValueTypes F)) :: u32"
  have F': "F' = F\<lparr>ValueTypes := t # ValueTypes F, StackSize := ?S, MaxStackSize := max (MaxStackSize F) ?S\<rparr>"
    using assms(1) is_val_size [OF assms(2)] typedD(2) [OF assms(3,4)] by (auto simp: pushValueType_def Let_def add.commute)
  have le: "floor_of F \<le> length (ValueTypes F)" by (rule typedD [OF assms(3,4)])
  have "wf_blocks (ControlBlocks F) (t # ValueTypes F)"
    by (rule wf_blocks_cong [of _ "ValueTypes F"]) (use assms(3,4) le in \<open>auto simp: typed_def\<close>)
  then have "typed F'" using assms(2,3) F' by (auto simp: typed_def)
  then show "plain [] [t] F F'" "ValueTypes F' = t # ValueTypes F" using F' le by (auto simp: plain_def)
qed

section \<open>Sequences of values\<close>

lemma plain_pop_trans:
  assumes "plain ts [] F G" and "plain ts' us G H"
  shows "plain (ts @ ts') us F H"
  using assms unfolding plain_def by auto

lemma plain_push_trans:
  assumes "plain ts us F G" and "plain [] vs G H"
  shows "plain ts (vs @ us) F H"
  using assms unfolding plain_def by auto

lemma plain_any: "typed F \<Longrightarrow> StackPolymorphic (cur F) \<Longrightarrow> plain ts [] F F"
  by (simp add: plain_def)

lemma plain_blocks: "plain ts us F F' \<Longrightarrow> ControlBlocks F \<noteq> [] \<Longrightarrow> ControlBlocks F' \<noteq> []"
  by (simp add: plain_def)

lemma pop_val:
  assumes "popValueType t F = Inr (u, F')" and "t \<noteq> ANY" and "typed F" and "ControlBlocks F \<noteq> []"
  shows "plain [t] [] F F'"
  using pop_plain [OF assms(1,3,4)] assms(2) plain_any [OF assms(3)] by auto

lemma pops_val:
  assumes "pops ts F = Inr F'" and "good_types ts" and "typed F" and "ControlBlocks F \<noteq> []"
  shows "plain ts [] F F'"
  using assms
proof (induction ts arbitrary: F)
  case Nil
  then show ?case using plain_refl by simp
next
  case (Cons t ts)
  obtain u G where G: "popValueType t F = Inr (u, G)" "pops ts G = Inr F'" using Cons.prems(1) by (auto simp: bindE_Inr_iff)
  have p: "plain [t] [] F G" using pop_val [OF G(1) _ Cons.prems(3,4)] Cons.prems(2) is_val_any by simp
  have "plain ts [] G F'"
    by (rule Cons.IH [OF G(2)]) (use Cons.prems plainD(1) [OF p] plain_blocks [OF p] in auto)
  from plain_pop_trans [OF p this] show ?case by simp
qed

lemma pushes_val:
  assumes "pushes us F = Inr F'" and "good_types us" and "typed F" and "ControlBlocks F \<noteq> []"
  shows "plain [] (rev us) F F' \<and> ValueTypes F' = rev us @ ValueTypes F"
  using assms
proof (induction us arbitrary: F)
  case Nil
  then show ?case using plain_refl by simp
next
  case (Cons u us)
  obtain G where G: "pushValueType u F = Inr G" "pushes us G = Inr F'" using Cons.prems(1) by (auto simp: bindE_Inr_iff)
  have p: "plain [] [u] F G" "ValueTypes G = u # ValueTypes F"
    using push_plain [OF G(1) _ Cons.prems(3,4)] Cons.prems(2) by simp_all
  have "plain [] (rev us) G F' \<and> ValueTypes F' = rev us @ ValueTypes G"
    by (rule Cons.IH [OF G(2)]) (use Cons.prems plainD(1) [OF p(1)] plain_blocks [OF p(1)] in auto)
  then show ?case using plain_push_trans [OF p(1)] p(2) by auto
qed

lemma pops_pushes:
  assumes "pops ts F = Inr G" and "pushes us G = Inr F'" and "good_types ts" "good_types us" and "typed F" and "ControlBlocks F \<noteq> []"
  shows "plain ts (rev us) F F'"
proof -
  have p: "plain ts [] F G" by (rule pops_val [OF assms(1,3,5,6)])
  have "plain [] (rev us) G F'"
    using pushes_val [OF assms(2,4) plainD(1) [OF p] plain_blocks [OF p assms(6)]] by simp
  from plain_push_trans [OF p this] show ?thesis by simp
qed

text \<open>Types that were popped and pushed again in unreachable code.\<close>

lemma repush_length:
  assumes "pops ts F = Inr G" and "good_types ts" "length ts \<le> 1" and "typed F" and "ControlBlocks F \<noteq> []"
  shows "length (ValueTypes G) + length ts \<le> length (ValueTypes F) + 1"
proof -
  have "plain ts [] F G" by (rule pops_val [OF assms(1,2,4,5)])
  then show ?thesis using plainD(4) assms(3) by fastforce
qed

lemma popAndPush_plain:
  assumes "popAndPushValueType n t u F = Inr F'" and "is_val t" "is_val u" and "typed F" and "ControlBlocks F \<noteq> []"
  shows "plain (replicate n t) [u] F F'"
proof -
  obtain G where G: "pops (replicate n t) F = Inr G" "pushes [u] G = Inr F'"
    using assms(1) by (auto simp: popAndPushValueType_def bindE_Inr_iff)
  show ?thesis
    using pops_pushes [OF G _ _ assms(4,5)] assms(2,3) by (simp add: good_types_def list_all_iff)
qed

section \<open>Checks at branches and at the end of blocks\<close>

lemma target_stack:
  assumes "checkTargetBlockStack ts A V = Inr ()" and "length ts \<le> 1" and "good_types ts"
  shows "\<exists>rest. V = ts @ rest \<and> (ts \<noteq> [] \<longrightarrow> A \<noteq> 0)"
proof (cases ts)
  case (Cons t us)
  then have t: "ts = [t]" "is_val t" using assms(2,3) by (cases us; simp)+
  then have "\<not> A < of_nat (tsize t)" "V \<noteq> []" "hd V = t"
    using assms(1) is_val_size [OF t(2)] by (auto split: if_splits list.splits)
  moreover have "(of_nat (tsize t) :: u32) \<noteq> 0" using is_val_bounds [OF t(2)] by auto
  ultimately show ?thesis using t(1) by (cases V) (auto simp: word_neq_0_conv)
qed simp

lemma sum_cells_good: "good_types ts \<Longrightarrow> length ts \<le> 1 \<Longrightarrow> sum_cells ts = Inr (of_nat (tsizes ts div 4))"
  using is_val_cells by (cases ts) (auto simp: le_Suc_eq)

lemma tsizes_mult: "good_types V \<Longrightarrow> \<exists>k. tsizes V = 4 * k \<and> length V \<le> k"
proof (induction V)
  case (Cons v V)
  then obtain k where k: "tsizes V = 4 * k" "length V \<le> k" by auto
  have "tsize v \<in> {4, 8}" using is_val_bounds Cons.prems by simp
  then show ?case using k by (auto intro: exI [of _ "k + 1"] exI [of _ "k + 2"])
qed simp

lemma tsizes_less: "good_types V \<Longrightarrow> tsizes V \<le> 8 * length V"
  using is_val_bounds by (induction V) fastforce+

text \<open>The stack is small enough for its size to fit.\<close>

definition small :: "FunctionLoader \<Rightarrow> bool" where
  "small F \<longleftrightarrow> length (ValueTypes F) < 2 ^ 28"

lemma small_size: "good_types V \<Longrightarrow> length V < 2 ^ 28 \<Longrightarrow> tsizes V < 2 ^ 32"
  using tsizes_less [of V] by simp

abbreviation results :: "ControlBlock \<Rightarrow> WASMType list" where
  "results b \<equiv> getReturnTypes (BlockType b)"

lemma typed_cur:
  assumes "typed F" and "ControlBlocks F = b # bs"
  shows "wf_block b (bs = [])" "good_types (results b)" "length (results b) \<le> 1"
    "InitStackSize b = of_nat (tsizes (bottom (InitNumValues b) (ValueTypes F)))"
  using assms by (auto simp: typed_def wf_block_def)

lemma short_rev: "length ts \<le> 1 \<Longrightarrow> rev ts = ts"
  by (cases ts) auto

lemma of_nat_fits: "n < 2 ^ 32 \<Longrightarrow> unat (of_nat n :: u32) = n"
  by (simp add: unsigned_of_nat take_bit_nat_eq_self)

lemma of_nat_mono32: "m \<le> n \<Longrightarrow> n < 2 ^ 32 \<Longrightarrow> (of_nat m :: u32) \<le> of_nat n"
  by (simp add: word_le_nat_alt of_nat_fits)

lemma shift2: "unat (drop_bit 2 (w :: u32)) = unat w div 4"
  unfolding unsigned_drop_bit_eq using unsigned_less [of w, where ?'a = nat] by (simp add: drop_bit_eq_div take_bit_nat_eq_self)

lemma exact_size:
  assumes V: "V = W @ B" and g: "good_types V" "length V < 2 ^ 28" and ts: "good_types ts" "length ts \<le> 1"
    and c: "drop_bit 2 (of_nat (tsizes V) - of_nat (tsizes B) :: u32) = of_nat (tsizes ts div 4)"
    and t: "V = ts @ rest"
  shows "V = ts @ B"
proof -
  obtain k where k: "tsizes W = 4 * k" "length W \<le> k" using tsizes_mult [of W] g(1) V by auto
  have fits: "tsizes W < 2 ^ 32" using small_size [OF g] V by simp
  have A: "(of_nat (tsizes V) - of_nat (tsizes B) :: u32) = of_nat (tsizes W)" using V by simp
  have "unat (of_nat (tsizes W) :: u32) = tsizes W" by (rule of_nat_fits) (use fits in simp)
  then have "unat (drop_bit 2 (of_nat (tsizes W) :: u32)) = k" unfolding shift2 k(1) by simp
  moreover have "unat (of_nat (tsizes ts div 4) :: u32) = tsizes ts div 4"
    using tsizes_less [OF ts(1)] ts(2) by (intro of_nat_fits) simp
  ultimately have k': "k = tsizes ts div 4" using c A by simp
  show ?thesis
  proof (cases ts)
    case Nil
    then show ?thesis using k k' V by simp
  next
    case (Cons t us)
    then have t': "ts = [t]" "is_val t" using ts by (cases us; simp)+
    then have "k > 0" "W \<noteq> []" using k' is_val_bounds [OF t'(2)] k(1) by auto
    then obtain W' where W: "W = t # W'" using V t t' by (cases W) auto
    have "4 * k = tsize t" using k' t' is_val_bounds [OF t'(2)] by auto
    then have "tsizes W' = 0" using k(1) W by simp
    moreover have "good_types W'" using g(1) V W by simp
    ultimately have "W' = []" using tsizes_mult [of W'] by auto
    then show ?thesis using V W t' by simp
  qed
qed

lemma block_end_types:
  assumes c: "checkBlockStack F = Inr F'" and t: "typed F" "small F" and B: "ControlBlocks F = b # bs"
  shows "typed F' \<and> ControlBlocks F' = ControlBlocks F \<and> ValueTypes F' = results b @ bottom (InitNumValues b) (ValueTypes F) \<and>
    MaxStackSize F \<le> MaxStackSize F' \<and> MaxBlockDepth F' = MaxBlockDepth F \<and>
    length (ValueTypes F') \<le> length (ValueTypes F) + 1 \<and> (\<not> StackPolymorphic b \<longrightarrow> F' = F)"
proof -
  let ?ts = "results b"
  note g = typed_cur [OF t(1) B]
  have ne: "ControlBlocks F \<noteq> []" and cur: "cur F = b" using B by simp_all
  note T = typedD [OF t(1) ne, unfolded cur]
  have c': "checkTopTypes b ?ts False F = Inr F'" using c B by (simp add: checkBlockStack_def)
  show ?thesis
  proof (cases "StackPolymorphic b")
    case True
    then obtain G where G: "pops (rev ?ts) F = Inr G" "pushes ?ts G = Inr F'"
      "length (ValueTypes F') - InitNumValues b = length ?ts"
      using c' by (auto simp: checkTopTypes_def Let_def bindE_Inr_iff split: if_splits)
    have p: "plain (rev ?ts) (rev ?ts) F F'" by (rule pops_pushes [OF G(1,2)]) (use g t ne in simp_all)
    have q: "plain (rev ?ts) [] F G" by (rule pops_val [OF G(1)]) (use g t ne in simp_all)
    have V: "ValueTypes F' = ?ts @ ValueTypes G"
      using pushes_val [OF G(2) g(2) plainD(1) [OF q] plain_blocks [OF q ne]] short_rev [OF g(3)] by simp
    have "InitNumValues b \<le> length (ValueTypes G)" using typedD(3) [OF plainD(1) [OF q]] plainD(2) [OF q] B by simp
    then have "length (ValueTypes G) = InitNumValues b" using G(3) V by simp
    then have "ValueTypes G = bottom (InitNumValues b) (ValueTypes F)" using plainD(3) [OF q] cur by (metis bottom_length(2))
    then show ?thesis using V plainD [OF p] g(3) True by auto
  next
    case False
    have n: "sum_cells ?ts = Inr (of_nat (tsizes ?ts div 4))" by (rule sum_cells_good [OF g(2,3)])
    have r: "F' = F" "drop_bit 2 (StackSize F - InitStackSize b) = of_nat (tsizes ?ts div 4)"
      "checkTargetBlockStack (rev ?ts) (StackSize F - InitStackSize b) (ValueTypes F) = Inr ()"
      using c' False n by (auto simp: checkTopTypes_def Let_def bindE_Inr_iff split: if_splits)
    obtain rest where rest: "ValueTypes F = ?ts @ rest"
      using target_stack [OF r(3)] g(2,3) short_rev [OF g(3)] by auto
    obtain W where W: "ValueTypes F = W @ bottom (InitNumValues b) (ValueTypes F)" using bottom_split T(3) by metis
    have "ValueTypes F = ?ts @ bottom (InitNumValues b) (ValueTypes F)"
      by (rule exact_size [OF W T(1) _ g(2,3) _ rest]) (use t(2) r(2) T(2) g(4) in \<open>simp_all add: small_def\<close>)
    then show ?thesis using r(1) t(1) by simp
  qed
qed

section \<open>Positions\<close>

definition same_pos :: "FunctionLoader \<Rightarrow> FunctionLoader \<Rightarrow> bool" where
  "same_pos F F' \<longleftrightarrow> Ptr F' = Ptr F \<and> Data F' = Data F \<and> End F' = End F"

named_theorems same_pos_intros

lemma same_pos_refl [simp]: "same_pos F F" and same_pos_trans: "same_pos F G \<Longrightarrow> same_pos G H \<Longrightarrow> same_pos F H"
  by (auto simp: same_pos_def)

lemma same_pos_stack [same_pos_intros]:
  "popValueType t F = Inr (u, F') \<Longrightarrow> same_pos F F'" "pushValueType t F = Inr F' \<Longrightarrow> same_pos F F'"
  "resetStack F = Inr F' \<Longrightarrow> same_pos F F'" "setStackPolymorphic p F = Inr F' \<Longrightarrow> same_pos F F'" "popBlock F = Inr F' \<Longrightarrow> same_pos F F'"
  by (auto simp: same_pos_def popValueType_def pushValueType_def resetStack_def setStackPolymorphic_def popBlock_def bindE_Inr_iff
      Let_def split: list.splits if_splits)

lemma same_pos_update [simp]: "Data (add_stat s G) = Data G" "Data (set_else p G) = Data G" "Data (pushBlock l t p G) = Data G"
  by (auto simp: add_stat_def set_else_def pushBlock_def Let_def split: list.splits)

lemma same_pos_pops [same_pos_intros]: "pops ts F = Inr F' \<Longrightarrow> same_pos F F'"
  by (induction ts F rule: pops.induct) (fastforce simp: bindE_Inr_iff same_pos_def dest!: same_pos_intros)+

lemma same_pos_pushes [same_pos_intros]: "pushes ts F = Inr F' \<Longrightarrow> same_pos F F'"
  by (induction ts F rule: pushes.induct) (fastforce simp: bindE_Inr_iff same_pos_def dest!: same_pos_intros)+

lemma same_pos_ops [same_pos_intros]:
  "leave F = Inr F' \<Longrightarrow> same_pos F F'" "popAndPushValueType n t u F = Inr F' \<Longrightarrow> same_pos F F'"
  "checkTopTypes B ts i F = Inr F' \<Longrightarrow> same_pos F F'" "pushBlockParamTypes F = Inr F' \<Longrightarrow> same_pos F F'"
  by (auto simp: leave_def popAndPushValueType_def checkTopTypes_def pushBlockParamTypes_def bindE_Inr_iff Let_def same_pos_def
      simp del: pops.simps pushes.simps dest!: same_pos_intros split: list.splits if_splits)

lemma same_pos_check [same_pos_intros]: "checkBlockStack F = Inr F' \<Longrightarrow> same_pos F F'"
  by (auto simp: checkBlockStack_def dest!: same_pos_intros split: list.splits)

text \<open>What an instruction reads before it changes the stacks.\<close>

lemma typed_read:
  assumes "same_stacks F G" and "typed F" and "ControlBlocks F \<noteq> []"
  shows "typed G" "ControlBlocks G \<noteq> []"
  using assms same_stacks_typed [OF assms(1)] by (simp_all add: same_stacks_def)

section \<open>Leaving a block\<close>

lemma init_below:
  assumes "typed F" and "small F" and B: "ControlBlocks F = b # bs"
  shows "InitStackSize b \<le> MaxStackSize F"
proof -
  have ne: "ControlBlocks F \<noteq> []" using B by simp
  note T = typedD [OF assms(1) ne] and g = typed_cur [OF assms(1) B]
  obtain W where W: "ValueTypes F = W @ bottom (InitNumValues b) (ValueTypes F)"
    using bottom_split [of "InitNumValues b" "ValueTypes F"] T(3) B by auto
  have "InitStackSize b \<le> StackSize F" unfolding T(2) g(4)
    by (rule of_nat_mono32) (use arg_cong [OF W, of tsizes] small_size [OF T(1)] assms(2) in \<open>simp_all add: small_def\<close>)
  then show ?thesis using T(4) by simp
qed

lemma leave_effect:
  assumes "leave F = Inr F'" and "typed F" and B: "ControlBlocks F = b # bs" and "small F"
  shows "typed F'" "ControlBlocks F' = b\<lparr>StackPolymorphic := True\<rparr> # bs" "ValueTypes F' = bottom (InitNumValues b) (ValueTypes F)"
    "MaxStackSize F' = MaxStackSize F" "MaxBlockDepth F' = MaxBlockDepth F"
proof -
  have ne: "ControlBlocks F \<noteq> []" using B by simp
  note T = typedD [OF assms(2) ne]
  have le: "\<not> length (ValueTypes F) < InitNumValues b" using T(3) B by simp
  then have F': "F' = F\<lparr>StackSize := InitStackSize b, ValueTypes := bottom (InitNumValues b) (ValueTypes F),
      ControlBlocks := b\<lparr>StackPolymorphic := True\<rparr> # bs\<rparr>"
    using assms(1) B by (auto simp: leave_def resetStack_def setStackPolymorphic_def bindE_Inr_iff Let_def bottom_def)
  show "ControlBlocks F' = b\<lparr>StackPolymorphic := True\<rparr> # bs" "ValueTypes F' = bottom (InitNumValues b) (ValueTypes F)"
    "MaxStackSize F' = MaxStackSize F" "MaxBlockDepth F' = MaxBlockDepth F" using F' by simp_all
  have "InitStackSize b \<le> MaxStackSize F" by (rule init_below [OF assms(2,4) B])
  then show "typed F'" using F' assms(2) B le by (auto simp: typed_def wf_block_def)
qed

section \<open>Branches\<close>

lemma label_types_good:
  assumes "wf_block b o'"
  shows "good_types (label_types b)" "length (label_types b) \<le> 1"
    "label_types b = (if BLabel b = LABEL_LOOP then [] else results b)"
  using assms by (auto simp: wf_block_def label_types_def split: ControlBlockType.splits)

lemma wf_blocks_nth: "wf_blocks bs V \<Longrightarrow> k < length bs \<Longrightarrow> \<exists>p. wf_block (bs ! k) p"
proof (induction bs arbitrary: V k)
  case (Cons b bs)
  then show ?case by (cases k) auto
qed simp

lemma branch_effect:
  assumes c: "checkBranch F = Inr (T, F')" and t: "typed F" "small F" and B: "ControlBlocks F = b # bs"
  obtains k G where "readU32 F = Inr (k, G)" "unat k < length (ControlBlocks F)" "T = ControlBlocks F ! unat k" "same_pos G F'"
    "plain (label_types T) (label_types T) F F'" "good_types (label_types T)" "length (label_types T) \<le> 1"
proof -
  obtain k G where k: "readU32 F = Inr (k, G)" "\<not> length (ControlBlocks G) \<le> unat k" "T = ControlBlocks G ! unat k"
    using c by (auto simp: checkBranch_def Let_def bindE_Inr_iff split: if_splits)
  have s: "same_stacks F G" by (rule same_stacks_readers(2) [OF k(1)])
  have ne: "ControlBlocks F \<noteq> []" using B by simp
  note G = typed_read [OF s t(1) ne]
  have B': "ControlBlocks G = b # bs" "ControlBlocks G = ControlBlocks F" using B s by (simp_all add: same_stacks_def)
  obtain p where "wf_block T p" using wf_blocks_nth [of "ControlBlocks G" "ValueTypes G" "unat k"] G(1) k(2,3) by (auto simp: typed_def)
  note g = label_types_good [OF this]
  have "same_pos G F' \<and> plain (label_types T) (label_types T) G F'"
  proof (cases "StackPolymorphic b")
    case True
    then obtain H where H: "pops (rev (label_types T)) G = Inr H" "pushes (label_types T) H = Inr F'"
      using c k B' by (auto simp: checkBranch_def Let_def bindE_Inr_iff split: if_splits)
    then show ?thesis
      using pops_pushes [OF H _ _ G] g short_rev [OF g(2)] same_pos_trans [OF same_pos_pops [OF H(1)] same_pos_pushes [OF H(2)]]
      by simp
  next
    case False
    then have r: "F' = G" "checkTargetBlockStack (rev (label_types T)) (StackSize G - InitStackSize b) (ValueTypes G) = Inr ()"
      using c k B' by (auto simp: checkBranch_def Let_def bindE_Inr_iff split: if_splits)
    obtain rest where rest: "ValueTypes G = label_types T @ rest" "label_types T \<noteq> [] \<longrightarrow> StackSize G - InitStackSize b \<noteq> 0"
      using target_stack [OF r(2)] g short_rev [OF g(2)] by auto
    have le: "InitNumValues b \<le> length (ValueTypes G)" using typedD(3) [OF G] B' by simp
    have "InitNumValues b \<le> length rest"
    proof (cases "label_types T = []")
      case False
      then have "StackSize G \<noteq> InitStackSize b" using rest(2) by auto
      then have "InitNumValues b \<noteq> length (ValueTypes G)" using typed_cur(4) [OF G(1) B'(1)] typedD(2) [OF G] by auto
      then show ?thesis using le rest(1) g(2) by simp
    qed (use le rest in simp)
    then show ?thesis using r(1) rest(1) G(1) B' by (auto simp: plain_def)
  qed
  then have "same_pos G F'" "plain (label_types T) (label_types T) F F'" using same_stacks_plain(1) [OF s] by auto
  then show thesis using that [OF k(1)] k(2,3) B' g by (simp add: not_le)
qed

text \<open>The targets of a table are checked one after the other.\<close>

lemma br_targets_list:
  "br_targets n E F = Inr F' \<Longrightarrow> \<exists>Gs. length Gs = Suc n \<and> Gs ! 0 = F \<and> Gs ! n = F' \<and>
    (\<forall>j<n. \<exists>T. checkBranch (Gs ! j) = Inr (T, Gs ! Suc j))"
proof (induction n arbitrary: E F)
  case 0
  then show ?case by (intro exI [of _ "[F]"]) auto
next
  case (Suc n)
  obtain T G E' where G: "checkBranch F = Inr (T, G)" "br_targets n E' G = Inr F'"
    using Suc.prems by (auto simp: bindE_Inr_iff split: option.splits if_splits)
  obtain Gs where Gs: "length Gs = Suc n" "Gs ! 0 = G" "Gs ! n = F'" "\<forall>j<n. \<exists>T. checkBranch (Gs ! j) = Inr (T, Gs ! Suc j)"
    using Suc.IH [OF G(2)] by blast
  show ?case
    by (rule exI [of _ "F # Gs"]) (use Gs G(1) in \<open>auto simp: nth_Cons split: nat.splits\<close>)
qed

section \<open>Blocks\<close>

lemma block_effect:
  assumes l: "load_block L F = Inr F'" and t: "typed F" and ne: "ControlBlocks F \<noteq> []" and L: "L \<noteq> LABEL_FUNCTION"
  obtains ty G where "readBlockType F = Inr (ty, G)" "F' = pushBlock L (ValBlock ty) (Ptr G) G" "typed F'" "is_val ty \<or> ty = VOID"
proof -
  obtain ty G where G: "readBlockType F = Inr (ty, G)" "pushBlockParamTypes (pushBlock L (ValBlock ty) (Ptr G) G) = Inr F'"
    using l by (auto simp: load_block_def bindE_Inr_iff)
  have F': "F' = pushBlock L (ValBlock ty) (Ptr G) G" using G(2) by (auto simp: pushBlockParamTypes_def pushBlock_def Let_def)
  have s: "same_stacks F G" by (rule same_stacks_readers(7) [OF G(1)])
  note T = typed_read [OF s t ne]
  have ty: "is_val ty \<or> ty = VOID" by (rule readBlockType_val [OF G(1)])
  have "good_types (getReturnTypes (ValBlock ty))" "length (getReturnTypes (ValBlock ty)) \<le> 1" using ty by auto
  then have "typed F'" using T L ty typedD(2) [OF T] by (auto simp: F' typed_def pushBlock_def Let_def wf_block_def)
  then show thesis using that G(1) F' ty by blast
qed

lemma reset_types: "\<not> length V < n \<Longrightarrow> (if length V < n then replicate (n - length V) VOID @ V else drop (length V - n) V) = bottom n V"
  by (simp add: bottom_def)

lemma else_effect:
  assumes l: "load_else F = Inr F'" and t: "typed F" "small F" and B: "ControlBlocks F = b # bs"
  shows "BLabel b = LABEL_IF" "ElsePtr b = None" "typed F'"
    "ControlBlocks F' = b\<lparr>ElsePtr := Some (Ptr F - 1), StackPolymorphic := False\<rparr> # bs"
    "ValueTypes F' = bottom (InitNumValues b) (ValueTypes F)" "same_pos F F'" "MaxStackSize F \<le> MaxStackSize F'"
    "\<not> StackPolymorphic b \<longrightarrow> ValueTypes F = results b @ bottom (InitNumValues b) (ValueTypes F)"
    "MaxBlockDepth F' = MaxBlockDepth F"
proof -
  show I: "BLabel b = LABEL_IF" "ElsePtr b = None" using l B by (auto simp: load_else_def split: if_splits)
  obtain G where G: "checkBlockStack F = Inr G"
    "bindE (resetStack (set_else (Ptr G - 1) G)) (\<lambda>F. bindE (setStackPolymorphic False F) pushBlockParamTypes) = Inr F'"
    using l B I by (auto simp: load_else_def bindE_Inr_iff)
  note e = block_end_types [OF G(1) t B] and pos = same_pos_check [OF G(1)]
  have BG: "ControlBlocks G = b # bs" and TG: "typed G" and VG: "ValueTypes G = results b @ bottom (InitNumValues b) (ValueTypes F)"
    using e B by auto
  have p: "getParamTypes (BlockType b) = []" using typed_cur(1) [OF t(1) B] I(1) by (auto simp: wf_block_def split: ControlBlockType.splits)
  have le: "\<not> length (ValueTypes G) < InitNumValues b" using typedD(3) [OF TG] BG by simp
  let ?b = "b\<lparr>ElsePtr := Some (Ptr G - 1), StackPolymorphic := False\<rparr>"
  have F': "F' = G\<lparr>StackSize := InitStackSize b, ValueTypes := bottom (InitNumValues b) (ValueTypes G), ControlBlocks := ?b # bs\<rparr>"
    using G(2) BG p le by (auto simp: set_else_def resetStack_def setStackPolymorphic_def pushBlockParamTypes_def bindE_Inr_iff Let_def bottom_def)
  have leF: "InitNumValues b \<le> length (ValueTypes F)" using typedD(3) [OF t(1)] B by simp
  have V: "bottom (InitNumValues b) (ValueTypes G) = bottom (InitNumValues b) (ValueTypes F)" using VG leF by simp
  show "ControlBlocks F' = b\<lparr>ElsePtr := Some (Ptr F - 1), StackPolymorphic := False\<rparr> # bs"
    "ValueTypes F' = bottom (InitNumValues b) (ValueTypes F)" "same_pos F F'" "MaxStackSize F \<le> MaxStackSize F'"
    "MaxBlockDepth F' = MaxBlockDepth F"
    using F' V e pos by (auto simp: same_pos_def)
  show "\<not> StackPolymorphic b \<longrightarrow> ValueTypes F = results b @ bottom (InitNumValues b) (ValueTypes F)" using e by auto
  have "InitStackSize b \<le> MaxStackSize G" using init_below [OF t B] e by auto
  moreover have "wf_block ?b (bs = [])"
    using typed_cur(1) [OF t(1) B] I(1) by (auto simp: wf_block_def split: ControlBlockType.splits)
  ultimately show "typed F'" using TG BG le by (simp add: F' typed_def)
qed

lemma end_effect:
  assumes l: "load_end F = Inr F'" and t: "typed F" "small F" and B: "ControlBlocks F = b # bs"
  shows "typed F'" "ControlBlocks F' = bs" "ValueTypes F' = results b @ bottom (InitNumValues b) (ValueTypes F)" "same_pos F F'"
    "MaxStackSize F \<le> MaxStackSize F'" "length (ValueTypes F') \<le> length (ValueTypes F) + 1"
    "\<not> StackPolymorphic b \<longrightarrow> ValueTypes F' = ValueTypes F" "BLabel b = LABEL_FUNCTION \<Longrightarrow> End F \<le> Ptr F" "BLabel b = LABEL_FUNCTION \<longleftrightarrow> bs = []"
    "BLabel b = LABEL_IF \<Longrightarrow> ElsePtr b = None \<Longrightarrow> results b = []" "MaxBlockDepth F' = MaxBlockDepth F"
proof -
  obtain G where G: "checkBlockStack F = Inr G"
    "\<not> (BLabel b = LABEL_IF \<and> ElsePtr b = None \<and> \<not> isBalanced (BlockType b))"
    "BLabel b = LABEL_FUNCTION \<longrightarrow> length (ControlBlocks G) = 1 \<and> \<not> Ptr G < End G"
    "BLabel b \<noteq> LABEL_FUNCTION \<longrightarrow> tl (ControlBlocks G) \<noteq> []" "F' = G\<lparr>ControlBlocks := tl (ControlBlocks G)\<rparr>"
    using l B by (auto simp: load_end_def popBlock_def bindE_Inr_iff split: if_splits)
  note e = block_end_types [OF G(1) t B] and pos = same_pos_check [OF G(1)] and g = typed_cur [OF t(1) B]
  have le: "InitNumValues b \<le> length (ValueTypes F)" using typedD(3) [OF t(1)] B by simp
  show "ControlBlocks F' = bs" "ValueTypes F' = results b @ bottom (InitNumValues b) (ValueTypes F)" "same_pos F F'"
    "MaxStackSize F \<le> MaxStackSize F'"
    "\<not> StackPolymorphic b \<longrightarrow> ValueTypes F' = ValueTypes F" "BLabel b = LABEL_FUNCTION \<Longrightarrow> End F \<le> Ptr F" "MaxBlockDepth F' = MaxBlockDepth F"
    using e pos G(3,5) B by (auto simp: same_pos_def)
  have "length (ValueTypes G) \<le> length (ValueTypes F) + 1" using e by (elim conjE)
  then show "length (ValueTypes F') \<le> length (ValueTypes F) + 1" using G(5) by simp
  show "BLabel b = LABEL_FUNCTION \<longleftrightarrow> bs = []" using g(1) by (simp add: wf_block_def)
  show "BLabel b = LABEL_IF \<Longrightarrow> ElsePtr b = None \<Longrightarrow> results b = []"
    using G(2) g(1) by (auto simp: wf_block_def split: ControlBlockType.splits)
  have "wf_blocks bs (bottom (InitNumValues b) (ValueTypes F))" using t(1) B by (simp add: typed_def)
  then have "wf_blocks bs (ValueTypes F')"
  proof (cases bs)
    case (Cons c cs)
    assume w: "wf_blocks bs (bottom (InitNumValues b) (ValueTypes F))"
    then have "InitNumValues c \<le> length (bottom (InitNumValues b) (ValueTypes F))" using Cons by simp
    then show ?thesis
      by (intro wf_blocks_cong [OF w]) (use Cons e G(5) in auto)
  qed simp
  moreover have "typed G" "ControlBlocks G = b # bs" using e B by auto
  ultimately show "typed F'" using G(5) by (auto simp: typed_def)
qed

section \<open>The other instructions\<close>

text \<open>The types that a module declares.\<close>

definition good_entry :: "TypeEntry \<Rightarrow> bool" where
  "good_entry T \<longleftrightarrow> good_types (ParamTypes T) \<and> good_types (ReturnTypes T) \<and> length (ReturnTypes T) \<le> 1"

definition good_module :: "Module \<Rightarrow> bool" where
  "good_module M \<longleftrightarrow> list_all good_entry (TypeTable M) \<and>
     list_all (\<lambda>G. is_val (GType G)) (ImportGlobalTable M @ InternalGlobalTable M)"

lemma declared_good: "getDeclaredType i M = Inr T \<Longrightarrow> good_module M \<Longrightarrow> good_entry T"
  by (auto simp: getDeclaredType_def isValidType_def good_module_def list_all_length split: if_splits)

lemma function_good: "getFunctionType i M = Inr T \<Longrightarrow> good_module M \<Longrightarrow> good_entry T"
  by (auto simp: getFunctionType_def bindE_Inr_iff dest: declared_good)

lemma global_good: "getGlobalType i M = Inr t \<Longrightarrow> good_module M \<Longrightarrow> is_val t"
  by (auto simp: getGlobalType_def getInternalGlobal_def bindE_Inr_iff good_module_def list_all_iff split: if_splits)

lemma internal_good: "getInternalGlobal i M = Inr G \<Longrightarrow> good_module M \<Longrightarrow> is_val (GType G)"
  by (auto simp: getInternalGlobal_def good_module_def list_all_iff split: if_splits)

text \<open>How an instruction with immediate operands moves: it reads up to the position of \<open>G\<close> and then only changes the stacks.\<close>

definition goes :: "WASMType list \<Rightarrow> WASMType list \<Rightarrow> FunctionLoader \<Rightarrow> FunctionLoader \<Rightarrow> FunctionLoader \<Rightarrow> bool" where
  "goes ts us F G F' \<longleftrightarrow> plain ts us F F' \<and> same_pos G F'"

lemma goesI:
  assumes "same_stacks F G" and "plain ts us G H" and "same_pos G H" and "same_stacks H F'" and "same_pos H F'"
  shows "goes ts us F G F'"
  using assms same_stacks_plain(1) [OF assms(1)] same_stacks_plain(2) [OF assms(4)] same_pos_trans by (auto simp: goes_def)

lemma same_stacks_trans: "same_stacks F G \<Longrightarrow> same_stacks G H \<Longrightarrow> same_stacks F H"
  by (simp add: same_stacks_def)

lemma add_stat_pos [simp]: "same_pos F (add_stat s F)"
  by (simp add: same_pos_def)

lemma goes_ops:
  assumes "same_stacks F G" and "pops ts G = Inr H" and "pushes us H = Inr F'" and "good_types ts" "good_types us"
    and "typed F" and "ControlBlocks F \<noteq> []"
  shows "goes ts (rev us) F G F'"
proof (rule goesI [OF assms(1)])
  show "plain ts (rev us) G F'" by (rule pops_pushes [OF assms(2-5) typed_read [OF assms(1,6,7)]])
  show "same_pos G F'" by (rule same_pos_trans [OF same_pos_pops [OF assms(2)] same_pos_pushes [OF assms(3)]])
qed simp_all

lemma goes_stat: "goes ts us F G H \<Longrightarrow> goes ts us F G (add_stat s H)"
  using same_stacks_plain(2) [OF same_stacks_updates(1)] by (auto simp: goes_def same_pos_def)

lemma push_pushes: "pushValueType t F = Inr F' \<longleftrightarrow> pushes [t] F = Inr F'"
  by (auto simp: bindE_Inr_iff)

lemma val_types [simp]: "is_val I32" "is_val I64" "is_val F32" "is_val F64"
  by (simp_all add: is_val_def)

lemma goes_push:
  assumes "same_stacks F G" and "pushValueType t G = Inr F'" and "is_val t" and "typed F" and "ControlBlocks F \<noteq> []"
  shows "goes [] [t] F G F'"
  using goes_ops [OF assms(1), of "[]" G "[t]" F'] assms(2-5) by (simp add: push_pushes del: pushes.simps)

lemma goes_pops:
  assumes "same_stacks F G" and "pops ts G = Inr F'" and "good_types ts" and "typed F" and "ControlBlocks F \<noteq> []"
  shows "goes ts [] F G F'"
  using goes_ops [OF assms(1,2), of "[]" F'] assms(3-5) by simp

lemma const_effect:
  assumes t: "typed F" and ne: "ControlBlocks F \<noteq> []"
  shows "bindE (readI32 F) (\<lambda>(_, F). pushValueType I32 F) = Inr F' \<Longrightarrow> \<exists>v G. readI32 F = Inr (v, G) \<and> goes [] [I32] F G F'"
    "bindE (readI64 F) (\<lambda>(_, F). pushValueType I64 F) = Inr F' \<Longrightarrow> \<exists>v G. readI64 F = Inr (v, G) \<and> goes [] [I64] F G F'"
    "bindE (readF32 F) (\<lambda>(_, F). pushValueType F32 F) = Inr F' \<Longrightarrow> \<exists>v G. readF32 F = Inr (v, G) \<and> goes [] [F32] F G F'"
    "bindE (readF64 F) (\<lambda>(_, F). pushValueType F64 F) = Inr F' \<Longrightarrow> \<exists>v G. readF64 F = Inr (v, G) \<and> goes [] [F64] F G F'"
  by (auto simp: bindE_Inr_iff intro!: goes_push [OF _ _ _ t ne] dest: same_stacks_readers)

text \<open>The types of the local variables.\<close>

definition local_types :: "TypeEntry \<Rightarrow> WASMType list \<Rightarrow> WASMType list" where
  "local_types FT Ls = ParamTypes FT @ Ls"

lemma readLocal_effect:
  assumes "readLocal FT Ls F = Inr (t, G)"
  obtains i where "readU32 F = Inr (i, G)" "unat i < length (local_types FT Ls)" "t = local_types FT Ls ! unat i" "same_stacks F G"
proof -
  obtain i where "readU32 F = Inr (i, G)" "unat i < length (local_types FT Ls)" "t = local_types FT Ls ! unat i"
    using assms by (auto simp: readLocal_def local_types_def bindE_Inr_iff Let_def nth_append split: if_splits)
  then show thesis using that same_stacks_readers(2) by blast
qed

lemma local_effect:
  assumes t: "typed F" and ne: "ControlBlocks F \<noteq> []" and g: "good_types (local_types FT Ls)"
  shows "load_get_local FT Ls F = Inr F' \<Longrightarrow> \<exists>i G. readU32 F = Inr (i, G) \<and> unat i < length (local_types FT Ls) \<and>
      goes [] [local_types FT Ls ! unat i] F G F'"
    "load_set_local FT Ls F = Inr F' \<Longrightarrow> \<exists>i G. readU32 F = Inr (i, G) \<and> unat i < length (local_types FT Ls) \<and>
      goes [local_types FT Ls ! unat i] [] F G F'"
    "load_tee_local FT Ls F = Inr F' \<Longrightarrow> \<exists>i G. readU32 F = Inr (i, G) \<and> unat i < length (local_types FT Ls) \<and>
      goes [local_types FT Ls ! unat i] [local_types FT Ls ! unat i] F G F'"
proof -
  have v: "is_val (local_types FT Ls ! i)" if "i < length (local_types FT Ls)" for i
    using g that by (simp add: good_types_def list_all_length)
  show "load_get_local FT Ls F = Inr F' \<Longrightarrow> \<exists>i G. readU32 F = Inr (i, G) \<and> unat i < length (local_types FT Ls) \<and>
      goes [] [local_types FT Ls ! unat i] F G F'"
    by (auto simp: load_get_local_def bindE_Inr_iff elim!: readLocal_effect) (metis goes_push v t ne)
  show "load_set_local FT Ls F = Inr F' \<Longrightarrow> \<exists>i G. readU32 F = Inr (i, G) \<and> unat i < length (local_types FT Ls) \<and>
      goes [local_types FT Ls ! unat i] [] F G F'"
    using goes_pops [OF _ _ _ t ne] v
    by (auto simp: load_set_local_def bindE_Inr_iff simp del: pops.simps elim!: readLocal_effect)
  show "load_tee_local FT Ls F = Inr F' \<Longrightarrow> \<exists>i G. readU32 F = Inr (i, G) \<and> unat i < length (local_types FT Ls) \<and>
      goes [local_types FT Ls ! unat i] [local_types FT Ls ! unat i] F G F'"
    using goes_ops [OF _ _ _ _ _ t ne] v
    by (auto simp: load_tee_local_def bindE_Inr_iff push_pushes simp del: pops.simps pushes.simps elim!: readLocal_effect)
      (metis good_types_simps(1,2) rev_singleton_conv)
qed

lemma sint_neg: "k < 2 ^ 31 \<Longrightarrow> sint (- of_nat k :: u32) = - int k"
proof -
  assume k: "k < 2 ^ 31"
  have "(- of_nat k :: u32) = of_int (- int k)" by simp
  then have "sint (- of_nat k :: u32) = signed_take_bit 31 (- int k)" by (simp only: signed_of_int) simp
  also have "\<dots> = - int k" by (rule signed_take_bit_int_eq_self) (use k in auto)
  finally show ?thesis .
qed

lemma unat_minus: "n \<le> unat (i :: u32) \<Longrightarrow> unat (i - of_nat n) = unat i - n"
proof -
  assume n: "n \<le> unat i"
  have u: "unat (of_nat n :: u32) = n" using n unsigned_less [of i, where ?'a = nat] by (intro of_nat_fits) simp
  then have "of_nat n \<le> i" using n by (simp add: word_le_nat_alt)
  then show ?thesis using u by (simp add: unat_sub)
qed

lemma global_effect:
  assumes t: "typed F" and ne: "ControlBlocks F \<noteq> []" and M: "good_module M"
  shows "load_get_global M F = Inr F' \<Longrightarrow> \<exists>i G ty. readU32 F = Inr (i, G) \<and> length (ImportGlobalTable M) \<le> unat i \<and>
      getGlobalType (unat i) M = Inr ty \<and> goes [] [ty] F G F'"
    "load_set_global M F = Inr F' \<Longrightarrow> length (ImportGlobalTable M) + length (InternalGlobalTable M) < 2 ^ 31 \<Longrightarrow>
      \<exists>i G ty. readU32 F = Inr (i, G) \<and> length (ImportGlobalTable M) \<le> unat i \<and>
      getGlobalType (unat i) M = Inr ty \<and> goes [ty] [] F G F'"
proof -
  assume "load_get_global M F = Inr F'"
  then obtain i G ty H where *: "readU32 F = Inr (i, G)" "length (ImportGlobalTable M) \<le> unat i" "getGlobalType (unat i) M = Inr ty"
    "pushValueType ty G = Inr H" "F' = add_stat SF_global H"
    by (auto simp: load_get_global_def bindE_Inr_iff split: if_splits)
  have "goes [] [ty] F G H" by (rule goes_push [OF same_stacks_readers(2) [OF *(1)] *(4) global_good [OF *(3) M] t ne])
  then show "\<exists>i G ty. readU32 F = Inr (i, G) \<and> length (ImportGlobalTable M) \<le> unat i \<and> getGlobalType (unat i) M = Inr ty \<and>
      goes [] [ty] F G F'" using * goes_stat by blast
next
  assume l: "load_set_global M F = Inr F'" and n: "length (ImportGlobalTable M) + length (InternalGlobalTable M) < 2 ^ 31"
  then obtain i G gl H where *: "readU32 F = Inr (i, G)" "isValidGlobal (unat i) M"
    "0 \<le> sint (i - of_nat (length (ImportGlobalTable M)))"
    "getInternalGlobal (unat (i - of_nat (length (ImportGlobalTable M)))) M = Inr gl"
    "pops [GType gl] G = Inr H" "F' = add_stat SF_global H"
    by (auto simp: load_set_global_def bindE_Inr_iff Let_def simp del: pops.simps split: if_splits)
  let ?n = "length (ImportGlobalTable M)"
  have ge: "?n \<le> unat i"
  proof (rule ccontr)
    assume "\<not> ?n \<le> unat i"
    then have "i = of_nat (unat i)" "unat i < ?n" by simp_all
    then have "i - of_nat ?n = - of_nat (?n - unat i)" by (metis (no_types, lifting) less_imp_le_nat minus_diff_eq of_nat_diff)
    moreover have "?n - unat i < 2 ^ 31" "0 < ?n - unat i" using n \<open>unat i < ?n\<close> by auto
    ultimately have "sint (i - of_nat ?n) = - int (?n - unat i)" using sint_neg by metis
    then show False using *(3) \<open>0 < ?n - unat i\<close> by linarith
  qed
  have "unat (i - of_nat ?n) = unat i - ?n" by (rule unat_minus [OF ge])
  then have ty: "getGlobalType (unat i) M = Inr (GType gl)" using *(4) ge by (simp add: getGlobalType_def)
  have "goes [GType gl] [] F G H"
    by (rule goes_pops [OF same_stacks_readers(2) [OF *(1)] *(5) _ t ne]) (use internal_good [OF *(4) M] in simp)
  then show "\<exists>i G ty. readU32 F = Inr (i, G) \<and> ?n \<le> unat i \<and> getGlobalType (unat i) M = Inr ty \<and> goes [ty] [] F G F'"
    using * ge ty goes_stat by blast
qed

lemma zero_effect: "read_zero F = Inr G \<Longrightarrow> readByte F = Inr (0, G) \<and> same_stacks F G"
  by (auto simp: read_zero_def bindE_Inr_iff dest: same_stacks_readers split: if_splits)

lemma memory_effect:
  assumes t: "typed F" and ne: "ControlBlocks F \<noteq> []"
  shows "load_memory_size M F = Inr F' \<Longrightarrow> hasMemory M \<and> (\<exists>G. readByte F = Inr (0, G) \<and> goes [] [I32] F G F')"
    "load_memory_grow M F = Inr F' \<Longrightarrow> hasMemory M \<and> (\<exists>G. readByte F = Inr (0, G) \<and> goes [I32] [I32] F G F')"
    "load_memory_op M b ts us F = Inr F' \<Longrightarrow> good_types ts \<Longrightarrow> good_types us \<Longrightarrow>
      hasMemory M \<and> (\<exists>v G w H. readU32 F = Inr (v, G) \<and> readU32 G = Inr (w, H) \<and> goes ts (rev us) F H F')"
proof -
  assume "load_memory_size M F = Inr F'"
  then obtain G H where *: "hasMemory M" "read_zero F = Inr G" "pushValueType I32 G = Inr H" "F' = add_stat SF_memory H"
    by (auto simp: load_memory_size_def bindE_Inr_iff split: if_splits)
  then show "hasMemory M \<and> (\<exists>G. readByte F = Inr (0, G) \<and> goes [] [I32] F G F')"
    using zero_effect [OF *(2)] goes_push [OF _ *(3) _ t ne] goes_stat by auto
next
  assume "load_memory_grow M F = Inr F'"
  then obtain G H K where *: "hasMemory M" "read_zero F = Inr G" "pops [I32] G = Inr H" "pushes [I32] H = Inr K" "F' = add_stat SF_memory K"
    by (auto simp: load_memory_grow_def popAndPushValueType_def bindE_Inr_iff push_pushes simp del: pops.simps pushes.simps split: if_splits)
  then show "hasMemory M \<and> (\<exists>G. readByte F = Inr (0, G) \<and> goes [I32] [I32] F G F')"
    using zero_effect [OF *(2)] goes_ops [OF _ *(3,4) _ _ t ne] goes_stat by auto
next
  assume "load_memory_op M b ts us F = Inr F'" and g: "good_types ts" "good_types us"
  then obtain v G w H I K where *: "hasMemory M" "readU32 F = Inr (v, G)" "readU32 G = Inr (w, H)" "pops ts H = Inr I" "pushes us I = Inr K"
    "F' = add_stat SF_memory K"
    by (auto simp: load_memory_op_def bindE_Inr_iff split: if_splits)
  have "same_stacks F H" using same_stacks_trans same_stacks_readers(2) *(2,3) by blast
  then show "hasMemory M \<and> (\<exists>v G w H. readU32 F = Inr (v, G) \<and> readU32 G = Inr (w, H) \<and> goes ts (rev us) F H F')"
    using * goes_ops [OF _ *(4,5) g t ne] goes_stat by blast
qed

lemma call_effect:
  assumes t: "typed F" and ne: "ControlBlocks F \<noteq> []" and M: "good_module M"
  shows "load_call M F = Inr F' \<Longrightarrow> \<exists>i G T. readU32 F = Inr (i, G) \<and> isValidFunc (unat i) M \<and> getFunctionType (unat i) M = Inr T \<and>
      goes (rev (ParamTypes T)) (ReturnTypes T) F G F'"
    "load_call_indirect M F = Inr F' \<Longrightarrow> \<exists>i G H T. readU32 F = Inr (i, G) \<and> readByte G = Inr (0, H) \<and> isValidTable 0 M \<and>
      getDeclaredType (unat i) M = Inr T \<and> goes (I32 # rev (ParamTypes T)) (ReturnTypes T) F H F'"
proof -
  assume "load_call M F = Inr F'"
  then obtain i G T H where *: "readU32 F = Inr (i, G)" "isValidFunc (unat i) M" "getFunctionType (unat i) M = Inr T"
    "pops (rev (ParamTypes T)) G = Inr H" "pushes (ReturnTypes T) H = Inr F'"
    by (auto simp: load_call_def bindE_Inr_iff split: if_splits)
  have T: "good_types (ParamTypes T)" "good_types (ReturnTypes T)" "rev (ReturnTypes T) = ReturnTypes T"
    using function_good [OF *(3) M] short_rev by (auto simp: good_entry_def)
  show "\<exists>i G T. readU32 F = Inr (i, G) \<and> isValidFunc (unat i) M \<and> getFunctionType (unat i) M = Inr T \<and>
      goes (rev (ParamTypes T)) (ReturnTypes T) F G F'"
    using goes_ops [OF same_stacks_readers(2) [OF *(1)] *(4,5) _ _ t ne] T * by auto
next
  assume "load_call_indirect M F = Inr F'"
  then obtain i G H T K L N where *: "readU32 F = Inr (i, G)" "read_zero G = Inr H" "isValidTable 0 M" "pops [I32] H = Inr K"
    "getDeclaredType (unat i) M = Inr T" "pops (rev (ParamTypes T)) K = Inr L" "pushes (ReturnTypes T) L = Inr N" "F' = add_stat SF_table N"
    by (auto simp: load_call_indirect_def bindE_Inr_iff simp del: pops.simps split: if_splits)
  have T: "good_types (ParamTypes T)" "good_types (ReturnTypes T)" "rev (ReturnTypes T) = ReturnTypes T"
    using declared_good [OF *(5) M] short_rev by (auto simp: good_entry_def)
  have p: "pops (I32 # rev (ParamTypes T)) H = Inr L" using *(4,6) by (auto simp: bindE_Inr_iff)
  have s: "same_stacks F H" using same_stacks_trans same_stacks_readers(2) [OF *(1)] zero_effect [OF *(2)] by blast
  show "\<exists>i G H T. readU32 F = Inr (i, G) \<and> readByte G = Inr (0, H) \<and> isValidTable 0 M \<and> getDeclaredType (unat i) M = Inr T \<and>
      goes (I32 # rev (ParamTypes T)) (ReturnTypes T) F H F'"
    using goes_stat [OF goes_ops [OF s p *(7) _ _ t ne]] T * zero_effect [OF *(2)] by auto
qed

text \<open>\<open>drop\<close> and \<open>select\<close> change the opcode when the value has 64 bits.\<close>

definition is_wide :: "WASMType \<Rightarrow> bool" where
  "is_wide t \<longleftrightarrow> t = I64 \<or> t = F64"

definition rewritten :: "u8 \<Rightarrow> WASMType \<Rightarrow> FunctionLoader \<Rightarrow> FunctionLoader \<Rightarrow> bool" where
  "rewritten b t F F' \<longleftrightarrow> Ptr F' = Ptr F \<and> End F' = End F \<and> Data F' = (if is_wide t then (Data F)[Ptr F - 1 := b] else Data F)"

lemma drop_effect:
  assumes "load_drop F = Inr F'" and t: "typed F" and ne: "ControlBlocks F \<noteq> []"
  obtains u where "plain [u] [] F F'" "rewritten DROP_64 u F F'" "\<not> StackPolymorphic (cur F) \<Longrightarrow> is_val u"
proof -
  obtain u G where G: "popValueType ANY F = Inr (u, G)" "F' = (if is_wide u then rewrite DROP_64 G else G)"
    using assms(1) by (auto simp: load_drop_def bindE_Inr_iff is_wide_def)
  have "same_stacks G F'" using G(2) by simp
  then have p: "plain ts us F F' \<longleftrightarrow> plain ts us F G" for ts us by (rule same_stacks_plain(2))
  have "rewritten DROP_64 u F F'" using G(2) same_pos_stack(1) [OF G(1)] by (auto simp: rewritten_def rewrite_def same_pos_def)
  then show thesis
    using that pop_plain [OF G(1) t ne] p plain_any [OF t] typedD(1) [OF t ne] by (metis good_types_simps(2))
qed

lemma pop_any_plain:
  assumes "popValueType ANY F = Inr (u, F')" and "typed F" and "ControlBlocks F \<noteq> []"
  shows "plain [u] [] F F'" "is_val u \<or> u = ANY" "\<not> StackPolymorphic (cur F) \<Longrightarrow> is_val u"
  using pop_plain [OF assms] plain_any [OF assms(2)] typedD(1) [OF assms(2,3)] by (metis good_types_simps(2))+

lemma select_effect:
  assumes l: "load_select F = Inr F'" and t: "typed F" and ne: "ControlBlocks F \<noteq> []" and a: "ANY \<notin> set (ValueTypes F')"
  obtains u where "plain [I32, u, u] [u] F F'" "rewritten SELECT_64 u F F'" "is_val u"
proof -
  obtain c G u1 H u2 K where *: "popValueType I32 F = Inr (c, G)" "popValueType ANY G = Inr (u1, H)" "popValueType ANY H = Inr (u2, K)"
    "\<not> (u1 \<noteq> u2 \<and> u1 \<noteq> ANY \<and> u2 \<noteq> ANY)"
    using l by (auto simp: load_select_def bindE_Inr_iff split: if_splits)
  define u where "u = (if u1 \<noteq> ANY then u1 else u2)"
  have F': "pushValueType u (if is_wide u then rewrite SELECT_64 K else K) = Inr F'"
    using l * by (auto simp: load_select_def bindE_Inr_iff is_wide_def u_def Let_def split: if_splits)
  have p1: "plain [I32] [] F G" using pop_val [OF *(1) _ t ne] by simp
  note G = plainD(1) [OF p1] plain_blocks [OF p1 ne]
  note p2 = pop_any_plain [OF *(2) G]
  note H = plainD(1) [OF p2(1)] plain_blocks [OF p2(1) G(2)]
  note p3 = pop_any_plain [OF *(3) H]
  note K = plainD(1) [OF p3(1)] plain_blocks [OF p3(1) H(2)]
  let ?K = "if is_wide u then rewrite SELECT_64 K else K"
  have s: "same_stacks K ?K" by simp
  have "u \<in> set (ValueTypes F')" using F' by (auto simp: pushValueType_def bindE_Inr_iff Let_def)
  then have "u \<noteq> ANY" using a by auto
  then have v: "is_val u" using p2(2) p3(2) by (auto simp: u_def split: if_splits)
  have p4: "plain [] [u] K F'" using push_plain(1) [OF F' v typed_read [OF s K]] same_stacks_plain(1) [OF s] by simp
  have p23: "plain [I32, u1, u2] [] F K" using plain_pop_trans [OF p1 plain_pop_trans [OF p2(1) p3(1)]] by simp
  have "plain [I32, u1, u2] [u] F F'" using plain_push_trans [OF p23 p4] by simp
  moreover have "StackPolymorphic (cur F) \<or> u1 = u \<and> u2 = u"
  proof (cases "StackPolymorphic (cur F)")
    case False
    then have "is_val u1" "is_val u2" using p2(3) p3(3) plainD(2) [OF p1] plainD(2) [OF p2(1)] by auto
    then show ?thesis using *(4) is_val_any by (auto simp: u_def)
  qed simp
  ultimately have "plain [I32, u, u] [u] F F'" by (auto simp: plain_def)
  moreover have "rewritten SELECT_64 u F F'"
    using same_pos_stack(1) [OF *(1)] same_pos_stack(1) [OF *(2)] same_pos_stack(1) [OF *(3)] same_pos_stack(2) [OF F']
    by (auto simp: rewritten_def rewrite_def same_pos_def)
  ultimately show thesis using that v by blast
qed

lemma return_effect:
  assumes l: "load_return FT F = Inr F'" and t: "typed F" "small F" and B: "ControlBlocks F = b # bs" and g: "good_types (ReturnTypes FT)"
    "length (ReturnTypes FT) \<le> 1"
  obtains G where "plain (ReturnTypes FT) [] F G" "leave G = Inr F'" "same_pos F F'" "small G"
proof -
  obtain G where G: "pops (ReturnTypes FT) F = Inr G" "leave G = Inr F'"
    using l short_rev [OF g(2)] by (auto simp: load_return_def bindE_Inr_iff)
  have p: "plain (ReturnTypes FT) [] F G" by (rule pops_val [OF G(1) g(1) t(1)]) (use B in simp)
  have "same_pos F F'" by (rule same_pos_trans [OF same_pos_pops [OF G(1)] same_pos_ops(1) [OF G(2)]])
  moreover have "small G" using plainD(4) [OF p] t(2) by (simp add: small_def)
  ultimately show thesis using that p G(2) by blast
qed

text \<open>Bounds: the stack grows by at most one value for every byte that is read.\<close>

definition fit :: "nat \<Rightarrow> FunctionLoader \<Rightarrow> bool" where
  "fit p F \<longleftrightarrow> in_data F \<and> p + length (ValueTypes F) \<le> Ptr F \<and> End F < p + 2 ^ 28"

lemma fit_small: "fit p F \<Longrightarrow> small F"
  by (auto simp: fit_def small_def in_data_def)

lemma fit_read:
  assumes "fit p F" and "advanced F G" and "same_stacks F G"
  shows "fit p G" "p + length (ValueTypes G) < Ptr G"
  using assms(1,3) advancedD [OF assms(2)] by (auto simp: fit_def same_stacks_def)

lemma fit_pos: "fit p F \<Longrightarrow> same_pos F G \<Longrightarrow> length (ValueTypes G) \<le> length (ValueTypes F) \<Longrightarrow> fit p G"
  by (auto simp: fit_def same_pos_def in_data_def)

lemma fit_pos1: "fit p F \<Longrightarrow> p + length (ValueTypes F) < Ptr F \<Longrightarrow> same_pos F G \<Longrightarrow> length (ValueTypes G) \<le> length (ValueTypes F) + 1 \<Longrightarrow> fit p G"
  by (auto simp: fit_def same_pos_def in_data_def)

lemma branch_fit:
  assumes c: "checkBranch F = Inr (T, F')" and t: "typed F" "fit p F" and B: "ControlBlocks F = b # bs"
  shows "fit p F'" "typed F'" "ControlBlocks F' = b # bs"
    "bottom (InitNumValues b) (ValueTypes F') = bottom (InitNumValues b) (ValueTypes F)" "\<not> StackPolymorphic b \<Longrightarrow> ValueTypes F' = ValueTypes F"
    "MaxStackSize F \<le> MaxStackSize F'" "MaxBlockDepth F' = MaxBlockDepth F"
proof -
  obtain k G where k: "readU32 F = Inr (k, G)" "same_pos G F'" "plain (label_types T) (label_types T) F F'" "length (label_types T) \<le> 1"
    by (rule branch_effect [OF c t(1) fit_small [OF t(2)] B])
  have "in_data F" using t(2) by (simp add: fit_def)
  then have a: "advanced F G" using readers_advance(2) k(1) by blast
  note s = same_stacks_readers(2) [OF k(1)] and f = fit_read [OF t(2) a same_stacks_readers(2) [OF k(1)]]
  have "length (ValueTypes F') \<le> length (ValueTypes G) + 1" using plainD(4) [OF k(3)] k(4) s by (simp add: same_stacks_def)
  then show "fit p F'" using fit_pos1 [OF f k(2)] by simp
  show "typed F'" "ControlBlocks F' = b # bs"
    "bottom (InitNumValues b) (ValueTypes F') = bottom (InitNumValues b) (ValueTypes F)"
    "MaxStackSize F \<le> MaxStackSize F'" "MaxBlockDepth F' = MaxBlockDepth F" using plainD [OF k(3)] B by auto
  show "\<not> StackPolymorphic b \<Longrightarrow> ValueTypes F' = ValueTypes F" using plain_reachable [OF k(3)] B by (metis list.sel(1))
qed

text \<open>The states at the targets of a table.\<close>

definition at_target :: "nat \<Rightarrow> ControlBlock list \<Rightarrow> FunctionLoader \<Rightarrow> FunctionLoader \<Rightarrow> bool" where
  "at_target p Bs H K \<longleftrightarrow> typed K \<and> fit p K \<and> ControlBlocks K = Bs \<and>
     bottom (InitNumValues (hd Bs)) (ValueTypes K) = bottom (InitNumValues (hd Bs)) (ValueTypes H) \<and>
     (\<not> StackPolymorphic (hd Bs) \<longrightarrow> ValueTypes K = ValueTypes H) \<and> MaxStackSize H \<le> MaxStackSize K \<and> MaxBlockDepth K = MaxBlockDepth H"

lemma targets_invariant:
  assumes "typed H" and "fit p H" and "ControlBlocks H = b # bs" and "Gs ! 0 = H"
    and "\<forall>j<n. \<exists>T. checkBranch (Gs ! j) = Inr (T, Gs ! Suc j)" and "j \<le> n"
  shows "at_target p (b # bs) H (Gs ! j)"
  using assms(6)
proof (induction j)
  case 0
  then show ?case using assms(1-4) by (simp add: at_target_def)
next
  case (Suc j)
  then have IH: "at_target p (b # bs) H (Gs ! j)" by simp
  obtain T where "checkBranch (Gs ! j) = Inr (T, Gs ! Suc j)" using assms(5) [rule_format, of j] Suc.prems by auto
  then show ?case using branch_fit [of "Gs ! j" T "Gs ! Suc j" p b bs] IH by (auto simp: at_target_def)
qed

lemma br_table_effect:
  assumes l: "load_br_table F = Inr F'" and t: "typed F" "fit p F" and B: "ControlBlocks F = b # bs"
  obtains n G H Gs where "readU32 F = Inr (n, G)" "goes [I32] [] F G H" "length Gs = unat n + 2" "Gs ! 0 = H"
    "\<forall>j\<le>unat n. \<exists>T. checkBranch (Gs ! j) = Inr (T, Gs ! Suc j)"
    "\<forall>j\<le>unat n + 1. at_target p (b # bs) H (Gs ! j)" "leave (Gs ! (unat n + 1)) = Inr F'"
proof -
  obtain n G c H K where *: "readU32 F = Inr (n, G)" "popValueType I32 G = Inr (c, H)" "br_targets (Suc (unat n)) None H = Inr K" "leave K = Inr F'"
    using l by (auto simp: load_br_table_def bindE_Inr_iff simp del: br_targets.simps)
  have ne: "ControlBlocks F \<noteq> []" using B by simp
  have P: "pops [I32] G = Inr H" using *(2) by (simp add: bindE_Inr_iff)
  have s: "same_stacks F G" by (rule same_stacks_readers(2) [OF *(1)])
  have g: "goes [I32] [] F G H" by (rule goes_pops [OF s P _ t(1) ne]) simp
  then have p: "plain [I32] [] F H" "same_pos G H" by (auto simp: goes_def)
  have "in_data F" using t(2) by (simp add: fit_def)
  then have "fit p G" using fit_read [OF t(2) readers_advance(2) [OF _ *(1)] s] by simp
  then have f: "fit p H" using fit_pos [OF _ p(2)] plainD(4) [OF p(1)] s by (simp add: same_stacks_def)
  obtain Gs where Gs: "length Gs = Suc (Suc (unat n))" "Gs ! 0 = H" "Gs ! (Suc (unat n)) = K"
    "\<forall>j<Suc (unat n). \<exists>T. checkBranch (Gs ! j) = Inr (T, Gs ! Suc j)"
    using br_targets_list [OF *(3)] by blast
  have B': "ControlBlocks H = b # bs" using plainD(2) [OF p(1)] B by simp
  have "at_target p (b # bs) H (Gs ! j)" if "j \<le> unat n + 1" for j
    by (rule targets_invariant [OF plainD(1) [OF p(1)] f B' Gs(2,4)]) (use that in simp)
  then show thesis
    by (intro that [OF *(1) g]) (use Gs *(4) in \<open>auto simp: less_Suc_eq_le\<close>)
qed

section \<open>One step\<close>

text \<open>What every step does to the blocks, whatever the instruction is.\<close>

definition frm :: "ControlBlock \<Rightarrow> ControlBlock" where
  "frm b = b\<lparr>StackPolymorphic := False, ElsePtr := None\<rparr>"

definition stays :: "FunctionLoader \<Rightarrow> FunctionLoader \<Rightarrow> bool" where
  "stays F F' \<longleftrightarrow> (\<exists>b b' bs. ControlBlocks F = b # bs \<and> ControlBlocks F' = b' # bs \<and> frm b' = frm b \<and>
     bottom (InitNumValues b) (ValueTypes F') = bottom (InitNumValues b) (ValueTypes F))"

definition enters :: "FunctionLoader \<Rightarrow> FunctionLoader \<Rightarrow> bool" where
  "enters F F' \<longleftrightarrow> (\<exists>b. ControlBlocks F' = b # ControlBlocks F \<and> \<not> StackPolymorphic b \<and> ElsePtr b = None \<and> StartPtr b = Ptr F' \<and>
     InitNumValues b = length (ValueTypes F') \<and>
     bottom (floor_of F) (ValueTypes F') = bottom (floor_of F) (ValueTypes F))"

definition exits :: "FunctionLoader \<Rightarrow> FunctionLoader \<Rightarrow> bool" where
  "exits F F' \<longleftrightarrow> (\<exists>b. ControlBlocks F = b # ControlBlocks F' \<and>
     ValueTypes F' = results b @ bottom (InitNumValues b) (ValueTypes F) \<and>
     (\<not> StackPolymorphic b \<longrightarrow> ValueTypes F' = ValueTypes F) \<and> (ControlBlocks F' = [] \<longleftrightarrow> BLabel b = LABEL_FUNCTION) \<and>
     (ControlBlocks F' = [] \<longrightarrow> End F' \<le> Ptr F') \<and> (BLabel b = LABEL_IF \<longrightarrow> ElsePtr b = None \<longrightarrow> results b = []))"

text \<open>The result of a step that is not the start of a block, the end of one or an \<open>else\<close>.\<close>

definition inside :: "nat \<Rightarrow> FunctionLoader \<Rightarrow> FunctionLoader \<Rightarrow> bool" where
  "inside p F F' \<longleftrightarrow> typed F' \<and> fit p F' \<and> MaxStackSize F \<le> MaxStackSize F' \<and> MaxBlockDepth F \<le> MaxBlockDepth F' \<and>
     stays F F' \<and> ElsePtr (cur F') = ElsePtr (cur F)"

text \<open>A state with room for one more value.\<close>

definition roomy :: "nat \<Rightarrow> FunctionLoader \<Rightarrow> bool" where
  "roomy p F \<longleftrightarrow> fit p F \<and> p + length (ValueTypes F) < Ptr F"

lemma roomyD: "roomy p F \<Longrightarrow> fit p F" "roomy p F \<Longrightarrow> in_data F"
  by (auto simp: roomy_def fit_def)

lemma roomy_read: "fit p F \<Longrightarrow> advanced F G \<Longrightarrow> same_stacks F G \<Longrightarrow> roomy p G"
  by (simp add: roomy_def fit_read)

lemma plain_inside:
  assumes "plain ts us F F'" and "roomy p G" and "same_stacks F G" and "same_pos G F'" and "length us \<le> 1" and "ControlBlocks F \<noteq> []"
  shows "inside p F F'"
proof -
  have "length (ValueTypes F') \<le> length (ValueTypes G) + 1" using plainD(4) [OF assms(1)] assms(3,5) by (simp add: same_stacks_def)
  then have "fit p F'" using fit_pos1 [OF _ _ assms(4)] assms(2) by (auto simp: roomy_def)
  moreover have "stays F F'" using plainD(2,3) [OF assms(1)] assms(6) by (auto simp: stays_def neq_Nil_conv)
  ultimately show ?thesis using plainD [OF assms(1)] by (simp add: inside_def)
qed

lemma goes_inside:
  assumes "goes ts us F G F'" and "roomy p G" and "same_stacks F G" and "length us \<le> 1" and "ControlBlocks F \<noteq> []"
  shows "inside p F F'"
  using plain_inside [OF _ assms(2,3) _ assms(4,5)] assms(1) by (auto simp: goes_def)

lemma leave_inside:
  assumes "leave G = Inr F'" and "typed G" "fit p G" "ControlBlocks G = ControlBlocks F" "ControlBlocks F \<noteq> []"
    "bottom (floor_of F) (ValueTypes G) = bottom (floor_of F) (ValueTypes F)" "MaxStackSize F \<le> MaxStackSize G" "MaxBlockDepth G = MaxBlockDepth F"
  shows "inside p F F'"
proof -
  obtain b bs where B: "ControlBlocks F = b # bs" "ControlBlocks G = b # bs" using assms(4,5) by (auto simp: neq_Nil_conv)
  note e = leave_effect [OF assms(1,2) B(2) fit_small [OF assms(3)]]
  have le: "InitNumValues b \<le> length (ValueTypes G)" using typedD(3) [OF assms(2)] B(2) by simp
  have "fit p F'" using fit_pos [OF assms(3) same_pos_ops(1) [OF assms(1)]] e(3) le by simp
  moreover have "bottom (InitNumValues b) (ValueTypes F') = bottom (InitNumValues b) (ValueTypes F)"
    using e(3) le assms(6) B(1) by (metis bottom_bottom order_refl list.sel(1))
  then have "stays F F'" "ElsePtr (cur F') = ElsePtr (cur F)" using B e(2) by (auto simp: stays_def frm_def)
  ultimately show ?thesis using e assms(7,8) by (simp add: inside_def)
qed

lemma rewritten_inside:
  assumes "plain ts us F F'" and "rewritten b u F F'" and "roomy p F" and "length us \<le> 1" and "ControlBlocks F \<noteq> []"
  shows "inside p F F'"
proof -
  have "length (ValueTypes F') \<le> length (ValueTypes F) + 1" using plainD(4) [OF assms(1)] assms(4) by simp
  then have "fit p F'" using assms(2,3) by (auto simp: roomy_def fit_def rewritten_def in_data_def)
  moreover have "stays F F'" using plainD(2,3) [OF assms(1)] assms(5) by (auto simp: stays_def neq_Nil_conv)
  ultimately show ?thesis using plainD [OF assms(1)] by (simp add: inside_def)
qed

text \<open>The function that is loaded, and the module around it.\<close>

definition good_context :: "Module \<Rightarrow> TypeEntry \<Rightarrow> WASMType list \<Rightarrow> bool" where
  "good_context M FT Ls \<longleftrightarrow> good_module M \<and> good_entry FT \<and> good_types Ls \<and>
     length (ImportGlobalTable M) + length (InternalGlobalTable M) < 2 ^ 31"

lemma good_contextD:
  assumes "good_context M FT Ls"
  shows "good_module M" "good_types (ReturnTypes FT)" "length (ReturnTypes FT) \<le> 1" "good_types (local_types FT Ls)"
    "length (ImportGlobalTable M) + length (InternalGlobalTable M) < 2 ^ 31"
  using assms by (auto simp: good_context_def good_entry_def local_types_def)

lemma find_mem: "find P xs = Some x \<Longrightarrow> x \<in> set xs \<and> P x"
  by (induction xs) (auto split: if_splits)

lemma simple_op_good:
  assumes "simple_op b = Some (n, t, u)"
  shows "is_val t" "is_val u"
proof -
  obtain Ops where "(Ops, n, t, u) \<in> set simple_ops" using assms by (auto simp: simple_op_def dest!: find_mem)
  moreover have "list_all (\<lambda>(_, _, t, u). is_val t \<and> is_val u) simple_ops" by (simp add: simple_ops_def)
  ultimately show "is_val t" "is_val u" by (auto simp: list_all_iff)
qed

lemma mem_op_good:
  assumes "mem_op b = Some (ts, us)"
  shows "good_types ts" "good_types us" "length us \<le> 1"
proof -
  obtain Ops where "(Ops, ts, us) \<in> set mem_ops" using assms by (auto simp: mem_op_def dest!: find_mem)
  moreover have "list_all (\<lambda>(_, ts, us). good_types ts \<and> good_types us \<and> length us \<le> 1) mem_ops" by (simp add: mem_ops_def)
  ultimately show "good_types ts" "good_types us" "length us \<le> 1" by (auto simp: list_all_iff)
qed

lemma roomy_readers:
  assumes "roomy p F"
  shows "readByte F = Inr (b, G) \<Longrightarrow> roomy p G" "readU32 F = Inr (v, G) \<Longrightarrow> roomy p G"
    "readI32 F = Inr (v, G) \<Longrightarrow> roomy p G" "readI64 F = Inr (w, G) \<Longrightarrow> roomy p G"
    "readF32 F = Inr (bs, G) \<Longrightarrow> roomy p G" "readF64 F = Inr (bs, G) \<Longrightarrow> roomy p G"
  by (rule roomy_read [OF roomyD(1) [OF assms]], erule readers_advance [OF roomyD(2) [OF assms]], erule same_stacks_readers)+

definition special :: "u8 set" where
  "special = {BLOCK, LOOP, IF, ELSE, END}"

lemma if_resE: "(if P then x else y) = z \<Longrightarrow> (P \<Longrightarrow> x = z \<Longrightarrow> R) \<Longrightarrow> (\<not> P \<Longrightarrow> y = z \<Longrightarrow> R) \<Longrightarrow> R"
  by (cases P) auto

lemma load_op_cases:
  assumes "load_op M FT Ls b F = Inr F'" and "b \<notin> special"
  obtains
    (unreachable) "b = UNREACHABLE" "leave F = Inr F'"
  | (nop) "b = NOP" "F' = F"
  | (br) "b = BR" "load_br F = Inr F'"
  | (br_if) "b = BR_IF" "load_br_if F = Inr F'"
  | (br_table) "b = BR_TABLE" "load_br_table F = Inr F'"
  | (get_local) "b = GET_LOCAL" "load_get_local FT Ls F = Inr F'"
  | (set_local) "b = SET_LOCAL" "load_set_local FT Ls F = Inr F'"
  | (tee_local) "b = TEE_LOCAL" "load_tee_local FT Ls F = Inr F'"
  | (get_global) "b = GET_GLOBAL" "load_get_global M F = Inr F'"
  | (set_global) "b = SET_GLOBAL" "load_set_global M F = Inr F'"
  | (memory_size) "b = MEMORY_SIZE" "load_memory_size M F = Inr F'"
  | (memory_grow) "b = MEMORY_GROW" "load_memory_grow M F = Inr F'"
  | (i32_const) "b = I32_CONST" "bindE (readI32 F) (\<lambda>(_, F). pushValueType I32 F) = Inr F'"
  | (i64_const) "b = I64_CONST" "bindE (readI64 F) (\<lambda>(_, F). pushValueType I64 F) = Inr F'"
  | (f32_const) "b = F32_CONST" "bindE (readF32 F) (\<lambda>(_, F). pushValueType F32 F) = Inr F'"
  | (f64_const) "b = F64_CONST" "bindE (readF64 F) (\<lambda>(_, F). pushValueType F64 F) = Inr F'"
  | (drop) "b = DROP" "load_drop F = Inr F'"
  | (select) "b = SELECT" "load_select F = Inr F'"
  | (return) "b = RETURN" "load_return FT F = Inr F'"
  | (call) "b = CALL" "load_call M F = Inr F'"
  | (call_indirect) "b = CALL_INDIRECT" "load_call_indirect M F = Inr F'"
  | (memory_op) ts us where "mem_op b = Some (ts, us)" "load_memory_op M b ts us F = Inr F'"
  | (simple) n v w where "simple_op b = Some (n, v, w)" "popAndPushValueType n v w F = Inr F'"
proof -
  have b: "b \<noteq> IF" "b \<noteq> BLOCK" "b \<noteq> LOOP" "b \<noteq> ELSE" "b \<noteq> END" using assms(2) by (auto simp: special_def)
  note l = assms(1) [unfolded load_op_def if_not_P [OF b(1)] if_not_P [OF b(2)] if_not_P [OF b(3)] if_not_P [OF b(4)] if_not_P [OF b(5)]]
  show thesis
    using l
    apply (elim if_resE)
    apply (erule (1) unreachable, erule nop, simp, erule (1) br, erule (1) br_if, erule (1) br_table, erule (1) get_local,
      erule (1) set_local, erule (1) tee_local, erule (1) get_global, erule (1) set_global, erule (1) memory_size, erule (1) memory_grow,
      erule (1) i32_const, erule (1) i64_const, erule (1) f32_const, erule (1) f64_const, erule (1) drop, erule (1) select, erule (1) return,
      erule (1) call, erule (1) call_indirect)
    using memory_op simple by (auto split: option.splits prod.splits)
qed

lemma op_inside:
  assumes l: "load_op M FT Ls b F = Inr F'" and t: "typed F" "roomy p F" and ne: "ControlBlocks F \<noteq> []" and b: "b \<notin> special"
    and g: "good_context M FT Ls" and a: "ANY \<notin> set (ValueTypes F')"
  shows "inside p F F'"
proof -
  note gd = good_contextD [OF g] and fit = roomyD(1) [OF t(2)]
  obtain c cs where B: "ControlBlocks F = c # cs" using ne by (auto simp: neq_Nil_conv)
  note r = roomy_readers [OF t(2)] and ss = same_stacks_readers
  have u32: "inside p F F'" if "readU32 F = Inr (i, G)" "goes ts us F G F'" "length us \<le> 1" for i G ts us
    by (rule goes_inside [OF that(2) r(2) [OF that(1)] ss(2) [OF that(1)] that(3) ne])
  have one: "length [x] \<le> 1" "length [] \<le> 1" for x :: WASMType by simp_all
  from l b show ?thesis
  proof (cases rule: load_op_cases)
    case unreachable
    show ?thesis by (rule leave_inside [OF unreachable(2) t(1) fit]) (use ne in simp_all)
  next
    case nop
    then show ?thesis using plain_inside [OF plain_refl [OF t(1) ne] t(2)] ne by simp
  next
    case br
    then obtain T G where G: "checkBranch F = Inr (T, G)" "leave G = Inr F'" by (auto simp: load_br_def bindE_Inr_iff)
    note e = branch_fit [OF G(1) t(1) fit B]
    show ?thesis by (rule leave_inside [OF G(2) e(2,1)]) (use e B in simp_all)
  next
    case br_if
    then obtain u G T where G: "popValueType I32 F = Inr (u, G)" "checkBranch G = Inr (T, F')"
      by (auto simp: load_br_if_def bindE_Inr_iff)
    have p: "plain [I32] [] F G" using pop_val [OF G(1) _ t(1) ne] by simp
    have B': "ControlBlocks G = c # cs" using plainD(2) [OF p] B by simp
    have "fit p G" using fit_pos [OF fit same_pos_stack(1) [OF G(1)]] plainD(4) [OF p] by simp
    note e = branch_fit [OF G(2) plainD(1) [OF p] this B']
    show ?thesis using e plainD [OF p] B by (auto simp: inside_def stays_def)
  next
    case br_table
    obtain n :: u32 and G H Gs where T: "goes [I32] [] F G H" "\<forall>j\<le>unat n + 1. at_target p (c # cs) H (Gs ! j)"
      "leave (Gs ! (unat n + 1)) = Inr F'"
      by (rule br_table_effect [OF br_table(2) t(1) fit B])
    have H: "plain [I32] [] F H" using T(1) by (simp add: goes_def)
    have K: "at_target p (c # cs) H (Gs ! (unat n + 1))" using T(2) by simp
    show ?thesis
      by (rule leave_inside [OF T(3)]) (use K B plainD [OF H] in \<open>auto simp: at_target_def\<close>)
  next
    case get_local
    from local_effect(1) [OF t(1) ne gd(4) get_local(2)] show ?thesis using u32 [OF _ _ one(1)] by blast
  next
    case set_local
    from local_effect(2) [OF t(1) ne gd(4) set_local(2)] show ?thesis using u32 [OF _ _ one(2)] by blast
  next
    case tee_local
    from local_effect(3) [OF t(1) ne gd(4) tee_local(2)] show ?thesis using u32 [OF _ _ one(1)] by blast
  next
    case get_global
    from global_effect(1) [OF t(1) ne gd(1) get_global(2)] show ?thesis using u32 [OF _ _ one(1)] by blast
  next
    case set_global
    from global_effect(2) [OF t(1) ne gd(1) set_global(2) gd(5)] show ?thesis using u32 [OF _ _ one(2)] by blast
  next
    case memory_size
    from memory_effect(1) [OF t(1) ne memory_size(2)] show ?thesis using goes_inside [OF _ r(1) ss(1) one(1) ne] by blast
  next
    case memory_grow
    from memory_effect(2) [OF t(1) ne memory_grow(2)] show ?thesis using goes_inside [OF _ r(1) ss(1) one(1) ne] by blast
  next
    case i32_const
    from const_effect(1) [OF t(1) ne i32_const(2)] show ?thesis using goes_inside [OF _ r(3) ss(3) one(1) ne] by blast
  next
    case i64_const
    from const_effect(2) [OF t(1) ne i64_const(2)] show ?thesis using goes_inside [OF _ r(4) ss(4) one(1) ne] by blast
  next
    case f32_const
    from const_effect(3) [OF t(1) ne f32_const(2)] show ?thesis using goes_inside [OF _ r(5) ss(5) one(1) ne] by blast
  next
    case f64_const
    from const_effect(4) [OF t(1) ne f64_const(2)] show ?thesis using goes_inside [OF _ r(6) ss(6) one(1) ne] by blast
  next
    case drop
    obtain u where "plain [u] [] F F'" "rewritten DROP_64 u F F'" by (rule drop_effect [OF drop(2) t(1) ne])
    then show ?thesis by (rule rewritten_inside [OF _ _ t(2) _ ne]) simp
  next
    case select
    obtain u where "plain [I32, u, u] [u] F F'" "rewritten SELECT_64 u F F'" by (rule select_effect [OF select(2) t(1) ne a])
    then show ?thesis by (rule rewritten_inside [OF _ _ t(2) _ ne]) simp
  next
    case return
    obtain G where G: "plain (ReturnTypes FT) [] F G" "leave G = Inr F'" "same_pos F F'"
      by (rule return_effect [OF return(2) t(1) fit_small [OF fit] B gd(2,3)])
    have "fit p G" using G(3) same_pos_ops(1) [OF G(2)] plainD(4) [OF G(1)] fit by (auto simp: fit_def same_pos_def in_data_def)
    then show ?thesis by (rule leave_inside [OF G(2) plainD(1) [OF G(1)]]) (use plainD [OF G(1)] ne in simp_all)
  next
    case call
    from call_effect(1) [OF t(1) ne gd(1) call(2)] obtain i G T where
      c: "readU32 F = Inr (i, G)" "getFunctionType (unat i) M = Inr T" "goes (rev (ParamTypes T)) (ReturnTypes T) F G F'" by blast
    then show ?thesis using u32 [OF c(1,3)] function_good [OF c(2) gd(1)] by (simp add: good_entry_def)
  next
    case call_indirect
    from call_effect(2) [OF t(1) ne gd(1) call_indirect(2)] obtain i G H T where
      c: "readU32 F = Inr (i, G)" "readByte G = Inr (0, H)" "getDeclaredType (unat i) M = Inr T"
      "goes (I32 # rev (ParamTypes T)) (ReturnTypes T) F H F'" by blast
    have "roomy p H" "same_stacks F H"
      using roomy_readers(1) [OF r(2) [OF c(1)] c(2)] same_stacks_trans [OF ss(2) [OF c(1)] ss(1) [OF c(2)]] .
    then show ?thesis using goes_inside [OF c(4) _ _ _ ne] declared_good [OF c(3) gd(1)] by (simp add: good_entry_def)
  next
    case (memory_op ts us)
    note m = mem_op_good [OF memory_op(1)]
    from memory_effect(3) [OF t(1) ne memory_op(2) m(1,2)] obtain v G w H where
      c: "readU32 F = Inr (v, G)" "readU32 G = Inr (w, H)" "goes ts (rev us) F H F'" by blast
    have "roomy p H" "same_stacks F H"
      using roomy_readers(2) [OF r(2) [OF c(1)] c(2)] same_stacks_trans [OF ss(2) [OF c(1)] ss(2) [OF c(2)]] .
    then show ?thesis using goes_inside [OF c(3) _ _ _ ne] m(3) by simp
  next
    case (simple n v w)
    note q = simple_op_good [OF simple(1)]
    show ?thesis
      by (rule plain_inside [OF popAndPush_plain [OF simple(2) q t(1) ne] t(2) _ same_pos_ops(2) [OF simple(2)] _ ne]) simp_all
  qed
qed

text \<open>The instructions that change the blocks.\<close>

definition entered :: "LabelType \<Rightarrow> WASMType \<Rightarrow> FunctionLoader \<Rightarrow> ControlBlock" where
  "entered L ty F = \<lparr>StackPolymorphic = False, BLabel = L, BlockType = ValBlock ty, StartPtr = Ptr F, ElsePtr = None,
     InitStackSize = StackSize F, InitNumValues = length (ValueTypes F)\<rparr>"

lemma pushBlock_entered: "ControlBlocks (pushBlock L (ValBlock ty) (Ptr G) G) = entered L ty G # ControlBlocks G"
  "ValueTypes (pushBlock L T q G) = ValueTypes G" "MaxStackSize (pushBlock L T q G) = MaxStackSize G"
  "MaxBlockDepth (pushBlock L T q G) = max (MaxBlockDepth G) (length (ControlBlocks G) + 1)" "same_pos G (pushBlock L T q G)"
  by (simp_all add: pushBlock_def entered_def Let_def same_pos_def)

lemma enter_effect:
  assumes l: "load_op M FT Ls b F = Inr F'" and t: "typed F" "roomy p F" and ne: "ControlBlocks F \<noteq> []" and b: "b \<in> {BLOCK, LOOP, IF}"
  obtains ty G H L where "plain (if b = IF then [I32] else []) [] F G" "same_pos F G" "readBlockType G = Inr (ty, H)" "same_stacks G H"
    "F' = pushBlock L (ValBlock ty) (Ptr H) H" "L = (if b = IF then LABEL_IF else if b = LOOP then LABEL_LOOP else LABEL_BLOCK)"
    "is_val ty \<or> ty = VOID" "typed F'" "fit p F'" "enters F F'"
proof -
  obtain G L where G: "plain (if b = IF then [I32] else []) [] F G" "same_pos F G" "load_block L G = Inr F'"
    "L = (if b = IF then LABEL_IF else if b = LOOP then LABEL_LOOP else LABEL_BLOCK)"
  proof (cases "b = IF")
    case True
    then obtain u G where G: "popValueType I32 F = Inr (u, G)" "load_block LABEL_IF G = Inr F'"
      using l by (auto simp: load_op_def load_if_def bindE_Inr_iff)
    then show thesis using that [of G] pop_val [OF G(1) _ t(1) ne] same_pos_stack(1) [OF G(1)] True by simp
  next
    case False
    then show thesis using that [of F] plain_refl [OF t(1) ne] l b by (auto simp: load_op_def split: if_splits)
  qed
  have L: "L \<noteq> LABEL_FUNCTION" using G(4) by (simp split: if_splits)
  obtain ty H where H: "readBlockType G = Inr (ty, H)" "F' = pushBlock L (ValBlock ty) (Ptr H) H" "typed F'" "is_val ty \<or> ty = VOID"
    by (rule block_effect [OF G(3) plainD(1) [OF G(1)] plain_blocks [OF G(1) ne] L])
  have s: "same_stacks G H" by (rule same_stacks_readers(7) [OF H(1)])
  have "fit p G" using fit_pos [OF roomyD(1) [OF t(2)] G(2)] plainD(4) [OF G(1)] by simp
  moreover obtain c where "readByte G = Inr (c, H)" using H(1) by (auto simp: readBlockType_def readTypeBase_def bindE_Inr_iff split: if_splits)
  ultimately have "fit p H" using fit_read [OF _ readers_advance(1) s] by (auto simp: fit_def)
  then have "fit p F'" unfolding H(2) by (rule fit_pos [OF _ pushBlock_entered(5)]) (simp add: pushBlock_entered)
  moreover have "enters F F'"
    using plainD(2,3) [OF G(1)] s by (simp add: enters_def H(2) pushBlock_entered entered_def same_stacks_def)
  ultimately show thesis using that [OF G(1,2) H(1) s H(2) G(4) H(4,3)] by blast
qed

lemma end_exits:
  assumes l: "load_op M FT Ls END F = Inr F'" and t: "typed F" "roomy p F" and ne: "ControlBlocks F \<noteq> []"
  shows "exits F F'" "typed F'" "fit p F'" "MaxStackSize F \<le> MaxStackSize F'" "same_pos F F'" "MaxBlockDepth F' = MaxBlockDepth F"
proof -
  obtain b bs where B: "ControlBlocks F = b # bs" using ne by (auto simp: neq_Nil_conv)
  have l': "load_end F = Inr F'" using l by (simp add: load_op_def)
  note e = end_effect [OF l' t(1) fit_small [OF roomyD(1) [OF t(2)]] B]
  show "typed F'" "MaxStackSize F \<le> MaxStackSize F'" "same_pos F F'" "MaxBlockDepth F' = MaxBlockDepth F" using e by simp_all
  show "fit p F'" using fit_pos1 [OF _ _ e(4) e(6)] t(2) by (auto simp: roomy_def)
  show "exits F F'" using e B by (auto simp: exits_def same_pos_def)
qed

lemma else_stays:
  assumes l: "load_op M FT Ls ELSE F = Inr F'" and t: "typed F" "roomy p F" and B: "ControlBlocks F = b # bs"
  shows "BLabel b = LABEL_IF" "ElsePtr b = None" "typed F'" "fit p F'" "stays F F'"
    "ControlBlocks F' = b\<lparr>ElsePtr := Some (Ptr F - 1), StackPolymorphic := False\<rparr> # bs"
    "ValueTypes F' = bottom (InitNumValues b) (ValueTypes F)" "MaxStackSize F \<le> MaxStackSize F'" "same_pos F F'"
    "\<not> StackPolymorphic b \<Longrightarrow> ValueTypes F = results b @ bottom (InitNumValues b) (ValueTypes F)"
    "MaxBlockDepth F' = MaxBlockDepth F"
proof -
  have l': "load_else F = Inr F'" using l by (simp add: load_op_def)
  note e = else_effect [OF l' t(1) fit_small [OF roomyD(1) [OF t(2)]] B]
  have le: "InitNumValues b \<le> length (ValueTypes F)" using typedD(3) [OF t(1)] B by simp
  show "BLabel b = LABEL_IF" "ElsePtr b = None" "typed F'" "ControlBlocks F' = b\<lparr>ElsePtr := Some (Ptr F - 1), StackPolymorphic := False\<rparr> # bs"
    "ValueTypes F' = bottom (InitNumValues b) (ValueTypes F)" "MaxStackSize F \<le> MaxStackSize F'" "same_pos F F'"
    "\<not> StackPolymorphic b \<Longrightarrow> ValueTypes F = results b @ bottom (InitNumValues b) (ValueTypes F)" "MaxBlockDepth F' = MaxBlockDepth F"
    using e by blast+
  show "fit p F'" using fit_pos [OF roomyD(1) [OF t(2)] e(6)] e(5) le by simp
  show "stays F F'" using e(4,5) B le by (auto simp: stays_def frm_def)
qed

end
