(* ===== verification/Wasm_Trace.thy ===== *)
theory Wasm_Trace
  imports Wasm_Steps
begin

text \<open>
  The states that the function loader goes through, one per instruction, and the structure of the blocks in them:
  where a block starts and ends, and what stays the same in between.
\<close>

section \<open>Traces\<close>

definition trace :: "Module \<Rightarrow> TypeEntry \<Rightarrow> WASMType list \<Rightarrow> FunctionLoader list \<Rightarrow> bool" where
  "trace M FT Ls Fs \<longleftrightarrow> Fs \<noteq> [] \<and> End (last Fs) \<le> Ptr (last Fs) \<and>
     (\<forall>i. Suc i < length Fs \<longrightarrow> Ptr (Fs ! i) < End (Fs ! i) \<and> load_step M FT Ls (Fs ! i) = Inr (Fs ! Suc i))"

lemma load_loop_trace: "load_loop M FT Ls F = Inr F' \<Longrightarrow> \<exists>Fs. trace M FT Ls Fs \<and> hd Fs = F \<and> last Fs = F'"
proof (induction M FT Ls F rule: load_loop.induct)
  case (1 M FT Ls F)
  show ?case
  proof (cases "Ptr F < End F")
    case True
    then obtain G where G: "load_step M FT Ls F = Inr G" "load_loop M FT Ls G = Inr F'"
      using "1.prems" by (subst (asm) load_loop.simps) (auto split: sum.splits)
    obtain Fs where Fs: "trace M FT Ls Fs" "hd Fs = G" "last Fs = F'" using "1.IH" [OF True G] by blast
    then have "trace M FT Ls (F # Fs)"
      using True G(1) by (auto simp: trace_def nth_Cons hd_conv_nth split: nat.splits)
    then show ?thesis using Fs by (intro exI [of _ "F # Fs"]) (auto simp: trace_def)
  next
    case False
    then show ?thesis using "1.prems" by (subst (asm) load_loop.simps) (intro exI [of _ "[F]"], auto simp: trace_def)
  qed
qed

text \<open>Code that pushes no value of unknown type: the types of the stack are known in every state.\<close>

function known_types :: "Module \<Rightarrow> TypeEntry \<Rightarrow> WASMType list \<Rightarrow> FunctionLoader \<Rightarrow> bool" where
  "known_types M FT Ls F \<longleftrightarrow> ANY \<notin> set (ValueTypes F) \<and>
     (Ptr F < End F \<longrightarrow>
       (case load_step M FT Ls F of Inl _ \<Rightarrow> False | Inr F' \<Rightarrow> known_types M FT Ls F'))"
  by auto
termination
  by (relation "measure (\<lambda>(M, FT, Ls, F). End F - Ptr F)") (auto dest!: load_step_progress)

declare known_types.simps [simp del]

lemma known_trace:
  assumes "trace M FT Ls Fs" and "known_types M FT Ls (hd Fs)" and "i < length Fs"
  shows "known_types M FT Ls (Fs ! i)"
  using assms(3)
proof (induction i)
  case 0
  then show ?case using assms by (simp add: hd_conv_nth trace_def)
next
  case (Suc i)
  then have "known_types M FT Ls (Fs ! i)" "Ptr (Fs ! i) < End (Fs ! i)" "load_step M FT Ls (Fs ! i) = Inr (Fs ! Suc i)"
    using assms(1) by (auto simp: trace_def)
  then show ?case by (subst (asm) known_types.simps) simp
qed

lemma knownD: "known_types M FT Ls F \<Longrightarrow> ANY \<notin> set (ValueTypes F)"
  by (subst (asm) known_types.simps) simp

section \<open>Levels\<close>

abbreviation level :: "FunctionLoader \<Rightarrow> nat" where
  "level F \<equiv> length (ControlBlocks F)"

text \<open>The blocks from the outermost one.\<close>

abbreviation outer :: "FunctionLoader \<Rightarrow> ControlBlock list" where
  "outer F \<equiv> rev (ControlBlocks F)"

abbreviation blk :: "nat \<Rightarrow> FunctionLoader \<Rightarrow> ControlBlock" where
  "blk d F \<equiv> outer F ! (d - 1)"

definition base :: "nat \<Rightarrow> FunctionLoader \<Rightarrow> WASMType list" where
  "base d F = bottom (InitNumValues (blk d F)) (ValueTypes F)"

definition keeps_blk :: "nat \<Rightarrow> FunctionLoader \<Rightarrow> FunctionLoader \<Rightarrow> bool" where
  "keeps_blk d F F' \<longleftrightarrow> frm (blk d F') = frm (blk d F) \<and> take (d - 1) (outer F') = take (d - 1) (outer F) \<and> base d F' = base d F"

lemma frmD:
  assumes "frm b' = frm b"
  shows "BLabel b' = BLabel b" "BlockType b' = BlockType b" "StartPtr b' = StartPtr b" "InitStackSize b' = InitStackSize b"
    "InitNumValues b' = InitNumValues b"
  using assms by (cases b; cases b'; simp add: frm_def)+

lemma keeps_blk_trans: "keeps_blk d F G \<Longrightarrow> keeps_blk d G H \<Longrightarrow> keeps_blk d F H"
  by (simp add: keeps_blk_def)

lemma wf_floor: "wf_blocks (b # bs) V \<Longrightarrow> c \<in> set bs \<Longrightarrow> InitNumValues c \<le> InitNumValues b"
proof (induction bs arbitrary: b V)
  case (Cons a bs)
  then have "InitNumValues a \<le> InitNumValues b" "wf_blocks (a # bs) (bottom (InitNumValues b) V)" by auto
  then show ?case using Cons.IH [of a "bottom (InitNumValues b) V"] Cons.prems(2) by fastforce
qed simp

lemma floor_mono:
  assumes "typed F" and "1 \<le> d" "d \<le> level F"
  shows "InitNumValues (blk d F) \<le> floor_of F" "floor_of F \<le> length (ValueTypes F)"
proof -
  obtain b bs where B: "ControlBlocks F = b # bs" using assms(2,3) by (cases "ControlBlocks F") auto
  have "blk d F \<in> set (outer F)" using assms(2,3) by (intro nth_mem) simp
  then have "blk d F = b \<or> blk d F \<in> set bs" using B by auto
  then show "InitNumValues (blk d F) \<le> floor_of F" using wf_floor [of b bs "ValueTypes F"] assms(1) B by (auto simp: typed_def)
  show "floor_of F \<le> length (ValueTypes F)" using assms(1) B by (auto simp: typed_def)
qed

lemma base_floor:
  assumes "typed F" and "1 \<le> d" "d \<le> level F"
  shows "base d F = bottom (InitNumValues (blk d F)) (bottom (floor_of F) (ValueTypes F))"
  using floor_mono [OF assms] by (simp add: base_def)

lemma stays_keeps:
  assumes "stays F F'" and "typed F" "typed F'" and "1 \<le> d" "d \<le> level F"
  shows "keeps_blk d F F'" "level F' = level F"
proof -
  obtain b b' bs where B: "ControlBlocks F = b # bs" "ControlBlocks F' = b' # bs" "frm b' = frm b"
    "bottom (InitNumValues b) (ValueTypes F') = bottom (InitNumValues b) (ValueTypes F)"
    using assms(1) by (auto simp: stays_def)
  show l: "level F' = level F" using B by simp
  have f: "frm (blk d F') = frm (blk d F)" using B assms(4,5) by (auto simp: nth_append)
  then have "base d F' = base d F"
    using base_floor [OF assms(2,4,5)] base_floor [OF assms(3,4)] l assms(5) B frmD(5) [OF B(3)] frmD(5) [OF f] by simp
  then show "keeps_blk d F F'" using f B assms(4,5) by (simp add: keeps_blk_def)
qed

lemma enters_keeps:
  assumes "enters F F'" and "typed F" "typed F'" and "1 \<le> d" "d \<le> level F"
  shows "keeps_blk d F F'" "level F' = Suc (level F)"
proof -
  obtain b where B: "ControlBlocks F' = b # ControlBlocks F" "InitNumValues b = length (ValueTypes F')"
    "bottom (floor_of F) (ValueTypes F') = bottom (floor_of F) (ValueTypes F)"
    using assms(1) by (auto simp: enters_def)
  show "level F' = Suc (level F)" using B by simp
  have f: "blk d F' = blk d F" using B assms(4,5) by (simp add: nth_append)
  have "floor_of F \<le> length (ValueTypes F')"
  proof -
    have "wf_blocks (ControlBlocks F) (ValueTypes F')" using assms(3) B by (simp add: typed_def)
    then show ?thesis using assms(4,5) by (cases "ControlBlocks F") auto
  qed
  then have "base d F' = base d F"
    using base_floor [OF assms(2,4,5)] B f floor_mono(1) [OF assms(2,4,5)] by (metis base_def bottom_bottom)
  then show "keeps_blk d F F'" using f B assms(4,5) by (simp add: keeps_blk_def)
qed

lemma exits_keeps:
  assumes "exits F F'" and "typed F" "typed F'" and "1 \<le> d" "d \<le> level F'"
  shows "keeps_blk d F F'" "level F = Suc (level F')"
proof -
  obtain b where B: "ControlBlocks F = b # ControlBlocks F'" "ValueTypes F' = results b @ bottom (InitNumValues b) (ValueTypes F)"
    using assms(1) by (auto simp: exits_def)
  show l: "level F = Suc (level F')" using B by simp
  have f: "blk d F' = blk d F" using B assms(4,5) by (simp add: nth_append)
  have d: "d \<le> level F" using l assms(5) by simp
  have "base d F' = base d F"
    using base_floor [OF assms(2,4) d] B f floor_mono [OF assms(2,4) d] by (simp add: base_def)
  then show "keeps_blk d F F'" using f B assms(4,5) by (simp add: keeps_blk_def)
qed

section \<open>Traces of accepted functions\<close>

definition valid :: "Module \<Rightarrow> TypeEntry \<Rightarrow> WASMType list \<Rightarrow> nat \<Rightarrow> FunctionLoader list \<Rightarrow> bool" where
  "valid M FT Ls p Fs \<longleftrightarrow> trace M FT Ls Fs \<and> known_types M FT Ls (hd Fs) \<and> good_context M FT Ls \<and>
     typed (hd Fs) \<and> fit p (hd Fs) \<and> ControlBlocks (hd Fs) \<noteq> [] \<and> ControlBlocks (last Fs) = []"

abbreviation opcode :: "FunctionLoader \<Rightarrow> u8" where
  "opcode F \<equiv> Data F ! Ptr F"

text \<open>One step of a trace: the opcode is read, and then the instruction is loaded.\<close>

definition step_from :: "Module \<Rightarrow> TypeEntry \<Rightarrow> WASMType list \<Rightarrow> nat \<Rightarrow> FunctionLoader \<Rightarrow> FunctionLoader \<Rightarrow> FunctionLoader \<Rightarrow> bool" where
  "step_from M FT Ls p F G F' \<longleftrightarrow> typed F \<and> fit p F \<and> ControlBlocks F \<noteq> [] \<and> readByte F = Inr (opcode F, G) \<and>
     load_op M FT Ls (opcode F) G = Inr F' \<and> G = F\<lparr>Ptr := Ptr F + 1\<rparr> \<and> Ptr F < End F \<and> End F \<le> length (Data F) \<and>
     ANY \<notin> set (ValueTypes F') \<and> good_context M FT Ls"

lemma step_fromD:
  assumes "step_from M FT Ls p F G F'"
  shows "typed G" "roomy p G" "ControlBlocks G \<noteq> []" "same_stacks F G" "Ptr G = Ptr F + 1" "Data G = Data F" "End G = End F"
    "load_op M FT Ls (opcode F) G = Inr F'" "good_context M FT Ls" "ANY \<notin> set (ValueTypes F')" "ControlBlocks G = ControlBlocks F"
    "ValueTypes G = ValueTypes F" "typed F" "ControlBlocks F \<noteq> []" "readByte F = Inr (opcode F, G)"
proof -
  have r: "readByte F = Inr (opcode F, G)" "fit p F" "typed F" "ControlBlocks F \<noteq> []" using assms by (auto simp: step_from_def)
  have s: "same_stacks F G" by (rule same_stacks_readers(1) [OF r(1)])
  show "typed G" "ControlBlocks G \<noteq> []" using typed_read [OF s r(3,4)] .
  show "roomy p G" using roomy_read [OF r(2) readers_advance(1) [OF _ r(1)] s] r(2) by (simp add: fit_def)
  show "same_stacks F G" by (rule s)
  show "Ptr G = Ptr F + 1" "Data G = Data F" "End G = End F" "load_op M FT Ls (opcode F) G = Inr F'" "good_context M FT Ls"
    "ANY \<notin> set (ValueTypes F')" "ControlBlocks G = ControlBlocks F" "ValueTypes G = ValueTypes F" "typed F" "ControlBlocks F \<noteq> []"
    "readByte F = Inr (opcode F, G)"
    using assms by (auto simp: step_from_def)
qed

text \<open>What a step does to the blocks, by its opcode.\<close>

definition kind :: "FunctionLoader \<Rightarrow> FunctionLoader \<Rightarrow> bool" where
  "kind F F' \<longleftrightarrow>
     (if opcode F \<in> {BLOCK, LOOP, IF} then enters F F'
      else if opcode F = END then exits F F'
      else stays F F' \<and> (if opcode F = ELSE then ElsePtr (cur F) = None \<and> ElsePtr (cur F') = Some (Ptr F)
        else ElsePtr (cur F') = ElsePtr (cur F)))"

lemma enters_same: "same_stacks F G \<Longrightarrow> enters G F' \<longleftrightarrow> enters F F'"
  and stays_same: "same_stacks F G \<Longrightarrow> stays G F' \<longleftrightarrow> stays F F'"
  and exits_same: "same_stacks F G \<Longrightarrow> exits G F' \<longleftrightarrow> exits F F'"
  by (simp_all add: enters_def stays_def exits_def same_stacks_def)

lemma step_kind:
  assumes s: "step_from M FT Ls p F G F'"
  shows "typed F'" "fit p F'" "kind F F'" "MaxStackSize F \<le> MaxStackSize F'" "MaxBlockDepth F \<le> MaxBlockDepth F'"
proof -
  note d = step_fromD [OF s]
  have m: "MaxStackSize G = MaxStackSize F" "MaxBlockDepth G = MaxBlockDepth F" using d(4) by (simp_all add: same_stacks_def)
  consider "opcode F \<in> {BLOCK, LOOP, IF}" | "opcode F = END" | "opcode F = ELSE" | "opcode F \<notin> special" by (auto simp: special_def)
  then have "typed F' \<and> fit p F' \<and> kind F F' \<and> MaxStackSize G \<le> MaxStackSize F' \<and> MaxBlockDepth G \<le> MaxBlockDepth F'"
  proof cases
    case 1
    obtain ty K H L where e: "plain (if opcode F = IF then [I32] else []) [] G K" "same_stacks K H" "F' = pushBlock L (ValBlock ty) (Ptr H) H"
      "typed F'" "fit p F'" "enters G F'"
      by (rule enter_effect [OF d(8,1,2,3) 1])
    have "MaxStackSize F' = MaxStackSize K" "MaxBlockDepth K \<le> MaxBlockDepth F'" using e(2,3) by (simp_all add: pushBlock_entered same_stacks_def)
    then show ?thesis using e plainD [OF e(1)] 1 enters_same [OF d(4)] by (simp add: kind_def)
  next
    case 2
    then show ?thesis using end_exits [OF _ d(1,2,3), of M FT Ls F'] d(8) exits_same [OF d(4)] by (simp add: kind_def)
  next
    case 3
    obtain b bs where B: "ControlBlocks G = b # bs" using d(3) by (auto simp: neq_Nil_conv)
    note e = else_stays [OF d(8) [unfolded 3] d(1,2) B]
    show ?thesis using e B 3 d(5,11) stays_same [OF d(4)] by (auto simp: kind_def)
  next
    case 4
    have "inside p G F'" by (rule op_inside [OF d(8,1,2,3) 4 d(9,10)])
    then show ?thesis using 4 d(11) stays_same [OF d(4)] by (auto simp: kind_def inside_def special_def)
  qed
  then show "typed F'" "fit p F'" "kind F F'" "MaxStackSize F \<le> MaxStackSize F'" "MaxBlockDepth F \<le> MaxBlockDepth F'" using m by auto
qed

lemma step_from_trace:
  assumes v: "valid M FT Ls p Fs" and i: "Suc i < length Fs" and t: "typed (Fs ! i)" "fit p (Fs ! i)" "ControlBlocks (Fs ! i) \<noteq> []"
  shows "\<exists>G. step_from M FT Ls p (Fs ! i) G (Fs ! Suc i)"
proof -
  have tr: "Ptr (Fs ! i) < End (Fs ! i)" "load_step M FT Ls (Fs ! i) = Inr (Fs ! Suc i)" using v i by (auto simp: valid_def trace_def)
  have c: "known_types M FT Ls (Fs ! i)" "known_types M FT Ls (Fs ! Suc i)" using v i known_trace [of M FT Ls Fs] by (auto simp: valid_def)
  obtain b G where G: "readByte (Fs ! i) = Inr (b, G)" "load_op M FT Ls b G = Inr (Fs ! Suc i)"
    using tr(2) by (auto simp: load_step_def bindE_Inr_iff)
  have "End (Fs ! i) \<le> length (Data (Fs ! i))" using t(2) by (simp add: fit_def in_data_def)
  moreover have "b = opcode (Fs ! i)" "G = (Fs ! i)\<lparr>Ptr := Ptr (Fs ! i) + 1\<rparr>" using G(1) by (auto simp: readByte_def split: if_splits)
  ultimately show ?thesis using G t tr(1) knownD [OF c(2)] v
    by (auto simp: step_from_def valid_def)
qed

lemma valid_states:
  assumes v: "valid M FT Ls p Fs" and i: "i < length Fs"
  shows "typed (Fs ! i) \<and> fit p (Fs ! i) \<and> (Suc i < length Fs \<longrightarrow> ControlBlocks (Fs ! i) \<noteq> [])"
  using i
proof (induction i)
  case 0
  then show ?case using v by (auto simp: valid_def hd_conv_nth)
next
  case (Suc i)
  then have IH: "typed (Fs ! i)" "fit p (Fs ! i)" "ControlBlocks (Fs ! i) \<noteq> []" by auto
  obtain G where "step_from M FT Ls p (Fs ! i) G (Fs ! Suc i)" using step_from_trace [OF v Suc.prems IH] by blast
  note k = step_kind [OF this]
  have "ControlBlocks (Fs ! Suc i) \<noteq> []" if "Suc (Suc i) < length Fs"
  proof
    assume e: "ControlBlocks (Fs ! Suc i) = []"
    then have "exits (Fs ! i) (Fs ! Suc i)" using k(3) by (auto simp: kind_def enters_def stays_def split: if_splits)
    then have "End (Fs ! Suc i) \<le> Ptr (Fs ! Suc i)" using e by (auto simp: exits_def)
    then show False using v that by (auto simp: valid_def trace_def)
  qed
  then show ?case using k by simp
qed

lemma valid_step:
  assumes v: "valid M FT Ls p Fs" and i: "Suc i < length Fs"
  obtains G where "step_from M FT Ls p (Fs ! i) G (Fs ! Suc i)"
  using step_from_trace [OF v i] valid_states [OF v, of i] i by auto

lemma valid_kind:
  assumes v: "valid M FT Ls p Fs" and i: "Suc i < length Fs"
  shows "kind (Fs ! i) (Fs ! Suc i)" "MaxStackSize (Fs ! i) \<le> MaxStackSize (Fs ! Suc i)" "MaxBlockDepth (Fs ! i) \<le> MaxBlockDepth (Fs ! Suc i)"
    "typed (Fs ! i)" "typed (Fs ! Suc i)" "ControlBlocks (Fs ! i) \<noteq> []" "1 \<le> level (Fs ! i)"
proof -
  obtain G where s: "step_from M FT Ls p (Fs ! i) G (Fs ! Suc i)" by (rule valid_step [OF assms])
  show "kind (Fs ! i) (Fs ! Suc i)" "MaxStackSize (Fs ! i) \<le> MaxStackSize (Fs ! Suc i)" "MaxBlockDepth (Fs ! i) \<le> MaxBlockDepth (Fs ! Suc i)"
    "typed (Fs ! Suc i)" using step_kind [OF s] by simp_all
  show "typed (Fs ! i)" "ControlBlocks (Fs ! i) \<noteq> []" "1 \<le> level (Fs ! i)" using step_fromD(13,14) [OF s] by (simp_all add: Suc_le_eq)
qed

lemma max_mono:
  assumes v: "valid M FT Ls p Fs" and "i \<le> j" "j < length Fs"
  shows "MaxStackSize (Fs ! i) \<le> MaxStackSize (Fs ! j)" "MaxBlockDepth (Fs ! i) \<le> MaxBlockDepth (Fs ! j)"
proof -
  have "MaxStackSize (Fs ! i) \<le> MaxStackSize (Fs ! j) \<and> MaxBlockDepth (Fs ! i) \<le> MaxBlockDepth (Fs ! j)"
    using assms(2,3)
  proof (induction rule: dec_induct)
    case (step n)
    then show ?case using valid_kind(2,3) [OF v, of n] by fastforce
  qed simp
  then show "MaxStackSize (Fs ! i) \<le> MaxStackSize (Fs ! j)" "MaxBlockDepth (Fs ! i) \<le> MaxBlockDepth (Fs ! j)" by auto
qed

lemma valid_bounds:
  assumes v: "valid M FT Ls p Fs" and i: "i < length Fs"
  shows "good_types (ValueTypes (Fs ! i))" "unat (StackSize (Fs ! i)) = tsizes (ValueTypes (Fs ! i))"
    "tsizes (ValueTypes (Fs ! i)) \<le> unat (MaxStackSize (last Fs))" "level (Fs ! i) \<le> MaxBlockDepth (last Fs)"
proof -
  have t: "typed (Fs ! i)" "fit p (Fs ! i)" using valid_states [OF v i] by auto
  have l: "last Fs = Fs ! (length Fs - 1)" using v by (simp add: valid_def trace_def last_conv_nth)
  have m: "MaxStackSize (Fs ! i) \<le> MaxStackSize (last Fs)" "MaxBlockDepth (Fs ! i) \<le> MaxBlockDepth (last Fs)"
    unfolding l by (rule max_mono [OF v]; use i in simp)+
  show "good_types (ValueTypes (Fs ! i))" using t by (simp add: typed_def)
  show s: "unat (StackSize (Fs ! i)) = tsizes (ValueTypes (Fs ! i))" using small_size [of "ValueTypes (Fs ! i)"] t(1) fit_small [OF t(2)]
    by (simp add: typed_def small_def of_nat_fits)
  have "StackSize (Fs ! i) \<le> MaxStackSize (last Fs)" using t(1) m(1) by (auto simp: typed_def)
  then show "tsizes (ValueTypes (Fs ! i)) \<le> unat (MaxStackSize (last Fs))" using s by (simp add: word_le_nat_alt)
  show "level (Fs ! i) \<le> MaxBlockDepth (last Fs)" using t(1) m(2) by (simp add: typed_def)
qed

text \<open>How the level changes.\<close>

lemma kind_level:
  assumes "kind F F'"
  shows "level F' = (if opcode F \<in> {BLOCK, LOOP, IF} then level F + 1 else if opcode F = END then level F - 1 else level F)"
    "opcode F = END \<Longrightarrow> level F = Suc (level F')"
  using assms by (auto simp: kind_def enters_def exits_def stays_def)

lemma kind_keeps:
  assumes "kind F F'" and "typed F" "typed F'" and "1 \<le> d" "d \<le> level F" "d \<le> level F'"
  shows "keeps_blk d F F'"
  using assms stays_keeps enters_keeps exits_keeps by (auto simp: kind_def split: if_splits)

lemma interval:
  assumes v: "valid M FT Ls p Fs" and "i \<le> j" "j < length Fs" and l: "\<forall>k\<in>{i..j}. d \<le> level (Fs ! k)" and d: "1 \<le> d"
  shows "keeps_blk d (Fs ! i) (Fs ! j)"
  using assms(2,3) l
proof (induction rule: dec_induct)
  case base
  then show ?case by (simp add: keeps_blk_def)
next
  case (step n)
  then have n: "Suc n < length Fs" by simp
  note k = valid_kind [OF v n]
  have "d \<le> level (Fs ! n)" "d \<le> level (Fs ! Suc n)" using step.prems(2) step.hyps by simp_all
  then have "keeps_blk d (Fs ! n) (Fs ! Suc n)" by (rule kind_keeps [OF k(1,4,5) d])
  moreover have "keeps_blk d (Fs ! i) (Fs ! n)" by (rule step.IH) (use step.prems(2) n in simp_all)
  ultimately show ?case by (rule keeps_blk_trans [rotated])
qed

section \<open>Where blocks start and end\<close>

definition end_at :: "FunctionLoader list \<Rightarrow> nat \<Rightarrow> nat \<Rightarrow> nat \<Rightarrow> bool" where
  "end_at Fs i d e \<longleftrightarrow> i \<le> e \<and> Suc e < length Fs \<and> (\<forall>k\<in>{i..e}. d \<le> level (Fs ! k)) \<and> level (Fs ! Suc e) < d"

lemma end_at_within:
  assumes "end_at Fs i d e" and "i \<le> j" "\<forall>k\<in>{i..j}. d \<le> level (Fs ! k)"
  shows "j \<le> e"
proof (rule ccontr)
  assume "\<not> j \<le> e"
  then have "d \<le> level (Fs ! Suc e)" using assms by (auto simp: end_at_def)
  then show False using assms(1) by (simp add: end_at_def)
qed

lemma end_at_unique: "end_at Fs i d e \<Longrightarrow> end_at Fs i d e' \<Longrightarrow> e = e'"
  using end_at_within [of Fs i d e e'] end_at_within [of Fs i d e' e] by (auto simp: end_at_def)

lemma end_at_exists:
  assumes v: "valid M FT Ls p Fs" and i: "i < length Fs" and d: "1 \<le> d" "d \<le> level (Fs ! i)"
  shows "\<exists>e. end_at Fs i d e"
proof -
  let ?P = "\<lambda>k. i < k \<and> k < length Fs \<and> level (Fs ! k) < d"
  have last: "level (Fs ! (length Fs - 1)) = 0" using v last_conv_nth [of Fs] by (auto simp: valid_def trace_def)
  have "i \<noteq> length Fs - 1" using last d by auto
  then have "?P (length Fs - 1)" using i last d(1) by auto
  then obtain n where n: "?P n" "\<forall>k<n. \<not> ?P k" using exists_least_iff [of ?P] by blast
  have "d \<le> level (Fs ! k)" if "k \<in> {i..n - 1}" for k
  proof (cases "k = i")
    case False
    then have "i < k" "k < n" using that n(1) by auto
    then show ?thesis using n by (auto simp: not_less)
  qed (use d(2) in simp)
  then show ?thesis using n(1) by (intro exI [of _ "n - 1"]) (auto simp: end_at_def)
qed

lemma end_atD:
  assumes v: "valid M FT Ls p Fs" and e: "end_at Fs i d e" and d: "1 \<le> d"
  shows "opcode (Fs ! e) = END" "level (Fs ! e) = d" "level (Fs ! Suc e) = d - 1" "exits (Fs ! e) (Fs ! Suc e)" "keeps_blk d (Fs ! i) (Fs ! e)"
proof -
  have e': "i \<le> e" "Suc e < length Fs" "d \<le> level (Fs ! e)" "level (Fs ! Suc e) < d" "\<forall>k\<in>{i..e}. d \<le> level (Fs ! k)"
    using e by (auto simp: end_at_def)
  note k = valid_kind [OF v e'(2)]
  have o: "opcode (Fs ! e) = END" using kind_level(1) [OF k(1)] e'(3,4) by (auto split: if_splits)
  then show "opcode (Fs ! e) = END" "level (Fs ! e) = d" "level (Fs ! Suc e) = d - 1" "exits (Fs ! e) (Fs ! Suc e)"
    using kind_level(2) [OF k(1)] e'(3,4) k(1) by (auto simp: kind_def)
  show "keeps_blk d (Fs ! i) (Fs ! e)" by (rule interval [OF v e'(1) _ e'(5) d]) (use e' in simp)
qed

lemma end_at_later: "end_at Fs i d e \<Longrightarrow> i \<le> j \<Longrightarrow> \<forall>k\<in>{i..j}. d \<le> level (Fs ! k) \<Longrightarrow> end_at Fs j d e"
  using end_at_within [of Fs i d e j] by (auto simp: end_at_def)

lemma end_at_step: "end_at Fs i d e \<Longrightarrow> d \<le> level (Fs ! Suc i) \<Longrightarrow> end_at Fs (Suc i) d e"
  by (rule end_at_later) (auto simp: end_at_def le_Suc_eq)

text \<open>The state right after the start of a block.\<close>

definition fresh_blk :: "nat \<Rightarrow> FunctionLoader \<Rightarrow> bool" where
  "fresh_blk d F \<longleftrightarrow> level F = d \<and> \<not> StackPolymorphic (cur F) \<and> ElsePtr (cur F) = None \<and> StartPtr (cur F) = Ptr F \<and>
     floor_of F = length (ValueTypes F)"

definition start_at :: "FunctionLoader list \<Rightarrow> nat \<Rightarrow> nat \<Rightarrow> nat \<Rightarrow> bool" where
  "start_at Fs s i d \<longleftrightarrow> s \<le> i \<and> (\<forall>k\<in>{s..i}. d \<le> level (Fs ! k)) \<and> fresh_blk d (Fs ! s)"

lemma enters_fresh: "enters F F' \<Longrightarrow> fresh_blk (level F') F'"
  by (auto simp: enters_def fresh_blk_def)

lemma start_at_exists:
  assumes v: "valid M FT Ls p Fs" and h: "fresh_blk 1 (hd Fs)" and i: "i < length Fs" and d: "1 \<le> d" "d \<le> level (Fs ! i)"
  shows "\<exists>s. start_at Fs s i d"
  using i d
proof (induction i)
  case 0
  then have "level (Fs ! 0) = 1" "Fs ! 0 = hd Fs" using h v by (auto simp: fresh_blk_def hd_conv_nth valid_def trace_def)
  then show ?case using 0 h by (intro exI [of _ 0]) (auto simp: start_at_def)
next
  case (Suc i)
  note k = valid_kind [OF v Suc.prems(1)]
  show ?case
  proof (cases "d \<le> level (Fs ! i)")
    case True
    then obtain s where "start_at Fs s i d" using Suc by auto
    then show ?thesis using Suc.prems(3) by (intro exI [of _ s]) (auto simp: start_at_def le_Suc_eq)
  next
    case False
    then have "enters (Fs ! i) (Fs ! Suc i)" "d = level (Fs ! Suc i)"
      using kind_level(1) [OF k(1)] Suc.prems(3) k(1) by (auto simp: kind_def split: if_splits)
    then show ?thesis using enters_fresh by (intro exI [of _ "Suc i"]) (auto simp: start_at_def)
  qed
qed

end
