(* ===== verification/Wasm_Theorems.thy ===== *)
theory Wasm_Theorems
  imports Wasm_Memory Wasm_Trace
begin

text \<open>
  The properties of the WebAssembly part: the numbers of the binary format, the validation of function bodies and the
  integer instructions.
\<close>

section \<open>Numbers\<close>

text \<open>
  C9. The loader reads exactly the numbers of the binary format: \<open>readU32\<close>, \<open>readI32\<close> and \<open>readI64\<close> succeed if
  and only if the input starts with a terminated LEB128 string of at most 5, 5 and 10 bytes whose value is in the range
  of the type. They return this value and stop right after the string.
\<close>

theorem leb_exact:
  assumes "in_data L"
  shows "(readU32 L = Inr (v, L') \<longleftrightarrow> leb_read False 5 L v L') \<and> (readI32 L = Inr (v, L') \<longleftrightarrow> leb_read True 5 L v L') \<and>
    (readI64 L = Inr (w, L') \<longleftrightarrow> leb_read True 10 L w L')"
  using readers_exact [OF assms] by blast

theorem leb_exact_witness:
  "let L = \<lparr>Data = [0xe5, 0x8e, 0x26, 0x7f], Ptr = 0, End = 4\<rparr> in
   in_data L \<and> leb_read False 5 L (624485 :: u32) (L\<lparr>Ptr := 3\<rparr>) \<and> leb_read True 5 (L\<lparr>Ptr := 3\<rparr>) (- 1 :: u32) (L\<lparr>Ptr := 4\<rparr>)"
  using leb_exact [of "\<lparr>Data = [0xe5, 0x8e, 0x26, 0x7f], Ptr = 0, End = 4\<rparr>" 624485 "\<lparr>Data = [0xe5, 0x8e, 0x26, 0x7f], Ptr = 3, End = 4\<rparr>"]
    leb_exact [of "\<lparr>Data = [0xe5, 0x8e, 0x26, 0x7f], Ptr = 3, End = 4\<rparr>" "- 1" "\<lparr>Data = [0xe5, 0x8e, 0x26, 0x7f], Ptr = 4, End = 4\<rparr>"]
  by (simp add: in_data_def readU32_def readI32_def readLEB_def readLEBNumber_def MaxBytes_def Let_def mask_eq_exp_minus_1)

section \<open>Function bodies\<close>

lemma load_valid:
  assumes "load M FT Ls (new_FunctionLoader D p e) = Inr F'" and "good_context M FT Ls"
    and "p \<le> e" "e \<le> length D" "e < p + 2 ^ 28"
    and "known_types M FT Ls (pushBlock LABEL_FUNCTION (FuncBlock FT) p (new_FunctionLoader D p e))"
  obtains Fs where "valid M FT Ls p Fs" "fresh_blk 1 (hd Fs)" "hd Fs = pushBlock LABEL_FUNCTION (FuncBlock FT) p (new_FunctionLoader D p e)"
    "last Fs = F'"
proof -
  let ?F = "pushBlock LABEL_FUNCTION (FuncBlock FT) p (new_FunctionLoader D p e)"
  obtain G where "load_loop M FT Ls ?F = Inr G" "ControlBlocks G = []" "Ptr G = End G" "G = F'"
    using assms(1) by (auto simp: load_def bindE_Inr_iff new_FunctionLoader_def split: if_splits)
  moreover from this obtain Fs where Fs: "trace M FT Ls Fs" "hd Fs = ?F" "last Fs = G" using load_loop_trace by blast
  moreover have "typed ?F" "fit p ?F" "ControlBlocks ?F \<noteq> []" "fresh_blk 1 ?F"
    using assms(2-5)
    by (auto simp: pushBlock_def new_FunctionLoader_def typed_def fit_def in_data_def fresh_blk_def Let_def wf_block_def good_context_def
        good_entry_def tsizes_def)
  ultimately have "valid M FT Ls p Fs" "fresh_blk 1 (hd Fs)" using assms(2,6) by (auto simp: valid_def)
  then show ?thesis using that [of Fs] Fs \<open>G = F'\<close> by blast
qed

text \<open>
  C10. Take the body of a function that validates, of less than 256 MB, in whose validation no value of unknown type is ever
  on the stack, which can only happen in unreachable code. Then in every state that the loader goes through the stack
  size it counts is the size of the types on the stack and at most the stack size it returns, and the blocks nest at
  most as deep as the block depth it returns. From these two numbers the interpreter computes the size of a frame.
\<close>

theorem load_bounds_stack:
  assumes "load M FT Ls (new_FunctionLoader D p e) = Inr F'" and "good_context M FT Ls"
    and "p \<le> e" "e \<le> length D" "e < p + 2 ^ 28"
    and "known_types M FT Ls (pushBlock LABEL_FUNCTION (FuncBlock FT) p (new_FunctionLoader D p e))"
  shows "\<exists>Fs. trace M FT Ls Fs \<and> hd Fs = pushBlock LABEL_FUNCTION (FuncBlock FT) p (new_FunctionLoader D p e) \<and> last Fs = F' \<and>
    (\<forall>F \<in> set Fs. good_types (ValueTypes F) \<and> unat (StackSize F) = tsizes (ValueTypes F) \<and>
      tsizes (ValueTypes F) \<le> unat (MaxStackSize F') \<and> length (ControlBlocks F) \<le> MaxBlockDepth F')"
proof -
  obtain Fs where Fs: "valid M FT Ls p Fs" "hd Fs = pushBlock LABEL_FUNCTION (FuncBlock FT) p (new_FunctionLoader D p e)" "last Fs = F'"
    by (rule load_valid [OF assms])
  have "trace M FT Ls Fs" "Fs \<noteq> []" using Fs(1) by (auto simp: valid_def trace_def)
  moreover have "good_types (ValueTypes F) \<and> unat (StackSize F) = tsizes (ValueTypes F) \<and>
      tsizes (ValueTypes F) \<le> unat (MaxStackSize F') \<and> length (ControlBlocks F) \<le> MaxBlockDepth F'" if m: "F \<in> set Fs" for F
  proof -
    obtain i where i: "i < length Fs" "F = Fs ! i" using m unfolding in_set_conv_nth by blast
    show ?thesis unfolding i(2) Fs(3) [symmetric] by (intro conjI valid_bounds [OF Fs(1) i(1)])
  qed
  ultimately show ?thesis using Fs(2,3) by (intro exI [of _ Fs]) simp
qed

definition example_type :: TypeEntry where
  "example_type = \<lparr>NumParamCells = 1, NumReturnCells = 2, ReturnTypes = [I64], ParamTypes = [I32], SmallestTypeIdx = 0\<rparr>"

definition example_code :: "u8 list" where
  "example_code = [GET_LOCAL, 0, IF, 0x7e, I64_CONST, 5, ELSE, I64_CONST, 7, I64_CONST, 9, DROP, END, RETURN, END]"

theorem load_bounds_stack_witness:
  "\<exists>F' Fs. load new_Module example_type [] (new_FunctionLoader example_code 0 15) = Inr F' \<and> unat (MaxStackSize F') = 16 \<and>
    trace new_Module example_type [] Fs \<and> last Fs = F' \<and> (\<forall>F \<in> set Fs. tsizes (ValueTypes F) \<le> 16)"
proof -
  let ?F = "new_FunctionLoader example_code 0 15"
  have 1: "case load new_Module example_type [] ?F of Inl _ \<Rightarrow> False | Inr F \<Rightarrow> MaxStackSize F = 16" by code_simp
  then obtain F' where F': "load new_Module example_type [] ?F = Inr F'" "MaxStackSize F' = 16" by (auto split: sum.splits)
  have 2: "known_types new_Module example_type [] (pushBlock LABEL_FUNCTION (FuncBlock example_type) 0 ?F)" by code_simp
  have 3: "good_context new_Module example_type []" "15 \<le> length example_code"
    by (simp_all add: good_context_def good_module_def good_entry_def new_Module_def example_type_def example_code_def)
  show ?thesis using load_bounds_stack [OF F'(1) 3(1) _ 3(2) _ 2] F' by fastforce
qed

section \<open>Integer instructions\<close>



section \<open>A function that needs more stack than the loader counts\<close>

text \<open>
  The function pushes a value of 4 bytes and, in a block, one of 8 bytes, with which it leaves the block. After
  \<open>unreachable\<close> in the block a \<open>select\<close> takes three values that are not there; the value it pushes has the unknown
  type, which counts 4 bytes, and the end of the block takes it for the 8 bytes of the result.
\<close>

definition drift_type :: TypeEntry where
  "drift_type = \<lparr>NumParamCells = 0, NumReturnCells = 0, ReturnTypes = [], ParamTypes = [], SmallestTypeIdx = 0\<rparr>"

definition drift_code :: "u8 list" where
  "drift_code = [I32_CONST, 0, BLOCK, 0x7e, I64_CONST, 0, I32_CONST, 1, BR_IF, 0, DROP, UNREACHABLE, SELECT, END,
     I64_CONST, 0, I64_CONST, 0, RETURN, END]"

definition drift_module :: Module where
  "drift_module = new_Module\<lparr>TypeTable := [drift_type], InternalFunctionTable := [\<lparr>FuncName = None, TypeIdx = 0, OriginTypeIdx = 0\<rparr>]\<rparr>"

definition drift_with_code :: "FunctionLoader \<Rightarrow> Module" where
  "drift_with_code F = drift_module\<lparr>CodeTable := [\<lparr>CodePtr = 0, CodeSize = 20, CMaxStackSize = MaxStackSize F, CMaxBlockDepth = MaxBlockDepth F,
       NumLocalCells = 0, LocalTypes = [], LocalOffsets = [], CStats = Stats F, CodeOffset = 0\<rparr>]\<rparr>"

definition drift_loaded :: FunctionLoader where
  "drift_loaded = \<lparr>Data = [I32_CONST, 0, BLOCK, 0x7e, I64_CONST, 0, I32_CONST, 1, BR_IF, 0, DROP_64, UNREACHABLE, SELECT, END,
     I64_CONST, 0, I64_CONST, 0, RETURN, END], Ptr = 20, End = 20, Stats = 0, StackSize = 0, MaxStackSize = 24, MaxBlockDepth = 2,
     ControlBlocks = [], ValueTypes = []\<rparr>"

lemma drift_load: "load drift_module drift_type [] (new_FunctionLoader drift_code 0 20) = Inr drift_loaded"
  by code_simp

definition drift_fn :: FunctionInstance where
  "drift_fn = \<lparr>FNumParamCells = 0, FNumLocalCells = 0, FMaxStackSize = 24, FMaxBlockDepth = 2, FCodeSize = 20, FKind = ByteCode, FNumReturnCells = 0,
    FReturnTypes = [], FParamTypes = [], FuncType = drift_type, FLocalTypes = [], FLocalOffsets = [], FCodePtr = 0\<rparr>"

lemma drift_inst: "instantiate alloc fresh 0 [] (drift_with_code drift_loaded) 0 = Inr (new_Instance 0\<lparr>Functions := [drift_fn]\<rparr>)"
  by (simp add: instantiate_def instantiateGlobals_def instantiateFunctions_def instantiateTables_def instantiateMemories_def
    drift_with_code_def drift_module_def drift_loaded_def new_Module_def new_Instance_def getNumTotalFunctions_def getNumTotalTables_def getNumTotalMemories_def
    getNumTotalGlobals_def bytecode_inst_def function_inst_def drift_type_def drift_fn_def align_up_def Alignment_def getFunctionTypeIdx_def Let_def isValidFunc_def)

definition drift_start :: interp where
  "drift_start = \<lparr>IFrames = [\<lparr>FFunc = drift_fn, FIp = 0, Values = [], Ctrl = [\<lparr>TargetAddr = Some 19, BValues = 0, CellNum = 0, ILabel = LABEL_FUNCTION\<rparr>],
     LocalVars = [], FrameAddr = 0\<rparr>], StackTop = 152, IInst = new_Instance 0\<lparr>Functions := [drift_fn]\<rparr>,
     LinearMemSize = 0, ElseAddr = None, EndAddr = None, BlockAddrCache = (\<lambda>_. None)\<rparr>"

lemma drift_frame: "start_frame X 0 [] (new_Instance 0\<lparr>Functions := [drift_fn]\<rparr>) = Inr drift_start"
  by (simp add: start_frame_def getFunctionInst_def allocFrame_def drift_fn_def Let_def new_Instance_def drift_start_def
     PresetReservedStackSize_def sizeof_InterpFrame_def sizeof_BlockInfo_def u32_cast_def blockPush_def set_frame_def IpEnd_def)

lemma drift_interpret: "wasm_interpret X M D n drift_start = interp_run X M D n drift_start"
  by (simp add: wasm_interpret_def drift_start_def drift_fn_def)

lemmas drift_simps = interp_step_def exec_op_def IpEnd_def drift_fn_def with_frame_def go_on_def set_frame_def exec_const_def
  imm_def readSafeLEBNumber_def push_cells_def valuePush32_def valuePush64_def cells64_def Let_def
  exec_block_def read_cell_num_def getWASMBlockTypeFromOpcode_def getWASMTypeCellNum.simps find_block_def findBlockAddr_def
  skip_operands_def skipLEBNumber_def MaxBytes_def cache_end_def blockPush_def exec_br_if_def valuePop32_def pop_cells_def blockPop_def bottom_def
  skipBlockType_def exec_end_def


lemmas interp_run_numeral = interp_run.simps(2) [where n = "pred_numeral k" for k, folded numeral_eq_Suc]
  find_loop.simps(2) [where n = "pred_numeral k" for k, folded numeral_eq_Suc]

lemma drift_run: "interp_run X M (Data drift_loaded) 8 drift_start = Inl Abort"
  by (simp add: drift_loaded_def drift_start_def interp_run_numeral drift_simps)

text \<open>
  The bound on the stack fails for code that pushes a value of unknown type: the loader accepts this function with a
  stack size of 24 bytes, the module can be instantiated, and after seven instructions the interpreter pushes beyond the
  end of the value stack of the frame.
\<close>

lemma unknown_value_overflow:
  "\<exists>F I. load drift_module drift_type [] (new_FunctionLoader drift_code 0 20) = Inr F \<and> MaxStackSize F = 24 \<and>
    instantiate alloc fresh 0 [] (drift_with_code F) 0 = Inr I \<and>
    callWasmFunction X (drift_with_code F) (Data F) 0 [] I 8 = Inl Abort"
proof (intro exI conjI)
  show "load drift_module drift_type [] (new_FunctionLoader drift_code 0 20) = Inr drift_loaded" by (rule drift_load)
  show "MaxStackSize drift_loaded = 24" by (simp add: drift_loaded_def)
  show "instantiate alloc fresh 0 [] (drift_with_code drift_loaded) 0 = Inr (new_Instance 0\<lparr>Functions := [drift_fn]\<rparr>)" by (rule drift_inst)
  show "callWasmFunction X (drift_with_code drift_loaded) (Data drift_loaded) 0 [] (new_Instance 0\<lparr>Functions := [drift_fn]\<rparr>) 8 = Inl Abort"
    by (simp add: callWasmFunction_def drift_frame drift_interpret drift_run)
qed

end
