(* ===== verification/Spec2Isabelle.thy ===== *)
theory Spec2Isabelle
  imports Memory_Spec Interpreter_Theorems Cache_Theorems Handler_Theorems Vm_Theorems Wasm_Theorems
begin

text \<open>
  A verification development of DTVM, a virtual machine for Ethereum (EVM) and WebAssembly contracts. Paths are
  relative to \<open>src/src\<close> of the repository.

  \<^bold>\<open>The program.\<close> A client drives DTVM through the EVMC interface (\<open>vm/dt_evmc_vm.cpp\<close>): \<open>execute\<close> looks the code
  up in a cache of modules, takes an instance for the call depth and runs it. In interpreter mode the run is
  \<open>BaseInterpreter::interpret\<close> (\<open>evm/interpreter.cpp\<close>): it charges the gas of a chunk of instructions at its
  start, and runs the chunk on a fast path, in one build by computed gotos and in the other by a \<open>switch\<close>; where a
  chunk cannot be charged at once it goes back to a slow path that checks every instruction. The chunks, the jump destinations and the decoded
  \<open>PUSH\<close> values come from a cache of the bytecode (\<open>evm/evm_cache.cpp\<close>), which uses graph analyses to move costs
  between chunks. The handlers of the instructions are in \<open>evm/opcode_handlers.cpp\<close>. Independent of this, WebAssembly
  modules are read and validated (\<open>action/function_loader.cpp\<close>), instantiated (\<open>action/instantiator.cpp\<close>) and run by
  an interpreter of their own (\<open>action/interpreter.cpp\<close>).

  \<^bold>\<open>Conventions\<close> (\<open>Prelude\<close>). Machine integers are words of their width. A C++ function returns a value of type
  \<open>'a res\<close>: its result, a thrown error, an abort (a failed assertion) or undefined behaviour. Objects are records, and
  methods take and return them. What is outside the repository, the EVMC interface and its host, \<open>intx\<close>, the
  instruction tables and compiled code, is a parameter (\<open>Evmc\<close>), and so is the hash function of the installed
  \<open>CryptoInterface\<close>, which a client can replace; what the code relies on is a named hypothesis
  such as \<open>ext_ok\<close>, and \<open>Reference_Ext\<close> shows that it can hold.

  \<^bold>\<open>EVM state and handlers.\<close>
  \<^item> \<open>Gas_Storage_Cost\<close>: \<open>evm/gas_storage_cost.cpp\<close>, the tables of \<open>SSTORE\<close> costs, and that net metering telescopes.
  \<^item> \<open>Evm_Instance\<close>, \<open>Evm_Frame\<close>, \<open>Evm_Module\<close>: \<open>runtime/evm_instance.cpp\<close>, the frames and contexts of
    \<open>evm/interpreter.h\<close>, and the data of a module.
  \<^item> \<open>Memory_Cost\<close> and \<open>Memory_Gas\<close>: the price of memory, computed in two places that both interpret the locale
    \<open>memory_cost\<close>, and the helpers that grow memory and charge gas.
  \<^item> \<open>Handlers_Base\<close>, \<open>Alu_Handlers\<close>, \<open>Env_Handlers\<close>, \<open>Mem_Handlers\<close>, \<open>Storage_Handlers\<close>, \<open>Call_Handlers\<close>: the
    handlers of \<open>evm/opcode_handlers.cpp\<close> in the order of that file.
  \<^item> \<open>Memory_Spec\<close>: memory as a function from addresses to bytes, which the memory handlers refine.
  \<^item> \<open>Handler_Theorems\<close>, \<open>Restore_State\<close>: static mode, gas across sub-calls, reuse of frames, and the state that the
    interpreter takes over from compiled code.

  \<^bold>\<open>Bytecode cache\<close> (\<open>evm/evm_cache.cpp\<close>).
  \<^item> \<open>Opcode_Class\<close>, \<open>Jump_Cache\<close>: instruction boundaries, jump destinations and push values.
  \<^item> \<open>Gas_Blocks\<close>, \<open>Cfg\<close>, \<open>Dominators\<close>, \<open>Loops\<close>: blocks, the graph over them, dominators on bit sets, natural loops.
  \<^item> \<open>Bytecode_Cache\<close>: the cost shifting and \<open>buildBytecodeCache\<close> itself.
  \<^item> \<open>Cache_Correct\<close>, \<open>Cache_Theorems\<close>: the specification of a cache as the locale \<open>cache_provider\<close>, which
    \<open>buildBytecodeCache\<close> interprets, and the exactness of the analyses.

  \<^bold>\<open>EVM interpreter\<close> (\<open>evm/interpreter.cpp\<close>).
  \<^item> \<open>Interp_Steps\<close>, \<open>Dispatch\<close>, \<open>Interp_Loop\<close>, \<open>Interpreter\<close>: the targets of both fast paths and the slow path, the
    dispatch tables, the loops, and the whole function.
  \<^item> \<open>Interp_Inv\<close>, \<open>Cgoto_Safety\<close>, \<open>Interp_Safety\<close>: an invariant that every iteration keeps, without undefined
    behaviour.
  \<^item> \<open>Interp_Termination\<close>, \<open>Interp_Run\<close>, \<open>Portable_Equiv\<close>, \<open>Interpreter_Theorems\<close>: a run that ends has not gone wrong,
    whatever the revisions of module and instance; if they agree, the loops end and both builds compute the same.
  \<^item> \<open>Evm_Call\<close>: the calls of \<open>runtime/runtime.cpp\<close> in interpreter mode.

  \<^bold>\<open>EVMC virtual machine\<close> (\<open>vm/dt_evmc_vm.cpp\<close>).
  \<^item> \<open>Evm_Runtime\<close>, \<open>Evmc_Vm\<close>: the store of modules, the module cache, instances, contexts, and \<open>execute\<close>.
  \<^item> \<open>Vm_Inv\<close>, \<open>Vm_Exec\<close>, \<open>Vm_Steps\<close>, \<open>Vm_Theorems\<close>: the invariant of the cache, entering and leaving calls, nested
    calls as a step relation, and the theorems on whole calls, one of which is that the fast path of the code makes
    exactly these steps.

  \<^bold>\<open>WebAssembly.\<close>
  \<^item> \<open>Wasm_Reader\<close>: \<open>utils/wasm.h\<close> and \<open>action/loader_common.h\<close>; the readers of numbers are exact.
  \<^item> \<open>Wasm_Module\<close>: types and tables of a module (\<open>common/type.h\<close>, \<open>runtime/module.h\<close>).
  \<^item> \<open>Wasm_Function\<close>: \<open>action/function_loader.cpp\<close>, the validation of function bodies.
  \<^item> \<open>Wasm_Numeric\<close>, \<open>Wasm_Instance\<close>, \<open>Wasm_Interp\<close>: numeric instructions, instances and the instantiator, and the
    interpreter with its entry.
  \<^item> \<open>Wasm_Memory\<close>: the linear memory during whole runs, and its loads and stores.
  \<^item> \<open>Wasm_Steps\<close>, \<open>Wasm_Trace\<close>, \<open>Wasm_Theorems\<close>: what every instruction does to the stacks of the loader, the
    sequence of its states with the nesting of blocks, and the theorems.

  \<^bold>\<open>Bounds.\<close> The loops of the EVM interpreter take fuel; running out is the value \<open>None\<close>. \<open>interpret_fuel\<close> and
  \<open>call_fuel\<close>, which are linear in the gas and in the size of the code for each unit of gas, are enough when
  the module has been built for the revision of the instance, as \<open>Interpreter_Theorems\<close> proves: an iteration of the outer loop lowers the gas or raises the program counter, and a
  chunk is left after as many dispatches as it has bytes. The loops of the graph analyses have fuel that their
  correctness theorems show to be enough. The function loader is a terminating function, as every instruction moves the
  pointer. \<open>find_loop\<close> has one unit of fuel per byte. \<open>interp_run\<close> makes a given number of steps, as WebAssembly code
  may run forever.

  \<^bold>\<open>Not modelled.\<close> The compilers (\<open>singlepass\<close>, \<open>compiler\<close>), whose code is a parameter of the virtual machine that
  need not return; the hash function of \<open>host/evm/keccak\<close>; the
  reader of the sections of a WebAssembly module (\<open>action/module_loader.cpp\<close>), of which the tables and the function
  loader are modelled; host modules (\<open>host\<close>, \<open>wni\<close>), which are parameters of the interpreters; the platform layer,
  entry points in assembly, the command line, logging and statistics; builds with the DWASM limits, checked arithmetic,
  CPU exceptions, the fallback of single modules to the interpreter or the virtual stack. C++ behaviour that is
  undefined, such as the overflow of signed integers and shifts by the width or more in the WebAssembly interpreter, is
  the outcome \<open>UB\<close>.
\<close>

end
